(* ===== verification/Prelude.thy ===== *)
theory Prelude
  imports Complex_Main "HOL-Library.Word" "HOL-Library.Code_Target_Nat"
begin

text \<open>
  The prelude of the development: the collections of simplification rules the
  component theories share, names for the machine types of the Go sources, and the
  generic facts on lists, options and maps that carry the component proofs.

  Conventions of the translation.  A Go \<open>string\<close> is a sequence of bytes, so it is the
  \<open>string\<close> of HOL (a list of 8-bit characters).  A \<open>[]byte\<close> is a list of \<open>8 word\<close>.  The
  integers of Go are words of their width wherever the code truncates, shifts or
  encodes them, and \<open>int\<close> where the code only compares identifiers.  A Go map is a
  partial function; a loop that ranges over a map takes the order of the keys as an
  argument, because the language leaves it open.
\<close>

named_theorems float_simps \<open>evaluation and order of IEEE floating point values\<close>
named_theorems wire_simps \<open>one step of a protocol buffer decoder\<close>
named_theorems alarm_simps \<open>effects of the alarm transitions on one field of the state\<close>

type_synonym byte = "8 word"
type_synonym bytes = "byte list"

section \<open>Lists\<close>

lemma drop_length_append [simp]: "drop (length xs) (xs @ ys) = ys"
  by simp

section \<open>Folds that may not touch part of the state\<close>

text \<open>A field that no step of a fold changes is unchanged by the fold.\<close>

lemma fold_frame:
  assumes "\<And>x s. x \<in> set xs \<Longrightarrow> g (f x s) = g s"
  shows "g (fold f xs s) = g s"
  using assms by (induction xs arbitrary: s) auto

lemma fold_invariant_set:
  assumes "P s" and "\<And>x s. x \<in> set xs \<Longrightarrow> P s \<Longrightarrow> P (f x s)"
  shows "P (fold f xs s)"
  using assms by (induction xs arbitrary: s) auto

end
