(* ===== verification/Go_Float.thy ===== *)
theory Go_Float
  imports Prelude "HOL-Library.Log_Nat"
begin

unbundle bit_operations_syntax

text \<open>
  The \<open>float64\<close> and \<open>float32\<close> of Go: IEEE 754 binary formats as their bit patterns, so
  that \<open>math.Float64bits\<close> and \<open>math.Float64frombits\<close> are the identity.  Arithmetic is
  exact arithmetic on rationals followed by one rounding to nearest, ties to even.  A
  non-negative float is its magnitude, a natural number \<open>n\<close> that counts the floats
  below it; the order of floats is the order of their signed magnitudes.  The lemmas
  at the end are what the components use: rounding is monotone, and it is the
  identity on representable values.
\<close>

section \<open>Rounding a rational to a magnitude\<close>

definition rhe :: "rat \<Rightarrow> int" where
  "rhe q = (let f = \<lfloor>q\<rfloor>; r = q - of_int f in
     if r < 1/2 then f else if r > 1/2 then f + 1 else if even f then f else f + 1)"

definition ilog2 :: "rat \<Rightarrow> int" where
  "ilog2 q = (let (n, d) = quotient_of q; k = bitlen n - bitlen d
     in if 2 powi k \<le> q then k else k - 1)"

definition ulp_exp :: "nat \<Rightarrow> int \<Rightarrow> rat \<Rightarrow> int" where
  "ulp_exp mb qe q = max (ilog2 q - int mb) qe"

definition round_mag :: "nat \<Rightarrow> int \<Rightarrow> rat \<Rightarrow> nat" where
  "round_mag mb qe q = (if q \<le> 0 then 0 else
     (let e = ulp_exp mb qe q in nat ((e - qe) * 2 ^ mb + rhe (q / 2 powi e))))"

definition mag_val :: "nat \<Rightarrow> int \<Rightarrow> nat \<Rightarrow> rat" where
  "mag_val mb qe n = (if n < 2 ^ mb then of_nat n * 2 powi qe
     else of_nat (2 ^ mb + n mod 2 ^ mb) * 2 powi (int (n div 2 ^ mb) - 1 + qe))"

subsection \<open>The integer logarithm and rounding to an integer\<close>

lemma rhe_of_int [simp]: "rhe (of_int k) = k"
  by (simp add: rhe_def)

lemma rhe_bounds: "\<lfloor>q\<rfloor> \<le> rhe q \<and> rhe q \<le> \<lfloor>q\<rfloor> + 1"
  by (simp add: rhe_def Let_def)

lemma rhe_mono: "q \<le> q' \<Longrightarrow> rhe q \<le> rhe q'"
proof -
  assume le: "q \<le> q'"
  show ?thesis
  proof (cases "\<lfloor>q\<rfloor> = \<lfloor>q'\<rfloor>")
    case True
    then show ?thesis using le by (auto simp: rhe_def Let_def)
  next
    case False
    with le have "\<lfloor>q\<rfloor> + 1 \<le> \<lfloor>q'\<rfloor>" by (metis floor_mono add1_zle_eq order_less_le)
    with rhe_bounds[of q] rhe_bounds[of q'] show ?thesis by linarith
  qed
qed

lemma rhe_ge: "of_int k \<le> q \<Longrightarrow> k \<le> rhe q"
  using rhe_mono[of "of_int k" q] by simp

lemma rhe_le: "q \<le> of_int k \<Longrightarrow> rhe q \<le> k"
  using rhe_mono[of q "of_int k"] by simp

lemma two_powi_less: "(2::rat) powi m < 2 powi n \<longleftrightarrow> m < n"
  by (meson linorder_not_less one_less_numeral_iff power_int_increasing power_int_strict_increasing
      semiring_norm(76) less_imp_le)

lemma two_powi_of_int:
  assumes "0 < n"
  shows "(2::rat) powi (bitlen n - 1) \<le> of_int n" and "of_int n < (2::rat) powi bitlen n"
proof -
  have b: "2 ^ nat (bitlen n - 1) \<le> n" "n < 2 ^ nat (bitlen n)" and p: "0 < bitlen n"
    using bitlen_bounds[OF assms] assms by (auto simp: bitlen_alt_def)
  from b have "of_int (2 ^ nat (bitlen n - 1)) \<le> (of_int n :: rat)"
    "(of_int n :: rat) < of_int (2 ^ nat (bitlen n))"
    by (simp_all only: of_int_le_iff of_int_less_iff)
  with p show "(2::rat) powi (bitlen n - 1) \<le> of_int n" "of_int n < (2::rat) powi bitlen n"
    by (simp_all add: power_int_nonneg_exp)
qed

lemma ilog2_bounds:
  assumes "0 < q"
  shows "2 powi (ilog2 q) \<le> q \<and> q < 2 powi (ilog2 q + 1)"
proof -
  obtain n d where nd: "quotient_of q = (n, d)" by fastforce
  then have q: "q = of_int n / of_int d" and d: "0 < d"
    by (auto dest: quotient_of_div quotient_of_denom_pos)
  from q d assms have n: "0 < n"
    by (simp add: zero_less_divide_iff)
  define k where "k = bitlen n - bitlen d"
  note bits = two_powi_of_int[OF n] two_powi_of_int[OF d]
  have dpos: "0 < (of_int d :: rat)" using d by simp
  have "(2::rat) powi (k - 1) * of_int d \<le> 2 powi (k - 1) * 2 powi bitlen d"
    using bits(4) by (intro mult_left_mono) auto
  also have "\<dots> = 2 powi (bitlen n - 1)"
    by (simp add: k_def power_int_add[symmetric])
  also have "\<dots> \<le> of_int n" by (rule bits(1))
  finally have lo: "(2::rat) powi (k - 1) \<le> q"
    using dpos by (simp add: q pos_le_divide_eq)
  have "of_int n < (2::rat) powi bitlen n" by (rule bits(2))
  also have "\<dots> = 2 powi (k + 1) * 2 powi (bitlen d - 1)"
    by (simp add: k_def power_int_add[symmetric])
  also have "\<dots> \<le> 2 powi (k + 1) * of_int d"
    using bits(3) by (intro mult_left_mono) auto
  finally have hi: "q < 2 powi (k + 1)"
    using dpos by (simp add: q pos_divide_less_eq)
  show ?thesis
    using lo hi by (auto simp: ilog2_def nd k_def[symmetric] Let_def)
qed

lemma ilog2_unique:
  assumes "2 powi k \<le> q" and "q < 2 powi (k + 1)"
  shows "ilog2 q = k"
proof -
  have pos: "0 < q" using assms(1) by (meson less_le_trans zero_less_power_int zero_less_numeral)
  note b = ilog2_bounds[OF pos]
  have "(2::rat) powi ilog2 q < 2 powi (k + 1)" using b assms by linarith
  then have "ilog2 q < k + 1" by (simp add: two_powi_less)
  moreover have "(2::rat) powi k < 2 powi (ilog2 q + 1)" using b assms by linarith
  then have "k < ilog2 q + 1" by (simp add: two_powi_less)
  ultimately show ?thesis by simp
qed

lemma ilog2_mono: "0 < q \<Longrightarrow> q \<le> q' \<Longrightarrow> ilog2 q \<le> ilog2 q'"
proof -
  assume a: "0 < q" "q \<le> q'"
  then have "(2::rat) powi ilog2 q < 2 powi (ilog2 q' + 1)"
    using ilog2_bounds[of q] ilog2_bounds[of q'] by linarith
  then show ?thesis by (simp add: two_powi_less)
qed

subsection \<open>Rounding is monotone and exact on representable values\<close>

lemma ulp_exp_mono: "0 < q \<Longrightarrow> q \<le> q' \<Longrightarrow> ulp_exp mb qe q \<le> ulp_exp mb qe q'"
  using ilog2_mono[of q q'] by (auto simp: ulp_exp_def)

text \<open>A value scaled by its unit in the last place fits the mantissa.\<close>

lemma scaled_upper:
  assumes "0 < q"
  shows "q / 2 powi ulp_exp mb qe q < 2 ^ (mb + 1)"
proof -
  have "q < 2 powi (ilog2 q + 1)" using ilog2_bounds[OF assms] by simp
  also have "\<dots> \<le> 2 powi (int mb + 1 + ulp_exp mb qe q)"
    by (rule power_int_increasing) (auto simp: ulp_exp_def)
  also have "\<dots> = 2 powi (int mb + 1) * 2 powi ulp_exp mb qe q"
    by (simp add: power_int_add)
  finally show ?thesis
    by (simp add: pos_divide_less_eq power_int_nonneg_exp nat_add_distrib)
qed

lemma scaled_lower:
  assumes "0 < q" and "qe < ulp_exp mb qe q"
  shows "2 ^ mb \<le> q / 2 powi ulp_exp mb qe q"
proof -
  have e: "ulp_exp mb qe q = ilog2 q - int mb"
    using assms(2) by (auto simp: ulp_exp_def)
  have "2 powi (int mb) * (2::rat) powi (ilog2 q - int mb) = 2 powi (ilog2 q)"
    by (subst power_int_add[symmetric]) auto
  then have "2 ^ mb * (2::rat) powi ulp_exp mb qe q = 2 powi (ilog2 q)"
    by (simp add: e)
  also have "\<dots> \<le> q" using ilog2_bounds[OF assms(1)] by simp
  finally show ?thesis by (simp add: pos_le_divide_eq)
qed

lemma round_mag_mono:
  assumes "q \<le> q'"
  shows "round_mag mb qe q \<le> round_mag mb qe q'"
proof (cases "0 < q")
  case False
  then show ?thesis by (simp add: round_mag_def)
next
  case True
  let ?e = "ulp_exp mb qe q" and ?e' = "ulp_exp mb qe q'"
  have q': "0 < q'" using True assms by simp
  have le: "?e \<le> ?e'" by (rule ulp_exp_mono[OF True assms])
  have "(?e - qe) * 2 ^ mb + rhe (q / 2 powi ?e) \<le> (?e' - qe) * 2 ^ mb + rhe (q' / 2 powi ?e')"
  proof (cases "?e = ?e'")
    case eq: True
    have "q / 2 powi ?e \<le> q' / 2 powi ?e" using assms by (simp add: divide_right_mono)
    then show ?thesis using eq rhe_mono by simp
  next
    case False
    with le have lt: "?e + 1 \<le> ?e'" by simp
    have "qe \<le> ?e" by (simp add: ulp_exp_def)
    then have "2 ^ mb \<le> rhe (q' / 2 powi ?e')"
      using scaled_lower[OF q'] lt by (intro rhe_ge) simp
    moreover have "rhe (q / 2 powi ?e) \<le> 2 ^ (mb + 1)"
      using scaled_upper[OF True] by (intro rhe_le) (simp add: less_imp_le)
    moreover have "(?e - qe) * 2 ^ mb + 2 ^ mb \<le> (?e' - qe) * 2 ^ mb"
      using mult_right_mono[of "?e - qe + 1" "?e' - qe" "2 ^ mb :: int"] lt
      by (simp add: algebra_simps)
    ultimately show ?thesis by simp
  qed
  then show ?thesis using True q' by (simp add: round_mag_def Let_def nat_mono)
qed

lemma mag_val_nonneg [simp]: "0 \<le> mag_val mb qe n"
  by (simp add: mag_val_def)

lemma mag_val_not_neg [simp]: "\<not> mag_val mb qe n < 0"
  by (simp add: not_less)

lemma mag_val_0 [simp]: "mag_val mb qe 0 = 0"
  by (simp add: mag_val_def)

lemma round_mag_subnormal:
  assumes "0 < n" "n < 2 ^ mb"
  shows "round_mag mb qe (of_nat n * 2 powi qe) = n"
proof -
  let ?q = "of_nat n * 2 powi qe :: rat"
  have pos: "0 < ?q" using assms by simp
  have "(of_nat n :: rat) < 2 ^ mb"
    using assms(2) by (metis of_nat_less_iff of_nat_numeral of_nat_power)
  then have "?q < 2 powi (int mb + qe)"
    by (simp add: power_int_add)
  with ilog2_bounds[OF pos] have "(2::rat) powi ilog2 ?q < 2 powi (int mb + qe)" by linarith
  then have "ilog2 ?q < int mb + qe" by (simp add: two_powi_less)
  then have e: "ulp_exp mb qe ?q = qe" by (simp add: ulp_exp_def)
  have "rhe (of_nat n :: rat) = int n" using rhe_of_int[of "int n"] by simp
  then show ?thesis using pos by (simp add: round_mag_def Let_def e)
qed

lemma round_mag_normal:
  assumes "2 ^ mb \<le> M" "M < 2 ^ (mb + 1)"
  shows "round_mag mb qe (of_nat M * 2 powi (int k + qe)) = k * 2 ^ mb + M"
proof -
  let ?q = "of_nat M * 2 powi (int k + qe) :: rat"
  have m: "2 ^ mb \<le> (of_nat M :: rat)" "(of_nat M :: rat) < 2 ^ (mb + 1)"
    using assms by (metis of_nat_le_iff of_nat_numeral of_nat_power,
        metis of_nat_less_iff of_nat_numeral of_nat_power)
  have "0 < M" using less_le_trans[OF _ assms(1)] by simp
  then have pos: "0 < ?q" by simp
  have "2 powi (int mb + (int k + qe)) \<le> ?q"
    using m(1) by (simp add: power_int_add mult_right_mono)
  moreover have "?q < 2 powi (int mb + (int k + qe) + 1)"
    using m(2) by (simp add: power_int_add mult_strict_right_mono)
  ultimately have "ilog2 ?q = int mb + (int k + qe)" by (rule ilog2_unique)
  then have e: "ulp_exp mb qe ?q = int k + qe" by (simp add: ulp_exp_def)
  have "rhe (of_nat M :: rat) = int M" using rhe_of_int[of "int M"] by simp
  then have "round_mag mb qe ?q = nat (int (k * 2 ^ mb + M))"
    using pos by (simp add: round_mag_def Let_def e)
  then show ?thesis by (simp only: nat_int)
qed

lemma round_mag_val: "round_mag mb qe (mag_val mb qe n) = n"
proof (cases "n < 2 ^ mb")
  case True
  then show ?thesis
    by (cases "n = 0") (simp_all add: mag_val_def round_mag_subnormal, simp add: round_mag_def)
next
  case False
  then obtain k where k: "n div 2 ^ mb = Suc k"
    by (metis Suc_pred' div_greater_zero_iff linorder_not_less pos2 zero_less_power)
  let ?M = "2 ^ mb + n mod 2 ^ mb"
  have n: "n = k * 2 ^ mb + ?M"
    using k div_mult_mod_eq[of n "2 ^ mb"] by simp
  have "round_mag mb qe (of_nat ?M * 2 powi (int k + qe)) = k * 2 ^ mb + ?M"
    by (rule round_mag_normal) simp_all
  moreover have "mag_val mb qe n = of_nat ?M * 2 powi (int k + qe)"
    using False by (simp add: mag_val_def k)
  ultimately show ?thesis using n by simp
qed

text \<open>A value that is a whole number of units in the last place is representable.\<close>

lemma mag_val_normal:
  assumes "2 ^ mb \<le> M" "M < 2 ^ (mb + 1)"
  shows "mag_val mb qe (k * 2 ^ mb + M) = of_nat M * 2 powi (int k + qe)"
proof -
  obtain r where r: "M = 2 ^ mb + r" "r < 2 ^ mb"
    using assms by (metis add_less_cancel_left le_Suc_ex mult_2 power_Suc Suc_eq_plus1)
  have eq: "k * 2 ^ mb + M = r + (k + 1) * 2 ^ mb" using r by simp
  have "(k * 2 ^ mb + M) div 2 ^ mb = k + 1"
    unfolding eq using r(2) by (subst div_mult_self1) auto
  moreover have "(k * 2 ^ mb + M) mod 2 ^ mb = r"
    unfolding eq using r(2) by (subst mod_mult_self1) auto
  moreover have "\<not> k * 2 ^ mb + M < 2 ^ mb" using assms(1) by simp
  ultimately show ?thesis using r by (simp add: mag_val_def)
qed

lemma mag_val_round_exact:
  assumes "0 < q" and "q = of_int m * 2 powi ulp_exp mb qe q"
  shows "mag_val mb qe (round_mag mb qe q) = q"
proof -
  let ?e = "ulp_exp mb qe q"
  have sc: "q / 2 powi ?e = of_int m"
    by (subst (1) assms(2)) simp
  have qe: "qe \<le> ?e" by (simp add: ulp_exp_def)
  have "0 < (of_int m :: rat)" using assms(1) sc by (metis divide_pos_pos zero_less_numeral zero_less_power_int)
  then have m0: "0 < m" by simp
  have "(of_int m :: rat) < 2 ^ (mb + 1)" using scaled_upper[OF assms(1), of mb qe] sc by simp
  then have hi: "m < 2 ^ (mb + 1)" by (metis of_int_less_iff of_int_numeral of_int_power)
  let ?M = "nat m" and ?k = "nat (?e - qe)"
  have M: "?M < 2 ^ (mb + 1)" using hi m0 by (simp add: nat_less_iff)
  have qM: "q = of_nat ?M * 2 powi (int ?k + qe)" using assms(2) m0 qe by simp
  have rd: "round_mag mb qe q = ?k * 2 ^ mb + ?M"
    using assms(1) qe m0 by (simp add: round_mag_def Let_def sc nat_add_distrib nat_mult_distrib nat_power_eq)
  show ?thesis
  proof (cases "2 ^ mb \<le> ?M")
    case True
    then show ?thesis using M qM rd by (simp add: mag_val_normal)
  next
    case False
    have "?e = qe"
    proof (rule ccontr)
      assume "?e \<noteq> qe"
      with qe have "2 ^ mb \<le> q / 2 powi ?e" by (intro scaled_lower[OF assms(1)]) simp
      then have "2 ^ mb \<le> m" using sc by (metis of_int_le_iff of_int_numeral of_int_power)
      with False m0 show False by (simp add: nat_le_iff not_le nat_less_iff)
    qed
    with False rd qM show ?thesis by (simp add: mag_val_def)
  qed
qed

lemma mag_val_mono: "n \<le> n' \<Longrightarrow> mag_val mb qe n \<le> mag_val mb qe n'"
  by (metis linorder_le_cases nle_le round_mag_mono round_mag_val)

lemma mag_val_less_iff: "mag_val mb qe n < mag_val mb qe n' \<longleftrightarrow> n < n'"
  by (metis linorder_not_less mag_val_mono round_mag_mono round_mag_val)

section \<open>Sign and magnitude\<close>

text \<open>
  A format is the number of stored mantissa bits, the exponent of the least subnormal
  and the magnitude of infinity; larger magnitudes are the NaNs.
\<close>

record ffmt =
  fmb :: nat
  fqe :: int
  finf :: nat

definition binary64 :: ffmt where
  "binary64 = \<lparr>fmb = 52, fqe = - 1074, finf = 2047 * 2 ^ 52\<rparr>"

definition binary32 :: ffmt where
  "binary32 = \<lparr>fmb = 23, fqe = - 149, finf = 255 * 2 ^ 23\<rparr>"

type_synonym fp = "bool \<times> nat"

definition fp_nan :: "ffmt \<Rightarrow> fp \<Rightarrow> bool" where
  "fp_nan F a \<longleftrightarrow> finf F < snd a"

definition fp_inf :: "ffmt \<Rightarrow> fp \<Rightarrow> bool" where
  "fp_inf F a \<longleftrightarrow> snd a = finf F"

definition fp_finite :: "ffmt \<Rightarrow> fp \<Rightarrow> bool" where
  "fp_finite F a \<longleftrightarrow> snd a < finf F"

definition fp_key :: "fp \<Rightarrow> int" where
  "fp_key a = (if fst a then - int (snd a) else int (snd a))"

definition fp_val :: "ffmt \<Rightarrow> fp \<Rightarrow> rat" where
  "fp_val F a = (if fst a then - mag_val (fmb F) (fqe F) (snd a) else mag_val (fmb F) (fqe F) (snd a))"

definition fp_qnan :: "ffmt \<Rightarrow> fp" where
  "fp_qnan F = (False, finf F + 2 ^ (fmb F - 1))"

text \<open>The sign argument is the sign of an exact zero.\<close>

definition fp_round :: "ffmt \<Rightarrow> bool \<Rightarrow> rat \<Rightarrow> fp" where
  "fp_round F s q = (if q = 0 then (s, 0)
     else (q < 0, min (finf F) (round_mag (fmb F) (fqe F) \<bar>q\<bar>)))"

definition fp_neg :: "fp \<Rightarrow> fp" where
  "fp_neg a = (\<not> fst a, snd a)"

definition fp_abs :: "fp \<Rightarrow> fp" where
  "fp_abs a = (False, snd a)"

definition fp_add :: "ffmt \<Rightarrow> fp \<Rightarrow> fp \<Rightarrow> fp" where
  "fp_add F a b =
     (if fp_nan F a \<or> fp_nan F b then fp_qnan F
      else if fp_inf F a then (if fp_inf F b \<and> fst a \<noteq> fst b then fp_qnan F else a)
      else if fp_inf F b then b
      else fp_round F (fst a \<and> fst b) (fp_val F a + fp_val F b))"

definition fp_sub :: "ffmt \<Rightarrow> fp \<Rightarrow> fp \<Rightarrow> fp" where
  "fp_sub F a b = fp_add F a (fp_neg b)"

definition fp_mul :: "ffmt \<Rightarrow> fp \<Rightarrow> fp \<Rightarrow> fp" where
  "fp_mul F a b =
     (let s = (fst a \<noteq> fst b) in
      if fp_nan F a \<or> fp_nan F b then fp_qnan F
      else if fp_inf F a \<or> fp_inf F b
           then (if snd a = 0 \<or> snd b = 0 then fp_qnan F else (s, finf F))
      else fp_round F s (fp_val F a * fp_val F b))"

definition fp_div :: "ffmt \<Rightarrow> fp \<Rightarrow> fp \<Rightarrow> fp" where
  "fp_div F a b =
     (let s = (fst a \<noteq> fst b) in
      if fp_nan F a \<or> fp_nan F b then fp_qnan F
      else if fp_inf F a then (if fp_inf F b then fp_qnan F else (s, finf F))
      else if fp_inf F b then (s, 0)
      else if snd b = 0 then (if snd a = 0 then fp_qnan F else (s, finf F))
      else fp_round F s (fp_val F a / fp_val F b))"

definition fp_convert :: "ffmt \<Rightarrow> ffmt \<Rightarrow> fp \<Rightarrow> fp" where
  "fp_convert F G a =
     (if fp_nan F a then fp_qnan G else if fp_inf F a then (fst a, finf G)
      else fp_round G (fst a) (fp_val F a))"

definition fp_of_int :: "ffmt \<Rightarrow> int \<Rightarrow> fp" where
  "fp_of_int F i = fp_round F False (of_int i)"

text \<open>Truncation towards zero; a NaN or an infinity has no integer part.\<close>

definition fp_trunc :: "ffmt \<Rightarrow> fp \<Rightarrow> int option" where
  "fp_trunc F a = (if fp_finite F a then
     Some (if fst a then - \<lfloor>mag_val (fmb F) (fqe F) (snd a)\<rfloor> else \<lfloor>mag_val (fmb F) (fqe F) (snd a)\<rfloor>)
     else None)"

definition fp_less :: "ffmt \<Rightarrow> fp \<Rightarrow> fp \<Rightarrow> bool" where
  "fp_less F a b \<longleftrightarrow> \<not> fp_nan F a \<and> \<not> fp_nan F b \<and> fp_key a < fp_key b"

definition fp_le :: "ffmt \<Rightarrow> fp \<Rightarrow> fp \<Rightarrow> bool" where
  "fp_le F a b \<longleftrightarrow> \<not> fp_nan F a \<and> \<not> fp_nan F b \<and> fp_key a \<le> fp_key b"

definition fp_eq :: "ffmt \<Rightarrow> fp \<Rightarrow> fp \<Rightarrow> bool" where
  "fp_eq F a b \<longleftrightarrow> \<not> fp_nan F a \<and> \<not> fp_nan F b \<and> fp_key a = fp_key b"

subsection \<open>Order and rounding\<close>

lemma mag_val_pos_iff [simp]: "0 < mag_val mb qe n \<longleftrightarrow> 0 < n"
  by (metis mag_val_0 mag_val_less_iff)

lemma mag_val_zero_iff [simp]: "mag_val mb qe n = 0 \<longleftrightarrow> n = 0"
  by (metis mag_val_0 round_mag_val)

lemma mag_val_le_0_iff [simp]: "mag_val mb qe n \<le> 0 \<longleftrightarrow> n = 0"
  by (simp add: not_less[symmetric])

lemma mag_val_sum_pos: "0 < mag_val mb qe n + mag_val mb qe m \<longleftrightarrow> 0 < n + m"
  by (metis add.right_neutral add_nonneg_eq_0_iff add_nonneg_nonneg gr0I gr_zeroI less_eq_rat_def
      mag_val_nonneg mag_val_zero_iff order_less_irrefl zero_less_iff_neq_zero add_is_0)

lemma fp_val_less_iff: "fp_val F a < fp_val F b \<longleftrightarrow> fp_key a < fp_key b"
proof -
  let ?v = "mag_val (fmb F) (fqe F)"
  have "- ?v (snd a) < ?v (snd b) \<longleftrightarrow> 0 < ?v (snd a) + ?v (snd b)" by linarith
  moreover have "\<not> ?v (snd a) < - ?v (snd b)"
    using mag_val_nonneg[of "fmb F" "fqe F" "snd a"] mag_val_nonneg[of "fmb F" "fqe F" "snd b"]
    by linarith
  ultimately show ?thesis
    by (cases "fst a"; cases "fst b")
       (simp_all add: fp_val_def fp_key_def mag_val_less_iff mag_val_sum_pos, linarith)
qed

lemma fp_val_le_iff: "fp_val F a \<le> fp_val F b \<longleftrightarrow> fp_key a \<le> fp_key b"
  using fp_val_less_iff[of F b a] by (simp add: not_less[symmetric])

lemma fp_key_round:
  "fp_key (fp_round F s q) =
     (if q < 0 then - int (min (finf F) (round_mag (fmb F) (fqe F) (- q)))
      else int (min (finf F) (round_mag (fmb F) (fqe F) q)))"
  by (simp add: fp_round_def fp_key_def) (simp add: round_mag_def)

lemma fp_key_round_mono:
  assumes "q \<le> q'"
  shows "fp_key (fp_round F s q) \<le> fp_key (fp_round F s' q')"
proof -
  let ?r = "round_mag (fmb F) (fqe F)"
  have "?r q \<le> ?r q'" and "?r (- q') \<le> ?r (- q)"
    using assms by (auto intro!: round_mag_mono)
  then have "min (finf F) (?r q) \<le> min (finf F) (?r q')"
    and "min (finf F) (?r (- q')) \<le> min (finf F) (?r (- q))"
    by (simp_all add: min.coboundedI2)
  then show ?thesis using assms by (auto simp: fp_key_round simp del: of_nat_min)
qed

lemma fp_key_round_val:
  assumes "fp_finite F a"
  shows "fp_key (fp_round F s (fp_val F a)) = fp_key a"
proof -
  have "min (finf F) (snd a) = snd a" using assms by (simp add: fp_finite_def)
  then show ?thesis
    unfolding fp_key_round
    by (cases "snd a = 0")
       (auto simp: fp_val_def fp_key_def round_mag_val round_mag_def[of _ _ 0]
         simp del: of_nat_min)
qed

text \<open>Integers of no more bits than the mantissa are exact.\<close>

lemma ulp_exp_int_le:
  assumes "0 < i" "i < 2 ^ (mb + 1)" "qe \<le> 0"
  shows "ulp_exp mb qe (of_int i) \<le> 0"
proof -
  have pos: "0 < (of_int i :: rat)" using assms(1) by simp
  have "(of_int i :: rat) < 2 ^ (mb + 1)" using assms(2) by (metis of_int_less_iff of_int_numeral of_int_power)
  also have "\<dots> = 2 powi (int (mb + 1))" by (simp only: power_int_of_nat)
  finally have "(2::rat) powi ilog2 (of_int i) < 2 powi (int (mb + 1))"
    using ilog2_bounds[OF pos] by linarith
  then show ?thesis using assms(3) by (simp only: two_powi_less) (simp add: ulp_exp_def)
qed

lemma mag_val_round_int:
  assumes "0 < i" "i < 2 ^ (mb + 1)" "qe \<le> 0"
  shows "mag_val mb qe (round_mag mb qe (of_int i)) = of_int i"
proof (rule mag_val_round_exact)
  let ?e = "ulp_exp mb qe (of_int i)"
  have e: "?e \<le> 0" by (rule ulp_exp_int_le[OF assms])
  have "(of_int (i * 2 ^ nat (- ?e)) :: rat) = of_int i * 2 powi (- ?e)"
    using e by (simp add: power_int_nonneg_exp)
  moreover have "(2::rat) powi (- ?e) * 2 powi ?e = 1"
    by (subst power_int_add[symmetric]) auto
  ultimately have "of_int (i * 2 ^ nat (- ?e)) * 2 powi ?e = (of_int i :: rat)"
    by (simp only: mult.assoc mult_1_right)
  then show "(of_int i :: rat) = of_int (i * 2 ^ nat (- ?e)) * 2 powi ?e" by (rule sym)
  show "0 < (of_int i :: rat)" using assms(1) by simp
qed

lemma fp_round_not_nan [simp]: "\<not> fp_nan F (fp_round F s q)"
  by (auto simp: fp_nan_def fp_round_def)

lemma fp_key_add_le:
  assumes "fp_le F b (False, 0)"
  shows "fp_nan F (fp_add F a b) \<or> fp_key (fp_add F a b) \<le> fp_key a"
proof (cases "fp_finite F a \<and> fp_finite F b")
  case True
  then have nn: "\<not> fp_nan F a" "\<not> fp_nan F b" "\<not> fp_inf F a" "\<not> fp_inf F b"
    by (auto simp: fp_finite_def fp_nan_def fp_inf_def)
  have "fp_val F b \<le> fp_val F (False, 0)"
    using assms by (simp only: fp_val_le_iff) (simp add: fp_le_def)
  then have "fp_val F a + fp_val F b \<le> fp_val F a" by (simp add: fp_val_def)
  then have "fp_key (fp_round F s (fp_val F a + fp_val F b)) \<le> fp_key (fp_round F s (fp_val F a))" for s
    by (rule fp_key_round_mono)
  then show ?thesis using True nn by (simp add: fp_add_def fp_key_round_val)
next
  case False
  then show ?thesis
    using assms
    by (auto simp: fp_add_def fp_le_def fp_nan_def fp_qnan_def fp_key_def fp_inf_def fp_finite_def
        split: if_splits)
qed

lemma fp_key_add_ge:
  assumes "fp_le F (False, 0) b"
  shows "fp_nan F (fp_add F a b) \<or> fp_key a \<le> fp_key (fp_add F a b)"
proof (cases "fp_finite F a \<and> fp_finite F b")
  case True
  then have nn: "\<not> fp_nan F a" "\<not> fp_nan F b" "\<not> fp_inf F a" "\<not> fp_inf F b"
    by (auto simp: fp_finite_def fp_nan_def fp_inf_def)
  have "fp_val F (False, 0) \<le> fp_val F b"
    using assms by (simp only: fp_val_le_iff) (simp add: fp_le_def)
  then have "fp_val F a \<le> fp_val F a + fp_val F b" by (simp add: fp_val_def)
  then have "fp_key (fp_round F s (fp_val F a)) \<le> fp_key (fp_round F s (fp_val F a + fp_val F b))" for s
    by (rule fp_key_round_mono)
  then show ?thesis using True nn by (simp add: fp_add_def fp_key_round_val)
next
  case False
  then show ?thesis
    using assms
    by (auto simp: fp_add_def fp_le_def fp_nan_def fp_qnan_def fp_key_def fp_inf_def fp_finite_def
        split: if_splits)
qed

text \<open>A rounded value stays on the same side of every representable one.\<close>

lemma fp_round_ge: "fp_finite F a \<Longrightarrow> fp_val F a \<le> q \<Longrightarrow> fp_val F a \<le> fp_val F (fp_round F s q)"
  unfolding fp_val_le_iff by (metis fp_key_round_mono fp_key_round_val)

lemma fp_round_le: "fp_finite F a \<Longrightarrow> q \<le> fp_val F a \<Longrightarrow> fp_val F (fp_round F s q) \<le> fp_val F a"
  unfolding fp_val_le_iff by (metis fp_key_round_mono fp_key_round_val)

lemma fp_finite_round64:
  assumes "0 \<le> q" "q \<le> 2 ^ 53"
  shows "fp_finite binary64 (fp_round binary64 s q)"
proof -
  have "round_mag 52 (- 1074) q \<le> round_mag 52 (- 1074) (2 ^ 53)"
    using assms(2) by (rule round_mag_mono)
  also have "round_mag 52 (- 1074) (2 ^ 53) < 2047 * 2 ^ 52" by code_simp
  finally show ?thesis using assms(1) by (simp add: fp_finite_def fp_round_def binary64_def)
qed

lemma fp_of_int64:
  assumes "0 \<le> i" "i < 2 ^ 53"
  shows "fp_finite binary64 (fp_of_int binary64 i)" "fp_val binary64 (fp_of_int binary64 i) = of_int i"
proof -
  have "(of_int i :: rat) \<le> 2 ^ 53"
    using assms(2) by (metis less_imp_le of_int_le_iff of_int_numeral of_int_power)
  then show fin: "fp_finite binary64 (fp_of_int binary64 i)"
    using assms(1) by (simp add: fp_of_int_def fp_finite_round64)
  have "mag_val 52 (- 1074) (round_mag 52 (- 1074) (of_int i)) = of_int i" if "0 < i"
    using that assms(2) by (intro mag_val_round_int) auto
  with fin assms(1) show "fp_val binary64 (fp_of_int binary64 i) = of_int i"
    by (auto simp: fp_of_int_def fp_round_def fp_val_def binary64_def fp_finite_def min_def
        split: if_splits)
qed

section \<open>The bit patterns of Go\<close>

type_synonym float64 = "64 word"
type_synonym float32 = "32 word"

definition f64_unpack :: "float64 \<Rightarrow> fp" where
  "f64_unpack w = (2 ^ 63 \<le> unat w, unat w mod 2 ^ 63)"

definition f64_pack :: "fp \<Rightarrow> float64" where
  "f64_pack a = of_nat (snd a + (if fst a then 2 ^ 63 else 0))"

definition f32_unpack :: "float32 \<Rightarrow> fp" where
  "f32_unpack w = (2 ^ 31 \<le> unat w, unat w mod 2 ^ 31)"

definition f32_pack :: "fp \<Rightarrow> float32" where
  "f32_pack a = of_nat (snd a + (if fst a then 2 ^ 31 else 0))"

definition f64_add :: "float64 \<Rightarrow> float64 \<Rightarrow> float64" where
  "f64_add a b = f64_pack (fp_add binary64 (f64_unpack a) (f64_unpack b))"

definition f64_sub :: "float64 \<Rightarrow> float64 \<Rightarrow> float64" where
  "f64_sub a b = f64_pack (fp_sub binary64 (f64_unpack a) (f64_unpack b))"

definition f64_mul :: "float64 \<Rightarrow> float64 \<Rightarrow> float64" where
  "f64_mul a b = f64_pack (fp_mul binary64 (f64_unpack a) (f64_unpack b))"

definition f64_div :: "float64 \<Rightarrow> float64 \<Rightarrow> float64" where
  "f64_div a b = f64_pack (fp_div binary64 (f64_unpack a) (f64_unpack b))"

definition f64_abs :: "float64 \<Rightarrow> float64" where
  "f64_abs a = f64_pack (fp_abs (f64_unpack a))"

definition f64_of_int :: "int \<Rightarrow> float64" where
  "f64_of_int i = f64_pack (fp_of_int binary64 i)"

definition f32_of_int :: "int \<Rightarrow> float32" where
  "f32_of_int i = f32_pack (fp_of_int binary32 i)"

definition f64_of_f32 :: "float32 \<Rightarrow> float64" where
  "f64_of_f32 a = f64_pack (fp_convert binary32 binary64 (f32_unpack a))"

definition f32_of_f64 :: "float64 \<Rightarrow> float32" where
  "f32_of_f64 a = f32_pack (fp_convert binary64 binary32 (f64_unpack a))"

definition f64_trunc :: "float64 \<Rightarrow> int option" where
  "f64_trunc a = fp_trunc binary64 (f64_unpack a)"

definition f32_trunc :: "float32 \<Rightarrow> int option" where
  "f32_trunc a = fp_trunc binary32 (f32_unpack a)"

definition f64_nan :: "float64 \<Rightarrow> bool" where
  "f64_nan a \<longleftrightarrow> fp_nan binary64 (f64_unpack a)"

definition f64_lt :: "float64 \<Rightarrow> float64 \<Rightarrow> bool" where
  "f64_lt a b \<longleftrightarrow> fp_less binary64 (f64_unpack a) (f64_unpack b)"

definition f64_le :: "float64 \<Rightarrow> float64 \<Rightarrow> bool" where
  "f64_le a b \<longleftrightarrow> fp_le binary64 (f64_unpack a) (f64_unpack b)"

definition f64_eq :: "float64 \<Rightarrow> float64 \<Rightarrow> bool" where
  "f64_eq a b \<longleftrightarrow> fp_eq binary64 (f64_unpack a) (f64_unpack b)"

lemma f64_unpack_pack: "snd a < 2 ^ 63 \<Longrightarrow> f64_unpack (f64_pack a) = a"
proof -
  assume a: "snd a < 2 ^ 63"
  let ?n = "snd a + (if fst a then 2 ^ 63 else 0) :: nat"
  have "?n < 2 ^ LENGTH(64)" using a by simp
  then have "unat (f64_pack a) = ?n"
    unfolding f64_pack_def unsigned_of_nat of_nat_id by (rule take_bit_nat_eq_self)
  then show ?thesis using a by (cases a) (simp add: f64_unpack_def)
qed

lemma f64_pack_unpack: "f64_pack (f64_unpack w) = w"
proof -
  have "unat w < 2 ^ 64" using unsigned_less[of w, where ?'a = nat] by simp
  then have "unat w mod 2 ^ 63 + (if 2 ^ 63 \<le> unat w then 2 ^ 63 else 0) = unat w"
    by (auto simp: mod_if)
  then show ?thesis by (simp add: f64_pack_def f64_unpack_def)
qed

lemma fp_bound64 [simp]:
  "snd (fp_qnan binary64) < 2 ^ 63" "snd (fp_round binary64 s q) < 2 ^ 63"
  "snd (f64_unpack w) < 2 ^ 63" "snd (fp_neg a) = snd a"
  by (auto simp: fp_qnan_def fp_round_def binary64_def min_def f64_unpack_def fp_neg_def)

lemma fp_add_bound64: "snd a < 2 ^ 63 \<Longrightarrow> snd b < 2 ^ 63 \<Longrightarrow> snd (fp_add binary64 a b) < 2 ^ 63"
  unfolding fp_add_def using fp_bound64(1,2) by presburger

lemma f64_unpack_add [simp]:
  "f64_unpack (f64_add a b) = fp_add binary64 (f64_unpack a) (f64_unpack b)"
  "f64_unpack (f64_sub a b) = fp_add binary64 (f64_unpack a) (fp_neg (f64_unpack b))"
  unfolding f64_add_def f64_sub_def fp_sub_def
  by (rule f64_unpack_pack, rule fp_add_bound64, (simp only: fp_bound64)+)+

text \<open>
  The two facts the alarm rules need: subtracting a non-negative number never gives a
  larger one and adding it never gives a smaller one, rounding included.
\<close>

lemma f64_sub_le:
  assumes "f64_le 0 d" and "f64_le v (f64_sub t d)"
  shows "f64_le v t"
proof -
  have nt: "\<not> fp_nan binary64 (f64_unpack t)"
    using assms(2) by (auto simp: f64_le_def fp_le_def fp_add_def fp_nan_def fp_qnan_def)
  have "fp_le binary64 (fp_neg (f64_unpack d)) (False, 0)"
    using assms(1) by (auto simp: f64_le_def fp_le_def fp_neg_def fp_nan_def fp_key_def f64_unpack_def
        split: if_splits)
  from fp_key_add_le[OF this, of "f64_unpack t"] show ?thesis
    using assms(2) nt by (auto simp: f64_le_def fp_le_def)
qed

lemma f64_add_ge:
  assumes "f64_le 0 d" and "f64_le (f64_add t d) v"
  shows "f64_le t v"
proof -
  have nt: "\<not> fp_nan binary64 (f64_unpack t)"
    using assms(2) by (auto simp: f64_le_def fp_le_def fp_add_def fp_nan_def fp_qnan_def)
  have "fp_le binary64 (False, 0) (f64_unpack d)"
    using assms(1) by (auto simp: f64_le_def fp_le_def fp_nan_def fp_key_def f64_unpack_def
        split: if_splits)
  from fp_key_add_ge[OF this, of "f64_unpack t"] show ?thesis
    using assms(2) nt by (auto simp: f64_le_def fp_le_def)
qed

lemma f64_lt_not_le: "f64_lt a b \<Longrightarrow> \<not> f64_le b a"
  by (simp add: f64_lt_def f64_le_def fp_less_def fp_le_def)

lemma f64_lt_asym: "f64_lt a b \<Longrightarrow> \<not> f64_lt b a"
  by (simp add: f64_lt_def fp_less_def)

lemmas fp_defs = fp_nan_def fp_inf_def fp_finite_def fp_key_def fp_val_def fp_qnan_def fp_round_def
  fp_neg_def fp_abs_def fp_add_def fp_sub_def fp_mul_def fp_div_def fp_convert_def fp_of_int_def
  fp_trunc_def fp_less_def fp_le_def fp_eq_def

end
