(* ===== verification/Go_Base.thy ===== *)
theory Go_Base
  imports Go_Float
begin

text \<open>
  What the sources use of the Go language and of its standard library: the dynamic
  values of an \<open>interface{}\<close>, decimal printing and \<open>strconv.Atoi\<close>, the functions of
  the \<open>strings\<close> package, and \<open>time.Time\<close> and \<open>time.Duration\<close>.
\<close>

section \<open>Dynamic values\<close>

text \<open>
  The dynamic types an \<open>interface{}\<close> carries in the code modelled here; \<open>VNil\<close> is the
  nil interface and \<open>VOther\<close> any type that none of the type switches names.
\<close>

datatype go_value =
    VNil
  | VBool bool
  | VInt "64 word" | VInt8 "8 word" | VInt16 "16 word" | VInt32 "32 word" | VInt64 "64 word"
  | VUint "64 word" | VUint8 "8 word" | VUint16 "16 word" | VUint32 "32 word" | VUint64 "64 word"
  | VFloat32 float32 | VFloat64 float64
  | VString string
  | VBytes bytes
  | VOther string

text \<open>
  What the Go implementation, and not the program, decides: the text \<open>%v\<close> gives for a
  floating point value or for a value of a type the switches do not name, and the result of converting a floating point value that
  does not fit the integer type (the language leaves it open).
\<close>

record go_impl =
  fmt_value :: "go_value \<Rightarrow> string"
  float_to_int :: "go_value \<Rightarrow> int"

text \<open>The mathematical integer of an integer value.\<close>

fun int_of_value :: "go_value \<Rightarrow> int option" where
  "int_of_value (VInt w) = Some (sint w)"
| "int_of_value (VInt8 w) = Some (sint w)"
| "int_of_value (VInt16 w) = Some (sint w)"
| "int_of_value (VInt32 w) = Some (sint w)"
| "int_of_value (VInt64 w) = Some (sint w)"
| "int_of_value (VUint w) = Some (uint w)"
| "int_of_value (VUint8 w) = Some (uint w)"
| "int_of_value (VUint16 w) = Some (uint w)"
| "int_of_value (VUint32 w) = Some (uint w)"
| "int_of_value (VUint64 w) = Some (uint w)"
| "int_of_value _ = None"

text \<open>
  Conversion of a numeric value to an integer type with the given range: integers are
  reduced to the width by the caller, floats are truncated when the result fits.
\<close>

definition float_conv :: "go_impl \<Rightarrow> int \<Rightarrow> int \<Rightarrow> go_value \<Rightarrow> int option \<Rightarrow> int" where
  "float_conv G lo hi v t = (case t of
     Some i \<Rightarrow> if lo \<le> i \<and> i \<le> hi then i else float_to_int G v
   | None \<Rightarrow> float_to_int G v)"

fun conv_int :: "go_impl \<Rightarrow> int \<Rightarrow> int \<Rightarrow> go_value \<Rightarrow> int option" where
  "conv_int G lo hi (VFloat32 f) = Some (float_conv G lo hi (VFloat32 f) (f32_trunc f))"
| "conv_int G lo hi (VFloat64 f) = Some (float_conv G lo hi (VFloat64 f) (f64_trunc f))"
| "conv_int G lo hi v = int_of_value v"

section \<open>Decimal integers\<close>

definition digit_char :: "nat \<Rightarrow> char" where
  "digit_char d = char_of (48 + d)"

fun nat_digits :: "nat \<Rightarrow> string" where
  "nat_digits n = (if n < 10 then [digit_char n] else nat_digits (n div 10) @ [digit_char (n mod 10)])"

declare nat_digits.simps [simp del]

definition itoa :: "int \<Rightarrow> string" where
  "itoa i = (if i < 0 then CHR ''-'' # nat_digits (nat (- i)) else nat_digits (nat i))"

definition is_digit :: "char \<Rightarrow> bool" where
  "is_digit c \<longleftrightarrow> 48 \<le> (of_char c :: nat) \<and> (of_char c :: nat) \<le> 57"

definition digits_value :: "string \<Rightarrow> nat" where
  "digits_value s = foldl (\<lambda>acc c. acc * 10 + (of_char c - 48)) 0 s"

text \<open>\<open>strconv.Atoi\<close>: an optional sign, at least one digit, and a value in the range of \<open>int\<close>.\<close>

definition Atoi :: "string \<Rightarrow> int option" where
  "Atoi s =
     (let neg = (s \<noteq> [] \<and> hd s = CHR ''-'');
          t = (if s \<noteq> [] \<and> (hd s = CHR ''-'' \<or> hd s = CHR ''+'') then tl s else s)
      in if t = [] \<or> \<not> list_all is_digit t then None
         else let v = (if neg then - int (digits_value t) else int (digits_value t))
              in if - (2 ^ 63) \<le> v \<and> v < 2 ^ 63 then Some v else None)"

text \<open>The range of Go's \<open>int\<close>.\<close>

definition is_int64 :: "int \<Rightarrow> bool" where
  "is_int64 i \<longleftrightarrow> - (2 ^ 63) \<le> i \<and> i < 2 ^ 63"

lemma of_char_digit: "d < 10 \<Longrightarrow> (of_char (digit_char d) :: nat) = 48 + d"
  by (simp add: digit_char_def)

lemma is_digit_digit_char: "d < 10 \<Longrightarrow> is_digit (digit_char d)"
  by (simp add: is_digit_def of_char_digit)

lemma digits_value_append:
  "digits_value (s @ [c]) = digits_value s * 10 + (of_char c - 48)"
  by (simp add: digits_value_def)

lemma nat_digits_props:
  "nat_digits n \<noteq> [] \<and> list_all is_digit (nat_digits n) \<and> digits_value (nat_digits n) = n"
proof (induction n rule: nat_digits.induct)
  case (1 n)
  show ?case
  proof (cases "n < 10")
    case True
    then show ?thesis
      by (subst (1 2 3) nat_digits.simps)
         (simp add: is_digit_digit_char of_char_digit digits_value_def)
  next
    case False
    with "1.IH" have IH: "list_all is_digit (nat_digits (n div 10))"
      "digits_value (nat_digits (n div 10)) = n div 10" by auto
    have "nat_digits n = nat_digits (n div 10) @ [digit_char (n mod 10)]"
      using False by (subst nat_digits.simps) simp
    then show ?thesis
      using IH by (simp add: digits_value_append of_char_digit is_digit_digit_char)
  qed
qed

lemma digit_not_sign:
  assumes "list_all is_digit s" "s \<noteq> []"
  shows "hd s \<noteq> CHR ''-''" "hd s \<noteq> CHR ''+''" "hd s \<noteq> CHR ''/''"
  using assms by (cases s; auto simp: is_digit_def)+

theorem Atoi_itoa:
  assumes "- (2 ^ 63) \<le> i" "i < 2 ^ 63"
  shows "Atoi (itoa i) = Some i"
proof -
  let ?d = "nat_digits (nat \<bar>i\<bar>)"
  have d: "?d \<noteq> []" "list_all is_digit ?d" "digits_value ?d = nat \<bar>i\<bar>"
    using nat_digits_props[of "nat \<bar>i\<bar>"] by auto
  show ?thesis
  proof (cases "i < 0")
    case True
    then have "itoa i = CHR ''-'' # ?d" by (simp add: itoa_def abs_of_neg)
    with d True assms show ?thesis by (simp add: Atoi_def Let_def)
  next
    case False
    then have "itoa i = ?d" by (simp add: itoa_def abs_of_nonneg)
    with d False assms digit_not_sign[OF d(2,1)] show ?thesis by (simp add: Atoi_def Let_def)
  qed
qed

lemma itoa_inj: "is_int64 i \<Longrightarrow> is_int64 j \<Longrightarrow> itoa i = itoa j \<Longrightarrow> i = j"
  unfolding is_int64_def by (metis Atoi_itoa option.inject)

lemma itoa_chars: "c \<in> set (itoa i) \<Longrightarrow> c = CHR ''-'' \<or> is_digit c"
  using nat_digits_props[of "nat i"] nat_digits_props[of "nat (- i)"]
  by (auto simp: itoa_def list_all_iff split: if_splits)

lemma itoa_no_slash: "CHR ''/'' \<notin> set (itoa i)"
  using itoa_chars[of "CHR ''/''" i] by (auto simp: is_digit_def)

lemma itoa_nonempty [simp]: "itoa i \<noteq> []"
  using nat_digits_props by (auto simp: itoa_def)

section \<open>Strings\<close>

text \<open>\<open>strings.Split\<close> on a separator of one character, and \<open>strings.Join\<close> as its inverse.\<close>

fun split_on :: "char \<Rightarrow> string \<Rightarrow> string list" where
  "split_on c [] = [[]]"
| "split_on c (x # xs) =
     (if x = c then [] # split_on c xs
      else case split_on c xs of [] \<Rightarrow> [[x]] | p # ps \<Rightarrow> (x # p) # ps)"

lemma split_on_nonempty [simp]: "split_on c s \<noteq> []"
  by (induction s) (auto split: list.splits)

lemma split_on_no_sep: "c \<notin> set s \<Longrightarrow> split_on c s = [s]"
  by (induction s) auto

lemma split_on_append: "c \<notin> set a \<Longrightarrow> split_on c (a @ c # s) = a # split_on c s"
  by (induction a) auto

text \<open>\<open>strings.Trim\<close> with a cutset of one character.\<close>

definition trim_char :: "char \<Rightarrow> string \<Rightarrow> string" where
  "trim_char c s = rev (dropWhile (\<lambda>x. x = c) (rev (dropWhile (\<lambda>x. x = c) s)))"

lemma dropWhile_hd: "s \<noteq> [] \<Longrightarrow> hd s \<noteq> c \<Longrightarrow> dropWhile (\<lambda>x. x = c) s = s"
  by (cases s) auto

lemma trim_char_id:
  assumes "s \<noteq> []" "hd s \<noteq> c" "last s \<noteq> c"
  shows "trim_char c s = s"
  using assms by (simp add: trim_char_def dropWhile_hd hd_rev)

text \<open>
  \<open>strings.TrimSpace\<close>.  The white space of Unicode as UTF-8 byte sequences, as
  \<open>unicode.IsSpace\<close> decides it.
\<close>

definition byte_string :: "nat list \<Rightarrow> string" where
  "byte_string ns = map char_of ns"

definition space_seqs :: "string list" where
  "space_seqs = map byte_string
     ([[9], [10], [11], [12], [13], [32], [194, 133], [194, 160], [225, 154, 128],
       [226, 128, 168], [226, 128, 169], [226, 128, 175], [226, 129, 159], [227, 128, 128]]
      @ map (\<lambda>k. [226, 128, k]) [128..<139])"

text \<open>Equations that evaluate in fewer steps.\<close>

lemma space_seqs_literal [code]:
  "space_seqs = [[CHR 0x09], [CHR 0x0A], [CHR 0x0B], [CHR 0x0C], [CHR 0x0D], [CHR 0x20], [CHR 0xC2, CHR 0x85], [CHR 0xC2, CHR 0xA0], [CHR
     0xE1, CHR 0x9A, CHR 0x80], [CHR 0xE2, CHR 0x80, CHR 0xA8], [CHR 0xE2, CHR 0x80, CHR 0xA9], [CHR 0xE2, CHR 0x80, CHR
     0xAF], [CHR 0xE2, CHR 0x81, CHR 0x9F], [CHR 0xE3, CHR 0x80, CHR 0x80], [CHR 0xE2, CHR 0x80, CHR 0x80], [CHR 0xE2, CHR
     0x80, CHR 0x81], [CHR 0xE2, CHR 0x80, CHR 0x82], [CHR 0xE2, CHR 0x80, CHR 0x83], [CHR 0xE2, CHR 0x80, CHR 0x84], [CHR
     0xE2, CHR 0x80, CHR 0x85], [CHR 0xE2, CHR 0x80, CHR 0x86], [CHR 0xE2, CHR 0x80, CHR 0x87], [CHR 0xE2, CHR 0x80, CHR
     0x88], [CHR 0xE2, CHR 0x80, CHR 0x89], [CHR 0xE2, CHR 0x80, CHR 0x8A]]"
  by code_simp

definition strip_prefix :: "string \<Rightarrow> string \<Rightarrow> string option" where
  "strip_prefix p s = (if take (length p) s = p then Some (drop (length p) s) else None)"

lemma strip_prefix_code [code]:
  "strip_prefix [] s = Some s" "strip_prefix (c # p) [] = None"
  "strip_prefix (c # p) (d # s) = (if c = d then strip_prefix p s else None)"
  by (auto simp: strip_prefix_def)

fun first_strip :: "string list \<Rightarrow> string \<Rightarrow> string option" where
  "first_strip [] s = None"
| "first_strip (p # ps) s = (case strip_prefix p s of Some t \<Rightarrow> Some t | None \<Rightarrow> first_strip ps s)"

fun trim_left_fuel :: "nat \<Rightarrow> string list \<Rightarrow> string \<Rightarrow> string" where
  "trim_left_fuel 0 ps s = s"
| "trim_left_fuel (Suc k) ps s =
     (case first_strip ps s of Some t \<Rightarrow> trim_left_fuel k ps t | None \<Rightarrow> s)"

definition TrimSpace :: "string \<Rightarrow> string" where
  "TrimSpace s =
     (let l = trim_left_fuel (length s) space_seqs s
      in rev (trim_left_fuel (length l) (map rev space_seqs) (rev l)))"

text \<open>
  \<open>strings.ToLower\<close>.  A string of ASCII bytes is folded byte by byte; for any other
  string the Unicode tables decide, and \<open>U\<close> stands for them.
\<close>

definition is_ascii :: "string \<Rightarrow> bool" where
  "is_ascii s \<longleftrightarrow> list_all (\<lambda>c. (of_char c :: nat) < 128) s"

definition lower_char :: "char \<Rightarrow> char" where
  "lower_char c = (if 65 \<le> (of_char c :: nat) \<and> (of_char c :: nat) \<le> 90
     then char_of ((of_char c :: nat) + 32) else c)"

definition ToLower :: "(string \<Rightarrow> string) \<Rightarrow> string \<Rightarrow> string" where
  "ToLower U s = (if is_ascii s then map lower_char s else U s)"

text \<open>\<open>strings.ReplaceAll\<close> of one character by another.\<close>

definition replace_char :: "char \<Rightarrow> char \<Rightarrow> string \<Rightarrow> string" where
  "replace_char a b s = map (\<lambda>c. if c = a then b else c) s"

section \<open>Time\<close>

text \<open>
  A \<open>time.Time\<close> is the number of nanoseconds since the zero time of Go (January 1 of
  year 1, UTC), a \<open>time.Duration\<close> the same count as a signed 64-bit integer.
\<close>

type_synonym gotime = int
type_synonym duration = int

definition wrap64 :: "int \<Rightarrow> int" where
  "wrap64 i = (i + 2 ^ 63) mod 2 ^ 64 - 2 ^ 63"

definition Second :: duration where "Second = 1000000000"
definition Millisecond :: duration where "Millisecond = 1000000"
definition Minute :: duration where "Minute = 60 * Second"
definition Hour :: duration where "Hour = 60 * Minute"

definition IsZero :: "gotime \<Rightarrow> bool" where
  "IsZero t \<longleftrightarrow> t = 0"

text \<open>\<open>Time.Sub\<close> saturates at the ends of the range of \<open>Duration\<close>.\<close>

definition Sub :: "gotime \<Rightarrow> gotime \<Rightarrow> duration" where
  "Sub t u = max (- (2 ^ 63)) (min (2 ^ 63 - 1) (t - u))"

text \<open>\<open>time.Duration(n) * time.Second\<close> is a 64-bit multiplication.\<close>

definition secs :: "int \<Rightarrow> duration" where
  "secs n = wrap64 (n * Second)"

text \<open>Unix time, in milliseconds, of the zero time of Go.\<close>

definition unix_zero_ms :: int where
  "unix_zero_ms = 62135596800000"

text \<open>\<open>Time.UnixMilli\<close>, and the time a count of milliseconds stands for.\<close>

definition now_ms :: "gotime \<Rightarrow> int" where
  "now_ms t = t div Millisecond - unix_zero_ms"

definition UnixMilli :: "int \<Rightarrow> gotime" where
  "UnixMilli ms = (ms + unix_zero_ms) * Millisecond"

text \<open>\<open>int(d.Seconds())\<close>: whole seconds and the rest over a billion, added in floating point.\<close>

definition Seconds :: "duration \<Rightarrow> float64" where
  "Seconds d = (let s = sgn d * (\<bar>d\<bar> div Second); ns = sgn d * (\<bar>d\<bar> mod Second)
     in f64_add (f64_of_int s) (f64_div (f64_of_int ns) (f64_of_int Second)))"

definition int_Seconds :: "duration \<Rightarrow> int" where
  "int_Seconds d = (case f64_trunc (Seconds d) of Some i \<Rightarrow> i | None \<Rightarrow> 0)"

lemma wrap64_id [simp]: "- (2 ^ 63) \<le> i \<Longrightarrow> i < 2 ^ 63 \<Longrightarrow> wrap64 i = i"
  by (simp add: wrap64_def)

lemma secs_id: "\<bar>n\<bar> \<le> 9000000000 \<Longrightarrow> secs n = n * Second"
  unfolding secs_def by (rule wrap64_id) (auto simp: Second_def)

lemma Sub_id: "\<bar>t - u\<bar> < 2 ^ 63 \<Longrightarrow> Sub t u = t - u"
  by (auto simp: Sub_def)

lemma Sub_nonneg: "u \<le> t \<Longrightarrow> 0 \<le> Sub t u"
  by (auto simp: Sub_def)

lemma Sub_mono: "t \<le> t' \<Longrightarrow> Sub t u \<le> Sub t' u"
  by (auto simp: Sub_def)

text \<open>
  Truncated seconds are never below the whole seconds that have passed, and never above
  the next whole second.
\<close>

lemma f64_unpack_of_int: "f64_unpack (f64_of_int i) = fp_of_int binary64 i"
  unfolding f64_of_int_def by (rule f64_unpack_pack) (simp only: fp_of_int_def fp_bound64)

lemma fp_finite_simps:
  "fp_finite F a \<Longrightarrow> \<not> fp_nan F a" "fp_finite F a \<Longrightarrow> \<not> fp_inf F a"
  by (auto simp: fp_finite_def fp_nan_def fp_inf_def)

lemma fraction_bounds:
  assumes "0 \<le> ns" "ns < Second"
  shows "fp_finite binary64 (f64_unpack (f64_div (f64_of_int ns) (f64_of_int Second)))"
    and "0 \<le> fp_val binary64 (f64_unpack (f64_div (f64_of_int ns) (f64_of_int Second)))"
    and "fp_val binary64 (f64_unpack (f64_div (f64_of_int ns) (f64_of_int Second))) \<le> 1"
proof -
  let ?a = "fp_of_int binary64 ns" and ?b = "fp_of_int binary64 Second"
  have a: "fp_finite binary64 ?a" "fp_val binary64 ?a = of_int ns"
    using assms fp_of_int64[of ns] by (auto simp: Second_def)
  have b: "fp_finite binary64 ?b" "fp_val binary64 ?b = of_int Second"
    using fp_of_int64[of Second] by (auto simp: Second_def)
  have "snd ?b = 0 \<Longrightarrow> fp_val binary64 ?b = 0" by (simp add: fp_val_def)
  with b(2) have nz: "snd ?b \<noteq> 0" by (auto simp: Second_def)
  let ?q = "(of_int ns :: rat) / of_int Second"
  have q: "0 \<le> ?q" "?q \<le> 1" using assms by (auto simp: Second_def)
  let ?r = "fp_round binary64 (fst ?a \<noteq> fst ?b) ?q"
  have "fp_div binary64 ?a ?b = ?r"
    using a b nz by (simp add: fp_div_def Let_def fp_finite_simps)
  then have u: "f64_unpack (f64_div (f64_of_int ns) (f64_of_int Second)) = ?r"
    unfolding f64_div_def f64_unpack_of_int by (simp only: f64_unpack_pack fp_bound64)
  have one: "fp_finite binary64 (fp_of_int binary64 1)" "fp_val binary64 (fp_of_int binary64 1) = 1"
    and zero: "fp_finite binary64 (fp_of_int binary64 0)" "fp_val binary64 (fp_of_int binary64 0) = 0"
    using fp_of_int64[of 1] fp_of_int64[of 0] by auto
  show "fp_finite binary64 (f64_unpack (f64_div (f64_of_int ns) (f64_of_int Second)))"
    unfolding u using q by (intro fp_finite_round64) auto
  show "0 \<le> fp_val binary64 (f64_unpack (f64_div (f64_of_int ns) (f64_of_int Second)))"
    unfolding u using fp_round_ge[OF zero(1)] zero(2) q(1) by simp
  show "fp_val binary64 (f64_unpack (f64_div (f64_of_int ns) (f64_of_int Second))) \<le> 1"
    unfolding u using fp_round_le[OF one(1)] one(2) q(2) by simp
qed

lemma Seconds_bounds:
  assumes "0 \<le> d" "d < 2 ^ 63"
  shows "fp_finite binary64 (f64_unpack (Seconds d))"
    and "of_int (d div Second) \<le> fp_val binary64 (f64_unpack (Seconds d))"
    and "fp_val binary64 (f64_unpack (Seconds d)) \<le> of_int (d div Second) + 1"
proof -
  let ?s = "d div Second" and ?n = "d mod Second"
  let ?f = "f64_unpack (f64_div (f64_of_int ?n) (f64_of_int Second))"
  have n: "0 \<le> ?n" "?n < Second" by (auto simp: Second_def)
  have s: "0 \<le> ?s" "?s + 1 < 2 ^ 53" using assms by (simp_all add: Second_def)
  have S: "Seconds d = f64_add (f64_of_int ?s) (f64_div (f64_of_int ?n) (f64_of_int Second))"
    using assms(1) by (cases "d = 0") (simp_all add: Seconds_def Let_def)
  let ?a = "fp_of_int binary64 ?s"
  have a: "fp_finite binary64 ?a" "fp_val binary64 ?a = of_int ?s" using s fp_of_int64[of ?s] by auto
  have c: "fp_finite binary64 (fp_of_int binary64 (?s + 1))"
    "fp_val binary64 (fp_of_int binary64 (?s + 1)) = of_int ?s + 1"
    using s fp_of_int64[of "?s + 1"] by auto
  note f = fraction_bounds[OF n]
  let ?q = "(of_int ?s :: rat) + fp_val binary64 ?f"
  have u: "f64_unpack (Seconds d) = fp_round binary64 (fst ?a \<and> fst ?f) ?q"
    unfolding S f64_unpack_add f64_unpack_of_int
    using a f(1) by (simp add: fp_add_def fp_finite_simps)
  have "(of_int (?s + 1) :: rat) \<le> of_int (2 ^ 53)"
    using s(2) unfolding of_int_le_iff by simp
  then have "of_int ?s + 1 \<le> (2 ^ 53 :: rat)" by simp
  moreover have "0 \<le> (of_int ?s :: rat)" using s(1) by simp
  ultimately have q: "0 \<le> ?q" "?q \<le> 2 ^ 53" "of_int ?s \<le> ?q" "?q \<le> of_int ?s + 1"
    using f(2,3) s(1) by linarith+
  show "fp_finite binary64 (f64_unpack (Seconds d))"
    unfolding u using q by (intro fp_finite_round64) auto
  show "of_int (d div Second) \<le> fp_val binary64 (f64_unpack (Seconds d))"
    unfolding u using fp_round_ge[OF a(1)] a(2) q(3) by simp
  show "fp_val binary64 (f64_unpack (Seconds d)) \<le> of_int (d div Second) + 1"
    unfolding u using fp_round_le[OF c(1)] c(2) q(4) by simp
qed

lemma int_Seconds_bounds:
  assumes "0 \<le> d" "d < 2 ^ 63"
  shows "d div Second \<le> int_Seconds d" and "int_Seconds d \<le> d div Second + 1"
proof -
  let ?x = "f64_unpack (Seconds d)"
  note b = Seconds_bounds[OF assms]
  have s: "0 \<le> d div Second" using assms by (auto simp: Second_def)
  have "0 \<le> fp_val binary64 ?x" using b(2) s by (meson of_int_0_le_iff order_trans)
  then have "f64_trunc (Seconds d) = Some \<lfloor>fp_val binary64 ?x\<rfloor>"
    using b(1) by (auto simp: f64_trunc_def fp_trunc_def fp_val_def split: if_splits)
  then have "int_Seconds d = \<lfloor>fp_val binary64 ?x\<rfloor>" by (simp add: int_Seconds_def)
  then show "d div Second \<le> int_Seconds d" "int_Seconds d \<le> d div Second + 1"
    using b(2,3) by (auto simp: le_floor_iff floor_le_iff)
qed

text \<open>A delay has been reached for certain once its seconds have passed, and not before the last second.\<close>

lemma int_Seconds_reached: "0 \<le> n \<Longrightarrow> n * Second \<le> d \<Longrightarrow> d < 2 ^ 63 \<Longrightarrow> n \<le> int_Seconds d"
proof -
  assume a: "0 \<le> n" "n * Second \<le> d" "d < 2 ^ 63"
  then have "n \<le> d div Second" by (simp add: Second_def)
  moreover have "0 \<le> d" using a by (simp add: Second_def)
  ultimately show ?thesis using int_Seconds_bounds(1)[OF _ a(3)] by linarith
qed

end
