(* ===== verification/Protowire.thy ===== *)
theory Protowire
  imports Go_Base
begin

unbundle bit_operations_syntax

text \<open>
  The protocol buffer primitives the Sparkplug codec calls
  (\<open>google.golang.org/protobuf/encoding/protowire\<close>).  The package is not part of the
  repository, so it is a record of functions that every definition of the codec takes
  as an argument.  What the codec relies on is the locale \<open>protowire_laws\<close>: an append
  adds bytes at the end, a consume reads back what the matching append wrote whatever
  follows it and says how many bytes it read, and a varint that is read takes at least
  one byte.  The primitives as the wire format documents them are defined at the end
  and shown to satisfy the laws.
\<close>

record protowire =
  VarintType :: int
  Fixed32Type :: int
  Fixed64Type :: int
  BytesType :: int
  AppendVarint :: "bytes \<Rightarrow> 64 word \<Rightarrow> bytes"
  AppendTag :: "bytes \<Rightarrow> int \<Rightarrow> int \<Rightarrow> bytes"
  AppendFixed32 :: "bytes \<Rightarrow> 32 word \<Rightarrow> bytes"
  AppendFixed64 :: "bytes \<Rightarrow> 64 word \<Rightarrow> bytes"
  AppendBytes :: "bytes \<Rightarrow> bytes \<Rightarrow> bytes"
  AppendString :: "bytes \<Rightarrow> string \<Rightarrow> bytes"
  ConsumeVarint :: "bytes \<Rightarrow> 64 word \<times> int"
  ConsumeFixed32 :: "bytes \<Rightarrow> 32 word \<times> int"
  ConsumeFixed64 :: "bytes \<Rightarrow> 64 word \<times> int"
  ConsumeBytes :: "bytes \<Rightarrow> bytes \<times> int"
  ConsumeString :: "bytes \<Rightarrow> string \<times> int"
  ConsumeFieldValue :: "int \<Rightarrow> int \<Rightarrow> bytes \<Rightarrow> int"
  DecodeTag :: "64 word \<Rightarrow> int \<times> int"

definition wire_types :: "protowire \<Rightarrow> int list" where
  "wire_types W = [VarintType W, Fixed32Type W, Fixed64Type W, BytesType W]"

section \<open>The loop of a decoder\<close>

text \<open>
  Every decoder of the codec reads a tag, splits it into field number and wire type,
  consumes the value of that field from what follows and goes on behind it.  \<open>step\<close> is the
  body of the switch over the field number: it gets the bytes behind the tag and
  returns the new state and the number of bytes it consumed.  The fuel bounds the number of
  fields; the length of the data is always enough (\<open>decode_loop_fuel\<close> below).
\<close>

datatype sp_error =
    EmptyData | NilPayload | NilMetric
  | TagAt nat | FieldNumAt nat
  | WireType string int
  | ReadField string
  | SkipField int
  | DecodeMetric sp_error
  | EncodeMetric string sp_error
  | OutOfFuel

fun decode_loop :: "protowire \<Rightarrow> bool \<Rightarrow> (int \<Rightarrow> int \<Rightarrow> bytes \<Rightarrow> 's \<Rightarrow> sp_error + ('s \<times> nat)) \<Rightarrow>
    nat \<Rightarrow> bytes \<Rightarrow> nat \<Rightarrow> 's \<Rightarrow> sp_error + 's" where
  "decode_loop W zc step 0 data offset st = (if length data \<le> offset then Inr st else Inl OutOfFuel)"
| "decode_loop W zc step (Suc f) data offset st =
     (if length data \<le> offset then Inr st
      else let (tag, n) = ConsumeVarint W (drop offset data) in
           if n < 0 then Inl (TagAt offset)
           else let offset = offset + nat n; (num, wt) = DecodeTag W tag in
                if zc \<and> num = 0 then Inl (FieldNumAt offset)
                else (case step num wt (drop offset data) st of
                        Inl e \<Rightarrow> Inl e
                      | Inr (st', k) \<Rightarrow> decode_loop W zc step f data (offset + k) st'))"

text \<open>Consume a value: the error if the count is negative, the value and the count otherwise.\<close>

definition consumed :: "sp_error \<Rightarrow> ('a \<times> int) \<Rightarrow> ('a \<Rightarrow> 's) \<Rightarrow> sp_error + ('s \<times> nat)" where
  "consumed e r f = (if snd r < 0 then Inl e else Inr (f (fst r), nat (snd r)))"

section \<open>What the codec relies on\<close>

type_synonym field = "int \<times> int \<times> bytes"

definition enc_field :: "protowire \<Rightarrow> field \<Rightarrow> bytes" where
  "enc_field W fl = AppendTag W [] (fst fl) (fst (snd fl)) @ snd (snd fl)"

text \<open>A list of fields takes a decoder from one state to another, whatever bytes follow.\<close>

inductive steps_to :: "protowire \<Rightarrow> (int \<Rightarrow> int \<Rightarrow> bytes \<Rightarrow> 's \<Rightarrow> sp_error + ('s \<times> nat)) \<Rightarrow>
    field list \<Rightarrow> 's \<Rightarrow> 's \<Rightarrow> bool" for W step where
  steps_nil: "steps_to W step [] st st"
| steps_cons: "1 \<le> num \<Longrightarrow> num < 2 ^ 29 \<Longrightarrow> wt \<in> set (wire_types W) \<Longrightarrow>
     (\<And>r. step num wt (b @ r) st = Inr (st1, length b)) \<Longrightarrow>
     steps_to W step fs st1 st2 \<Longrightarrow> steps_to W step ((num, wt, b) # fs) st st2"

lemma steps_to_append:
  "steps_to W step fs s1 s2 \<Longrightarrow> steps_to W step gs s2 s3 \<Longrightarrow> steps_to W step (fs @ gs) s1 s3"
  by (induction rule: steps_to.induct) (auto intro: steps_to.intros)

lemma steps_to_single:
  "1 \<le> num \<Longrightarrow> num < 2 ^ 29 \<Longrightarrow> wt \<in> set (wire_types W) \<Longrightarrow>
   (\<And>r. step num wt (b @ r) st = Inr (st1, length b)) \<Longrightarrow> steps_to W step [(num, wt, b)] st st1"
  by (auto intro: steps_to.intros)

lemma steps_to_opt:
  "(c \<Longrightarrow> steps_to W step fs s s') \<Longrightarrow> steps_to W step (if c then fs else []) s (if c then s' else s)"
  by (auto intro: steps_to.intros)

locale protowire_laws =
  fixes W :: protowire
  assumes append_varint: "AppendVarint W b v = b @ AppendVarint W [] v"
    and append_tag: "AppendTag W b n t = b @ AppendTag W [] n t"
    and append_fixed32: "AppendFixed32 W b w32 = b @ AppendFixed32 W [] w32"
    and append_fixed64: "AppendFixed64 W b v = b @ AppendFixed64 W [] v"
    and append_bytes: "AppendBytes W b bs = b @ AppendBytes W [] bs"
    and append_string: "AppendString W b s = b @ AppendString W [] s"
    and bytes_length: "length bs \<le> length (AppendBytes W [] bs)"
    and string_length: "length s \<le> length (AppendString W [] s)"
    and consume_varint:
      "ConsumeVarint W (AppendVarint W [] v @ r) = (v, int (length (AppendVarint W [] v)))"
    and consume_fixed32:
      "ConsumeFixed32 W (AppendFixed32 W [] w32 @ r) = (w32, int (length (AppendFixed32 W [] w32)))"
    and consume_fixed64:
      "ConsumeFixed64 W (AppendFixed64 W [] v @ r) = (v, int (length (AppendFixed64 W [] v)))"
    and consume_bytes:
      "length bs < 2 ^ 63 \<Longrightarrow>
       ConsumeBytes W (AppendBytes W [] bs @ r) = (bs, int (length (AppendBytes W [] bs)))"
    and consume_string:
      "length s < 2 ^ 63 \<Longrightarrow>
       ConsumeString W (AppendString W [] s @ r) = (s, int (length (AppendString W [] s)))"
    and consume_tag:
      "1 \<le> n \<Longrightarrow> n < 2 ^ 29 \<Longrightarrow> t \<in> set (wire_types W) \<Longrightarrow>
       \<exists>x. ConsumeVarint W (AppendTag W [] n t @ r) = (x, int (length (AppendTag W [] n t))) \<and>
           DecodeTag W x = (n, t)"
    and varint_progress: "ConsumeVarint W b = (v, k) \<Longrightarrow> 0 \<le> k \<Longrightarrow> 0 < k"
begin

lemma tag_nonempty:
  assumes "1 \<le> n" "n < 2 ^ 29" "t \<in> set (wire_types W)"
  shows "AppendTag W [] n t \<noteq> []"
proof -
  obtain x where "ConsumeVarint W (AppendTag W [] n t @ []) = (x, int (length (AppendTag W [] n t)))"
    using consume_tag[OF assms] by blast
  from varint_progress[OF this] show ?thesis by auto
qed

text \<open>The loop reads one encoded field and goes on behind it.\<close>

lemma decode_loop_field:
  assumes "1 \<le> num" "num < 2 ^ 29" "wt \<in> set (wire_types W)"
    and step: "\<And>r. step num wt (b @ r) st = Inr (st', length b)"
  shows "decode_loop W zc step (Suc f) (pre @ enc_field W (num, wt, b) @ rest) (length pre) st =
     decode_loop W zc step f (pre @ enc_field W (num, wt, b) @ rest)
       (length (pre @ enc_field W (num, wt, b))) st'"
proof -
  let ?t = "AppendTag W [] num wt"
  obtain x where x: "ConsumeVarint W (?t @ b @ rest) = (x, int (length ?t))" "DecodeTag W x = (num, wt)"
    using consume_tag[OF assms(1-3)] by blast
  have ne: "?t \<noteq> []" by (rule tag_nonempty[OF assms(1-3)])
  show ?thesis
    using x ne assms(1) step[of rest]
    by (simp add: enc_field_def Let_def add.assoc)
qed

lemma decode_loop_steps:
  assumes "steps_to W step fs st st'" and "length (concat (map (enc_field W) fs)) \<le> f"
  shows "decode_loop W zc step f (pre @ concat (map (enc_field W) fs)) (length pre) st = Inr st'"
  using assms
proof (induction arbitrary: pre f rule: steps_to.induct)
  case (steps_nil st)
  then show ?case by (cases f) simp_all
next
  case (steps_cons num wt b st st1 fs st2)
  let ?fl = "enc_field W (num, wt, b)"
  have "0 < length ?fl"
    using tag_nonempty[OF steps_cons.hyps(1-3)] by (simp add: enc_field_def)
  moreover have "length ?fl + length (concat (map (enc_field W) fs)) \<le> f"
    using steps_cons.prems by simp
  ultimately have "0 < f" and g: "length (concat (map (enc_field W) fs)) \<le> f - 1"
    by linarith+
  then have f: "f = Suc (f - 1)" by simp
  let ?rest = "concat (map (enc_field W) fs)"
  have "decode_loop W zc step (Suc (f - 1)) (pre @ ?fl @ ?rest) (length pre) st =
      decode_loop W zc step (f - 1) (pre @ ?fl @ ?rest) (length (pre @ ?fl)) st1"
    by (rule decode_loop_field) (use steps_cons.hyps in auto)
  then have "decode_loop W zc step f (pre @ concat (map (enc_field W) ((num, wt, b) # fs))) (length pre) st =
      decode_loop W zc step (f - 1) ((pre @ ?fl) @ ?rest) (length (pre @ ?fl)) st1"
    by (simp only: f[symmetric] list.map concat.simps append_assoc)
  also have "\<dots> = Inr st2" by (rule steps_cons.IH[OF g])
  finally show ?case .
qed

lemma decode_loop_encoded:
  "steps_to W step fs st st' \<Longrightarrow> length (concat (map (enc_field W) fs)) \<le> f \<Longrightarrow>
   decode_loop W zc step f (concat (map (enc_field W) fs)) 0 st = Inr st'"
  using decode_loop_steps[of step fs st st' f zc "[]"] by simp

text \<open>
  The bytes \<open>b\<close> are a sequence of fields that takes a decoder from \<open>s\<close> to \<open>s'\<close>.  A Go
  slice has fewer than \<open>2 ^ 63\<close> elements, so the bound is no restriction.
\<close>

definition writes :: "(int \<Rightarrow> int \<Rightarrow> bytes \<Rightarrow> 's \<Rightarrow> sp_error + ('s \<times> nat)) \<Rightarrow> bytes \<Rightarrow> 's \<Rightarrow> 's \<Rightarrow> bool" where
  "writes step b s s' \<longleftrightarrow> (length b < 2 ^ 63 \<longrightarrow>
     (\<exists>fs. b = concat (map (enc_field W) fs) \<and> steps_to W step fs s s'))"

lemma writes_nil: "writes step [] s s"
  unfolding writes_def by (auto intro!: exI[of _ "[]"] steps_nil)

lemma writes_append:
  assumes "writes step b s s1" "writes step c s1 s2"
  shows "writes step (b @ c) s s2"
  unfolding writes_def
proof
  assume "length (b @ c) < 2 ^ 63"
  then obtain fs gs where "b = concat (map (enc_field W) fs)" "steps_to W step fs s s1"
    "c = concat (map (enc_field W) gs)" "steps_to W step gs s1 s2"
    using assms unfolding writes_def by auto
  then show "\<exists>hs. b @ c = concat (map (enc_field W) hs) \<and> steps_to W step hs s s2"
    by (intro exI[of _ "fs @ gs"]) (auto intro: steps_to_append)
qed

lemma writes_field:
  assumes "1 \<le> num" "num < 2 ^ 29" "wt \<in> set (wire_types W)"
    and "\<And>r. length b < 2 ^ 63 \<Longrightarrow> step num wt (b @ r) st = Inr (st1, length b)"
  shows "writes step (enc_field W (num, wt, b)) st st1"
  unfolding writes_def
  by (auto intro!: exI[of _ "[(num, wt, b)]"] steps_to_single assms simp: enc_field_def)

lemma writes_if:
  "(c \<Longrightarrow> writes step b s s') \<Longrightarrow> (\<not> c \<Longrightarrow> s = s') \<Longrightarrow> writes step (if c then b else []) s s'"
  by (auto intro: writes_nil)

lemma decode_loop_writes:
  "writes step b s s' \<Longrightarrow> length b < 2 ^ 63 \<Longrightarrow> decode_loop W zc step (length b) b 0 s = Inr s'"
  unfolding writes_def by (auto intro!: decode_loop_encoded)

lemma appends:
  "AppendVarint W (AppendTag W b n t) v = b @ enc_field W (n, t, AppendVarint W [] v)"
  "AppendFixed32 W (AppendTag W b n t) w32 = b @ enc_field W (n, t, AppendFixed32 W [] w32)"
  "AppendFixed64 W (AppendTag W b n t) v = b @ enc_field W (n, t, AppendFixed64 W [] v)"
  "AppendBytes W (AppendTag W b n t) bs = b @ enc_field W (n, t, AppendBytes W [] bs)"
  "AppendString W (AppendTag W b n t) s = b @ enc_field W (n, t, AppendString W [] s)"
  unfolding enc_field_def fst_conv snd_conv
  by (metis append_assoc append_tag append_varint, metis append_assoc append_tag append_fixed32,
      metis append_assoc append_tag append_fixed64, metis append_assoc append_tag append_bytes,
      metis append_assoc append_tag append_string)

text \<open>
  The loop never runs out of fuel when the fuel is the length of the data: every round
  reads a tag of at least one byte.
\<close>

lemma decode_loop_fuel:
  assumes "length data \<le> offset + f"
    and "\<And>num wt b st. step num wt b st \<noteq> Inl OutOfFuel"
  shows "decode_loop W zc step f data offset st \<noteq> Inl OutOfFuel"
  using assms(1)
proof (induction f arbitrary: offset st)
  case 0
  then show ?case by simp
next
  case (Suc f)
  obtain tag n where tn: "ConsumeVarint W (drop offset data) = (tag, n)" by fastforce
  obtain num wt where nt: "DecodeTag W tag = (num, wt)" by fastforce
  have IH: "0 \<le> n \<Longrightarrow> decode_loop W zc step f data (offset + nat n + k) st' \<noteq> Inl OutOfFuel" for k st'
    using varint_progress[OF tn] Suc.prems by (intro Suc.IH) linarith
  show ?case
    using IH assms(2)[of num wt "drop (offset + nat n) data" st]
    by (auto simp: tn nt Let_def split: sum.splits prod.splits)
qed

end

section \<open>The documented wire format\<close>

fun uleb :: "nat \<Rightarrow> bytes" where
  "uleb n = (if n < 128 then [of_nat n] else of_nat (n mod 128 + 128) # uleb (n div 128))"

declare uleb.simps [simp del]

fun unleb :: "nat \<Rightarrow> bytes \<Rightarrow> (nat \<times> nat) option" where
  "unleb 0 bs = None"
| "unleb (Suc k) bs = (case bs of
     [] \<Rightarrow> None
   | b # bs \<Rightarrow>
       (if unat b < 128 then Some (unat b, 1)
        else case unleb k bs of None \<Rightarrow> None | Some (v, n) \<Rightarrow> Some (unat b - 128 + 128 * v, n + 1)))"

definition std_varint :: "bytes \<Rightarrow> 64 word \<times> int" where
  "std_varint bs = (case unleb 10 bs of
     None \<Rightarrow> (0, -1)
   | Some (v, n) \<Rightarrow> if v < 2 ^ 64 then (of_nat v, int n) else (0, -3))"

fun le_bytes :: "nat \<Rightarrow> nat \<Rightarrow> bytes" where
  "le_bytes 0 v = []"
| "le_bytes (Suc k) v = of_nat (v mod 256) # le_bytes k (v div 256)"

fun of_le_bytes :: "bytes \<Rightarrow> nat" where
  "of_le_bytes [] = 0"
| "of_le_bytes (b # bs) = unat b + 256 * of_le_bytes bs"

definition std_bytes :: "bytes \<Rightarrow> bytes \<times> int" where
  "std_bytes bs = (let (v, n) = std_varint bs; m = unat v in
     if n < 0 then ([], n)
     else if length bs < nat n + m then ([], -1)
     else (take m (drop (nat n) bs), n + int m))"

definition to_bytes :: "string \<Rightarrow> bytes" where
  "to_bytes s = map (\<lambda>c. of_nat (of_char c)) s"

definition to_string :: "bytes \<Rightarrow> string" where
  "to_string bs = map (\<lambda>b. char_of (unat b)) bs"

definition std_field :: "int \<Rightarrow> int \<Rightarrow> bytes \<Rightarrow> int" where
  "std_field num wt bs =
     (if wt = 0 then snd (std_varint bs)
      else if wt = 5 then (if length bs < 4 then -1 else 4)
      else if wt = 1 then (if length bs < 8 then -1 else 8)
      else if wt = 2 then snd (std_bytes bs)
      else -4)"

definition std_wire :: protowire where
  "std_wire = \<lparr>VarintType = 0, Fixed32Type = 5, Fixed64Type = 1, BytesType = 2,
     AppendVarint = (\<lambda>b v. b @ uleb (unat v)),
     AppendTag = (\<lambda>b n t. b @ uleb (nat (n * 8 + t))),
     AppendFixed32 = (\<lambda>b v. b @ le_bytes 4 (unat v)),
     AppendFixed64 = (\<lambda>b v. b @ le_bytes 8 (unat v)),
     AppendBytes = (\<lambda>b bs. b @ uleb (length bs) @ bs),
     AppendString = (\<lambda>b s. b @ uleb (length s) @ to_bytes s),
     ConsumeVarint = std_varint,
     ConsumeFixed32 = (\<lambda>bs. if length bs < 4 then (0, -1) else (of_nat (of_le_bytes (take 4 bs)), 4)),
     ConsumeFixed64 = (\<lambda>bs. if length bs < 8 then (0, -1) else (of_nat (of_le_bytes (take 8 bs)), 8)),
     ConsumeBytes = std_bytes,
     ConsumeString = (\<lambda>bs. let (s, n) = std_bytes bs in (to_string s, n)),
     ConsumeFieldValue = std_field,
     DecodeTag = (\<lambda>x. if 2 ^ 31 - 1 < uint x div 8 then (-1, 0) else (uint x div 8, uint x mod 8))\<rparr>"

lemma unleb_uleb: "n < 128 ^ Suc k \<Longrightarrow> unleb (Suc k) (uleb n @ r) = Some (n, length (uleb n))"
proof (induction k arbitrary: n)
  case 0
  then have "uleb n = [of_nat n]" by (simp add: uleb.simps)
  with 0 show ?case by (simp add: unsigned_of_nat take_bit_nat_eq_self)
next
  case (Suc k)
  show ?case
  proof (cases "n < 128")
    case True
    then have "uleb n = [of_nat n]" by (simp add: uleb.simps)
    with True show ?thesis by (simp add: unsigned_of_nat take_bit_nat_eq_self)
  next
    case False
    then have u: "uleb n = of_nat (n mod 128 + 128) # uleb (n div 128)"
      by (subst uleb.simps) simp
    have "n div 128 < 128 ^ Suc k" using Suc.prems by (simp add: less_mult_imp_div_less mult.commute)
    then have IH: "unleb (Suc k) (uleb (n div 128) @ r) = Some (n div 128, length (uleb (n div 128)))"
      by (rule Suc.IH)
    moreover have "unat (of_nat (n mod 128 + 128) :: byte) = n mod 128 + 128"
      unfolding unsigned_of_nat of_nat_id by (rule take_bit_nat_eq_self) simp
    ultimately show ?thesis
      unfolding u append_Cons unleb.simps(2)[of "Suc k"] by simp
  qed
qed

lemma std_varint_uleb:
  assumes "n < 2 ^ 64"
  shows "std_varint (uleb n @ r) = (of_nat n, int (length (uleb n)))"
proof -
  have "n < 128 ^ Suc 9" using assms by simp
  then have "unleb (Suc 9) (uleb n @ r) = Some (n, length (uleb n))" by (rule unleb_uleb)
  then have "unleb 10 (uleb n @ r) = Some (n, length (uleb n))" by (simp only: Suc_numeral semiring_norm)
  then show ?thesis using assms by (simp add: std_varint_def)
qed

lemma uleb_nonempty [simp]: "uleb n \<noteq> []"
  by (subst uleb.simps) simp

lemma unleb_progress: "unleb k bs = Some (v, n) \<Longrightarrow> 0 < n"
  by (induction k bs arbitrary: v n rule: unleb.induct) (auto split: if_splits option.splits list.splits)

lemma length_le_bytes [simp]: "length (le_bytes k v) = k"
  by (induction k arbitrary: v) auto

lemma of_le_bytes_le_bytes: "v < 256 ^ k \<Longrightarrow> of_le_bytes (le_bytes k v) = v"
proof (induction k arbitrary: v)
  case (Suc k)
  have "v div 256 < 256 ^ k" using Suc.prems by (simp add: less_mult_imp_div_less mult.commute)
  moreover have "unat (of_nat (v mod 256) :: byte) = v mod 256"
    unfolding unsigned_of_nat of_nat_id by (rule take_bit_nat_eq_self) simp
  ultimately show ?case using Suc.IH[of "v div 256"] by simp
qed simp

lemma std_bytes_append:
  "length bs < 2 ^ 63 \<Longrightarrow> std_bytes (uleb (length bs) @ bs @ r) = (bs, int (length (uleb (length bs)) + length bs))"
proof -
  assume a: "length bs < 2 ^ 63"
  have "std_varint (uleb (length bs) @ bs @ r) = (of_nat (length bs), int (length (uleb (length bs))))"
    using a by (intro std_varint_uleb) simp
  moreover have "unat (of_nat (length bs) :: 64 word) = length bs"
    unfolding unsigned_of_nat of_nat_id using a by (intro take_bit_nat_eq_self) simp
  ultimately show ?thesis by (simp add: std_bytes_def Let_def)
qed

lemma to_string_to_bytes [simp]: "to_string (to_bytes s) = s"
proof -
  have "unat (of_nat (of_char c) :: byte) = of_char c" for c
    unfolding unsigned_of_nat of_nat_id by (rule take_bit_nat_eq_self) simp
  then show ?thesis by (simp add: to_string_def to_bytes_def comp_def)
qed

lemma length_to_bytes [simp]: "length (to_bytes s) = length s"
  by (simp add: to_bytes_def)

lemma std_tag:
  assumes "1 \<le> n" "n < 2 ^ 29" "t \<in> set (wire_types std_wire)"
  shows "\<exists>x. std_varint (uleb (nat (n * 8 + t)) @ r) = (x, int (length (uleb (nat (n * 8 + t))))) \<and>
     DecodeTag std_wire x = (n, t)"
proof -
  have t: "0 \<le> t" "t < 8" using assms(3) by (auto simp: wire_types_def std_wire_def)
  let ?x = "of_nat (nat (n * 8 + t)) :: 64 word"
  have "nat (n * 8 + t) < 2 ^ 64" using assms t by simp
  then have "std_varint (uleb (nat (n * 8 + t)) @ r) = (?x, int (length (uleb (nat (n * 8 + t)))))"
    by (rule std_varint_uleb)
  moreover have "unat ?x = nat (n * 8 + t)"
    unfolding unsigned_of_nat of_nat_id using assms t by (intro take_bit_nat_eq_self) simp
  then have "uint ?x = n * 8 + t"
    using assms t unfolding uint_nat by simp
  then have "DecodeTag std_wire ?x = (n, t)"
    using assms t by (simp add: std_wire_def)
  ultimately show ?thesis by blast
qed

interpretation std: protowire_laws std_wire
proof unfold_locales
  fix n t :: int and r :: bytes
  assume "1 \<le> n" "n < 2 ^ 29" "t \<in> set (wire_types std_wire)"
  then show "\<exists>x. ConsumeVarint std_wire (AppendTag std_wire [] n t @ r) =
      (x, int (length (AppendTag std_wire [] n t))) \<and> DecodeTag std_wire x = (n, t)"
    using std_tag by (simp add: std_wire_def)
next
  fix v :: "64 word" and r :: bytes
  have "unat v < 2 ^ 64" using unsigned_less[of v, where ?'a = nat] by simp
  then show "ConsumeVarint std_wire (AppendVarint std_wire [] v @ r) =
      (v, int (length (AppendVarint std_wire [] v)))"
    by (simp add: std_wire_def std_varint_uleb)
  from \<open>unat v < 2 ^ 64\<close> show "ConsumeFixed64 std_wire (AppendFixed64 std_wire [] v @ r) =
      (v, int (length (AppendFixed64 std_wire [] v)))"
    by (simp add: std_wire_def of_le_bytes_le_bytes del: le_bytes.simps)
next
  fix v :: "32 word" and r :: bytes
  have "unat v < 2 ^ 32" using unsigned_less[of v, where ?'a = nat] by simp
  then show "ConsumeFixed32 std_wire (AppendFixed32 std_wire [] v @ r) =
      (v, int (length (AppendFixed32 std_wire [] v)))"
    by (simp add: std_wire_def of_le_bytes_le_bytes del: le_bytes.simps)
next
  fix bs r :: bytes
  assume "length bs < 2 ^ 63"
  then show "ConsumeBytes std_wire (AppendBytes std_wire [] bs @ r) =
      (bs, int (length (AppendBytes std_wire [] bs)))"
    using std_bytes_append[of bs r] by (simp add: std_wire_def)
next
  fix s :: string and r :: bytes
  assume "length s < 2 ^ 63"
  then show "ConsumeString std_wire (AppendString std_wire [] s @ r) =
      (s, int (length (AppendString std_wire [] s)))"
    using std_bytes_append[of "to_bytes s" r] by (simp add: std_wire_def)
next
  fix b :: bytes and v :: "64 word" and k :: int
  assume "ConsumeVarint std_wire b = (v, k)" "0 \<le> k"
  then show "0 < k"
    by (auto simp: std_wire_def std_varint_def dest: unleb_progress split: option.splits prod.splits if_splits)
qed (simp_all add: std_wire_def)

end
