(* ===== verification/Sparkplug.thy ===== *)
theory Sparkplug
  imports Protowire
begin

text \<open>
  The Sparkplug B codec: the types and quality codes of \<open>internal/sparkplug/types.go\<close>,
  the payload constructors and value conversions of \<open>payload.go\<close>, and the protocol
  buffer encoder and decoder of \<open>protobuf.go\<close>.  The codec is a function of the
  \<open>protowire\<close> primitives \<open>W\<close> and of what the Go implementation decides, \<open>G\<close>.
\<close>

section \<open>Types\<close>

definition QualityGood :: "32 word" where "QualityGood = 192"
definition QualityBad :: "32 word" where "QualityBad = 0"
definition QualityUncert :: "32 word" where "QualityUncert = 64"

definition DataTypeUnknown :: "32 word" where "DataTypeUnknown = 0"
definition DataTypeInt8 :: "32 word" where "DataTypeInt8 = 1"
definition DataTypeInt16 :: "32 word" where "DataTypeInt16 = 2"
definition DataTypeInt32 :: "32 word" where "DataTypeInt32 = 3"
definition DataTypeInt64 :: "32 word" where "DataTypeInt64 = 4"
definition DataTypeUInt8 :: "32 word" where "DataTypeUInt8 = 5"
definition DataTypeUInt16 :: "32 word" where "DataTypeUInt16 = 6"
definition DataTypeUInt32 :: "32 word" where "DataTypeUInt32 = 7"
definition DataTypeUInt64 :: "32 word" where "DataTypeUInt64 = 8"
definition DataTypeFloat :: "32 word" where "DataTypeFloat = 9"
definition DataTypeDouble :: "32 word" where "DataTypeDouble = 10"
definition DataTypeBoolean :: "32 word" where "DataTypeBoolean = 11"
definition DataTypeString :: "32 word" where "DataTypeString = 12"
definition DataTypeText :: "32 word" where "DataTypeText = 14"
definition DataTypeBytes :: "32 word" where "DataTypeBytes = 17"

lemmas data_type_defs = DataTypeUnknown_def DataTypeInt8_def DataTypeInt16_def DataTypeInt32_def
  DataTypeInt64_def DataTypeUInt8_def DataTypeUInt16_def DataTypeUInt32_def DataTypeUInt64_def
  DataTypeFloat_def DataTypeDouble_def DataTypeBoolean_def DataTypeString_def DataTypeText_def
  DataTypeBytes_def

record tag_data =
  td_TagID :: int
  td_DeviceID :: string
  td_Value :: go_value
  td_DataType :: string
  td_Timestamp :: "64 word"
  td_Quality :: int
  td_OrgID :: int
  td_EUScaled :: bool

record metric =
  m_Name :: string
  m_DataType :: "32 word"
  m_Timestamp :: "64 word"
  m_Quality :: "32 word"
  m_Value :: go_value
  m_IsHistorical :: bool
  m_IsNull :: bool

record payload =
  p_Timestamp :: "64 word"
  p_Seq :: "64 word"
  p_UUID :: string
  p_Metrics :: "metric list"

definition DataTypeMapping :: "string \<rightharpoonup> 32 word" where
  "DataTypeMapping = map_of [(''BOOL'', DataTypeBoolean), (''INT'', DataTypeInt16),
     (''UINT'', DataTypeUInt16), (''DINT'', DataTypeInt32), (''REAL'', DataTypeFloat),
     (''STRING'', DataTypeString), (''FLOAT32'', DataTypeFloat), (''FLOAT64'', DataTypeDouble)]"

definition ConvertLegacyQualityToSparkplug :: "int \<Rightarrow> 32 word" where
  "ConvertLegacyQualityToSparkplug q =
     (if q = 0 then QualityGood else if q = 1 then QualityUncert else if q = 2 then QualityBad
      else QualityGood)"

definition ConvertSparkplugToLegacyQuality :: "32 word \<Rightarrow> int" where
  "ConvertSparkplugToLegacyQuality q =
     (if 192 \<le> sint q then 0 else if 64 \<le> sint q then 1 else 2)"

definition mapDataType :: "string \<Rightarrow> 32 word" where
  "mapDataType t = (case DataTypeMapping t of Some dt \<Rightarrow> dt | None \<Rightarrow> DataTypeUnknown)"

section \<open>Value conversions\<close>

text \<open>
  In the clause of a type switch that lists several types the variable keeps its
  interface type, so \<open>val != 0\<close> compares with the \<open>int\<close> zero: it is false only for an
  \<open>int\<close> whose value is zero.
\<close>

definition iface_nonzero :: "go_value \<Rightarrow> bool" where
  "iface_nonzero v \<longleftrightarrow> v \<noteq> VInt 0"

definition true_string :: "string \<Rightarrow> bool" where
  "true_string s \<longleftrightarrow> s = ''true'' \<or> s = ''1'' \<or> s = ''on''"

fun toBoolValue :: "go_value \<Rightarrow> bool \<times> bool" where
  "toBoolValue (VBool b) = (b, True)"
| "toBoolValue (VString s) = (true_string s, True)"
| "toBoolValue (VFloat32 f) = (iface_nonzero (VFloat32 f), True)"
| "toBoolValue (VFloat64 f) = (iface_nonzero (VFloat64 f), True)"
| "toBoolValue v = (case int_of_value v of Some _ \<Rightarrow> (iface_nonzero v, True) | None \<Rightarrow> (False, False))"

definition toInt32Value :: "go_impl \<Rightarrow> go_value \<Rightarrow> 32 word \<times> bool" where
  "toInt32Value G v = (case conv_int G (- (2 ^ 31)) (2 ^ 31 - 1) v of
     Some i \<Rightarrow> (of_int i, True) | None \<Rightarrow> (0, False))"

definition toInt64Value :: "go_impl \<Rightarrow> go_value \<Rightarrow> 64 word \<times> bool" where
  "toInt64Value G v = (case conv_int G (- (2 ^ 63)) (2 ^ 63 - 1) v of
     Some i \<Rightarrow> (of_int i, True) | None \<Rightarrow> (0, False))"

definition toUInt32Value :: "go_impl \<Rightarrow> go_value \<Rightarrow> 32 word \<times> bool" where
  "toUInt32Value G v = (case conv_int G 0 (2 ^ 32 - 1) v of
     Some i \<Rightarrow> (of_int i, True) | None \<Rightarrow> (0, False))"

definition toUInt64Value :: "go_impl \<Rightarrow> go_value \<Rightarrow> 64 word \<times> bool" where
  "toUInt64Value G v = (case conv_int G 0 (2 ^ 64 - 1) v of
     Some i \<Rightarrow> (of_int i, True) | None \<Rightarrow> (0, False))"

fun toFloat32Value :: "go_value \<Rightarrow> float32 \<times> bool" where
  "toFloat32Value (VFloat32 f) = (f, True)"
| "toFloat32Value (VFloat64 f) = (f32_of_f64 f, True)"
| "toFloat32Value v = (case int_of_value v of Some i \<Rightarrow> (f32_of_int i, True) | None \<Rightarrow> (0, False))"

fun toFloat64Value :: "go_value \<Rightarrow> float64 \<times> bool" where
  "toFloat64Value (VFloat64 f) = (f, True)"
| "toFloat64Value (VFloat32 f) = (f64_of_f32 f, True)"
| "toFloat64Value v = (case int_of_value v of Some i \<Rightarrow> (f64_of_int i, True) | None \<Rightarrow> (0, False))"

text \<open>\<open>fmt.Sprintf("%v", v)\<close>.\<close>

fun Sprintv :: "go_impl \<Rightarrow> go_value \<Rightarrow> string" where
  "Sprintv G VNil = ''<nil>''"
| "Sprintv G (VBool b) = (if b then ''true'' else ''false'')"
| "Sprintv G (VString s) = s"
| "Sprintv G v = (case int_of_value v of Some i \<Rightarrow> itoa i | None \<Rightarrow> fmt_value G v)"

fun toStringValue :: "go_impl \<Rightarrow> go_value \<Rightarrow> string \<times> bool" where
  "toStringValue G (VString s) = (s, True)"
| "toStringValue G v = (Sprintv G v, True)"

fun toBytesValue :: "go_value \<Rightarrow> bytes \<times> bool" where
  "toBytesValue (VBytes b) = (b, True)"
| "toBytesValue (VString s) = (to_bytes s, True)"
| "toBytesValue v = ([], False)"

text \<open>\<open>ConvertValue\<close> of \<open>payload.go\<close>, with helpers that do not report failure.\<close>

definition toBool :: "go_value \<Rightarrow> bool" where
  "toBool v = fst (toBoolValue v)"

definition toInt64 :: "go_impl \<Rightarrow> go_value \<Rightarrow> 64 word" where
  "toInt64 G v = (case conv_int G (- (2 ^ 63)) (2 ^ 63 - 1) v of Some i \<Rightarrow> of_int i | None \<Rightarrow> 0)"

definition toUInt64 :: "go_impl \<Rightarrow> go_value \<Rightarrow> 64 word" where
  "toUInt64 G v = (case conv_int G 0 (2 ^ 64 - 1) v of Some i \<Rightarrow> of_int i | None \<Rightarrow> 0)"

definition toFloat32 :: "go_value \<Rightarrow> float32" where
  "toFloat32 v = (case v of VFloat32 f \<Rightarrow> f | VFloat64 f \<Rightarrow> f32_of_f64 f
     | _ \<Rightarrow> (case int_of_value v of Some i \<Rightarrow> f32_of_int i | None \<Rightarrow> 0))"

definition toFloat64 :: "go_value \<Rightarrow> float64" where
  "toFloat64 v = (case v of VFloat64 f \<Rightarrow> f | VFloat32 f \<Rightarrow> f64_of_f32 f
     | _ \<Rightarrow> (case int_of_value v of Some i \<Rightarrow> f64_of_int i | None \<Rightarrow> 0))"

definition ConvertValue :: "go_impl \<Rightarrow> go_value \<Rightarrow> 32 word \<Rightarrow> go_value" where
  "ConvertValue G value dt =
     (if dt = DataTypeBoolean then VBool (toBool value)
      else if dt \<in> {DataTypeInt8, DataTypeInt16, DataTypeInt32, DataTypeInt64} then VInt64 (toInt64 G value)
      else if dt \<in> {DataTypeUInt8, DataTypeUInt16, DataTypeUInt32, DataTypeUInt64} then VUint64 (toUInt64 G value)
      else if dt = DataTypeFloat then VFloat32 (toFloat32 value)
      else if dt = DataTypeDouble then VFloat64 (toFloat64 value)
      else if dt = DataTypeString then VString (Sprintv G value)
      else value)"

section \<open>Encoding\<close>

datatype prop_value =
    PInt32 "32 word" | PInt64 "64 word" | PUint32 "32 word" | PUint64 "64 word"
  | PFloat32 float32 | PFloat64 float64 | PBool bool | PString string | POther

definition encodePropertyValue :: "protowire \<Rightarrow> 32 word \<Rightarrow> prop_value \<Rightarrow> bytes" where
  "encodePropertyValue W dataType value =
     (let data = AppendTag W [] 1 (VarintType W);
          data = AppendVarint W data (ucast dataType)
      in case value of
           PInt32 v \<Rightarrow> AppendVarint W (AppendTag W data 3 (VarintType W)) (scast v)
         | PInt64 v \<Rightarrow> AppendVarint W (AppendTag W data 4 (VarintType W)) v
         | PUint32 v \<Rightarrow> AppendVarint W (AppendTag W data 3 (VarintType W)) (ucast v)
         | PUint64 v \<Rightarrow> AppendVarint W (AppendTag W data 4 (VarintType W)) v
         | PFloat32 v \<Rightarrow> AppendFixed32 W (AppendTag W data 5 (Fixed32Type W)) v
         | PFloat64 v \<Rightarrow> AppendFixed64 W (AppendTag W data 6 (Fixed64Type W)) v
         | PBool v \<Rightarrow> AppendVarint W (AppendTag W data 7 (VarintType W)) (if v then 1 else 0)
         | PString v \<Rightarrow> AppendString W (AppendTag W data 8 (BytesType W)) v
         | POther \<Rightarrow> data)"

definition encodeQualityProperty :: "protowire \<Rightarrow> 32 word \<Rightarrow> bytes" where
  "encodeQualityProperty W quality =
     (let data = AppendTag W [] 1 (BytesType W);
          data = AppendString W data ''quality'';
          propValue = encodePropertyValue W DataTypeInt32 (PInt32 quality);
          data = AppendTag W data 2 (BytesType W)
      in AppendBytes W data propValue)"

definition encodeMetricValue :: "protowire \<Rightarrow> go_impl \<Rightarrow> bytes \<Rightarrow> 32 word \<Rightarrow> go_value \<Rightarrow> bytes" where
  "encodeMetricValue W G data dt value =
     (if dt = DataTypeBoolean then
        (case toBoolValue value of (v, ok) \<Rightarrow>
           if ok then AppendVarint W (AppendTag W data 14 (VarintType W)) (if v then 1 else 0) else data)
      else if dt \<in> {DataTypeInt8, DataTypeInt16, DataTypeInt32} then
        (case toInt32Value G value of (v, ok) \<Rightarrow>
           if ok then AppendVarint W (AppendTag W data 10 (VarintType W)) (scast v) else data)
      else if dt = DataTypeInt64 then
        (case toInt64Value G value of (v, ok) \<Rightarrow>
           if ok then AppendVarint W (AppendTag W data 11 (VarintType W)) v else data)
      else if dt \<in> {DataTypeUInt8, DataTypeUInt16, DataTypeUInt32} then
        (case toUInt32Value G value of (v, ok) \<Rightarrow>
           if ok then AppendVarint W (AppendTag W data 10 (VarintType W)) (ucast v) else data)
      else if dt = DataTypeUInt64 then
        (case toUInt64Value G value of (v, ok) \<Rightarrow>
           if ok then AppendVarint W (AppendTag W data 11 (VarintType W)) v else data)
      else if dt = DataTypeFloat then
        (case toFloat32Value value of (v, ok) \<Rightarrow>
           if ok then AppendFixed32 W (AppendTag W data 12 (Fixed32Type W)) v else data)
      else if dt = DataTypeDouble then
        (case toFloat64Value value of (v, ok) \<Rightarrow>
           if ok then AppendFixed64 W (AppendTag W data 13 (Fixed64Type W)) v else data)
      else if dt = DataTypeString \<or> dt = DataTypeText then
        (case toStringValue G value of (v, ok) \<Rightarrow>
           if ok then AppendString W (AppendTag W data 15 (BytesType W)) v else data)
      else if dt = DataTypeBytes then
        (case toBytesValue value of (v, ok) \<Rightarrow>
           if ok then AppendBytes W (AppendTag W data 16 (BytesType W)) v else data)
      else
        (let v = Sprintv G value in
           if v \<noteq> [] then AppendString W (AppendTag W data 15 (BytesType W)) v else data))"

definition encodeMetric :: "protowire \<Rightarrow> go_impl \<Rightarrow> metric option \<Rightarrow> sp_error + bytes" where
  "encodeMetric W G mo = (case mo of None \<Rightarrow> Inl NilMetric | Some m \<Rightarrow>
     (let data = [];
          data = (if m_Name m \<noteq> [] then AppendString W (AppendTag W data 1 (BytesType W)) (m_Name m) else data);
          data = (if 0 < sint (m_Timestamp m)
                  then AppendVarint W (AppendTag W data 3 (VarintType W)) (m_Timestamp m) else data);
          data = AppendVarint W (AppendTag W data 4 (VarintType W)) (scast (m_DataType m));
          data = (if m_IsHistorical m then AppendVarint W (AppendTag W data 5 (VarintType W)) 1 else data);
          data = (if m_IsNull m then AppendVarint W (AppendTag W data 7 (VarintType W)) 1 else data);
          propertiesData = encodeQualityProperty W (m_Quality m);
          data = AppendBytes W (AppendTag W data 9 (BytesType W)) propertiesData;
          data = (if \<not> m_IsNull m \<and> m_Value m \<noteq> VNil
                  then encodeMetricValue W G data (m_DataType m) (m_Value m) else data)
      in Inr data))"

fun encode_metrics :: "protowire \<Rightarrow> go_impl \<Rightarrow> metric list \<Rightarrow> bytes \<Rightarrow> sp_error + bytes" where
  "encode_metrics W G [] data = Inr data"
| "encode_metrics W G (m # ms) data =
     (case encodeMetric W G (Some m) of
        Inl e \<Rightarrow> Inl (EncodeMetric (m_Name m) e)
      | Inr metricData \<Rightarrow>
          encode_metrics W G ms (AppendBytes W (AppendTag W data 2 (BytesType W)) metricData))"

definition EncodePayload :: "protowire \<Rightarrow> go_impl \<Rightarrow> payload option \<Rightarrow> sp_error + bytes" where
  "EncodePayload W G po = (case po of None \<Rightarrow> Inl NilPayload | Some p \<Rightarrow>
     (let data = (if 0 < sint (p_Timestamp p)
                  then AppendVarint W (AppendTag W [] 1 (VarintType W)) (p_Timestamp p) else [])
      in case encode_metrics W G (p_Metrics p) data of
           Inl e \<Rightarrow> Inl e
         | Inr data \<Rightarrow>
             (let data = AppendVarint W (AppendTag W data 3 (VarintType W)) (p_Seq p);
                  data = (if p_UUID p \<noteq> [] then AppendString W (AppendTag W data 4 (BytesType W)) (p_UUID p) else data)
              in Inr data)))"

section \<open>Decoding\<close>

text \<open>Each \<open>*_field\<close> function is the body of one decoder's switch over the field number.\<close>

definition skip_field :: "protowire \<Rightarrow> int \<Rightarrow> int \<Rightarrow> bytes \<Rightarrow> 's \<Rightarrow> sp_error + ('s \<times> nat)" where
  "skip_field W num wt b s = consumed (SkipField num) ((), ConsumeFieldValue W num wt b) (\<lambda>_. s)"

definition property_value_field :: "protowire \<Rightarrow> int \<Rightarrow> int \<Rightarrow> bytes \<Rightarrow> 32 word \<times> 32 word \<Rightarrow>
    sp_error + ((32 word \<times> 32 word) \<times> nat)" where
  "property_value_field W num wt b s = (case s of (result, propType) \<Rightarrow>
     if num = 1 then consumed (ReadField ''type'') (ConsumeVarint W b) (\<lambda>v. (result, ucast v))
     else if num = 3 then consumed (ReadField ''int'') (ConsumeVarint W b) (\<lambda>v. (ucast v, propType))
     else if num = 4 then consumed (ReadField ''long'') (ConsumeVarint W b) (\<lambda>v. (ucast v, propType))
     else skip_field W num wt b s)"

definition decodePropertyValue :: "protowire \<Rightarrow> bytes \<Rightarrow> 32 word" where
  "decodePropertyValue W data =
     (case decode_loop W False (property_value_field W) (length data) data 0 (0, 0) of
        Inl _ \<Rightarrow> 0 | Inr (result, _) \<Rightarrow> result)"

definition properties_field :: "protowire \<Rightarrow> int \<Rightarrow> int \<Rightarrow> bytes \<Rightarrow> string list \<times> 32 word list \<Rightarrow>
    sp_error + ((string list \<times> 32 word list) \<times> nat)" where
  "properties_field W num wt b s = (case s of (keys, values) \<Rightarrow>
     if num = 1 then consumed (ReadField ''key'') (ConsumeString W b) (\<lambda>v. (keys @ [v], values))
     else if num = 2 then consumed (ReadField ''value'') (ConsumeBytes W b)
            (\<lambda>pd. (keys, values @ [decodePropertyValue W pd]))
     else skip_field W num wt b s)"

fun find_quality :: "nat \<Rightarrow> string list \<Rightarrow> 32 word list \<Rightarrow> 32 word \<times> bool" where
  "find_quality i [] values = (0, False)"
| "find_quality i (k # ks) values =
     (if k = ''quality'' \<and> i < length values then (values ! i, True) else find_quality (i + 1) ks values)"

definition decodeQualityFromProperties :: "protowire \<Rightarrow> bytes \<Rightarrow> 32 word \<times> bool" where
  "decodeQualityFromProperties W data =
     (case decode_loop W False (properties_field W) (length data) data 0 ([], []) of
        Inl _ \<Rightarrow> (0, False) | Inr (keys, values) \<Rightarrow> find_quality 0 keys values)"

definition metric_field :: "protowire \<Rightarrow> int \<Rightarrow> int \<Rightarrow> bytes \<Rightarrow> metric \<Rightarrow> sp_error + (metric \<times> nat)" where
  "metric_field W num wt b m =
     (if num = 1 then consumed (ReadField ''name'') (ConsumeString W b) (\<lambda>v. m\<lparr>m_Name := v\<rparr>)
      else if num = 2 then consumed (ReadField ''alias'') (ConsumeVarint W b) (\<lambda>_. m)
      else if num = 3 then consumed (ReadField ''timestamp'') (ConsumeVarint W b) (\<lambda>v. m\<lparr>m_Timestamp := v\<rparr>)
      else if num = 4 then consumed (ReadField ''data type'') (ConsumeVarint W b) (\<lambda>v. m\<lparr>m_DataType := ucast v\<rparr>)
      else if num = 5 then consumed (ReadField ''is_historical'') (ConsumeVarint W b) (\<lambda>v. m\<lparr>m_IsHistorical := (v \<noteq> 0)\<rparr>)
      else if num = 6 then consumed (ReadField ''is_transient'') (ConsumeVarint W b) (\<lambda>_. m)
      else if num = 7 then consumed (ReadField ''is_null'') (ConsumeVarint W b) (\<lambda>v. m\<lparr>m_IsNull := (v \<noteq> 0)\<rparr>)
      else if num = 8 then consumed (ReadField ''metadata'') (ConsumeBytes W b) (\<lambda>_. m)
      else if num = 9 then consumed (ReadField ''properties'') (ConsumeBytes W b)
        (\<lambda>pd. case decodeQualityFromProperties W pd of (quality, found) \<Rightarrow>
                if found then m\<lparr>m_Quality := quality\<rparr> else m)
      else if num = 10 then consumed (ReadField ''int_value'') (ConsumeVarint W b) (\<lambda>v. m\<lparr>m_Value := VInt32 (ucast v)\<rparr>)
      else if num = 11 then consumed (ReadField ''long_value'') (ConsumeVarint W b) (\<lambda>v. m\<lparr>m_Value := VInt64 v\<rparr>)
      else if num = 12 then consumed (ReadField ''float_value'') (ConsumeFixed32 W b) (\<lambda>v. m\<lparr>m_Value := VFloat32 v\<rparr>)
      else if num = 13 then consumed (ReadField ''double_value'') (ConsumeFixed64 W b) (\<lambda>v. m\<lparr>m_Value := VFloat64 v\<rparr>)
      else if num = 14 then consumed (ReadField ''boolean_value'') (ConsumeVarint W b) (\<lambda>v. m\<lparr>m_Value := VBool (v \<noteq> 0)\<rparr>)
      else if num = 15 then consumed (ReadField ''string_value'') (ConsumeString W b) (\<lambda>v. m\<lparr>m_Value := VString v\<rparr>)
      else if num = 16 then consumed (ReadField ''bytes_value'') (ConsumeBytes W b) (\<lambda>v. m\<lparr>m_Value := VBytes v\<rparr>)
      else skip_field W num wt b m)"

definition new_metric :: metric where
  "new_metric = \<lparr>m_Name = [], m_DataType = 0, m_Timestamp = 0, m_Quality = QualityGood,
     m_Value = VNil, m_IsHistorical = False, m_IsNull = False\<rparr>"

definition decodeMetric :: "protowire \<Rightarrow> bytes \<Rightarrow> sp_error + metric" where
  "decodeMetric W data = decode_loop W True (metric_field W) (length data) data 0 new_metric"

definition payload_field :: "protowire \<Rightarrow> int \<Rightarrow> int \<Rightarrow> bytes \<Rightarrow> payload \<Rightarrow> sp_error + (payload \<times> nat)" where
  "payload_field W num wt b p =
     (if num = 1 then
        (if wt \<noteq> VarintType W then Inl (WireType ''timestamp'' wt)
         else consumed (ReadField ''timestamp'') (ConsumeVarint W b) (\<lambda>v. p\<lparr>p_Timestamp := v\<rparr>))
      else if num = 2 then
        (if wt \<noteq> BytesType W then Inl (WireType ''metrics'' wt)
         else case ConsumeBytes W b of (metricData, n) \<Rightarrow>
           if n < 0 then Inl (ReadField ''metric'')
           else case decodeMetric W metricData of
                  Inl e \<Rightarrow> Inl (DecodeMetric e)
                | Inr m \<Rightarrow> Inr (p\<lparr>p_Metrics := p_Metrics p @ [m]\<rparr>, nat n))
      else if num = 3 then
        (if wt \<noteq> VarintType W then Inl (WireType ''seq'' wt)
         else consumed (ReadField ''seq'') (ConsumeVarint W b) (\<lambda>v. p\<lparr>p_Seq := v\<rparr>))
      else if num = 4 then
        (if wt \<noteq> BytesType W then Inl (WireType ''uuid'' wt)
         else consumed (ReadField ''uuid'') (ConsumeString W b) (\<lambda>v. p\<lparr>p_UUID := v\<rparr>))
      else if num = 5 then
        (if wt \<noteq> BytesType W then Inl (WireType ''body'' wt)
         else consumed (ReadField ''body'') (ConsumeBytes W b) (\<lambda>_. p))
      else skip_field W num wt b p)"

definition DecodePayloadProtobuf :: "protowire \<Rightarrow> bytes \<Rightarrow> sp_error + payload" where
  "DecodePayloadProtobuf W data =
     (if data = [] then Inl EmptyData
      else decode_loop W True (payload_field W) (length data) data 0
        \<lparr>p_Timestamp = 0, p_Seq = 0, p_UUID = [], p_Metrics = []\<rparr>)"

section \<open>Payload constructors\<close>

definition metric_of_tag :: "tag_data \<Rightarrow> metric" where
  "metric_of_tag tag = \<lparr>m_Name = td_DeviceID tag, m_DataType = mapDataType (td_DataType tag),
     m_Timestamp = td_Timestamp tag, m_Quality = ConvertLegacyQualityToSparkplug (td_Quality tag),
     m_Value = td_Value tag, m_IsHistorical = False, m_IsNull = False\<rparr>"

text \<open>The argument \<open>now\<close> is what \<open>time.Now().UnixMilli()\<close> returns.\<close>

definition CreatePayload :: "64 word \<Rightarrow> tag_data list \<Rightarrow> 64 word \<Rightarrow> payload" where
  "CreatePayload now tags seq = \<lparr>p_Timestamp = now, p_Seq = seq, p_UUID = [],
     p_Metrics = map metric_of_tag tags\<rparr>"

definition CreateDDATAPayload :: "64 word \<Rightarrow> string \<Rightarrow> tag_data list \<Rightarrow> 64 word \<Rightarrow> payload" where
  "CreateDDATAPayload now deviceID tags seq = CreatePayload now tags seq"

definition CreateDBIRTHPayload :: "64 word \<Rightarrow> string \<Rightarrow> tag_data list \<Rightarrow> 64 word \<Rightarrow> payload" where
  "CreateDBIRTHPayload now deviceID tags seq = CreatePayload now tags seq"

definition CreateSingleMetricPayload :: "64 word \<Rightarrow> string \<Rightarrow> tag_data \<Rightarrow> 64 word \<Rightarrow> payload" where
  "CreateSingleMetricPayload now deviceID tag seq = \<lparr>p_Timestamp = now, p_Seq = seq, p_UUID = [],
     p_Metrics = [metric_of_tag tag]\<rparr>"

definition bdSeqMetric :: "64 word \<Rightarrow> 64 word \<Rightarrow> metric" where
  "bdSeqMetric now bdSeq = \<lparr>m_Name = ''bdSeq'', m_DataType = DataTypeUInt64, m_Timestamp = now,
     m_Quality = QualityGood, m_Value = VUint64 bdSeq, m_IsHistorical = False, m_IsNull = False\<rparr>"

definition CreateProtoPayload :: "protowire \<Rightarrow> go_impl \<Rightarrow> 64 word \<Rightarrow> tag_data list \<Rightarrow> 64 word \<Rightarrow> sp_error + bytes" where
  "CreateProtoPayload W G now tags seq = EncodePayload W G (Some (CreatePayload now tags seq))"

definition CreateProtoDDATAPayload :: "protowire \<Rightarrow> go_impl \<Rightarrow> 64 word \<Rightarrow> string \<Rightarrow> tag_data list \<Rightarrow> 64 word \<Rightarrow> sp_error + bytes" where
  "CreateProtoDDATAPayload W G now deviceID tags seq = EncodePayload W G (Some (CreateDDATAPayload now deviceID tags seq))"

definition CreateProtoDBIRTHPayload :: "protowire \<Rightarrow> go_impl \<Rightarrow> 64 word \<Rightarrow> string \<Rightarrow> tag_data list \<Rightarrow> 64 word \<Rightarrow> sp_error + bytes" where
  "CreateProtoDBIRTHPayload W G now deviceID tags seq = EncodePayload W G (Some (CreateDBIRTHPayload now deviceID tags seq))"

definition CreateProtoNDEATHPayload :: "protowire \<Rightarrow> go_impl \<Rightarrow> 64 word \<Rightarrow> 64 word \<Rightarrow> sp_error + bytes" where
  "CreateProtoNDEATHPayload W G now bdSeq = EncodePayload W G
     (Some \<lparr>p_Timestamp = now, p_Seq = 0, p_UUID = [], p_Metrics = [bdSeqMetric now bdSeq]\<rparr>)"

definition CreateProtoDDEATHPayload :: "protowire \<Rightarrow> go_impl \<Rightarrow> 64 word \<Rightarrow> string \<Rightarrow> 64 word \<Rightarrow> sp_error + bytes" where
  "CreateProtoDDEATHPayload W G now deviceID seq = EncodePayload W G
     (Some \<lparr>p_Timestamp = now, p_Seq = seq, p_UUID = [], p_Metrics = []\<rparr>)"

section \<open>What survives the wire\<close>

text \<open>
  The value a decoder reconstructs from what \<open>encodeMetricValue\<close> wrote: the reading of the
  value at its data type, in the Go type the field number selects.  \<open>VNil\<close> stands for a
  value the encoder leaves out.
\<close>

definition read_ok :: "'a \<times> bool \<Rightarrow> ('a \<Rightarrow> go_value) \<Rightarrow> go_value" where
  "read_ok r f = (if snd r then f (fst r) else VNil)"

definition wire_value :: "go_impl \<Rightarrow> 32 word \<Rightarrow> go_value \<Rightarrow> go_value" where
  "wire_value G dt v =
     (if dt = DataTypeBoolean then read_ok (toBoolValue v) VBool
      else if dt \<in> {DataTypeInt8, DataTypeInt16, DataTypeInt32} then read_ok (toInt32Value G v) VInt32
      else if dt = DataTypeInt64 then read_ok (toInt64Value G v) VInt64
      else if dt \<in> {DataTypeUInt8, DataTypeUInt16, DataTypeUInt32} then read_ok (toUInt32Value G v) VInt32
      else if dt = DataTypeUInt64 then read_ok (toUInt64Value G v) VInt64
      else if dt = DataTypeFloat then read_ok (toFloat32Value v) VFloat32
      else if dt = DataTypeDouble then read_ok (toFloat64Value v) VFloat64
      else if dt = DataTypeString \<or> dt = DataTypeText then read_ok (toStringValue G v) VString
      else if dt = DataTypeBytes then read_ok (toBytesValue v) VBytes
      else read_ok (Sprintv G v, Sprintv G v \<noteq> []) VString)"

definition pos_ts :: "64 word \<Rightarrow> 64 word" where
  "pos_ts t = (if 0 < sint t then t else 0)"

definition wire_metric :: "go_impl \<Rightarrow> metric \<Rightarrow> metric" where
  "wire_metric G m = m\<lparr>m_Timestamp := pos_ts (m_Timestamp m),
     m_Value := (if m_IsNull m \<or> m_Value m = VNil then VNil else wire_value G (m_DataType m) (m_Value m))\<rparr>"

definition wire_payload :: "go_impl \<Rightarrow> payload \<Rightarrow> payload" where
  "wire_payload G p = p\<lparr>p_Timestamp := pos_ts (p_Timestamp p), p_Metrics := map (wire_metric G) (p_Metrics p)\<rparr>"

section \<open>The decoder undoes the encoder\<close>

lemma ucast_scast [simp]: "ucast (scast (w :: 32 word) :: 64 word) = w"
  by (rule bit_word_eqI) (simp add: bit_simps)

lemma ucast_ucast_32 [simp]: "ucast (ucast (w :: 32 word) :: 64 word) = w"
  by (rule bit_word_eqI) (simp add: bit_simps)

context protowire_laws
begin

lemma wire_type_in [simp]:
  "VarintType W \<in> set (wire_types W)" "Fixed32Type W \<in> set (wire_types W)"
  "Fixed64Type W \<in> set (wire_types W)" "BytesType W \<in> set (wire_types W)"
  by (auto simp: wire_types_def)

lemma consume_bytes':
  "length (AppendBytes W [] bs) < 2 ^ 63 \<Longrightarrow>
   ConsumeBytes W (AppendBytes W [] bs @ r) = (bs, int (length (AppendBytes W [] bs)))"
  using bytes_length[of bs] by (intro consume_bytes) linarith

lemma consume_string':
  "length (AppendString W [] s) < 2 ^ 63 \<Longrightarrow>
   ConsumeString W (AppendString W [] s @ r) = (s, int (length (AppendString W [] s)))"
  using string_length[of s] by (intro consume_string) linarith

lemmas consumes = consumed_def consume_varint consume_fixed32 consume_fixed64 consume_bytes' consume_string'

lemma nested_length: "length (AppendBytes W [] bs) < 2 ^ 63 \<Longrightarrow> length bs < 2 ^ 63"
  using bytes_length[of bs] by linarith

text \<open>The quality property.\<close>

lemma decodePropertyValue_quality:
  assumes "length (encodePropertyValue W dt (PInt32 q)) < 2 ^ 63"
  shows "decodePropertyValue W (encodePropertyValue W dt (PInt32 q)) = q"
proof -
  let ?b = "enc_field W (1, VarintType W, AppendVarint W [] (ucast dt))"
  let ?c = "enc_field W (3, VarintType W, AppendVarint W [] (scast q))"
  have e: "encodePropertyValue W dt (PInt32 q) = ?b @ ?c"
    by (simp add: encodePropertyValue_def Let_def appends)
  have "writes (property_value_field W) ?b (0, 0) (0, dt)"
    by (rule writes_field) (simp_all add: property_value_field_def consumes)
  moreover have "writes (property_value_field W) ?c (0, dt) (q, dt)"
    by (rule writes_field) (simp_all add: property_value_field_def consumes)
  ultimately have "writes (property_value_field W) (?b @ ?c) (0, 0) (q, dt)"
    by (rule writes_append)
  from decode_loop_writes[OF this] show ?thesis
    using assms by (simp add: decodePropertyValue_def e)
qed

lemma decodeQuality_encodeQuality:
  assumes "length (encodeQualityProperty W q) < 2 ^ 63"
  shows "decodeQualityFromProperties W (encodeQualityProperty W q) = (q, True)"
proof -
  let ?p = "encodePropertyValue W DataTypeInt32 (PInt32 q)"
  let ?b = "enc_field W (1, BytesType W, AppendString W [] ''quality'')"
  let ?c = "enc_field W (2, BytesType W, AppendBytes W [] ?p)"
  have e: "encodeQualityProperty W q = ?b @ ?c"
    by (simp add: encodeQualityProperty_def Let_def appends)
  have "writes (properties_field W) ?b ([], []) ([''quality''], [])"
    by (rule writes_field) (simp_all add: properties_field_def consumes)
  moreover have "writes (properties_field W) ?c ([''quality''], []) ([''quality''], [q])"
    by (rule writes_field) (simp_all add: properties_field_def consumes decodePropertyValue_quality[OF nested_length])
  ultimately have "writes (properties_field W) (?b @ ?c) ([], []) ([''quality''], [q])"
    by (rule writes_append)
  from decode_loop_writes[OF this] show ?thesis
    using assms by (simp add: decodeQualityFromProperties_def e)
qed

text \<open>The value of a metric.\<close>

lemma if_append:
  "(c \<Longrightarrow> a = d @ a') \<Longrightarrow> (\<not> c \<Longrightarrow> b = d @ b') \<Longrightarrow> (if c then a else b) = d @ (if c then a' else b')"
  by simp

lemma encodeMetricValue_append:
  "encodeMetricValue W G data dt v = data @ encodeMetricValue W G [] dt v"
  unfolding encodeMetricValue_def Let_def appends append_Nil case_prod_beta
  by (intro if_append) simp_all

lemma writes_if_value:
  "(c \<Longrightarrow> writes step b m (m\<lparr>m_Value := x\<rparr>)) \<Longrightarrow> (\<not> c \<Longrightarrow> writes step b' m (m\<lparr>m_Value := y\<rparr>)) \<Longrightarrow>
   writes step (if c then b else b') m (m\<lparr>m_Value := (if c then x else y)\<rparr>)"
  by simp

lemma writes_value:
  assumes "m_Value m = VNil"
  shows "writes (metric_field W) (encodeMetricValue W G [] dt v) m (m\<lparr>m_Value := wire_value G dt v\<rparr>)"
proof -
  have "m\<lparr>m_Value := VNil\<rparr> = m" using assms by simp
  then have none: "writes (metric_field W) [] m (m\<lparr>m_Value := VNil\<rparr>)" using writes_nil by simp
  show ?thesis
    unfolding encodeMetricValue_def wire_value_def read_ok_def Let_def appends append_Nil case_prod_beta fst_conv snd_conv
    by (intro writes_if_value none; rule writes_field; simp add: metric_field_def consumes)
qed

text \<open>A metric: every part is a field or nothing, and the fields set the parts one by one.\<close>

lemma encodeMetric_fields:
  "encodeMetric W G (Some m) = Inr
     ((if m_Name m \<noteq> [] then enc_field W (1, BytesType W, AppendString W [] (m_Name m)) else []) @
      (if 0 < sint (m_Timestamp m) then enc_field W (3, VarintType W, AppendVarint W [] (m_Timestamp m)) else []) @
      (enc_field W (4, VarintType W, AppendVarint W [] (scast (m_DataType m)))) @
      (if m_IsHistorical m then enc_field W (5, VarintType W, AppendVarint W [] 1) else []) @
      (if m_IsNull m then enc_field W (7, VarintType W, AppendVarint W [] 1) else []) @
      (enc_field W (9, BytesType W, AppendBytes W [] (encodeQualityProperty W (m_Quality m)))) @
      (if \<not> m_IsNull m \<and> m_Value m \<noteq> VNil then encodeMetricValue W G [] (m_DataType m) (m_Value m) else []))"
  by (simp add: encodeMetric_def Let_def appends encodeMetricValue_append[of G "_ @ _"] del: append_assoc)

lemma writes_metric:
  "writes (metric_field W) (projr (encodeMetric W G (Some m))) new_metric (wire_metric G m)"
proof -
  let ?m1 = "new_metric\<lparr>m_Name := m_Name m\<rparr>"
  let ?m2 = "?m1\<lparr>m_Timestamp := pos_ts (m_Timestamp m)\<rparr>"
  let ?m3 = "?m2\<lparr>m_DataType := m_DataType m\<rparr>"
  let ?m4 = "?m3\<lparr>m_IsHistorical := m_IsHistorical m\<rparr>"
  let ?m5 = "?m4\<lparr>m_IsNull := m_IsNull m\<rparr>"
  let ?m6 = "?m5\<lparr>m_Quality := m_Quality m\<rparr>"
  note steps = metric_field_def consumes decodeQuality_encodeQuality[OF nested_length] new_metric_def pos_ts_def
  have "wire_metric G m = (if m_IsNull m \<or> m_Value m = VNil then ?m6
      else ?m6\<lparr>m_Value := wire_value G (m_DataType m) (m_Value m)\<rparr>)"
    by (simp add: wire_metric_def new_metric_def)
  moreover have "m_Value ?m6 = VNil" by (simp add: new_metric_def)
  ultimately have v: "writes (metric_field W)
      (if \<not> m_IsNull m \<and> m_Value m \<noteq> VNil then encodeMetricValue W G [] (m_DataType m) (m_Value m) else [])
      ?m6 (wire_metric G m)"
    using writes_value[of ?m6] by (intro writes_if) auto
  show ?thesis
    unfolding encodeMetric_fields sum.sel
    by (intro writes_append[where s = new_metric and ?s1.0 = ?m1] writes_append[where s = ?m1 and ?s1.0 = ?m2]
      writes_append[where s = ?m2 and ?s1.0 = ?m3] writes_append[where s = ?m3 and ?s1.0 = ?m4]
      writes_append[where s = ?m4 and ?s1.0 = ?m5] writes_append[where s = ?m5 and ?s1.0 = ?m6] v)
      ((rule writes_if, rule writes_field | rule writes_field); simp add: steps)+
qed

lemma decodeMetric_encodeMetric:
  assumes "encodeMetric W G (Some m) = Inr data" and "length data < 2 ^ 63"
  shows "decodeMetric W data = Inr (wire_metric G m)"
  using decode_loop_writes[OF writes_metric, of G m] assms by (simp add: decodeMetric_def)

text \<open>A payload.\<close>

lemma writes_metric_field:
  assumes "encodeMetric W G (Some m) = Inr data"
  shows "writes (payload_field W) (enc_field W (2, BytesType W, AppendBytes W [] data)) p
     (p\<lparr>p_Metrics := p_Metrics p @ [wire_metric G m]\<rparr>)"
  by (rule writes_field)
    (simp_all add: payload_field_def consumes decodeMetric_encodeMetric[OF assms nested_length])

lemma encode_metrics_writes:
  "\<exists>b. encode_metrics W G ms data = Inr (data @ b) \<and>
     writes (payload_field W) b p (p\<lparr>p_Metrics := p_Metrics p @ map (wire_metric G) ms\<rparr>)"
proof (induction ms arbitrary: data p)
  case Nil
  then show ?case by (auto intro: writes_nil)
next
  case (Cons m ms)
  obtain md where md: "encodeMetric W G (Some m) = Inr md" by (simp add: encodeMetric_fields)
  let ?f = "enc_field W (2, BytesType W, AppendBytes W [] md)"
  let ?p = "p\<lparr>p_Metrics := p_Metrics p @ [wire_metric G m]\<rparr>"
  obtain b where "encode_metrics W G ms (data @ ?f) = Inr ((data @ ?f) @ b)"
    "writes (payload_field W) b ?p (?p\<lparr>p_Metrics := p_Metrics ?p @ map (wire_metric G) ms\<rparr>)"
    using Cons.IH by blast
  then show ?case
    using writes_append[OF writes_metric_field[OF md]] by (auto simp: md appends)
qed

theorem EncodePayload_decodes:
  shows "\<exists>data. EncodePayload W G (Some p) = Inr data \<and>
     (length data < 2 ^ 63 \<longrightarrow> DecodePayloadProtobuf W data = Inr (wire_payload G p))"
proof -
  let ?p0 = "\<lparr>p_Timestamp = 0, p_Seq = 0, p_UUID = [], p_Metrics = []\<rparr>"
  let ?p1 = "?p0\<lparr>p_Timestamp := pos_ts (p_Timestamp p)\<rparr>"
  let ?p2 = "?p1\<lparr>p_Metrics := map (wire_metric G) (p_Metrics p)\<rparr>"
  let ?p3 = "?p2\<lparr>p_Seq := p_Seq p\<rparr>"
  let ?t = "if 0 < sint (p_Timestamp p) then enc_field W (1, VarintType W, AppendVarint W [] (p_Timestamp p)) else []"
  let ?s = "enc_field W (3, VarintType W, AppendVarint W [] (p_Seq p))"
  let ?u = "if p_UUID p \<noteq> [] then enc_field W (4, BytesType W, AppendString W [] (p_UUID p)) else []"
  obtain b where b: "encode_metrics W G (p_Metrics p) ?t = Inr (?t @ b)" "writes (payload_field W) b ?p1 ?p2"
    using encode_metrics_writes[of G "p_Metrics p" ?t ?p1] by auto
  note steps = payload_field_def consumes pos_ts_def wire_payload_def
  have "writes (payload_field W) ?t ?p0 ?p1" "writes (payload_field W) ?u ?p3 (wire_payload G p)"
    by (rule writes_if, rule writes_field; simp add: steps)+
  moreover have "writes (payload_field W) ?s ?p2 ?p3"
    by (rule writes_field; simp add: steps)
  ultimately have w: "writes (payload_field W) (?t @ b @ ?s @ ?u) ?p0 (wire_payload G p)"
    using b(2) by (blast intro: writes_append)
  have ne: "?s \<noteq> []" by (simp add: enc_field_def tag_nonempty)
  have "EncodePayload W G (Some p) = Inr (?t @ b @ ?s @ ?u)"
    using b(1) by (auto simp: EncodePayload_def Let_def appends)
  then show ?thesis
    using decode_loop_writes[OF w] ne by (auto simp: DecodePayloadProtobuf_def)
qed

text \<open>No decoder stops for want of fuel.\<close>

lemma consumed_fuel: "e \<noteq> OutOfFuel \<Longrightarrow> consumed e r f \<noteq> Inl OutOfFuel"
  by (simp add: consumed_def)

lemma property_value_loop:
  "decode_loop W False (property_value_field W) (length b) b 0 st \<noteq> Inl OutOfFuel"
  by (rule decode_loop_fuel)
    (simp_all add: property_value_field_def skip_field_def consumed_def split: prod.split)

lemma properties_loop:
  "decode_loop W False (properties_field W) (length b) b 0 st \<noteq> Inl OutOfFuel"
  by (rule decode_loop_fuel)
    (simp_all add: properties_field_def skip_field_def consumed_def split: prod.split)

lemma decodeMetric_fuel: "decodeMetric W b \<noteq> Inl OutOfFuel"
  unfolding decodeMetric_def
  by (rule decode_loop_fuel) (simp_all add: metric_field_def skip_field_def consumed_def)

lemma payload_field_fuel: "payload_field W num wt b st \<noteq> Inl OutOfFuel"
  by (simp add: payload_field_def skip_field_def consumed_def split: prod.split sum.split)

lemma payload_loop:
  "decode_loop W True (payload_field W) (length b) b 0 st \<noteq> Inl OutOfFuel"
  by (rule decode_loop_fuel) (simp_all add: payload_field_fuel)

end

section \<open>Properties of the codec\<close>

lemma wire_value_idem: "wire_value G dt (wire_value G dt v) = wire_value G dt v \<or> wire_value G dt v = VNil"
  unfolding wire_value_def read_ok_def
  by (simp add: toInt32Value_def toInt64Value_def toUInt32Value_def toUInt64Value_def)

lemma pos_ts_idem [simp]: "pos_ts (pos_ts t) = pos_ts t"
  by (simp add: pos_ts_def)

lemma wire_metric_idem: "wire_metric G (wire_metric G m) = wire_metric G m"
  using wire_value_idem[of G "m_DataType m" "m_Value m"] by (auto simp: wire_metric_def)

text \<open>
  C12: round trip of the Sparkplug B codec.  With any protocol buffer primitives that satisfy
  the laws, what \<open>EncodePayload\<close> writes is read back by \<open>DecodePayloadProtobuf\<close> without
  an error, and what is read is the payload itself: sequence number, UUID, and the metrics in order with name, data type,
  quality (a BAD quality of zero included) and flags; a timestamp is kept when it is positive and
  read as zero otherwise, and a value is the reading of the value at the declared data type.
\<close>

theorem DecodePayload_EncodePayload:
  assumes "protowire_laws W" and "EncodePayload W G (Some p) = Inr data" and "length data < 2 ^ 63"
  shows "DecodePayloadProtobuf W data = Inr (wire_payload G p)"
  using protowire_laws.EncodePayload_decodes[OF assms(1), of G p] assms(2,3) by auto

definition sample_impl :: go_impl where
  "sample_impl = \<lparr>fmt_value = (\<lambda>_. ''?''), float_to_int = (\<lambda>_. - (2 ^ 63))\<rparr>"

definition sample_payload :: payload where
  "sample_payload = \<lparr>p_Timestamp = 1700000000000, p_Seq = 7, p_UUID = [], p_Metrics =
     [\<lparr>m_Name = ''temp'', m_DataType = DataTypeInt16, m_Timestamp = 5, m_Quality = QualityBad,
       m_Value = VInt16 (- 3), m_IsHistorical = False, m_IsNull = False\<rparr>]\<rparr>"

definition sample_bytes :: bytes where
  "sample_bytes = [8, 128, 208, 149, 255, 188, 49, 18, 38, 10, 4, 116, 101, 109, 112, 24, 5, 32, 2, 74, 15, 10, 7,
     113, 117, 97, 108, 105, 116, 121, 18, 4, 8, 3, 24, 0, 80, 253, 255, 255, 255, 255, 255, 255, 255, 255, 1, 24, 7]"

theorem DecodePayload_EncodePayload_witness:
  "DecodePayloadProtobuf std_wire sample_bytes = Inr (wire_payload sample_impl sample_payload)"
proof -
  have "EncodePayload std_wire sample_impl (Some sample_payload) = Inr sample_bytes"
    by code_simp
  moreover have "length sample_bytes < 2 ^ 63" by code_simp
  ultimately show ?thesis by (rule DecodePayload_EncodePayload[OF std.protowire_laws_axioms])
qed

text \<open>
  Relaying is lossless after the first hop.  A payload that was decoded, encoded again and
  decoded again is the payload of the first decoding.
\<close>

theorem wire_payload_idempotent: "wire_payload G (wire_payload G p) = wire_payload G p"
  by (simp add: wire_payload_def wire_metric_idem comp_def)

text \<open>
  C35: the decoder terminates on every input, however malformed.  Each of the four
  nested loops reads at least one byte per round, so that a budget of one round per byte never runs out: the
  result is a payload or one of the errors of the code.
\<close>

theorem DecodePayload_terminates:
  assumes "protowire_laws W"
  shows "DecodePayloadProtobuf W data \<noteq> Inl OutOfFuel \<and> decodeMetric W md \<noteq> Inl OutOfFuel \<and>
    decode_loop W False (properties_field W) (length pd) pd 0 ([], []) \<noteq> Inl OutOfFuel \<and>
    decode_loop W False (property_value_field W) (length vd) vd 0 (0, 0) \<noteq> Inl OutOfFuel"
  using protowire_laws.payload_loop[OF assms] protowire_laws.decodeMetric_fuel[OF assms]
    protowire_laws.properties_loop[OF assms] protowire_laws.property_value_loop[OF assms]
  by (simp add: DecodePayloadProtobuf_def)

theorem DecodePayload_terminates_witness:
  "DecodePayloadProtobuf std_wire [10, 255] \<noteq> Inl OutOfFuel \<and> decodeMetric std_wire [1] \<noteq> Inl OutOfFuel"
  using DecodePayload_terminates[OF std.protowire_laws_axioms] by blast

text \<open>
  The quality codes of the two formats agree.  A legacy quality of good, uncertain or bad
  becomes the Sparkplug code that is read back as the same legacy quality, and any other
  legacy code becomes good.
\<close>

theorem quality_roundtrip:
  "ConvertSparkplugToLegacyQuality (ConvertLegacyQualityToSparkplug q) = (if q = 1 \<or> q = 2 then q else 0)"
  by (simp add: ConvertSparkplugToLegacyQuality_def ConvertLegacyQualityToSparkplug_def
      QualityGood_def QualityBad_def QualityUncert_def)

text \<open>
  A boolean metric reads every number other than the \<open>int\<close> zero as true.  The comparison
  \<open>val != 0\<close> stands in a type switch clause with several types, where it compares the interface
  with the \<open>int\<close> constant; a \<open>float64\<close> or \<open>uint16\<close> zero is therefore encoded as true.
\<close>

theorem toBoolValue_number:
  "toBoolValue (VFloat64 f) = (True, True) \<and> toBoolValue (VFloat32 g) = (True, True) \<and>
   toBoolValue (VUint16 u) = (True, True) \<and> toBoolValue (VInt16 i) = (True, True) \<and>
   toBoolValue (VInt n) = (n \<noteq> 0, True)"
  by (simp add: iface_nonzero_def)

end
