(* ===== verification/Topics.thy ===== *)
theory Topics
  imports Go_Base
begin

text \<open>
  The names inside MQTT topics: the canonical form of a name (\<open>internal/naming/slug.go\<close>),
  the Sparkplug and legacy data topics (\<open>internal/sparkplug/topic.go\<close>) and the gateway
  health topics (\<open>internal/topics/health.go\<close>).  Parsing undoes building for each of
  them.  The interface between the two sides is the locale \<open>topic_names\<close>: a canonical
  form that never contains the separator.
\<close>

section \<open>The canonical form of a name\<close>

definition replacements :: "(char \<times> char) list" where
  "replacements = [(CHR '' '', CHR ''-''), (CHR ''_'', CHR ''-''), (CHR ''/'', CHR ''-'')]"

definition Slug :: "(string \<Rightarrow> string) \<Rightarrow> string \<Rightarrow> string" where
  "Slug U s =
     (let s = TrimSpace s;
          s = ToLower U s
      in fold (\<lambda>(a, b) s. replace_char a b s) replacements s)"

text \<open>The Postgres expression that applies the same replacements to a column.\<close>

definition SQL :: "string \<Rightarrow> string" where
  "SQL expr =
     (let inner = ''BTRIM('' @ expr @ '')'';
          inner = fold (\<lambda>(a, b) e. ''REPLACE('' @ e @ '', '' @ [char_of (39::nat), a, char_of (39::nat)] @
                      '', '' @ [char_of (39::nat), b, char_of (39::nat)] @ '')'') replacements inner
      in ''LOWER('' @ inner @ '')'')"

lemma replace_char_notin: "a \<noteq> b \<Longrightarrow> a \<notin> set (replace_char a b s)"
  by (auto simp: replace_char_def)

lemma replace_char_keeps: "c \<notin> set s \<Longrightarrow> c \<noteq> b \<Longrightarrow> c \<notin> set (replace_char a b s)"
  by (auto simp: replace_char_def)

lemma Slug_eq:
  "Slug U s = replace_char CHR ''/'' CHR ''-'' (replace_char CHR ''_'' CHR ''-''
     (replace_char CHR '' '' CHR ''-'' (ToLower U (TrimSpace s))))"
  by (simp add: Slug_def replacements_def Let_def)

text \<open>
  . The canonical form of a name holds none of the characters it replaces, for every
  input and whatever the Unicode tables do: in particular it never holds the topic
  separator, so a name can never add a level to a topic.
\<close>

theorem Slug_no_separator:
  "CHR ''/'' \<notin> set (Slug U s) \<and> CHR '' '' \<notin> set (Slug U s) \<and> CHR ''_'' \<notin> set (Slug U s)"
  by (simp add: Slug_eq replace_char_notin replace_char_keeps)

section \<open>Topics as paths of canonical names\<close>

fun join_path :: "string list \<Rightarrow> string" where
  "join_path [] = []"
| "join_path [p] = p"
| "join_path (p # q # ps) = p @ CHR ''/'' # join_path (q # ps)"

text \<open>The contract of a canonical form: it never contains the separator.\<close>

locale topic_names =
  fixes slug :: "string \<Rightarrow> string"
  assumes no_sep: "CHR ''/'' \<notin> set (slug s)"
begin

lemma split_slugs: "xs \<noteq> [] \<Longrightarrow> split_on CHR ''/'' (join_path (map slug xs)) = map slug xs"
proof (induction xs rule: join_path.induct)
  case (3 p q ps)
  then show ?case by (simp add: split_on_append no_sep)
qed (simp_all add: split_on_no_sep no_sep)

lemma split_prefixed:
  "CHR ''/'' \<notin> set p \<Longrightarrow> xs \<noteq> [] \<Longrightarrow>
   split_on CHR ''/'' (p @ CHR ''/'' # join_path (map slug xs)) = p # map slug xs"
  by (simp add: split_on_append split_slugs)

end

interpretation slugs: topic_names "Slug U" for U
  by unfold_locales (simp add: Slug_eq replace_char_notin)

section \<open>Sparkplug topics\<close>

definition Namespace :: string where "Namespace = ''spBv1.0''"
definition MessageTypeDBIRTH :: string where "MessageTypeDBIRTH = ''DBIRTH''"
definition MessageTypeNBIRTH :: string where "MessageTypeNBIRTH = ''NBIRTH''"
definition MessageTypeDDATA :: string where "MessageTypeDDATA = ''DDATA''"
definition MessageTypeDDEATH :: string where "MessageTypeDDEATH = ''DDEATH''"
definition MessageTypeNDEATH :: string where "MessageTypeNDEATH = ''NDEATH''"

record topic_info =
  ti_namespace :: string
  ti_groupID :: string
  ti_messageType :: string
  ti_edgeNodeID :: string
  ti_deviceID :: string

datatype topic_error = InvalidFormat string | WrongNamespace string

definition BuildTopic :: "(string \<Rightarrow> string) \<Rightarrow> string \<Rightarrow> string \<Rightarrow> string \<Rightarrow> string \<Rightarrow> string" where
  "BuildTopic U groupID messageType edgeNodeID deviceID =
     Namespace @ ''/'' @ Slug U groupID @ ''/'' @ messageType @ ''/'' @ Slug U edgeNodeID @ ''/'' @ Slug U deviceID"

definition BuildDDATATopic :: "(string \<Rightarrow> string) \<Rightarrow> string \<Rightarrow> string \<Rightarrow> string \<Rightarrow> string" where
  "BuildDDATATopic U groupID edgeNodeID deviceID = BuildTopic U groupID MessageTypeDDATA edgeNodeID deviceID"

definition BuildDBIRTHTopic :: "(string \<Rightarrow> string) \<Rightarrow> string \<Rightarrow> string \<Rightarrow> string \<Rightarrow> string" where
  "BuildDBIRTHTopic U groupID edgeNodeID deviceID = BuildTopic U groupID MessageTypeDBIRTH edgeNodeID deviceID"

definition BuildDDEATHTopic :: "(string \<Rightarrow> string) \<Rightarrow> string \<Rightarrow> string \<Rightarrow> string \<Rightarrow> string" where
  "BuildDDEATHTopic U groupID edgeNodeID deviceID = BuildTopic U groupID MessageTypeDDEATH edgeNodeID deviceID"

definition BuildNBIRTHTopic :: "(string \<Rightarrow> string) \<Rightarrow> string \<Rightarrow> string \<Rightarrow> string" where
  "BuildNBIRTHTopic U groupID edgeNodeID =
     Namespace @ ''/'' @ Slug U groupID @ ''/'' @ MessageTypeNBIRTH @ ''/'' @ Slug U edgeNodeID"

definition BuildNDEATHTopic :: "(string \<Rightarrow> string) \<Rightarrow> string \<Rightarrow> string \<Rightarrow> string" where
  "BuildNDEATHTopic U groupID edgeNodeID =
     Namespace @ ''/'' @ Slug U groupID @ ''/'' @ MessageTypeNDEATH @ ''/'' @ Slug U edgeNodeID"

definition ParseTopic :: "string \<Rightarrow> topic_error + topic_info" where
  "ParseTopic topic =
     (let parts = split_on CHR ''/'' topic in
      if length parts < 4 then Inl (InvalidFormat topic)
      else if parts ! 0 \<noteq> Namespace then Inl (WrongNamespace topic)
      else let info = \<lparr>ti_namespace = parts ! 0, ti_groupID = parts ! 1, ti_messageType = parts ! 2,
                       ti_edgeNodeID = parts ! 3, ti_deviceID = []\<rparr>
           in Inr (if length parts \<ge> 5 then info\<lparr>ti_deviceID := parts ! 4\<rparr> else info))"

definition IsSparkplugTopic :: "string \<Rightarrow> bool" where
  "IsSparkplugTopic topic \<longleftrightarrow> take (length Namespace + 1) topic = Namespace @ ''/''"

definition BuildGroupID :: "(string \<Rightarrow> string) \<Rightarrow> string \<Rightarrow> string \<Rightarrow> string" where
  "BuildGroupID U orgName siteName = Slug U orgName @ ''-'' @ Slug U siteName"

definition BuildEdgeNodeID :: "(string \<Rightarrow> string) \<Rightarrow> string \<Rightarrow> string \<Rightarrow> string" where
  "BuildEdgeNodeID U areaName gatewayName = Slug U areaName @ ''-'' @ Slug U gatewayName"

definition BuildLegacyTopic ::
    "(string \<Rightarrow> string) \<Rightarrow> string \<Rightarrow> string \<Rightarrow> string \<Rightarrow> string \<Rightarrow> string \<Rightarrow> string" where
  "BuildLegacyTopic U org site area gateway alias =
     ''data/'' @ Slug U org @ ''/'' @ Slug U site @ ''/'' @ Slug U area @ ''/'' @ Slug U gateway @ ''/'' @ Slug U alias"

definition ExtractLegacyTopicInfo ::
    "string \<Rightarrow> topic_error + (string \<times> string \<times> string \<times> string \<times> string)" where
  "ExtractLegacyTopicInfo topic =
     (let parts = split_on CHR ''/'' topic in
      if length parts < 6 \<or> parts ! 0 \<noteq> ''data'' then Inl (InvalidFormat topic)
      else Inr (parts ! 1, parts ! 2, parts ! 3, parts ! 4, parts ! 5))"

lemma split_BuildTopic:
  assumes "CHR ''/'' \<notin> set mt"
  shows "split_on CHR ''/'' (BuildTopic U g mt e d) = [Namespace, Slug U g, mt, Slug U e, Slug U d]"
  using assms
  by (simp add: BuildTopic_def Namespace_def split_on_append split_on_no_sep slugs.no_sep)

text \<open>
  . Parsing a topic that \<open>BuildTopic\<close> made gives back the namespace, the message
  type and the canonical form of the three names, whatever the names are.
\<close>

theorem ParseTopic_BuildTopic:
  assumes "CHR ''/'' \<notin> set mt"
  shows "ParseTopic (BuildTopic U g mt e d) =
     Inr \<lparr>ti_namespace = Namespace, ti_groupID = Slug U g, ti_messageType = mt,
          ti_edgeNodeID = Slug U e, ti_deviceID = Slug U d\<rparr>"
  by (simp add: ParseTopic_def split_BuildTopic[OF assms])

theorem ParseTopic_BuildTopic_witness:
  "ParseTopic (BuildTopic id ''Acme Corp'' MessageTypeDDATA ''line 1/2'' ''Pump_A'') =
     Inr \<lparr>ti_namespace = ''spBv1.0'', ti_groupID = ''acme-corp'', ti_messageType = ''DDATA'',
          ti_edgeNodeID = ''line-1-2'', ti_deviceID = ''pump-a''\<rparr>"
proof -
  have "CHR ''/'' \<notin> set MessageTypeDDATA" by (simp add: MessageTypeDDATA_def)
  from ParseTopic_BuildTopic[OF this] show ?thesis
    by (simp add: Namespace_def MessageTypeDDATA_def) code_simp
qed

text \<open>
  . A legacy data topic read back gives the canonical forms of the five names it was
  built from, in their order.
\<close>

theorem Legacy_roundtrip:
  "ExtractLegacyTopicInfo (BuildLegacyTopic U org site area gateway alias) =
     Inr (Slug U org, Slug U site, Slug U area, Slug U gateway, Slug U alias)"
proof -
  let ?names = "[org, site, area, gateway, alias]"
  have "BuildLegacyTopic U org site area gateway alias =
      ''data'' @ CHR ''/'' # join_path (map (Slug U) ?names)"
    by (simp add: BuildLegacyTopic_def)
  moreover have "split_on CHR ''/'' (''data'' @ CHR ''/'' # join_path (map (Slug U) ?names)) =
      ''data'' # map (Slug U) ?names"
    by (rule slugs.split_prefixed) auto
  ultimately have "split_on CHR ''/'' (BuildLegacyTopic U org site area gateway alias) =
      ''data'' # map (Slug U) ?names"
    by (simp only:)
  then show ?thesis by (simp add: ExtractLegacyTopicInfo_def)
qed

section \<open>Gateway health topics\<close>

definition Health :: "int \<Rightarrow> int \<Rightarrow> string" where
  "Health orgID gatewayID =
     (if orgID \<le> 0 then ''sys/health/'' @ itoa gatewayID
      else ''sys/health/'' @ itoa orgID @ ''/'' @ itoa gatewayID)"

definition ParseHealth :: "string \<Rightarrow> (int \<times> int) option" where
  "ParseHealth topic =
     (let parts = split_on CHR ''/'' (trim_char CHR ''/'' topic) in
      if length parts < 3 \<or> parts ! 0 \<noteq> ''sys'' \<or> parts ! 1 \<noteq> ''health'' then None
      else if length parts = 3 then
        (case Atoi (parts ! 2) of None \<Rightarrow> None | Some i \<Rightarrow> if i \<le> 0 then None else Some (0, i))
      else if length parts = 4 then
        (case Atoi (parts ! 2) of None \<Rightarrow> None
         | Some org \<Rightarrow> if org \<le> 0 then None else
             (case Atoi (parts ! 3) of None \<Rightarrow> None | Some i \<Rightarrow> if i \<le> 0 then None else Some (org, i)))
      else None)"

lemma last_itoa_no_slash: "last (itoa i) \<noteq> CHR ''/''"
  by (metis itoa_no_slash itoa_nonempty last_in_set)

lemma split_sys_health:
  "split_on CHR ''/'' (''sys/health/'' @ s) = ''sys'' # ''health'' # split_on CHR ''/'' s"
  by simp

text \<open>
  . A gateway reads back from its own health topic with its organization, and with
  organization zero when the topic was built without one.
\<close>

theorem ParseHealth_Health:
  assumes "0 < gw" "gw < 2 ^ 63" "org < 2 ^ 63"
  shows "ParseHealth (Health org gw) = Some (max org 0, gw)"
proof -
  have "trim_char CHR ''/'' (Health org gw) = Health org gw"
    by (rule trim_char_id) (auto simp: Health_def last_itoa_no_slash)
  moreover have "split_on CHR ''/'' (Health org gw) =
      ''sys'' # ''health'' # (if org \<le> 0 then [itoa gw] else [itoa org, itoa gw])"
    unfolding Health_def
    by (simp only: split_sys_health split: if_split)
       (simp add: split_on_append split_on_no_sep itoa_no_slash)
  ultimately show ?thesis
    using assms by (simp add: ParseHealth_def Let_def Atoi_itoa)
qed

theorem ParseHealth_Health_witness:
  "ParseHealth (Health 7 42) = Some (7, 42) \<and> ParseHealth (Health 0 42) = Some (0, 42)"
  using ParseHealth_Health[of 42 7] ParseHealth_Health[of 42 0] by simp

end
