(* ===== verification/Sparkplug_Client.thy ===== *)
theory Sparkplug_Client
  imports Sparkplug Topics
begin

text \<open>
  The Sparkplug edge node of \<open>internal/sparkplug/client.go\<close>: birth and death certificates,
  the sequence counter of the node, and the dual publisher that also writes the legacy topic.

  Every operation of the client runs under the mutex of the client, so an operation is one
  step of the model.  The publisher is an interface of the code; here it is the list of the calls made to it, in order,
  with the outcome of the n-th call given by \<open>w_outcome\<close>, which nothing constrains.  A call
  records besides its arguments the message type and the payload that were encoded.
  Each call of \<open>time.Now\<close> is an argument.
\<close>

section \<open>State\<close>

record sp_config =
  MQTTHost :: string
  MQTTPort :: int
  MQTTClientID :: string
  MQTTUsername :: string
  MQTTPassword :: string
  GroupID :: string
  EdgeNodeID :: string
  EnableLegacy :: bool

record sp_client =
  config :: sp_config
  hasMqtt :: bool
  connected :: bool
  birthSent :: bool
  seqNum :: "64 word"
  bdSeq :: "64 word"

record tag_payload =
  tp_TagID :: int
  tp_OrgID :: int
  tp_Value :: go_value
  tp_Timestamp :: "64 word"
  tp_Quality :: int
  tp_EUScaled :: bool

text \<open>
  The body of a message: protocol buffer bytes, the value handed to \<open>json.Marshal\<close> (a JSON object by
  its fields in order), or a plain text.
\<close>

datatype msg_body =
    Proto bytes | JsonPayload payload | JsonTag tag_payload
  | JsonObject "(string \<times> go_value) list" | PlainText string

record sp_msg =
  msg_type :: string
  msg_sp :: "payload option"
  msg_topic :: string
  msg_body :: msg_body
  msg_qos :: nat
  msg_retained :: bool

record sp_world =
  w_client :: sp_client
  w_calls :: "(sp_msg \<times> bool) list"
  w_outcome :: "nat \<Rightarrow> bool"

datatype client_error =
    NotConnected | MqttNotInitialized | EncodeFailed sp_error | MarshalFailed
  | PublishFailed string | BirthFailed client_error

type_synonym 'w outcome = "client_error option \<times> 'w"

definition UseProtobuf :: bool where "UseProtobuf = True"

definition seqMax :: "64 word" where "seqMax = 256"

section \<open>Publishing\<close>

text \<open>\<open>json.Marshal\<close> refuses the floating point values that JSON has no syntax for.\<close>

definition json_value_ok :: "go_value \<Rightarrow> bool" where
  "json_value_ok v = (case v of
     VFloat64 f \<Rightarrow> fp_finite binary64 (f64_unpack f)
   | VFloat32 f \<Rightarrow> fp_finite binary32 (f32_unpack f)
   | _ \<Rightarrow> True)"

definition encode_body :: "protowire \<Rightarrow> go_impl \<Rightarrow> payload \<Rightarrow> client_error + msg_body" where
  "encode_body W G p =
     (if UseProtobuf
      then case EncodePayload W G (Some p) of Inl e \<Rightarrow> Inl (EncodeFailed e) | Inr b \<Rightarrow> Inr (Proto b)
      else if list_all (\<lambda>m. json_value_ok (m_Value m)) (p_Metrics p) then Inr (JsonPayload p)
      else Inl MarshalFailed)"

definition PublishWithQoS :: "sp_msg \<Rightarrow> sp_world \<Rightarrow> bool \<times> sp_world" where
  "PublishWithQoS m w = (let ok = w_outcome w (length (w_calls w)) in (ok, w\<lparr>w_calls := w_calls w @ [(m, ok)]\<rparr>))"

definition nextSeq :: "sp_client \<Rightarrow> 64 word \<times> sp_client" where
  "nextSeq c = (seqNum c, c\<lparr>seqNum := (seqNum c + 1) mod seqMax\<rparr>)"

definition restartSeq :: "sp_client \<Rightarrow> 64 word \<times> sp_client" where
  "restartSeq c = (0, c\<lparr>seqNum := 1\<rparr>)"

definition newBdSeq :: "sp_client \<Rightarrow> 64 word \<times> sp_client" where
  "newBdSeq c = (bdSeq c, c\<lparr>bdSeq := (bdSeq c + 1) mod seqMax\<rparr>)"

definition currentBdSeq :: "sp_client \<Rightarrow> 64 word" where
  "currentBdSeq c = (bdSeq c + seqMax - 1) mod seqMax"

definition NewClient :: "sp_config \<Rightarrow> bool \<Rightarrow> sp_client" where
  "NewClient cfg mqtt = \<lparr>config = cfg, hasMqtt = mqtt, connected = False, birthSent = False, seqNum = 0, bdSeq = 0\<rparr>"

definition send :: "protowire \<Rightarrow> go_impl \<Rightarrow> string \<Rightarrow> string \<Rightarrow> payload \<Rightarrow> bool \<Rightarrow> sp_world \<Rightarrow> sp_world outcome" where
  "send W G mt topic p retained w = (case encode_body W G p of
     Inl e \<Rightarrow> (Some e, w)
   | Inr b \<Rightarrow> (case PublishWithQoS \<lparr>msg_type = mt, msg_sp = Some p, msg_topic = topic, msg_body = b,
                 msg_qos = 0, msg_retained = retained\<rparr> w of
                (ok, w') \<Rightarrow> (if ok then None else Some (PublishFailed mt), w')))"

definition sendNBIRTH :: "(string \<Rightarrow> string) \<Rightarrow> protowire \<Rightarrow> go_impl \<Rightarrow> 64 word \<Rightarrow> sp_world \<Rightarrow> sp_world outcome" where
  "sendNBIRTH U W G now w =
     (if \<not> hasMqtt (w_client w) then (Some MqttNotInitialized, w)
      else let topic = BuildNBIRTHTopic U (GroupID (config (w_client w))) (EdgeNodeID (config (w_client w)));
               (seq, c) = restartSeq (w_client w);
               (bd, c) = newBdSeq c
           in send W G MessageTypeNBIRTH topic
                \<lparr>p_Timestamp = now, p_Seq = seq, p_UUID = [], p_Metrics = [bdSeqMetric now bd]\<rparr>
                True (w\<lparr>w_client := c\<rparr>))"

definition sendNDEATH :: "(string \<Rightarrow> string) \<Rightarrow> protowire \<Rightarrow> go_impl \<Rightarrow> 64 word \<Rightarrow> sp_world \<Rightarrow> sp_world outcome" where
  "sendNDEATH U W G now w =
     (if \<not> hasMqtt (w_client w) then (Some MqttNotInitialized, w)
      else let topic = BuildNDEATHTopic U (GroupID (config (w_client w))) (EdgeNodeID (config (w_client w)));
               bd = currentBdSeq (w_client w)
           in send W G MessageTypeNDEATH topic
                \<lparr>p_Timestamp = now, p_Seq = 0, p_UUID = [], p_Metrics = [bdSeqMetric now bd]\<rparr> False w)"

definition ensureNodeBirthLocked :: "(string \<Rightarrow> string) \<Rightarrow> protowire \<Rightarrow> go_impl \<Rightarrow> 64 word \<Rightarrow> sp_world \<Rightarrow> sp_world outcome" where
  "ensureNodeBirthLocked U W G now w =
     (if birthSent (w_client w) then (None, w)
      else case sendNBIRTH U W G now w of
             (Some e, w') \<Rightarrow> (Some e, w')
           | (None, w') \<Rightarrow> (None, w'\<lparr>w_client := (w_client w')\<lparr>birthSent := True\<rparr>\<rparr>))"

definition Connect :: "(string \<Rightarrow> string) \<Rightarrow> protowire \<Rightarrow> go_impl \<Rightarrow> 64 word \<Rightarrow> sp_world \<Rightarrow> sp_world outcome" where
  "Connect U W G now w =
     (if connected (w_client w) \<and> birthSent (w_client w) then (None, w)
      else case ensureNodeBirthLocked U W G now (w\<lparr>w_client := (w_client w)\<lparr>connected := True\<rparr>\<rparr>) of
             (Some e, w') \<Rightarrow> (Some (BirthFailed e), w')
           | (None, w') \<Rightarrow> (None, w'))"

definition Disconnect :: "(string \<Rightarrow> string) \<Rightarrow> protowire \<Rightarrow> go_impl \<Rightarrow> 64 word \<Rightarrow> sp_world \<Rightarrow> sp_world" where
  "Disconnect U W G now w =
     (if \<not> connected (w_client w) then w
      else let w' = snd (sendNDEATH U W G now w)
           in w'\<lparr>w_client := (w_client w')\<lparr>connected := False, birthSent := False\<rparr>\<rparr>)"

definition SetConnected :: "(string \<Rightarrow> string) \<Rightarrow> protowire \<Rightarrow> go_impl \<Rightarrow> 64 word \<Rightarrow> bool \<Rightarrow> sp_world \<Rightarrow> sp_world" where
  "SetConnected U W G now on w =
     (if \<not> on then w\<lparr>w_client := (w_client w)\<lparr>connected := False, birthSent := False\<rparr>\<rparr>
      else if connected (w_client w) \<and> birthSent (w_client w) then w
      else snd (ensureNodeBirthLocked U W G now (w\<lparr>w_client := (w_client w)\<lparr>connected := True\<rparr>\<rparr>)))"

text \<open>The two publish operations that make sure of the node's birth first.\<close>

definition PublishDDATA :: "(string \<Rightarrow> string) \<Rightarrow> protowire \<Rightarrow> go_impl \<Rightarrow> 64 word \<Rightarrow> 64 word \<Rightarrow> string \<Rightarrow> tag_data list \<Rightarrow>
    sp_world \<Rightarrow> sp_world outcome" where
  "PublishDDATA U W G nowB now deviceID tags w =
     (if \<not> connected (w_client w) then (Some NotConnected, w)
      else if \<not> hasMqtt (w_client w) then (Some MqttNotInitialized, w)
      else let w = snd (ensureNodeBirthLocked U W G nowB w);
               topic = BuildDDATATopic U (GroupID (config (w_client w))) (EdgeNodeID (config (w_client w))) deviceID;
               (seq, c) = nextSeq (w_client w)
           in send W G MessageTypeDDATA topic (CreateDDATAPayload now deviceID tags seq) False (w\<lparr>w_client := c\<rparr>))"

definition PublishSingleTag :: "(string \<Rightarrow> string) \<Rightarrow> protowire \<Rightarrow> go_impl \<Rightarrow> 64 word \<Rightarrow> 64 word \<Rightarrow> string \<Rightarrow> tag_data \<Rightarrow>
    sp_world \<Rightarrow> sp_world outcome" where
  "PublishSingleTag U W G nowB now deviceID tag w = PublishDDATA U W G nowB now deviceID [tag] w"

definition PublishDBIRTH :: "(string \<Rightarrow> string) \<Rightarrow> protowire \<Rightarrow> go_impl \<Rightarrow> 64 word \<Rightarrow> 64 word \<Rightarrow> string \<Rightarrow> tag_data list \<Rightarrow>
    sp_world \<Rightarrow> sp_world outcome" where
  "PublishDBIRTH U W G nowB now deviceID tags w =
     (if \<not> connected (w_client w) then (Some NotConnected, w)
      else if \<not> hasMqtt (w_client w) then (Some MqttNotInitialized, w)
      else let w = snd (ensureNodeBirthLocked U W G nowB w);
               topic = BuildDBIRTHTopic U (GroupID (config (w_client w))) (EdgeNodeID (config (w_client w))) deviceID;
               (seq, c) = nextSeq (w_client w)
           in send W G MessageTypeDBIRTH topic (CreateDBIRTHPayload now deviceID tags seq) True (w\<lparr>w_client := c\<rparr>))"

definition PublishDDEATH :: "(string \<Rightarrow> string) \<Rightarrow> protowire \<Rightarrow> go_impl \<Rightarrow> 64 word \<Rightarrow> string \<Rightarrow> sp_world \<Rightarrow> sp_world outcome" where
  "PublishDDEATH U W G now deviceID w =
     (if \<not> connected (w_client w) then (Some NotConnected, w)
      else if \<not> hasMqtt (w_client w) then (Some MqttNotInitialized, w)
      else let topic = BuildDDEATHTopic U (GroupID (config (w_client w))) (EdgeNodeID (config (w_client w))) deviceID;
               (seq, c) = nextSeq (w_client w)
           in send W G MessageTypeDDEATH topic
                \<lparr>p_Timestamp = now, p_Seq = seq, p_UUID = [], p_Metrics = []\<rparr> False (w\<lparr>w_client := c\<rparr>))"

definition IsConnected :: "sp_client \<Rightarrow> bool" where
  "IsConnected c = connected c"

definition GetConfig :: "sp_client \<Rightarrow> sp_config" where
  "GetConfig c = config c"

section \<open>Dual publishing\<close>

definition legacy_msg :: "string \<Rightarrow> tag_payload \<Rightarrow> bool \<Rightarrow> sp_msg" where
  "legacy_msg topic tp retained = \<lparr>msg_type = ''LEGACY'', msg_sp = None, msg_topic = topic, msg_body = JsonTag tp,
     msg_qos = 1, msg_retained = retained\<rparr>"

definition PublishDual :: "(string \<Rightarrow> string) \<Rightarrow> protowire \<Rightarrow> go_impl \<Rightarrow> 64 word \<Rightarrow> 64 word \<Rightarrow> tag_data \<Rightarrow>
    string \<Rightarrow> string \<Rightarrow> string \<Rightarrow> string \<Rightarrow> sp_world \<Rightarrow> sp_world outcome" where
  "PublishDual U W G nowB now tag org site area gateway w =
     (if \<not> hasMqtt (w_client w) then (Some MqttNotInitialized, w)
      else let legacyTopic = BuildLegacyTopic U org site area gateway (td_DeviceID tag);
               tp = \<lparr>tp_TagID = td_TagID tag, tp_OrgID = td_OrgID tag, tp_Value = td_Value tag,
                     tp_Timestamp = td_Timestamp tag, tp_Quality = td_Quality tag, tp_EUScaled = td_EUScaled tag\<rparr>
           in if \<not> json_value_ok (tp_Value tp) then (Some MarshalFailed, w)
              else let w = snd (PublishWithQoS (legacy_msg legacyTopic tp False) w)
                   in (None, if IsConnected (w_client w)
                             then snd (PublishSingleTag U W G nowB now gateway tag w) else w))"

record dual_publisher =
  dp_client :: bool
  dp_enabled :: bool
  dp_orgName :: string
  dp_siteName :: string
  dp_areaName :: string
  dp_gatewayName :: string
  dp_orgID :: int
  dp_retainLegacy :: bool

text \<open>\<open>dp_client\<close> says that the publisher was given a client; the client is \<open>w_client\<close>.\<close>

definition NewDualPublisher :: "sp_client option \<Rightarrow> string \<Rightarrow> string \<Rightarrow> string \<Rightarrow> string \<Rightarrow> int \<Rightarrow> dual_publisher" where
  "NewDualPublisher c org site area gateway orgID =
     \<lparr>dp_client = (c \<noteq> None), dp_enabled = (case c of None \<Rightarrow> False | Some c \<Rightarrow> IsConnected c),
      dp_orgName = org, dp_siteName = site, dp_areaName = area, dp_gatewayName = gateway,
      dp_orgID = orgID, dp_retainLegacy = False\<rparr>"

definition SetRetainLegacy :: "bool \<Rightarrow> dual_publisher \<Rightarrow> dual_publisher" where
  "SetRetainLegacy retain dp = dp\<lparr>dp_retainLegacy := retain\<rparr>"

definition UpdateConfig :: "string \<Rightarrow> string \<Rightarrow> string \<Rightarrow> string \<Rightarrow> int \<Rightarrow> dual_publisher \<Rightarrow> dual_publisher" where
  "UpdateConfig org site area gateway orgID dp =
     dp\<lparr>dp_orgName := org, dp_siteName := site, dp_areaName := area, dp_gatewayName := gateway, dp_orgID := orgID\<rparr>"

definition SetEnabled :: "bool \<Rightarrow> sp_client \<Rightarrow> dual_publisher \<Rightarrow> dual_publisher" where
  "SetEnabled on c dp = dp\<lparr>dp_enabled := (on \<and> dp_client dp \<and> IsConnected c)\<rparr>"

definition Publish :: "(string \<Rightarrow> string) \<Rightarrow> protowire \<Rightarrow> go_impl \<Rightarrow> 64 word \<Rightarrow> 64 word \<Rightarrow> dual_publisher \<Rightarrow>
    int \<Rightarrow> string \<Rightarrow> go_value \<Rightarrow> string \<Rightarrow> int \<Rightarrow> 64 word \<Rightarrow> bool \<Rightarrow> sp_world \<Rightarrow> sp_world outcome" where
  "Publish U W G nowB now dp tagID alias value dataType quality timestamp euScaled w =
     (let legacyTopic = BuildLegacyTopic U (dp_orgName dp) (dp_siteName dp) (dp_areaName dp) (dp_gatewayName dp) alias;
          tp = \<lparr>tp_TagID = tagID, tp_OrgID = dp_orgID dp, tp_Value = value, tp_Timestamp = timestamp,
                tp_Quality = quality, tp_EUScaled = euScaled\<rparr>
      in if \<not> json_value_ok value then (Some MarshalFailed, w)
         else case PublishWithQoS (legacy_msg legacyTopic tp (dp_retainLegacy dp)) w of
           (ok, w) \<Rightarrow>
             if \<not> ok then (Some (PublishFailed ''LEGACY''), w)
             else if dp_enabled dp \<and> dp_client dp
             then (None, snd (PublishSingleTag U W G nowB now (dp_gatewayName dp)
                     \<lparr>td_TagID = tagID, td_DeviceID = alias, td_Value = value, td_DataType = dataType,
                      td_Timestamp = timestamp, td_Quality = quality, td_OrgID = dp_orgID dp, td_EUScaled = euScaled\<rparr> w))
             else (None, w))"

section \<open>What a Sparkplug host accepts\<close>

text \<open>
  A host tracks one edge node: dead (\<open>None\<close>), or alive with the sequence number it expects
  next and the \<open>bdSeq\<close> of the session.  A birth must carry sequence number zero, a death the
  \<open>bdSeq\<close> of the session, every other message the expected number; anything from a node
  that was not born is refused.  Legacy messages are not addressed to the host.
\<close>

type_synonym host = "(64 word \<times> 64 word) option"

definition bd_of :: "payload \<Rightarrow> go_value list" where
  "bd_of p = map m_Value (filter (\<lambda>m. m_Name m = ''bdSeq'') (p_Metrics p))"

definition host_step :: "host \<Rightarrow> sp_msg \<Rightarrow> host option" where
  "host_step h m = (case msg_sp m of
     None \<Rightarrow> Some h
   | Some p \<Rightarrow>
       if msg_type m = MessageTypeNBIRTH then
         (case bd_of p of [VUint64 bd] \<Rightarrow> if p_Seq p = 0 then Some (Some (1, bd)) else None | _ \<Rightarrow> None)
       else (case h of
           None \<Rightarrow> None
         | Some (expected, bd) \<Rightarrow>
             if msg_type m = MessageTypeNDEATH then (if bd_of p = [VUint64 bd] then Some None else None)
             else if p_Seq p = expected then Some (Some ((expected + 1) mod 256, bd)) else None))"

fun host_run :: "host \<Rightarrow> sp_msg list \<Rightarrow> host option" where
  "host_run h [] = Some h"
| "host_run h (m # ms) = (case host_step h m of None \<Rightarrow> None | Some h' \<Rightarrow> host_run h' ms)"

text \<open>The bytes of a message encode its payload, and only births are retained.\<close>

definition msg_faithful :: "protowire \<Rightarrow> go_impl \<Rightarrow> sp_msg \<Rightarrow> bool" where
  "msg_faithful W G m = (case msg_sp m of
     None \<Rightarrow> True
   | Some p \<Rightarrow> (case EncodePayload W G (Some p) of Inl _ \<Rightarrow> False | Inr b \<Rightarrow> msg_body m = Proto b) \<and>
        msg_retained m = (msg_type m \<in> {MessageTypeNBIRTH, MessageTypeDBIRTH}))"

section \<open>The edge node as a transition system\<close>

inductive client_reach :: "(string \<Rightarrow> string) \<Rightarrow> protowire \<Rightarrow> go_impl \<Rightarrow> sp_world \<Rightarrow> bool" for U W G where
  start: "client_reach U W G \<lparr>w_client = NewClient cfg mqtt, w_calls = [], w_outcome = outcome\<rparr>"
| connect: "client_reach U W G w \<Longrightarrow> client_reach U W G (snd (Connect U W G now w))"
| disconnect: "client_reach U W G w \<Longrightarrow> client_reach U W G (Disconnect U W G now w)"
| set_connected: "client_reach U W G w \<Longrightarrow> client_reach U W G (SetConnected U W G now on w)"
| ddata: "client_reach U W G w \<Longrightarrow> client_reach U W G (snd (PublishDDATA U W G nowB now dev tags w))"
| dbirth: "client_reach U W G w \<Longrightarrow> client_reach U W G (snd (PublishDBIRTH U W G nowB now dev tags w))"
| ddeath: "client_reach U W G w \<Longrightarrow> client_reach U W G (snd (PublishDDEATH U W G now dev w))"
| dual: "client_reach U W G w \<Longrightarrow> client_reach U W G (snd (PublishDual U W G nowB now tag org site area gw w))"
| publish: "client_reach U W G w \<Longrightarrow>
     client_reach U W G (snd (Publish U W G nowB now dp tagID alias value dt q ts eu w))"

lemma host_run_append: "host_run h (xs @ ys) = Option.bind (host_run h xs) (\<lambda>h'. host_run h' ys)"
  by (induction xs arbitrary: h) (auto split: option.splits)

lemma encode_metrics_total: "\<exists>b. encode_metrics W G ms data = Inr b"
  by (induction ms arbitrary: data) (auto simp: encodeMetric_def Let_def)

lemma EncodePayload_total: "\<exists>b. EncodePayload W G (Some p) = Inr b"
  by (auto simp: EncodePayload_def Let_def split: sum.split) (metis encode_metrics_total sum.distinct(1))+

text \<open>Sending is a call of the publisher with a faithful message.\<close>

lemma send_call:
  assumes "retained = (mt \<in> {MessageTypeNBIRTH, MessageTypeDBIRTH})"
  obtains m ok where "snd (send W G mt topic p retained w) = w\<lparr>w_calls := w_calls w @ [(m, ok)]\<rparr>"
    "fst (send W G mt topic p retained w) = (if ok then None else Some (PublishFailed mt))"
    "msg_faithful W G m" "msg_type m = mt" "msg_sp m = Some p" "ok = w_outcome w (length (w_calls w))"
proof -
  obtain b where b: "EncodePayload W G (Some p) = Inr b" using EncodePayload_total by blast
  let ?m = "\<lparr>msg_type = mt, msg_sp = Some p, msg_topic = topic, msg_body = Proto b, msg_qos = 0, msg_retained = retained\<rparr>"
  show thesis
    by (rule that[of ?m])
      (use assms b in \<open>simp_all add: send_def encode_body_def UseProtobuf_def PublishWithQoS_def msg_faithful_def Let_def\<close>)
qed

lemma mod256_bounds: "(x :: 64 word) mod 256 < 256"
  by (simp add: word_less_nat_alt unat_mod)

lemma currentBdSeq_new: "b < 256 \<Longrightarrow> ((b + 1) mod 256 + 256 - 1) mod 256 = (b :: 64 word)"
proof -
  assume "b < 256"
  then have b: "unat b < 256" by (simp add: word_less_nat_alt)
  have "unat ((b + 1) mod 256) = (unat b + 1) mod 256"
    using b by (simp add: unat_mod unat_word_ariths)
  then have "unat ((b + 1) mod 256 + 255) = (unat b + 1) mod 256 + 255"
    by (simp add: unat_word_ariths(1))
  then have "unat (((b + 1) mod 256 + 255) mod 256) = ((unat b + 1) mod 256 + 255) mod 256"
    by (simp only: unat_mod) simp
  also have "\<dots> = unat b" using b by (simp add: mod_simps)
  finally have "((b + 1) mod 256 + 255) mod 256 = b" by (simp only: word_unat_eq_iff)
  moreover have "x + 256 - 1 = x + (255 :: 64 word)" for x by simp
  ultimately show ?thesis by (simp only:)
qed

lemma currentBdSeq_opened: "bdSeq c = (b + 1) mod 256 \<Longrightarrow> b < 256 \<Longrightarrow> currentBdSeq c = b"
  unfolding currentBdSeq_def seqMax_def by (simp only: currentBdSeq_new)

text \<open>
  The invariant: the host has accepted all calls so far, and when \<open>live\<close> the number it expects
  and its session are those of the client.
\<close>

definition node_inv :: "protowire \<Rightarrow> go_impl \<Rightarrow> bool \<Rightarrow> sp_world \<Rightarrow> bool" where
  "node_inv W G live w \<longleftrightarrow> (\<forall>m\<in>set (w_calls w). msg_faithful W G (fst m)) \<and>
     seqNum (w_client w) < 256 \<and> bdSeq (w_client w) < 256 \<and>
     (\<exists>h. host_run None (map fst (w_calls w)) = Some h \<and>
        (live \<longrightarrow> h = Some (seqNum (w_client w), currentBdSeq (w_client w))))"

lemma bd_of_metric [simp]: "p_Metrics p = [bdSeqMetric now bd] \<Longrightarrow> bd_of p = [VUint64 bd]"
  by (simp add: bd_of_def bdSeqMetric_def)

lemma node_inv_weaken: "node_inv W G live w \<Longrightarrow> node_inv W G False w"
  by (auto simp: node_inv_def)

lemma node_inv_client:
  "node_inv W G live w \<Longrightarrow> seqNum c = seqNum (w_client w) \<Longrightarrow> bdSeq c = bdSeq (w_client w) \<Longrightarrow>
   node_inv W G live (w\<lparr>w_client := c\<rparr>)"
  by (simp add: node_inv_def currentBdSeq_def)

lemma node_inv_call:
  assumes "node_inv W G live w" "msg_faithful W G m" "seqNum c < 256" "bdSeq c < 256"
    and "\<And>h. (live \<longrightarrow> h = Some (seqNum (w_client w), currentBdSeq (w_client w))) \<Longrightarrow>
       \<exists>h'. host_step h m = Some h' \<and> (live' \<longrightarrow> h' = Some (seqNum c, currentBdSeq c))"
  shows "node_inv W G live' (w\<lparr>w_client := c, w_calls := w_calls w @ [(m, ok)]\<rparr>)"
proof -
  obtain h where h: "host_run None (map fst (w_calls w)) = Some h"
    "live \<longrightarrow> h = Some (seqNum (w_client w), currentBdSeq (w_client w))"
    using assms(1) by (auto simp: node_inv_def)
  obtain h' where "host_step h m = Some h'" "live' \<longrightarrow> h' = Some (seqNum c, currentBdSeq c)"
    using assms(5)[OF h(2)] by blast
  then show ?thesis
    using assms(1-4) h(1) by (auto simp: node_inv_def host_run_append)
qed

text \<open>A birth makes the host expect what the client sends next.\<close>

lemma sendNBIRTH_inv:
  assumes "node_inv W G live w" "hasMqtt (w_client w)"
  obtains w' where "snd (sendNBIRTH U W G now w) = w'" "node_inv W G True w'"
    "connected (w_client w') = connected (w_client w)" "birthSent (w_client w') = birthSent (w_client w)"
    "hasMqtt (w_client w')" "config (w_client w') = config (w_client w)"
proof -
  let ?c = "(w_client w)\<lparr>seqNum := 1, bdSeq := (bdSeq (w_client w) + 1) mod 256\<rparr>"
  let ?p = "\<lparr>p_Timestamp = now, p_Seq = 0, p_UUID = [], p_Metrics = [bdSeqMetric now (bdSeq (w_client w))]\<rparr>"
  let ?t = "BuildNBIRTHTopic U (GroupID (config (w_client w))) (EdgeNodeID (config (w_client w)))"
  have bd: "bdSeq (w_client w) < 256" using assms(1) by (simp add: node_inv_def)
  have e: "sendNBIRTH U W G now w = send W G MessageTypeNBIRTH ?t ?p True (w\<lparr>w_client := ?c\<rparr>)"
    using assms(2) by (simp add: sendNBIRTH_def restartSeq_def newBdSeq_def seqMax_def Let_def)
  obtain m ok where m: "snd (send W G MessageTypeNBIRTH ?t ?p True (w\<lparr>w_client := ?c\<rparr>)) =
      w\<lparr>w_client := ?c, w_calls := w_calls w @ [(m, ok)]\<rparr>"
    "msg_faithful W G m" "msg_type m = MessageTypeNBIRTH" "msg_sp m = Some ?p"
    by (rule send_call[where mt = MessageTypeNBIRTH and p = ?p and w = "w\<lparr>w_client := ?c\<rparr>"
          and retained = True and W = W and G = G and topic = ?t]) auto
  have "node_inv W G True (w\<lparr>w_client := ?c, w_calls := w_calls w @ [(m, ok)]\<rparr>)"
    by (rule node_inv_call[OF assms(1) m(2)])
      (simp_all add: mod256_bounds host_step_def m currentBdSeq_opened[OF _ bd])
  then show thesis
    using m(1) assms(2)
    by (intro that[of "w\<lparr>w_client := ?c, w_calls := w_calls w @ [(m, ok)]\<rparr>"]) (simp_all add: e)
qed

text \<open>The client's own flags: a birth that was sent belongs to a connected client.\<close>

definition client_inv :: "protowire \<Rightarrow> go_impl \<Rightarrow> sp_world \<Rightarrow> bool" where
  "client_inv W G w \<longleftrightarrow> (birthSent (w_client w) \<longrightarrow> connected (w_client w)) \<and>
     node_inv W G (connected (w_client w) \<and> hasMqtt (w_client w)) w"

lemma ensureNodeBirth_inv:
  assumes "node_inv W G (birthSent (w_client w) \<and> hasMqtt (w_client w)) w" "connected (w_client w)"
  shows "client_inv W G (snd (ensureNodeBirthLocked U W G now w)) \<and>
    connected (w_client (snd (ensureNodeBirthLocked U W G now w))) \<and>
    hasMqtt (w_client (snd (ensureNodeBirthLocked U W G now w))) = hasMqtt (w_client w)"
proof (cases "\<not> birthSent (w_client w) \<and> hasMqtt (w_client w)")
  case True
  then have mq: "hasMqtt (w_client w)" and nb: "\<not> birthSent (w_client w)" by auto
  obtain w' where w': "snd (sendNBIRTH U W G now w) = w'" "node_inv W G True w'"
    "connected (w_client w') = connected (w_client w)" "birthSent (w_client w') = birthSent (w_client w)"
    "hasMqtt (w_client w')"
    by (rule sendNBIRTH_inv[OF assms(1) mq])
  then show ?thesis
    using nb mq assms(2)
    by (cases "sendNBIRTH U W G now w")
      (auto simp: ensureNodeBirthLocked_def client_inv_def split: option.split intro!: node_inv_client)
next
  case False
  then show ?thesis
    using assms by (auto simp: ensureNodeBirthLocked_def sendNBIRTH_def client_inv_def)
qed

lemma data_inv:
  assumes "client_inv W G w" "connected (w_client w)" "hasMqtt (w_client w)"
    and "mt \<notin> {MessageTypeNBIRTH, MessageTypeNDEATH}" "retained = (mt = MessageTypeDBIRTH)"
    and "p_Seq p = seqNum (w_client w)"
  shows "client_inv W G (snd (send W G mt topic p retained
     (w\<lparr>w_client := (w_client w)\<lparr>seqNum := (seqNum (w_client w) + 1) mod 256\<rparr>\<rparr>)))"
proof -
  let ?c = "(w_client w)\<lparr>seqNum := (seqNum (w_client w) + 1) mod 256\<rparr>"
  have n: "node_inv W G True w" using assms(1-3) by (simp add: client_inv_def)
  have r: "retained = (mt \<in> {MessageTypeNBIRTH, MessageTypeDBIRTH})" using assms(4,5) by auto
  obtain m ok where m: "snd (send W G mt topic p retained (w\<lparr>w_client := ?c\<rparr>)) =
      w\<lparr>w_client := ?c, w_calls := w_calls w @ [(m, ok)]\<rparr>"
    "msg_faithful W G m" "msg_type m = mt" "msg_sp m = Some p"
    by (rule send_call[OF r, where p = p and w = "w\<lparr>w_client := ?c\<rparr>" and W = W and G = G and topic = topic]) auto
  have "node_inv W G True (w\<lparr>w_client := ?c, w_calls := w_calls w @ [(m, ok)]\<rparr>)"
    by (rule node_inv_call[OF n m(2)])
      (use n assms(4,6) in \<open>auto simp: node_inv_def mod256_bounds host_step_def m currentBdSeq_def\<close>)
  then show ?thesis using assms(1-3) m(1) by (simp add: client_inv_def)
qed

lemma other_inv:
  "client_inv W G w \<Longrightarrow> msg_sp m = None \<Longrightarrow>
   client_inv W G (snd (PublishWithQoS m w)) \<and> w_client (snd (PublishWithQoS m w)) = w_client w"
  by (auto simp: client_inv_def node_inv_def PublishWithQoS_def Let_def msg_faithful_def host_run_append host_step_def)

lemma legacy_inv: "client_inv W G w \<Longrightarrow> client_inv W G (snd (PublishWithQoS (legacy_msg t tp r) w)) \<and>
    w_client (snd (PublishWithQoS (legacy_msg t tp r) w)) = w_client w"
  by (rule other_inv) (simp_all add: legacy_msg_def)

lemma birth_pre: "client_inv W G w \<Longrightarrow> node_inv W G (birthSent (w_client w) \<and> hasMqtt (w_client w)) w"
  by (auto simp: client_inv_def node_inv_def)

lemma not_death [simp]:
  "MessageTypeDDATA \<noteq> MessageTypeNBIRTH" "MessageTypeDDATA \<noteq> MessageTypeNDEATH" "MessageTypeDDATA \<noteq> MessageTypeDBIRTH"
  "MessageTypeDBIRTH \<noteq> MessageTypeNBIRTH" "MessageTypeDBIRTH \<noteq> MessageTypeNDEATH"
  "MessageTypeDDEATH \<noteq> MessageTypeNBIRTH" "MessageTypeDDEATH \<noteq> MessageTypeNDEATH" "MessageTypeDDEATH \<noteq> MessageTypeDBIRTH"
  "MessageTypeNDEATH \<noteq> MessageTypeNBIRTH" "MessageTypeNDEATH \<noteq> MessageTypeDBIRTH"
  by (simp_all add: MessageTypeDDATA_def MessageTypeNBIRTH_def MessageTypeNDEATH_def MessageTypeDBIRTH_def MessageTypeDDEATH_def)

lemma PublishDDATA_inv: "client_inv W G w \<Longrightarrow> client_inv W G (snd (PublishDDATA U W G nowB now dev tags w))"
  using ensureNodeBirth_inv[OF birth_pre, of W G w U nowB]
  by (auto simp: PublishDDATA_def Let_def nextSeq_def seqMax_def CreateDDATAPayload_def CreatePayload_def intro!: data_inv)

lemma PublishDBIRTH_inv: "client_inv W G w \<Longrightarrow> client_inv W G (snd (PublishDBIRTH U W G nowB now dev tags w))"
  using ensureNodeBirth_inv[OF birth_pre, of W G w U nowB]
  by (auto simp: PublishDBIRTH_def Let_def nextSeq_def seqMax_def CreateDBIRTHPayload_def CreatePayload_def intro!: data_inv)

lemma PublishDDEATH_inv: "client_inv W G w \<Longrightarrow> client_inv W G (snd (PublishDDEATH U W G now dev w))"
  by (auto simp: PublishDDEATH_def Let_def nextSeq_def seqMax_def intro!: data_inv)

lemma bring_up_inv:
  assumes "client_inv W G w" "\<not> (connected (w_client w) \<and> birthSent (w_client w))"
  shows "client_inv W G (snd (ensureNodeBirthLocked U W G now (w\<lparr>w_client := (w_client w)\<lparr>connected := True\<rparr>\<rparr>)))"
proof -
  have "\<not> birthSent (w_client w)" using assms by (auto simp: client_inv_def)
  then have "node_inv W G (birthSent ((w_client w)\<lparr>connected := True\<rparr>) \<and> hasMqtt ((w_client w)\<lparr>connected := True\<rparr>))
      (w\<lparr>w_client := (w_client w)\<lparr>connected := True\<rparr>\<rparr>)"
    using assms(1) by (auto intro!: node_inv_client dest: node_inv_weaken simp: client_inv_def)
  then show ?thesis using ensureNodeBirth_inv by fastforce
qed

lemma Connect_inv: "client_inv W G w \<Longrightarrow> client_inv W G (snd (Connect U W G now w))"
  using bring_up_inv[of W G w U now] by (auto simp: Connect_def split: prod.split option.split)

lemma shut_down_inv:
  "node_inv W G False w \<Longrightarrow> client_inv W G (w\<lparr>w_client := (w_client w)\<lparr>connected := False, birthSent := False\<rparr>\<rparr>)"
  by (auto simp: client_inv_def intro!: node_inv_client)

lemma client_node_inv: "client_inv W G w \<Longrightarrow> node_inv W G False w"
  unfolding client_inv_def using node_inv_weaken by blast

lemma SetConnected_inv: "client_inv W G w \<Longrightarrow> client_inv W G (SetConnected U W G now on w)"
  by (auto simp: SetConnected_def bring_up_inv intro: shut_down_inv client_node_inv)

lemma Disconnect_inv:
  assumes "client_inv W G w"
  shows "client_inv W G (Disconnect U W G now w)"
proof (cases "connected (w_client w) \<and> hasMqtt (w_client w)")
  case True
  let ?p = "\<lparr>p_Timestamp = now, p_Seq = 0, p_UUID = [], p_Metrics = [bdSeqMetric now (currentBdSeq (w_client w))]\<rparr>"
  let ?t = "BuildNDEATHTopic U (GroupID (config (w_client w))) (EdgeNodeID (config (w_client w)))"
  have n: "node_inv W G True w" using assms True by (simp add: client_inv_def)
  obtain m ok where m: "snd (send W G MessageTypeNDEATH ?t ?p False w) = w\<lparr>w_calls := w_calls w @ [(m, ok)]\<rparr>"
    "msg_faithful W G m" "msg_type m = MessageTypeNDEATH" "msg_sp m = Some ?p"
    by (rule send_call[where mt = MessageTypeNDEATH and p = ?p and w = w
          and retained = False and W = W and G = G and topic = ?t]) auto
  have "node_inv W G False (w\<lparr>w_client := w_client w, w_calls := w_calls w @ [(m, ok)]\<rparr>)"
    by (rule node_inv_call[OF n m(2)]) (use n in \<open>auto simp: node_inv_def host_step_def m\<close>)
  then show ?thesis
    using True m(1) shut_down_inv[of W G "w\<lparr>w_calls := w_calls w @ [(m, ok)]\<rparr>"]
    by (simp add: Disconnect_def sendNDEATH_def Let_def)
next
  case False
  then show ?thesis
    using assms by (auto simp: Disconnect_def sendNDEATH_def Let_def intro: shut_down_inv client_node_inv)
qed

lemma PublishDual_inv:
  "client_inv W G w \<Longrightarrow> client_inv W G (snd (PublishDual U W G nowB now tag org site area gw w))"
  using legacy_inv by (auto simp: PublishDual_def PublishSingleTag_def Let_def intro!: PublishDDATA_inv)

lemma Publish_inv:
  "client_inv W G w \<Longrightarrow> client_inv W G (snd (Publish U W G nowB now dp tagID alias value dt q ts eu w))"
  using legacy_inv[of W G w] by (auto simp: Publish_def PublishSingleTag_def Let_def split: prod.split intro!: PublishDDATA_inv)
    (metis snd_conv)+

lemma reach_inv: "client_reach U W G w \<Longrightarrow> client_inv W G w"
proof (induction rule: client_reach.induct)
  case (start cfg mqtt outcome)
  then show ?case by (simp add: client_inv_def node_inv_def NewClient_def)
qed (auto intro: Connect_inv Disconnect_inv SetConnected_inv PublishDDATA_inv PublishDBIRTH_inv
      PublishDDEATH_inv PublishDual_inv Publish_inv)

text \<open>Publishing only adds calls.\<close>

lemma send_appends: "\<exists>rest. w_calls (snd (send W G mt t p r (w\<lparr>w_client := c\<rparr>))) = w_calls w @ rest"
  by (auto simp: send_def PublishWithQoS_def Let_def split: sum.split)

lemma ensureNodeBirth_appends: "\<exists>rest. w_calls (snd (ensureNodeBirthLocked U W G now w)) = w_calls w @ rest"
proof -
  have "\<exists>rest. w_calls (snd (sendNBIRTH U W G now w)) = w_calls w @ rest"
    using send_appends
    by (auto simp: sendNBIRTH_def Let_def split: prod.split)
  then show ?thesis
    by (auto simp: ensureNodeBirthLocked_def split: prod.split option.split)
qed

lemma PublishDDATA_appends: "\<exists>rest. w_calls (snd (PublishDDATA U W G nowB now dev tags w)) = w_calls w @ rest"
proof -
  let ?w = "snd (ensureNodeBirthLocked U W G nowB w)"
  obtain r1 where r1: "w_calls ?w = w_calls w @ r1" using ensureNodeBirth_appends by blast
  obtain r2 where "w_calls (snd (send W G MessageTypeDDATA
      (BuildDDATATopic U (GroupID (config (w_client ?w))) (EdgeNodeID (config (w_client ?w))) dev)
      (CreateDDATAPayload now dev tags (seqNum (w_client ?w))) False
      (?w\<lparr>w_client := snd (nextSeq (w_client ?w))\<rparr>))) = w_calls ?w @ r2"
    using send_appends by blast
  then show ?thesis by (simp add: PublishDDATA_def Let_def r1 nextSeq_def)
qed

section \<open>Properties of the edge node\<close>

text \<open>
  C11: the message stream of an edge node is one a Sparkplug host accepts.  Whatever sequence
  of operations is run and whichever publish calls fail, every session opens with an NBIRTH of
  sequence number 0, every device message carries the number after the last one modulo 256 and follows a birth,
  and an NDEATH repeats the \<open>bdSeq\<close> of the session it closes.  The bytes sent are the encoding
  of that payload, and births are retained while deaths and data never are.
\<close>

theorem node_stream_accepted:
  assumes "client_reach U W G w"
  shows "(\<exists>h. host_run None (map fst (w_calls w)) = Some h) \<and>
    list_all (\<lambda>m. msg_faithful W G (fst m)) (w_calls w)"
  using reach_inv[OF assms] by (auto simp: client_inv_def node_inv_def list_all_iff)

definition sample_world :: sp_world where
  "sample_world = \<lparr>w_client = NewClient \<lparr>MQTTHost = [], MQTTPort = 1883, MQTTClientID = [], MQTTUsername = [],
      MQTTPassword = [], GroupID = ''acme'', EdgeNodeID = ''line1'', EnableLegacy = True\<rparr> True,
    w_calls = [], w_outcome = (\<lambda>n. n \<noteq> 0)\<rparr>"

definition sample_run :: sp_world where
  "sample_run = Disconnect id std_wire sample_impl 9 (snd (PublishDDATA id std_wire sample_impl 6 7 ''plc'' []
     (SetConnected id std_wire sample_impl 5 True sample_world)))"

theorem node_stream_accepted_witness:
  "(\<exists>h. host_run None (map fst (w_calls sample_run)) = Some h) \<and>
   list_all (\<lambda>m. msg_faithful std_wire sample_impl (fst m)) (w_calls sample_run)"
proof -
  have "client_reach id std_wire sample_impl sample_run"
    unfolding sample_run_def sample_world_def by (intro client_reach.intros)
  then show ?thesis by (rule node_stream_accepted)
qed

text \<open>
  A birth that was lost is sent again before the next data.  When the client is connected but its
  NBIRTH never went out, publishing data first publishes an NBIRTH and then the data with
  sequence number 1, and when the broker accepts both the operation succeeds and the birth is settled.
\<close>

theorem PublishDDATA_rebirth:
  assumes "connected (w_client w)" "hasMqtt (w_client w)" "\<not> birthSent (w_client w)"
    and "w_outcome w (length (w_calls w))" "w_outcome w (Suc (length (w_calls w)))"
  shows "\<exists>b d. let (err, w') = PublishDDATA U W G nowB now dev tags w in
    err = None \<and> w_calls w' = w_calls w @ [(b, True), (d, True)] \<and> birthSent (w_client w') \<and>
    msg_type b = MessageTypeNBIRTH \<and> map_option p_Seq (msg_sp b) = Some 0 \<and>
    msg_type d = MessageTypeDDATA \<and> map_option p_Seq (msg_sp d) = Some 1 \<and>
    map_option p_Metrics (msg_sp d) = Some (map metric_of_tag tags)"
proof -
  obtain x where x: "EncodePayload W G (Some \<lparr>p_Timestamp = nowB, p_Seq = 0, p_UUID = [],
      p_Metrics = [bdSeqMetric nowB (bdSeq (w_client w))]\<rparr>) = Inr x"
    using EncodePayload_total by blast
  obtain y where y: "EncodePayload W G (Some (CreateDDATAPayload now dev tags 1)) = Inr y"
    using EncodePayload_total by blast
  show ?thesis
    using assms x y
    by (simp add: PublishDDATA_def ensureNodeBirthLocked_def sendNBIRTH_def send_def encode_body_def UseProtobuf_def
        PublishWithQoS_def restartSeq_def newBdSeq_def nextSeq_def Let_def CreateDDATAPayload_def CreatePayload_def)
qed

theorem PublishDDATA_rebirth_witness:
  "\<exists>b d. let (err, w') = PublishDDATA id std_wire sample_impl 6 7 ''plc'' []
       (SetConnected id std_wire sample_impl 5 True sample_world) in
    err = None \<and> w_calls w' = w_calls (SetConnected id std_wire sample_impl 5 True sample_world) @ [(b, True), (d, True)] \<and>
    birthSent (w_client w') \<and>
    msg_type b = MessageTypeNBIRTH \<and> map_option p_Seq (msg_sp b) = Some 0 \<and>
    msg_type d = MessageTypeDDATA \<and> map_option p_Seq (msg_sp d) = Some 1 \<and>
    map_option p_Metrics (msg_sp d) = Some (map metric_of_tag [])"
proof -
  obtain x where "EncodePayload std_wire sample_impl (Some \<lparr>p_Timestamp = 5, p_Seq = 0, p_UUID = [],
      p_Metrics = [bdSeqMetric 5 (bdSeq (w_client sample_world))]\<rparr>) = Inr x"
    using EncodePayload_total by blast
  then show ?thesis
    by (intro PublishDDATA_rebirth)
      (simp_all add: SetConnected_def ensureNodeBirthLocked_def sendNBIRTH_def send_def encode_body_def UseProtobuf_def
        PublishWithQoS_def restartSeq_def newBdSeq_def Let_def sample_world_def NewClient_def)
qed

text \<open>
  Dual publishing puts the legacy format first.  The result is an error exactly when the
  value cannot be marshalled or the legacy publish fails, and then nothing is sent to
  the Sparkplug topic; a failure on the Sparkplug side never makes the operation fail.
\<close>

theorem Publish_legacy_first:
  "let (err, w') = Publish U W G nowB now dp tagID alias value dt q ts eu w in
    (err = None \<longleftrightarrow> json_value_ok value \<and> w_outcome w (length (w_calls w))) \<and>
    (if json_value_ok value
     then \<exists>m rest. w_calls w' = w_calls w @ (m, w_outcome w (length (w_calls w))) # rest \<and> msg_type m = ''LEGACY'' \<and>
            (err = None \<or> rest = [])
     else w' = w)"
proof -
  let ?t = "BuildLegacyTopic U (dp_orgName dp) (dp_siteName dp) (dp_areaName dp) (dp_gatewayName dp) alias"
  let ?tp = "\<lparr>tp_TagID = tagID, tp_OrgID = dp_orgID dp, tp_Value = value, tp_Timestamp = ts, tp_Quality = q, tp_EUScaled = eu\<rparr>"
  let ?m = "legacy_msg ?t ?tp (dp_retainLegacy dp)"
  let ?w1 = "w\<lparr>w_calls := w_calls w @ [(?m, w_outcome w (length (w_calls w)))]\<rparr>"
  have "msg_type ?m = ''LEGACY''" by (simp add: legacy_msg_def)
  moreover obtain rest where "w_calls (snd (PublishDDATA U W G nowB now (dp_gatewayName dp)
     [\<lparr>td_TagID = tagID, td_DeviceID = alias, td_Value = value, td_DataType = dt, td_Timestamp = ts,
       td_Quality = q, td_OrgID = dp_orgID dp, td_EUScaled = eu\<rparr>] ?w1)) = w_calls ?w1 @ rest"
    using PublishDDATA_appends by blast
  ultimately show ?thesis
    by (auto simp: Publish_def PublishWithQoS_def PublishSingleTag_def Let_def split: if_split intro!: exI[of _ ?m])
qed

end
