(* ===== verification/Alarms.thy ===== *)
theory Alarms
  imports Go_Base
begin

text \<open>
  The alarm engine of \<open>internal/alarms\<close> (\<open>manager.go\<close>, \<open>health.go\<close>): alarm rules judged
  against readings and against the clock, the delay and hysteresis of a rule, the queue of
  durable writes and notifications, and their execution against the alarm store.

  A Go map is a partial function; \<open>activeTracks\<close>, a map of maps, is one partial function of
  tag and definition, and a missing entry of \<open>definitions\<close> is the empty list, as for a nil
  slice.  Where the code ranges over a map, the order of the range is an argument of the
  definition.  An \<open>*eventRef\<close> is an address in the heap \<open>refs\<close>, since the live track and every queued action of one
  occurrence share it.  Every call of \<open>time.Now\<close> is an argument.  The part of an operation
  that runs under the mutex is a function of the manager (\<open>*_locked\<close>); the whole operation
  adds the call of \<open>drainIO\<close>.  Logging is left out.
\<close>

section \<open>Data\<close>

record alarm_def =
  ad_ID :: int
  ad_TagID :: int
  ad_AlarmType :: string
  ad_Threshold :: "float64 option"
  ad_Deadband :: float64
  ad_DelaySeconds :: int
  ad_Severity :: string
  ad_Message :: string
  ad_Enabled :: bool

record activeAlarmTrack =
  tr_Definition :: alarm_def
  tr_ActiveSince :: gotime
  tr_Triggered :: bool
  tr_InitialValue :: float64
  tr_FiredAt :: gotime
  tr_Event :: nat
  tr_NextInsertRetry :: gotime

record alarmIO =
  io_tagID :: int
  io_alias :: string
  io_lookupAlias :: bool
  io_def :: alarm_def
  io_value :: float64
  io_status :: string
  io_ref :: nat
  io_triggeredAt :: gotime
  io_clearedAt :: gotime
  io_notify :: bool

record anchor =
  an_value :: float64
  an_since :: gotime

record sampleState =
  ss_lastGood :: gotime
  ss_lastValue :: float64
  ss_hasValue :: bool
  ss_anchors :: "int \<rightharpoonup> anchor"

type_synonym track_key = "int \<times> int"

record manager =
  mg_hasStore :: bool
  mg_hasCallback :: bool
  mg_gatewayID :: int
  mg_orgID :: int
  mg_siteName :: string
  mg_areaName :: string
  mg_gatewayName :: string
  definitions :: "int \<Rightarrow> alarm_def list"
  activeTracks :: "track_key \<rightharpoonup> activeAlarmTrack"
  samples :: "int \<rightharpoonup> sampleState"
  pendingIO :: "alarmIO list"
  ioDraining :: bool
  refs :: "nat \<Rightarrow> int"
  nextRef :: nat

definition alarmInsertRetryInterval :: duration where
  "alarmInsertRetryInterval = 30 * Second"

definition qualityGood :: int where "qualityGood = 192"

definition defaultHealthTimeoutSeconds :: int where "defaultHealthTimeoutSeconds = 60"

definition AlarmCommLoss :: string where "AlarmCommLoss = ''comm_loss''"
definition AlarmFrozen :: string where "AlarmFrozen = ''frozen''"

section \<open>Rules\<close>

definition isHealthAlarm :: "string \<Rightarrow> bool" where
  "isHealthAlarm t \<longleftrightarrow> t = AlarmCommLoss \<or> t = AlarmFrozen"

fun hasHealthAlarm :: "alarm_def list \<Rightarrow> bool" where
  "hasHealthAlarm [] = False"
| "hasHealthAlarm (d # ds) = (if isHealthAlarm (ad_AlarmType d) then True else hasHealthAlarm ds)"

definition healthTimeout :: "alarm_def \<Rightarrow> duration" where
  "healthTimeout d =
     (let s = ad_DelaySeconds d; s = (if s \<le> 0 then defaultHealthTimeoutSeconds else s) in secs s)"

definition isConditionViolated :: "alarm_def \<Rightarrow> float64 \<Rightarrow> bool" where
  "isConditionViolated d v =
     (let t = ad_AlarmType d in
      if t = ''bool_true'' then \<not> f64_eq v 0
      else if t = ''bool_false'' then f64_eq v 0
      else if t = ''high'' \<or> t = ''high_high'' then
        (case ad_Threshold d of None \<Rightarrow> False | Some th \<Rightarrow> f64_lt th v)
      else if t = ''low'' \<or> t = ''low_low'' then
        (case ad_Threshold d of None \<Rightarrow> False | Some th \<Rightarrow> f64_lt v th)
      else False)"

definition isCleared :: "alarm_def \<Rightarrow> float64 \<Rightarrow> bool" where
  "isCleared d v =
     (let t = ad_AlarmType d in
      if t = ''bool_true'' then f64_eq v 0
      else if t = ''bool_false'' then \<not> f64_eq v 0
      else if t = ''high'' \<or> t = ''high_high'' then
        (case ad_Threshold d of None \<Rightarrow> False | Some th \<Rightarrow> f64_le v (f64_sub th (ad_Deadband d)))
      else if t = ''low'' \<or> t = ''low_low'' then
        (case ad_Threshold d of None \<Rightarrow> False | Some th \<Rightarrow> f64_le (f64_add th (ad_Deadband d)) v)
      else True)"

fun toFloat :: "go_value \<Rightarrow> float64 option" where
  "toFloat (VFloat64 f) = Some f"
| "toFloat (VFloat32 f) = Some (f64_of_f32 f)"
| "toFloat (VInt i) = Some (f64_of_int (sint i))"
| "toFloat (VInt16 i) = Some (f64_of_int (sint i))"
| "toFloat (VInt32 i) = Some (f64_of_int (sint i))"
| "toFloat (VInt64 i) = Some (f64_of_int (sint i))"
| "toFloat (VUint16 i) = Some (f64_of_int (uint i))"
| "toFloat (VUint32 i) = Some (f64_of_int (uint i))"
| "toFloat (VUint64 i) = Some (f64_of_int (uint i))"
| "toFloat (VBool b) = Some (if b then f64_of_int 1 else 0)"
| "toFloat v = None"

section \<open>Tracks and the queue\<close>

definition queueIO :: "alarmIO \<Rightarrow> manager \<Rightarrow> manager" where
  "queueIO io m = m\<lparr>pendingIO := pendingIO m @ [io]\<rparr>"

text \<open>\<open>&eventRef{}\<close>: a fresh address whose event id is zero; \<open>i\<close> is the initial id.\<close>

definition newRef :: "int \<Rightarrow> manager \<Rightarrow> nat \<times> manager" where
  "newRef i m = (nextRef m, m\<lparr>refs := (refs m)(nextRef m := i), nextRef := nextRef m + 1\<rparr>)"

definition putTrack :: "track_key \<Rightarrow> activeAlarmTrack \<Rightarrow> manager \<Rightarrow> manager" where
  "putTrack k t m = m\<lparr>activeTracks := (activeTracks m)(k \<mapsto> t)\<rparr>"

definition deleteTrack :: "track_key \<Rightarrow> manager \<Rightarrow> manager" where
  "deleteTrack k m = m\<lparr>activeTracks := (activeTracks m)(k := None)\<rparr>"

section \<open>Health of the link\<close>

fun record_anchors :: "alarm_def list \<Rightarrow> float64 \<Rightarrow> gotime \<Rightarrow> (int \<rightharpoonup> anchor) \<Rightarrow> (int \<rightharpoonup> anchor)" where
  "record_anchors [] v now an = an"
| "record_anchors (d # ds) v now an = record_anchors ds v now
     (if ad_AlarmType d \<noteq> AlarmFrozen then an
      else case an (ad_ID d) of
             None \<Rightarrow> an(ad_ID d \<mapsto> \<lparr>an_value = v, an_since = now\<rparr>)
           | Some a \<Rightarrow> if f64_lt (ad_Deadband d) (f64_abs (f64_sub v (an_value a)))
                       then an(ad_ID d \<mapsto> \<lparr>an_value = v, an_since = now\<rparr>) else an)"

definition recordGoodSample :: "int \<Rightarrow> alarm_def list \<Rightarrow> float64 \<Rightarrow> gotime \<Rightarrow> manager \<Rightarrow> manager" where
  "recordGoodSample tagID defs v now m =
     (let s = (case samples m tagID of
                 None \<Rightarrow> \<lparr>ss_lastGood = 0, ss_lastValue = 0, ss_hasValue = False, ss_anchors = Map.empty\<rparr>
               | Some s \<Rightarrow> s);
          s = s\<lparr>ss_lastGood := now, ss_lastValue := v, ss_hasValue := True\<rparr>;
          s = s\<lparr>ss_anchors := record_anchors defs v now (ss_anchors s)\<rparr>
      in m\<lparr>samples := (samples m)(tagID \<mapsto> s)\<rparr>)"

definition applyHealth :: "int \<Rightarrow> alarm_def \<Rightarrow> bool \<Rightarrow> float64 \<Rightarrow> gotime \<Rightarrow> manager \<Rightarrow> manager" where
  "applyHealth tagID d violated v now m =
     (case activeTracks m (tagID, ad_ID d) of
        None \<Rightarrow>
          if violated then
            (case newRef 0 m of (r, m) \<Rightarrow>
               queueIO \<lparr>io_tagID = tagID, io_alias = [], io_lookupAlias = True, io_def = d, io_value = v,
                  io_status = ''ACTIVE'', io_ref = r, io_triggeredAt = now, io_clearedAt = 0, io_notify = True\<rparr>
                (putTrack (tagID, ad_ID d) \<lparr>tr_Definition = d, tr_ActiveSince = now, tr_Triggered = True,
                   tr_InitialValue = v, tr_FiredAt = now, tr_Event = r,
                   tr_NextInsertRetry = now + alarmInsertRetryInterval\<rparr> m))
          else m
      | Some track \<Rightarrow>
          if violated then m
          else deleteTrack (tagID, ad_ID d)
            (queueIO \<lparr>io_tagID = tagID, io_alias = [], io_lookupAlias = True, io_def = d, io_value = v,
               io_status = ''CLEARED'', io_ref = tr_Event track, io_triggeredAt = tr_FiredAt track,
               io_clearedAt = 0, io_notify = True\<rparr> m))"

text \<open>The body of the two loops of \<open>tickHealth\<close>: one rule, one tag.\<close>

definition tickHealth_def :: "gotime \<Rightarrow> int \<Rightarrow> sampleState \<Rightarrow> alarm_def \<Rightarrow> manager \<Rightarrow> manager" where
  "tickHealth_def now tagID s d m =
     (let silence = Sub now (ss_lastGood s); timeout = healthTimeout d in
      if ad_AlarmType d = AlarmCommLoss then
        applyHealth tagID d (timeout \<le> silence) (ss_lastValue s) now m
      else if ad_AlarmType d = AlarmFrozen then
        (let still = (ss_hasValue s \<and> (case ss_anchors s (ad_ID d) of
               None \<Rightarrow> False
             | Some a \<Rightarrow> silence \<le> timeout \<and> timeout \<le> Sub now (an_since a)))
         in applyHealth tagID d still (ss_lastValue s) now m)
      else m)"

definition tickHealth_tag :: "gotime \<Rightarrow> int \<Rightarrow> manager \<Rightarrow> manager" where
  "tickHealth_tag now tagID m =
     (let defs = definitions m tagID in
      if \<not> hasHealthAlarm defs then m
      else case samples m tagID of
             None \<Rightarrow> m\<lparr>samples := (samples m)(tagID \<mapsto>
                        \<lparr>ss_lastGood = now, ss_lastValue = 0, ss_hasValue = False, ss_anchors = Map.empty\<rparr>)\<rparr>
           | Some s \<Rightarrow> fold (tickHealth_def now tagID s) defs m)"

definition tickHealth :: "int list \<Rightarrow> gotime \<Rightarrow> manager \<Rightarrow> manager" where
  "tickHealth order now m = fold (tickHealth_tag now) order m"

definition pruneHealthState :: "(int \<Rightarrow> alarm_def list) \<Rightarrow> manager \<Rightarrow> manager" where
  "pruneHealthState newDefs m = m\<lparr>samples := (\<lambda>tagID. case samples m tagID of
      None \<Rightarrow> None
    | Some s \<Rightarrow>
        if \<not> hasHealthAlarm (newDefs tagID) then None
        else Some (s\<lparr>ss_anchors := (\<lambda>defID.
               if list_ex (\<lambda>d. ad_ID d = defID \<and> ad_AlarmType d = AlarmFrozen) (newDefs tagID)
               then ss_anchors s defID else None)\<rparr>))\<rparr>"

section \<open>Evaluating a reading\<close>

text \<open>The body of the loop over the rules of a tag.\<close>

definition evaluate_def :: "int \<Rightarrow> string \<Rightarrow> gotime \<Rightarrow> float64 \<Rightarrow> alarm_def \<Rightarrow> manager \<Rightarrow> manager" where
  "evaluate_def tagID alias now v d m =
     (if isHealthAlarm (ad_AlarmType d) then m
      else if isConditionViolated d v then
        (case activeTracks m (tagID, ad_ID d) of
           Some _ \<Rightarrow> m
         | None \<Rightarrow>
             (case newRef 0 m of (r, m) \<Rightarrow>
                let t = \<lparr>tr_Definition = d, tr_ActiveSince = now, tr_Triggered = False, tr_InitialValue = v,
                         tr_FiredAt = 0, tr_Event = r, tr_NextInsertRetry = 0\<rparr>
                in if ad_DelaySeconds d = 0
                   then queueIO \<lparr>io_tagID = tagID, io_alias = alias, io_lookupAlias = False, io_def = d,
                          io_value = v, io_status = ''ACTIVE'', io_ref = r, io_triggeredAt = now,
                          io_clearedAt = 0, io_notify = True\<rparr>
                        (putTrack (tagID, ad_ID d) (t\<lparr>tr_Triggered := True, tr_FiredAt := now,
                           tr_NextInsertRetry := now + alarmInsertRetryInterval\<rparr>) m)
                   else putTrack (tagID, ad_ID d) t m))
      else
        (case activeTracks m (tagID, ad_ID d) of
           None \<Rightarrow> m
         | Some track \<Rightarrow>
             if \<not> tr_Triggered track then deleteTrack (tagID, ad_ID d) m
             else if isCleared d v then
               deleteTrack (tagID, ad_ID d)
                 (queueIO \<lparr>io_tagID = tagID, io_alias = alias, io_lookupAlias = False, io_def = d,
                    io_value = v, io_status = ''CLEARED'', io_ref = tr_Event track,
                    io_triggeredAt = tr_FiredAt track, io_clearedAt = now, io_notify = True\<rparr> m)
             else m))"

text \<open>
  The part of \<open>evaluateAt\<close> under the mutex; the second result says whether the operation goes
  on to drain the queue.  \<open>now1\<close> stands for the time of a reading without one, \<open>now2\<close> is the arrival.
\<close>

definition evaluate_locked :: "gotime \<Rightarrow> gotime \<Rightarrow> int \<Rightarrow> string \<Rightarrow> go_value \<Rightarrow> int \<Rightarrow> gotime \<Rightarrow> bool \<Rightarrow>
    manager \<Rightarrow> manager \<times> bool" where
  "evaluate_locked now1 now2 tagID alias value quality atT markLife m =
     (let fv = toFloat value; defs = definitions m tagID in
      if defs = [] then (m, False)
      else let now = (if IsZero atT then now1 else atT);
               m = (case fv of
                      Some v \<Rightarrow> if markLife \<and> quality = qualityGood then recordGoodSample tagID defs v now2 m else m
                    | None \<Rightarrow> m)
           in case fv of
                None \<Rightarrow> (m, False)
              | Some v \<Rightarrow>
                  if quality \<noteq> qualityGood then (m, False)
                  else (fold (evaluate_def tagID alias now v) defs m, True))"

section \<open>Evaluating a batch of past readings\<close>

definition drop_queued :: "int \<Rightarrow> alarm_def \<Rightarrow> nat \<Rightarrow> manager \<Rightarrow> manager" where
  "drop_queued tagID d r m = m\<lparr>pendingIO :=
     filter (\<lambda>q. io_tagID q \<noteq> tagID \<or> ad_ID (io_def q) \<noteq> ad_ID d \<or> io_ref q \<noteq> r) (pendingIO m)\<rparr>"

definition series_fire :: "gotime \<Rightarrow> int \<Rightarrow> string \<Rightarrow> alarm_def \<Rightarrow> gotime \<Rightarrow> activeAlarmTrack \<Rightarrow> manager \<Rightarrow> manager" where
  "series_fire now tagID alias d atT track m =
     (let delay = secs (ad_DelaySeconds d) in
      if \<not> tr_Triggered track \<and> delay \<le> Sub atT (tr_ActiveSince track)
      then let firedAt = tr_ActiveSince track + delay
           in queueIO \<lparr>io_tagID = tagID, io_alias = alias, io_lookupAlias = False, io_def = d,
                io_value = tr_InitialValue track, io_status = ''ACTIVE'', io_ref = tr_Event track,
                io_triggeredAt = firedAt, io_clearedAt = 0, io_notify = False\<rparr>
              (putTrack (tagID, ad_ID d) (track\<lparr>tr_Triggered := True, tr_FiredAt := firedAt,
                 tr_NextInsertRetry := now + alarmInsertRetryInterval\<rparr>) m)
      else m)"

definition seriesStep :: "gotime \<Rightarrow> int \<Rightarrow> string \<Rightarrow> alarm_def \<Rightarrow> gotime \<Rightarrow> float64 \<Rightarrow> bool \<Rightarrow> manager \<Rightarrow> manager" where
  "seriesStep now tagID alias d atT v known m =
     (if isConditionViolated d v then
        (case activeTracks m (tagID, ad_ID d) of
           Some track \<Rightarrow> series_fire now tagID alias d atT track m
         | None \<Rightarrow>
             (case newRef 0 m of (r, m) \<Rightarrow>
                let track = \<lparr>tr_Definition = d, tr_ActiveSince = atT, tr_Triggered = False, tr_InitialValue = v,
                             tr_FiredAt = 0, tr_Event = r, tr_NextInsertRetry = 0\<rparr>
                in series_fire now tagID alias d atT track (putTrack (tagID, ad_ID d) track m)))
      else
        (case activeTracks m (tagID, ad_ID d) of
           None \<Rightarrow> m
         | Some track \<Rightarrow>
             if \<not> tr_Triggered track then deleteTrack (tagID, ad_ID d) m
             else if isCleared d v then
               (if \<not> tr_FiredAt track < atT
                then deleteTrack (tagID, ad_ID d) (drop_queued tagID d (tr_Event track) m)
                else deleteTrack (tagID, ad_ID d)
                  (queueIO \<lparr>io_tagID = tagID, io_alias = alias, io_lookupAlias = False, io_def = d,
                     io_value = v, io_status = ''CLEARED'', io_ref = tr_Event track,
                     io_triggeredAt = tr_FiredAt track, io_clearedAt = atT, io_notify = known\<rparr> m))
             else m))"

definition series_point :: "gotime \<Rightarrow> int \<Rightarrow> string \<Rightarrow> alarm_def list \<Rightarrow> (int \<Rightarrow> bool) \<Rightarrow> go_value \<times> gotime \<Rightarrow>
    manager \<Rightarrow> manager" where
  "series_point now tagID alias defs known p m = (case toFloat (fst p) of
     None \<Rightarrow> m
   | Some v \<Rightarrow> fold (\<lambda>d m. if isHealthAlarm (ad_AlarmType d) then m
                         else seriesStep now tagID alias d (snd p) v (known (ad_ID d)) m) defs m)"

definition mark_notify :: "int \<Rightarrow> manager \<Rightarrow> alarmIO \<Rightarrow> alarmIO" where
  "mark_notify tagID m io =
     (if io_tagID io \<noteq> tagID \<or> io_status io \<noteq> ''ACTIVE'' then io
      else case activeTracks m (tagID, ad_ID (io_def io)) of
             Some t \<Rightarrow> if tr_Event t = io_ref io then io\<lparr>io_notify := True\<rparr> else io
           | None \<Rightarrow> io)"

definition series_locked :: "gotime \<Rightarrow> int \<Rightarrow> string \<Rightarrow> (go_value \<times> gotime) list \<Rightarrow> int \<Rightarrow> manager \<Rightarrow> manager \<times> bool" where
  "series_locked now tagID alias points quality m =
     (if points = [] then (m, False)
      else let sorted_points = sort_key snd points; defs = definitions m tagID in
        if defs = [] then (m, False)
        else if quality \<noteq> qualityGood then (m, False)
        else let m = (case toFloat (fst (last sorted_points)) of
                        Some v \<Rightarrow> recordGoodSample tagID defs v now m | None \<Rightarrow> m);
                 known = (\<lambda>d. case activeTracks m (tagID, d) of Some t \<Rightarrow> tr_Triggered t | None \<Rightarrow> False);
                 firstIO = length (pendingIO m);
                 m = fold (series_point now tagID alias defs known) sorted_points m
             in (m\<lparr>pendingIO := take firstIO (pendingIO m) @ map (mark_notify tagID m) (drop firstIO (pendingIO m))\<rparr>,
                 True))"

section \<open>The clock\<close>

definition tick_track :: "gotime \<Rightarrow> track_key \<Rightarrow> manager \<Rightarrow> manager" where
  "tick_track now k m = (case activeTracks m k of
     None \<Rightarrow> m
   | Some track \<Rightarrow>
       if \<not> tr_Triggered track then
         (if ad_DelaySeconds (tr_Definition track) \<le> int_Seconds (Sub now (tr_ActiveSince track)) then
            let firedAt = tr_ActiveSince track + secs (ad_DelaySeconds (tr_Definition track));
                firedAt = (if now < firedAt then now else firedAt)
            in queueIO \<lparr>io_tagID = fst k, io_alias = [], io_lookupAlias = True, io_def = tr_Definition track,
                 io_value = tr_InitialValue track, io_status = ''ACTIVE'', io_ref = tr_Event track,
                 io_triggeredAt = firedAt, io_clearedAt = 0, io_notify = True\<rparr>
               (putTrack k (track\<lparr>tr_Triggered := True, tr_FiredAt := firedAt,
                  tr_NextInsertRetry := now + alarmInsertRetryInterval\<rparr>) m)
          else m)
       else if refs m (tr_Event track) = 0 \<and> \<not> now < tr_NextInsertRetry track then
         queueIO \<lparr>io_tagID = fst k, io_alias = [], io_lookupAlias = False, io_def = tr_Definition track,
            io_value = tr_InitialValue track, io_status = ''ACTIVE'', io_ref = tr_Event track,
            io_triggeredAt = tr_FiredAt track, io_clearedAt = 0, io_notify = False\<rparr>
          (putTrack k (track\<lparr>tr_NextInsertRetry := now + alarmInsertRetryInterval\<rparr>) m)
       else m)"

definition tick_locked :: "track_key list \<Rightarrow> int list \<Rightarrow> gotime \<Rightarrow> manager \<Rightarrow> manager" where
  "tick_locked trackOrder tagOrder now m = tickHealth tagOrder now (fold (tick_track now) trackOrder m)"

section \<open>Loading from the database\<close>

definition group_defs :: "alarm_def list \<Rightarrow> int \<Rightarrow> alarm_def list" where
  "group_defs rows tagID = filter (\<lambda>d. ad_TagID d = tagID) rows"

definition clean_track :: "(int \<Rightarrow> alarm_def list) \<Rightarrow> track_key \<Rightarrow> manager \<Rightarrow> manager" where
  "clean_track newDefs k m = (case activeTracks m k of
     None \<Rightarrow> m
   | Some track \<Rightarrow>
       if list_ex (\<lambda>d. ad_ID d = snd k) (newDefs (fst k)) then m
       else deleteTrack k
         (if tr_Triggered track
          then queueIO \<lparr>io_tagID = fst k, io_alias = [], io_lookupAlias = True, io_def = tr_Definition track,
                 io_value = tr_InitialValue track, io_status = ''CLEARED'', io_ref = tr_Event track,
                 io_triggeredAt = tr_FiredAt track, io_clearedAt = 0, io_notify = True\<rparr> m
          else m))"

definition load_locked :: "alarm_def list \<Rightarrow> track_key list \<Rightarrow> manager \<Rightarrow> manager" where
  "load_locked rows order m =
     (let newDefs = group_defs rows;
          m = pruneHealthState newDefs (m\<lparr>definitions := newDefs\<rparr>)
      in fold (clean_track newDefs) order m)"

record active_row =
  ar_eventID :: int
  ar_tagID :: int
  ar_defID :: int
  ar_value :: float64
  ar_triggerTime :: gotime

definition restore_row :: "active_row \<Rightarrow> manager \<Rightarrow> manager" where
  "restore_row row m = (case find (\<lambda>d. ad_ID d = ar_defID row) (definitions m (ar_tagID row)) of
     None \<Rightarrow> m
   | Some d \<Rightarrow>
       (case newRef (ar_eventID row) m of (r, m) \<Rightarrow>
          putTrack (ar_tagID row, ar_defID row)
            \<lparr>tr_Definition = d, tr_ActiveSince = ar_triggerTime row, tr_Triggered = True,
             tr_InitialValue = ar_value row, tr_FiredAt = ar_triggerTime row, tr_Event = r,
             tr_NextInsertRetry = 0\<rparr> m))"

definition loadActiveAlarmsFromDB :: "active_row list option \<Rightarrow> manager \<Rightarrow> manager" where
  "loadActiveAlarmsFromDB result m =
     (if \<not> mg_hasStore m then m
      else case result of None \<Rightarrow> m | Some rows \<Rightarrow> fold restore_row rows m)"

definition loadGatewayContext :: "(int \<times> string \<times> string \<times> string) option \<Rightarrow> manager \<Rightarrow> manager" where
  "loadGatewayContext result m =
     (if \<not> mg_hasStore m then m
      else case result of
             None \<Rightarrow> m
           | Some (org, site, area, gw) \<Rightarrow>
               m\<lparr>mg_orgID := org, mg_siteName := site, mg_areaName := area, mg_gatewayName := gw\<rparr>)"

section \<open>Durable writes and notifications\<close>

text \<open>
  The interface \<open>alarmStore\<close>, over an abstract database state: an id or a failure for the
  two inserts, success or failure for the update.
\<close>

record 'db alarmStore =
  InsertActive :: "int \<Rightarrow> alarm_def \<Rightarrow> float64 \<Rightarrow> gotime \<Rightarrow> 'db \<Rightarrow> int option \<times> 'db"
  InsertCleared :: "int \<Rightarrow> alarm_def \<Rightarrow> float64 \<Rightarrow> gotime \<Rightarrow> gotime \<Rightarrow> 'db \<Rightarrow> int option \<times> 'db"
  MarkCleared :: "int \<Rightarrow> gotime \<Rightarrow> 'db \<Rightarrow> bool \<times> 'db"
  TagAlias :: "int \<Rightarrow> 'db \<Rightarrow> string option \<times> 'db"

record alarm_event =
  ev_eventID :: int
  ev_tagID :: int
  ev_alias :: string
  ev_def :: alarm_def
  ev_val :: float64
  ev_status :: string

record 'db alarm_world =
  w_mgr :: manager
  w_db :: 'db
  w_events :: "alarm_event list"

definition setRef :: "nat \<Rightarrow> int \<Rightarrow> manager \<Rightarrow> manager" where
  "setRef r i m = m\<lparr>refs := (refs m)(r := i)\<rparr>"

definition persistActive :: "'db alarmStore \<Rightarrow> alarmIO \<Rightarrow> 'db alarm_world \<Rightarrow> 'db alarm_world" where
  "persistActive S act w =
     (if 0 < refs (w_mgr w) (io_ref act) then w
      else case InsertActive S (io_tagID act) (io_def act) (io_value act) (io_triggeredAt act) (w_db w) of
             (None, db) \<Rightarrow> w\<lparr>w_db := db\<rparr>
           | (Some i, db) \<Rightarrow> w\<lparr>w_db := db, w_mgr := setRef (io_ref act) i (w_mgr w)\<rparr>)"

definition persistCleared :: "'db alarmStore \<Rightarrow> gotime \<Rightarrow> alarmIO \<Rightarrow> 'db alarm_world \<Rightarrow> 'db alarm_world" where
  "persistCleared S now act w =
     (let eventID = refs (w_mgr w) (io_ref act);
          clearedAt = (if IsZero (io_clearedAt act) then now else io_clearedAt act)
      in if 0 < eventID then w\<lparr>w_db := snd (MarkCleared S eventID clearedAt (w_db w))\<rparr>
         else case InsertCleared S (io_tagID act) (io_def act) (io_value act) (io_triggeredAt act) clearedAt (w_db w) of
                (None, db) \<Rightarrow> w\<lparr>w_db := db\<rparr>
              | (Some i, db) \<Rightarrow> w\<lparr>w_db := db, w_mgr := setRef (io_ref act) i (w_mgr w)\<rparr>)"

definition executeIO :: "'db alarmStore \<Rightarrow> gotime \<Rightarrow> alarmIO \<Rightarrow> 'db alarm_world \<Rightarrow> 'db alarm_world" where
  "executeIO S now act w =
     (let (alias, w) =
            (if io_lookupAlias act \<and> mg_hasStore (w_mgr w)
             then case TagAlias S (io_tagID act) (w_db w) of
                    (None, db) \<Rightarrow> (io_alias act, w\<lparr>w_db := db\<rparr>)
                  | (Some a, db) \<Rightarrow> (a, w\<lparr>w_db := db\<rparr>)
             else (io_alias act, w));
          w = (if mg_hasStore (w_mgr w)
               then (if io_status act = ''ACTIVE'' then persistActive S act w
                     else if io_status act = ''CLEARED'' then persistCleared S now act w
                     else w)
               else w)
      in if io_notify act \<and> mg_hasCallback (w_mgr w)
         then w\<lparr>w_events := w_events w @ [\<lparr>ev_eventID = refs (w_mgr w) (io_ref act), ev_tagID = io_tagID act,
                  ev_alias = alias, ev_def = io_def act, ev_val = io_value act, ev_status = io_status act\<rparr>]\<rparr>
         else w)"

text \<open>\<open>executeIO\<close> leaves everything of the manager but the event id of its own occurrence.\<close>

lemma setRef_same: "setRef r (refs m r) m = m"
  by (simp add: setRef_def)

lemma persistActive_mgr: "\<exists>i. w_mgr (persistActive S act w) = setRef (io_ref act) i (w_mgr w)"
  using setRef_same[of "io_ref act" "w_mgr w", symmetric]
  by (auto simp: persistActive_def split: prod.split option.split)

lemma persistCleared_mgr: "\<exists>i. w_mgr (persistCleared S now act w) = setRef (io_ref act) i (w_mgr w)"
  using setRef_same[of "io_ref act" "w_mgr w", symmetric]
  by (auto simp: persistCleared_def Let_def split: prod.split option.split)

lemma executeIO_mgr: "\<exists>i. w_mgr (executeIO S now act w) = setRef (io_ref act) i (w_mgr w)"
proof -
  let ?l = "if io_lookupAlias act \<and> mg_hasStore (w_mgr w)
     then case TagAlias S (io_tagID act) (w_db w) of
            (None, db) \<Rightarrow> (io_alias act, w\<lparr>w_db := db\<rparr>)
          | (Some a, db) \<Rightarrow> (a, w\<lparr>w_db := db\<rparr>)
     else (io_alias act, w)"
  obtain al w1 where l: "?l = (al, w1)" by (cases ?l) auto
  then have w1: "w_mgr w1 = w_mgr w" by (auto split: if_splits prod.splits option.splits)
  have "w_mgr (executeIO S now act w) = w_mgr (if mg_hasStore (w_mgr w1)
      then (if io_status act = ''ACTIVE'' then persistActive S act w1
            else if io_status act = ''CLEARED'' then persistCleared S now act w1 else w1) else w1)"
    unfolding executeIO_def l by (simp add: Let_def)
  moreover have "\<exists>i. w_mgr (persistActive S act w1) = setRef (io_ref act) i (w_mgr w)"
    "\<exists>i. w_mgr (persistCleared S now act w1) = setRef (io_ref act) i (w_mgr w)"
    using persistActive_mgr[of S act w1] persistCleared_mgr[of S now act w1] by (simp_all only: w1)
  moreover have "\<exists>i. w_mgr w = setRef (io_ref act) i (w_mgr w)" using setRef_same by metis
  ultimately show ?thesis using w1 by (simp split: if_split)
qed

lemma setRef_simps [simp]:
  "pendingIO (setRef r i m) = pendingIO m" "activeTracks (setRef r i m) = activeTracks m"
  "definitions (setRef r i m) = definitions m" "samples (setRef r i m) = samples m"
  "nextRef (setRef r i m) = nextRef m" "ioDraining (setRef r i m) = ioDraining m"
  "mg_hasStore (setRef r i m) = mg_hasStore m" "mg_hasCallback (setRef r i m) = mg_hasCallback m"
  by (simp_all add: setRef_def)

lemma executeIO_pending [simp]: "pendingIO (w_mgr (executeIO S now act w)) = pendingIO (w_mgr w)"
  using executeIO_mgr[of S now act w] by auto

definition pop :: "alarmIO list \<Rightarrow> 'db alarm_world \<Rightarrow> 'db alarm_world" where
  "pop rest w = w\<lparr>w_mgr := (w_mgr w)\<lparr>pendingIO := rest\<rparr>\<rparr>"

text \<open>\<open>clock i\<close> is the time when the i-th action of this drain is executed.\<close>

function drain_loop :: "'db alarmStore \<Rightarrow> (nat \<Rightarrow> gotime) \<Rightarrow> nat \<Rightarrow> 'db alarm_world \<Rightarrow> 'db alarm_world" where
  "drain_loop S clock i w = (case pendingIO (w_mgr w) of
     [] \<Rightarrow> w
   | act # rest \<Rightarrow> drain_loop S clock (Suc i) (executeIO S (clock i) act (pop rest w)))"
  by pat_completeness auto
termination
  by (relation "measure (\<lambda>(S, clock, i, w). length (pendingIO (w_mgr w)))") (auto simp: pop_def)

declare drain_loop.simps [simp del]

definition drainIO :: "'db alarmStore \<Rightarrow> (nat \<Rightarrow> gotime) \<Rightarrow> 'db alarm_world \<Rightarrow> 'db alarm_world" where
  "drainIO S clock w =
     (if ioDraining (w_mgr w) then w
      else let w = w\<lparr>w_mgr := (w_mgr w)\<lparr>ioDraining := True\<rparr>\<rparr>;
               w = drain_loop S clock 0 w
           in w\<lparr>w_mgr := (w_mgr w)\<lparr>ioDraining := False\<rparr>\<rparr>)"

section \<open>The operations\<close>

definition finish :: "'db alarmStore \<Rightarrow> (nat \<Rightarrow> gotime) \<Rightarrow> manager \<times> bool \<Rightarrow> 'db alarm_world \<Rightarrow> 'db alarm_world" where
  "finish S clock r w = (let w = w\<lparr>w_mgr := fst r\<rparr> in if snd r then drainIO S clock w else w)"

definition evaluateAt :: "'db alarmStore \<Rightarrow> (nat \<Rightarrow> gotime) \<Rightarrow> gotime \<Rightarrow> gotime \<Rightarrow> int \<Rightarrow> string \<Rightarrow> go_value \<Rightarrow> int \<Rightarrow>
    gotime \<Rightarrow> bool \<Rightarrow> 'db alarm_world \<Rightarrow> 'db alarm_world" where
  "evaluateAt S clock now1 now2 tagID alias value quality atT markLife w =
     finish S clock (evaluate_locked now1 now2 tagID alias value quality atT markLife (w_mgr w)) w"

definition EvaluateTagAt :: "'db alarmStore \<Rightarrow> (nat \<Rightarrow> gotime) \<Rightarrow> gotime \<Rightarrow> gotime \<Rightarrow> int \<Rightarrow> string \<Rightarrow> go_value \<Rightarrow> int \<Rightarrow>
    gotime \<Rightarrow> 'db alarm_world \<Rightarrow> 'db alarm_world" where
  "EvaluateTagAt S clock now1 now2 tagID alias value quality atT w =
     evaluateAt S clock now1 now2 tagID alias value quality atT True w"

definition EvaluateThresholdsAt :: "'db alarmStore \<Rightarrow> (nat \<Rightarrow> gotime) \<Rightarrow> gotime \<Rightarrow> gotime \<Rightarrow> int \<Rightarrow> string \<Rightarrow> go_value \<Rightarrow> int \<Rightarrow>
    gotime \<Rightarrow> 'db alarm_world \<Rightarrow> 'db alarm_world" where
  "EvaluateThresholdsAt S clock now1 now2 tagID alias value quality atT w =
     evaluateAt S clock now1 now2 tagID alias value quality atT False w"

definition EvaluateTag :: "'db alarmStore \<Rightarrow> (nat \<Rightarrow> gotime) \<Rightarrow> gotime \<Rightarrow> gotime \<Rightarrow> gotime \<Rightarrow> int \<Rightarrow> string \<Rightarrow> go_value \<Rightarrow> int \<Rightarrow>
    'db alarm_world \<Rightarrow> 'db alarm_world" where
  "EvaluateTag S clock now now1 now2 tagID alias value quality w =
     EvaluateTagAt S clock now1 now2 tagID alias value quality now w"

definition EvaluateTagSeries :: "'db alarmStore \<Rightarrow> (nat \<Rightarrow> gotime) \<Rightarrow> gotime \<Rightarrow> int \<Rightarrow> string \<Rightarrow> (go_value \<times> gotime) list \<Rightarrow> int \<Rightarrow>
    'db alarm_world \<Rightarrow> 'db alarm_world" where
  "EvaluateTagSeries S clock now tagID alias points quality w =
     finish S clock (series_locked now tagID alias points quality (w_mgr w)) w"

definition tickDelays :: "'db alarmStore \<Rightarrow> (nat \<Rightarrow> gotime) \<Rightarrow> track_key list \<Rightarrow> int list \<Rightarrow> gotime \<Rightarrow>
    'db alarm_world \<Rightarrow> 'db alarm_world" where
  "tickDelays S clock trackOrder tagOrder now w =
     finish S clock (tick_locked trackOrder tagOrder now (w_mgr w), True) w"

text \<open>\<open>result\<close> is what the query of the enabled definitions of the gateway returns.\<close>

definition LoadDefinitions :: "'db alarmStore \<Rightarrow> (nat \<Rightarrow> gotime) \<Rightarrow> alarm_def list option \<Rightarrow> track_key list \<Rightarrow>
    'db alarm_world \<Rightarrow> 'db alarm_world" where
  "LoadDefinitions S clock result order w =
     (if \<not> mg_hasStore (w_mgr w) then w
      else case result of
             None \<Rightarrow> w
           | Some rows \<Rightarrow> finish S clock (load_locked rows order (w_mgr w), True) w)"

definition empty_manager :: "bool \<Rightarrow> bool \<Rightarrow> int \<Rightarrow> manager" where
  "empty_manager db callback gatewayID = \<lparr>mg_hasStore = db, mg_hasCallback = callback, mg_gatewayID = gatewayID,
     mg_orgID = 0, mg_siteName = [], mg_areaName = [], mg_gatewayName = [],
     definitions = (\<lambda>_. []), activeTracks = Map.empty, samples = Map.empty, pendingIO = [], ioDraining = False,
     refs = (\<lambda>_. 0), nextRef = 0\<rparr>"

definition NewManager :: "'db alarmStore \<Rightarrow> (nat \<Rightarrow> gotime) \<Rightarrow> bool \<Rightarrow> bool \<Rightarrow> int \<Rightarrow>
    (int \<times> string \<times> string \<times> string) option \<Rightarrow> alarm_def list option \<Rightarrow> active_row list option \<Rightarrow> 'db \<Rightarrow> 'db alarm_world" where
  "NewManager S clock db callback gatewayID ctx defs active dbs =
     (let w = \<lparr>w_mgr = loadGatewayContext ctx (empty_manager db callback gatewayID), w_db = dbs, w_events = []\<rparr>;
          w = LoadDefinitions S clock defs [] w
      in w\<lparr>w_mgr := loadActiveAlarmsFromDB active (w_mgr w)\<rparr>)"

end
