(* ===== verification/Alarm_Lifecycle.thy ===== *)
theory Alarm_Lifecycle
  imports Alarms
begin

text \<open>
  The life of one alarm occurrence.  Every transition the manager makes under its mutex is
  a sequence of a few moves on the tracks and the queue (\<open>move\<close>), and the moves keep an
  invariant of the history of each occurrence: what was queued for it, executed or still
  pending.  The transition system \<open>alarm_reach\<close> interleaves the transitions of all callers
  with the single drainer, one action at a time.
\<close>

section \<open>Moves\<close>

definition io_key :: "alarmIO \<Rightarrow> track_key" where
  "io_key a = (io_tagID a, ad_ID (io_def a))"

definition same_alarm :: "track_key \<Rightarrow> activeAlarmTrack \<Rightarrow> activeAlarmTrack \<Rightarrow> bool" where
  "same_alarm k t t' \<longleftrightarrow> tr_Event t' = tr_Event t \<and> ad_ID (tr_Definition t') = snd k \<and> tr_Triggered t'"

inductive live_move :: "manager \<Rightarrow> manager \<Rightarrow> bool" where
  frame: "activeTracks m' = activeTracks m \<Longrightarrow> pendingIO m' = pendingIO m \<Longrightarrow> nextRef m' = nextRef m \<Longrightarrow>
     refs m' = refs m \<Longrightarrow> mg_hasStore m' = mg_hasStore m \<Longrightarrow> live_move m m'"
| open_track: "activeTracks m k = None \<Longrightarrow> ad_ID (tr_Definition t) = snd k \<Longrightarrow> \<not> tr_Triggered t \<Longrightarrow>
     tr_Event t = nextRef m \<Longrightarrow> live_move m (putTrack k t (snd (newRef 0 m)))"
| fire: "activeTracks m k = Some t \<Longrightarrow> \<not> tr_Triggered t \<Longrightarrow> same_alarm k t t' \<Longrightarrow>
     io_status a = ''ACTIVE'' \<Longrightarrow> io_ref a = tr_Event t \<Longrightarrow> io_key a = k \<Longrightarrow> live_move m (queueIO a (putTrack k t' m))"
| retry: "activeTracks m k = Some t \<Longrightarrow> tr_Triggered t \<Longrightarrow> same_alarm k t t' \<Longrightarrow>
     io_status a = ''ACTIVE'' \<Longrightarrow> \<not> io_notify a \<Longrightarrow> io_ref a = tr_Event t \<Longrightarrow> io_key a = k \<Longrightarrow>
     live_move m (queueIO a (putTrack k t' m))"
| clear: "activeTracks m k = Some t \<Longrightarrow> io_status a = ''CLEARED'' \<Longrightarrow> io_ref a = tr_Event t \<Longrightarrow> io_key a = k \<Longrightarrow>
     live_move m (deleteTrack k (queueIO a m))"
| cancel: "activeTracks m k = Some t \<Longrightarrow> \<not> tr_Triggered t \<Longrightarrow> live_move m (deleteTrack k m)"

text \<open>The batch evaluation may also discard an occurrence, and the start-up restores occurrences from the database.\<close>

inductive move :: "manager \<Rightarrow> manager \<Rightarrow> bool" where
  live: "live_move m m' \<Longrightarrow> move m m'"
| discard: "activeTracks m k = Some t \<Longrightarrow> ad_ID d = snd k \<Longrightarrow>
     move m (deleteTrack k (drop_queued (fst k) d (tr_Event t) m))"
| restore: "ad_ID (tr_Definition t) = snd k \<Longrightarrow> tr_Triggered t \<Longrightarrow> tr_Event t = nextRef m \<Longrightarrow>
     move m (putTrack k t (snd (newRef i m)))"

section \<open>The history of an occurrence\<close>

definition hist :: "alarmIO list \<Rightarrow> manager \<Rightarrow> nat \<Rightarrow> alarmIO list" where
  "hist executed m r = filter (\<lambda>a. io_ref a = r) (executed @ pendingIO m)"

definition announces :: "alarmIO \<Rightarrow> bool" where
  "announces a \<longleftrightarrow> io_notify a \<and> io_status a = ''ACTIVE''"

text \<open>
  A well-formed history: activations first, then at most one clearing, at most one
  activation announced to the operator, all for one tag and one definition.
\<close>

definition wf_hist :: "alarmIO list \<Rightarrow> bool" where
  "wf_hist L \<longleftrightarrow> list_all (\<lambda>a. io_status a = ''ACTIVE'') (butlast L) \<and>
     list_all (\<lambda>a. io_status a = ''ACTIVE'' \<or> io_status a = ''CLEARED'') L \<and>
     length (filter announces L) \<le> 1 \<and> list_all (\<lambda>a. io_key a = io_key (hd L)) L"

definition live_ok :: "alarmIO list \<Rightarrow> manager \<Rightarrow> track_key \<Rightarrow> activeAlarmTrack \<Rightarrow> bool" where
  "live_ok executed m k t \<longleftrightarrow> tr_Event t < nextRef m \<and> ad_ID (tr_Definition t) = snd k \<and>
     (\<forall>a \<in> set (hist executed m (tr_Event t)). io_status a = ''ACTIVE'' \<and> io_key a = k) \<and>
     (\<not> tr_Triggered t \<longrightarrow> hist executed m (tr_Event t) = [])"

definition alarm_inv :: "alarmIO list \<Rightarrow> manager \<Rightarrow> bool" where
  "alarm_inv executed m \<longleftrightarrow>
     (\<forall>k t. activeTracks m k = Some t \<longrightarrow> live_ok executed m k t) \<and>
     (\<forall>k k' t t'. activeTracks m k = Some t \<longrightarrow> activeTracks m k' = Some t' \<longrightarrow> tr_Event t = tr_Event t' \<longrightarrow> k = k') \<and>
     (\<forall>a \<in> set (executed @ pendingIO m). io_ref a < nextRef m) \<and>
     (\<forall>r. wf_hist (hist executed m r))"

lemma update_simps [simp]:
  "activeTracks (queueIO a m) = activeTracks m" "pendingIO (queueIO a m) = pendingIO m @ [a]" "nextRef (queueIO a m) = nextRef m"
  "activeTracks (putTrack k t m) = (activeTracks m)(k \<mapsto> t)" "pendingIO (putTrack k t m) = pendingIO m" "nextRef (putTrack k t m) = nextRef m"
  "activeTracks (deleteTrack k m) = (activeTracks m)(k := None)" "pendingIO (deleteTrack k m) = pendingIO m" "nextRef (deleteTrack k m) = nextRef m"
  "activeTracks (snd (newRef i m)) = activeTracks m" "pendingIO (snd (newRef i m)) = pendingIO m" "nextRef (snd (newRef i m)) = Suc (nextRef m)"
  "activeTracks (drop_queued tg d r m) = activeTracks m" "nextRef (drop_queued tg d r m) = nextRef m"
  by (simp_all add: queueIO_def putTrack_def deleteTrack_def newRef_def drop_queued_def)

lemma hist_simps [simp]:
  "hist ex (queueIO a m) r = hist ex m r @ (if io_ref a = r then [a] else [])"
  "hist ex (putTrack k t m) r = hist ex m r" "hist ex (deleteTrack k m) r = hist ex m r"
  "hist ex (snd (newRef i m)) r = hist ex m r"
  by (simp_all add: hist_def)

lemma hist_fresh: "alarm_inv ex m \<Longrightarrow> nextRef m \<le> r \<Longrightarrow> hist ex m r = []"
proof -
  assume "alarm_inv ex m" "nextRef m \<le> r"
  then have "\<forall>a \<in> set (ex @ pendingIO m). io_ref a < r" unfolding alarm_inv_def by (meson order_less_le_trans)
  then show ?thesis by (auto simp: hist_def filter_empty_conv)
qed

lemma wf_hist_Nil [simp]: "wf_hist []"
  by (simp add: wf_hist_def)

lemma wf_hist_snoc:
  assumes "list_all (\<lambda>a. io_status a = ''ACTIVE'' \<and> io_key a = k) L" "io_key a = k"
    and "io_status a = ''ACTIVE'' \<or> io_status a = ''CLEARED''" "length (filter announces L) \<le> 1"
    and "announces a \<longrightarrow> L = []"
  shows "wf_hist (L @ [a])"
  using assms by (cases L) (auto simp: wf_hist_def list_all_iff)

lemma wf_hist_prefix: "wf_hist (xs @ ys) \<Longrightarrow> wf_hist xs"
  by (cases ys rule: rev_cases; cases xs)
    (auto simp: wf_hist_def list_all_iff butlast_append dest: in_set_butlastD split: if_splits)

lemma drop_queued_subset: "a \<in> set (pendingIO (drop_queued tg d r m)) \<Longrightarrow> a \<in> set (pendingIO m)"
  by (simp add: drop_queued_def)

text \<open>Removing queued actions of an occurrence leaves a prefix of its history.\<close>

lemma hist_drop:
  assumes "live_ok ex m k t" "ad_ID d = snd k"
  shows "hist ex (drop_queued (fst k) d (tr_Event t) m) r =
    (if r = tr_Event t then filter (\<lambda>a. io_ref a = r) ex else hist ex m r)"
proof -
  have "\<forall>a \<in> set (pendingIO m). io_ref a = tr_Event t \<longrightarrow> io_tagID a = fst k \<and> ad_ID (io_def a) = ad_ID d"
    using assms by (auto simp: live_ok_def hist_def io_key_def)
  then show ?thesis
    by (auto simp: hist_def drop_queued_def filter_empty_conv intro!: filter_cong)
qed

lemma live_okD:
  assumes "alarm_inv ex m" "activeTracks m k = Some t"
  shows "live_ok ex m k t"
  using assms unfolding alarm_inv_def by blast

lemma live_ok_cong:
  assumes "live_ok ex m k t" "nextRef m \<le> nextRef m'" "hist ex m' (tr_Event t) = hist ex m (tr_Event t)"
  shows "live_ok ex m' k t"
  using assms by (auto simp: live_ok_def)

lemma live_event: "alarm_inv ex m \<Longrightarrow> activeTracks m k = Some t \<Longrightarrow> tr_Event t < nextRef m"
  using live_okD unfolding live_ok_def by blast

lemma event_inj:
  "alarm_inv ex m \<Longrightarrow> activeTracks m k = Some t \<Longrightarrow> activeTracks m k' = Some t' \<Longrightarrow> tr_Event t = tr_Event t' \<Longrightarrow> k = k'"
  unfolding alarm_inv_def by blast

text \<open>The invariant after a move that touches one key and one occurrence.\<close>

lemma alarm_inv_local:
  assumes inv: "alarm_inv ex m" and r: "r = nextRef m \<or> (\<exists>t. activeTracks m k = Some t \<and> tr_Event t = r)"
    and nr: "nextRef m \<le> nextRef m'" "r < nextRef m'"
    and other: "\<And>k'. k' \<noteq> k \<Longrightarrow> activeTracks m' k' = activeTracks m k'"
    and here: "\<And>t. activeTracks m' k = Some t \<Longrightarrow> tr_Event t = r \<and> live_ok ex m' k t"
    and hists: "\<And>r'. r' \<noteq> r \<Longrightarrow> hist ex m' r' = hist ex m r'" "wf_hist (hist ex m' r)"
    and refs: "\<And>a. a \<in> set (pendingIO m') \<Longrightarrow> a \<in> set (pendingIO m) \<or> io_ref a = r"
  shows "alarm_inv ex m'"
proof -
  have neq: "tr_Event t \<noteq> r" if "activeTracks m k' = Some t" "k' \<noteq> k" for k' t
    using r
  proof
    assume "\<exists>t. activeTracks m k = Some t \<and> tr_Event t = r"
    then show ?thesis using event_inj[OF inv that(1)] that(2) by metis
  qed (use live_event[OF inv that(1)] in simp)
  have live: "live_ok ex m' k' t" if "activeTracks m' k' = Some t" for k' t
  proof (cases "k' = k")
    case False
    then have t: "activeTracks m k' = Some t" using that other by simp
    show ?thesis
      by (rule live_ok_cong[OF live_okD[OF inv t] nr(1) hists(1)[OF neq[OF t False]]])
  qed (use that here in auto)
  moreover have "k1 = k2" if "activeTracks m' k1 = Some t1" "activeTracks m' k2 = Some t2" "tr_Event t1 = tr_Event t2" for k1 k2 t1 t2
    using that here neq other event_inj[OF inv, of k1 t1 k2 t2] by metis
  moreover have "wf_hist (hist ex m' r')" for r'
    using hists inv by (cases "r' = r") (auto simp: alarm_inv_def)
  moreover have "io_ref a < nextRef m'" if "a \<in> set (ex @ pendingIO m')" for a
  proof -
    have "a \<in> set (ex @ pendingIO m) \<or> io_ref a = r" using that refs by auto
    moreover have "a \<in> set (ex @ pendingIO m) \<Longrightarrow> io_ref a < nextRef m"
      using inv unfolding alarm_inv_def by blast
    ultimately show ?thesis using nr by (meson order_less_le_trans)
  qed
  ultimately show ?thesis unfolding alarm_inv_def by blast
qed

lemma alarm_inv_frame:
  "alarm_inv ex m \<Longrightarrow> activeTracks m' = activeTracks m \<Longrightarrow> pendingIO m' = pendingIO m \<Longrightarrow> nextRef m' = nextRef m \<Longrightarrow>
   alarm_inv ex m'"
  by (simp add: alarm_inv_def live_ok_def hist_def)

lemma queue_inv:
  assumes inv: "alarm_inv ex m" and t: "activeTracks m k = Some t"
    and a: "io_ref a = tr_Event t" "io_key a = k" "io_status a = ''ACTIVE'' \<or> io_status a = ''CLEARED''"
      "announces a \<longrightarrow> \<not> tr_Triggered t"
  shows "wf_hist (hist ex m (tr_Event t) @ [a])"
proof (rule wf_hist_snoc)
  have l: "live_ok ex m k t" by (rule live_okD[OF inv t])
  show "list_all (\<lambda>a. io_status a = ''ACTIVE'' \<and> io_key a = k) (hist ex m (tr_Event t))"
    using l by (auto simp: live_ok_def list_all_iff)
  show "length (filter announces (hist ex m (tr_Event t))) \<le> 1"
    using inv by (auto simp: alarm_inv_def wf_hist_def)
  show "announces a \<longrightarrow> hist ex m (tr_Event t) = []" using l a(4) by (auto simp: live_ok_def)
qed (use a in auto)

lemma live_move_inv: "live_move m m' \<Longrightarrow> alarm_inv ex m \<Longrightarrow> alarm_inv ex m'"
proof (induction rule: live_move.induct)
  case (frame m' m)
  show ?case by (rule alarm_inv_frame[OF frame.prems]) (use frame.hyps in auto)
next
  case (open_track m k t)
  show ?case
    by (rule alarm_inv_local[OF open_track.prems, where r = "nextRef m" and k = k])
      (use open_track hist_fresh[OF open_track.prems, of "nextRef m"] in \<open>auto simp: live_ok_def\<close>)
next
  case (fire m k t t' a)
  have l: "live_ok ex m k t" by (rule live_okD[OF fire.prems fire.hyps(1)])
  have w: "wf_hist (hist ex m (tr_Event t) @ [a])"
    by (rule queue_inv[OF fire.prems fire.hyps(1)]) (use fire.hyps in auto)
  show ?case
    by (rule alarm_inv_local[OF fire.prems, where r = "tr_Event t" and k = k])
      (use fire.hyps l w in \<open>auto simp: live_ok_def same_alarm_def\<close>)
next
  case (retry m k t t' a)
  have l: "live_ok ex m k t" by (rule live_okD[OF retry.prems retry.hyps(1)])
  have w: "wf_hist (hist ex m (tr_Event t) @ [a])"
    by (rule queue_inv[OF retry.prems retry.hyps(1)]) (use retry.hyps in \<open>auto simp: announces_def\<close>)
  show ?case
    by (rule alarm_inv_local[OF retry.prems, where r = "tr_Event t" and k = k])
      (use retry.hyps l w in \<open>auto simp: live_ok_def same_alarm_def\<close>)
next
  case (clear m k t a)
  have w: "wf_hist (hist ex m (tr_Event t) @ [a])"
    by (rule queue_inv[OF clear.prems clear.hyps(1)]) (use clear.hyps in \<open>auto simp: announces_def\<close>)
  show ?case
    by (rule alarm_inv_local[OF clear.prems, where r = "tr_Event t" and k = k])
      (use clear.hyps w live_event[OF clear.prems clear.hyps(1)] in auto)
next
  case (cancel m k t)
  show ?case
    by (rule alarm_inv_local[OF cancel.prems, where r = "tr_Event t" and k = k])
      (use cancel live_event[OF cancel.prems cancel.hyps(1)] in \<open>auto simp: alarm_inv_def\<close>)
qed

lemma move_inv: "move m m' \<Longrightarrow> alarm_inv ex m \<Longrightarrow> alarm_inv ex m'"
proof (induction rule: move.induct)
  case (live m m')
  then show ?case by (rule live_move_inv)
next
  case (discard m k t d)
  have l: "live_ok ex m k t" by (rule live_okD[OF discard.prems discard.hyps(1)])
  have "wf_hist (filter (\<lambda>a. io_ref a = tr_Event t) ex)"
    using discard.prems unfolding alarm_inv_def hist_def by (metis filter_append wf_hist_prefix)
  then show ?case
    by (intro alarm_inv_local[OF discard.prems, where r = "tr_Event t" and k = k])
      (use discard live_event[OF discard.prems discard.hyps(1)] in
        \<open>auto simp: hist_drop[OF l discard.hyps(2)] dest: drop_queued_subset\<close>)
next
  case (restore t k m i)
  show ?case
    by (rule alarm_inv_local[OF restore.prems, where r = "nextRef m" and k = k])
      (use restore hist_fresh[OF restore.prems, of "nextRef m"] in \<open>auto simp: live_ok_def\<close>)
qed

lemma live_moves_inv: "live_move\<^sup>*\<^sup>* m m' \<Longrightarrow> alarm_inv ex m \<Longrightarrow> alarm_inv ex m'"
  by (induction rule: rtranclp_induct) (auto intro: live_move_inv)

lemma moves_inv: "move\<^sup>*\<^sup>* m m' \<Longrightarrow> alarm_inv ex m \<Longrightarrow> alarm_inv ex m'"
  by (induction rule: rtranclp_induct) (auto intro: move_inv)

section \<open>Every transition is a sequence of moves\<close>

lemma moves_fold:
  "(\<And>x m. x \<in> set xs \<Longrightarrow> live_move\<^sup>*\<^sup>* m (f x m)) \<Longrightarrow> live_move\<^sup>*\<^sup>* m (fold f xs m)"
proof (induction xs arbitrary: m)
  case (Cons x xs)
  have "live_move\<^sup>*\<^sup>* m (f x m)" by (rule Cons.prems) simp
  also have "live_move\<^sup>*\<^sup>* (f x m) (fold f xs (f x m))" by (rule Cons.IH) (simp add: Cons.prems)
  finally show ?case by simp
qed simp

lemma move_frame: "activeTracks m' = activeTracks m \<Longrightarrow> pendingIO m' = pendingIO m \<Longrightarrow> nextRef m' = nextRef m \<Longrightarrow>
   refs m' = refs m \<Longrightarrow> mg_hasStore m' = mg_hasStore m \<Longrightarrow> live_move\<^sup>*\<^sup>* m m'"
  by (rule r_into_rtranclp) (rule live_move.frame)

lemma fst_newRef [simp]: "fst (newRef i m) = nextRef m"
  by (simp add: newRef_def)

lemmas one_move = live_move.open_track[THEN r_into_rtranclp[of live_move]] live_move.clear[THEN r_into_rtranclp[of live_move]]
  live_move.cancel[THEN r_into_rtranclp[of live_move]]
lemmas fire_move = live_move.fire[THEN r_into_rtranclp[of live_move]]
lemmas retry_move = live_move.retry[THEN r_into_rtranclp[of live_move]]

text \<open>Opening a track that fires at once.\<close>

lemma move_open_fire:
  assumes "activeTracks m k = None" "ad_ID (tr_Definition t) = snd k" "tr_Event t = nextRef m" "tr_Triggered t"
    and "io_status a = ''ACTIVE''" "io_ref a = nextRef m" "io_key a = k"
  shows "live_move\<^sup>*\<^sup>* m (queueIO a (putTrack k t (snd (newRef 0 m))))"
proof -
  let ?m = "putTrack k (t\<lparr>tr_Triggered := False\<rparr>) (snd (newRef 0 m))"
  have "live_move m ?m" using assms by (intro live_move.open_track) auto
  moreover have "live_move ?m (queueIO a (putTrack k t ?m))"
    by (rule live_move.fire[where t = "t\<lparr>tr_Triggered := False\<rparr>"]) (use assms in \<open>auto simp: same_alarm_def\<close>)
  moreover have "putTrack k t ?m = putTrack k t (snd (newRef 0 m))" by (simp add: putTrack_def)
  ultimately show ?thesis by (metis rtranclp.rtrancl_into_rtrancl r_into_rtranclp)
qed

lemma evaluate_def_moves: "live_move\<^sup>*\<^sup>* m (evaluate_def tagID al now v d m)"
  by (cases "activeTracks m (tagID, ad_ID d)")
    (auto simp: evaluate_def_def Let_def case_prod_unfold io_key_def intro!: move_open_fire one_move)

lemma applyHealth_moves: "live_move\<^sup>*\<^sup>* m (applyHealth tagID d viol v now m)"
  by (cases "activeTracks m (tagID, ad_ID d)")
    (auto simp: applyHealth_def case_prod_unfold io_key_def intro!: move_open_fire one_move)

lemma tickHealth_moves: "live_move\<^sup>*\<^sup>* m (tickHealth order now m)"
proof -
  have d: "live_move\<^sup>*\<^sup>* m (tickHealth_def now tg s d m)" for tg s d m
    using applyHealth_moves by (auto simp: tickHealth_def_def Let_def)
  have "live_move\<^sup>*\<^sup>* m (tickHealth_tag now tg m)" for tg m
  proof (cases "samples m tg")
    case None
    then show ?thesis by (auto simp: tickHealth_tag_def Let_def intro: move_frame)
  next
    case (Some s)
    then show ?thesis by (simp add: tickHealth_tag_def Let_def moves_fold d)
  qed
  then show ?thesis unfolding tickHealth_def by (intro moves_fold)
qed

lemma tick_track_move:
  assumes "alarm_inv ex m"
  shows "live_move\<^sup>*\<^sup>* m (tick_track now k m)"
proof (cases "activeTracks m k")
  case (Some t)
  then have "ad_ID (tr_Definition t) = snd k" using live_okD[OF assms] by (simp add: live_ok_def)
  note t = this Some tick_track_def Let_def io_key_def same_alarm_def
  show ?thesis
  proof (cases "tr_Triggered t")
    case True
    then show ?thesis by (auto simp: t intro!: retry_move[OF Some])
  next
    case False
    then show ?thesis by (auto simp: t intro!: fire_move[OF Some])
  qed
qed (simp add: tick_track_def)

lemma tick_tracks_moves:
  "alarm_inv ex m \<Longrightarrow> live_move\<^sup>*\<^sup>* m (fold (tick_track now) ks m)"
proof (induction ks arbitrary: m)
  case (Cons k ks)
  have "live_move\<^sup>*\<^sup>* m (tick_track now k m)" by (rule tick_track_move[OF Cons.prems])
  also have "live_move\<^sup>*\<^sup>* (tick_track now k m) (fold (tick_track now) ks (tick_track now k m))"
    by (rule Cons.IH[OF live_moves_inv[OF tick_track_move[OF Cons.prems] Cons.prems]])
  finally show ?case by simp
qed simp

lemma clean_track_move:
  assumes "alarm_inv ex m"
  shows "live_move\<^sup>*\<^sup>* m (clean_track nd k m)"
proof (cases "activeTracks m k")
  case (Some t)
  then have "ad_ID (tr_Definition t) = snd k" using live_okD[OF assms] by (simp add: live_ok_def)
  with Some show ?thesis
    by (auto simp: clean_track_def io_key_def intro!: one_move)
qed (simp add: clean_track_def)

lemma move_rtranclp_fold:
  "(\<And>x m. x \<in> set xs \<Longrightarrow> move\<^sup>*\<^sup>* m (f x m)) \<Longrightarrow> move\<^sup>*\<^sup>* m (fold f xs m)"
proof (induction xs arbitrary: m)
  case (Cons x xs)
  have "move\<^sup>*\<^sup>* m (f x m)" by (rule Cons.prems) simp
  also have "move\<^sup>*\<^sup>* (f x m) (fold f xs (f x m))" by (rule Cons.IH) (simp add: Cons.prems)
  finally show ?case by simp
qed simp

lemma restore_row_move: "move\<^sup>*\<^sup>* m (restore_row row m)"
proof (cases "find (\<lambda>d. ad_ID d = ar_defID row) (definitions m (ar_tagID row))")
  case (Some d)
  then have "ad_ID d = ar_defID row" by (auto simp: find_Some_iff)
  with Some show ?thesis
    by (auto simp: restore_row_def case_prod_unfold intro!: move.restore[THEN r_into_rtranclp[of move]])
qed (simp add: restore_row_def)

section \<open>The invariant of each operation\<close>

lemma evaluate_locked_moves:
  "live_move\<^sup>*\<^sup>* m (fst (evaluate_locked now1 now2 tagID al value quality atT life m))"
proof -
  have r: "live_move\<^sup>*\<^sup>* m (recordGoodSample tagID defs v now2 m)" for defs v
    by (rule move_frame) (simp_all add: recordGoodSample_def Let_def)
  have f: "live_move\<^sup>*\<^sup>* m' (fold (evaluate_def tagID al now v) defs m')" for now v defs m'
    by (intro moves_fold evaluate_def_moves)
  have "live_move\<^sup>*\<^sup>* m (fold (evaluate_def tagID al now v) defs (recordGoodSample tagID defs' v' now2 m))" for now v defs defs' v'
    by (rule rtranclp_trans[OF r f])
  then show ?thesis
    using r f by (auto simp: evaluate_locked_def Let_def split: option.split)
qed

lemma tick_locked_moves: "alarm_inv ex m \<Longrightarrow> live_move\<^sup>*\<^sup>* m (tick_locked ks tgs now m)"
  unfolding tick_locked_def by (rule rtranclp_trans[OF tick_tracks_moves tickHealth_moves])

lemma load_locked_moves: "alarm_inv ex m \<Longrightarrow> live_move\<^sup>*\<^sup>* m (load_locked rows ks m)"
proof -
  assume inv: "alarm_inv ex m"
  let ?m = "pruneHealthState (group_defs rows) (m\<lparr>definitions := group_defs rows\<rparr>)"
  have f: "live_move\<^sup>*\<^sup>* m ?m" by (rule move_frame) (simp_all add: pruneHealthState_def)
  have "live_move\<^sup>*\<^sup>* m' (fold (clean_track nd) ks m')" if "alarm_inv ex m'" for nd m'
    using that
  proof (induction ks arbitrary: m')
    case (Cons k ks)
    have "live_move\<^sup>*\<^sup>* m' (clean_track nd k m')" by (rule clean_track_move[OF Cons.prems])
    also have "live_move\<^sup>*\<^sup>* (clean_track nd k m') (fold (clean_track nd) ks (clean_track nd k m'))"
      by (rule Cons.IH[OF live_moves_inv[OF clean_track_move[OF Cons.prems] Cons.prems]])
    finally show ?case by simp
  qed simp
  from rtranclp_trans[OF f this[OF live_moves_inv[OF f inv]]] show ?thesis
    by (simp add: load_locked_def Let_def)
qed

lemmas evaluate_locked_inv = live_moves_inv[OF evaluate_locked_moves]
lemmas tick_locked_inv = live_moves_inv[OF tick_locked_moves]
lemmas load_locked_inv = live_moves_inv[OF load_locked_moves]

lemma load_active_inv: "alarm_inv ex m \<Longrightarrow> alarm_inv ex (loadActiveAlarmsFromDB result m)"
  using moves_inv[OF move_rtranclp_fold[of "the result" restore_row m]] restore_row_move
  by (auto simp: loadActiveAlarmsFromDB_def split: option.split)

section \<open>A batch of past readings\<close>

text \<open>
  While a batch is evaluated, an activation queued by the batch is the whole history of its
  occurrence as long as the occurrence lives: that is why announcing it at the end of the batch
  cannot announce it twice.
\<close>

definition batch_ok :: "alarmIO list \<Rightarrow> manager \<Rightarrow> alarmIO \<Rightarrow> bool" where
  "batch_ok ex m a \<longleftrightarrow> io_status a = ''ACTIVE'' \<longrightarrow>
     (\<forall>k t. activeTracks m k = Some t \<longrightarrow> tr_Event t = io_ref a \<longrightarrow> hist ex m (io_ref a) = [a])"

definition batch_inv :: "alarmIO list \<Rightarrow> nat \<Rightarrow> manager \<Rightarrow> bool" where
  "batch_inv ex n m \<longleftrightarrow> alarm_inv ex m \<and>
     (\<exists>old new. pendingIO m = old @ new \<and> length old \<le> n \<and> (\<forall>a \<in> set new. batch_ok ex m a))"

lemma batch_queue:
  assumes b: "batch_inv ex n m" and inv: "alarm_inv ex m'"
    and p: "pendingIO m' = pendingIO m @ [a]" and a: "batch_ok ex m' a"
    and t: "\<And>k t r. activeTracks m' k = Some t \<Longrightarrow> tr_Event t = r \<Longrightarrow> r \<noteq> io_ref a \<Longrightarrow> \<exists>t. activeTracks m k = Some t \<and> tr_Event t = r"
    and none: "\<And>k t. activeTracks m' k = Some t \<Longrightarrow> tr_Event t = io_ref a \<Longrightarrow> hist ex m (io_ref a) = []"
  shows "batch_inv ex n m'"
proof -
  obtain old new where on: "pendingIO m = old @ new" "length old \<le> n" "\<forall>a \<in> set new. batch_ok ex m a"
    using b by (auto simp: batch_inv_def)
  have "batch_ok ex m' c" if c: "c \<in> set new" for c
    unfolding batch_ok_def
  proof (intro impI allI)
    fix k t assume s: "io_status c = ''ACTIVE''" and k: "activeTracks m' k = Some t" "tr_Event t = io_ref c"
    have hc: "c \<in> set (hist ex m (io_ref c))" using c on(1) by (simp add: hist_def)
    then have "io_ref c \<noteq> io_ref a" using none[OF k(1)] k(2) by auto
    with t[OF k] on(3) c s have "hist ex m (io_ref c) = [c]" unfolding batch_ok_def by blast
    then show "hist ex m' (io_ref c) = [c]" using p \<open>io_ref c \<noteq> io_ref a\<close> by (simp add: hist_def)
  qed
  then show ?thesis unfolding batch_inv_def
    using inv on p a by (intro conjI exI[of _ old] exI[of _ "new @ [a]"]) auto
qed

lemma batch_shrink:
  assumes b: "batch_inv ex n m" and inv: "alarm_inv ex m'"
    and p: "pendingIO m' = filter P (pendingIO m)"
    and t: "\<And>k t. activeTracks m' k = Some t \<Longrightarrow> activeTracks m k = Some t"
    and h: "\<And>k t. activeTracks m' k = Some t \<Longrightarrow> hist ex m' (tr_Event t) = hist ex m (tr_Event t)"
  shows "batch_inv ex n m'"
proof -
  obtain old new where on: "pendingIO m = old @ new" "length old \<le> n" "\<forall>a \<in> set new. batch_ok ex m a"
    using b by (auto simp: batch_inv_def)
  have "batch_ok ex m' c" if "c \<in> set new" for c
    using that on(3) t h unfolding batch_ok_def by metis
  then show ?thesis unfolding batch_inv_def
    using inv on p order_trans[OF length_filter_le on(2)]
    by (intro conjI exI[of _ "filter P old"] exI[of _ "filter P new"]) auto
qed

lemma batch_open:
  assumes b: "batch_inv ex n m" and "activeTracks m k = None" "ad_ID (tr_Definition t) = snd k" "\<not> tr_Triggered t"
    "tr_Event t = nextRef m"
  shows "batch_inv ex n (putTrack k t (snd (newRef 0 m)))"
proof -
  have inv: "alarm_inv ex m" using b by (simp add: batch_inv_def)
  obtain old new where on: "pendingIO m = old @ new" "length old \<le> n" "\<forall>a \<in> set new. batch_ok ex m a"
    using b by (auto simp: batch_inv_def)
  have "batch_ok ex (putTrack k t (snd (newRef 0 m))) c" if c: "c \<in> set new" for c
  proof -
    have "io_ref c < nextRef m" using inv c on(1) by (auto simp: alarm_inv_def)
    then show ?thesis using on(3) c assms(5) by (auto simp: batch_ok_def)
  qed
  then show ?thesis unfolding batch_inv_def
    using on live_move_inv[OF live_move.open_track[OF assms(2-5)] inv] by auto
qed

lemma batch_fire:
  assumes b: "batch_inv ex n m" and k: "activeTracks m (tagID, ad_ID d) = Some track"
  shows "batch_inv ex n (series_fire now tagID al d atT track m)"
proof (cases "\<not> tr_Triggered track \<and> secs (ad_DelaySeconds d) \<le> Sub atT (tr_ActiveSince track)")
  case True
  have inv: "alarm_inv ex m" using b by (simp add: batch_inv_def)
  have l: "live_ok ex m (tagID, ad_ID d) track" by (rule live_okD[OF inv k])
  then have h: "hist ex m (tr_Event track) = []" using True by (simp add: live_ok_def)
  let ?f = "tr_ActiveSince track + secs (ad_DelaySeconds d)"
  let ?t = "track\<lparr>tr_Triggered := True, tr_FiredAt := ?f, tr_NextInsertRetry := now + alarmInsertRetryInterval\<rparr>"
  let ?a = "\<lparr>io_tagID = tagID, io_alias = al, io_lookupAlias = False, io_def = d,
     io_value = tr_InitialValue track, io_status = ''ACTIVE'', io_ref = tr_Event track,
     io_triggeredAt = ?f, io_clearedAt = 0, io_notify = False\<rparr>"
  have e: "series_fire now tagID al d atT track m = queueIO ?a (putTrack (tagID, ad_ID d) ?t m)"
    using True by (simp add: series_fire_def Let_def)
  have "alarm_inv ex (queueIO ?a (putTrack (tagID, ad_ID d) ?t m))"
    by (rule live_move_inv[OF live_move.fire[OF k] inv]) (use True l in \<open>auto simp: same_alarm_def io_key_def live_ok_def\<close>)
  then show ?thesis
    unfolding e by (rule batch_queue[OF b]) (use h k in \<open>auto simp: batch_ok_def split: if_splits\<close>)
qed (use b in \<open>auto simp: series_fire_def Let_def\<close>)

lemma batch_delete:
  assumes "batch_inv ex n m" "alarm_inv ex (deleteTrack k m)"
  shows "batch_inv ex n (deleteTrack k m)"
  by (rule batch_shrink[OF assms, where P = "\<lambda>_. True"]) (auto split: if_splits)

lemma seriesStep_batch:
  assumes b: "batch_inv ex n m"
  shows "batch_inv ex n (seriesStep now tagID al d atT v known m)"
proof -
  let ?k = "(tagID, ad_ID d)"
  have inv: "alarm_inv ex m" using b by (simp add: batch_inv_def)
  show ?thesis
  proof (cases "activeTracks m ?k")
    case None
    let ?t = "\<lparr>tr_Definition = d, tr_ActiveSince = atT, tr_Triggered = False, tr_InitialValue = v,
       tr_FiredAt = 0, tr_Event = nextRef m, tr_NextInsertRetry = 0\<rparr>"
    have "batch_inv ex n (putTrack ?k ?t (snd (newRef 0 m)))"
      by (rule batch_open[OF b None]) auto
    then show ?thesis
      using None b by (auto simp: seriesStep_def Let_def case_prod_unfold intro!: batch_fire)
  next
    case (Some t)
    have l: "live_ok ex m ?k t" by (rule live_okD[OF inv Some])
    have cancel: "batch_inv ex n (deleteTrack ?k m)" if "\<not> tr_Triggered t"
      by (rule batch_delete[OF b live_move_inv[OF live_move.cancel[OF Some that] inv]])
    have drop: "batch_inv ex n (deleteTrack ?k (drop_queued tagID d (tr_Event t) m))"
    proof (rule batch_shrink[OF b])
      show "alarm_inv ex (deleteTrack ?k (drop_queued tagID d (tr_Event t) m))"
        using move_inv[OF move.discard[OF Some, of d] inv] by simp
      show "pendingIO (deleteTrack ?k (drop_queued tagID d (tr_Event t) m)) =
          filter (\<lambda>q. io_tagID q \<noteq> tagID \<or> ad_ID (io_def q) \<noteq> ad_ID d \<or> io_ref q \<noteq> tr_Event t) (pendingIO m)"
        by (simp add: drop_queued_def)
      fix k' t' assume k': "activeTracks (deleteTrack ?k (drop_queued tagID d (tr_Event t) m)) k' = Some t'"
      then show "activeTracks m k' = Some t'" by (auto split: if_splits)
      then have "tr_Event t' \<noteq> tr_Event t" using event_inj[OF inv _ Some, of k' t'] k' by (auto split: if_splits)
      then show "hist ex (deleteTrack ?k (drop_queued tagID d (tr_Event t) m)) (tr_Event t') = hist ex m (tr_Event t')"
        using hist_drop[OF l, of d] by simp
    qed
    have clear: "batch_inv ex n (deleteTrack ?k (queueIO a m))"
      if "io_status a = ''CLEARED''" "io_ref a = tr_Event t" "io_key a = ?k" for a
    proof (rule batch_queue[OF b live_move_inv[OF live_move.clear[OF Some that] inv]])
      show "batch_ok ex (deleteTrack ?k (queueIO a m)) a" using that by (simp add: batch_ok_def)
      fix k' t' assume k': "activeTracks (deleteTrack ?k (queueIO a m)) k' = Some t'" "tr_Event t' = io_ref a"
      then show "hist ex m (io_ref a) = []" using event_inj[OF inv _ Some, of k' t'] that by (auto split: if_splits)
    qed (auto split: if_splits)
    show ?thesis
      using Some b cancel drop clear batch_fire[OF b Some] by (auto simp: seriesStep_def io_key_def)
  qed
qed

lemma mark_notify_keeps:
  "io_ref (mark_notify tg m a) = io_ref a" "io_status (mark_notify tg m a) = io_status a"
  "io_key (mark_notify tg m a) = io_key a"
  by (auto simp: mark_notify_def io_key_def split: option.split)

lemma mark_notify_live:
  "mark_notify tg m a \<noteq> a \<Longrightarrow> io_status a = ''ACTIVE'' \<and> (\<exists>k t. activeTracks m k = Some t \<and> tr_Event t = io_ref a)"
  by (auto simp: mark_notify_def split: option.splits if_splits)

text \<open>Announcing at the end of the batch changes the history of an occurrence only where it is one activation.\<close>

lemma hist_mark:
  assumes b: "batch_inv ex n m"
    and m': "m' = m\<lparr>pendingIO := take n (pendingIO m) @ map (mark_notify tg m) (drop n (pendingIO m))\<rparr>"
  shows "hist ex m' r = hist ex m r \<or> (\<exists>a. hist ex m r = [a] \<and> hist ex m' r = [mark_notify tg m a])"
proof -
  let ?f = "mark_notify tg m" and ?P = "\<lambda>a. io_ref a = r"
  let ?p = "pendingIO m"
  obtain old new where on: "?p = old @ new" "length old \<le> n" "\<forall>a \<in> set new. batch_ok ex m a"
    using b by (auto simp: batch_inv_def)
  have h: "hist ex m r = filter ?P (ex @ take n ?p) @ filter ?P (drop n ?p)"
    using append_take_drop_id[of n ?p] by (metis append_assoc filter_append hist_def)
  have fm: "filter ?P (map ?f xs) = map ?f (filter ?P xs)" for xs
    by (simp add: filter_map comp_def mark_notify_keeps)
  have h': "hist ex m' r = filter ?P (ex @ take n ?p) @ map ?f (filter ?P (drop n ?p))"
    by (simp add: hist_def m' fm)
  show ?thesis
  proof (cases "\<forall>a \<in> set (filter ?P (drop n ?p)). ?f a = a")
    case True
    then have "map ?f (filter ?P (drop n ?p)) = filter ?P (drop n ?p)" by (intro map_idI) auto
    then show ?thesis using h h' by simp
  next
    case False
    then obtain a where a: "a \<in> set (drop n ?p)" "io_ref a = r" "?f a \<noteq> a" by auto
    have "drop n ?p = drop (n - length old) new" using on(1,2) by simp
    then have "a \<in> set new" using a(1) by (metis in_set_dropD)
    then have "hist ex m r = [a]"
      using on(3) mark_notify_live[OF a(3)] a(2) unfolding batch_ok_def by blast
    moreover from this h a(1,2) have "filter ?P (drop n ?p) = [a]" "filter ?P (ex @ take n ?p) = []"
      by (auto simp: append_eq_Cons_conv filter_empty_conv)
    ultimately show ?thesis using h' by simp
  qed
qed

lemma batch_mark:
  assumes b: "batch_inv ex n m"
  shows "alarm_inv ex (m\<lparr>pendingIO := take n (pendingIO m) @ map (mark_notify tg m) (drop n (pendingIO m))\<rparr>)"
    (is "alarm_inv ex ?m")
proof -
  have inv: "alarm_inv ex m" using b by (simp add: batch_inv_def)
  note h = hist_mark[OF b refl, of tg]
  have wf: "wf_hist [mark_notify tg m a]" if "wf_hist [a]" for a
    using that by (simp add: wf_hist_def mark_notify_keeps)
  have live: "live_ok ex ?m k t" if "activeTracks ?m k = Some t" for k t
  proof -
    have l: "live_ok ex m k t" using that by (intro live_okD[OF inv]) simp
    from h[of "tr_Event t"] show ?thesis
      using l by (auto simp: live_ok_def mark_notify_keeps)
  qed
  moreover have "wf_hist (hist ex ?m r)" for r
    using h[of r] wf inv unfolding alarm_inv_def by metis
  moreover have "io_ref a < nextRef ?m" if "a \<in> set (ex @ pendingIO ?m)" for a
  proof -
    have "\<exists>c \<in> set (ex @ pendingIO m). io_ref c = io_ref a"
      using that by (auto simp: mark_notify_keeps dest: in_set_takeD in_set_dropD)
    moreover have "\<forall>c \<in> set (ex @ pendingIO m). io_ref c < nextRef m"
      using inv unfolding alarm_inv_def by blast
    ultimately have "io_ref a < nextRef m" by metis
    then show ?thesis by simp
  qed
  moreover have "k1 = k2" if "activeTracks ?m k1 = Some t1" "activeTracks ?m k2 = Some t2" "tr_Event t1 = tr_Event t2" for k1 k2 t1 t2
    using event_inj[OF inv] that by simp
  ultimately show ?thesis unfolding alarm_inv_def by blast
qed

lemma series_locked_inv:
  assumes "alarm_inv ex m"
  shows "alarm_inv ex (fst (series_locked now tagID al points quality m))"
proof -
  have rec: "alarm_inv ex (recordGoodSample tagID defs v now m)" for defs v
    by (rule alarm_inv_frame[OF assms]) (simp_all add: recordGoodSample_def Let_def)
  have start: "batch_inv ex (length (pendingIO m')) m'" if "alarm_inv ex m'" for m'
    unfolding batch_inv_def using that by (intro conjI exI[of _ "pendingIO m'"] exI[of _ "[]"]) auto
  have point: "batch_inv ex n (series_point now tagID al defs known p m')" if "batch_inv ex n m'" for n defs known p m'
  proof (cases "toFloat (fst p)")
    case (Some v)
    have "batch_inv ex n (fold (\<lambda>d m. if isHealthAlarm (ad_AlarmType d) then m
        else seriesStep now tagID al d (snd p) v (known (ad_ID d)) m) ds m')" for ds
      using that by (induction ds arbitrary: m') (simp_all add: seriesStep_batch)
    then show ?thesis using Some by (simp add: series_point_def)
  qed (use that in \<open>simp add: series_point_def\<close>)
  have points: "batch_inv ex n (fold (series_point now tagID al defs known) ps m')" if "batch_inv ex n m'" for n defs known ps m'
    using that by (induction ps arbitrary: m') (simp_all add: point)
  show ?thesis
    using assms by (auto simp: series_locked_def Let_def rec split: option.split intro!: batch_mark points start)
qed

section \<open>Interleaving of transitions and the drainer\<close>

text \<open>
  Any number of goroutines call the operations and at most one of them drains.  A step is
  one transition under the mutex, or the execution of the action at the head of the queue.  The second component
  lists the executed actions in order.
\<close>

inductive alarm_reach :: "'db alarmStore \<Rightarrow> 'db alarm_world \<Rightarrow> alarmIO list \<Rightarrow> bool" for S where
  start: "alarm_reach S \<lparr>w_mgr = empty_manager db callback gatewayID, w_db = dbs, w_events = []\<rparr> []"
| context_step: "alarm_reach S w ex \<Longrightarrow> alarm_reach S (w\<lparr>w_mgr := loadGatewayContext result (w_mgr w)\<rparr>) ex"
| restore_step: "alarm_reach S w ex \<Longrightarrow> alarm_reach S (w\<lparr>w_mgr := loadActiveAlarmsFromDB active (w_mgr w)\<rparr>) ex"
| load_step: "alarm_reach S w ex \<Longrightarrow> alarm_reach S (w\<lparr>w_mgr := load_locked rows order (w_mgr w)\<rparr>) ex"
| evaluate_step: "alarm_reach S w ex \<Longrightarrow> alarm_reach S
     (w\<lparr>w_mgr := fst (evaluate_locked now1 now2 tagID al value quality atT life (w_mgr w))\<rparr>) ex"
| series_step: "alarm_reach S w ex \<Longrightarrow> alarm_reach S
     (w\<lparr>w_mgr := fst (series_locked now tagID al points quality (w_mgr w))\<rparr>) ex"
| tick_step: "alarm_reach S w ex \<Longrightarrow> alarm_reach S (w\<lparr>w_mgr := tick_locked ks tgs now (w_mgr w)\<rparr>) ex"
| flag_step: "alarm_reach S w ex \<Longrightarrow> alarm_reach S (w\<lparr>w_mgr := (w_mgr w)\<lparr>ioDraining := b\<rparr>\<rparr>) ex"
| execute_step: "alarm_reach S w ex \<Longrightarrow> pendingIO (w_mgr w) = act # rest \<Longrightarrow>
     alarm_reach S (executeIO S now act (pop rest w)) (ex @ [act])"

lemma execute_inv:
  assumes "alarm_inv ex (w_mgr w)" "pendingIO (w_mgr w) = act # rest"
  shows "alarm_inv (ex @ [act]) (w_mgr (executeIO S now act (pop rest w)))"
proof -
  obtain i where i: "w_mgr (executeIO S now act (pop rest w)) = setRef (io_ref act) i (w_mgr (pop rest w))"
    using executeIO_mgr by blast
  have h: "hist (ex @ [act]) (w_mgr (executeIO S now act (pop rest w))) r = hist ex (w_mgr w) r" for r
    unfolding i using assms(2) by (simp add: hist_def pop_def)
  have e: "activeTracks (w_mgr (executeIO S now act (pop rest w))) = activeTracks (w_mgr w)"
    "nextRef (w_mgr (executeIO S now act (pop rest w))) = nextRef (w_mgr w)"
    "set ((ex @ [act]) @ pendingIO (w_mgr (executeIO S now act (pop rest w)))) = set (ex @ pendingIO (w_mgr w))"
    unfolding i using assms(2) by (simp_all add: pop_def)
  show ?thesis
    unfolding alarm_inv_def live_ok_def h e using assms(1)[unfolded alarm_inv_def live_ok_def] by blast
qed

lemma alarm_reach_inv: "alarm_reach S w ex \<Longrightarrow> alarm_inv ex (w_mgr w)"
proof (induction rule: alarm_reach.induct)
  case (start db callback gatewayID dbs)
  then show ?case by (simp add: alarm_inv_def empty_manager_def hist_def)
next
  case (context_step w ex result)
  then show ?case
    by (intro alarm_inv_frame[OF context_step.IH]) (simp_all add: loadGatewayContext_def split: option.split prod.split)
next
  case (flag_step w ex b)
  show ?case by (rule alarm_inv_frame[OF flag_step.IH]) simp_all
qed (auto intro: execute_inv load_active_inv load_locked_inv evaluate_locked_inv series_locked_inv tick_locked_inv)

end
