(* ===== verification/Alarm_Store.thy ===== *)
theory Alarm_Store
  imports Alarms
begin

text \<open>
  The durable side of the alarm pipeline: the table \<open>alarm_events\<close>, the four operations of
  \<open>sqlStore\<close> (\<open>internal/alarms/manager.go\<close>) and the database sweep of
  \<open>internal/alarms/comm_loss_sweep.go\<close>.  The locale \<open>alarm_store\<close> states what the manager
  relies on; \<open>sqlStore\<close> is shown to provide it.

  A database call may fail: \<open>db_fail n\<close> says whether the n-th call does, and a call that fails
  changes no row (the insert runs in a transaction).  Inserts of the drivers for one tag and
  definition are serialised by the advisory lock, so a call of theirs is one step.  The sweep takes no lock: its insert is two,
  the look for an open row and the write, and other connections may come between.
\<close>

section \<open>The table\<close>

record alarm_row =
  er_id :: int
  er_tag :: int
  er_def :: int
  er_status :: string
  er_type :: string
  er_severity :: string
  er_message :: string
  er_value :: "float64 option"
  er_trigger :: gotime
  er_clear :: "gotime option"

record alarm_db =
  db_rows :: "alarm_row list"
  db_next :: int
  db_alias :: "int \<rightharpoonup> string"
  db_fail :: "nat \<Rightarrow> bool"
  db_calls :: nat

definition open_row :: "int \<Rightarrow> int \<Rightarrow> alarm_row \<Rightarrow> bool" where
  "open_row tagID defID r \<longleftrightarrow> er_tag r = tagID \<and> er_def r = defID \<and>
     (er_status r = ''ACTIVE'' \<or> er_status r = ''ACKNOWLEDGED'') \<and> er_clear r = None"

definition closed_at :: "int \<Rightarrow> int \<Rightarrow> gotime \<Rightarrow> alarm_row \<Rightarrow> bool" where
  "closed_at tagID defID t r \<longleftrightarrow> er_tag r = tagID \<and> er_def r = defID \<and> er_trigger r = t \<and> er_clear r \<noteq> None"

text \<open>The first row of a non-empty list that is largest in a key (\<open>ORDER BY ... DESC LIMIT 1\<close>).\<close>

fun latest :: "(alarm_row \<Rightarrow> int) \<Rightarrow> alarm_row \<Rightarrow> alarm_row list \<Rightarrow> alarm_row" where
  "latest f r [] = r"
| "latest f r (x # xs) = latest f (if f r < f x then x else r) xs"

lemma latest_in: "latest f r xs \<in> set (r # xs)"
proof (induction xs arbitrary: r)
  case (Cons x xs)
  from Cons.IH[of r] Cons.IH[of x] show ?case by auto
qed simp

definition db_call :: "alarm_db \<Rightarrow> bool \<times> alarm_db" where
  "db_call db = (\<not> db_fail db (db_calls db), db\<lparr>db_calls := Suc (db_calls db)\<rparr>)"

definition add_row :: "alarm_row \<Rightarrow> alarm_db \<Rightarrow> alarm_db" where
  "add_row r db = db\<lparr>db_rows := db_rows db @ [r\<lparr>er_id := db_next db\<rparr>], db_next := db_next db + 1\<rparr>"

definition sql_InsertActive :: "int \<Rightarrow> alarm_def \<Rightarrow> float64 \<Rightarrow> gotime \<Rightarrow> alarm_db \<Rightarrow> int option \<times> alarm_db" where
  "sql_InsertActive tagID d v t db = (case db_call db of (ok, db) \<Rightarrow>
     if \<not> ok then (None, db)
     else case filter (open_row tagID (ad_ID d)) (db_rows db) of
            [] \<Rightarrow> (Some (db_next db), add_row \<lparr>er_id = 0, er_tag = tagID, er_def = ad_ID d, er_status = ''ACTIVE'',
                     er_type = ad_AlarmType d, er_severity = ad_Severity d, er_message = ad_Message d,
                     er_value = Some v, er_trigger = t, er_clear = None\<rparr> db)
          | r # rs \<Rightarrow> (Some (er_id (latest er_trigger r rs)), db))"

definition sql_InsertCleared :: "int \<Rightarrow> alarm_def \<Rightarrow> float64 \<Rightarrow> gotime \<Rightarrow> gotime \<Rightarrow> alarm_db \<Rightarrow> int option \<times> alarm_db" where
  "sql_InsertCleared tagID d v t c db = (case db_call db of (ok, db) \<Rightarrow>
     if \<not> ok then (None, db)
     else case filter (closed_at tagID (ad_ID d) t) (db_rows db) of
            [] \<Rightarrow> (Some (db_next db), add_row \<lparr>er_id = 0, er_tag = tagID, er_def = ad_ID d, er_status = ''CLEARED'',
                     er_type = ad_AlarmType d, er_severity = ad_Severity d, er_message = ad_Message d,
                     er_value = Some v, er_trigger = t, er_clear = Some c\<rparr> db)
          | r # rs \<Rightarrow> (Some (er_id (latest er_id r rs)), db))"

definition sql_MarkCleared :: "int \<Rightarrow> gotime \<Rightarrow> alarm_db \<Rightarrow> bool \<times> alarm_db" where
  "sql_MarkCleared eventID c db = (case db_call db of (ok, db) \<Rightarrow>
     if \<not> ok then (False, db)
     else (True, db\<lparr>db_rows := map (\<lambda>r. if er_id r = eventID
             then r\<lparr>er_status := ''CLEARED'', er_clear := Some c\<rparr> else r) (db_rows db)\<rparr>))"

definition sql_TagAlias :: "int \<Rightarrow> alarm_db \<Rightarrow> string option \<times> alarm_db" where
  "sql_TagAlias tagID db = (case db_call db of (ok, db) \<Rightarrow> (if ok then db_alias db tagID else None, db))"

definition sqlStore :: "alarm_db alarmStore" where
  "sqlStore = \<lparr>InsertActive = sql_InsertActive, InsertCleared = sql_InsertCleared,
     MarkCleared = sql_MarkCleared, TagAlias = sql_TagAlias\<rparr>"

section \<open>What executing an action does to the store\<close>

text \<open>The event ids and the database are all that the durable part of an action reads or writes.\<close>

definition exec_core :: "'db alarmStore \<Rightarrow> gotime \<Rightarrow> alarmIO \<Rightarrow> (nat \<Rightarrow> int) \<times> 'db \<Rightarrow> (nat \<Rightarrow> int) \<times> 'db" where
  "exec_core S now act c =
     (let ids = fst c; r = io_ref act;
          db = (if io_lookupAlias act then snd (TagAlias S (io_tagID act) (snd c)) else snd c);
          clearedAt = (if IsZero (io_clearedAt act) then now else io_clearedAt act)
      in if io_status act = ''ACTIVE'' then
           (if 0 < ids r then (ids, db)
            else let res = InsertActive S (io_tagID act) (io_def act) (io_value act) (io_triggeredAt act) db
                 in (case fst res of None \<Rightarrow> ids | Some i \<Rightarrow> ids(r := i), snd res))
         else if io_status act = ''CLEARED'' then
           (if 0 < ids r then (ids, snd (MarkCleared S (ids r) clearedAt db))
            else let res = InsertCleared S (io_tagID act) (io_def act) (io_value act) (io_triggeredAt act) clearedAt db
                 in (case fst res of None \<Rightarrow> ids | Some i \<Rightarrow> ids(r := i), snd res))
         else (ids, db))"

definition core :: "'db alarm_world \<Rightarrow> (nat \<Rightarrow> int) \<times> 'db" where
  "core w = (refs (w_mgr w), w_db w)"

lemma core_simps [simp]: "fst (core w) = refs (w_mgr w)" "snd (core w) = w_db w"
  by (simp_all add: core_def)

lemma persistActive_core: "core (persistActive S act w) =
    (if 0 < refs (w_mgr w) (io_ref act) then core w
     else let res = InsertActive S (io_tagID act) (io_def act) (io_value act) (io_triggeredAt act) (w_db w)
          in (case fst res of None \<Rightarrow> refs (w_mgr w) | Some i \<Rightarrow> (refs (w_mgr w))(io_ref act := i), snd res))"
  by (simp add: persistActive_def core_def setRef_def Let_def split: prod.split option.split)

lemma persistCleared_core: "core (persistCleared S now act w) =
    (let clearedAt = (if IsZero (io_clearedAt act) then now else io_clearedAt act) in
     if 0 < refs (w_mgr w) (io_ref act)
     then (refs (w_mgr w), snd (MarkCleared S (refs (w_mgr w) (io_ref act)) clearedAt (w_db w)))
     else let res = InsertCleared S (io_tagID act) (io_def act) (io_value act) (io_triggeredAt act) clearedAt (w_db w)
          in (case fst res of None \<Rightarrow> refs (w_mgr w) | Some i \<Rightarrow> (refs (w_mgr w))(io_ref act := i), snd res))"
  by (simp add: persistCleared_def core_def setRef_def Let_def split: prod.split option.split)

lemma executeIO_core:
  "core (executeIO S now act w) = (if mg_hasStore (w_mgr w) then exec_core S now act (core w) else core w)"
proof -
  let ?l = "if io_lookupAlias act \<and> mg_hasStore (w_mgr w)
     then case TagAlias S (io_tagID act) (w_db w) of
            (None, db) \<Rightarrow> (io_alias act, w\<lparr>w_db := db\<rparr>)
          | (Some a, db) \<Rightarrow> (a, w\<lparr>w_db := db\<rparr>)
     else (io_alias act, w)"
  obtain al w1 where l: "?l = (al, w1)" by (cases ?l) auto
  then have w1: "w_mgr w1 = w_mgr w"
    "w_db w1 = (if io_lookupAlias act \<and> mg_hasStore (w_mgr w) then snd (TagAlias S (io_tagID act) (w_db w)) else w_db w)"
    by (auto split: if_splits prod.splits option.splits)
  have "core (executeIO S now act w) = core (if mg_hasStore (w_mgr w1)
      then (if io_status act = ''ACTIVE'' then persistActive S act w1
            else if io_status act = ''CLEARED'' then persistCleared S now act w1 else w1) else w1)"
    unfolding executeIO_def l by (simp add: Let_def core_def)
  moreover have "core w1 = (refs (w_mgr w), w_db w1)" by (simp add: core_def w1)
  ultimately show ?thesis
    by (auto simp: exec_core_def persistActive_core persistCleared_core w1 Let_def simp flip: core_def
        split: option.split)
qed

section \<open>The contract of a store\<close>

text \<open>
  \<open>openRows db k\<close> are the ids of the open rows of a tag and definition.  An insert that
  succeeds leaves exactly the row it returns open, closing a row removes it, and nothing
  else changes what is open.  The operations keep the store well-formed: at most one open
  row per tag and definition.
\<close>

locale alarm_store =
  fixes S :: "'db alarmStore" and openRows :: "'db \<Rightarrow> track_key \<Rightarrow> int set" and ok :: "'db \<Rightarrow> bool"
  assumes open_unique: "ok db \<Longrightarrow> i \<in> openRows db k \<Longrightarrow> j \<in> openRows db k \<Longrightarrow> i = j"
    and open_disjoint: "ok db \<Longrightarrow> i \<in> openRows db k \<Longrightarrow> i \<in> openRows db k' \<Longrightarrow> k = k'"
    and insert_active: "ok db \<Longrightarrow> InsertActive S tg d v t db = (Some i, db') \<Longrightarrow>
        ok db' \<and> 0 < i \<and> openRows db' = (openRows db)((tg, ad_ID d) := {i})"
    and insert_active_fail: "ok db \<Longrightarrow> InsertActive S tg d v t db = (None, db') \<Longrightarrow> ok db' \<and> openRows db' = openRows db"
    and insert_cleared: "ok db \<Longrightarrow> InsertCleared S tg d v t c db = (res, db') \<Longrightarrow>
        ok db' \<and> openRows db' = openRows db \<and> (\<forall>i. res = Some i \<longrightarrow> 0 < i)"
    and mark_cleared: "ok db \<Longrightarrow> MarkCleared S i c db = (True, db') \<Longrightarrow>
        ok db' \<and> openRows db' = (\<lambda>k. openRows db k - {i})"
    and mark_cleared_fail: "ok db \<Longrightarrow> MarkCleared S i c db = (False, db') \<Longrightarrow> ok db' \<and> openRows db' = openRows db"
    and tag_alias: "ok db \<Longrightarrow> TagAlias S tg db = (a, db') \<Longrightarrow> ok db' \<and> openRows db' = openRows db"
begin

text \<open>Executing an action keeps the store well-formed.\<close>

lemma exec_core_ok:
  assumes ok: "ok (snd c)"
  shows "ok (snd (exec_core S now act c))"
proof -
  let ?db = "if io_lookupAlias act then snd (TagAlias S (io_tagID act) (snd c)) else snd c"
  have db: "ok ?db" using ok tag_alias[OF ok] by (cases "TagAlias S (io_tagID act) (snd c)") auto
  have a: "ok (snd (InsertActive S tg d v t ?db))" for tg d v t
    using insert_active[OF db] insert_active_fail[OF db] by (cases "InsertActive S tg d v t ?db"; cases "fst (InsertActive S tg d v t ?db)") auto
  have c: "ok (snd (InsertCleared S tg d v t cl ?db))" for tg d v t cl
    using insert_cleared[OF db] by (cases "InsertCleared S tg d v t cl ?db") auto
  have m: "ok (snd (MarkCleared S i cl ?db))" for i cl
    using mark_cleared[OF db] mark_cleared_fail[OF db] by (cases "MarkCleared S i cl ?db"; cases "fst (MarkCleared S i cl ?db)") auto
  show ?thesis using db a c m by (simp add: exec_core_def Let_def)
qed

lemma executeIO_ok: "ok (w_db w) \<Longrightarrow> ok (w_db (executeIO S now act w))"
  using executeIO_core[of S now act w] exec_core_ok[of "core w" now act]
  by (simp add: core_def split: if_splits) (metis snd_conv)+

end

section \<open>The table satisfies the contract\<close>

definition sql_open :: "alarm_db \<Rightarrow> track_key \<Rightarrow> int set" where
  "sql_open db k = er_id ` {r \<in> set (db_rows db). open_row (fst k) (snd k) r}"

definition sql_ok :: "alarm_db \<Rightarrow> bool" where
  "sql_ok db \<longleftrightarrow> distinct (map er_id (db_rows db)) \<and> (\<forall>r \<in> set (db_rows db). 0 < er_id r \<and> er_id r < db_next db) \<and>
     0 < db_next db \<and> (\<forall>r \<in> set (db_rows db). \<forall>r' \<in> set (db_rows db). \<forall>tg df.
        open_row tg df r \<longrightarrow> open_row tg df r' \<longrightarrow> r = r')"

lemma sql_ok_unique:
  "sql_ok db \<Longrightarrow> r \<in> set (db_rows db) \<Longrightarrow> r' \<in> set (db_rows db) \<Longrightarrow> open_row tg df r \<Longrightarrow> open_row tg df r' \<Longrightarrow> r = r'"
  unfolding sql_ok_def by blast

lemma db_call_simps [simp]:
  "sql_ok (snd (db_call db)) = sql_ok db" "sql_open (snd (db_call db)) = sql_open db"
  "db_rows (snd (db_call db)) = db_rows db" "db_next (snd (db_call db)) = db_next db"
  by (simp_all add: db_call_def sql_ok_def sql_open_def fun_eq_iff)

lemma sql_row_eq: "sql_ok db \<Longrightarrow> r \<in> set (db_rows db) \<Longrightarrow> r' \<in> set (db_rows db) \<Longrightarrow> er_id r = er_id r' \<Longrightarrow> r = r'"
  by (auto simp: sql_ok_def distinct_map dest: inj_onD)

lemma open_row_key: "open_row tg df r \<Longrightarrow> open_row tg' df' r \<Longrightarrow> tg = tg' \<and> df = df'"
  by (auto simp: open_row_def)

lemma add_row_ok:
  assumes "sql_ok db" "\<And>tg df r'. open_row tg df r \<Longrightarrow> r' \<in> set (db_rows db) \<Longrightarrow> \<not> open_row tg df r'"
  shows "sql_ok (add_row r db)"
proof -
  have o: "open_row a b (r\<lparr>er_id := i\<rparr>) = open_row a b r" for a b i by (simp add: open_row_def)
  show ?thesis
    using assms unfolding sql_ok_def add_row_def
    by (auto simp: o distinct_map)
qed

lemma add_row_open:
  "sql_open (add_row r db) k = sql_open db k \<union> (if open_row (fst k) (snd k) r then {db_next db} else {})"
proof -
  have "open_row a b (r\<lparr>er_id := i\<rparr>) = open_row a b r" for a b i by (simp add: open_row_def)
  moreover have "{x \<in> set (db_rows (add_row r db)). open_row (fst k) (snd k) x} =
      {x \<in> set (db_rows db). open_row (fst k) (snd k) x} \<union>
      {x. x = r\<lparr>er_id := db_next db\<rparr> \<and> open_row (fst k) (snd k) x}"
    by (auto simp: add_row_def)
  ultimately show ?thesis unfolding sql_open_def by (auto simp: image_Un)
qed

lemma sql_open_empty: "filter (open_row tg df) (db_rows db) = [] \<Longrightarrow> sql_open db (tg, df) = {}"
  by (auto simp: sql_open_def filter_empty_conv)

lemma sql_open_some:
  assumes "sql_ok db" "filter (open_row tg df) (db_rows db) = r # rs"
  shows "sql_open db (tg, df) = {er_id (latest f r rs)} \<and> 0 < er_id (latest f r rs)"
proof -
  let ?r = "latest f r rs"
  have "?r \<in> set (filter (open_row tg df) (db_rows db))" using latest_in[of f r rs] assms(2) by simp
  then have r: "?r \<in> set (db_rows db)" "open_row tg df ?r" by auto
  have "x = ?r" if "x \<in> set (db_rows db)" "open_row tg df x" for x
    by (rule sql_ok_unique[OF assms(1) that(1) r(1) that(2) r(2)])
  then have "{x \<in> set (db_rows db). open_row tg df x} = {?r}" using r by blast
  moreover have "0 < er_id ?r" using assms(1) r by (auto simp: sql_ok_def)
  ultimately show ?thesis by (simp add: sql_open_def)
qed

text \<open>Closing a row.\<close>

definition close_rows :: "(alarm_row \<Rightarrow> bool) \<Rightarrow> gotime \<Rightarrow> alarm_db \<Rightarrow> alarm_db" where
  "close_rows P c db = db\<lparr>db_rows := map (\<lambda>r. if P r then r\<lparr>er_status := ''CLEARED'', er_clear := Some c\<rparr> else r) (db_rows db)\<rparr>"

lemma close_rows_row:
  assumes "x \<in> set (db_rows (close_rows P c db))" "open_row tg df x"
  shows "x \<in> set (db_rows db) \<and> \<not> P x"
  using assms by (auto simp: close_rows_def open_row_def split: if_splits)

lemma close_rows_ids: "map er_id (db_rows (close_rows P c db)) = map er_id (db_rows db)" "db_next (close_rows P c db) = db_next db"
  by (simp_all add: close_rows_def comp_def if_distrib cong: if_cong)

lemma close_rows_ok:
  assumes "sql_ok db"
  shows "sql_ok (close_rows P c db)"
proof -
  have "set (map er_id (db_rows (close_rows P c db))) = set (map er_id (db_rows db))"
    by (simp only: close_rows_ids)
  then have ids: "er_id ` set (db_rows (close_rows P c db)) = er_id ` set (db_rows db)" by simp
  have "0 < er_id r \<and> er_id r < db_next db" if "r \<in> set (db_rows (close_rows P c db))" for r
  proof -
    have "er_id r \<in> er_id ` set (db_rows db)" using that ids by blast
    then show ?thesis using assms by (auto simp: sql_ok_def)
  qed
  moreover have "r = r'" if "r \<in> set (db_rows (close_rows P c db))" "r' \<in> set (db_rows (close_rows P c db))"
    "open_row tg df r" "open_row tg df r'" for r r' tg df
    using sql_ok_unique[OF assms] close_rows_row that by metis
  ultimately show ?thesis using assms unfolding sql_ok_def close_rows_ids by blast
qed

lemma close_rows_open:
  "sql_open (close_rows P c db) k = er_id ` {r \<in> set (db_rows db). open_row (fst k) (snd k) r \<and> \<not> P r}"
proof -
  have "x \<in> set (db_rows (close_rows P c db))" if "x \<in> set (db_rows db)" "\<not> P x" for x
    using that by (auto simp: close_rows_def image_iff intro!: bexI[of _ x])
  then have "{x \<in> set (db_rows (close_rows P c db)). open_row (fst k) (snd k) x} =
      {r \<in> set (db_rows db). open_row (fst k) (snd k) r \<and> \<not> P r}"
    using close_rows_row by blast
  then show ?thesis by (simp add: sql_open_def)
qed

lemma sql_MarkCleared_eq:
  "sql_MarkCleared i c db = (if fst (db_call db) then (True, close_rows (\<lambda>r. er_id r = i) c (snd (db_call db)))
     else (False, snd (db_call db)))"
  by (simp add: sql_MarkCleared_def close_rows_def case_prod_unfold)

lemma sql_mark_open: "sql_open (close_rows (\<lambda>r. er_id r = i) c db) k = sql_open db k - {i}"
  unfolding close_rows_open unfolding sql_open_def by auto

lemma sql_insert_active:
  assumes ok: "sql_ok db" and r: "sql_InsertActive tg d v t db = (Some i, db')"
  shows "sql_ok db' \<and> 0 < i \<and> sql_open db' = (sql_open db)((tg, ad_ID d) := {i})"
proof (cases "filter (open_row tg (ad_ID d)) (db_rows db)")
  case Nil
  let ?r = "\<lparr>er_id = 0, er_tag = tg, er_def = ad_ID d, er_status = ''ACTIVE'', er_type = ad_AlarmType d,
     er_severity = ad_Severity d, er_message = ad_Message d, er_value = Some v, er_trigger = t, er_clear = None\<rparr>"
  have o: "open_row a b ?r \<longleftrightarrow> a = tg \<and> b = ad_ID d" for a b by (auto simp: open_row_def)
  have e: "db' = add_row ?r (snd (db_call db))" "i = db_next db"
    using r Nil by (auto simp: sql_InsertActive_def case_prod_unfold split: if_splits)
  have "sql_ok db'" unfolding e
    by (rule add_row_ok) (use ok Nil in \<open>auto simp: o filter_empty_conv\<close>)
  moreover have "sql_open db' k = ((sql_open db)((tg, ad_ID d) := {i})) k" for k
    using sql_open_empty[OF Nil] unfolding e by (cases k) (auto simp: add_row_open o)
  moreover have "0 < i" using ok e by (simp add: sql_ok_def)
  ultimately show ?thesis by auto
next
  case (Cons x xs)
  then have "db' = snd (db_call db)" "i = er_id (latest er_trigger x xs)"
    using r by (auto simp: sql_InsertActive_def case_prod_unfold split: if_splits)
  then show ?thesis using sql_open_some[OF ok Cons, of er_trigger] ok by (auto simp: fun_upd_idem)
qed

lemma sql_insert_cleared:
  assumes ok: "sql_ok db" and r: "sql_InsertCleared tg d v t c db = (res, db')"
  shows "sql_ok db' \<and> sql_open db' = sql_open db \<and> (\<forall>i. res = Some i \<longrightarrow> 0 < i)"
proof (cases "fst (db_call db)")
  case True
  show ?thesis
  proof (cases "filter (closed_at tg (ad_ID d) t) (db_rows db)")
    case Nil
    let ?r = "\<lparr>er_id = 0, er_tag = tg, er_def = ad_ID d, er_status = ''CLEARED'', er_type = ad_AlarmType d,
       er_severity = ad_Severity d, er_message = ad_Message d, er_value = Some v, er_trigger = t, er_clear = Some c\<rparr>"
    have o: "\<not> open_row a b ?r" for a b by (simp add: open_row_def)
    have e: "db' = add_row ?r (snd (db_call db))" "res = Some (db_next db)"
      using r Nil True by (auto simp: sql_InsertCleared_def case_prod_unfold)
    have "sql_ok db'" unfolding e by (rule add_row_ok) (use ok in \<open>auto simp: o\<close>)
    moreover have "sql_open db' k = sql_open db k" for k unfolding e by (simp add: add_row_open o)
    moreover have "0 < db_next db" using ok by (simp add: sql_ok_def)
    ultimately show ?thesis using e by auto
  next
    case (Cons x xs)
    have "latest er_id x xs \<in> set (filter (closed_at tg (ad_ID d) t) (db_rows db))"
      unfolding Cons by (rule latest_in)
    then have "0 < er_id (latest er_id x xs)" using ok by (auto simp: sql_ok_def)
    then show ?thesis using r Cons True ok by (auto simp: sql_InsertCleared_def case_prod_unfold)
  qed
qed (use r ok in \<open>auto simp: sql_InsertCleared_def case_prod_unfold\<close>)

interpretation sql: alarm_store sqlStore sql_open sql_ok
proof unfold_locales
  fix db :: alarm_db and i j :: int and k k' :: track_key
  assume ok: "sql_ok db"
  show "i \<in> sql_open db k \<Longrightarrow> j \<in> sql_open db k \<Longrightarrow> i = j"
    using sql_ok_unique[OF ok] unfolding sql_open_def by blast
  assume "i \<in> sql_open db k" "i \<in> sql_open db k'"
  then obtain r where "open_row (fst k) (snd k) r" "open_row (fst k') (snd k') r"
    using sql_row_eq[OF ok] unfolding sql_open_def by blast
  then show "k = k'" using open_row_key by (metis prod.expand)
next
  fix db db' :: alarm_db and tg i :: int and d :: alarm_def and v :: float64 and t c :: gotime
  assume ok: "sql_ok db"
  show "InsertActive sqlStore tg d v t db = (Some i, db') \<Longrightarrow>
      sql_ok db' \<and> 0 < i \<and> sql_open db' = (sql_open db)((tg, ad_ID d) := {i})"
    using sql_insert_active[OF ok] by (simp add: sqlStore_def)
  show "InsertActive sqlStore tg d v t db = (None, db') \<Longrightarrow> sql_ok db' \<and> sql_open db' = sql_open db"
    using ok by (auto simp: sqlStore_def sql_InsertActive_def case_prod_unfold split: list.splits if_splits)
  show "MarkCleared sqlStore i c db = (True, db') \<Longrightarrow> sql_ok db' \<and> sql_open db' = (\<lambda>k. sql_open db k - {i})"
    using ok by (auto simp: sqlStore_def sql_MarkCleared_eq close_rows_ok sql_mark_open fun_eq_iff split: if_splits)
  show "MarkCleared sqlStore i c db = (False, db') \<Longrightarrow> sql_ok db' \<and> sql_open db' = sql_open db"
    using ok by (auto simp: sqlStore_def sql_MarkCleared_eq split: if_splits)
  show "InsertCleared sqlStore tg d v t c db = (res, db') \<Longrightarrow>
      sql_ok db' \<and> sql_open db' = sql_open db \<and> (\<forall>i. res = Some i \<longrightarrow> 0 < i)" for res
    using sql_insert_cleared[OF ok] by (simp add: sqlStore_def)
  show "TagAlias sqlStore tg db = (a, db') \<Longrightarrow> sql_ok db' \<and> sql_open db' = sql_open db" for a
    using ok by (auto simp: sqlStore_def sql_TagAlias_def case_prod_unfold)
qed

section \<open>The sweep from the database clock\<close>

record sweep_rule =
  sr_tag :: int
  sr_def :: int
  sr_severity :: string
  sr_message :: string
  sr_delay :: int

text \<open>
  \<open>newest tagID\<close> is the answer of the query for the newest sample of the tag: an error (\<open>None\<close>), no sample
  (\<open>Some None\<close>) or its time; \<open>created\<close> the creation time of the tag, when it can be read.  \<open>dbnow\<close>
  is the clock of the database.
\<close>

definition sweep_since :: "(int \<Rightarrow> gotime option option) \<Rightarrow> (int \<Rightarrow> gotime option) \<Rightarrow> int \<Rightarrow> gotime option" where
  "sweep_since newest created tagID = (case newest tagID of
     None \<Rightarrow> None | Some None \<Rightarrow> created tagID | Some (Some t) \<Rightarrow> Some t)"

text \<open>
  The statement for one rule up to its write: the row it is about to insert, after it found none open.  What a row holds does not
  depend on the table.
\<close>

definition sweep_row :: "gotime \<Rightarrow> sweep_rule \<Rightarrow> alarm_row" where
  "sweep_row now r = \<lparr>er_id = 0, er_tag = sr_tag r, er_def = sr_def r, er_status = ''ACTIVE'', er_type = ''comm_loss'',
     er_severity = sr_severity r,
     er_message = (if sr_message r = [] then ''no data received within the configured interval'' else sr_message r),
     er_value = None, er_trigger = now, er_clear = None\<rparr>"

definition sweep_look :: "(int \<Rightarrow> gotime option option) \<Rightarrow> (int \<Rightarrow> gotime option) \<Rightarrow> gotime \<Rightarrow> gotime \<Rightarrow>
    sweep_rule \<Rightarrow> alarm_db \<Rightarrow> alarm_db \<times> alarm_row option" where
  "sweep_look newest created now dbnow r db = (case sweep_since newest created (sr_tag r) of
     None \<Rightarrow> (db, None)
   | Some t \<Rightarrow>
       (case db_call db of (ok, db) \<Rightarrow>
          if \<not> ok then (db, None)
          else if Sub now t < secs (sr_delay r) then (close_rows (open_row (sr_tag r) (sr_def r)) dbnow db, None)
          else if filter (open_row (sr_tag r) (sr_def r)) (db_rows db) \<noteq> [] then (db, None)
          else (db, Some (sweep_row now r))))"

text \<open>\<open>during r\<close> is what the other connections do to the table between the look and the write for \<open>r\<close>.\<close>

definition sweep_one :: "(int \<Rightarrow> gotime option option) \<Rightarrow> (int \<Rightarrow> gotime option) \<Rightarrow> gotime \<Rightarrow> gotime \<Rightarrow>
    (sweep_rule \<Rightarrow> alarm_db \<Rightarrow> alarm_db) \<Rightarrow> sweep_rule \<Rightarrow> alarm_db \<Rightarrow> alarm_db" where
  "sweep_one newest created now dbnow during r db =
     (case sweep_look newest created now dbnow r db of
        (db, None) \<Rightarrow> db
      | (db, Some row) \<Rightarrow> add_row row (during r db))"

text \<open>\<open>between r\<close> is what they do before the statement for \<open>r\<close>.\<close>

definition commLossSweep :: "sweep_rule list option \<Rightarrow> (int \<Rightarrow> gotime option option) \<Rightarrow> (int \<Rightarrow> gotime option) \<Rightarrow>
    gotime \<Rightarrow> gotime \<Rightarrow> (sweep_rule \<Rightarrow> alarm_db \<Rightarrow> alarm_db) \<Rightarrow> (sweep_rule \<Rightarrow> alarm_db \<Rightarrow> alarm_db) \<Rightarrow> alarm_db \<Rightarrow> bool \<times> alarm_db" where
  "commLossSweep result newest created now dbnow between during db = (case result of
     None \<Rightarrow> (False, db)
   | Some rows \<Rightarrow> (True, fold (\<lambda>r db. sweep_one newest created now dbnow during r (between r db)) (filter (\<lambda>r. 0 < sr_delay r) rows) db))"

text \<open>Well-formed tables stay so when the others keep them so and open no row of the rule between its look and its write.\<close>

definition keeps_out :: "(sweep_rule \<Rightarrow> alarm_db \<Rightarrow> alarm_db) \<Rightarrow> bool" where
  "keeps_out during \<longleftrightarrow> (\<forall>r d. sql_ok d \<longrightarrow> sql_ok (during r d) \<and>
     (sql_open d (sr_tag r, sr_def r) = {} \<longrightarrow> sql_open (during r d) (sr_tag r, sr_def r) = {}))"

lemma open_none: "sql_open d (tg, df) = {} \<longleftrightarrow> (\<forall>x \<in> set (db_rows d). \<not> open_row tg df x)"
  by (auto simp: sql_open_def)

lemma open_sweep_row: "open_row tg df (sweep_row now r) \<longleftrightarrow> tg = sr_tag r \<and> df = sr_def r"
  by (auto simp: open_row_def sweep_row_def)

lemma sweep_one_ok:
  assumes "keeps_out during" "sql_ok db"
  shows "sql_ok (sweep_one newest created now dbnow during r db)"
proof -
  obtain d row where l: "sweep_look newest created now dbnow r db = (d, row)" by fastforce
  have d: "sql_ok d" using l assms(2) by (auto simp: sweep_look_def case_prod_unfold split: option.splits if_splits intro!: close_rows_ok)
  show ?thesis
  proof (cases row)
    case (Some x)
    then have x: "x = sweep_row now r" "filter (open_row (sr_tag r) (sr_def r)) (db_rows d) = []"
      using l by (auto simp: sweep_look_def case_prod_unfold split: option.splits if_splits)
    then have k: "sql_ok (during r d)" "sql_open (during r d) (sr_tag r, sr_def r) = {}"
      using assms(1) d sql_open_empty[OF x(2)] unfolding keeps_out_def by blast+
    have "sql_ok (add_row x (during r d))"
      using k(2) unfolding x(1) by (intro add_row_ok[OF k(1)]) (auto simp: open_sweep_row open_none)
    then show ?thesis by (simp add: sweep_one_def l Some)
  qed (simp add: sweep_one_def l d)
qed

text \<open>A sweep that runs alone.\<close>

abbreviation sweep_alone :: "(int \<Rightarrow> gotime option option) \<Rightarrow> (int \<Rightarrow> gotime option) \<Rightarrow> gotime \<Rightarrow> gotime \<Rightarrow> sweep_rule \<Rightarrow> alarm_db \<Rightarrow> alarm_db" where
  "sweep_alone newest created now dbnow \<equiv> sweep_one newest created now dbnow (\<lambda>_ d. d)"

lemma sweep_one_other:
  assumes "k \<noteq> (sr_tag r, sr_def r)"
  shows "sql_open (sweep_alone newest created now dbnow r db) k = sql_open db k"
proof -
  have o: "open_row (fst k) (snd k) x \<Longrightarrow> \<not> open_row (sr_tag r) (sr_def r) x" for x
    using assms open_row_key by (metis prod.collapse)
  then have "{x \<in> set (db_rows db). open_row (fst k) (snd k) x \<and> \<not> open_row (sr_tag r) (sr_def r) x} =
      {x \<in> set (db_rows db). open_row (fst k) (snd k) x}" by blast
  then have c: "sql_open (close_rows (open_row (sr_tag r) (sr_def r)) dbnow (snd (db_call db))) k = sql_open db k"
    unfolding close_rows_open by (simp add: sql_open_def)
  have "\<not> open_row (fst k) (snd k) x" if "er_tag x = sr_tag r" "er_def x = sr_def r" for x
    using that assms by (auto simp: open_row_def prod_eq_iff)
  then show ?thesis
    by (simp add: sweep_one_def sweep_look_def sweep_row_def case_prod_unfold add_row_open c split: option.split)
qed

lemma sweep_one_here:
  assumes "\<And>n. \<not> db_fail db n" "sweep_since newest created (sr_tag r) = Some t"
  shows "sql_open (sweep_alone newest created now dbnow r db) (sr_tag r, sr_def r) \<noteq> {} \<longleftrightarrow> secs (sr_delay r) \<le> Sub now t"
proof -
  have ok: "fst (db_call db)" using assms(1) by (simp add: db_call_def)
  have closed: "sql_open (close_rows (open_row (sr_tag r) (sr_def r)) dbnow (snd (db_call db))) (sr_tag r, sr_def r) = {}"
    by (simp only: close_rows_open) auto
  have "open_row (er_tag x) (er_def x) x" if "er_status x = ''ACTIVE''" "er_clear x = None" for x
    using that by (simp add: open_row_def)
  then have added: "sql_open (add_row x (snd (db_call db))) (er_tag x, er_def x) \<noteq> {}"
    if "er_status x = ''ACTIVE''" "er_clear x = None" for x
    using that by (simp add: add_row_open)
  have kept: "sql_open db (sr_tag r, sr_def r) \<noteq> {}" if "filter (open_row (sr_tag r) (sr_def r)) (db_rows db) \<noteq> []"
    using that by (auto simp: sql_open_def filter_empty_conv)
  let ?x = "\<lparr>er_id = 0, er_tag = sr_tag r, er_def = sr_def r, er_status = ''ACTIVE'', er_type = ''comm_loss'',
     er_severity = sr_severity r, er_message = (if sr_message r = [] then ''no data received within the configured interval''
       else sr_message r), er_value = None, er_trigger = now, er_clear = None\<rparr>"
  show ?thesis
    using assms(2) ok closed kept added[of ?x]
    by (auto simp: sweep_one_def sweep_look_def sweep_row_def case_prod_unfold not_less)
qed

lemma sweep_one_fail: "db_fail (sweep_alone newest created now dbnow r db) = db_fail db"
  by (auto simp: sweep_one_def sweep_look_def sweep_row_def case_prod_unfold db_call_def close_rows_def add_row_def split: option.split)

lemma sweep_ok:
  assumes "keeps_out during" "\<And>r d. sql_ok d \<Longrightarrow> sql_ok (between r d)"
  shows "sql_ok db \<Longrightarrow> sql_ok (fold (\<lambda>r db. sweep_one newest created now dbnow during r (between r db)) rs db)"
  by (induction rs arbitrary: db) (auto intro: sweep_one_ok[OF assms(1)] assms(2))

lemma sweep_open:
  assumes "\<And>n. \<not> db_fail db n" "distinct (map (\<lambda>r. (sr_tag r, sr_def r)) rs)" "r \<in> set rs"
    "sweep_since newest created (sr_tag r) = Some t"
  shows "sql_open (fold (sweep_alone newest created now dbnow) rs db) (sr_tag r, sr_def r) \<noteq> {} \<longleftrightarrow> secs (sr_delay r) \<le> Sub now t"
  using assms(1-3)
proof (induction rs arbitrary: db)
  case (Cons x xs)
  let ?db = "sweep_alone newest created now dbnow x db"
  have nf: "\<not> db_fail ?db n" for n using Cons.prems(1) by (simp add: sweep_one_fail)
  show ?case
  proof (cases "r = x")
    case True
    have "sql_open (fold (sweep_alone newest created now dbnow) ys d) k = sql_open d k"
      if "k \<notin> set (map (\<lambda>r. (sr_tag r, sr_def r)) ys)" for ys d k
      using that by (induction ys arbitrary: d) (auto simp: sweep_one_other)
    then show ?thesis using True Cons.prems sweep_one_here[OF Cons.prems(1) assms(4)] by simp
  next
    case False
    then show ?thesis using Cons.IH[OF nf] Cons.prems by simp
  qed
qed simp

end
