(* ===== verification/Alarm_Sync.thy ===== *)
theory Alarm_Sync
  imports Alarm_Lifecycle Alarm_Store
begin

text \<open>
  The alarm log and the alarm engine agree.  While every database call succeeds, the open
  rows of the table are the announced alarms of the manager as soon as the queue is empty.
  The statement is proved for any reliable store, and holds for the table of
  \<open>sqlStore\<close> with a database that is up.
\<close>

declare split_paired_All [simp del] split_paired_Ex [simp del]

locale reliable_store = alarm_store +
  assumes insert_total: "ok db \<Longrightarrow> \<exists>i. fst (InsertActive S tg d v t db) = Some i"
    and mark_total: "ok db \<Longrightarrow> fst (MarkCleared S i c db)"

section \<open>Live operation\<close>

text \<open>
  Readings, ticks and rule changes on a manager that was started on \<open>db0\<close>, interleaved with the drainer.
\<close>

inductive live_reach :: "'db alarmStore \<Rightarrow> 'db \<Rightarrow> 'db alarm_world \<Rightarrow> alarmIO list \<Rightarrow> bool" for S db0 where
  start: "live_reach S db0 \<lparr>w_mgr = empty_manager True callback gatewayID, w_db = db0, w_events = []\<rparr> []"
| context_step: "live_reach S db0 w ex \<Longrightarrow> live_reach S db0 (w\<lparr>w_mgr := loadGatewayContext result (w_mgr w)\<rparr>) ex"
| load_step: "live_reach S db0 w ex \<Longrightarrow> live_reach S db0 (w\<lparr>w_mgr := load_locked rows order (w_mgr w)\<rparr>) ex"
| evaluate_step: "live_reach S db0 w ex \<Longrightarrow> live_reach S db0
     (w\<lparr>w_mgr := fst (evaluate_locked now1 now2 tagID al value quality atT life (w_mgr w))\<rparr>) ex"
| tick_step: "live_reach S db0 w ex \<Longrightarrow> live_reach S db0 (w\<lparr>w_mgr := tick_locked ks tgs now (w_mgr w)\<rparr>) ex"
| flag_step: "live_reach S db0 w ex \<Longrightarrow> live_reach S db0 (w\<lparr>w_mgr := (w_mgr w)\<lparr>ioDraining := b\<rparr>\<rparr>) ex"
| execute_step: "live_reach S db0 w ex \<Longrightarrow> pendingIO (w_mgr w) = act # rest \<Longrightarrow>
     live_reach S db0 (executeIO S now act (pop rest w)) (ex @ [act])"

lemma live_reach_alarm_reach: "live_reach S db0 w ex \<Longrightarrow> alarm_reach S w ex"
  by (induction rule: live_reach.induct) (auto intro: alarm_reach.intros)

text \<open>The event ids and the database after the queue has been drained, with \<open>clk\<close> the times of the executions.\<close>

fun execs :: "'db alarmStore \<Rightarrow> (nat \<Rightarrow> gotime) \<Rightarrow> alarmIO list \<Rightarrow> (nat \<Rightarrow> int) \<times> 'db \<Rightarrow> (nat \<Rightarrow> int) \<times> 'db" where
  "execs S clk [] c = c"
| "execs S clk (a # as) c = execs S (\<lambda>n. clk (Suc n)) as (exec_core S (clk 0) a c)"

lemma execs_append: "execs S clk (as @ [a]) c = exec_core S (clk (length as)) a (execs S clk as c)"
  by (induction as arbitrary: clk c) simp_all

context reliable_store
begin

definition track_ok :: "(nat \<Rightarrow> int) \<times> 'a \<Rightarrow> track_key \<Rightarrow> activeAlarmTrack option \<Rightarrow> bool" where
  "track_ok c k to = (case to of
     None \<Rightarrow> openRows (snd c) k = {}
   | Some t \<Rightarrow> if tr_Triggered t then 0 < fst c (tr_Event t) \<and> openRows (snd c) k = {fst c (tr_Event t)}
               else fst c (tr_Event t) = 0 \<and> openRows (snd c) k = {})"

definition settled :: "(track_key \<rightharpoonup> activeAlarmTrack) \<Rightarrow> nat \<Rightarrow> (nat \<Rightarrow> int) \<times> 'a \<Rightarrow> bool" where
  "settled T n c \<longleftrightarrow> ok (snd c) \<and> (\<forall>r \<ge> n. fst c r = 0) \<and> (\<forall>k. track_ok c k (T k))"

definition sync :: "manager \<Rightarrow> 'a \<Rightarrow> bool" where
  "sync m db \<longleftrightarrow> mg_hasStore m \<and> (\<forall>r \<ge> nextRef m. refs m r = 0) \<and>
     (\<forall>clk. settled (activeTracks m) (nextRef m) (execs S clk (pendingIO m) (refs m, db)))"

text \<open>What an activation and a clearing do to a settled store.\<close>

lemma alias_step:
  assumes "ok db"
  shows "ok (if b then snd (TagAlias S tg db) else db) \<and> openRows (if b then snd (TagAlias S tg db) else db) = openRows db"
  using assms tag_alias[OF assms, of tg] by (cases "TagAlias S tg db") auto

lemma exec_active_new:
  assumes "ok (snd c)" "io_status a = ''ACTIVE''" "fst c (io_ref a) = 0"
  obtains i db where "exec_core S now a c = ((fst c)(io_ref a := i), db)" "0 < i" "ok db"
    "openRows db = (openRows (snd c))(io_key a := {i})"
proof -
  let ?db = "if io_lookupAlias a then snd (TagAlias S (io_tagID a) (snd c)) else snd c"
  have db: "ok ?db" "openRows ?db = openRows (snd c)" using alias_step[OF assms(1)] by auto
  obtain i db' where i: "InsertActive S (io_tagID a) (io_def a) (io_value a) (io_triggeredAt a) ?db = (Some i, db')"
    using insert_total[OF db(1)] by (metis prod.collapse)
  show thesis
    by (rule that[of i db']) (use insert_active[OF db(1) i] db(2) assms(2,3) i in
      \<open>auto simp: exec_core_def Let_def io_key_def\<close>)
qed

lemma exec_active_again:
  assumes "ok (snd c)" "io_status a = ''ACTIVE''" "0 < fst c (io_ref a)"
  obtains db where "exec_core S now a c = (fst c, db)" "ok db" "openRows db = openRows (snd c)"
  by (rule that[of "if io_lookupAlias a then snd (TagAlias S (io_tagID a) (snd c)) else snd c"])
    (use alias_step[OF assms(1)] assms(2,3) in \<open>auto simp: exec_core_def Let_def\<close>)

lemma exec_cleared:
  assumes "ok (snd c)" "io_status a = ''CLEARED''"
  obtains f db where "exec_core S now a c = (f, db)" "ok db" "\<forall>r. r \<noteq> io_ref a \<longrightarrow> f r = fst c r"
    "openRows db = (\<lambda>k. openRows (snd c) k - (if 0 < fst c (io_ref a) then {fst c (io_ref a)} else {}))"
proof -
  let ?db = "if io_lookupAlias a then snd (TagAlias S (io_tagID a) (snd c)) else snd c"
  let ?t = "if IsZero (io_clearedAt a) then now else io_clearedAt a"
  have db: "ok ?db" "openRows ?db = openRows (snd c)" using alias_step[OF assms(1)] by auto
  show thesis
  proof (cases "0 < fst c (io_ref a)")
    case True
    obtain db' where m: "MarkCleared S (fst c (io_ref a)) ?t ?db = (True, db')"
      using mark_total[OF db(1)] by (metis prod.collapse)
    show ?thesis
      by (rule that[of "fst c" db']) (use mark_cleared[OF db(1) m] db(2) assms(2) True m in
        \<open>auto simp: exec_core_def Let_def\<close>)
  next
    case False
    obtain res db' where i: "InsertCleared S (io_tagID a) (io_def a) (io_value a) (io_triggeredAt a) ?t ?db = (res, db')"
      by fastforce
    show ?thesis
      by (rule that[of "case res of None \<Rightarrow> fst c | Some i \<Rightarrow> (fst c)(io_ref a := i)" db'])
        (use insert_cleared[OF db(1) i] db(2) assms(2) False i in
          \<open>auto simp: exec_core_def Let_def split: option.split\<close>)
  qed
qed

lemma settled_other:
  assumes "settled T n c" "T k = Some t" "\<And>r. r \<noteq> tr_Event t \<Longrightarrow> f r = fst c r"
    and "\<And>k' t'. T k' = Some t' \<Longrightarrow> k' \<noteq> k \<Longrightarrow> tr_Event t' \<noteq> tr_Event t"
    and "\<And>k'. k' \<noteq> k \<Longrightarrow> openRows db k' = openRows (snd c) k'" and "k' \<noteq> k"
  shows "track_ok (f, db) k' (T k')"
proof (cases "T k'")
  case None
  have "track_ok c k' (T k')" using assms(1) by (simp add: settled_def)
  then show ?thesis using None assms(5)[OF assms(6)] by (simp add: track_ok_def)
next
  case (Some t')
  have "track_ok c k' (T k')" using assms(1) by (simp add: settled_def)
  moreover have "f (tr_Event t') = fst c (tr_Event t')" using assms(3) assms(4)[OF Some assms(6)] by simp
  ultimately show ?thesis using Some assms(5)[OF assms(6)] by (simp add: track_ok_def)
qed

lemma sync_fire:
  assumes s: "settled T n c" and k: "T k = Some t" "\<not> tr_Triggered t" "same_alarm k t t'" "tr_Event t < n"
    and a: "io_status a = ''ACTIVE''" "io_ref a = tr_Event t" "io_key a = k"
    and inj: "\<And>k' t'. T k' = Some t' \<Longrightarrow> k' \<noteq> k \<Longrightarrow> tr_Event t' \<noteq> tr_Event t"
  shows "settled (T(k \<mapsto> t')) n (exec_core S now a c)"
proof -
  have ok: "ok (snd c)" and z: "fst c (io_ref a) = 0"
    using s k a(2) by (auto simp: settled_def track_ok_def dest: spec[of _ k])
  obtain i db where e: "exec_core S now a c = ((fst c)(io_ref a := i), db)" "0 < i" "ok db"
    "openRows db = (openRows (snd c))(io_key a := {i})"
    using exec_active_new[OF ok a(1) z] .
  have "track_ok ((fst c)(io_ref a := i), db) k' ((T(k \<mapsto> t')) k')" for k'
  proof (cases "k' = k")
    case True
    then show ?thesis using e k a by (simp add: track_ok_def same_alarm_def)
  next
    case False
    then show ?thesis
      using settled_other[OF s k(1) _ inj _ False, where f = "(fst c)(io_ref a := i)" and db = db] e(4) a by simp
  qed
  then show ?thesis using s e k(4) a(2) by (auto simp: settled_def)
qed

lemma sync_retry:
  assumes s: "settled T n c" and k: "T k = Some t" "tr_Triggered t" "same_alarm k t t'"
    and a: "io_status a = ''ACTIVE''" "io_ref a = tr_Event t"
  shows "settled (T(k \<mapsto> t')) n (exec_core S now a c)"
proof -
  have tk: "track_ok c k' (T k')" for k' using s by (simp add: settled_def)
  have ok: "ok (snd c)" and z: "0 < fst c (io_ref a)"
    using s tk[of k] k a(2) by (auto simp: settled_def track_ok_def)
  obtain db where e: "exec_core S now a c = (fst c, db)" "ok db" "openRows db = openRows (snd c)"
    using exec_active_again[OF ok a(1) z] .
  have "track_ok (fst c, db) k' ((T(k \<mapsto> t')) k')" for k'
    using tk[of k'] k e(3) by (auto simp: track_ok_def same_alarm_def split: option.split)
  then show ?thesis using s e by (simp add: settled_def)
qed

lemma sync_clear:
  assumes s: "settled T n c" and k: "T k = Some t" "tr_Event t < n"
    and a: "io_status a = ''CLEARED''" "io_ref a = tr_Event t"
    and inj: "\<And>k' t'. T k' = Some t' \<Longrightarrow> k' \<noteq> k \<Longrightarrow> tr_Event t' \<noteq> tr_Event t"
  shows "settled (T(k := None)) n (exec_core S now a c)"
proof -
  have tk: "track_ok c k' (T k')" for k' using s by (simp add: settled_def)
  have ok: "ok (snd c)" using s by (simp add: settled_def)
  let ?i = "fst c (io_ref a)"
  obtain f db where e: "exec_core S now a c = (f, db)" "ok db" "\<forall>r. r \<noteq> io_ref a \<longrightarrow> f r = fst c r"
    "openRows db = (\<lambda>k. openRows (snd c) k - (if 0 < ?i then {?i} else {}))"
    by (rule exec_cleared[OF ok a(1), of now])
  have k0: "openRows db k = {}" using tk[of k] k(1) e(4) a(2) by (auto simp: track_ok_def split: if_splits)
  have "openRows db k' = openRows (snd c) k'" if "k' \<noteq> k" for k'
  proof (cases "0 < ?i")
    case True
    then have "?i \<in> openRows (snd c) k" using tk[of k] k(1) a(2) by (auto simp: track_ok_def split: if_splits)
    then have "?i \<notin> openRows (snd c) k'" using open_disjoint[OF ok] that by blast
    then show ?thesis using e(4) by simp
  qed (simp add: e(4))
  then have "track_ok (f, db) k' ((T(k := None)) k')" for k'
    using settled_other[OF s k(1) _ inj, where f = f and db = db and k' = k'] e(3) a(2) k0
    by (cases "k' = k") (auto simp: track_ok_def[of _ k None])
  moreover have "\<forall>r \<ge> n. f r = 0"
    using e(3) k(2) a(2) s by (auto simp: settled_def)
  ultimately show ?thesis using e(1,2) by (simp add: settled_def)
qed

lemma sync_move:
  assumes "live_move m m'" "sync m db" "alarm_inv ex m"
  shows "sync m' db"
  using assms
proof (induction rule: live_move.induct)
  case (frame m' m)
  then show ?case by (simp add: sync_def)
next
  case (open_track m k t)
  have r: "(refs m)(nextRef m := 0) = refs m" using open_track.prems by (auto simp: sync_def)
  have "settled ((activeTracks m)(k \<mapsto> t)) (Suc (nextRef m)) c" if s: "settled (activeTracks m) (nextRef m) c" for c
    using s open_track.hyps unfolding settled_def by (auto simp: track_ok_def dest: spec[of _ k])
  then show ?case using open_track.prems r by (simp add: sync_def newRef_def putTrack_def)
next
  case (fire m k t t' a)
  note l = live_event[OF fire.prems(2) fire.hyps(1)]
  have "settled ((activeTracks m)(k \<mapsto> t')) (nextRef m) (exec_core S now a c)"
    if "settled (activeTracks m) (nextRef m) c" for c now
    by (rule sync_fire[OF that fire.hyps(1-3) l fire.hyps(4-6)]) (use event_inj[OF fire.prems(2) fire.hyps(1)] in metis)
  then show ?case using fire.prems(1) by (simp add: sync_def execs_append queueIO_def putTrack_def)
next
  case (retry m k t t' a)
  have "settled ((activeTracks m)(k \<mapsto> t')) (nextRef m) (exec_core S now a c)"
    if "settled (activeTracks m) (nextRef m) c" for c now
    by (rule sync_retry[OF that retry.hyps(1-4,6)])
  then show ?case using retry.prems(1) by (simp add: sync_def execs_append queueIO_def putTrack_def)
next
  case (clear m k t a)
  note l = live_event[OF clear.prems(2) clear.hyps(1)]
  have "settled ((activeTracks m)(k := None)) (nextRef m) (exec_core S now a c)"
    if "settled (activeTracks m) (nextRef m) c" for c now
    by (rule sync_clear[OF that clear.hyps(1) l clear.hyps(2,3)]) (use event_inj[OF clear.prems(2) clear.hyps(1)] in metis)
  then show ?case using clear.prems(1) by (simp add: sync_def execs_append queueIO_def deleteTrack_def)
next
  case (cancel m k t)
  have "settled ((activeTracks m)(k := None)) (nextRef m) c" if "settled (activeTracks m) (nextRef m) c" for c
    using that cancel.hyps unfolding settled_def by (auto simp: track_ok_def dest: spec[of _ k])
  then show ?case using cancel.prems(1) by (simp add: sync_def deleteTrack_def)
qed

lemma sync_moves:
  assumes "live_move\<^sup>*\<^sup>* m m'" "sync m db" "alarm_inv ex m"
  shows "sync m' db"
  using assms by (induction rule: rtranclp_induct) (auto intro: sync_move live_moves_inv)

lemma sync_execute:
  assumes s: "sync (w_mgr w) (w_db w)" and p: "pendingIO (w_mgr w) = act # rest" and inv: "alarm_inv ex (w_mgr w)"
  shows "sync (w_mgr (executeIO S now act (pop rest w))) (w_db (executeIO S now act (pop rest w)))"
proof -
  let ?w = "executeIO S now act (pop rest w)"
  obtain i where i: "w_mgr ?w = setRef (io_ref act) i (w_mgr (pop rest w))" using executeIO_mgr by blast
  have c: "core ?w = exec_core S now act (refs (w_mgr w), w_db w)"
    using s executeIO_core[of S now act "pop rest w"] by (simp add: sync_def pop_def core_def)
  have "io_ref act < nextRef (w_mgr w)" using inv p by (auto simp: alarm_inv_def)
  then have r: "\<forall>r \<ge> nextRef (w_mgr ?w). refs (w_mgr ?w) r = 0"
    using s unfolding i by (auto simp: sync_def setRef_def pop_def)
  have "settled (activeTracks (w_mgr w)) (nextRef (w_mgr w)) (execs S clk rest (core ?w))" for clk
  proof -
    have "settled (activeTracks (w_mgr w)) (nextRef (w_mgr w))
        (execs S (\<lambda>n. case n of 0 \<Rightarrow> now | Suc n \<Rightarrow> clk n) (act # rest) (refs (w_mgr w), w_db w))"
      using s p unfolding sync_def by metis
    then show ?thesis by (simp add: c)
  qed
  moreover have "pendingIO (w_mgr ?w) = rest" "activeTracks (w_mgr ?w) = activeTracks (w_mgr w)"
    "nextRef (w_mgr ?w) = nextRef (w_mgr w)" "mg_hasStore (w_mgr ?w) = mg_hasStore (w_mgr w)"
    unfolding i by (simp_all add: pop_def)
  ultimately show ?thesis using s r by (simp add: sync_def core_def)
qed

lemma live_sync:
  assumes "live_reach S db0 w ex" "ok db0" "openRows db0 = (\<lambda>_. {})"
  shows "sync (w_mgr w) (w_db w)"
  using assms(1)
proof (induction rule: live_reach.induct)
  case (start callback gatewayID)
  then show ?case using assms(2,3) by (simp add: sync_def empty_manager_def settled_def track_ok_def)
next
  case (execute_step w ex act rest now)
  then show ?case by (intro sync_execute[OF execute_step.IH]) (auto intro: alarm_reach_inv live_reach_alarm_reach)
next
  case (context_step w ex result)
  have "live_move (w_mgr w) (loadGatewayContext result (w_mgr w))"
    by (rule live_move.frame) (auto simp: loadGatewayContext_def split: option.split)
  then show ?case using context_step by (auto intro: sync_move alarm_reach_inv live_reach_alarm_reach)
next
  case (load_step w ex rows order)
  note inv = alarm_reach_inv[OF live_reach_alarm_reach[OF load_step.hyps]]
  show ?case using sync_moves[OF load_locked_moves[OF inv] load_step.IH inv] by simp
next
  case (evaluate_step w ex now1 now2 tagID al val quality atT life)
  note inv = alarm_reach_inv[OF live_reach_alarm_reach[OF evaluate_step.hyps]]
  show ?case using sync_moves[OF evaluate_locked_moves evaluate_step.IH inv] by simp
next
  case (tick_step w ex ks tgs now)
  note inv = alarm_reach_inv[OF live_reach_alarm_reach[OF tick_step.hyps]]
  show ?case using sync_moves[OF tick_locked_moves[OF inv] tick_step.IH inv] by simp
next
  case (flag_step w ex b)
  then show ?case by (simp add: sync_def)
qed

lemma log_agrees:
  assumes "live_reach S db0 w ex" "ok db0" "openRows db0 = (\<lambda>_. {})" "pendingIO (w_mgr w) = []"
  shows "openRows (w_db w) k \<noteq> {} \<longleftrightarrow> (\<exists>t. activeTracks (w_mgr w) k = Some t \<and> tr_Triggered t)"
proof -
  have "settled (activeTracks (w_mgr w)) (nextRef (w_mgr w)) (refs (w_mgr w), w_db w)"
    using live_sync[OF assms(1-3)] assms(4) by (simp add: sync_def)
  then have "track_ok (refs (w_mgr w), w_db w) k (activeTracks (w_mgr w) k)" by (simp add: settled_def)
  then show ?thesis by (auto simp: track_ok_def split: option.splits if_splits)
qed

end

section \<open>The database table is reliable while the database is up\<close>

definition sql_up :: "alarm_db \<Rightarrow> bool" where
  "sql_up db \<longleftrightarrow> sql_ok db \<and> (\<forall>n. \<not> db_fail db n)"

lemma sql_fail_kept:
  "db_fail (snd (sql_InsertActive tg d v t db)) = db_fail db"
  "db_fail (snd (sql_InsertCleared tg d v t c db)) = db_fail db"
  "db_fail (snd (sql_MarkCleared i c db)) = db_fail db"
  "db_fail (snd (sql_TagAlias tg db)) = db_fail db"
  by (simp_all add: sql_InsertActive_def sql_InsertCleared_def sql_MarkCleared_def sql_TagAlias_def
      db_call_def add_row_def case_prod_unfold split: list.split)

interpretation sql_up: reliable_store sqlStore sql_open sql_up
proof unfold_locales
  fix db :: alarm_db and i j tg :: int and k k' :: track_key and d :: alarm_def and v :: float64 and t c :: gotime and db'
  assume up: "sql_up db"
  then have ok: "sql_ok db" and nf: "\<not> db_fail db n" for n by (auto simp: sql_up_def)
  show "i \<in> sql_open db k \<Longrightarrow> j \<in> sql_open db k \<Longrightarrow> i = j" by (rule sql.open_unique[OF ok])
  show "i \<in> sql_open db k \<Longrightarrow> i \<in> sql_open db k' \<Longrightarrow> k = k'" by (rule sql.open_disjoint[OF ok])
  show "InsertActive sqlStore tg d v t db = (Some i, db') \<Longrightarrow>
      sql_up db' \<and> 0 < i \<and> sql_open db' = (sql_open db)((tg, ad_ID d) := {i})"
    using sql.insert_active[OF ok, of tg d v t i db'] sql_fail_kept(1)[of tg d v t db] nf
    by (auto simp: sql_up_def sqlStore_def)
  show "InsertActive sqlStore tg d v t db = (None, db') \<Longrightarrow> sql_up db' \<and> sql_open db' = sql_open db"
    using sql.insert_active_fail[OF ok, of tg d v t db'] sql_fail_kept(1)[of tg d v t db] nf
    by (auto simp: sql_up_def sqlStore_def)
  show "InsertCleared sqlStore tg d v t c db = (res, db') \<Longrightarrow>
      sql_up db' \<and> sql_open db' = sql_open db \<and> (\<forall>i. res = Some i \<longrightarrow> 0 < i)" for res
    using sql.insert_cleared[OF ok, of tg d v t c res db'] sql_fail_kept(2)[of tg d v t c db] nf
    by (auto simp: sql_up_def sqlStore_def)
  show "MarkCleared sqlStore i c db = (True, db') \<Longrightarrow> sql_up db' \<and> sql_open db' = (\<lambda>k. sql_open db k - {i})"
    using sql.mark_cleared[OF ok, of i c db'] sql_fail_kept(3)[of i c db] nf
    by (auto simp: sql_up_def sqlStore_def)
  show "MarkCleared sqlStore i c db = (False, db') \<Longrightarrow> sql_up db' \<and> sql_open db' = sql_open db"
    using sql.mark_cleared_fail[OF ok, of i c db'] sql_fail_kept(3)[of i c db] nf
    by (auto simp: sql_up_def sqlStore_def)
  show "TagAlias sqlStore tg db = (a, db') \<Longrightarrow> sql_up db' \<and> sql_open db' = sql_open db" for a
    using sql.tag_alias[OF ok, of tg a db'] sql_fail_kept(4)[of tg db] nf
    by (auto simp: sql_up_def sqlStore_def)
  show "\<exists>i. fst (InsertActive sqlStore tg d v t db) = Some i"
    using nf by (auto simp: sqlStore_def sql_InsertActive_def db_call_def split: list.split)
  show "fst (MarkCleared sqlStore i c db)"
    using nf by (simp add: sqlStore_def sql_MarkCleared_def db_call_def)
qed

end
