(* ===== verification/Alarm_Properties.thy ===== *)
theory Alarm_Properties
  imports Alarm_Sync
begin

text \<open>
  The properties of the alarm engine: what a rule decides, how delay and hysteresis behave, what the
  clock does, and what reaches the operator and the alarm log.
\<close>

section \<open>Helper lemmas\<close>

lemma drain_loop_pending: "pendingIO (w_mgr (drain_loop S clock i w)) = []"
  by (induction S clock i w rule: drain_loop.induct)
    (subst drain_loop.simps, simp split: list.split)

lemma drain_loop_unfold:
  "pendingIO (w_mgr w) = act # rest \<Longrightarrow>
   drain_loop S clock i w = drain_loop S clock (Suc i) (executeIO S (clock i) act (pop rest w))"
  "pendingIO (w_mgr w) = [] \<Longrightarrow> drain_loop S clock i w = w"
  by (subst drain_loop.simps, simp)+

lemma drain_loop_mgr:
  "activeTracks (w_mgr (drain_loop S clock i w)) = activeTracks (w_mgr w) \<and>
   mg_hasCallback (w_mgr (drain_loop S clock i w)) = mg_hasCallback (w_mgr w)"
proof (induction S clock i w rule: drain_loop.induct)
  case (1 S clock i w)
  show ?case
  proof (cases "pendingIO (w_mgr w)")
    case (Cons act rest)
    obtain j where "w_mgr (executeIO S (clock i) act (pop rest w)) = setRef (io_ref act) j (w_mgr (pop rest w))"
      using executeIO_mgr by blast
    then show ?thesis using "1.IH"[OF Cons] by (simp add: drain_loop_unfold(1)[OF Cons] pop_def)
  qed (simp add: drain_loop_unfold)
qed

lemma executeIO_events:
  "map (\<lambda>e. (ev_tagID e, ev_def e, ev_val e, ev_status e)) (w_events (executeIO S now act w)) =
   map (\<lambda>e. (ev_tagID e, ev_def e, ev_val e, ev_status e)) (w_events w) @
   (if io_notify act \<and> mg_hasCallback (w_mgr w) then [(io_tagID act, io_def act, io_value act, io_status act)] else [])"
proof -
  have p: "w_events (persistActive S act x) = w_events x" "w_events (persistCleared S now act x) = w_events x"
    "mg_hasCallback (w_mgr (persistActive S act x)) = mg_hasCallback (w_mgr x)"
    "mg_hasCallback (w_mgr (persistCleared S now act x)) = mg_hasCallback (w_mgr x)" for x :: "'a alarm_world"
    by (auto simp: persistActive_def persistCleared_def Let_def split: prod.split option.split)
  show ?thesis
    by (auto simp: executeIO_def Let_def p split: prod.split option.split)
qed

lemma drain_loop_events:
  "map (\<lambda>e. (ev_tagID e, ev_def e, ev_val e, ev_status e)) (w_events (drain_loop S clock i w)) =
   map (\<lambda>e. (ev_tagID e, ev_def e, ev_val e, ev_status e)) (w_events w) @
   (if mg_hasCallback (w_mgr w)
    then map (\<lambda>a. (io_tagID a, io_def a, io_value a, io_status a)) (filter io_notify (pendingIO (w_mgr w))) else [])"
proof (induction S clock i w rule: drain_loop.induct)
  case (1 S clock i w)
  show ?case
  proof (cases "pendingIO (w_mgr w)")
    case (Cons act rest)
    obtain j where "w_mgr (executeIO S (clock i) act (pop rest w)) = setRef (io_ref act) j (w_mgr (pop rest w))"
      using executeIO_mgr by blast
    then have "mg_hasCallback (w_mgr (executeIO S (clock i) act (pop rest w))) = mg_hasCallback (w_mgr w)"
      by (simp add: pop_def)
    moreover have "w_events (pop rest w) = w_events w" "mg_hasCallback (w_mgr (pop rest w)) = mg_hasCallback (w_mgr w)"
      "pendingIO (w_mgr (pop rest w)) = rest" by (simp_all add: pop_def)
    ultimately show ?thesis using "1.IH"[OF Cons] Cons by (simp add: drain_loop_unfold(1)[OF Cons] executeIO_events)
  qed (simp add: drain_loop_unfold)
qed




lemma div_Second_less: "x < y * Second \<Longrightarrow> x div Second < y"
proof -
  assume a: "x < y * Second"
  have "x div Second * Second = x - x mod Second" by (simp add: minus_mod_eq_div_mult)
  moreover have "0 \<le> x mod Second" by (simp add: Second_def)
  ultimately have "x div Second * Second < y * Second" using a by linarith
  then show ?thesis by (simp add: Second_def)
qed

section \<open>Sample rules\<close>

definition sample_def :: alarm_def where
  "sample_def = \<lparr>ad_ID = 3, ad_TagID = 7, ad_AlarmType = ''high'', ad_Threshold = Some (f64_of_int 10),
     ad_Deadband = f64_of_int 1, ad_DelaySeconds = 0, ad_Severity = ''warning'', ad_Message = [], ad_Enabled = True\<rparr>"

definition sample_db :: alarm_db where
  "sample_db = \<lparr>db_rows = [], db_next = 1, db_alias = Map.empty, db_fail = (\<lambda>_. False), db_calls = 0\<rparr>"

definition sample_start :: "alarm_db alarm_world" where
  "sample_start = \<lparr>w_mgr = empty_manager True True 1, w_db = sample_db, w_events = []\<rparr>"

definition sample_loaded :: "alarm_db alarm_world" where
  "sample_loaded = sample_start\<lparr>w_mgr := load_locked [sample_def] [] (w_mgr sample_start)\<rparr>"

definition sample_raised :: "alarm_db alarm_world" where
  "sample_raised = sample_loaded\<lparr>w_mgr := fst (evaluate_locked 1 1 7 ''temp'' (VFloat64 (f64_of_int 12)) 192 5 True (w_mgr sample_loaded))\<rparr>"

lemma sample_def_simps [simp]:
  "ad_ID sample_def = 3" "ad_TagID sample_def = 7" "ad_AlarmType sample_def = ''high''" "ad_DelaySeconds sample_def = 0"
  "ad_Deadband sample_def = f64_of_int 1" "ad_Threshold sample_def = Some (f64_of_int 10)"
  by (simp_all add: sample_def_def)

lemma sample_float_lt: "f64_lt (f64_of_int 10) (f64_of_int 12)"
  by code_simp

lemma sample_float_not_lt: "\<not> f64_lt (f64_of_int 10) (f64_of_int 2)"
  by code_simp

lemma sample_float_le: "f64_le (f64_of_int 2) (f64_sub (f64_of_int 10) (f64_of_int 1))"
  by code_simp

lemma sample_float_nonneg: "f64_le 0 (f64_of_int 1)"
  by code_simp

lemmas sample_floats = sample_float_lt sample_float_not_lt sample_float_le sample_float_nonneg

lemma sample_rule [simp]:
  "isConditionViolated sample_def (f64_of_int 12)" "\<not> isConditionViolated sample_def (f64_of_int 2)"
  "isCleared sample_def (f64_of_int 2)"
  "isConditionViolated (sample_def\<lparr>ad_DelaySeconds := n\<rparr>) v = isConditionViolated sample_def v"
  by (simp_all add: isConditionViolated_def isCleared_def sample_floats)

definition sample_delayed :: manager where
  "sample_delayed = evaluate_def 7 ''temp'' 5 (f64_of_int 12) (sample_def\<lparr>ad_DelaySeconds := 60\<rparr>) (empty_manager True True 1)"

lemmas sample_eval = sample_raised_def sample_loaded_def sample_start_def sample_delayed_def load_locked_def pruneHealthState_def
  group_defs_def empty_manager_def evaluate_locked_def evaluate_def_def recordGoodSample_def qualityGood_def
  isHealthAlarm_def AlarmCommLoss_def AlarmFrozen_def newRef_def Let_def alarmInsertRetryInterval_def

lemma sample_raised_simps:
  "pendingIO (w_mgr sample_raised) =
   [\<lparr>io_tagID = 7, io_alias = ''temp'', io_lookupAlias = False, io_def = sample_def, io_value = f64_of_int 12,
     io_status = ''ACTIVE'', io_ref = 0, io_triggeredAt = 5, io_clearedAt = 0, io_notify = True\<rparr>]"
  "activeTracks (w_mgr sample_raised) (7, 3) = Some \<lparr>tr_Definition = sample_def, tr_ActiveSince = 5, tr_Triggered = True,
      tr_InitialValue = f64_of_int 12, tr_FiredAt = 5, tr_Event = 0, tr_NextInsertRetry = 5 + 30 * Second\<rparr>"
  "\<not> ioDraining (w_mgr sample_raised)" "mg_hasCallback (w_mgr sample_raised)" "w_events sample_raised = []"
  "w_db sample_raised = sample_db"
  by (simp_all add: sample_eval IsZero_def queueIO_def putTrack_def)

lemma sample_delayed_track: "activeTracks sample_delayed (7, 3) =
    Some \<lparr>tr_Definition = sample_def\<lparr>ad_DelaySeconds := 60\<rparr>, tr_ActiveSince = 5, tr_Triggered = False,
      tr_InitialValue = f64_of_int 12, tr_FiredAt = 0, tr_Event = 0, tr_NextInsertRetry = 0\<rparr>"
  by (simp add: sample_eval putTrack_def)

section \<open>What reaches the operator and the log\<close>

text \<open>
  C5: the history of an occurrence is in order.  However the operations of all callers and the drainer
  interleave, and whatever the store answers, the actions ever queued for one alarm occurrence are
  activations followed by at most one clearing, for one tag and one rule, and at most one of the
  activations notifies the operator: retries of a failed write never do.
\<close>

theorem alarm_history:
  assumes "alarm_reach S w ex"
  shows "wf_hist (hist ex (w_mgr w) r)"
  using alarm_reach_inv[OF assms] unfolding alarm_inv_def by blast

theorem alarm_history_witness: "wf_hist (hist [] (w_mgr sample_raised) 0)"
proof -
  have "alarm_reach sqlStore sample_raised []"
    unfolding sample_raised_def sample_loaded_def sample_start_def by (intro alarm_reach.intros)
  then show ?thesis by (rule alarm_history)
qed










text \<open>
  Draining empties the queue in order.  When no other goroutine drains, \<open>drainIO\<close> leaves the
  queue empty and the flag down, changes no track, and calls the callback once per notifying action, in
  the order in which the transitions were decided.
\<close>

theorem drainIO_fifo:
  assumes "\<not> ioDraining (w_mgr w)" "mg_hasCallback (w_mgr w)"
  shows "pendingIO (w_mgr (drainIO S clock w)) = [] \<and> \<not> ioDraining (w_mgr (drainIO S clock w)) \<and>
    activeTracks (w_mgr (drainIO S clock w)) = activeTracks (w_mgr w) \<and>
    map (\<lambda>e. (ev_tagID e, ev_def e, ev_val e, ev_status e)) (w_events (drainIO S clock w)) =
    map (\<lambda>e. (ev_tagID e, ev_def e, ev_val e, ev_status e)) (w_events w) @
    map (\<lambda>a. (io_tagID a, io_def a, io_value a, io_status a)) (filter io_notify (pendingIO (w_mgr w)))"
  using assms by (simp add: drainIO_def Let_def drain_loop_pending drain_loop_mgr drain_loop_events)

theorem drainIO_fifo_witness:
  "pendingIO (w_mgr (drainIO sqlStore (\<lambda>_. 9) sample_raised)) = [] \<and>
   map (\<lambda>e. (ev_tagID e, ev_def e, ev_val e, ev_status e)) (w_events (drainIO sqlStore (\<lambda>_. 9) sample_raised)) =
   [(7, sample_def, f64_of_int 12, ''ACTIVE'')]"
  using drainIO_fifo[of sample_raised sqlStore "\<lambda>_. 9"] by (simp add: sample_raised_simps)

section \<open>Rules, delay and hysteresis\<close>

text \<open>
  Hysteresis.  With a deadband that is not negative no reading both violates and clears a rule, in
  IEEE arithmetic with rounding, infinities and NaN included; so an announced alarm is never cleared by a reading that
  would raise it.
\<close>

theorem violated_not_cleared:
  assumes "isConditionViolated d v" "f64_le 0 (ad_Deadband d)"
  shows "\<not> isCleared d v"
  using assms f64_sub_le[OF assms(2), of v] f64_add_ge[OF assms(2), of _ v] f64_lt_not_le
  by (auto simp: isConditionViolated_def isCleared_def Let_def split: if_splits option.splits)

theorem violated_not_cleared_witness: "\<not> isCleared sample_def (f64_of_int 12)"
  by (rule violated_not_cleared) (simp_all add: sample_floats)

text \<open>
  A reading that cannot be trusted decides nothing.  With a bad quality, or a value that is not a
  number, \<open>evaluateAt\<close> leaves the manager, the database and the operator alone; in particular it
  neither raises nor clears an alarm, and it is no sign of life.
\<close>

theorem bad_reading_ignored:
  assumes "quality \<noteq> qualityGood \<or> toFloat value = None"
  shows "evaluateAt S clock now1 now2 tagID al value quality atT life w = w"
  using assms by (auto simp: evaluateAt_def finish_def evaluate_locked_def Let_def split: option.split)

theorem bad_reading_ignored_witness:
  "evaluateAt sqlStore (\<lambda>_. 9) 1 1 7 ''temp'' (VFloat64 (f64_of_int 12)) 0 5 True sample_loaded = sample_loaded"
  by (rule bad_reading_ignored) (simp add: qualityGood_def)

text \<open>
  A condition that goes away within its delay leaves no trace.  A reading that does not violate the rule removes a
  track that has not fired, whatever the deadband, and queues nothing for the store or the operator.
\<close>

theorem delay_cancelled:
  assumes "\<not> isHealthAlarm (ad_AlarmType d)" "\<not> isConditionViolated d v"
    and "activeTracks m (tagID, ad_ID d) = Some t" "\<not> tr_Triggered t"
  shows "activeTracks (evaluate_def tagID al now v d m) (tagID, ad_ID d) = None \<and>
    pendingIO (evaluate_def tagID al now v d m) = pendingIO m"
  using assms by (simp add: evaluate_def_def)

theorem delay_cancelled_witness:
  "activeTracks (evaluate_def 7 ''temp'' 6 (f64_of_int 2) (sample_def\<lparr>ad_DelaySeconds := 60\<rparr>) sample_delayed)
     (7, ad_ID (sample_def\<lparr>ad_DelaySeconds := 60\<rparr>)) = None \<and>
   pendingIO (evaluate_def 7 ''temp'' 6 (f64_of_int 2) (sample_def\<lparr>ad_DelaySeconds := 60\<rparr>) sample_delayed) = pendingIO sample_delayed"
  by (rule delay_cancelled[where t = "the (activeTracks sample_delayed (7, 3))"])
    (simp_all add: sample_delayed_track isHealthAlarm_def AlarmCommLoss_def AlarmFrozen_def)

text \<open>
  A delayed alarm fires when its delay is over.  The first tick at or after the end of the delay
  announces a track that has not fired: it queues one activation that notifies, stamped with the instant the delay ran out, and
  schedules the next write attempt in thirty seconds.  A tick more than a second before the end does nothing.
\<close>

theorem delay_elapsed_fires:
  assumes "activeTracks m k = Some t" "\<not> tr_Triggered t"
    and "0 \<le> ad_DelaySeconds (tr_Definition t)" "ad_DelaySeconds (tr_Definition t) \<le> 9000000000"
    and "tr_ActiveSince t \<le> now" "now - tr_ActiveSince t < 2 ^ 63"
    and due: "due = tr_ActiveSince t + ad_DelaySeconds (tr_Definition t) * Second"
  shows "if due \<le> now
    then activeTracks (tick_track now k m) k = Some (t\<lparr>tr_Triggered := True, tr_FiredAt := due,
           tr_NextInsertRetry := now + 30 * Second\<rparr>) \<and>
         (\<exists>a. pendingIO (tick_track now k m) = pendingIO m @ [a] \<and> io_status a = ''ACTIVE'' \<and> io_notify a \<and>
            io_ref a = tr_Event t \<and> io_triggeredAt a = due)
    else (now < due - Second \<longrightarrow> tick_track now k m = m)"
proof -
  let ?n = "ad_DelaySeconds (tr_Definition t)" and ?d = "now - tr_ActiveSince t"
  have s: "secs ?n = ?n * Second" by (rule secs_id) (use assms(3,4) in auto)
  have d: "Sub now (tr_ActiveSince t) = ?d" by (rule Sub_id) (use assms(5,6) in auto)
  have "?n \<le> int_Seconds ?d" if "due \<le> now"
    by (rule int_Seconds_reached) (use that assms(3,6) in \<open>auto simp: due\<close>)
  moreover have "int_Seconds ?d < ?n" if "now < due - Second"
  proof -
    have "int_Seconds ?d \<le> ?d div Second + 1" by (rule int_Seconds_bounds) (use assms(5,6) in auto)
    moreover have "?d < (?n - 1) * Second" using that by (simp add: due algebra_simps)
    then have "?d div Second < ?n - 1" by (rule div_Second_less)
    ultimately show ?thesis by linarith
  qed
  ultimately show ?thesis
    using assms(1,2) by (auto simp: tick_track_def s d due Let_def alarmInsertRetryInterval_def)
qed

theorem delay_elapsed_fires_witness:
  "activeTracks (tick_track (70 * Second) (7, 3) sample_delayed) (7, 3) \<noteq> activeTracks sample_delayed (7, 3)"
  using delay_elapsed_fires[OF sample_delayed_track, of "70 * Second" "5 + 60 * Second"]
  by (simp add: sample_delayed_track Second_def)

text \<open>
  Failed writes are retried, quietly and at most every thirty seconds.  A tick leaves an announced
  alarm alone when its row exists or the next attempt is not due; otherwise it queues
  one write that does not notify and moves the next attempt thirty seconds ahead.
\<close>

theorem insert_retry_throttled:
  assumes "activeTracks m k = Some t" "tr_Triggered t"
  shows "if refs m (tr_Event t) \<noteq> 0 \<or> now < tr_NextInsertRetry t then tick_track now k m = m
    else activeTracks (tick_track now k m) k = Some (t\<lparr>tr_NextInsertRetry := now + 30 * Second\<rparr>) \<and>
      (\<exists>a. pendingIO (tick_track now k m) = pendingIO m @ [a] \<and> io_status a = ''ACTIVE'' \<and> \<not> io_notify a \<and>
         io_ref a = tr_Event t \<and> io_triggeredAt a = tr_FiredAt t)"
  using assms by (simp add: tick_track_def alarmInsertRetryInterval_def)

theorem insert_retry_throttled_witness:
  "tick_track 6 (7, 3) (w_mgr sample_raised) = w_mgr sample_raised"
  using insert_retry_throttled[OF sample_raised_simps(2), of 6] by (simp add: Second_def split: if_splits)

section \<open>Health of the link\<close>

text \<open>
  The health rules.  On a tick a \<open>comm_loss\<close> rule is active afterwards exactly when the silence has reached
  its timeout, and a \<open>frozen\<close> rule exactly when a value was received, the silence is within the
  timeout and the value has not left its deadband for the timeout.
\<close>

theorem health_rule_decides:
  "(ad_AlarmType d = AlarmCommLoss \<longrightarrow>
     (activeTracks (tickHealth_def now tagID s d m) (tagID, ad_ID d) \<noteq> None) = (healthTimeout d \<le> Sub now (ss_lastGood s))) \<and>
   (ad_AlarmType d = AlarmFrozen \<longrightarrow>
     (activeTracks (tickHealth_def now tagID s d m) (tagID, ad_ID d) \<noteq> None) =
     (ss_hasValue s \<and> Sub now (ss_lastGood s) \<le> healthTimeout d \<and>
      (\<exists>a. ss_anchors s (ad_ID d) = Some a \<and> healthTimeout d \<le> Sub now (an_since a))))"
  by (auto simp: tickHealth_def_def applyHealth_def Let_def AlarmCommLoss_def AlarmFrozen_def case_prod_unfold
      split: option.splits if_splits)

theorem health_rule_decides_witness:
  "activeTracks (tickHealth_def (61 * Second) 7 \<lparr>ss_lastGood = 0, ss_lastValue = 0, ss_hasValue = False, ss_anchors = Map.empty\<rparr>
     (sample_def\<lparr>ad_AlarmType := AlarmCommLoss\<rparr>) (empty_manager True True 1)) (7, 3) \<noteq> None"
proof -
  have "ad_ID (sample_def\<lparr>ad_AlarmType := AlarmCommLoss\<rparr>) = 3" by (simp add: sample_def_def)
  moreover have "healthTimeout (sample_def\<lparr>ad_AlarmType := AlarmCommLoss\<rparr>) \<le> Sub (61 * Second) 0"
    by (simp add: healthTimeout_def defaultHealthTimeoutSeconds_def secs_id Sub_id Second_def)
  ultimately show ?thesis
    using health_rule_decides[of "sample_def\<lparr>ad_AlarmType := AlarmCommLoss\<rparr>" "61 * Second" 7
        "\<lparr>ss_lastGood = 0, ss_lastValue = 0, ss_hasValue = False, ss_anchors = Map.empty\<rparr>" "empty_manager True True 1"]
    by simp
qed

text \<open>
  The threshold sweep is no sign of life.  \<open>EvaluateThresholdsAt\<close> never touches the health state of
  any tag, so it cannot silence a \<open>comm_loss\<close> or \<open>frozen\<close> rule.
\<close>

theorem threshold_sweep_keeps_health:
  "samples (fst (evaluate_locked now1 now2 tagID al value quality atT False m)) = samples m"
proof -
  have e: "samples (evaluate_def tagID al now v d m) = samples m" for now v d m
    by (simp add: evaluate_def_def Let_def newRef_def queueIO_def putTrack_def deleteTrack_def split: option.split)
  have "samples (fold (evaluate_def tagID al now v) ds m) = samples m" for now v ds m
    by (induction ds arbitrary: m) (simp_all add: e)
  then show ?thesis by (simp add: evaluate_locked_def Let_def split: option.split)
qed

section \<open>Changing the rules\<close>

lemma clean_track_other: "k' \<noteq> k \<Longrightarrow> activeTracks (clean_track nd k m) k' = activeTracks m k'"
  by (simp add: clean_track_def split: option.split)

lemma clean_tracks_kept:
  "activeTracks (fold (clean_track nd) ks m) k = Some t \<Longrightarrow> activeTracks m k = Some t \<and>
   (k \<in> set ks \<longrightarrow> list_ex (\<lambda>d. ad_ID d = snd k) (nd (fst k)))"
proof (induction ks arbitrary: m)
  case (Cons x xs)
  then have IH: "activeTracks (clean_track nd x m) k = Some t" "k \<in> set xs \<longrightarrow> list_ex (\<lambda>d. ad_ID d = snd k) (nd (fst k))"
    by auto
  then show ?case
    by (cases "k = x") (auto simp: clean_track_other clean_track_def split: option.splits if_splits)
qed simp

lemma clean_track_pending: "\<exists>rest. pendingIO (clean_track nd k m) = pendingIO m @ rest"
  by (simp add: clean_track_def split: option.split)

lemma clean_tracks_pending: "\<exists>rest. pendingIO (fold (clean_track nd) ks m) = pendingIO m @ rest"
  by (induction ks arbitrary: m) (auto, metis append_assoc clean_track_pending)

lemma clean_tracks_cleared:
  assumes "activeTracks m k = Some t" "tr_Triggered t" "\<not> list_ex (\<lambda>d. ad_ID d = snd k) (nd (fst k))" "k \<in> set ks"
  shows "\<exists>a \<in> set (pendingIO (fold (clean_track nd) ks m)). io_status a = ''CLEARED'' \<and> io_notify a \<and> io_ref a = tr_Event t"
  using assms(1,4)
proof (induction ks arbitrary: m)
  case (Cons x xs)
  show ?case
  proof (cases "x = k")
    case True
    then have "\<exists>a \<in> set (pendingIO (clean_track nd x m)). io_status a = ''CLEARED'' \<and> io_notify a \<and> io_ref a = tr_Event t"
      using Cons.prems(1) assms(2,3) by (simp add: clean_track_def)
    moreover obtain rest where "pendingIO (fold (clean_track nd) xs (clean_track nd x m)) = pendingIO (clean_track nd x m) @ rest"
      using clean_tracks_pending by blast
    ultimately show ?thesis by auto
  next
    case False
    then show ?thesis using Cons clean_track_other[of k x nd m] by simp
  qed
qed simp

text \<open>
  Removing a rule ends its alarm.  After the rules are loaded again, with every track visited, only tracks
  whose rule still exists are left; and a track that was announced and whose rule is gone has its clearing
  queued for the store and the operator.
\<close>

theorem removed_rule_clears:
  assumes "activeTracks m k = Some t" "k \<in> set order" "\<And>d. d \<in> set rows \<Longrightarrow> ad_TagID d = fst k \<Longrightarrow> ad_ID d \<noteq> snd k"
  shows "activeTracks (load_locked rows order m) k = None \<and>
    (tr_Triggered t \<longrightarrow> (\<exists>a \<in> set (pendingIO (load_locked rows order m)).
       io_status a = ''CLEARED'' \<and> io_notify a \<and> io_ref a = tr_Event t))"
proof -
  let ?nd = "group_defs rows" and ?m = "pruneHealthState (group_defs rows) (m\<lparr>definitions := group_defs rows\<rparr>)"
  have t: "activeTracks ?m k = Some t" using assms(1) by (simp add: pruneHealthState_def)
  have e: "\<not> list_ex (\<lambda>d. ad_ID d = snd k) (?nd (fst k))"
    using assms(3) by (auto simp: list_ex_iff group_defs_def)
  have "activeTracks (fold (clean_track ?nd) order ?m) k = None"
    using clean_tracks_kept[of ?nd order ?m k] e assms(2) by (cases "activeTracks (fold (clean_track ?nd) order ?m) k") auto
  then show ?thesis
    using clean_tracks_cleared[where nd = ?nd and ks = order, OF t _ e assms(2)] by (simp add: load_locked_def Let_def)
qed

theorem removed_rule_clears_witness:
  "activeTracks (load_locked [] [(7, 3)] (w_mgr sample_raised)) (7, 3) = None"
  using removed_rule_clears[OF sample_raised_simps(2), of "[(7, 3)]" "[]"] by simp

text \<open>
  The database sweep follows the data clock.  When the database answers and nobody else writes, after a sweep a
  \<open>comm_loss\<close> rule with a positive delay and a known last sample (or creation time) has an open row exactly when the
  silence has reached the delay.
\<close>

theorem sweep_follows_clock:
  assumes "\<And>n. \<not> db_fail db n" "distinct (map (\<lambda>r. (sr_tag r, sr_def r)) rules)" "r \<in> set rules" "0 < sr_delay r"
    and "sweep_since newest created (sr_tag r) = Some t"
  shows "sql_open (snd (commLossSweep (Some rules) newest created now dbnow (\<lambda>_ d. d) (\<lambda>_ d. d) db)) (sr_tag r, sr_def r) \<noteq> {} \<longleftrightarrow>
    secs (sr_delay r) \<le> Sub now t"
proof -
  have "distinct (map (\<lambda>r. (sr_tag r, sr_def r)) (filter (\<lambda>r. 0 < sr_delay r) rules))"
    using assms(2) by (simp add: distinct_map_filter)
  then show ?thesis
    using sweep_open[OF assms(1) _ _ assms(5), of "filter (\<lambda>r. 0 < sr_delay r) rules" now dbnow] assms(3,4)
    by (simp add: commLossSweep_def)
qed

theorem sweep_follows_clock_witness:
  "sql_open (snd (commLossSweep (Some [\<lparr>sr_tag = 7, sr_def = 3, sr_severity = [], sr_message = [], sr_delay = 60\<rparr>])
     (\<lambda>_. Some (Some 0)) (\<lambda>_. None) (61 * Second) 1 (\<lambda>_ d. d) (\<lambda>_ d. d) sample_db)) (7, 3) \<noteq> {}"
  using sweep_follows_clock[of sample_db "[\<lparr>sr_tag = 7, sr_def = 3, sr_severity = [], sr_message = [], sr_delay = 60\<rparr>]"
      "\<lparr>sr_tag = 7, sr_def = 3, sr_severity = [], sr_message = [], sr_delay = 60\<rparr>" "\<lambda>_. Some (Some 0)" "\<lambda>_. None" 0 "61 * Second" 1]
  by (simp add: sample_db_def sweep_since_def secs_id Sub_id Second_def)

section \<open>Two behaviours that differ from the intent\<close>

text \<open>
  A late reading of a batch can leave an orphan in the alarm log.  When an alarm is announced and its row is
  written, a clearing reading whose time is not after the alarm's own removes the track and queues no
  clearing, although nothing of the alarm is left in the queue to pull back.
\<close>

theorem late_reading_orphans_row:
  assumes "activeTracks m (tagID, ad_ID d) = Some t" "tr_Triggered t" "pendingIO m = []"
    and "\<not> isConditionViolated d v" "isCleared d v" "atT \<le> tr_FiredAt t"
  shows "activeTracks (seriesStep now tagID al d atT v known m) (tagID, ad_ID d) = None \<and>
    pendingIO (seriesStep now tagID al d atT v known m) = []"
  using assms by (simp add: seriesStep_def drop_queued_def not_less)

theorem late_reading_orphans_row_witness:
  "activeTracks (seriesStep 9 7 ''temp'' sample_def 4 (f64_of_int 2) True ((w_mgr sample_raised)\<lparr>pendingIO := []\<rparr>)) (7, ad_ID sample_def) = None \<and>
   pendingIO (seriesStep 9 7 ''temp'' sample_def 4 (f64_of_int 2) True ((w_mgr sample_raised)\<lparr>pendingIO := []\<rparr>)) = []"
  by (rule late_reading_orphans_row[where t = "the (activeTracks (w_mgr sample_raised) (7, 3))"]) (simp_all add: sample_raised_simps)

text \<open>
  Editing a rule into a health rule can announce the end of an alarm nobody was told about.  A track that is still
  within its delay is kept when its rule becomes a health rule with the same id, and the next tick that finds the link healthy
  queues a clearing that notifies the operator.
\<close>

theorem pending_track_cleared_by_health:
  assumes "activeTracks m (tagID, ad_ID d) = Some t" "\<not> tr_Triggered t"
  shows "\<exists>a. pendingIO (applyHealth tagID d False v now m) = pendingIO m @ [a] \<and> io_status a = ''CLEARED'' \<and>
    io_notify a \<and> io_ref a = tr_Event t"
  using assms(1) by (simp add: applyHealth_def)

theorem pending_track_cleared_by_health_witness:
  "\<exists>a. pendingIO (applyHealth 7 (sample_def\<lparr>ad_AlarmType := AlarmCommLoss\<rparr>) False 0 9 sample_delayed) = pendingIO sample_delayed @ [a] \<and>
    io_status a = ''CLEARED'' \<and> io_notify a \<and> io_ref a = 0"
  using pending_track_cleared_by_health[of sample_delayed 7 "sample_def\<lparr>ad_AlarmType := AlarmCommLoss\<rparr>"
      "the (activeTracks sample_delayed (7, 3))" 0 9]
  by (simp add: sample_delayed_track)

end
