(* ===== verification/Spool.thy ===== *)
theory Spool
  imports Protowire
begin

text \<open>
  The disk buffer of the MQTT client (\<open>internal/mqtt/spool.go\<close>): a file of JSON records, one per
  line, that keeps messages while the broker is away.

  The record \<open>Spool\<close> has the fields of the Go struct; \<open>spool_fs\<close> adds the content of the file at
  \<open>path\<close>, \<open>None\<close> when it does not exist.  The outcome of every system call is an argument, so
  that the theorems hold for full disks, short writes and read errors.  Every operation runs
  under the mutex of the spool and is one step.  \<open>json.Marshal\<close> is written out for the record;
  \<open>json.Unmarshal\<close> is the argument \<open>U\<close> of \<open>Drain\<close>, which the theorems leave arbitrary.
\<close>

section \<open>The JSON text of a record\<close>

record SpooledMessage =
  sm_Topic :: string
  sm_QoS :: byte
  sm_Retained :: bool
  sm_Payload :: string

text \<open>
  \<open>utf8.DecodeRune\<close>: the length of the encoding at the head of a byte sequence whose first byte
  is not ASCII, and 0 when it is not a valid encoding.
\<close>

definition cont :: "nat \<Rightarrow> nat \<Rightarrow> byte \<Rightarrow> bool" where
  "cont lo hi b \<longleftrightarrow> lo \<le> unat b \<and> unat b \<le> hi"

definition conts :: "nat \<Rightarrow> nat \<Rightarrow> nat \<Rightarrow> bytes \<Rightarrow> bool" where
  "conts n lo hi bs \<longleftrightarrow> n \<le> length bs \<and> cont lo hi (bs ! 0) \<and> list_all (cont 128 191) (take (n - 1) (tl bs))"

fun rune_len :: "bytes \<Rightarrow> nat" where
  "rune_len [] = 0"
| "rune_len (b # bs) =
     (let x = unat b in
      if 194 \<le> x \<and> x \<le> 223 then (if conts 1 128 191 bs then 2 else 0)
      else if x = 224 then (if conts 2 160 191 bs then 3 else 0)
      else if x = 237 then (if conts 2 128 159 bs then 3 else 0)
      else if 225 \<le> x \<and> x \<le> 239 then (if conts 2 128 191 bs then 3 else 0)
      else if x = 240 then (if conts 3 144 191 bs then 4 else 0)
      else if 241 \<le> x \<and> x \<le> 243 then (if conts 3 128 191 bs then 4 else 0)
      else if x = 244 then (if conts 3 128 143 bs then 4 else 0)
      else 0)"

definition hex_digit :: "nat \<Rightarrow> byte" where
  "hex_digit n = of_nat (if n < 10 then 48 + n else 87 + n)"

text \<open>The escapes of \<open>encoding/json\<close> for one ASCII byte, with HTML escaping as \<open>json.Marshal\<close> has it.\<close>

definition escape_ascii :: "byte \<Rightarrow> bytes" where
  "escape_ascii b =
     (if b = 34 \<or> b = 92 then [92, b]
      else if b = 8 then [92, 98] else if b = 12 then [92, 102]
      else if b = 10 then [92, 110] else if b = 13 then [92, 114] else if b = 9 then [92, 116]
      else if unat b < 32 \<or> b = 60 \<or> b = 62 \<or> b = 38
        then [92, 117, 48, 48, hex_digit (unat b div 16), hex_digit (unat b mod 16)]
      else [b])"

text \<open>The line and paragraph separators are escaped; a byte outside a valid encoding becomes \<open>\ufffd\<close>.\<close>

definition json_piece :: "bytes \<Rightarrow> bytes \<times> nat" where
  "json_piece bs =
     (if unat (hd bs) < 128 then (escape_ascii (hd bs), 1)
      else let n = rune_len bs in
        if n = 0 then ([92, 117, 102, 102, 102, 100], 1)
        else if take n bs = [226, 128, 168] then ([92, 117, 50, 48, 50, 56], n)
        else if take n bs = [226, 128, 169] then ([92, 117, 50, 48, 50, 57], n)
        else (take n bs, n))"

fun json_body :: "bytes \<Rightarrow> bytes" where
  "json_body [] = []"
| "json_body (b # bs) =
     (let (out, n) = json_piece (b # bs) in out @ json_body (drop (n - 1) bs))"

definition json_string :: "string \<Rightarrow> bytes" where
  "json_string s = [34] @ json_body (to_bytes s) @ [34]"

definition json_bool :: "bool \<Rightarrow> bytes" where
  "json_bool b = to_bytes (if b then ''true'' else ''false'')"

definition Marshal :: "SpooledMessage \<Rightarrow> bytes" where
  "Marshal m =
     [123] @ json_string ''t'' @ [58] @ json_string (sm_Topic m) @ [44]
      @ json_string ''q'' @ [58] @ to_bytes (nat_digits (unat (sm_QoS m))) @ [44]
      @ json_string ''r'' @ [58] @ json_bool (sm_Retained m) @ [44]
      @ json_string ''p'' @ [58] @ json_string (sm_Payload m) @ [125]"

section \<open>The spool and its file\<close>

record Spool =
  sp_path :: string
  sp_maxBytes :: int
  sp_size :: int
  sp_dropped :: "64 word"
  sp_corrupt :: "64 word"

record spool_fs = Spool +
  sp_file :: "bytes option"

datatype 'e spool_error =
    MkdirError
  | TooLarge int int
  | OpenError | WriteError | CloseError
  | TrimReadError | TrimWriteError
  | DrainOpenError | RemoveError | RewriteError
  | SendError 'e
  | ScanTooLong | ScanReadError | ScanCloseError

text \<open>
  How a write of a whole buffer goes: the file does not open, the write stops after some of the
  bytes, the file does not close cleanly, or all is well.  A number past the end of the buffer is
  a complete write that nevertheless reports an error.
\<close>

datatype write_result = WriteOK | OpenFails | WriteFails nat | CloseFails

definition DefaultSpoolMaxBytes :: int where
  "DefaultSpoolMaxBytes = 67108864"

text \<open>\<open>os.Stat\<close> fails (\<open>statFails\<close>) or finds the file as it is.\<close>

definition NewSpool ::
  "bool \<Rightarrow> bool \<Rightarrow> bytes option \<Rightarrow> string \<Rightarrow> int \<Rightarrow> 'e spool_error + spool_fs" where
  "NewSpool mkdirFails statFails disk path maxBytes =
     (let maxBytes = (if maxBytes \<le> 0 then DefaultSpoolMaxBytes else maxBytes) in
      if mkdirFails then Inl MkdirError
      else Inr \<lparr>sp_path = path, sp_maxBytes = maxBytes,
                sp_size = (case disk of Some d \<Rightarrow> if statFails then 0 else int (length d) | None \<Rightarrow> 0),
                sp_dropped = 0, sp_corrupt = 0, sp_file = disk\<rparr>)"

fun indexByte_from :: "int \<Rightarrow> bytes \<Rightarrow> byte \<Rightarrow> int" where
  "indexByte_from i [] c = - 1"
| "indexByte_from i (b # bs) c = (if b = c then i else indexByte_from (i + 1) bs c)"

definition indexByte :: "bytes \<Rightarrow> byte \<Rightarrow> int" where
  "indexByte b c = indexByte_from 0 b c"

text \<open>The trimming loop: the bytes from \<open>cut\<close> on, and the counter of dropped records.\<close>

function trim_loop :: "int \<Rightarrow> bytes \<Rightarrow> 64 word \<Rightarrow> bytes \<times> 64 word" where
  "trim_loop target data dropped =
     (if int (length data) > target then
        (let i = indexByte data 10 in
         if i < 0 then ([], dropped)
         else trim_loop target (drop (nat i + 1) data) (dropped + 1))
      else (data, dropped))"
  by pat_completeness auto

lemma indexByte_nil [simp]: "indexByte [] c = - 1"
  by (simp add: indexByte_def)

termination trim_loop
  by (relation "measure (\<lambda>(t, d, k). length d)") (auto intro!: diff_less Nat.gr0I)

declare trim_loop.simps [simp del]

text \<open>\<open>os.WriteFile\<close> truncates the file once it is open.\<close>

fun WriteFile :: "write_result \<Rightarrow> bytes \<Rightarrow> bytes option \<Rightarrow> bool \<times> bytes option" where
  "WriteFile WriteOK d old = (True, Some d)"
| "WriteFile OpenFails d old = (False, old)"
| "WriteFile (WriteFails n) d old = (False, Some (take n d))"
| "WriteFile CloseFails d old = (False, Some d)"

definition dropOldestLocked ::
  "bool \<Rightarrow> write_result \<Rightarrow> int \<Rightarrow> spool_fs \<Rightarrow> 'e spool_error option \<times> spool_fs" where
  "dropOldestLocked readFails wr need s =
     (case sp_file s of
        None \<Rightarrow> if readFails then (Some TrimReadError, s) else (None, s\<lparr>sp_size := 0\<rparr>)
      | Some data \<Rightarrow>
          if readFails then (Some TrimReadError, s)
          else let target = sp_maxBytes s - need;
                   (rest, dropped) = trim_loop target data (sp_dropped s);
                   s = s\<lparr>sp_dropped := dropped\<rparr>;
                   (ok, file) = WriteFile wr rest (sp_file s);
                   s = s\<lparr>sp_file := file\<rparr>
               in if ok then (None, s\<lparr>sp_size := int (length rest)\<rparr>) else (Some TrimWriteError, s))"

text \<open>The append at the end of \<open>Add\<close>: the bytes that reached the file, and the error.\<close>

fun append_line :: "write_result \<Rightarrow> bytes \<Rightarrow> bytes \<times> 'e spool_error option" where
  "append_line WriteOK line = (line, None)"
| "append_line OpenFails line = ([], Some OpenError)"
| "append_line (WriteFails n) line = (take n line, Some WriteError)"
| "append_line CloseFails line = (line, Some CloseError)"

definition append_file :: "bytes \<Rightarrow> write_result \<Rightarrow> bytes option \<Rightarrow> bytes option" where
  "append_file out wr file =
     (case file of None \<Rightarrow> if wr = OpenFails then None else Some out | Some d \<Rightarrow> Some (d @ out))"

definition make_room ::
  "bool \<Rightarrow> write_result \<Rightarrow> int \<Rightarrow> spool_fs \<Rightarrow> 'e spool_error option \<times> spool_fs" where
  "make_room readFails trimWr n s =
     (if wrap64 (sp_size s + n) > sp_maxBytes s then dropOldestLocked readFails trimWr n s else (None, s))"

definition Add ::
  "bool \<Rightarrow> write_result \<Rightarrow> write_result \<Rightarrow> SpooledMessage \<Rightarrow> spool_fs \<Rightarrow> 'e spool_error option \<times> spool_fs" where
  "Add readFails trimWr wr m s =
     (let line = Marshal m @ [10]; n = int (length line) in
      if n > sp_maxBytes s
      then (Some (TooLarge n (sp_maxBytes s)), s\<lparr>sp_dropped := sp_dropped s + 1\<rparr>)
      else let (err, s) = make_room readFails trimWr n s
           in case err of
                Some e \<Rightarrow> (Some e, s)
              | None \<Rightarrow> let (out, err) = append_line wr line
                        in (err, s\<lparr>sp_file := append_file out wr (sp_file s),
                                   sp_size := wrap64 (sp_size s + int (length out))\<rparr>))"

section \<open>Replay\<close>

text \<open>
  \<open>bufio.Scanner\<close> with \<open>ScanLines\<close> and the buffer limit that \<open>Drain\<close> sets: a token is found when
  its newline lies within the buffer; an unterminated rest is the last token when it does not fill
  the buffer; otherwise the scan stops with \<open>ErrTooLong\<close>.
\<close>

definition maxTok :: nat where
  "maxTok = 4194304"

definition dropCR :: "bytes \<Rightarrow> bytes" where
  "dropCR d = (if d \<noteq> [] \<and> last d = 13 then butlast d else d)"

function scan_lines :: "bytes \<Rightarrow> bytes list \<times> bool" where
  "scan_lines d =
     (if d = [] then ([], False)
      else let i = indexByte d 10 in
        if 0 \<le> i \<and> i < int maxTok
        then (let (ls, tooLong) = scan_lines (drop (nat i + 1) d) in (dropCR (take (nat i) d) # ls, tooLong))
        else if length d < maxTok then ([dropCR d], False)
        else ([], True))"
  by pat_completeness auto
termination
  by (relation "measure length") auto

declare scan_lines.simps [simp del]

record 'e drain_state =
  ds_pending :: "bytes list"
  ds_sendErr :: "'e option"
  ds_corrupt :: "64 word"
  ds_calls :: "SpooledMessage list"

text \<open>
  One turn of the scan loop.  \<open>send\<close> may answer differently each time: it sees the messages it
  was called with before.
\<close>

definition drain_line ::
  "(bytes \<Rightarrow> SpooledMessage option) \<Rightarrow> (SpooledMessage list \<Rightarrow> SpooledMessage \<Rightarrow> 'e option)
    \<Rightarrow> bytes \<Rightarrow> 'e drain_state \<Rightarrow> 'e drain_state" where
  "drain_line U send line st =
     (if line = [] then st
      else if ds_sendErr st \<noteq> None then st\<lparr>ds_pending := ds_pending st @ [line]\<rparr>
      else case U line of
          None \<Rightarrow> st\<lparr>ds_corrupt := ds_corrupt st + 1\<rparr>
        | Some m \<Rightarrow>
            let r = send (ds_calls st) m; st = st\<lparr>ds_calls := ds_calls st @ [m]\<rparr>
            in case r of None \<Rightarrow> st
               | Some e \<Rightarrow> st\<lparr>ds_sendErr := Some e, ds_pending := ds_pending st @ [line]\<rparr>)"

definition join_lines :: "bytes list \<Rightarrow> bytes" where
  "join_lines lines = concat (map (\<lambda>l. l @ [10]) lines)"

definition rewriteLocked ::
  "bool \<Rightarrow> write_result \<Rightarrow> bytes list \<Rightarrow> spool_fs \<Rightarrow> 'e spool_error option \<times> spool_fs" where
  "rewriteLocked removeFails wr lines s =
     (if lines = [] then
        (if removeFails \<and> sp_file s \<noteq> None then (Some RemoveError, s)
         else (None, s\<lparr>sp_file := None, sp_size := 0\<rparr>))
      else let buf = join_lines lines; (ok, file) = WriteFile wr buf (sp_file s); s = s\<lparr>sp_file := file\<rparr>
           in if ok then (None, s\<lparr>sp_size := int (length buf)\<rparr>) else (Some RewriteError, s))"

text \<open>The system calls of \<open>Drain\<close>; \<open>dio_read\<close> is the number of bytes read before a read error.\<close>

record drain_io =
  dio_openFails :: bool
  dio_read :: "nat option"
  dio_closeFails :: bool
  dio_removeFails :: bool
  dio_rewrite :: write_result

definition good_io :: drain_io where
  "good_io = \<lparr>dio_openFails = False, dio_read = None, dio_closeFails = False,
              dio_removeFails = False, dio_rewrite = WriteOK\<rparr>"

text \<open>The scan of the opened file: its lines, and \<open>sc.Err\<close> or the error of \<open>Close\<close>.\<close>

definition scan_file :: "drain_io \<Rightarrow> bytes \<Rightarrow> bytes list \<times> 'e spool_error option" where
  "scan_file io d =
     (let (ls, tooLong) = scan_lines (case dio_read io of Some k \<Rightarrow> take k d | None \<Rightarrow> d);
          scanErr = (if tooLong then Some ScanTooLong
                     else if dio_read io \<noteq> None then Some ScanReadError else None)
      in (ls, if dio_closeFails io \<and> scanErr = None then Some ScanCloseError else scanErr))"

text \<open>The result, the messages handed to \<open>send\<close> in order, and the spool afterwards.\<close>

definition Drain ::
  "drain_io \<Rightarrow> (bytes \<Rightarrow> SpooledMessage option) \<Rightarrow> (SpooledMessage list \<Rightarrow> SpooledMessage \<Rightarrow> 'e option)
    \<Rightarrow> spool_fs \<Rightarrow> 'e spool_error option \<times> SpooledMessage list \<times> spool_fs" where
  "Drain io U send s =
     (case sp_file s of
        None \<Rightarrow> (if dio_openFails io then Some DrainOpenError else None, [], s)
      | Some d \<Rightarrow>
          if dio_openFails io then (Some DrainOpenError, [], s)
          else let (ls, scanErr) = scan_file io d;
                   st = fold (drain_line U send) ls
                          \<lparr>ds_pending = [], ds_sendErr = None, ds_corrupt = sp_corrupt s, ds_calls = []\<rparr>;
                   (rewriteErr, s') = rewriteLocked (dio_removeFails io) (dio_rewrite io) (ds_pending st)
                          (s\<lparr>sp_corrupt := ds_corrupt st\<rparr>)
               in (case rewriteErr of
                     Some e \<Rightarrow> Some e
                   | None \<Rightarrow> (case ds_sendErr st of Some e \<Rightarrow> Some (SendError e) | None \<Rightarrow> scanErr),
                   ds_calls st, s'))"

definition Stats :: "spool_fs \<Rightarrow> int \<times> 64 word \<times> 64 word" where
  "Stats s = (sp_size s, sp_dropped s, sp_corrupt s)"

section \<open>Lines\<close>

lemma indexByte_from_none: "c \<notin> set d \<Longrightarrow> indexByte_from i d c = - 1"
  by (induction i d c rule: indexByte_from.induct) auto

lemma indexByte_from_hit: "c \<notin> set a \<Longrightarrow> indexByte_from i (a @ c # r) c = i + int (length a)"
  by (induction a arbitrary: i) auto

lemma indexByte_none: "c \<notin> set d \<Longrightarrow> indexByte d c = - 1"
  by (simp add: indexByte_def indexByte_from_none)

lemma indexByte_hit [simp]: "c \<notin> set a \<Longrightarrow> indexByte (a @ c # r) c = int (length a)"
  by (simp add: indexByte_def indexByte_from_hit)

lemma join_lines_simps [simp]:
  "join_lines [] = []" "join_lines (l # ls) = l @ 10 # join_lines ls"
  by (auto simp: join_lines_def)

lemma join_lines_append [simp]: "join_lines (xs @ ys) = join_lines xs @ join_lines ys"
  by (simp add: join_lines_def)

lemma trim_loop_length:
  "length (fst (trim_loop t d k)) \<le> length d \<and> int (length (fst (trim_loop t d k))) \<le> max 0 t"
  by (induction t d k rule: trim_loop.induct) (subst (1 2) trim_loop.simps, fastforce simp: Let_def)

text \<open>On a file of whole lines the loop drops the shortest prefix that makes the rest fit.\<close>

lemma trim_loop_lines:
  assumes "\<forall>l \<in> set ls. 10 \<notin> set l" "0 \<le> t"
  shows "\<exists>j \<le> length ls. trim_loop t (join_lines ls) k = (join_lines (drop j ls), k + of_nat j) \<and>
           int (length (join_lines (drop j ls))) \<le> t \<and> (\<forall>i < j. t < int (length (join_lines (drop i ls))))"
  using assms(1)
proof (induction ls arbitrary: k)
  case Nil
  then show ?case using assms(2) by (simp add: trim_loop.simps)
next
  case (Cons l ls)
  show ?case
  proof (cases "t < int (length (join_lines (l # ls)))")
    case True
    from Cons obtain j where j: "j \<le> length ls"
      "trim_loop t (join_lines ls) (k + 1) = (join_lines (drop j ls), k + 1 + of_nat j)"
      "int (length (join_lines (drop j ls))) \<le> t" "\<forall>i < j. t < int (length (join_lines (drop i ls)))"
      by fastforce
    have "trim_loop t (join_lines (l # ls)) k = trim_loop t (join_lines ls) (k + 1)"
      using True Cons.prems by (subst trim_loop.simps) simp
    moreover have "\<forall>i < Suc j. t < int (length (join_lines (drop i (l # ls))))"
      using j(4) True by (auto simp: less_Suc_eq_0_disj)
    ultimately show ?thesis using j by (intro exI[of _ "Suc j"]) (auto simp: add_ac)
  next
    case False
    then have "trim_loop t (join_lines (l # ls)) k = (join_lines (l # ls), k)"
      by (subst trim_loop.simps) simp
    then show ?thesis using False by (intro exI[of _ 0]) auto
  qed
qed

text \<open>A line that the scanner returns as it was written.\<close>

definition scannable :: "bytes \<Rightarrow> bool" where
  "scannable l \<longleftrightarrow> 10 \<notin> set l \<and> length l < maxTok \<and> (l \<noteq> [] \<longrightarrow> last l \<noteq> 13)"

lemma dropCR_id: "l \<noteq> [] \<longrightarrow> last l \<noteq> 13 \<Longrightarrow> dropCR l = l"
  by (auto simp: dropCR_def)

lemma scan_lines_line:
  assumes "10 \<notin> set l" "length l < maxTok"
  shows "scan_lines (l @ 10 # d) = (dropCR l # fst (scan_lines d), snd (scan_lines d))"
  using assms by (subst scan_lines.simps) (simp add: case_prod_beta)

lemma scan_lines_join:
  "\<forall>l \<in> set ls. scannable l \<Longrightarrow> scan_lines (join_lines ls @ d) = (ls @ fst (scan_lines d), snd (scan_lines d))"
  by (induction ls) (auto simp: scan_lines_line scannable_def dropCR_id)

lemma scan_lines_too_long:
  assumes "10 \<notin> set l" "maxTok \<le> length l"
  shows "scan_lines (l @ 10 # d) = ([], True)"
  using assms by (subst scan_lines.simps) (simp add: maxTok_def)

section \<open>The text of a record is one line\<close>

lemma hex_digit_not_newline: "n < 16 \<Longrightarrow> hex_digit n \<noteq> 10"
proof -
  assume "n < 16"
  then have "n \<in> set [0..<16]" by simp
  moreover have "\<forall>n \<in> set [0..<16]. hex_digit n \<noteq> 10" by code_simp
  ultimately show ?thesis by blast
qed

lemma escape_ascii_not_newline: "10 \<notin> set (escape_ascii b)"
proof -
  have "unat b < 256" using unsigned_less[of b] by simp
  then have "hex_digit (unat b div 16) \<noteq> 10" "hex_digit (unat b mod 16) \<noteq> 10"
    by (auto intro!: hex_digit_not_newline)
  then show ?thesis by (auto simp: escape_ascii_def)
qed

lemma conts_high:
  assumes "conts n lo hi bs" "128 \<le> lo" "0 < n" "x \<in> set (take n bs)"
  shows "128 \<le> unat x"
  using assms by (cases bs; cases n) (auto simp: conts_def cont_def list_all_iff)

lemma rune_len_cases:
  "rune_len (b # bs) = 0 \<or> (\<exists>n lo hi. rune_len (b # bs) = Suc n \<and> 0 < n \<and> 128 \<le> lo \<and> conts n lo hi bs)"
proof -
  define P where "P r \<longleftrightarrow> r = 0 \<or> (\<exists>n lo hi. r = Suc n \<and> 0 < n \<and> 128 \<le> lo \<and> conts n lo hi bs)" for r
  have P: "P 0" "conts n lo hi bs \<Longrightarrow> 0 < n \<Longrightarrow> 128 \<le> lo \<Longrightarrow> r = Suc n \<Longrightarrow> P r" for n lo hi r
    unfolding P_def by blast+
  have "P (rune_len (b # bs))"
    unfolding rune_len.simps Let_def
    by (intro if_split[of P, THEN iffD2] conjI impI P(1)) (erule P(2); simp)+
  then show ?thesis unfolding P_def .
qed

lemma rune_len_high:
  assumes "128 \<le> unat b" "x \<in> set (take (rune_len (b # bs)) (b # bs))"
  shows "128 \<le> unat x"
  using rune_len_cases[of b bs] assms conts_high by (auto simp del: rune_len.simps)

lemma json_piece_not_newline: "10 \<notin> set (fst (json_piece (b # bs)))"
proof -
  have "10 \<notin> set (take (rune_len (b # bs)) (b # bs))" if "128 \<le> unat b"
    using rune_len_high[OF that, of 10] by force
  then show ?thesis
    using escape_ascii_not_newline by (auto simp: json_piece_def Let_def not_less simp del: rune_len.simps)
qed

lemma json_body_not_newline: "10 \<notin> set (json_body bs)"
  by (induction bs rule: json_body.induct)
     (use json_piece_not_newline in \<open>auto simp del: rune_len.simps split: prod.splits\<close>, metis fst_conv)

lemma unat_10_byte: "unat (10 :: byte) = 10"
  by simp

lemma to_bytes_not_newline: "list_all is_digit s \<Longrightarrow> 10 \<notin> set (to_bytes s)"
proof
  assume d: "list_all is_digit s" and "10 \<in> set (to_bytes s)"
  then obtain c where c: "c \<in> set s" "(10 :: byte) = of_nat (of_char c)" by (auto simp: to_bytes_def)
  have "unat (of_nat (of_char c) :: byte) = of_char c" by (simp add: unat_of_nat)
  with c(2) have "of_char c = (10 :: nat)" by (metis unat_10_byte)
  with c(1) d show False by (auto simp: is_digit_def list_all_iff)
qed

lemma Marshal_not_newline: "10 \<notin> set (Marshal m)"
  using json_body_not_newline nat_digits_props to_bytes_not_newline
  by (simp add: Marshal_def json_string_def json_bool_def to_bytes_def[of "''true''"] to_bytes_def[of "''false''"])

lemma last_Marshal [simp]: "last (Marshal m) = 125" "Marshal m \<noteq> []"
  by (auto simp: Marshal_def)

section \<open>What the spool holds\<close>

definition file_len :: "spool_fs \<Rightarrow> int" where
  "file_len s = (case sp_file s of None \<Rightarrow> 0 | Some d \<Rightarrow> int (length d))"

text \<open>The records on disk, oldest first, when the file consists of whole lines.\<close>

definition spool_holds :: "spool_fs \<Rightarrow> bytes list \<Rightarrow> bool" where
  "spool_holds s ls \<longleftrightarrow>
     (sp_file s = Some (join_lines ls) \<or> sp_file s = None \<and> ls = []) \<and>
     sp_size s = int (length (join_lines ls)) \<and> list_all (\<lambda>l. l \<noteq> [] \<and> scannable l) ls"

lemma spool_holds_lines: "spool_holds s ls \<Longrightarrow> \<forall>l \<in> set ls. scannable l"
  by (simp add: spool_holds_def list_all_iff)

lemma dropOldest_frame [simp]:
  "sp_maxBytes (snd (dropOldestLocked rf wr n s)) = sp_maxBytes s"
  by (auto simp: dropOldestLocked_def Let_def split: option.splits prod.splits)

lemma append_line_length: "length (fst (append_line wr l)) \<le> length l"
  by (cases wr) auto

lemma WriteFile_length:
  "case snd (WriteFile wr d old) of None \<Rightarrow> True
   | Some f \<Rightarrow> length f \<le> max (length d) (case old of None \<Rightarrow> 0 | Some g \<Rightarrow> length g)"
  by (cases wr; cases old) auto

text \<open>Trimming leaves at most what fits beside the new record, or fails and leaves no more than there was.\<close>

lemma dropOldest_bounds:
  assumes "file_len s \<le> sp_size s" "n \<le> sp_maxBytes s" "dropOldestLocked rf wr n s = (e, s')"
  shows "file_len s' \<le> sp_size s' \<and> file_len s' \<le> file_len s \<and>
         sp_size s' \<le> sp_size s \<and> (e = None \<longrightarrow> sp_size s' \<le> sp_maxBytes s - n)"
proof (cases "sp_file s")
  case None
  then show ?thesis using assms by (auto simp: dropOldestLocked_def file_len_def split: if_splits)
next
  case (Some d)
  obtain r k where t: "trim_loop (sp_maxBytes s - n) d (sp_dropped s) = (r, k)" by fastforce
  have "length r \<le> length d" "int (length r) \<le> sp_maxBytes s - n"
    using trim_loop_length[of "sp_maxBytes s - n" d "sp_dropped s"] assms(2) t by auto
  then show ?thesis using assms Some t
    by (cases wr) (auto simp: dropOldestLocked_def file_len_def Let_def split: if_splits)
qed

lemma Add_fits:
  fixes s :: spool_fs and err :: "'e spool_error option"
  assumes "int (length (Marshal m)) + 1 \<le> sp_maxBytes s"
    "make_room rf tw (int (length (Marshal m)) + 1) s = (err, t)"
    "(append_line wr (Marshal m @ [10]) :: bytes \<times> 'e spool_error option) = (out, e)"
  shows "Add rf tw wr m s =
     (case err of Some e \<Rightarrow> (Some e, t)
      | None \<Rightarrow> (e, t\<lparr>sp_file := append_file out wr (sp_file t), sp_size := wrap64 (sp_size t + int (length out))\<rparr>))"
  using assms by (simp add: Add_def Let_def add_ac split: option.splits)

lemma make_room_eq:
  assumes "0 \<le> sp_size s" "sp_size s \<le> 2 ^ 62" "sp_maxBytes s < 2 ^ 62" "0 \<le> n" "n \<le> sp_maxBytes s"
  shows "make_room rf tw n s = (if sp_size s + n > sp_maxBytes s then dropOldestLocked rf tw n s else (None, s))"
proof -
  have "wrap64 (sp_size s + n) = sp_size s + n" using assms by (intro wrap64_id) auto
  then show ?thesis by (simp add: make_room_def)
qed

lemma file_len_append:
  "file_len (t\<lparr>sp_file := append_file out wr (sp_file t), sp_size := z\<rparr>)
     \<le> file_len t + int (length out)"
  by (auto simp: file_len_def append_file_def split: option.splits)

text \<open>
As long as the size the spool keeps is not below the size of the file (\<open>NewSpool\<close> sees to that when it can inspect the file),
\<open>Add\<close> never lets the file grow past the cap (a file that is larger already does not grow) and keeps it so, whatever happens to the writes:
short writes, files that do not open or close, trims that fail half way.
\<close>

theorem Add_bounded:
  fixes e :: "'a spool_error option"
  assumes "file_len s \<le> sp_size s" "sp_size s \<le> 2 ^ 62" "sp_maxBytes s < 2 ^ 62" "Add rf tw wr m s = (e, s')"
  shows "file_len s' \<le> sp_size s' \<and> file_len s' \<le> max (sp_maxBytes s) (file_len s)"
proof (cases "int (length (Marshal m)) + 1 \<le> sp_maxBytes s")
  case True
  let ?n = "int (length (Marshal m)) + 1"
  obtain err :: "'a spool_error option" and t where t: "make_room rf tw ?n s = (err, t)" by fastforce
  obtain out and e' :: "'a spool_error option" where a: "append_line wr (Marshal m @ [10]) = (out, e')" by fastforce
  have nn: "0 \<le> sp_size s" using assms(1) by (auto simp: file_len_def split: option.splits)
  have "length out \<le> length (Marshal m) + 1"
    using append_line_length[of wr "Marshal m @ [10]", where 'a = "'a"] a by simp
  then have out: "int (length out) \<le> ?n" by linarith
  have b: "file_len t \<le> sp_size t" "file_len t \<le> file_len s" "err = None \<Longrightarrow> sp_size t \<le> sp_maxBytes s - ?n"
    using t dropOldest_bounds[OF assms(1) True, of rf tw err t] assms(1) make_room_eq[OF nn assms(2,3) _ True, of rf tw, where 'a = "'a"]
    by (auto split: if_splits)
  have t0: "0 \<le> sp_size t" using b(1) by (auto simp: file_len_def split: option.splits)
  show ?thesis
  proof (cases err)
    case None
    have w: "wrap64 (sp_size t + int (length out)) = sp_size t + int (length out)"
      using b(3)[OF None] out assms(3) t0 by (intro wrap64_id) auto
    have s': "s' = t\<lparr>sp_file := append_file out wr (sp_file t), sp_size := sp_size t + int (length out)\<rparr>"
      using assms(4) Add_fits[OF True t a] None w by simp
    show ?thesis
      using file_len_append[where t = t and out = out and wr = wr and z = "sp_size t + int (length out)"] b out None unfolding s' by simp
  next
    case (Some x)
    then show ?thesis using assms(4) Add_fits[OF True t a] b by auto
  qed
next
  case False
  then show ?thesis using assms by (auto simp: Add_def Let_def file_len_def)
qed

lemma make_room_lines:
  fixes s :: spool_fs
  assumes "spool_holds s ls" "0 \<le> n" "n \<le> sp_maxBytes s" "sp_size s \<le> 2 ^ 62" "sp_maxBytes s < 2 ^ 62"
  shows "\<exists>j t. make_room False WriteOK n s = (None :: 'e spool_error option, t) \<and>
    t = s\<lparr>sp_file := sp_file t, sp_size := int (length (join_lines (drop j ls))), sp_dropped := sp_dropped s + of_nat j\<rparr> \<and>
    (sp_file t = Some (join_lines (drop j ls)) \<or> sp_file t = None \<and> drop j ls = []) \<and>
    int (length (join_lines (drop j ls))) \<le> sp_maxBytes s - n \<and> j \<le> length ls \<and>
    (\<forall>i < j. sp_maxBytes s - n < int (length (join_lines (drop i ls))))"
proof -
  have room: "make_room False WriteOK n s =
      (if sp_size s + n > sp_maxBytes s then dropOldestLocked False WriteOK n s else (None :: 'e spool_error option, s))"
    using assms by (intro make_room_eq) (auto simp: spool_holds_def)
  show ?thesis
  proof (cases "sp_size s + n > sp_maxBytes s")
    case True
    then have f: "sp_file s = Some (join_lines ls)" using assms by (auto simp: spool_holds_def)
    obtain j where j: "trim_loop (sp_maxBytes s - n) (join_lines ls) (sp_dropped s) = (join_lines (drop j ls), sp_dropped s + of_nat j)"
      "int (length (join_lines (drop j ls))) \<le> sp_maxBytes s - n" "j \<le> length ls"
      "\<forall>i < j. sp_maxBytes s - n < int (length (join_lines (drop i ls)))"
      using trim_loop_lines[of ls "sp_maxBytes s - n" "sp_dropped s"] spool_holds_lines[OF assms(1)] assms(3)
      by (auto simp: scannable_def)
    show ?thesis
      by (rule exI[of _ j], rule exI[of _ "s\<lparr>sp_dropped := sp_dropped s + of_nat j, sp_file := Some (join_lines (drop j ls)),
            sp_size := int (length (join_lines (drop j ls)))\<rparr>"])
         (use True f j room in \<open>simp add: dropOldestLocked_def Let_def\<close>)
  next
    case False
    then show ?thesis using assms(1) room
      by (intro exI[of _ 0] exI[of _ s]) (auto simp: spool_holds_def)
  qed
qed

lemma Add_keeps_newest_lemma:
  assumes "spool_holds s ls" "int (length (Marshal m)) + 1 \<le> sp_maxBytes s" "length (Marshal m) < maxTok"
    "sp_size s \<le> 2 ^ 62" "sp_maxBytes s < 2 ^ 62"
  shows "\<exists>j s'. Add False WriteOK WriteOK m s = (None :: 'e spool_error option, s') \<and> spool_holds s' (drop j ls @ [Marshal m]) \<and>
           sp_dropped s' = sp_dropped s + of_nat j \<and> sp_size s' \<le> sp_maxBytes s \<and> j \<le> length ls \<and>
           (\<forall>i < j. sp_maxBytes s < int (length (join_lines (drop i ls @ [Marshal m]))))"
proof -
  let ?n = "int (length (Marshal m)) + 1"
  have nl: "\<forall>l \<in> set ls. 10 \<notin> set l" using spool_holds_lines[OF assms(1)] by (auto simp: scannable_def)
  have sz: "sp_size s = int (length (join_lines ls))" "0 \<le> sp_size s" using assms(1) by (auto simp: spool_holds_def)
  have new: "Marshal m \<noteq> [] \<and> scannable (Marshal m)"
    using assms(3) Marshal_not_newline by (simp add: scannable_def)
  obtain j t where j: "make_room False WriteOK ?n s = (None :: 'e spool_error option, t)"
    "t = s\<lparr>sp_file := sp_file t, sp_size := int (length (join_lines (drop j ls))), sp_dropped := sp_dropped s + of_nat j\<rparr>"
    "sp_file t = Some (join_lines (drop j ls)) \<or> sp_file t = None \<and> drop j ls = []"
    "int (length (join_lines (drop j ls))) \<le> sp_maxBytes s - ?n" "j \<le> length ls"
    "\<forall>i < j. sp_maxBytes s - ?n < int (length (join_lines (drop i ls)))"
    using make_room_lines[OF assms(1) _ assms(2,4,5)] by force
  let ?ls = "drop j ls @ [Marshal m]"
  let ?s' = "t\<lparr>sp_file := Some (join_lines ?ls), sp_size := int (length (join_lines ?ls))\<rparr>"
  have sz': "sp_size t = int (length (join_lines (drop j ls)))" by (subst j(2)) simp
  have w: "wrap64 (sp_size t + ?n) = int (length (join_lines ?ls))"
    using sz' j(4) assms(5) by (subst wrap64_id) auto
  have f: "append_file (Marshal m @ [10]) WriteOK (sp_file t) = Some (join_lines ?ls)"
    using j(3) by (auto simp: append_file_def)
  have "Add False WriteOK WriteOK m s = (None :: 'e spool_error option, ?s')"
    using Add_fits[OF assms(2) j(1), of WriteOK] w f by (simp add: add_ac)
  moreover have "spool_holds ?s' ?ls"
    using assms(1) new by (auto simp: spool_holds_def list_all_iff dest: in_set_dropD)
  moreover have "sp_dropped ?s' = sp_dropped s + of_nat j" by (subst j(2)) simp
  ultimately show ?thesis using j(4-6) by (intro exI[of _ j] exI[of _ ?s']) auto
qed

section \<open>Replay in order\<close>

text \<open>
  The first \<open>i\<close> records were dealt with: those that could be decoded were sent, in order and each
  with success; then either no record is left, or sending the next one failed.
\<close>

definition replayed ::
  "(bytes \<Rightarrow> SpooledMessage option) \<Rightarrow> (SpooledMessage list \<Rightarrow> SpooledMessage \<Rightarrow> 'e option) \<Rightarrow> SpooledMessage list
    \<Rightarrow> bytes list \<Rightarrow> nat \<Rightarrow> 'e option \<Rightarrow> SpooledMessage list \<Rightarrow> bool" where
  "replayed U send c0 ls i err calls \<longleftrightarrow> i \<le> length ls \<and>
     (let sent = List.map_filter U (take i ls) in
      (\<forall>k < length sent. send (c0 @ take k sent) (sent ! k) = None) \<and>
      (if i = length ls then err = None \<and> calls = c0 @ sent
       else \<exists>m e. U (ls ! i) = Some m \<and> send (c0 @ sent) m = Some e \<and> err = Some e \<and> calls = c0 @ sent @ [m]))"

lemma drain_after_error:
  "ds_sendErr st \<noteq> None \<Longrightarrow> \<forall>l \<in> set ls. l \<noteq> [] \<Longrightarrow>
    fold (drain_line U send) ls st = st\<lparr>ds_pending := ds_pending st @ ls\<rparr>"
  by (induction ls arbitrary: st) (auto simp: drain_line_def)

lemma replayed_skip: "U l = None \<Longrightarrow> replayed U send c0 ls i err calls \<Longrightarrow> replayed U send c0 (l # ls) (Suc i) err calls"
  by (auto simp: replayed_def Let_def List.map_filter_simps)

lemma replayed_sent:
  assumes "U l = Some m" "send c0 m = None" "replayed U send (c0 @ [m]) ls i err calls"
  shows "replayed U send c0 (l # ls) (Suc i) err calls"
  using assms by (auto simp: replayed_def Let_def List.map_filter_simps nth_Cons' less_Suc_eq_0_disj)

lemma replayed_failed:
  "U l = Some m \<Longrightarrow> send c0 m = Some e \<Longrightarrow> replayed U send c0 (l # ls) 0 (Some e) (c0 @ [m])"
  by (auto simp: replayed_def List.map_filter_simps)

lemma drain_fold:
  assumes "\<forall>l \<in> set ls. l \<noteq> []" "ds_sendErr st = None" "ds_pending st = []"
  shows "\<exists>i. let st' = fold (drain_line U send) ls st in
           replayed U send (ds_calls st) ls i (ds_sendErr st') (ds_calls st') \<and> ds_pending st' = drop i ls \<and>
           ds_corrupt st' = ds_corrupt st + of_nat (length (filter (\<lambda>l. U l = None) (take i ls)))"
  using assms
proof (induction ls arbitrary: st)
  case Nil
  then show ?case by (auto simp: replayed_def Let_def List.map_filter_simps)
next
  case (Cons l ls)
  have l: "l \<noteq> []" "\<forall>l \<in> set ls. l \<noteq> []" using Cons.prems by auto
  show ?case
  proof (cases "U l")
    case None
    let ?st = "st\<lparr>ds_corrupt := ds_corrupt st + 1\<rparr>"
    have "fold (drain_line U send) (l # ls) st = fold (drain_line U send) ls ?st"
      using l None Cons.prems by (simp add: drain_line_def)
    moreover obtain i where "let st' = fold (drain_line U send) ls ?st in
           replayed U send (ds_calls ?st) ls i (ds_sendErr st') (ds_calls st') \<and> ds_pending st' = drop i ls \<and>
           ds_corrupt st' = ds_corrupt ?st + of_nat (length (filter (\<lambda>l. U l = None) (take i ls)))"
      using Cons.IH[of ?st] l Cons.prems by auto
    ultimately show ?thesis using None
      by (intro exI[of _ "Suc i"]) (auto simp: Let_def replayed_skip)
  next
    case (Some m)
    show ?thesis
    proof (cases "send (ds_calls st) m")
      case None
      let ?st = "st\<lparr>ds_calls := ds_calls st @ [m]\<rparr>"
      have "fold (drain_line U send) (l # ls) st = fold (drain_line U send) ls ?st"
        using l Some None Cons.prems by (simp add: drain_line_def Let_def)
      moreover obtain i where "let st' = fold (drain_line U send) ls ?st in
           replayed U send (ds_calls ?st) ls i (ds_sendErr st') (ds_calls st') \<and> ds_pending st' = drop i ls \<and>
           ds_corrupt st' = ds_corrupt ?st + of_nat (length (filter (\<lambda>l. U l = None) (take i ls)))"
        using Cons.IH[of ?st] l Cons.prems by auto
      ultimately show ?thesis using Some None
        by (intro exI[of _ "Suc i"]) (auto simp: Let_def intro: replayed_sent)
    next
      case (Some e)
      then have "drain_line U send l st = st\<lparr>ds_calls := ds_calls st @ [m], ds_sendErr := Some e, ds_pending := [l]\<rparr>"
        using l \<open>U l = Some m\<close> Cons.prems by (simp add: drain_line_def Let_def)
      then show ?thesis using l Some \<open>U l = Some m\<close> Cons.prems
        by (intro exI[of _ 0]) (auto simp: Let_def drain_after_error intro: replayed_failed)
    qed
  qed
qed

lemma scan_join: "\<forall>l \<in> set ls. scannable l \<Longrightarrow> scan_lines (join_lines ls) = (ls, False)"
  using scan_lines_join[of ls "[]"] by (simp add: scan_lines.simps[of "[]"])

lemma rewriteLocked_good:
  "list_all (\<lambda>l. l \<noteq> [] \<and> scannable l) ls \<Longrightarrow>
     \<exists>s'. rewriteLocked False WriteOK ls s = (None, s') \<and> spool_holds s' ls \<and> sp_corrupt s' = sp_corrupt s \<and>
          (ls = [] \<longrightarrow> sp_file s' = None)"
  by (auto simp: rewriteLocked_def spool_holds_def Let_def)

lemma Drain_in_order_lemma:
  fixes send :: "SpooledMessage list \<Rightarrow> SpooledMessage \<Rightarrow> 'e option"
  assumes "spool_holds s ls"
  shows "\<exists>i err calls s'. Drain good_io U send s = (map_option SendError err, calls, s') \<and>
           replayed U send [] ls i err calls \<and> spool_holds s' (drop i ls) \<and>
           (err = None \<longrightarrow> sp_file s' = None) \<and>
           sp_corrupt s' = sp_corrupt s + of_nat (length (filter (\<lambda>l. U l = None) (take i ls)))"
proof (cases "sp_file s")
  case None
  then show ?thesis using assms
    by (intro exI[of _ 0] exI[of _ None] exI[of _ "[]"] exI[of _ s])
       (auto simp: Drain_def good_io_def replayed_def spool_holds_def List.map_filter_simps)
next
  case (Some d)
  let ?st0 = "\<lparr>ds_pending = [], ds_sendErr = None, ds_corrupt = sp_corrupt s, ds_calls = []\<rparr>"
  define st where "st = fold (drain_line U send) ls ?st0"
  have ls: "d = join_lines ls" "list_all (\<lambda>l. l \<noteq> [] \<and> scannable l) ls"
    using assms Some by (auto simp: spool_holds_def)
  have scan: "scan_file good_io d = (ls, None :: 'e spool_error option)"
    using scan_join[OF spool_holds_lines[OF assms]] ls by (simp add: scan_file_def good_io_def)
  obtain i where i: "replayed U send [] ls i (ds_sendErr st) (ds_calls st)" "ds_pending st = drop i ls"
    "ds_corrupt st = sp_corrupt s + of_nat (length (filter (\<lambda>l. U l = None) (take i ls)))"
    using drain_fold[of ls ?st0 U send] ls(2) unfolding st_def by (auto simp: Let_def list_all_iff)
  have "list_all (\<lambda>l. l \<noteq> [] \<and> scannable l) (drop i ls)"
    using ls(2) by (auto simp: list_all_iff dest: in_set_dropD)
  then obtain s' where s': "rewriteLocked False WriteOK (drop i ls) (s\<lparr>sp_corrupt := ds_corrupt st\<rparr>) = (None :: 'e spool_error option, s')"
      "spool_holds s' (drop i ls)" "sp_corrupt s' = ds_corrupt st" "drop i ls = [] \<longrightarrow> sp_file s' = None"
    using rewriteLocked_good[of "drop i ls" "s\<lparr>sp_corrupt := ds_corrupt st\<rparr>"] by auto
  have "Drain good_io U send s = (map_option SendError (ds_sendErr st), ds_calls st, s')"
    using Some scan s'(1) i(2) unfolding Drain_def st_def
    by (auto simp: Let_def good_io_def split: option.splits)
  moreover have "ds_sendErr st = None \<Longrightarrow> drop i ls = []" using i(1) by (auto simp: replayed_def Let_def split: if_splits)
  ultimately show ?thesis using i s'
    by (intro exI[of _ i] exI[of _ "ds_sendErr st"] exI[of _ "ds_calls st"] exI[of _ s']) auto
qed

section \<open>Adding and replaying\<close>

definition add_all :: "SpooledMessage list \<Rightarrow> spool_fs \<Rightarrow> spool_fs" where
  "add_all = fold (\<lambda>m s. snd (Add False WriteOK WriteOK m s :: unit spool_error option \<times> spool_fs))"

lemma Add_max: "sp_maxBytes (snd (Add rf tw wr m s)) = sp_maxBytes s"
  by (auto simp: Add_def make_room_def Let_def case_prod_beta split: option.splits)

lemma Add_no_drop:
  assumes "spool_holds s ls" "length (Marshal m) < maxTok" "sp_maxBytes s < 2 ^ 62"
    "int (length (join_lines (ls @ [Marshal m]))) \<le> sp_maxBytes s"
  shows "\<exists>s'. Add False WriteOK WriteOK m s = (None :: 'e spool_error option, s') \<and>
    spool_holds s' (ls @ [Marshal m]) \<and> sp_maxBytes s' = sp_maxBytes s"
proof -
  have "sp_size s = int (length (join_lines ls))" using assms(1) by (simp add: spool_holds_def)
  then have "int (length (Marshal m)) + 1 \<le> sp_maxBytes s" "sp_size s \<le> 2 ^ 62" using assms(3,4) by auto
  then obtain j s' where j: "Add False WriteOK WriteOK m s = (None :: 'e spool_error option, s')"
      "spool_holds s' (drop j ls @ [Marshal m])"
      "\<forall>i < j. sp_maxBytes s < int (length (join_lines (drop i ls @ [Marshal m])))"
    using Add_keeps_newest_lemma[OF assms(1) _ assms(2) _ assms(3)] by blast
  have "j = 0" using j(3) assms(4) by (metis drop0 gr0I not_le)
  then show ?thesis using j Add_max[of False WriteOK WriteOK m s, where 'a = 'e] by simp
qed

lemma add_all_holds:
  assumes "spool_holds s ls" "sp_maxBytes s < 2 ^ 62" "\<forall>m \<in> set ms. length (Marshal m) < maxTok"
    "int (length (join_lines (ls @ map Marshal ms))) \<le> sp_maxBytes s"
  shows "spool_holds (add_all ms s) (ls @ map Marshal ms)"
  using assms
proof (induction ms arbitrary: s ls)
  case Nil
  then show ?case by (simp add: add_all_def)
next
  case (Cons m ms)
  then obtain s' where s': "Add False WriteOK WriteOK m s = (None :: unit spool_error option, s')"
      "spool_holds s' (ls @ [Marshal m])" "sp_maxBytes s' = sp_maxBytes s"
    using Add_no_drop[of s ls m, where 'e = unit] by auto
  have "spool_holds (add_all ms s') ((ls @ [Marshal m]) @ map Marshal ms)"
    using Cons.prems s' by (intro Cons.IH) auto
  then show ?case using s'(1) by (simp add: add_all_def)
qed

lemma replayed_all_sent:
  assumes "replayed U (\<lambda>_ _. None :: 'e option) [] ls i err calls"
  shows "i = length ls \<and> err = None \<and> calls = List.map_filter U ls"
  using assms by (auto simp: replayed_def Let_def split: if_splits)

lemma map_filter_decode: "\<forall>m \<in> set ms. U (Marshal m) = Some m \<Longrightarrow> List.map_filter U (map Marshal ms) = ms"
  by (induction ms) (auto simp: List.map_filter_simps)

text \<open>
C29: on a disk that works, with a file of whole lines and a record that fits the cap of the spool and the 4 MB of a line, \<open>Add\<close> appends
the record after the records that are there, dropping the oldest ones, no more of them than needed, and counts each record it drops.
\<close>

theorem Add_keeps_newest:
  assumes "spool_holds s ls" "int (length (Marshal m)) + 1 \<le> sp_maxBytes s" "length (Marshal m) < maxTok"
    "sp_size s \<le> 2 ^ 62" "sp_maxBytes s < 2 ^ 62"
  shows "\<exists>j s'. Add False WriteOK WriteOK m s = (None :: 'e spool_error option, s') \<and> spool_holds s' (drop j ls @ [Marshal m]) \<and>
           sp_dropped s' = sp_dropped s + of_nat j \<and> sp_size s' \<le> sp_maxBytes s \<and> j \<le> length ls \<and>
           (\<forall>i < j. sp_maxBytes s < int (length (join_lines (drop i ls @ [Marshal m]))))"
  using assms by (rule Add_keeps_newest_lemma)

text \<open>
C30: on a disk that works, with a file of whole lines each shorter than the 4 MB a replay can read (\<open>spool_holds\<close>), \<open>Drain\<close> sends the
records in the order they were added, stops at the first one \<open>send\<close> refuses and keeps that record and everything after it on disk; lines
that do not decode are skipped and counted.  The result is the error of \<open>send\<close>, or none once the spool is empty.
\<close>

theorem Drain_in_order:
  fixes send :: "SpooledMessage list \<Rightarrow> SpooledMessage \<Rightarrow> 'e option"
  assumes "spool_holds s ls"
  shows "\<exists>i err calls s'. Drain good_io U send s = (map_option SendError err, calls, s') \<and>
           replayed U send [] ls i err calls \<and> spool_holds s' (drop i ls) \<and>
           (err = None \<longrightarrow> sp_file s' = None) \<and>
           sp_corrupt s' = sp_corrupt s + of_nat (length (filter (\<lambda>l. U l = None) (take i ls)))"
  using assms by (rule Drain_in_order_lemma)

lemma drain_added:
  assumes "NewSpool False False None path cap = Inr s0" "cap < 2 ^ 62"
    "\<forall>m \<in> set ms. U (Marshal m) = Some m \<and> length (Marshal m) < maxTok"
    "int (length (join_lines (map Marshal ms))) \<le> sp_maxBytes s0"
  shows "\<exists>s'. Drain good_io U (\<lambda>_ _. None :: 'e option) (add_all ms s0) = (None, ms, s') \<and> sp_file s' = None \<and> sp_size s' = 0"
proof -
  have "spool_holds s0 []" "sp_maxBytes s0 < 2 ^ 62"
    using assms(1,2) by (auto simp: NewSpool_def spool_holds_def DefaultSpoolMaxBytes_def Let_def split: if_splits)
  then have "spool_holds (add_all ms s0) (map Marshal ms)"
    using add_all_holds[of s0 "[]" ms] assms(3,4) by auto
  from Drain_in_order_lemma[OF this, of U "\<lambda>_ _. None :: 'e option"]
  obtain i err calls s' where d: "Drain good_io U (\<lambda>_ _. None :: 'e option) (add_all ms s0) = (map_option SendError err, calls, s')"
      "replayed U (\<lambda>_ _. None :: 'e option) [] (map Marshal ms) i err calls" "spool_holds s' (drop i (map Marshal ms))"
    "err = None \<longrightarrow> sp_file s' = None"
    by blast
  then show ?thesis using replayed_all_sent[OF d(2)] map_filter_decode[of ms U] assms(3)
    by (auto simp: spool_holds_def)
qed

text \<open>
Messages added to a fresh spool that has room for them come out of \<open>Drain\<close> once the broker accepts
again: all of them, in the order they were added, and the file is gone.  The hypothesis on \<open>U\<close> says
that \<open>json.Unmarshal\<close> reads back the text of these messages.
\<close>

theorem spool_roundtrip:
  assumes "NewSpool False False None path cap = Inr s0" "cap < 2 ^ 62"
    "\<forall>m \<in> set ms. U (Marshal m) = Some m \<and> length (Marshal m) < maxTok"
    "int (length (join_lines (map Marshal ms))) \<le> sp_maxBytes s0"
  shows "\<exists>s'. Drain good_io U (\<lambda>_ _. None :: 'e option) (add_all ms s0) = (None, ms, s') \<and> sp_file s' = None \<and> sp_size s' = 0"
  using assms by (rule drain_added)

section \<open>Where records are lost\<close>

text \<open>
A record longer than the buffer of the scanner ends the replay, and the rewrite that follows
removes the file: the long record and every record after it are deleted without having been sent.
\<open>Add\<close> accepts such records, its only limit is the cap of the whole spool.
\<close>

theorem long_record_loses_rest:
  assumes "sp_file s = Some (join_lines (ls @ l # later))" "list_all (\<lambda>l. l \<noteq> [] \<and> scannable l) ls"
    "10 \<notin> set l" "maxTok \<le> length l"
  shows "\<exists>s'. Drain good_io U (\<lambda>_ _. None :: 'e option) s = (Some ScanTooLong, List.map_filter U ls, s') \<and>
    sp_file s' = None \<and> sp_dropped s' = sp_dropped s"
proof -
  let ?st0 = "\<lparr>ds_pending = [], ds_sendErr = None, ds_corrupt = sp_corrupt s, ds_calls = []\<rparr>"
  define st where "st = fold (drain_line U (\<lambda>_ _. None :: 'e option)) ls ?st0"
  have "scan_lines (join_lines (ls @ l # later)) = (ls, True)"
    using scan_lines_join[of ls "l @ 10 # join_lines later"] scan_lines_too_long[OF assms(3,4)] assms(2)
    by (simp add: list_all_iff)
  then have scan: "scan_file good_io (join_lines (ls @ l # later)) = (ls, Some ScanTooLong :: 'e spool_error option)"
    by (simp add: scan_file_def good_io_def)
  obtain i where "replayed U (\<lambda>_ _. None :: 'e option) [] ls i (ds_sendErr st) (ds_calls st)" "ds_pending st = drop i ls"
    using drain_fold[of ls ?st0 U "\<lambda>_ _. None"] assms(2) unfolding st_def by (auto simp: Let_def list_all_iff)
  then have "ds_sendErr st = None" "ds_calls st = List.map_filter U ls" "ds_pending st = []"
    using replayed_all_sent by fastforce+
  then show ?thesis using assms(1) scan unfolding Drain_def st_def
    by (simp add: good_io_def rewriteLocked_def)
qed

text \<open>
After a write that stopped half way, the next record is appended to the torn one: \<open>Add\<close> reports
success, but the file holds one line made of both, so the second message cannot be replayed either.
\<close>

theorem torn_write_spoils_next:
  assumes "spool_holds s ls" "sp_maxBytes s < 2 ^ 62" "n \<le> length (Marshal m1)"
    "int (length (join_lines (ls @ [Marshal m1, Marshal m2]))) \<le> sp_maxBytes s"
  shows "\<exists>s1 s2. Add False WriteOK (WriteFails n) m1 s = (Some WriteError :: 'e spool_error option, s1) \<and>
     Add False WriteOK WriteOK m2 s1 = (None :: 'e spool_error option, s2) \<and>
     sp_file s2 = Some (join_lines (ls @ [take n (Marshal m1) @ Marshal m2]))"
proof -
  have sz: "sp_size s = int (length (join_lines ls))" using assms(1) by (simp add: spool_holds_def)
  let ?out = "take n (Marshal m1 @ [10])"
  define s1 where "s1 = s\<lparr>sp_file := append_file ?out (WriteFails n) (sp_file s), sp_size := sp_size s + int n\<rparr>"
  have r1: "make_room False WriteOK (int (length (Marshal m1)) + 1) s = (None :: 'e spool_error option, s)"
    using sz assms by (subst make_room_eq) auto
  have w1: "wrap64 (sp_size s + int (length ?out)) = sp_size s + int n"
    using sz assms by (subst wrap64_id) auto
  have a1: "Add False WriteOK (WriteFails n) m1 s = (Some WriteError :: 'e spool_error option, s1)"
    using Add_fits[OF _ r1, of "WriteFails n" ?out "Some WriteError"] assms(4) w1 unfolding s1_def by simp
  have r2: "make_room False WriteOK (int (length (Marshal m2)) + 1) s1 = (None :: 'e spool_error option, s1)"
    using sz assms by (subst make_room_eq) (auto simp: s1_def)
  have f1: "sp_file s1 = Some (join_lines ls @ take n (Marshal m1))"
    using assms(1,3) by (auto simp: s1_def append_file_def spool_holds_def split: option.splits)
  have a2: "\<exists>s2. Add False WriteOK WriteOK m2 s1 = (None :: 'e spool_error option, s2) \<and>
      sp_file s2 = Some (join_lines (ls @ [take n (Marshal m1) @ Marshal m2]))"
    using Add_fits[OF _ r2, of WriteOK "Marshal m2 @ [10]" None] assms(4) f1 by (simp add: s1_def append_file_def)
  from a1 a2 show ?thesis by blast
qed

lemma json_body_ascii:
  "list_all (\<lambda>b. unat b < 128) p \<Longrightarrow> json_body (p @ r) = concat (map escape_ascii p) @ json_body r"
  by (induction p) (auto simp: json_piece_def)

lemma json_body_lone: "128 \<le> unat b \<Longrightarrow> json_body [b] = [92, 117, 102, 102, 102, 100]"
  by (simp add: json_piece_def conts_def Let_def)

lemma unat_char_byte [simp]: "unat (of_nat (of_char c) :: byte) = of_char c"
  unfolding unsigned_of_nat of_nat_id by (rule take_bit_nat_eq_self) simp

text \<open>
A payload that is not valid UTF-8, such as the bytes of a Sparkplug message, does not survive the
spool.  Adding either of two messages whose payloads differ in the last byte does the same to the
file, so there is no decoder that gives both of them back.
\<close>

theorem binary_payload_lost:
  assumes "is_ascii p" "128 \<le> (of_char c :: nat)" "128 \<le> (of_char c' :: nat)" "c \<noteq> c'"
  shows "(Add rf tw wr (m\<lparr>sm_Payload := p @ [c]\<rparr>) s :: 'e spool_error option \<times> spool_fs) =
      Add rf tw wr (m\<lparr>sm_Payload := p @ [c']\<rparr>) s \<and>
    \<not> (U (Marshal (m\<lparr>sm_Payload := p @ [c]\<rparr>)) = Some (m\<lparr>sm_Payload := p @ [c]\<rparr>) \<and>
       U (Marshal (m\<lparr>sm_Payload := p @ [c']\<rparr>)) = Some (m\<lparr>sm_Payload := p @ [c']\<rparr>))"
proof -
  have "list_all (\<lambda>b. unat b < 128) (to_bytes p)"
    using assms(1) by (simp add: is_ascii_def to_bytes_def list_all_iff)
  moreover have "to_bytes (p @ [d]) = to_bytes p @ [of_nat (of_char d)]" for d by (simp add: to_bytes_def)
  ultimately have "json_string (p @ [c]) = json_string (p @ [c'])"
    using assms(2,3) by (simp add: json_string_def json_body_ascii json_body_lone del: json_body.simps)
  then have e: "Marshal (m\<lparr>sm_Payload := p @ [c]\<rparr>) = Marshal (m\<lparr>sm_Payload := p @ [c']\<rparr>)"
    by (simp add: Marshal_def)
  moreover have "m\<lparr>sm_Payload := p @ [c]\<rparr> \<noteq> m\<lparr>sm_Payload := p @ [c']\<rparr>"
    using assms(4) by (metis SpooledMessage.select_convs(4) SpooledMessage.surjective SpooledMessage.update_convs(4) last_snoc)
  ultimately show ?thesis unfolding Add_def e by (metis option.inject)
qed

section \<open>Instances\<close>

definition msg_a :: SpooledMessage where
  "msg_a = \<lparr>sm_Topic = ''a'', sm_QoS = 1, sm_Retained = False, sm_Payload = ''1''\<rparr>"

definition msg_b :: SpooledMessage where
  "msg_b = \<lparr>sm_Topic = ''b'', sm_QoS = 1, sm_Retained = False, sm_Payload = ''2''\<rparr>"

text \<open>A decoder that knows the two records.\<close>

definition sample_U :: "bytes \<Rightarrow> SpooledMessage option" where
  "sample_U l = (if l = Marshal msg_a then Some msg_a else if l = Marshal msg_b then Some msg_b else None)"

text \<open>A spool with one record and room for one.\<close>

definition sample_spool :: spool_fs where
  "sample_spool = \<lparr>sp_path = ''/data/spool'', sp_maxBytes = 40, sp_size = 34, sp_dropped = 0, sp_corrupt = 0,
     sp_file = Some (join_lines [Marshal msg_a])\<rparr>"

lemma Marshal_msg_a: "Marshal msg_a = to_bytes ''{\"t\":\"a\",\"q\":1,\"r\":false,\"p\":\"1\"}''"
  by code_simp

lemma Marshal_msg_b: "Marshal msg_b = to_bytes ''{\"t\":\"b\",\"q\":1,\"r\":false,\"p\":\"2\"}''"
  by code_simp

lemma sample_lengths [simp]: "length (Marshal msg_a) = 33" "length (Marshal msg_b) = 33"
  by (simp_all add: Marshal_msg_a Marshal_msg_b)

lemma sample_scannable [simp]: "scannable (Marshal msg_a)" "scannable (Marshal msg_b)"
  using Marshal_not_newline by (simp_all add: scannable_def maxTok_def)

lemma sample_holds: "spool_holds sample_spool [Marshal msg_a]"
  by (simp add: spool_holds_def sample_spool_def)

lemma sample_decodes: "sample_U (Marshal msg_a) = Some msg_a" "sample_U (Marshal msg_b) = Some msg_b"
  by (auto simp: sample_U_def Marshal_msg_a Marshal_msg_b to_bytes_def)

theorem Add_bounded_witness:
  "file_len (snd (Add False OpenFails (WriteFails 5) msg_b sample_spool :: unit spool_error option \<times> spool_fs)) \<le> 40"
  using Add_bounded[of sample_spool False OpenFails "WriteFails 5" msg_b
      "fst (Add False OpenFails (WriteFails 5) msg_b sample_spool :: unit spool_error option \<times> spool_fs)"
      "snd (Add False OpenFails (WriteFails 5) msg_b sample_spool :: unit spool_error option \<times> spool_fs)"]
  by (simp add: sample_spool_def file_len_def)

theorem Add_keeps_newest_witness:
  "\<exists>j s'. Add False WriteOK WriteOK msg_b sample_spool = (None :: unit spool_error option, s') \<and>
     spool_holds s' (drop j [Marshal msg_a] @ [Marshal msg_b]) \<and> sp_dropped s' = of_nat j \<and> sp_size s' \<le> 40 \<and> j \<le> 1 \<and>
     (\<forall>i < j. 40 < int (length (join_lines (drop i [Marshal msg_a] @ [Marshal msg_b]))))"
  using Add_keeps_newest[OF sample_holds, of msg_b, where 'e = unit]
  by (simp add: sample_spool_def maxTok_def)

theorem Drain_in_order_witness:
  "\<exists>i err calls s'. Drain good_io sample_U (\<lambda>_ _. Some ''refused'') sample_spool = (map_option SendError err, calls, s') \<and>
     replayed sample_U (\<lambda>_ _. Some ''refused'') [] [Marshal msg_a] i err calls \<and> spool_holds s' (drop i [Marshal msg_a])"
  using Drain_in_order[OF sample_holds, of sample_U "\<lambda>_ _. Some ''refused''"] by blast

theorem spool_roundtrip_witness:
  "\<exists>s'. Drain good_io sample_U (\<lambda>_ _. None :: unit option)
          (add_all [msg_a, msg_b] (projr (NewSpool False False None ''/data/spool'' 100 :: unit spool_error + spool_fs)))
        = (None, [msg_a, msg_b], s') \<and> sp_file s' = None"
  using spool_roundtrip[of "''/data/spool''" 100
      "projr (NewSpool False False None ''/data/spool'' 100 :: unit spool_error + spool_fs)" "[msg_a, msg_b]" sample_U, where 'e = unit]
  by (fastforce simp: NewSpool_def sample_decodes maxTok_def)

theorem long_record_loses_rest_witness:
  "\<exists>s'. Drain good_io sample_U (\<lambda>_ _. None :: unit option)
          (sample_spool\<lparr>sp_file := Some (join_lines ([Marshal msg_a] @ replicate maxTok 120 # [Marshal msg_b]))\<rparr>)
        = (Some ScanTooLong, [msg_a], s') \<and> sp_file s' = None"
  using long_record_loses_rest[of "sample_spool\<lparr>sp_file := Some (join_lines ([Marshal msg_a] @ replicate maxTok 120 # [Marshal msg_b]))\<rparr>"
      "[Marshal msg_a]" "replicate maxTok 120" "[Marshal msg_b]" sample_U, where 'e = unit]
  by (auto simp: List.map_filter_simps sample_decodes)

theorem torn_write_spoils_next_witness:
  "\<exists>s1 s2. Add False WriteOK (WriteFails 10) msg_a (sample_spool\<lparr>sp_maxBytes := 200\<rparr>) = (Some WriteError :: unit spool_error option, s1) \<and>
     Add False WriteOK WriteOK msg_b s1 = (None :: unit spool_error option, s2) \<and>
     sp_file s2 = Some (join_lines [Marshal msg_a, take 10 (Marshal msg_a) @ Marshal msg_b])"
  using torn_write_spoils_next[of "sample_spool\<lparr>sp_maxBytes := 200\<rparr>" "[Marshal msg_a]" 10 msg_a msg_b, where 'e = unit] sample_holds
  by (simp add: spool_holds_def sample_spool_def)

theorem binary_payload_lost_witness:
  "(Add False WriteOK WriteOK (msg_a\<lparr>sm_Payload := ''x'' @ [CHR 0xFE]\<rparr>) sample_spool :: unit spool_error option \<times> spool_fs) =
     Add False WriteOK WriteOK (msg_a\<lparr>sm_Payload := ''x'' @ [CHR 0xFF]\<rparr>) sample_spool"
  using binary_payload_lost[of "''x''" "CHR 0xFE" "CHR 0xFF" False WriteOK WriteOK msg_a sample_spool sample_U, where 'e = unit]
  by (simp add: is_ascii_def)

end
