(* ===== verification/Mqtt_Client.thy ===== *)
theory Mqtt_Client
  imports Spool
begin

text \<open>
  The MQTT client of the drivers and services (\<open>internal/mqtt/client.go\<close>): publishing with
  store-and-forward, dispatch of incoming messages to the registered handlers, subscriptions and
  their renewal after a reconnect.

  The paho client (third party) appears through what it answers: whether it is connected, and how
  each request ends (\<open>token\<close>).  A loop that ranges over a Go map takes the order of the keys as an
  argument.  Log lines and the Prometheus gauges are left out.
\<close>

section \<open>State\<close>

datatype 'e token = TokenTimeout | TokenError 'e | TokenOK

datatype 'e mqtt_error =
    NotConnected
  | OpTimeout string
  | Refused 'e

record 'h mqtt_client =
  mc_client :: "bool option"
  mc_handlers :: "string \<rightharpoonup> 'h"
  mc_subscribedTopics :: "string set"
  mc_spool :: "spool_fs option"

text \<open>
  The part of \<open>NewClient\<close> that is not an option of paho: the tables are empty, and the spool is
  opened when a path is configured and left out when it cannot be opened.
\<close>

definition NewClient_state ::
  "bool \<Rightarrow> bool \<Rightarrow> bytes option \<Rightarrow> string \<Rightarrow> int \<Rightarrow> 'h mqtt_client" where
  "NewClient_state mkdirFails statFails disk spoolPath spoolMaxBytes =
     \<lparr>mc_client = Some False, mc_handlers = Map.empty, mc_subscribedTopics = {},
      mc_spool = (if spoolPath = '''' then None
                  else case (NewSpool mkdirFails statFails disk spoolPath spoolMaxBytes :: unit spool_error + spool_fs) of
                         Inl _ \<Rightarrow> None | Inr sp \<Rightarrow> Some sp)\<rparr>"

definition IsConnected_mqtt :: "'h mqtt_client \<Rightarrow> bool" where
  "IsConnected_mqtt c = (case mc_client c of None \<Rightarrow> False | Some b \<Rightarrow> b)"

section \<open>Topics\<close>

definition topicPrefix :: "string \<Rightarrow> string" where
  "topicPrefix topic =
     (let seg = takeWhile (\<lambda>ch. ch \<noteq> CHR ''/'') topic
      in if seg \<in> {''data'', ''sys'', ''spBv1.0''} then seg else ''other'')"

definition level_ok :: "string list \<Rightarrow> string list \<Rightarrow> nat \<Rightarrow> bool" where
  "level_ok subParts recvParts i \<longleftrightarrow> subParts ! i = ''+'' \<or> subParts ! i = recvParts ! i"

definition topicMatch :: "string \<Rightarrow> string \<Rightarrow> bool" where
  "topicMatch subscribedTopic receivedTopic =
     (if subscribedTopic = receivedTopic then True
      else let subParts = split_on CHR ''/'' subscribedTopic;
               recvParts = split_on CHR ''/'' receivedTopic
           in if subParts ! (length subParts - 1) = ''#''
              then (if length subParts > length recvParts then False
                    else list_all (level_ok subParts recvParts) [0..<length subParts - 1])
              else if length subParts \<noteq> length recvParts then False
              else list_all (level_ok subParts recvParts) [0..<length subParts])"

text \<open>
  The handler that is called, if any: the one registered under the topic itself, else the first
  registered filter that matches, in the order in which the map is ranged over.
\<close>

definition handleIncomingMessage :: "string list \<Rightarrow> 'h mqtt_client \<Rightarrow> string \<Rightarrow> 'h option" where
  "handleIncomingMessage order c topic =
     (case mc_handlers c topic of
        Some h \<Rightarrow> Some h
      | None \<Rightarrow> (case find (\<lambda>f. topicMatch f topic) order of
                   Some f \<Rightarrow> mc_handlers c f
                 | None \<Rightarrow> None))"

section \<open>Subscriptions\<close>

definition wait_token :: "'e token \<Rightarrow> string \<Rightarrow> 'e mqtt_error option" where
  "wait_token tok topic = (case tok of TokenTimeout \<Rightarrow> Some (OpTimeout topic) | TokenError e \<Rightarrow> Some (Refused e) | TokenOK \<Rightarrow> None)"

definition Connect_mqtt :: "'e token \<Rightarrow> 'e mqtt_error option" where
  "Connect_mqtt tok = wait_token tok ''''"

definition Subscribe ::
  "'e token \<Rightarrow> string \<Rightarrow> 'h \<Rightarrow> 'h mqtt_client \<Rightarrow> 'e mqtt_error option \<times> 'h mqtt_client" where
  "Subscribe tok topic handler c =
     (let c = c\<lparr>mc_handlers := (mc_handlers c)(topic \<mapsto> handler),
                mc_subscribedTopics := insert topic (mc_subscribedTopics c)\<rparr>
      in case tok of
           TokenTimeout \<Rightarrow> (Some (OpTimeout topic), c)
         | TokenError e \<Rightarrow> (Some (Refused e), c\<lparr>mc_subscribedTopics := mc_subscribedTopics c - {topic}\<rparr>)
         | TokenOK \<Rightarrow> (None, c))"

definition Unsubscribe ::
  "'e token \<Rightarrow> string \<Rightarrow> 'h mqtt_client \<Rightarrow> 'e mqtt_error option \<times> 'h mqtt_client" where
  "Unsubscribe tok topic c =
     (let c = c\<lparr>mc_handlers := (mc_handlers c)(topic := None)\<rparr>
      in case tok of
           TokenTimeout \<Rightarrow> (Some (OpTimeout topic), c)
         | TokenError e \<Rightarrow> (Some (Refused e), c)
         | TokenOK \<Rightarrow> (None, c\<lparr>mc_subscribedTopics := mc_subscribedTopics c - {topic}\<rparr>))"

text \<open>The subscriptions that \<open>onConnect\<close> asks the broker for, each with QoS 1; the replay runs beside it.\<close>

definition onConnect :: "string list \<Rightarrow> 'h mqtt_client \<Rightarrow> string list" where
  "onConnect order c = filter (\<lambda>t. t \<in> mc_subscribedTopics c) order"

section \<open>Publishing\<close>

text \<open>\<open>J\<close> is \<open>json.Marshal\<close> on the dynamic types that are neither bytes nor strings.\<close>

definition payloadBytes :: "(go_value \<Rightarrow> bytes option) \<Rightarrow> go_value \<Rightarrow> bytes option" where
  "payloadBytes J payload = (case payload of VBytes b \<Rightarrow> Some b | VString s \<Rightarrow> Some (to_bytes s) | v \<Rightarrow> J v)"

definition publishNow :: "'e token \<Rightarrow> string \<Rightarrow> 'h mqtt_client \<Rightarrow> 'e mqtt_error option" where
  "publishNow tok topic c = (if \<not> IsConnected_mqtt c then Some NotConnected else wait_token tok topic)"

text \<open>The arguments \<open>rf\<close>, \<open>tw\<close> and \<open>wr\<close> are the outcomes of the disk operations of \<open>Spool.Add\<close>.\<close>

definition PublishWithQoS_mqtt ::
  "(go_value \<Rightarrow> bytes option) \<Rightarrow> bool \<times> write_result \<times> write_result \<Rightarrow> 'e token \<Rightarrow> string \<Rightarrow> go_value
    \<Rightarrow> byte \<Rightarrow> bool \<Rightarrow> 'h mqtt_client \<Rightarrow> 'e mqtt_error option \<times> 'h mqtt_client" where
  "PublishWithQoS_mqtt J dsk tok topic payload qos retained c =
     (case publishNow tok topic c of
        None \<Rightarrow> (None, c)
      | Some err \<Rightarrow>
         (case mc_spool c of
            None \<Rightarrow> (Some err, c)
          | Some sp \<Rightarrow>
             (case payloadBytes J payload of
                None \<Rightarrow> (Some err, c)
              | Some buf \<Rightarrow>
                 let (rf, tw, wr) = dsk;
                     (spErr, sp') = (Add rf tw wr \<lparr>sm_Topic = topic, sm_QoS = qos, sm_Retained = retained, sm_Payload = to_string buf\<rparr> sp
                                      :: unit spool_error option \<times> spool_fs);
                     c' = c\<lparr>mc_spool := Some sp'\<rparr>
                 in (if spErr \<noteq> None then Some err else None, c'))))"

definition Publish_mqtt ::
  "(go_value \<Rightarrow> bytes option) \<Rightarrow> bool \<times> write_result \<times> write_result \<Rightarrow> 'e token \<Rightarrow> string \<Rightarrow> go_value
    \<Rightarrow> 'h mqtt_client \<Rightarrow> 'e mqtt_error option \<times> 'h mqtt_client" where
  "Publish_mqtt J dsk tok topic payload c = PublishWithQoS_mqtt J dsk tok topic payload 0 False c"

text \<open>
  The replay after a reconnect: nothing without a spool, while another replay runs (\<open>busy\<close>) or
  when the spool is empty.  The result has the messages handed to the broker and the number of
  them that were accepted.
\<close>

definition drainSpool ::
  "bool \<Rightarrow> drain_io \<Rightarrow> (bytes \<Rightarrow> SpooledMessage option) \<Rightarrow> (SpooledMessage list \<Rightarrow> SpooledMessage \<Rightarrow> 'e token)
    \<Rightarrow> 'h mqtt_client \<Rightarrow> SpooledMessage list \<times> nat \<times> 'h mqtt_client" where
  "drainSpool busy io U tok c =
     (case mc_spool c of
        None \<Rightarrow> ([], 0, c)
      | Some sp \<Rightarrow>
          if busy then ([], 0, c)
          else if fst (Stats sp) = 0 then ([], 0, c)
          else let send = (\<lambda>calls m. publishNow (tok calls m) (sm_Topic m) c);
                   (err, calls, sp') = Drain io U send sp;
                   sent = length (filter (\<lambda>k. send (take k calls) (calls ! k) = None) [0..<length calls])
               in (calls, sent, c\<lparr>mc_spool := Some sp'\<rparr>))"

section \<open>Matching is the matching of the MQTT standard\<close>

text \<open>
  Topic filters as section 4.7 of the MQTT standard defines them.  On the levels of filter and topic (4.7.1): \<open>+\<close> stands
  for one level, a final \<open>#\<close> for the parent and any number of levels below it.  And a filter that starts with a wildcard does not
  match a topic that starts with \<open>$\<close> (4.7.2).
\<close>

fun level_match :: "string list \<Rightarrow> string list \<Rightarrow> bool" where
  "level_match [] [] = True"
| "level_match [] (t # ts) = False"
| "level_match (f # fs) [] = (f = ''#'' \<and> fs = [])"
| "level_match (f # fs) (t # ts) = (f = ''#'' \<and> fs = [] \<or> (f = ''+'' \<or> f = t) \<and> level_match fs ts)"

definition reserved_topic :: "string \<Rightarrow> string \<Rightarrow> bool" where
  "reserved_topic f t \<longleftrightarrow> (\<exists>f'. f = CHR ''#'' # f' \<or> f = CHR ''+'' # f') \<and> (\<exists>t'. t = CHR ''$'' # t')"

definition mqtt_spec :: "string \<Rightarrow> string \<Rightarrow> bool" where
  "mqtt_spec f t \<longleftrightarrow> level_match (split_on CHR ''/'' f) (split_on CHR ''/'' t) \<and> \<not> reserved_topic f t"

lemma level_match_refl: "level_match fs fs"
  by (induction fs) auto

lemma list_all_upt_Suc: "list_all P [0..<Suc n] \<longleftrightarrow> P 0 \<and> list_all (\<lambda>i. P (Suc i)) [0..<n]"
  by (simp add: upt_conv_Cons map_Suc_upt[symmetric] list.pred_map comp_def del: upt_Suc map_Suc_upt)

lemma level_ok_Suc [simp]: "level_ok (f # fs) (t # ts) (Suc i) = level_ok fs ts i"
  by (simp add: level_ok_def)

lemma level_ok_0 [simp]: "level_ok (f # fs) (t # ts) 0 \<longleftrightarrow> f = ''+'' \<or> f = t"
  by (simp add: level_ok_def)

lemma levels_plain:
  "fs \<noteq> [] \<Longrightarrow> last fs \<noteq> ''#'' \<Longrightarrow>
    level_match fs ts \<longleftrightarrow> length fs = length ts \<and> list_all (level_ok fs ts) [0..<length fs]"
proof (induction fs ts rule: level_match.induct)
  case (4 f fs t ts)
  show ?case
  proof (cases "fs = []")
    case True
    then show ?thesis using 4 by (cases ts) (auto simp: list_all_upt_Suc simp del: upt_Suc)
  next
    case False
    then show ?thesis using 4 by (auto simp: list_all_upt_Suc simp del: upt_Suc)
  qed
qed auto

lemma levels_hash:
  "fs \<noteq> [] \<Longrightarrow> last fs = ''#'' \<Longrightarrow>
    level_match fs ts \<and> length fs \<noteq> Suc (length ts) \<longleftrightarrow>
    length fs \<le> length ts \<and> list_all (level_ok fs ts) [0..<length fs - 1]"
proof (induction fs ts rule: level_match.induct)
  case (4 f fs t ts)
  show ?case
  proof (cases fs)
    case Nil
    then show ?thesis using 4 by auto
  next
    case (Cons g gs)
    then have "level_match fs ts \<and> length fs \<noteq> Suc (length ts) \<longleftrightarrow>
        length fs \<le> length ts \<and> list_all (level_ok fs ts) [0..<length fs - 1]"
      using 4 by auto
    then show ?thesis using Cons by (auto simp: list_all_upt_Suc simp del: upt_Suc)
  qed
qed auto

text \<open>
C36: \<open>topicMatch\<close> decides the matching of the MQTT standard but for two cases, exactly: a filter ending in \<open>/#\<close> does not match its
parent topic, which it should; and a filter that starts with a wildcard matches a topic that starts with \<open>$\<close> when the levels do, which it
should not.
\<close>

theorem topicMatch_standard:
  "topicMatch f t \<longleftrightarrow>
     (mqtt_spec f t \<or> reserved_topic f t \<and> level_match (split_on CHR ''/'' f) (split_on CHR ''/'' t)) \<and>
     \<not> (last (split_on CHR ''/'' f) = ''#'' \<and> length (split_on CHR ''/'' f) = Suc (length (split_on CHR ''/'' t)))"
proof (cases "f = t")
  case True
  then show ?thesis by (auto simp: topicMatch_def level_match_refl mqtt_spec_def)
next
  case False
  let ?f = "split_on CHR ''/'' f" and ?t = "split_on CHR ''/'' t"
  have "?f ! (length ?f - 1) = last ?f" by (simp add: last_conv_nth)
  moreover have "(mqtt_spec f t \<or> reserved_topic f t \<and> level_match ?f ?t) \<longleftrightarrow> level_match ?f ?t" by (auto simp: mqtt_spec_def)
  ultimately show ?thesis
    using False levels_plain[of ?f ?t] levels_hash[of ?f ?t]
    by (auto simp: topicMatch_def Let_def)
qed

text \<open>
An incoming message reaches a handler exactly when one is registered for the topic or for a filter
that matches it, and the handler registered for the topic itself has precedence.
\<close>

theorem dispatch_complete:
  assumes "set order = dom (mc_handlers c)"
  shows "(handleIncomingMessage order c topic \<noteq> None \<longleftrightarrow> (\<exists>f \<in> dom (mc_handlers c). topicMatch f topic)) \<and>
     (\<forall>h. handleIncomingMessage order c topic = Some h \<longrightarrow>
        (\<exists>f. mc_handlers c f = Some h \<and> topicMatch f topic \<and> (f = topic \<or> topic \<notin> dom (mc_handlers c))))"
proof (cases "mc_handlers c topic")
  case None
  show ?thesis
  proof (cases "find (\<lambda>f. topicMatch f topic) order")
    case (Some f)
    then have "f \<in> dom (mc_handlers c)" "topicMatch f topic"
      using assms by (auto simp: find_Some_iff)
    then show ?thesis using None Some by (auto simp: handleIncomingMessage_def)
  next
    case fn: None
    then have "\<forall>f \<in> dom (mc_handlers c). \<not> topicMatch f topic" using assms by (auto simp: find_None_iff)
    then show ?thesis using None fn by (auto simp: handleIncomingMessage_def)
  qed
next
  case (Some h)
  have "topicMatch topic topic" by (simp add: topicMatch_def)
  then show ?thesis using Some by (auto simp: handleIncomingMessage_def)
qed

text \<open>
  A subscription the broker rejects is not renewed, but its handler stays registered and keeps
  receiving what other subscriptions of the client bring in.
\<close>

lemma Subscribe_rejected_keeps_handler:
  "\<exists>c'. Subscribe (TokenError e) topic h c = (Some (Refused e), c') \<and>
     topic \<notin> mc_subscribedTopics c' \<and> mc_handlers c' topic = Some h"
  by (simp add: Subscribe_def Let_def)

section \<open>Store and forward\<close>

text \<open>Messages published one after the other on a disk that works, with the results.\<close>

fun publish_all ::
  "(go_value \<Rightarrow> bytes option) \<Rightarrow> SpooledMessage list \<Rightarrow> 'h mqtt_client \<Rightarrow> 'e mqtt_error option list \<times> 'h mqtt_client" where
  "publish_all J [] c = ([], c)"
| "publish_all J (m # ms) c =
     (let (r, c) = PublishWithQoS_mqtt J (False, WriteOK, WriteOK) TokenTimeout (sm_Topic m) (VString (sm_Payload m))
                     (sm_QoS m) (sm_Retained m) c;
          (rs, c) = publish_all J ms c
      in (r # rs, c))"

lemma message_eta: "\<lparr>sm_Topic = sm_Topic m, sm_QoS = sm_QoS m, sm_Retained = sm_Retained m, sm_Payload = sm_Payload m\<rparr> = m"
  by simp

lemma publish_offline:
  assumes "\<not> IsConnected_mqtt c" "mc_spool c = Some sp"
  shows "PublishWithQoS_mqtt J (False, WriteOK, WriteOK) tok (sm_Topic m) (VString (sm_Payload m)) (sm_QoS m) (sm_Retained m) c =
     (let (e, sp') = (Add False WriteOK WriteOK m sp :: unit spool_error option \<times> spool_fs)
      in (if e = None then None else Some NotConnected, c\<lparr>mc_spool := Some sp'\<rparr>))"
  using assms by (auto simp: PublishWithQoS_mqtt_def publishNow_def payloadBytes_def Let_def message_eta split: prod.splits)

lemma publish_all_spooled:
  assumes "\<not> IsConnected_mqtt c" "mc_spool c = Some sp" "spool_holds sp ls" "sp_maxBytes sp < 2 ^ 62"
    "\<forall>m \<in> set ms. length (Marshal m) < maxTok" "int (length (join_lines (ls @ map Marshal ms))) \<le> sp_maxBytes sp"
  shows "publish_all J ms c = (replicate (length ms) (None :: 'e mqtt_error option), c\<lparr>mc_spool := Some (add_all ms sp)\<rparr>)"
  using assms
proof (induction ms arbitrary: c sp ls)
  case Nil
  then show ?case by (simp add: add_all_def)
next
  case (Cons m ms)
  then obtain sp' where sp': "Add False WriteOK WriteOK m sp = (None :: unit spool_error option, sp')"
      "spool_holds sp' (ls @ [Marshal m])" "sp_maxBytes sp' = sp_maxBytes sp"
    using Add_no_drop[of sp ls m, where 'e = unit] by auto
  let ?c = "c\<lparr>mc_spool := Some sp'\<rparr>"
  have "publish_all J ms ?c = (replicate (length ms) (None :: 'e mqtt_error option), ?c\<lparr>mc_spool := Some (add_all ms sp')\<rparr>)"
    using Cons.prems sp' by (intro Cons.IH[where ls = "ls @ [Marshal m]"]) (auto simp: IsConnected_mqtt_def)
  then show ?case using Cons.prems(1,2) sp'(1) by (simp add: publish_offline add_all_def)
qed

text \<open>
C31: the way of messages through an outage, when nothing else goes wrong: the spool is fresh and big enough for all of them, every record is
shorter than the 4 MB a replay can read, the disk works, and every message is read back from its JSON as it was (\<open>U (Marshal m) = Some m\<close>;
a binary payload is not, see \<open>binary_payload_lost\<close>). Then what is published while the broker is away is accepted, and once the connection is back and the
broker takes every message, the replay hands all of them to it, in the order of publication, and leaves an empty spool.
\<close>

theorem store_and_forward:
  assumes "mc_spool c = Some sp" "NewSpool False False None path cap = Inr sp" "cap < 2 ^ 62" "mc_client c = Some False"
    "\<forall>m \<in> set ms. U (Marshal m) = Some m \<and> length (Marshal m) < maxTok"
    "int (length (join_lines (map Marshal ms))) \<le> sp_maxBytes sp"
  shows "\<exists>c1 c2 sp2. publish_all J ms c = (replicate (length ms) (None :: 'e mqtt_error option), c1) \<and>
     drainSpool False good_io U (\<lambda>_ _. TokenOK :: 'e token) (c1\<lparr>mc_client := Some True\<rparr>) = (ms, length ms, c2) \<and>
     mc_spool c2 = Some sp2 \<and> sp_file sp2 = None"
proof -
  have sp: "spool_holds sp []" "sp_maxBytes sp < 2 ^ 62"
    using assms(2,3) by (auto simp: NewSpool_def spool_holds_def DefaultSpoolMaxBytes_def Let_def split: if_splits)
  let ?c1 = "c\<lparr>mc_spool := Some (add_all ms sp)\<rparr>" and ?c2 = "\<lambda>sp'. c\<lparr>mc_client := Some True, mc_spool := Some sp'\<rparr>"
  have pub: "publish_all J ms c = (replicate (length ms) (None :: 'e mqtt_error option), ?c1)"
    using publish_all_spooled[OF _ assms(1) sp(1,2), of ms J] assms(4-6) by (simp add: IsConnected_mqtt_def)
  have ok: "publishNow (TokenOK :: 'e token) topic (?c1\<lparr>mc_client := Some True\<rparr>) = None" for topic
    by (simp add: publishNow_def IsConnected_mqtt_def wait_token_def)
  have held: "spool_holds (add_all ms sp) (map Marshal ms)"
    using add_all_holds[OF sp(1,2)] assms(5,6) by auto
  obtain sp' where d: "Drain good_io U (\<lambda>_ _. None :: 'e mqtt_error option) (add_all ms sp) = (None, ms, sp')" "sp_file sp' = None"
    using drain_added[OF assms(2,3,5,6), where 'e = "'e mqtt_error"] by blast
  show ?thesis
  proof (cases "ms = []")
    case True
    then have "drainSpool False good_io U (\<lambda>_ _. TokenOK :: 'e token) (?c1\<lparr>mc_client := Some True\<rparr>) = (ms, length ms, ?c2 sp)"
      using held by (simp add: drainSpool_def Stats_def spool_holds_def add_all_def)
    then show ?thesis using pub True assms(2) by (auto simp: NewSpool_def Let_def split: if_splits)
  next
    case False
    then have "fst (Stats (add_all ms sp)) \<noteq> 0" using held by (cases ms) (auto simp: Stats_def spool_holds_def)
    then have "drainSpool False good_io U (\<lambda>_ _. TokenOK :: 'e token) (?c1\<lparr>mc_client := Some True\<rparr>) = (ms, length ms, ?c2 sp')"
      using d(1) ok by (simp add: drainSpool_def)
    then show ?thesis using pub d(2) by auto
  qed
qed

section \<open>Instances\<close>

text \<open>A driver with a spool of 100 bytes, a handler for commands and one for everything of its plant.\<close>

definition sample_client :: "nat mqtt_client" where
  "sample_client = (NewClient_state False False None ''/data/spool'' 100)
     \<lparr>mc_handlers := [''cmd/7'' \<mapsto> 1, ''data/#'' \<mapsto> 2]\<rparr>"

theorem dispatch_complete_witness:
  "handleIncomingMessage [''cmd/7'', ''data/#''] sample_client ''data/x/y'' \<noteq> None"
proof -
  have "''data/#'' \<in> dom (mc_handlers sample_client)" "topicMatch ''data/#'' ''data/x/y''"
    by (simp_all add: sample_client_def topicMatch_def level_ok_def Let_def)
  moreover have "set [''cmd/7'', ''data/#''] = dom (mc_handlers sample_client)"
    by (auto simp: sample_client_def)
  ultimately show ?thesis
    using dispatch_complete[of "[''cmd/7'', ''data/#'']" sample_client "''data/x/y''"] by blast
qed

theorem store_and_forward_witness:
  "\<exists>c1 c2 sp2. publish_all (\<lambda>_. None) [msg_a, msg_b] sample_client = ([None, None :: unit mqtt_error option], c1) \<and>
     drainSpool False good_io sample_U (\<lambda>_ _. TokenOK :: unit token) (c1\<lparr>mc_client := Some True\<rparr>) = ([msg_a, msg_b], 2, c2) \<and>
     mc_spool c2 = Some sp2 \<and> sp_file sp2 = None"
  using store_and_forward[of sample_client "projr (NewSpool False False None ''/data/spool'' 100 :: unit spool_error + spool_fs)"
      "''/data/spool''" 100 "[msg_a, msg_b]" sample_U "\<lambda>_. None", where 'e = unit]
  by (fastforce simp: sample_client_def NewClient_state_def NewSpool_def sample_decodes maxTok_def numeral_2_eq_2)

end
