(* ===== verification/Gateway_Health.thy ===== *)
theory Gateway_Health
  imports Topics Protowire
begin

text \<open>
  The gateway watcher (\<open>internal/gatewayhealth\<close>): what is decided about one gateway, one scan
  over the table of gateways, and the status words on the health topics.

  The columns of the table \<open>gateways\<close> that the watcher reads and writes are a list of rows; a
  query and each update may fail.  The announcer is a log of what it was told.  The state of the
  process (\<open>seen\<close>) is lost on a restart, the table is not.
\<close>

section \<open>Decision\<close>

definition StatusOnline :: string where "StatusOnline = ''online''"
definition StatusOffline :: string where "StatusOffline = ''offline''"
definition StatusError :: string where "StatusError = ''error''"
definition NotifiedNothing :: string where "NotifiedNothing = ''''"
definition NotifiedDown :: string where "NotifiedDown = ''down''"

datatype Action = ActionNone | ActionNotifyDown | ActionNotifyUp

record gw_state =
  GatewayID :: int
  gw_Name :: string
  gw_Status :: string
  ReportedAt :: gotime
  SeenSince :: gotime
  NotifiedAs :: string

text \<open>\<open>Duration.Minutes\<close> and \<open>Duration.Hours\<close>: the whole units and the rest, added in floating point.\<close>

definition in_units :: "duration \<Rightarrow> duration \<Rightarrow> float64" where
  "in_units u d = (let w = sgn d * (\<bar>d\<bar> div u); ns = sgn d * (\<bar>d\<bar> mod u)
     in f64_add (f64_of_int w) (f64_div (f64_of_int ns) (f64_of_int u)))"

definition int_of_f64 :: "float64 \<Rightarrow> int" where
  "int_of_f64 f = (case f64_trunc f of Some i \<Rightarrow> i | None \<Rightarrow> 0)"

definition roughly :: "duration \<Rightarrow> string" where
  "roughly d =
     (if d < Minute then itoa (int_of_f64 (in_units Second d)) @ '' secondi''
      else if d < Hour then itoa (int_of_f64 (in_units Minute d)) @ '' minuti''
      else if d < 48 * Hour then itoa (int_of_f64 (in_units Hour d)) @ '' ore''
      else itoa (int_of_f64 (f64_div (in_units Hour d) (f64_of_int 24))) @ '' giorni'')"

definition down_reason :: "gw_state \<Rightarrow> duration \<Rightarrow> gotime \<Rightarrow> string" where
  "down_reason s silence now =
     (let lastContact = (if IsZero (ReportedAt s) then SeenSince s else ReportedAt s);
          silentFor = Sub now lastContact
      in if gw_Status s = StatusOffline then ''il driver segnala il gateway offline''
         else if gw_Status s = StatusError then ''il driver segnala un errore di comunicazione''
         else if silence > 0 \<and> silentFor \<ge> silence then ''nessun segnale di vita da '' @ roughly silentFor
         else '''')"

definition Decide :: "gw_state \<Rightarrow> duration \<Rightarrow> gotime \<Rightarrow> Action \<times> string" where
  "Decide s silence now =
     (let reason = down_reason s silence now; down = (reason \<noteq> '''')
      in if down \<and> NotifiedAs s \<noteq> NotifiedDown then (ActionNotifyDown, reason)
         else if \<not> down \<and> NotifiedAs s = NotifiedDown then (ActionNotifyUp, '''')
         else (ActionNone, ''''))"

section \<open>Watcher\<close>

record gateway_row =
  gr_id :: int
  gr_name :: string
  gr_enabled :: bool
  gr_status :: "string option"
  gr_reported :: "gotime option"
  gr_notified :: "string option"

datatype announcement = GatewayDown int string string | GatewayUp int string

record watcher =
  wt_silence :: duration
  wt_announcer :: bool
  wt_seen :: "int \<rightharpoonup> gotime"
  wt_table :: "gateway_row list"
  wt_told :: "announcement list"

definition newWatcher :: "bool \<Rightarrow> duration \<Rightarrow> gateway_row list \<Rightarrow> announcement list \<Rightarrow> watcher" where
  "newWatcher a silence tbl told =
     \<lparr>wt_silence = silence, wt_announcer = a, wt_seen = Map.empty, wt_table = tbl, wt_told = told\<rparr>"

definition coalesce :: "string option \<Rightarrow> string" where
  "coalesce x = (case x of None \<Rightarrow> '''' | Some s \<Rightarrow> s)"

definition row_state :: "gateway_row \<Rightarrow> gw_state" where
  "row_state r = \<lparr>GatewayID = gr_id r, gw_Name = gr_name r, gw_Status = coalesce (gr_status r),
     ReportedAt = (case gr_reported r of None \<Rightarrow> 0 | Some t \<Rightarrow> t), SeenSince = 0, NotifiedAs = coalesce (gr_notified r)\<rparr>"

definition EnabledGateways :: "gateway_row list \<Rightarrow> gw_state list" where
  "EnabledGateways tbl = map row_state (filter gr_enabled tbl)"

definition RecordNotified :: "int \<Rightarrow> string \<Rightarrow> gateway_row list \<Rightarrow> gateway_row list" where
  "RecordNotified i notified tbl = map (\<lambda>r. if gr_id r = i then r\<lparr>gr_notified := Some notified\<rparr> else r) tbl"

definition firstSight :: "int \<Rightarrow> gotime \<Rightarrow> (int \<rightharpoonup> gotime) \<Rightarrow> gotime \<times> (int \<rightharpoonup> gotime)" where
  "firstSight i now seen = (case seen i of Some t \<Rightarrow> (t, seen) | None \<Rightarrow> (now, seen(i \<mapsto> now)))"

definition Forget :: "int set \<Rightarrow> (int \<rightharpoonup> gotime) \<Rightarrow> (int \<rightharpoonup> gotime)" where
  "Forget existing seen = (\<lambda>i. if i \<in> existing then seen i else None)"

record pending =
  pd_state :: gw_state
  pd_action :: Action
  pd_reason :: string

fun judge :: "duration \<Rightarrow> gotime \<Rightarrow> gw_state list \<Rightarrow> (int \<rightharpoonup> gotime) \<Rightarrow> pending list \<times> (int \<rightharpoonup> gotime)" where
  "judge silence now [] seen = ([], seen)"
| "judge silence now (s # ss) seen =
     (let (t, seen) = firstSight (GatewayID s) now seen;
          s = s\<lparr>SeenSince := t\<rparr>;
          (action, reason) = Decide s silence now;
          (ds, seen) = judge silence now ss seen
      in (if action \<noteq> ActionNone then \<lparr>pd_state = s, pd_action = action, pd_reason = reason\<rparr> # ds else ds, seen))"

text \<open>\<open>recFails\<close> says for which gateways the update of the table fails.\<close>

definition apply_pending :: "(int \<Rightarrow> bool) \<Rightarrow> pending \<Rightarrow> watcher \<Rightarrow> watcher" where
  "apply_pending recFails d w =
     (let notified = (if pd_action d = ActionNotifyDown then NotifiedDown else NotifiedNothing);
          s = pd_state d
      in if recFails (GatewayID s) then w
         else let w = w\<lparr>wt_table := RecordNotified (GatewayID s) notified (wt_table w)\<rparr>
              in if \<not> wt_announcer w then w
                 else case pd_action d of
                        ActionNotifyDown \<Rightarrow> w\<lparr>wt_told := wt_told w @ [GatewayDown (GatewayID s) (gw_Name s) (pd_reason d)]\<rparr>
                      | ActionNotifyUp \<Rightarrow> w\<lparr>wt_told := wt_told w @ [GatewayUp (GatewayID s) (gw_Name s)]\<rparr>
                      | ActionNone \<Rightarrow> w)"

text \<open>\<open>False\<close> is the error of a failed query.\<close>

definition Scan :: "bool \<Rightarrow> (int \<Rightarrow> bool) \<Rightarrow> gotime \<Rightarrow> watcher \<Rightarrow> bool \<times> watcher" where
  "Scan queryFails recFails now w =
     (if queryFails then (False, w)
      else let states = EnabledGateways (wt_table w);
               (decisions, seen) = judge (wt_silence w) now states (wt_seen w);
               w = w\<lparr>wt_seen := Forget (set (map GatewayID states)) seen\<rparr>
           in (True, fold (apply_pending recFails) decisions w))"

section \<open>Status words\<close>

definition valid_status :: "string \<Rightarrow> string option" where
  "valid_status s = (if s \<in> {StatusOnline, StatusOffline, StatusError} then Some s else None)"

text \<open>
  \<open>UJ\<close> is \<open>json.Unmarshal\<close> into an object with a \<open>status\<close> field (\<open>None\<close> when it fails), \<open>UL\<close> the lower case of
  Unicode.
\<close>

definition ParsePayload :: "(string \<Rightarrow> string) \<Rightarrow> (bytes \<Rightarrow> string option) \<Rightarrow> bytes \<Rightarrow> string option" where
  "ParsePayload UL UJ payload =
     (case valid_status (ToLower UL (TrimSpace (to_string payload))) of
        Some s \<Rightarrow> Some s
      | None \<Rightarrow> (case UJ payload of
                   Some st \<Rightarrow> valid_status (ToLower UL (TrimSpace st))
                 | None \<Rightarrow> None))"

section \<open>What the operator was told\<close>

text \<open>
  The operator's picture of one gateway after an announcement: a second "down" without an "up" in
  between, or an "up" for a gateway that was not announced as down, is nonsense (\<open>None\<close>).
\<close>

fun hear :: "int \<Rightarrow> bool option \<Rightarrow> announcement \<Rightarrow> bool option" where
  "hear i None a = None"
| "hear i (Some down) (GatewayDown j n r) = (if j \<noteq> i then Some down else if down then None else Some True)"
| "hear i (Some down) (GatewayUp j n) = (if j \<noteq> i then Some down else if down then Some False else None)"

definition picture :: "int \<Rightarrow> announcement list \<Rightarrow> bool option" where
  "picture i told = foldl (hear i) (Some False) told"

lemma picture_snoc: "picture i (told @ [a]) = hear i (picture i told) a"
  by (simp add: picture_def)

lemma hear_other [simp]:
  "j \<noteq> i \<Longrightarrow> hear i x (GatewayDown j n r) = x" "j \<noteq> i \<Longrightarrow> hear i x (GatewayUp j n) = x"
  by (cases x; simp)+

definition told_ok :: "watcher \<Rightarrow> bool" where
  "told_ok w \<longleftrightarrow> wt_announcer w \<and> (\<forall>i. picture i (wt_told w) \<noteq> None) \<and>
     (\<forall>r \<in> set (wt_table w). picture (gr_id r) (wt_told w) = Some (gr_notified r = Some NotifiedDown))"

definition pending_ok :: "watcher \<Rightarrow> pending \<Rightarrow> bool" where
  "pending_ok w d \<longleftrightarrow> pd_action d \<noteq> ActionNone \<and>
     picture (GatewayID (pd_state d)) (wt_told w) = Some (pd_action d = ActionNotifyUp)"

lemma coalesce_down: "coalesce x = NotifiedDown \<longleftrightarrow> x = Some NotifiedDown"
  by (auto simp: coalesce_def NotifiedDown_def split: option.splits)

lemma Decide_action:
  "Decide s silence now = (a, r) \<Longrightarrow> a \<noteq> ActionNone \<Longrightarrow> (a = ActionNotifyUp) = (NotifiedAs s = NotifiedDown)"
  by (auto simp: Decide_def Let_def split: if_splits)

lemma judge_pending:
  "d \<in> set (fst (judge silence now ss seen)) \<Longrightarrow>
    pd_action d \<noteq> ActionNone \<and> (\<exists>s \<in> set ss. GatewayID s = GatewayID (pd_state d) \<and> (pd_action d = ActionNotifyUp) = (NotifiedAs s = NotifiedDown))"
proof (induction silence now ss seen rule: judge.induct)
  case (2 silence now s ss seen)
  obtain t seen' where f: "firstSight (GatewayID s) now seen = (t, seen')" by fastforce
  obtain a r where D: "Decide (s\<lparr>SeenSince := t\<rparr>) silence now = (a, r)" by fastforce
  from 2(2) f D have "a \<noteq> ActionNone \<and> d = \<lparr>pd_state = s\<lparr>SeenSince := t\<rparr>, pd_action = a, pd_reason = r\<rparr> \<or>
      d \<in> set (fst (judge silence now ss seen'))"
    by (auto split: prod.splits if_splits)
  then show ?case
  proof
    assume "a \<noteq> ActionNone \<and> d = \<lparr>pd_state = s\<lparr>SeenSince := t\<rparr>, pd_action = a, pd_reason = r\<rparr>"
    then show ?thesis using Decide_action[OF D] by auto
  next
    assume "d \<in> set (fst (judge silence now ss seen'))"
    then show ?thesis using "2.IH"[OF f[symmetric] refl refl D[symmetric] refl] by auto
  qed
qed simp

lemma judge_other:
  assumes "i \<notin> GatewayID ` set ss"
  shows "\<forall>d \<in> set (fst (judge silence now ss seen)). GatewayID (pd_state d) \<noteq> i"
proof
  fix d assume "d \<in> set (fst (judge silence now ss seen))"
  from judge_pending[OF this] show "GatewayID (pd_state d) \<noteq> i" using assms by (metis image_eqI)
qed

lemma judge_distinct:
  "distinct (map GatewayID ss) \<Longrightarrow> distinct (map (GatewayID \<circ> pd_state) (fst (judge silence now ss seen)))"
proof (induction silence now ss seen rule: judge.induct)
  case (2 silence now s ss seen)
  obtain t seen' where f: "firstSight (GatewayID s) now seen = (t, seen')" by fastforce
  obtain a r where D: "Decide (s\<lparr>SeenSince := t\<rparr>) silence now = (a, r)" by fastforce
  have "distinct (map (GatewayID \<circ> pd_state) (fst (judge silence now ss seen')))"
    using "2.IH"[OF f[symmetric] refl refl D[symmetric] refl] "2.prems" by (simp add: comp_def)
  moreover have "\<forall>d \<in> set (fst (judge silence now ss seen')). GatewayID (pd_state d) \<noteq> GatewayID s"
    using "2.prems" by (intro judge_other) simp
  ultimately show ?case using f D by (auto simp: comp_def split: prod.splits)
qed simp

lemma apply_pending_ok:
  assumes "told_ok w" "pending_ok w d"
  shows "told_ok (apply_pending recFails d w)"
proof -
  have "picture i (wt_told (apply_pending recFails d w)) \<noteq> None" for i
    using assms by (cases "pd_action d"; cases "GatewayID (pd_state d) = i")
      (auto simp: told_ok_def pending_ok_def apply_pending_def Let_def picture_snoc)
  then show ?thesis using assms by (cases "pd_action d")
    (auto simp: told_ok_def pending_ok_def apply_pending_def Let_def RecordNotified_def picture_snoc
      NotifiedDown_def NotifiedNothing_def)
qed

lemma apply_pending_other:
  assumes "pending_ok w e" "GatewayID (pd_state e) \<noteq> GatewayID (pd_state d)"
  shows "pending_ok (apply_pending recFails d w) e"
  using assms by (cases "pd_action d")
    (auto simp: pending_ok_def apply_pending_def Let_def picture_snoc split: option.splits)

lemma apply_all_ok:
  assumes "told_ok w" "\<forall>d \<in> set ds. pending_ok w d" "distinct (map (GatewayID \<circ> pd_state) ds)"
  shows "told_ok (fold (apply_pending recFails) ds w)"
  using assms
proof (induction ds arbitrary: w)
  case (Cons d ds)
  then have "told_ok (apply_pending recFails d w)" by (auto intro: apply_pending_ok)
  moreover have "\<forall>e \<in> set ds. pending_ok (apply_pending recFails d w) e"
    using Cons.prems by (auto intro!: apply_pending_other) (metis image_eqI)
  ultimately show ?case using Cons by auto
qed simp

lemma scan_pending_ok:
  assumes "told_ok w" "d \<in> set (fst (judge silence now (EnabledGateways (wt_table w)) seen))"
  shows "pending_ok (w\<lparr>wt_seen := sn\<rparr>) d"
proof -
  from judge_pending[OF assms(2)] obtain r where r: "r \<in> set (wt_table w)" "gr_id r = GatewayID (pd_state d)"
      "(pd_action d = ActionNotifyUp) = (gr_notified r = Some NotifiedDown)" "pd_action d \<noteq> ActionNone"
    by (auto simp: EnabledGateways_def row_state_def coalesce_down)
  then show ?thesis using assms(1) by (simp add: pending_ok_def told_ok_def) metis
qed

definition distinct_ids :: "gateway_row list \<Rightarrow> bool" where
  "distinct_ids tbl \<longleftrightarrow> distinct (map gr_id tbl)"

lemma EnabledGateways_distinct: "distinct_ids tbl \<Longrightarrow> distinct (map GatewayID (EnabledGateways tbl))"
  by (auto simp: distinct_ids_def EnabledGateways_def row_state_def distinct_map comp_def intro: inj_on_subset)

lemma Scan_ok:
  assumes "told_ok w" "distinct_ids (wt_table w)"
  shows "told_ok (snd (Scan qf rf now w))"
proof (cases qf)
  case False
  obtain ds seen where j: "judge (wt_silence w) now (EnabledGateways (wt_table w)) (wt_seen w) = (ds, seen)" by fastforce
  let ?w = "w\<lparr>wt_seen := Forget (set (map GatewayID (EnabledGateways (wt_table w)))) seen\<rparr>"
  have "told_ok ?w" using assms(1) by (simp add: told_ok_def)
  then have "told_ok (fold (apply_pending rf) ds ?w)"
    using scan_pending_ok[OF assms(1)] judge_distinct[OF EnabledGateways_distinct[OF assms(2)]] j
    by (intro apply_all_ok) (metis fst_conv)+
  then show ?thesis using False j by (simp add: Scan_def)
qed (use assms in \<open>simp add: Scan_def\<close>)

lemma apply_pending_ids [simp]: "map gr_id (wt_table (apply_pending rf d w)) = map gr_id (wt_table w)"
  by (cases "pd_action d") (auto simp: apply_pending_def Let_def RecordNotified_def)

lemma Scan_ids: "map gr_id (wt_table (snd (Scan qf rf now w))) = map gr_id (wt_table w)"
proof -
  have "map gr_id (wt_table (fold (apply_pending rf) ds v)) = map gr_id (wt_table v)" for ds v
    by (rule fold_frame[where g = "\<lambda>w. map gr_id (wt_table w)"]) (rule apply_pending_ids)
  then show ?thesis by (simp add: Scan_def Let_def split: prod.splits)
qed

section \<open>Runs\<close>

definition about :: "announcement \<Rightarrow> int" where
  "about a = (case a of GatewayDown i n r \<Rightarrow> i | GatewayUp i n \<Rightarrow> i)"

text \<open>
  What the rest of the system does to the table: statuses, names and the enabled flag change, rows
  are deleted and created; nobody else writes the notified state, and a new row has an identifier
  of its own.
\<close>

definition table_change :: "announcement list \<Rightarrow> gateway_row list \<Rightarrow> gateway_row list \<Rightarrow> bool" where
  "table_change told tbl tbl' \<longleftrightarrow> distinct_ids tbl' \<and>
     list_all (\<lambda>r'. list_ex (\<lambda>r. gr_id r = gr_id r' \<and> gr_notified r = gr_notified r') tbl \<or>
       (list_all (\<lambda>a. about a \<noteq> gr_id r') told \<and> gr_notified r' \<noteq> Some NotifiedDown)) tbl'"

inductive gw_reach :: "watcher \<Rightarrow> bool" where
  start: "distinct_ids tbl \<Longrightarrow> list_all (\<lambda>r. gr_notified r \<noteq> Some NotifiedDown) tbl \<Longrightarrow> gw_reach (newWatcher True silence tbl [])"
| scan: "gw_reach w \<Longrightarrow> gw_reach (snd (Scan qf rf now w))"
| restart: "gw_reach w \<Longrightarrow> gw_reach (newWatcher True silence (wt_table w) (wt_told w))"
| change: "gw_reach w \<Longrightarrow> table_change (wt_told w) (wt_table w) tbl \<Longrightarrow> gw_reach (w\<lparr>wt_table := tbl\<rparr>)"

lemma picture_unheard:
  assumes "list_all (\<lambda>a. about a \<noteq> i) told"
  shows "picture i told = Some False"
proof -
  have "foldl (hear i) x told = x" for x
    using assms
  proof (induction told arbitrary: x)
    case (Cons a told)
    then show ?case by (cases a) (auto simp: about_def)
  qed simp
  then show ?thesis by (simp add: picture_def)
qed

lemma gw_reach_ok: "gw_reach w \<Longrightarrow> told_ok w \<and> distinct_ids (wt_table w)"
proof (induction rule: gw_reach.induct)
  case (start tbl silence)
  then show ?case by (auto simp: told_ok_def newWatcher_def picture_def list_all_iff)
next
  case (scan w qf rf now)
  then show ?case using Scan_ok[of w qf rf now] Scan_ids[of qf rf now w] by (simp add: distinct_ids_def)
next
  case (restart w silence)
  then show ?case by (simp add: told_ok_def newWatcher_def)
next
  case (change w tbl)
  have "picture (gr_id r) (wt_told w) = Some (gr_notified r = Some NotifiedDown)" if "r \<in> set tbl" for r
    using change that picture_unheard[of "gr_id r" "wt_told w"]
    by (fastforce simp: table_change_def told_ok_def list_all_iff list_ex_iff)
  then show ?case using change by (auto simp: told_ok_def table_change_def)
qed

text \<open>
C13: in every run of scans, driver reports, edits of the gateway table and restarts of the process, with
any query and any update failing, the operator hears "down" and "up" of each gateway in
alternation, and the stored state is the one the operator was told last.
\<close>

theorem outage_announced_once:
  assumes "gw_reach w"
  shows "(\<forall>i. picture i (wt_told w) \<noteq> None) \<and>
     (\<forall>r \<in> set (wt_table w). picture (gr_id r) (wt_told w) = Some (gr_notified r = Some NotifiedDown))"
  using gw_reach_ok[OF assms] by (simp add: told_ok_def)

section \<open>A scan settles the state of every gateway\<close>

lemma judge_complete:
  assumes "distinct (map GatewayID ss)" "s \<in> set ss"
    "Decide (s\<lparr>SeenSince := fst (firstSight (GatewayID s) now seen)\<rparr>) silence now = (a, r)"
  shows "(a \<noteq> ActionNone \<longrightarrow> (\<exists>d \<in> set (fst (judge silence now ss seen)). GatewayID (pd_state d) = GatewayID s \<and> pd_action d = a)) \<and>
         (a = ActionNone \<longrightarrow> (\<forall>d \<in> set (fst (judge silence now ss seen)). GatewayID (pd_state d) \<noteq> GatewayID s))"
  using assms
proof (induction silence now ss seen rule: judge.induct)
  case (2 silence now x ss seen)
  obtain t seen' where f: "firstSight (GatewayID x) now seen = (t, seen')" by fastforce
  obtain b q where D: "Decide (x\<lparr>SeenSince := t\<rparr>) silence now = (b, q)" by fastforce
  have rest: "\<forall>d \<in> set (fst (judge silence now ss seen')). GatewayID (pd_state d) \<noteq> GatewayID x"
    using "2.prems"(1) by (intro judge_other) simp
  have j: "fst (judge silence now (x # ss) seen) =
      (if b \<noteq> ActionNone then [\<lparr>pd_state = x\<lparr>SeenSince := t\<rparr>, pd_action = b, pd_reason = q\<rparr>] else []) @ fst (judge silence now ss seen')"
    using f D by (auto split: prod.splits)
  show ?case
  proof (cases "s = x")
    case True
    then have "a = b" using "2.prems"(3) f D by simp
    then show ?thesis unfolding j using rest True by auto
  next
    case False
    then have s: "s \<in> set ss" "GatewayID s \<noteq> GatewayID x"
      using "2.prems"(1,2) by (auto simp: image_iff)
    have "fst (firstSight (GatewayID s) now seen') = fst (firstSight (GatewayID s) now seen)"
      using f s(2) by (auto simp: firstSight_def split: option.splits)
    then have "Decide (s\<lparr>SeenSince := fst (firstSight (GatewayID s) now seen')\<rparr>) silence now = (a, r)"
      using "2.prems"(3) by simp
    from "2.IH"[OF f[symmetric] refl refl D[symmetric] refl _ s(1) this] "2.prems"(1)
    show ?thesis unfolding j using s(2) by auto
  qed
qed simp

lemma fold_apply_other:
  "\<forall>d \<in> set ds. GatewayID (pd_state d) \<noteq> i \<Longrightarrow> picture i (wt_told (fold (apply_pending rf) ds w)) = picture i (wt_told w)"
  by (rule fold_frame[where g = "\<lambda>w. picture i (wt_told w)"])
     (auto simp: apply_pending_def Let_def picture_snoc split: Action.splits)

lemma fold_apply_one:
  assumes "told_ok w" "\<forall>d \<in> set ds. pending_ok w d" "distinct (map (GatewayID \<circ> pd_state) ds)" "d \<in> set ds"
  shows "picture (GatewayID (pd_state d)) (wt_told (fold (apply_pending (\<lambda>_. False)) ds w)) = Some (pd_action d = ActionNotifyDown)"
  using assms
proof (induction ds arbitrary: w)
  case (Cons e ds)
  let ?w = "apply_pending (\<lambda>_. False) e w"
  have new: "\<forall>x \<in> set ds. GatewayID (pd_state x) \<noteq> GatewayID (pd_state e)" using Cons.prems(3) by (auto simp: image_iff)
  have ok: "told_ok ?w" "\<forall>d \<in> set ds. pending_ok ?w d"
    using Cons.prems(1,2) apply_pending_ok[of w e] apply_pending_other[of w _ e] new by auto
  show ?case
  proof (cases "d = e")
    case True
    have "picture (GatewayID (pd_state e)) (wt_told ?w) = Some (pd_action e = ActionNotifyDown)"
      using Cons.prems(1,2) by (cases "pd_action e") (auto simp: pending_ok_def told_ok_def apply_pending_def Let_def picture_snoc)
    then show ?thesis using True fold_apply_other[OF new, of "\<lambda>_. False" ?w] by simp
  next
    case False
    then show ?thesis using Cons.IH[OF ok] Cons.prems by auto
  qed
qed simp

lemma Decide_down:
  "Decide s silence now = (a, r) \<Longrightarrow>
    (a = ActionNotifyDown \<longrightarrow> down_reason s silence now \<noteq> '''') \<and> (a = ActionNotifyUp \<longrightarrow> down_reason s silence now = '''') \<and>
    (a = ActionNone \<longrightarrow> (NotifiedAs s = NotifiedDown) = (down_reason s silence now \<noteq> ''''))"
  by (auto simp: Decide_def Let_def split: if_splits)

lemma Scan_settles_lemma:
  assumes "told_ok w" "distinct_ids (wt_table w)" "g \<in> set (wt_table w)" "gr_enabled g"
  shows "picture (gr_id g) (wt_told (snd (Scan False (\<lambda>_. False) now w))) =
     Some (down_reason ((row_state g)\<lparr>SeenSince := fst (firstSight (gr_id g) now (wt_seen w))\<rparr>) (wt_silence w) now \<noteq> '''')"
proof -
  let ?ss = "EnabledGateways (wt_table w)" and ?s = "(row_state g)\<lparr>SeenSince := fst (firstSight (gr_id g) now (wt_seen w))\<rparr>"
  obtain ds seen where j: "judge (wt_silence w) now ?ss (wt_seen w) = (ds, seen)" by fastforce
  obtain a r where D: "Decide ?s (wt_silence w) now = (a, r)" by fastforce
  let ?w = "w\<lparr>wt_seen := Forget (set (map GatewayID ?ss)) seen\<rparr>"
  have S: "wt_told (snd (Scan False (\<lambda>_. False) now w)) = wt_told (fold (apply_pending (\<lambda>_. False)) ds ?w)"
    using j by (simp add: Scan_def)
  have dist: "distinct (map GatewayID ?ss)" by (rule EnabledGateways_distinct[OF assms(2)])
  have in_ss: "row_state g \<in> set ?ss" "GatewayID (row_state g) = gr_id g"
    using assms(3,4) by (auto simp: EnabledGateways_def row_state_def)
  have jc: "(a \<noteq> ActionNone \<longrightarrow> (\<exists>d \<in> set ds. GatewayID (pd_state d) = gr_id g \<and> pd_action d = a)) \<and>
      (a = ActionNone \<longrightarrow> (\<forall>d \<in> set ds. GatewayID (pd_state d) \<noteq> gr_id g))"
    using judge_complete[OF dist in_ss(1), of now "wt_seen w" "wt_silence w" a r] D j in_ss(2) by simp
  have ds: "ds = fst (judge (wt_silence w) now ?ss (wt_seen w))" using j by simp
  have ok: "told_ok ?w" "\<forall>d \<in> set ds. pending_ok ?w d" "distinct (map (GatewayID \<circ> pd_state) ds)"
    using assms(1) scan_pending_ok[OF assms(1)] judge_distinct[OF dist] unfolding ds by (auto simp: told_ok_def)
  have before: "picture (gr_id g) (wt_told w) = Some (NotifiedAs ?s = NotifiedDown)"
    using assms(1,3) by (auto simp: told_ok_def row_state_def coalesce_down)
  show ?thesis
  proof (cases "a = ActionNone")
    case True
    then show ?thesis using Decide_down[OF D] jc before fold_apply_other[of ds "gr_id g" "\<lambda>_. False" ?w] unfolding S by simp
  next
    case False
    with jc obtain d where d: "d \<in> set ds" "GatewayID (pd_state d) = gr_id g" "pd_action d = a" by blast
    then show ?thesis using fold_apply_one[OF ok d(1)] Decide_down[OF D] False unfolding S by (cases a) auto
  qed
qed

text \<open>
C14: after a scan whose queries and updates succeed, the operator knows of every enabled gateway whether
it is down: its driver reported so, or it has been silent for the configured time, counted from
its last report or, if it never reported, from the moment the watcher first saw it.
\<close>

theorem Scan_settles:
  assumes "gw_reach w" "g \<in> set (wt_table w)" "gr_enabled g"
  shows "picture (gr_id g) (wt_told (snd (Scan False (\<lambda>_. False) now w))) =
     Some (down_reason ((row_state g)\<lparr>SeenSince := fst (firstSight (gr_id g) now (wt_seen w))\<rparr>) (wt_silence w) now \<noteq> '''')"
  using Scan_settles_lemma gw_reach_ok[OF assms(1)] assms(2,3) by blast

text \<open>
A gateway that is switched on again after a long pause is announced as down by the first scan that
sees it, because its last report is older than the allowed silence; the window that starts when
the watcher first sees a gateway only helps gateways that never reported.
\<close>

theorem reenabled_gateway_announced:
  assumes "gw_reach w" "g \<in> set (wt_table w)" "gr_enabled g" "wt_seen w (gr_id g) = None"
    "gr_status g = Some StatusOnline" "gr_reported g = Some t" "t \<noteq> 0" "0 < wt_silence w" "wt_silence w \<le> Sub now t"
  shows "picture (gr_id g) (wt_told (snd (Scan False (\<lambda>_. False) now w))) = Some True"
  using Scan_settles_lemma[of w g now] gw_reach_ok[OF assms(1)] assms(2-)
  by (simp add: down_reason_def row_state_def coalesce_def IsZero_def StatusOnline_def StatusOffline_def StatusError_def)

section \<open>Instances\<close>

text \<open>A gateway that last reported an hour before it was switched on again, watched with a silence of six minutes.\<close>

definition sample_gateway :: gateway_row where
  "sample_gateway = \<lparr>gr_id = 7, gr_name = ''press'', gr_enabled = True, gr_status = Some ''online'',
     gr_reported = Some (1000 * Hour), gr_notified = None\<rparr>"

definition sample_watcher :: watcher where
  "sample_watcher = newWatcher True (6 * Minute) [sample_gateway] []"

lemma sample_watcher_reach: "gw_reach sample_watcher"
  unfolding sample_watcher_def by (rule gw_reach.start) (simp_all add: distinct_ids_def sample_gateway_def)

theorem outage_announced_once_witness:
  "picture 7 (wt_told (snd (Scan False (\<lambda>_. True) (1001 * Hour) (snd (Scan False (\<lambda>_. False) (1001 * Hour) sample_watcher))))) \<noteq> None"
  using outage_announced_once[OF gw_reach.scan[OF gw_reach.scan[OF sample_watcher_reach]]] by blast

theorem Scan_settles_witness:
  "picture 7 (wt_told (snd (Scan False (\<lambda>_. False) (1000 * Hour + Minute) sample_watcher))) = Some False"
  using Scan_settles[OF sample_watcher_reach, of sample_gateway "1000 * Hour + Minute"]
  by (simp add: sample_watcher_def sample_gateway_def newWatcher_def down_reason_def row_state_def coalesce_def IsZero_def
      StatusOffline_def StatusError_def Sub_def Hour_def Minute_def Second_def)

theorem reenabled_gateway_announced_witness:
  "picture 7 (wt_told (snd (Scan False (\<lambda>_. False) (1001 * Hour) sample_watcher))) = Some True"
  using reenabled_gateway_announced[OF sample_watcher_reach, of sample_gateway "1000 * Hour" "1001 * Hour"]
  by (simp add: sample_watcher_def sample_gateway_def newWatcher_def StatusOnline_def Sub_def Hour_def Minute_def Second_def)

end
