(* ===== verification/Scaling.thy ===== *)
theory Scaling
  imports Go_Base
begin

text \<open>
  Conversion between the raw counts of a device and engineering units (\<open>internal/scaling\<close>) and
  the tag rows it is configured from (\<open>internal/models/tag.go\<close>).  All arithmetic is IEEE binary64,
  with the rounding of every operation.
\<close>

section \<open>Tags and their conversion\<close>

text \<open>The columns of a tag that the drivers load; times and display settings are left out.\<close>

record tag =
  tg_ID :: int
  tg_GatewayID :: int
  tg_Code :: string
  tg_Alias :: string
  tg_DataType :: string
  ScalingEnabled :: bool
  ScalingRawMin :: float64
  ScalingRawMax :: float64
  ScalingEuMin :: float64
  ScalingEuMax :: float64
  ScalingClamp :: bool
  tg_Invert :: bool

record scaling_config =
  sc_Enabled :: bool
  RawMin :: float64
  RawMax :: float64
  EuMin :: float64
  EuMax :: float64
  sc_Clamp :: bool
  sc_Invert :: bool

definition FromTag :: "tag \<Rightarrow> scaling_config" where
  "FromTag t = \<lparr>sc_Enabled = ScalingEnabled t, RawMin = ScalingRawMin t, RawMax = ScalingRawMax t,
     EuMin = ScalingEuMin t, EuMax = ScalingEuMax t, sc_Clamp = ScalingClamp t, sc_Invert = tg_Invert t\<rparr>"

text \<open>\<open>math.Min\<close> and \<open>math.Max\<close>, with their special cases.\<close>

definition f64_is_inf :: "bool \<Rightarrow> float64 \<Rightarrow> bool" where
  "f64_is_inf neg x \<longleftrightarrow> fp_inf binary64 (f64_unpack x) \<and> fst (f64_unpack x) = neg"

definition f64_qnan :: float64 where
  "f64_qnan = f64_pack (fp_qnan binary64)"

definition f64_min :: "float64 \<Rightarrow> float64 \<Rightarrow> float64" where
  "f64_min x y =
     (if f64_is_inf True x then x else if f64_is_inf True y then y
      else if f64_nan x \<or> f64_nan y then f64_qnan
      else if f64_eq x 0 \<and> f64_eq x y then (if fst (f64_unpack x) then x else y)
      else if f64_lt x y then x else y)"

definition f64_max :: "float64 \<Rightarrow> float64 \<Rightarrow> float64" where
  "f64_max x y =
     (if f64_is_inf False x then x else if f64_is_inf False y then y
      else if f64_nan x \<or> f64_nan y then f64_qnan
      else if f64_eq x 0 \<and> f64_eq x y then (if fst (f64_unpack x) then y else x)
      else if f64_lt y x then x else y)"

fun toFloat64_scaling :: "go_value \<Rightarrow> float64 option" where
  "toFloat64_scaling (VFloat64 x) = Some x"
| "toFloat64_scaling (VFloat32 x) = Some (f64_of_f32 x)"
| "toFloat64_scaling (VInt x) = Some (f64_of_int (sint x))"
| "toFloat64_scaling (VInt32 x) = Some (f64_of_int (sint x))"
| "toFloat64_scaling (VInt64 x) = Some (f64_of_int (sint x))"
| "toFloat64_scaling (VUint x) = Some (f64_of_int (uint x))"
| "toFloat64_scaling (VUint32 x) = Some (f64_of_int (uint x))"
| "toFloat64_scaling (VUint64 x) = Some (f64_of_int (uint x))"
| "toFloat64_scaling _ = None"

text \<open>The limits of the engineering range, in order.\<close>

definition eu_lo :: "scaling_config \<Rightarrow> float64" where
  "eu_lo cfg = f64_min (EuMin cfg) (EuMax cfg)"

definition eu_hi :: "scaling_config \<Rightarrow> float64" where
  "eu_hi cfg = f64_max (EuMin cfg) (EuMax cfg)"

definition clamp_eu :: "scaling_config \<Rightarrow> float64 \<Rightarrow> float64" where
  "clamp_eu cfg eu = (if f64_lt eu (eu_lo cfg) then eu_lo cfg else if f64_lt (eu_hi cfg) eu then eu_hi cfg else eu)"

definition Apply :: "go_value \<Rightarrow> scaling_config \<Rightarrow> go_value" where
  "Apply raw cfg =
     (if \<not> sc_Enabled cfg then raw
      else case raw of
        VBool v \<Rightarrow> VBool (if sc_Invert cfg then \<not> v else v)
      | _ \<Rightarrow>
        (case toFloat64_scaling raw of
           None \<Rightarrow> raw
         | Some r \<Rightarrow>
            let span = f64_sub (RawMax cfg) (RawMin cfg) in
            if f64_eq span 0 then raw
            else let eu = f64_add (f64_mul (f64_div (f64_sub r (RawMin cfg)) span) (f64_sub (EuMax cfg) (EuMin cfg))) (EuMin cfg)
                 in VFloat64 (if sc_Clamp cfg then clamp_eu cfg eu else eu)))"

datatype scaling_error = ErrOutOfRange float64 float64 float64

definition Reverse :: "go_value \<Rightarrow> scaling_config \<Rightarrow> scaling_error + go_value" where
  "Reverse eu cfg =
     (if \<not> sc_Enabled cfg then Inr eu
      else case eu of
        VBool v \<Rightarrow> Inr (VBool (if sc_Invert cfg then \<not> v else v))
      | _ \<Rightarrow>
        (case toFloat64_scaling eu of
           None \<Rightarrow> Inr eu
         | Some e \<Rightarrow>
            let euSpan = f64_sub (EuMax cfg) (EuMin cfg) in
            if f64_eq euSpan 0 then Inr eu
            else if f64_lt e (eu_lo cfg) \<or> f64_lt (eu_hi cfg) e then Inl (ErrOutOfRange e (eu_lo cfg) (eu_hi cfg))
            else Inr (VFloat64 (f64_add (f64_mul (f64_div (f64_sub e (EuMin cfg)) euSpan) (f64_sub (RawMax cfg) (RawMin cfg))) (RawMin cfg)))))"

section \<open>Range\<close>

lemma f64_min_le_max: "\<not> f64_lt (f64_max x y) (f64_min x y)"
  by (auto simp: f64_min_def f64_max_def f64_lt_def f64_eq_def f64_nan_def f64_is_inf_def fp_less_def fp_eq_def
      fp_inf_def fp_key_def fp_nan_def)

lemma f64_lt_irrefl [simp]: "\<not> f64_lt x x"
  by (simp add: f64_lt_def fp_less_def)

lemma clamp_in_range: "\<not> f64_lt (clamp_eu cfg eu) (eu_lo cfg) \<and> \<not> f64_lt (eu_hi cfg) (clamp_eu cfg eu)"
proof -
  define lo where "lo = eu_lo cfg"
  define hi where "hi = eu_hi cfg"
  have "\<not> f64_lt hi lo" unfolding lo_def hi_def eu_lo_def eu_hi_def by (rule f64_min_le_max)
  then show ?thesis unfolding clamp_eu_def lo_def[symmetric] hi_def[symmetric]
    by (cases "f64_lt eu lo"; cases "f64_lt hi eu"; simp)
qed

text \<open>
With clamping, a converted number never lies outside the configured engineering range, whatever the
rounding does and whichever way round the range is configured.
\<close>

theorem Apply_clamped:
  assumes "sc_Enabled cfg" "sc_Clamp cfg" "Apply raw cfg = VFloat64 eu" "raw \<noteq> VFloat64 eu"
  shows "\<not> f64_lt eu (eu_lo cfg) \<and> \<not> f64_lt (eu_hi cfg) eu"
  using assms clamp_in_range[of cfg]
  by (cases raw) (auto simp: Apply_def Let_def split: if_splits option.splits)

text \<open>
\<open>Reverse\<close> refuses a number exactly when it lies outside the engineering range, and then reports the
number and the range; every setpoint that \<open>Reverse\<close> lets through on a scaled tag is in range.
\<close>

theorem Reverse_refuses_outside:
  assumes "sc_Enabled cfg" "toFloat64_scaling eu = Some e" "\<not> f64_eq (f64_sub (EuMax cfg) (EuMin cfg)) 0"
  shows "(Reverse eu cfg = Inl (ErrOutOfRange e (eu_lo cfg) (eu_hi cfg)) \<longleftrightarrow> f64_lt e (eu_lo cfg) \<or> f64_lt (eu_hi cfg) e) \<and>
    (\<forall>raw. Reverse eu cfg = Inr raw \<longrightarrow> \<not> f64_lt e (eu_lo cfg) \<and> \<not> f64_lt (eu_hi cfg) e)"
  using assms by (cases eu) (auto simp: Reverse_def Let_def)

text \<open>
  A 16-bit integer, which is what the Modbus and S7 drivers read for an \<open>INT\<close> tag, is never
  converted: the raw count goes out although the tag is configured as scaled.
\<close>

lemma int16_not_scaled_lemma: "Apply (VInt16 raw) cfg = VInt16 raw" "Apply (VUint16 uraw) cfg = VUint16 uraw"
  by (simp_all add: Apply_def)

section \<open>Instances\<close>

text \<open>A transmitter of 0..27648 counts for 0..100 bar; 500 bar is the setpoint that does not fit.\<close>

definition sample_scaling :: scaling_config where
  "sample_scaling = \<lparr>sc_Enabled = True, RawMin = 0, RawMax = 0x40DB000000000000, EuMin = 0,
     EuMax = 0x4059000000000000, sc_Clamp = True, sc_Invert = False\<rparr>"

lemma f64_sub_zero:
  assumes "fp_finite binary64 (f64_unpack x)" "snd (f64_unpack x) \<noteq> 0"
  shows "\<not> f64_eq (f64_sub x 0) 0"
proof -
  have z: "f64_unpack 0 = (False, 0)" by (simp add: f64_unpack_def)
  have "f64_unpack (f64_sub x 0) = fp_round binary64 (fst (f64_unpack x)) (fp_val binary64 (f64_unpack x))"
    using assms(1) unfolding f64_unpack_add z fp_add_def by (simp add: fp_nan_def fp_inf_def fp_finite_def fp_neg_def fp_val_def binary64_def)
  moreover have "fp_key (fp_round binary64 (fst (f64_unpack x)) (fp_val binary64 (f64_unpack x))) = fp_key (f64_unpack x)"
    by (rule fp_key_round_val) (use assms(1) in \<open>simp add: fp_finite_def\<close>)
  ultimately show ?thesis using assms(2) by (simp add: f64_eq_def fp_eq_def z fp_key_def split: if_splits)
qed

lemma sample_spans: "\<not> f64_eq (f64_sub 0x40DB000000000000 0) 0" "\<not> f64_eq (f64_sub 0x4059000000000000 0) 0"
  by (rule f64_sub_zero; simp add: f64_unpack_def fp_finite_def binary64_def)+

theorem Apply_clamped_witness:
  "\<exists>eu. Apply (VInt32 30000) sample_scaling = VFloat64 eu \<and> \<not> f64_lt (eu_hi sample_scaling) eu"
proof -
  obtain eu where eu: "Apply (VInt32 30000) sample_scaling = VFloat64 eu"
    using sample_spans(1) by (simp add: Apply_def sample_scaling_def Let_def)
  then show ?thesis
    using Apply_clamped[of sample_scaling "VInt32 30000" eu] by (simp add: sample_scaling_def)
qed

theorem Reverse_refuses_outside_witness:
  "Reverse (VFloat64 0x407F400000000000) sample_scaling =
     Inl (ErrOutOfRange 0x407F400000000000 (eu_lo sample_scaling) (eu_hi sample_scaling))"
proof -
  have "f64_lt (eu_hi sample_scaling) 0x407F400000000000" unfolding eu_hi_def sample_scaling_def by code_simp
  then show ?thesis
    using Reverse_refuses_outside[of sample_scaling "VFloat64 0x407F400000000000"] sample_spans(2)
    by (simp add: sample_scaling_def)
qed

end
