(* ===== verification/Commands.thy ===== *)
theory Commands
  imports Protowire
begin

text \<open>
  Which write commands may still be executed (\<open>internal/commands/freshness.go\<close>), the command body
  (\<open>internal/models/writecommand.go\<close>) and the text an operator reads when one is refused.
  Durations are 64-bit; a configured number of seconds is multiplied with wrap-around.
\<close>

section \<open>Validity\<close>

record WriteCommand =
  wc_TagID :: int
  wc_Code :: string
  wc_Value :: go_value
  wc_DataType :: string
  wc_IssuedAt :: int
  wc_RecipeRunID :: int

definition NewWriteCommand :: "int \<Rightarrow> int \<Rightarrow> string \<Rightarrow> go_value \<Rightarrow> string \<Rightarrow> WriteCommand" where
  "NewWriteCommand nowMs tagID code val dataType =
     \<lparr>wc_TagID = tagID, wc_Code = code, wc_Value = val, wc_DataType = dataType, wc_IssuedAt = nowMs, wc_RecipeRunID = 0\<rparr>"

definition DefaultMaxAge :: duration where
  "DefaultMaxAge = 30 * Second"

definition MinMaxAge :: duration where
  "MinMaxAge = 5 * Second"

definition MaxAgeFromSeconds :: "int \<Rightarrow> duration" where
  "MaxAgeFromSeconds s =
     (if s \<le> 0 then DefaultMaxAge
      else let d = secs s in if d < MinMaxAge then MinMaxAge else d)"

definition Fresh :: "int \<Rightarrow> gotime \<Rightarrow> duration \<Rightarrow> bool \<times> duration" where
  "Fresh issuedAtMs now maxAge =
     (if issuedAtMs \<le> 0 then (True, 0)
      else let age = Sub now (UnixMilli issuedAtMs)
           in if age > maxAge \<or> age < wrap64 (- maxAge) then (False, age) else (True, age))"

text \<open>
  The setting as the database has it: \<open>None\<close> without a database or when the query fails or
  finds no row.
\<close>

definition MaxAgeFromDB :: "string option \<Rightarrow> duration" where
  "MaxAgeFromDB v =
     (case v of
        None \<Rightarrow> DefaultMaxAge
      | Some s \<Rightarrow> (case Atoi (TrimSpace s) of None \<Rightarrow> DefaultMaxAge | Some n \<Rightarrow> MaxAgeFromSeconds n))"

section \<open>The message\<close>

text \<open>\<open>Duration.Round\<close>: to the nearest multiple, halves away from zero, the ends of the range on overflow.\<close>

definition Round :: "duration \<Rightarrow> duration \<Rightarrow> duration" where
  "Round m d =
     (if m \<le> 0 then d
      else let r = \<bar>d\<bar> mod m in
        if d < 0 then
          (if r + r < m then wrap64 (d + r)
           else let d1 = wrap64 (d - m + r) in if d1 < d then d1 else - (2 ^ 63))
        else
          (if r + r < m then wrap64 (d - r)
           else let d1 = wrap64 (d + m - r) in if d1 > d then d1 else 2 ^ 63 - 1))"

text \<open>The fraction \<open>n / 10^k\<close> without trailing zeros, with its point, or nothing.\<close>

definition pad_digits :: "nat \<Rightarrow> nat \<Rightarrow> string" where
  "pad_digits k n = (let ds = nat_digits n in replicate (k - length ds) (CHR ''0'') @ ds)"

definition frac_digits :: "nat \<Rightarrow> nat \<Rightarrow> string" where
  "frac_digits k n =
     (let ds = rev (dropWhile (\<lambda>c. c = CHR ''0'') (rev (pad_digits k n)))
      in if n = 0 then '''' else CHR ''.'' # ds)"

text \<open>\<open>Duration.String\<close>.\<close>

definition duration_string :: "duration \<Rightarrow> string" where
  "duration_string d =
     (let u = nat \<bar>d\<bar>; sign = (if d < 0 then ''-'' else '''') in
      if u = 0 then ''0s''
      else if u < 1000 then sign @ nat_digits u @ ''ns''
      else if u < 1000000 then sign @ nat_digits (u div 1000) @ frac_digits 3 (u mod 1000) @ byte_string [194, 181, 115]
      else if u < 1000000000 then sign @ nat_digits (u div 1000000) @ frac_digits 6 (u mod 1000000) @ ''ms''
      else let s = u div 1000000000; frac = frac_digits 9 (u mod 1000000000); m = s div 60; h = m div 60
           in sign @ (if 0 < h then nat_digits h @ ''h'' else '''')
                   @ (if 0 < m then nat_digits (m mod 60) @ ''m'' else '''')
                   @ nat_digits (s mod 60) @ frac @ ''s'')"

definition dash :: string where
  "dash = byte_string [32, 226, 128, 148, 32]"

definition RefusalMessage :: "duration \<Rightarrow> duration \<Rightarrow> string" where
  "RefusalMessage age maxAge =
     (if age < 0 then
        ''command refused: issued '' @ duration_string (Round Second (wrap64 (- age))) @ '' in the future'' @ dash @
        ''the clocks of the server and of this machine disagree; check NTP on both''
      else
        ''command expired: issued '' @ duration_string (Round Second age) @ '' ago, valid for '' @ duration_string maxAge @ dash @
        ''not executed, send it again if it is still wanted'')"

section \<open>Stale commands are refused\<close>

lemma MaxAgeFromSeconds_bounds: "MinMaxAge \<le> MaxAgeFromSeconds s \<and> MaxAgeFromSeconds s < 2 ^ 63 - 1"
proof -
  have w: "wrap64 x < 2 ^ 63" for x by (simp add: wrap64_def pos_mod_bound)
  have e: "even (wrap64 (s * Second))"
  proof -
    have "even (s * Second)" by (simp add: Second_def)
    moreover have "wrap64 x = x - 2 ^ 64 * ((x + 2 ^ 63) div 2 ^ 64)" for x
      unfolding wrap64_def by (simp add: minus_mult_div_eq_mod [symmetric])
    ultimately show ?thesis by simp
  qed
  then have "wrap64 (s * Second) \<noteq> 2 ^ 63 - 1" by auto
  with w[of "s * Second"] have "secs s < 2 ^ 63 - 1" by (simp add: secs_def)
  then show ?thesis by (auto simp: MaxAgeFromSeconds_def MinMaxAge_def DefaultMaxAge_def Second_def Let_def)
qed

lemma MaxAgeFromDB_bounds: "MinMaxAge \<le> MaxAgeFromDB v \<and> MaxAgeFromDB v < 2 ^ 63 - 1"
  using MaxAgeFromSeconds_bounds
  by (auto simp: MaxAgeFromDB_def MinMaxAge_def DefaultMaxAge_def Second_def split: option.splits)

lemma Fresh_iff:
  assumes "0 < issued" "0 \<le> maxAge" "maxAge < 2 ^ 63 - 1"
  shows "fst (Fresh issued now maxAge) \<longleftrightarrow> \<bar>now - UnixMilli issued\<bar> \<le> maxAge"
proof -
  have "wrap64 (- maxAge) = - maxAge" using assms by (intro wrap64_id) auto
  then show ?thesis using assms by (auto simp: Fresh_def Let_def Sub_def)
qed

text \<open>
Whatever the setting in the database says, a stamped command is executed only while the clock is
within the validity of its stamp, before or after; the validity is never below five seconds, so
there is no setting that switches the check off in either direction.
\<close>

theorem stale_command_refused:
  assumes "0 < issued"
  shows "5 * Second \<le> MaxAgeFromDB v \<and>
    (fst (Fresh issued now (MaxAgeFromDB v)) \<longleftrightarrow> \<bar>now - UnixMilli issued\<bar> \<le> MaxAgeFromDB v)"
  using Fresh_iff[OF assms, of "MaxAgeFromDB v"] MaxAgeFromDB_bounds[of v] by (simp add: MinMaxAge_def Second_def)

theorem stale_command_refused_witness:
  "\<not> fst (Fresh 1700000000000 (UnixMilli 1700000040000) (MaxAgeFromDB (Some '' 20 '')))"
proof -
  have "MaxAgeFromDB (Some '' 20 '') = 20 * Second" by code_simp
  then show ?thesis
    using stale_command_refused[of 1700000000000 "Some '' 20 ''" "UnixMilli 1700000040000"]
    by (simp add: UnixMilli_def unix_zero_ms_def Millisecond_def Second_def)
qed

text \<open>
  A configured validity of up to nine billion seconds is taken as it is, raised to five seconds when
  it is shorter; zero and negative numbers give the default.
\<close>

lemma MaxAge_configured:
  assumes "\<bar>s\<bar> \<le> 9000000000"
  shows "MaxAgeFromSeconds s = (if s \<le> 0 then 30 * Second else max (5 * Second) (s * Second))"
  using secs_id[OF assms] by (auto simp: MaxAgeFromSeconds_def DefaultMaxAge_def MinMaxAge_def Let_def)

text \<open>Larger numbers wrap around: 18446744074 seconds are taken for the shortest validity.\<close>

lemma MaxAge_wraps: "MaxAgeFromSeconds 18446744074 = MinMaxAge"
  by code_simp

end
