(* ===== verification/Rbe.thy ===== *)
theory Rbe
  imports Go_Base
begin

text \<open>
  Report by exception (\<open>internal/settings/settings.go\<close>): which readings of a tag are published.  The
  settings are loaded from the table \<open>global_settings\<close>, given as a map from keys to texts;
  \<open>strconv.ParseFloat\<close> is the argument \<open>PF\<close>.  \<open>now\<close> is the clock.
\<close>

section \<open>Settings\<close>

datatype PublishMode = LegacyOnly | SparkplugOnly | Dual

record GlobalSettings =
  gs_PublishMode :: PublishMode
  gs_RetainLastValues :: bool
  RBEHeartbeatSeconds :: int
  RBEDeadbandPercent :: float64
  WriteCommandMaxAgeSeconds :: int

record settings_manager =
  sm_config :: "GlobalSettings option"
  sm_lastPublish :: "int \<rightharpoonup> gotime"
  sm_published :: int
  sm_skipped :: int

text \<open>\<open>strconv.ParseBool\<close>.\<close>

definition ParseBool :: "string \<Rightarrow> bool option" where
  "ParseBool s =
     (if s \<in> set [''1'', ''t'', ''T'', ''TRUE'', ''true'', ''True''] then Some True
      else if s \<in> set [''0'', ''f'', ''F'', ''FALSE'', ''false'', ''False''] then Some False else None)"

definition parseBool :: "string \<Rightarrow> bool \<Rightarrow> bool" where
  "parseBool s def = (if s = '''' then def else case ParseBool s of None \<Rightarrow> def | Some b \<Rightarrow> b)"

definition parseInt :: "string \<Rightarrow> int \<Rightarrow> int" where
  "parseInt s def = (case Atoi s of None \<Rightarrow> def | Some v \<Rightarrow> v)"

definition parseFloat :: "(string \<Rightarrow> float64 option) \<Rightarrow> string \<Rightarrow> float64 \<Rightarrow> float64" where
  "parseFloat PF s def = (case PF s of None \<Rightarrow> def | Some v \<Rightarrow> v)"

text \<open>0.5 as a binary64 number.\<close>

definition half :: float64 where
  "half = 0x3FE0000000000000"

definition default_settings :: GlobalSettings where
  "default_settings = \<lparr>gs_PublishMode = Dual, gs_RetainLastValues = True, RBEHeartbeatSeconds = 60,
     RBEDeadbandPercent = half, WriteCommandMaxAgeSeconds = 0\<rparr>"

text \<open>An unknown mode counts as dual.\<close>

definition publish_mode :: "string \<Rightarrow> PublishMode" where
  "publish_mode s = (if s = ''legacy_only'' then LegacyOnly else if s = ''sparkplug_only'' then SparkplugOnly else Dual)"

text \<open>\<open>None\<close> is a failed query, which leaves the settings as they are.\<close>

definition Load_settings ::
  "(string \<Rightarrow> float64 option) \<Rightarrow> (string \<rightharpoonup> string) option \<Rightarrow> settings_manager \<Rightarrow> bool \<times> settings_manager" where
  "Load_settings PF rows m =
     (case rows of
        None \<Rightarrow> (False, m)
      | Some kv \<Rightarrow>
          let get = (\<lambda>k. case kv k of None \<Rightarrow> '''' | Some v \<Rightarrow> v) in
          (True, m\<lparr>sm_config := Some
             \<lparr>gs_PublishMode = publish_mode (get ''publish_mode''),
              gs_RetainLastValues = parseBool (get ''retain_last_values'') True,
              RBEHeartbeatSeconds = parseInt (get ''rbe_heartbeat_seconds'') 60,
              RBEDeadbandPercent = parseFloat PF (get ''rbe_deadband_percent'') half,
              WriteCommandMaxAgeSeconds = parseInt (get ''write_command_max_age_seconds'') 0\<rparr>\<rparr>))"

definition NewManager_settings :: "(string \<Rightarrow> float64 option) \<Rightarrow> (string \<rightharpoonup> string) option \<Rightarrow> settings_manager" where
  "NewManager_settings PF rows =
     (let (ok, m) = Load_settings PF rows \<lparr>sm_config = None, sm_lastPublish = Map.empty, sm_published = 0, sm_skipped = 0\<rparr>
      in if ok then m else m\<lparr>sm_config := Some default_settings\<rparr>)"

definition Get_settings :: "settings_manager \<Rightarrow> GlobalSettings" where
  "Get_settings m = (case sm_config m of None \<Rightarrow> default_settings | Some c \<Rightarrow> c)"

section \<open>Values\<close>

definition f32_sub :: "float32 \<Rightarrow> float32 \<Rightarrow> float32" where
  "f32_sub a b = f32_pack (fp_sub binary32 (f32_unpack a) (f32_unpack b))"

definition f32_eq :: "float32 \<Rightarrow> float32 \<Rightarrow> bool" where
  "f32_eq a b \<longleftrightarrow> fp_eq binary32 (f32_unpack a) (f32_unpack b)"

text \<open>The deadband around the new value \<open>av\<close>, both as binary64.\<close>

definition within_deadband :: "float64 \<Rightarrow> float64 \<Rightarrow> float64 \<Rightarrow> bool" where
  "within_deadband av diff percent =
     f64_le (f64_abs diff) (f64_div (f64_mul (f64_abs av) percent) (f64_of_int 100))"

text \<open>
  \<open>None\<close> is the run-time panic of comparing two slices; the types that no clause names are taken to be
  comparable.
\<close>

definition valuesEqual_rbe :: "go_value \<Rightarrow> go_value \<Rightarrow> float64 \<Rightarrow> bool option" where
  "valuesEqual_rbe a b percent =
     (if a = VNil \<and> b = VNil then Some True
      else if a = VNil \<or> b = VNil then Some False
      else case a of
        VFloat64 av \<Rightarrow>
          (case b of VFloat64 bv \<Rightarrow>
             Some (if f64_lt 0 percent \<and> \<not> f64_eq av 0 then within_deadband av (f64_sub av bv) percent else f64_eq av bv)
           | _ \<Rightarrow> Some False)
      | VFloat32 av \<Rightarrow>
          (case b of VFloat32 bv \<Rightarrow>
             Some (if f64_lt 0 percent \<and> \<not> f32_eq av 0
                   then within_deadband (f64_of_f32 av) (f64_of_f32 (f32_sub av bv)) percent else f32_eq av bv)
           | _ \<Rightarrow> Some False)
      | VBytes _ \<Rightarrow> (case b of VBytes _ \<Rightarrow> None | _ \<Rightarrow> Some False)
      | _ \<Rightarrow> Some (a = b))"

section \<open>The decision\<close>

definition updateLastPublish :: "int \<Rightarrow> gotime \<Rightarrow> settings_manager \<Rightarrow> settings_manager" where
  "updateLastPublish tagID now m = m\<lparr>sm_lastPublish := (sm_lastPublish m)(tagID \<mapsto> now)\<rparr>"

definition recordPublish :: "settings_manager \<Rightarrow> settings_manager" where
  "recordPublish m = m\<lparr>sm_published := sm_published m + 1\<rparr>"

definition recordSkip :: "settings_manager \<Rightarrow> settings_manager" where
  "recordSkip m = m\<lparr>sm_skipped := sm_skipped m + 1\<rparr>"

definition heartbeat_due :: "gotime \<Rightarrow> int \<Rightarrow> gotime option \<Rightarrow> bool" where
  "heartbeat_due now hb lastPub =
     (if hb = 0 then True
      else if hb > 0 then (case lastPub of None \<Rightarrow> True | Some t \<Rightarrow> Sub now t > secs hb)
      else False)"

definition ShouldPublish ::
  "gotime \<Rightarrow> int \<Rightarrow> go_value \<Rightarrow> go_value \<Rightarrow> int \<Rightarrow> int \<Rightarrow> settings_manager \<Rightarrow> (bool \<times> settings_manager) option" where
  "ShouldPublish now tagID newValue oldValue newQuality oldQuality m =
     (case sm_config m of
        None \<Rightarrow> Some (True, m)
      | Some cfg \<Rightarrow>
          if newQuality \<noteq> oldQuality then Some (True, updateLastPublish tagID now (recordPublish m))
          else case valuesEqual_rbe newValue oldValue (RBEDeadbandPercent cfg) of
                 None \<Rightarrow> None
               | Some False \<Rightarrow> Some (True, updateLastPublish tagID now (recordPublish m))
               | Some True \<Rightarrow>
                   if heartbeat_due now (RBEHeartbeatSeconds cfg) (sm_lastPublish m tagID)
                   then Some (True, updateLastPublish tagID now (recordPublish m))
                   else Some (False, recordSkip m))"

definition GetMetrics :: "settings_manager \<Rightarrow> (int \<times> int \<times> float64) \<times> settings_manager" where
  "GetMetrics m =
     (let published = sm_published m; skipped = sm_skipped m; total = published + skipped;
          saved = (if total > 0 then f64_mul (f64_div (f64_of_int skipped) (f64_of_int total)) (f64_of_int 100) else 0)
      in ((published, skipped, saved), m\<lparr>sm_published := 0, sm_skipped := 0\<rparr>))"

text \<open>What a skipped reading means.\<close>

lemma skipped_reading:
  assumes "ShouldPublish now tagID new old q q' m = Some (False, m')"
  shows "\<exists>cfg. sm_config m = Some cfg \<and> q = q' \<and> valuesEqual_rbe new old (RBEDeadbandPercent cfg) = Some True \<and>
    \<not> heartbeat_due now (RBEHeartbeatSeconds cfg) (sm_lastPublish m tagID) \<and> m' = recordSkip m"
  using assms by (auto simp: ShouldPublish_def split: option.splits if_splits bool.splits)

lemma published_reading:
  assumes "ShouldPublish now tagID new old q q' m = Some (True, m')" "sm_config m \<noteq> None"
  shows "m' = updateLastPublish tagID now (recordPublish m)"
  using assms by (auto simp: ShouldPublish_def split: option.splits if_splits bool.splits)

text \<open>
While the heartbeat is configured, a tag that keeps being read is published at least once per
heartbeat: a reading is only skipped when the last publication is at most that long ago, the
quality is the same and the value lies within the deadband of the value published last.
\<close>

theorem skipped_only_when_quiet:
  assumes "ShouldPublish now tagID new old q q' m = Some (False, m')" "sm_config m = Some cfg" "0 < RBEHeartbeatSeconds cfg"
  shows "q = q' \<and> valuesEqual_rbe new old (RBEDeadbandPercent cfg) = Some True \<and>
    (\<exists>t. sm_lastPublish m tagID = Some t \<and> Sub now t \<le> secs (RBEHeartbeatSeconds cfg)) \<and> sm_lastPublish m' = sm_lastPublish m"
  using skipped_reading[OF assms(1)] assms(2,3)
  by (auto simp: heartbeat_due_def recordSkip_def split: option.splits if_splits)

definition sample_settings :: settings_manager where
  "sample_settings = \<lparr>sm_config = Some default_settings, sm_lastPublish = [5 \<mapsto> 0], sm_published = 1, sm_skipped = 0\<rparr>"

theorem skipped_only_when_quiet_witness:
  "\<exists>t. sm_lastPublish sample_settings 5 = Some t \<and> Sub (10 * Second) t \<le> secs 60"
proof -
  have "ShouldPublish (10 * Second) 5 (VInt16 3) (VInt16 3) 0 0 sample_settings = Some (False, recordSkip sample_settings)"
    by (simp add: ShouldPublish_def sample_settings_def default_settings_def valuesEqual_rbe_def heartbeat_due_def
        Sub_def secs_def wrap64_def Second_def)
  from skipped_only_when_quiet[OF this, of default_settings] show ?thesis
    by (auto simp: sample_settings_def default_settings_def)
qed

end
