(* ===== verification/Big_Endian.thy ===== *)
theory Big_Endian
  imports Go_Base
begin

text \<open>
  Big-endian integers in byte buffers (\<open>encoding/binary\<close>), and the conversion of numbers from JSON to the integers
  written to a device, as the clients of Modbus and S7 devices use them.
\<close>

definition be16 :: "byte \<Rightarrow> byte \<Rightarrow> 16 word" where
  "be16 hi lo = of_nat (unat hi * 256 + unat lo)"

definition be32 :: "bytes \<Rightarrow> 32 word" where
  "be32 b = of_nat (((unat (b ! 0) * 256 + unat (b ! 1)) * 256 + unat (b ! 2)) * 256 + unat (b ! 3))"

definition put16 :: "16 word \<Rightarrow> bytes" where
  "put16 w = [of_nat (unat w div 256), of_nat (unat w mod 256)]"

definition put32 :: "32 word \<Rightarrow> bytes" where
  "put32 w = [of_nat (unat w div 16777216), of_nat (unat w div 65536 mod 256), of_nat (unat w div 256 mod 256), of_nat (unat w mod 256)]"

text \<open>Conversion of a number to an integer type; what does not fit is up to the implementation of Go.\<close>

definition conv_num :: "go_impl \<Rightarrow> int \<Rightarrow> int \<Rightarrow> float64 \<Rightarrow> int" where
  "conv_num G lo hi v = float_conv G lo hi (VFloat64 v) (f64_trunc v)"

lemma unat_byte: "n < 256 \<Longrightarrow> unat (of_nat n :: byte) = n"
  by (simp add: unsigned_of_nat take_bit_nat_eq_self)

lemma unat_word16: "n < 65536 \<Longrightarrow> unat (of_nat n :: 16 word) = n"
  by (simp add: unsigned_of_nat take_bit_nat_eq_self)

lemma length_put [simp]: "length (put16 w) = 2" "length (put32 v) = 4"
  by (simp_all add: put16_def put32_def)

lemma be16_bytes: "be16 (of_nat (unat w div 256)) (of_nat (unat w mod 256)) = (w :: 16 word)"
proof -
  have "unat w < 65536" using unsigned_less[of w, where ?'a = nat] by simp
  then have "unat w div 256 < 256" by (simp add: less_mult_imp_div_less)
  then show ?thesis by (simp add: be16_def unat_byte)
qed

lemma be16_split: "[of_nat (unat (be16 x y) div 256), of_nat (unat (be16 x y) mod 256)] = [x, y]"
proof -
  have xy: "unat x < 256" "unat y < 256" using unsigned_less[of x, where ?'a = nat] unsigned_less[of y, where ?'a = nat] by simp_all
  then have "unat (be16 x y) = unat x * 256 + unat y" unfolding be16_def by (intro unat_word16) simp
  then show ?thesis using xy by simp
qed

lemma be32_put32: "be32 (put32 w @ rest) = w"
proof -
  have w: "unat w < 4294967296" using unsigned_less[of w, where ?'a = nat] by simp
  then have a: "unat w div 16777216 < 256" by (simp add: less_mult_imp_div_less)
  have sum: "((unat w div 16777216 * 256 + unat w div 65536 mod 256) * 256 + unat w div 256 mod 256) * 256 + unat w mod 256 = unat w"
  proof -
    have "unat w div 16777216 * 256 + unat w div 65536 mod 256 = unat w div 65536"
      using div_mult_mod_eq[of "unat w div 65536" 256] by (simp add: div_mult2_eq [symmetric])
    moreover have "unat w div 65536 * 256 + unat w div 256 mod 256 = unat w div 256"
      using div_mult_mod_eq[of "unat w div 256" 256] by (simp add: div_mult2_eq [symmetric])
    ultimately show ?thesis using div_mult_mod_eq[of "unat w" 256] by simp
  qed
  show ?thesis using a sum by (simp add: be32_def put32_def unat_byte)
qed

end
