(* ===== verification/Modbus.thy ===== *)
theory Modbus
  imports Scaling Commands Rbe Big_Endian "HOL-Library.Multiset"
begin

text \<open>
  Modbus addresses (\<open>internal/modbus/addressing.go\<close>), and of the Modbus driver (\<open>services/driver-modbus/main.go\<close>) the
  grouping of tags into block reads and the decoding of a block.  Offsets are 16-bit and wrap around.
\<close>

section \<open>Addresses\<close>

record Address =
  ad_Type :: string
  ad_Offset :: "16 word"
  ad_BitOffset :: "int option"

datatype address_error =
    EmptyAddress | BadBitFormat string | BadBitOffset string | BadNumber string
  | OneBased int | UnsupportedRange int

text \<open>One Modicon range: the offset from its base, which is one higher when addresses count from 1.\<close>

definition range_address ::
  "bool \<Rightarrow> string \<Rightarrow> int \<Rightarrow> int \<Rightarrow> int option \<Rightarrow> address_error + Address" where
  "range_address zeroBased kind base val bitOffset =
     (if zeroBased then Inr \<lparr>ad_Type = kind, ad_Offset = of_int (val - base), ad_BitOffset = bitOffset\<rparr>
      else if val < base + 1 then Inl (OneBased val)
      else Inr \<lparr>ad_Type = kind, ad_Offset = of_int (val - (base + 1)), ad_BitOffset = bitOffset\<rparr>)"

definition split_bit :: "string \<Rightarrow> address_error + (string \<times> int option)" where
  "split_bit c =
     (if CHR ''.'' \<in> set c then
        (let parts = split_on CHR ''.'' c in
         if length parts \<noteq> 2 then Inl (BadBitFormat c)
         else case Atoi (parts ! 1) of
                None \<Rightarrow> Inl (BadBitOffset (parts ! 1))
              | Some k \<Rightarrow> if k < 0 \<or> k > 15 then Inl (BadBitOffset (parts ! 1)) else Inr (parts ! 0, Some k))
      else Inr (c, None))"

definition ParseAddress :: "string \<Rightarrow> bool \<Rightarrow> address_error + Address" where
  "ParseAddress c0 zeroBased =
     (let c = TrimSpace c0 in
      if c = '''' then Inl EmptyAddress
      else case split_bit c of
        Inl e \<Rightarrow> Inl e
      | Inr (addrPart, bitOffset) \<Rightarrow>
         (case Atoi addrPart of
            None \<Rightarrow> Inl (BadNumber addrPart)
          | Some val \<Rightarrow>
              if 40000 \<le> val \<and> val \<le> 49999 then range_address zeroBased ''holding'' 40000 val bitOffset
              else if 30000 \<le> val \<and> val \<le> 39999 then range_address zeroBased ''input'' 30000 val bitOffset
              else if 10000 \<le> val \<and> val \<le> 19999 then range_address zeroBased ''discrete'' 10000 val None
              else if length addrPart = 5 \<and> addrPart ! 0 = CHR ''0'' \<and> 0 \<le> val \<and> val \<le> 9999
                then range_address zeroBased ''coil'' 0 val bitOffset
              else if 0 \<le> val \<and> val \<le> 29999
                then Inr \<lparr>ad_Type = ''holding'', ad_Offset = of_int val, ad_BitOffset = bitOffset\<rparr>
              else Inl (UnsupportedRange val)))"

section \<open>Blocks\<close>

record TagInBlock =
  tib_Tag :: tag
  tib_Offset :: "16 word"
  tib_BitOffset :: "int option"

record Block =
  StartAddress :: "16 word"
  bl_Count :: "16 word"
  bl_DataType :: string
  bl_Tags :: "TagInBlock list"

definition getSize :: "string \<Rightarrow> 16 word" where
  "getSize dtype =
     (if dtype \<in> set [''REAL'', ''FLOAT32'', ''DINT'', ''DWORD'', ''UDINT''] then 2
      else if dtype \<in> set [''LREAL'', ''LINT'', ''INT64'', ''UINT64''] then 4
      else 1)"

fun parse_tags :: "bool \<Rightarrow> tag list \<Rightarrow> (tag \<times> Address) list" where
  "parse_tags zeroBased [] = []"
| "parse_tags zeroBased (t # ts) =
     (case ParseAddress (tg_Code t) zeroBased of
        Inl _ \<Rightarrow> parse_tags zeroBased ts
      | Inr addr \<Rightarrow> (t, addr) # parse_tags zeroBased ts)"

definition in_block :: "tag \<times> Address \<Rightarrow> TagInBlock" where
  "in_block p = \<lparr>tib_Tag = fst p, tib_Offset = ad_Offset (snd p), tib_BitOffset = ad_BitOffset (snd p)\<rparr>"

definition new_block :: "tag \<times> Address \<Rightarrow> Block" where
  "new_block p = \<lparr>StartAddress = ad_Offset (snd p), bl_Count = 0, bl_DataType = ad_Type (snd p), bl_Tags = [in_block p]\<rparr>"

definition close_block :: "Block \<Rightarrow> 16 word \<Rightarrow> Block" where
  "close_block b lastEnd = b\<lparr>bl_Count := lastEnd - StartAddress b\<rparr>"

text \<open>Subtraction of offsets is unsigned and wraps around.\<close>

fun block_loop :: "(tag \<times> Address) list \<Rightarrow> Block list \<Rightarrow> Block \<Rightarrow> 16 word \<Rightarrow> Block list" where
  "block_loop [] blocks cur lastEnd = blocks @ [close_block cur lastEnd]"
| "block_loop (p # ps) blocks cur lastEnd =
     (let off = ad_Offset (snd p); size = getSize (tg_DataType (fst p)) in
      if ad_Type (snd p) = bl_DataType cur \<and> off - lastEnd \<le> 5 \<and> off + size - StartAddress cur \<le> 120
      then let end' = off + size
           in block_loop ps blocks (cur\<lparr>bl_Tags := bl_Tags cur @ [in_block p]\<rparr>) (if end' > lastEnd then end' else lastEnd)
      else block_loop ps (blocks @ [close_block cur lastEnd]) (new_block p) (off + size))"

text \<open>
  \<open>sort.Slice\<close> leaves the order of equal elements open; \<open>srt\<close> is what it does to the slice.
\<close>

definition createBlocks :: "((tag \<times> Address) list \<Rightarrow> (tag \<times> Address) list) \<Rightarrow> tag list \<Rightarrow> bool \<Rightarrow> Block list" where
  "createBlocks srt tags zeroBased =
     (case srt (parse_tags zeroBased tags) of
        [] \<Rightarrow> []
      | p # ps \<Rightarrow> block_loop ps [] (new_block p) (ad_Offset (snd p) + getSize (tg_DataType (fst p))))"

section \<open>Decoding\<close>

datatype value_error = OutOfBounds | NoBitOffset | Unsupported

definition parseValue :: "bytes \<Rightarrow> 16 word \<Rightarrow> string \<Rightarrow> int option \<Rightarrow> string \<Rightarrow> value_error + go_value" where
  "parseValue data off dtype boff btype =
     (if btype = ''coil'' \<or> btype = ''discrete'' then
        (let byteIdx = unat off div 8; bitIdx = unat off mod 8 in
         if byteIdx \<ge> length data then Inl OutOfBounds else Inr (VBool (bit (data ! byteIdx) bitIdx)))
      else let byteOff = unat off * 2; d = drop byteOff data in
        if byteOff + 2 > length data then Inl OutOfBounds
        else if dtype = ''BOOL'' then
          (case boff of None \<Rightarrow> Inl NoBitOffset
           | Some b \<Rightarrow> Inr (VBool (bit (be16 (d ! 0) (d ! 1)) (nat b))))
        else if dtype = ''INT'' then Inr (VInt16 (be16 (d ! 0) (d ! 1)))
        else if dtype = ''REAL'' then
          (if byteOff + 4 > length data then Inl OutOfBounds else Inr (VFloat32 (be32 d)))
        else if dtype = ''DINT'' then
          (if byteOff + 4 > length data then Inl OutOfBounds else Inr (VInt32 (be32 d)))
        else Inl Unsupported)"

text \<open>The bytes \<open>ReadHoldingRegisters\<close> makes of registers, and \<open>boolsToBytes\<close> of coils.\<close>

definition reg_bytes :: "16 word list \<Rightarrow> bytes" where
  "reg_bytes regs = concat (map (\<lambda>r. [of_nat (unat r div 256), of_nat (unat r mod 256)]) regs)"

definition boolsToBytes :: "bool list \<Rightarrow> bytes" where
  "boolsToBytes bits =
     map (\<lambda>i. of_nat (sum_list (map (\<lambda>j. if 8 * i + j < length bits \<and> bits ! (8 * i + j) then 2 ^ j else 0) [0..<8])))
       [0..<(length bits + 7) div 8]"

lemma length_reg_bytes [simp]: "length (reg_bytes regs) = 2 * length regs"
  by (induction regs) (auto simp: reg_bytes_def)

lemma length_boolsToBytes [simp]: "length (boolsToBytes bits) = (length bits + 7) div 8"
  by (simp add: boolsToBytes_def)

section \<open>Every tag is in one block, within its bounds\<close>

text \<open>Offsets stay below 30000, so that no sum of an offset and a size wraps.\<close>

lemma unat_of_small: "0 \<le> v \<Longrightarrow> v < 65536 \<Longrightarrow> unat (of_int v :: 16 word) = nat v"
  by (cases v) (simp_all add: unsigned_of_nat take_bit_nat_eq_self)

lemma range_address_offset:
  assumes "range_address z kind base val b = Inr a" "base \<le> val" "val \<le> base + 9999"
  shows "unat (ad_Offset a) < 30000"
proof -
  have "unat (of_int (val - base) :: 16 word) = nat (val - base)"
    "base < val \<Longrightarrow> unat (of_int (val - (base + 1)) :: 16 word) = nat (val - (base + 1))"
    using assms(2,3) by (auto intro!: unat_of_small simp del: of_int_diff of_int_add)
  then show ?thesis using assms by (auto simp: range_address_def simp del: of_int_diff of_int_add split: if_splits)
qed

lemma ParseAddress_offset: "ParseAddress c z = Inr a \<Longrightarrow> unat (ad_Offset a) < 30000"
  using range_address_offset[of z _ _ _ _ a]
  by (auto simp: ParseAddress_def Let_def unat_of_small nat_less_iff split: sum.splits option.splits if_splits)

definition tib_size :: "TagInBlock \<Rightarrow> nat" where
  "tib_size t = unat (getSize (tg_DataType (tib_Tag t)))"

definition tib_start :: "TagInBlock \<Rightarrow> nat" where
  "tib_start t = unat (tib_Offset t)"

lemma getSize_bounds: "1 \<le> unat (getSize d) \<and> unat (getSize d) \<le> 4"
  by (simp add: getSize_def)

text \<open>An open block whose last register so far is the one before \<open>lastEnd\<close>.\<close>

definition open_ok :: "Block \<Rightarrow> 16 word \<Rightarrow> bool" where
  "open_ok b lastEnd \<longleftrightarrow>
     unat lastEnd \<le> 30004 \<and> unat (StartAddress b) < unat lastEnd \<and> unat lastEnd \<le> unat (StartAddress b) + 120 \<and>
     (\<forall>t \<in> set (bl_Tags b). unat (StartAddress b) \<le> tib_start t \<and> tib_start t + tib_size t \<le> unat lastEnd) \<and>
     sorted_wrt (\<lambda>s t. tib_start s + tib_size s \<le> tib_start t) (bl_Tags b)"

text \<open>A finished block: at most 120 registers, its tags inside it and on registers of their own.\<close>

definition block_ok :: "Block \<Rightarrow> bool" where
  "block_ok b \<longleftrightarrow> 0 < unat (bl_Count b) \<and> unat (bl_Count b) \<le> 120 \<and>
     (\<forall>t \<in> set (bl_Tags b). unat (StartAddress b) \<le> tib_start t \<and>
        unat (tib_Offset t - StartAddress b) + tib_size t \<le> unat (bl_Count b)) \<and>
     sorted_wrt (\<lambda>s t. tib_start s + tib_size s \<le> tib_start t) (bl_Tags b)"

lemma off_plus_size: "unat off < 30000 \<Longrightarrow> unat (off + getSize d) = unat off + unat (getSize d)"
  using getSize_bounds[of d] by (simp add: unat_plus_if')

lemma gap_small:
  fixes off le :: "16 word"
  assumes "unat off < 30000" "unat le \<le> 30004" "off - le \<le> 5"
  shows "unat le \<le> unat off"
proof (rule ccontr)
  assume "\<not> unat le \<le> unat off"
  then have "unat (off - le) = 65536 + unat off - unat le" by (simp add: unat_sub_if')
  moreover have "unat (off - le) \<le> 5" using assms(3) by (simp add: word_le_nat_alt)
  ultimately show False using assms(2) by simp
qed

lemma close_block_ok:
  assumes "open_ok b lastEnd"
  shows "block_ok (close_block b lastEnd)"
proof -
  have c: "unat (lastEnd - StartAddress b) = unat lastEnd - unat (StartAddress b)"
    using assms by (simp add: open_ok_def unat_sub_if')
  have "unat (tib_Offset t - StartAddress b) = tib_start t - unat (StartAddress b)" if "unat (StartAddress b) \<le> tib_start t" for t
    using that by (simp add: unat_sub_if' tib_start_def)
  then show ?thesis using assms c by (fastforce simp: open_ok_def block_ok_def close_block_def)
qed

lemma new_block_ok: "unat (ad_Offset (snd p)) < 30000 \<Longrightarrow> open_ok (new_block p) (ad_Offset (snd p) + getSize (tg_DataType (fst p)))"
  using getSize_bounds[of "tg_DataType (fst p)"]
  by (simp add: open_ok_def new_block_def off_plus_size in_block_def tib_start_def tib_size_def)

lemma join_block_ok:
  assumes "open_ok b lastEnd" "unat (ad_Offset (snd p)) < 30000" "ad_Offset (snd p) - lastEnd \<le> 5"
    "ad_Offset (snd p) + getSize (tg_DataType (fst p)) - StartAddress b \<le> 120"
  shows "open_ok (b\<lparr>bl_Tags := bl_Tags b @ [in_block p]\<rparr>) (ad_Offset (snd p) + getSize (tg_DataType (fst p)))"
    "ad_Offset (snd p) + getSize (tg_DataType (fst p)) > lastEnd"
proof -
  let ?o = "ad_Offset (snd p)" and ?s = "getSize (tg_DataType (fst p))"
  have le: "unat lastEnd \<le> unat ?o" using assms gap_small by (auto simp: open_ok_def)
  have sum: "unat (?o + ?s) = unat ?o + unat ?s" by (rule off_plus_size[OF assms(2)])
  have "unat (?o + ?s - StartAddress b) = unat ?o + unat ?s - unat (StartAddress b)"
    using assms(1) le sum by (simp add: open_ok_def unat_sub_if')
  then have "unat ?o + unat ?s - unat (StartAddress b) \<le> 120" using assms(4) by (simp add: word_le_nat_alt)
  then show "open_ok (b\<lparr>bl_Tags := bl_Tags b @ [in_block p]\<rparr>) (?o + ?s)"
    using assms(1,2) le sum getSize_bounds[of "tg_DataType (fst p)"]
    by (fastforce simp: open_ok_def in_block_def tib_start_def tib_size_def sorted_wrt_append)
  show "?o + ?s > lastEnd" using le sum getSize_bounds[of "tg_DataType (fst p)"] by (simp add: word_less_nat_alt)
qed

lemma block_loop_ok:
  assumes "open_ok cur lastEnd" "\<forall>b \<in> set blocks. block_ok b" "\<forall>p \<in> set ps. unat (ad_Offset (snd p)) < 30000"
  shows "\<forall>b \<in> set (block_loop ps blocks cur lastEnd). block_ok b"
  using assms
proof (induction ps blocks cur lastEnd rule: block_loop.induct)
  case (1 blocks cur lastEnd)
  then show ?case using close_block_ok by auto
next
  case (2 p ps blocks cur lastEnd)
  let ?o = "ad_Offset (snd p)" and ?s = "getSize (tg_DataType (fst p))"
  show ?case
  proof (cases "ad_Type (snd p) = bl_DataType cur \<and> ?o - lastEnd \<le> 5 \<and> ?o + ?s - StartAddress cur \<le> 120")
    case True
    then have j: "open_ok (cur\<lparr>bl_Tags := bl_Tags cur @ [in_block p]\<rparr>) (?o + ?s)" "lastEnd < ?o + ?s"
      using join_block_ok[OF "2.prems"(1)] "2.prems"(3) by auto
    then have "\<forall>b \<in> set (block_loop ps blocks (cur\<lparr>bl_Tags := bl_Tags cur @ [in_block p]\<rparr>) (?o + ?s)). block_ok b"
      using "2.IH"(1)[OF refl refl True refl] "2.prems" by simp
    then show ?thesis using True j(2) by (simp add: Let_def)
  next
    case False
    have "\<forall>b \<in> set (block_loop ps (blocks @ [close_block cur lastEnd]) (new_block p) (?o + ?s)). block_ok b"
      using "2.prems" new_block_ok close_block_ok by (intro "2.IH"(2)[OF refl refl False]) auto
    then show ?thesis unfolding block_loop.simps Let_def if_not_P[OF False] .
  qed
qed

text \<open>No tag is lost and none is read twice.\<close>

lemma block_loop_tags:
  "concat (map bl_Tags (block_loop ps blocks cur lastEnd)) = concat (map bl_Tags blocks) @ bl_Tags cur @ map in_block ps"
  by (induction ps blocks cur lastEnd rule: block_loop.induct)
     (auto simp: Let_def close_block_def new_block_def)

lemma createBlocks_tags: "concat (map bl_Tags (createBlocks srt tags z)) = map in_block (srt (parse_tags z tags))"
  by (auto simp: createBlocks_def block_loop_tags new_block_def split: list.splits)

lemma parse_tags_offset: "p \<in> set (parse_tags z tags) \<Longrightarrow> unat (ad_Offset (snd p)) < 30000"
  by (induction tags) (auto dest: ParseAddress_offset split: sum.splits)

lemma createBlocks_ok:
  assumes "\<And>xs. mset (srt xs) = mset xs" "b \<in> set (createBlocks srt tags z)"
  shows "block_ok b"
proof -
  have s: "set (srt xs) = set xs" for xs using assms(1) by (metis set_mset_mset)
  show ?thesis
  proof (cases "srt (parse_tags z tags)")
    case Nil
    then show ?thesis using assms(2) by (simp add: createBlocks_def)
  next
    case (Cons p ps)
    then have "\<forall>q \<in> set (p # ps). unat (ad_Offset (snd q)) < 30000" using s[of "parse_tags z tags"] parse_tags_offset by simp
    then show ?thesis using Cons assms(2) block_loop_ok[OF new_block_ok[of p], of "[]" ps] by (simp add: createBlocks_def)
  qed
qed

text \<open>A tag is in a block of its own register table.\<close>

definition from_table :: "(tag \<times> Address) set \<Rightarrow> Block \<Rightarrow> bool" where
  "from_table P b \<longleftrightarrow> (\<forall>t \<in> set (bl_Tags b). \<exists>p \<in> P. t = in_block p \<and> ad_Type (snd p) = bl_DataType b)"

lemma block_loop_table:
  "from_table P cur \<Longrightarrow> \<forall>b \<in> set blocks. from_table P b \<Longrightarrow> set ps \<subseteq> P \<Longrightarrow> \<forall>b \<in> set (block_loop ps blocks cur lastEnd). from_table P b"
proof (induction ps blocks cur lastEnd rule: block_loop.induct)
  case (1 blocks cur lastEnd)
  then show ?case by (auto simp: from_table_def close_block_def)
next
  case (2 p ps blocks cur lastEnd)
  let ?o = "ad_Offset (snd p)" and ?s = "getSize (tg_DataType (fst p))"
  have ps: "p \<in> P" "set ps \<subseteq> P" using "2.prems"(3) by auto
  show ?case
  proof (cases "ad_Type (snd p) = bl_DataType cur \<and> ?o - lastEnd \<le> 5 \<and> ?o + ?s - StartAddress cur \<le> 120")
    case True
    then have "from_table P (cur\<lparr>bl_Tags := bl_Tags cur @ [in_block p]\<rparr>)" using "2.prems"(1) ps by (auto simp: from_table_def)
    from "2.IH"(1)[OF refl refl True refl this "2.prems"(2) ps(2)] show ?thesis using True by (simp add: Let_def)
  next
    case False
    have "from_table P (close_block cur lastEnd)" "from_table P (new_block p)"
      using "2.prems"(1) ps by (auto simp: from_table_def close_block_def new_block_def)
    with "2.prems"(2) have "\<forall>b \<in> set (block_loop ps (blocks @ [close_block cur lastEnd]) (new_block p) (?o + ?s)). from_table P b"
      using ps(2) by (intro "2.IH"(2)[OF refl refl False]) auto
    then show ?thesis unfolding block_loop.simps Let_def if_not_P[OF False] .
  qed
qed

lemma createBlocks_table:
  assumes "\<And>xs. mset (srt xs) = mset xs" "b \<in> set (createBlocks srt tags z)"
  shows "from_table (set (parse_tags z tags)) b"
proof -
  have st: "set (srt (parse_tags z tags)) = set (parse_tags z tags)" using assms(1) by (metis set_mset_mset)
  show ?thesis
  proof (cases "srt (parse_tags z tags)")
    case (Cons p ps)
    have "from_table (set (parse_tags z tags)) (new_block p)" using st Cons by (auto simp: from_table_def new_block_def)
    moreover have "set ps \<subseteq> set (parse_tags z tags)" using st Cons by auto
    ultimately show ?thesis using block_loop_table[of _ "new_block p" "[]" ps] assms(2) Cons by (simp add: createBlocks_def)
  qed (use assms(2) in \<open>simp add: createBlocks_def\<close>)
qed

lemma parse_tags_address: "p \<in> set (parse_tags z tags) \<Longrightarrow> fst p \<in> set tags \<and> ParseAddress (tg_Code (fst p)) z = Inr (snd p)"
  by (induction tags) (auto split: sum.splits)

text \<open>
C32: the tags whose address can be parsed are each in exactly one block; a block reads the register table that the
address of each of its tags names, at the offset and bit the address names; it is at most 120 registers long and every tag of it
lies inside it, all its registers included.
\<close>

theorem blocks_cover_tags:
  assumes "\<And>xs. mset (srt xs) = mset xs"
  shows "mset (concat (map bl_Tags (createBlocks srt tags z))) = image_mset in_block (mset (parse_tags z tags)) \<and>
    (\<forall>b \<in> set (createBlocks srt tags z). 0 < unat (bl_Count b) \<and> unat (bl_Count b) \<le> 120 \<and>
       (\<forall>t \<in> set (bl_Tags b). unat (StartAddress b) \<le> tib_start t \<and>
          unat (tib_Offset t - StartAddress b) + tib_size t \<le> unat (bl_Count b) \<and>
          (\<exists>addr. tib_Tag t \<in> set tags \<and> ParseAddress (tg_Code (tib_Tag t)) z = Inr addr \<and>
             ad_Type addr = bl_DataType b \<and> ad_Offset addr = tib_Offset t \<and> ad_BitOffset addr = tib_BitOffset t)))"
proof -
  have "mset (concat (map bl_Tags (createBlocks srt tags z))) = image_mset in_block (mset (parse_tags z tags))"
    unfolding createBlocks_tags mset_map assms ..
  moreover have "\<exists>addr. tib_Tag t \<in> set tags \<and> ParseAddress (tg_Code (tib_Tag t)) z = Inr addr \<and>
      ad_Type addr = bl_DataType b \<and> ad_Offset addr = tib_Offset t \<and> ad_BitOffset addr = tib_BitOffset t"
    if t: "b \<in> set (createBlocks srt tags z)" "t \<in> set (bl_Tags b)" for b t
  proof -
    obtain p where "p \<in> set (parse_tags z tags)" "t = in_block p" "ad_Type (snd p) = bl_DataType b"
      using createBlocks_table[OF assms t(1)] t(2) unfolding from_table_def by blast
    then show ?thesis using parse_tags_address[of p z tags] by (auto simp: in_block_def)
  qed
  ultimately show ?thesis using createBlocks_ok[OF assms] by (auto simp: block_ok_def)
qed

text \<open>
Decoding never reads past the end of a block: when the device answers with the registers or bits the
driver asked for, no tag of the block fails for lack of data.
\<close>

theorem block_decodes_in_bounds:
  assumes "\<And>xs. mset (srt xs) = mset xs" "b \<in> set (createBlocks srt tags z)" "t \<in> set (bl_Tags b)"
    "data = reg_bytes regs \<and> length regs = unat (bl_Count b) \<and> bl_DataType b \<in> {''holding'', ''input''} \<or>
     data = boolsToBytes bits \<and> length bits = unat (bl_Count b) \<and> bl_DataType b \<in> {''coil'', ''discrete''}"
  shows "parseValue data (tib_Offset t - StartAddress b) (tg_DataType (tib_Tag t)) (tib_BitOffset t) (bl_DataType b) \<noteq> Inl OutOfBounds"
proof -
  have b: "unat (tib_Offset t - StartAddress b) + tib_size t \<le> unat (bl_Count b)"
    using createBlocks_ok[OF assms(1,2)] assms(3) by (simp add: block_ok_def)
  have s: "1 \<le> tib_size t" using getSize_bounds by (simp add: tib_size_def)
  have s2: "tg_DataType (tib_Tag t) = ''REAL'' \<or> tg_DataType (tib_Tag t) = ''DINT'' \<Longrightarrow> tib_size t = 2"
    by (auto simp: tib_size_def getSize_def)
  show ?thesis
    using assms(4)
  proof
    assume a: "data = reg_bytes regs \<and> length regs = unat (bl_Count b) \<and> bl_DataType b \<in> {''holding'', ''input''}"
    then show ?thesis using b s s2 by (auto simp: parseValue_def Let_def split: option.splits)
  next
    assume a: "data = boolsToBytes bits \<and> length bits = unat (bl_Count b) \<and> bl_DataType b \<in> {''coil'', ''discrete''}"
    then have "unat (tib_Offset t - StartAddress b) div 8 < length data" using b s by simp
    then show ?thesis using a by (auto simp: parseValue_def Let_def)
  qed
qed

text \<open>
The tags of one block never share a register: a tag that starts before the end of the tags before it,
such as a second bit of the same register, always begins a block of its own.
\<close>

theorem block_tags_disjoint:
  assumes "\<And>xs. mset (srt xs) = mset xs" "b \<in> set (createBlocks srt tags z)"
  shows "sorted_wrt (\<lambda>s t. tib_start s + tib_size s \<le> tib_start t) (bl_Tags b)"
  using createBlocks_ok[OF assms] by (simp add: block_ok_def)

section \<open>Instances\<close>

definition sample_tag :: "int \<Rightarrow> string \<Rightarrow> string \<Rightarrow> tag" where
  "sample_tag i code dtype = \<lparr>tg_ID = i, tg_GatewayID = 1, tg_Code = code, tg_Alias = ''t'', tg_DataType = dtype,
     ScalingEnabled = True, ScalingRawMin = 0, ScalingRawMax = 0x40DB000000000000, ScalingEuMin = 0,
     ScalingEuMax = 0x4059000000000000, ScalingClamp = False, tg_Invert = False\<rparr>"

text \<open>A counter, a temperature and two bits of one register.\<close>

definition sample_tags :: "tag list" where
  "sample_tags = [sample_tag 1 ''40001'' ''INT'', sample_tag 2 ''40002'' ''REAL'', sample_tag 3 ''40010.0'' ''BOOL'', sample_tag 4 ''40010.1'' ''BOOL'']"

lemma sample_addresses:
  "ParseAddress ''40001'' False = Inr \<lparr>ad_Type = ''holding'', ad_Offset = 0, ad_BitOffset = None\<rparr>"
  "ParseAddress ''40002'' False = Inr \<lparr>ad_Type = ''holding'', ad_Offset = 1, ad_BitOffset = None\<rparr>"
  "ParseAddress ''40010.0'' False = Inr \<lparr>ad_Type = ''holding'', ad_Offset = 9, ad_BitOffset = Some 0\<rparr>"
  "ParseAddress ''40010.1'' False = Inr \<lparr>ad_Type = ''holding'', ad_Offset = 9, ad_BitOffset = Some 1\<rparr>"
  by code_simp+

lemma sample_block:
  obtains b t where "b \<in> set (createBlocks id sample_tags False)" "t \<in> set (bl_Tags b)" "bl_DataType b = ''holding''"
    "tib_Tag t = sample_tag 1 ''40001'' ''INT''"
  by (rule that[of "createBlocks id sample_tags False ! 0" "bl_Tags (createBlocks id sample_tags False ! 0) ! 0"])
     (simp_all add: createBlocks_def sample_tags_def sample_tag_def sample_addresses new_block_def close_block_def getSize_def in_block_def)

theorem blocks_cover_tags_witness:
  "mset (concat (map bl_Tags (createBlocks id sample_tags False))) = image_mset in_block (mset (parse_tags False sample_tags))"
  using blocks_cover_tags[of id sample_tags False] by simp

theorem block_decodes_in_bounds_witness:
  "\<exists>b t. b \<in> set (createBlocks id sample_tags False) \<and> t \<in> set (bl_Tags b) \<and>
     parseValue (reg_bytes (replicate (unat (bl_Count b)) 7)) (tib_Offset t - StartAddress b) (tg_DataType (tib_Tag t)) (tib_BitOffset t)
       (bl_DataType b) \<noteq> Inl OutOfBounds"
proof -
  obtain b t where bt: "b \<in> set (createBlocks id sample_tags False)" "t \<in> set (bl_Tags b)" "bl_DataType b = ''holding''"
    by (rule sample_block)
  then show ?thesis
    using block_decodes_in_bounds[of id b sample_tags False t _ "replicate (unat (bl_Count b)) 7"] by force
qed

theorem block_tags_disjoint_witness:
  "list_all (\<lambda>b. sorted_wrt (\<lambda>s t. tib_start s + tib_size s \<le> tib_start t) (bl_Tags b)) (createBlocks id sample_tags False)"
  using block_tags_disjoint[of id _ sample_tags False] by (simp add: list_all_iff)

end
