(* ===== verification/Modbus_Client.thy ===== *)
theory Modbus_Client
  imports Modbus
begin

text \<open>
  The Modbus client wrapper (\<open>internal/modbus/client.go\<close>): configuration of the link, opening and
  closing, reads and writes, and reading a single tag by its address.

  The library behind it (\<open>simonvetter/modbus\<close>) is third-party and appears as a \<open>device\<close>: what it
  answers to each request.  Its nine exception errors are named, everything else is \<open>LibOther\<close>.
  \<open>UL\<close> and \<open>UU\<close> are the Unicode tables of \<open>strings.ToLower\<close> and \<open>strings.ToUpper\<close> for
  strings that are not ASCII, \<open>PF\<close> is \<open>strconv.ParseFloat\<close>.
\<close>

section \<open>Errors\<close>

datatype lib_error =
    ErrIllegalFunction | ErrIllegalDataAddress | ErrIllegalDataValue | ErrServerDeviceFailure | ErrAcknowledge
  | ErrMemoryParityError | ErrServerDeviceBusy | ErrGWPathUnavailable | ErrGWTargetFailedToRespond | LibOther string

datatype modbus_error =
    ErrNotConnected | ErrInvalidResponse | ErrInvalidDataType string | ErrInvalidAddressFormat
  | ErrConnectionTimeout lib_error | ExceptionError lib_error | LibError lib_error | CreateFailed lib_error
  | NoHost | NoDevice | MissingHost | MissingDevice | UnknownTransport string | UnknownParity string
  | OddLength | QuantityMismatch | LengthsDiffer | TagFailed string modbus_error

definition wrapModbusError :: "lib_error \<Rightarrow> modbus_error" where
  "wrapModbusError err = (case err of LibOther _ \<Rightarrow> LibError err | _ \<Rightarrow> ExceptionError err)"

definition IsExceptionError :: "modbus_error \<Rightarrow> bool" where
  "IsExceptionError err = (case err of ExceptionError _ \<Rightarrow> True | _ \<Rightarrow> False)"

section \<open>Configuration\<close>

record modbus_config =
  mbc_Transport :: string
  mbc_Host :: string
  mbc_Port :: int
  mbc_Device :: string
  BaudRate :: int
  DataBits :: int
  Parity :: string
  StopBits :: int
  SlaveID :: "8 word"
  mbc_Timeout :: duration

definition TransportTCP :: string where "TransportTCP = ''tcp''"
definition TransportRTU :: string where "TransportRTU = ''rtu''"
definition TransportRTUOverTCP :: string where "TransportRTUOverTCP = ''rtuovertcp''"

text \<open>The text of a parity, case folded, decides; the result is the constant of the library.\<close>

datatype parity = PARITY_NONE | PARITY_EVEN | PARITY_ODD

definition upper_char :: "char \<Rightarrow> char" where
  "upper_char c = (if 97 \<le> (of_char c :: nat) \<and> (of_char c :: nat) \<le> 122
     then char_of ((of_char c :: nat) - 32) else c)"

definition ToUpper :: "(string \<Rightarrow> string) \<Rightarrow> string \<Rightarrow> string" where
  "ToUpper UU s = (if is_ascii s then map upper_char s else UU s)"

definition transport :: "(string \<Rightarrow> string) \<Rightarrow> modbus_config \<Rightarrow> string" where
  "transport UL c = (if mbc_Transport c = '''' then TransportTCP else ToLower UL (TrimSpace (mbc_Transport c)))"

definition tcp_port :: "modbus_config \<Rightarrow> int" where
  "tcp_port c = (if mbc_Port c = 0 then 502 else mbc_Port c)"

definition url :: "(string \<Rightarrow> string) \<Rightarrow> modbus_config \<Rightarrow> modbus_error + string" where
  "url UL c =
     (let t = transport UL c in
      if t = TransportTCP then
        (if mbc_Host c = '''' then Inl NoHost else Inr (''tcp://'' @ mbc_Host c @ '':'' @ itoa (tcp_port c)))
      else if t = TransportRTUOverTCP then
        (if mbc_Host c = '''' then Inl NoHost else Inr (''rtuovertcp://'' @ mbc_Host c @ '':'' @ itoa (tcp_port c)))
      else if t = TransportRTU then
        (if mbc_Device c = '''' then Inl NoDevice else Inr (''rtu://'' @ mbc_Device c))
      else Inl (UnknownTransport t))"

definition parseParity :: "(string \<Rightarrow> string) \<Rightarrow> string \<Rightarrow> modbus_error + parity" where
  "parseParity UU p =
     (let u = ToUpper UU (TrimSpace p) in
      if u \<in> set ['''', ''N'', ''NONE''] then Inr PARITY_NONE
      else if u \<in> set [''E'', ''EVEN''] then Inr PARITY_EVEN
      else if u \<in> set [''O'', ''ODD''] then Inr PARITY_ODD
      else Inl (UnknownParity p))"

record modbus_client =
  mb_config :: modbus_config
  mb_client :: bool

definition NewClient_modbus :: "modbus_config \<Rightarrow> modbus_client" where
  "NewClient_modbus cfg =
     \<lparr>mb_config = (if mbc_Timeout cfg = 0 then cfg\<lparr>mbc_Timeout := 5 * Second\<rparr> else cfg), mb_client = False\<rparr>"

text \<open>The configuration of a gateway is a JSON object: a map from keys to values.\<close>

type_synonym conn_config = "string \<rightharpoonup> go_value"

fun firstString :: "conn_config \<Rightarrow> string list \<Rightarrow> string option" where
  "firstString m [] = None"
| "firstString m (k # ks) =
     (case m k of
        Some (VString v) \<Rightarrow> if TrimSpace v \<noteq> '''' then Some v else firstString m ks
      | _ \<Rightarrow> firstString m ks)"

fun firstNumber :: "(string \<Rightarrow> float64 option) \<Rightarrow> conn_config \<Rightarrow> string list \<Rightarrow> float64 option" where
  "firstNumber PF m [] = None"
| "firstNumber PF m (k # ks) =
     (case m k of
        Some (VFloat64 v) \<Rightarrow> Some v
      | Some (VInt v) \<Rightarrow> Some (f64_of_int (sint v))
      | Some (VString v) \<Rightarrow> (case PF (TrimSpace v) of Some n \<Rightarrow> Some n | None \<Rightarrow> firstNumber PF m ks)
      | _ \<Rightarrow> firstNumber PF m ks)"

definition to_int :: "go_impl \<Rightarrow> float64 \<Rightarrow> int" where
  "to_int G v = conv_num G (- (2 ^ 63)) (2 ^ 63 - 1) v"

definition number_or :: "go_impl \<Rightarrow> int \<Rightarrow> float64 option \<Rightarrow> int" where
  "number_or G def n = (case n of Some v \<Rightarrow> to_int G v | None \<Rightarrow> def)"

definition blank_config :: "string \<Rightarrow> 8 word \<Rightarrow> modbus_config" where
  "blank_config t slave = \<lparr>mbc_Transport = t, mbc_Host = '''', mbc_Port = 0, mbc_Device = '''', BaudRate = 0, DataBits = 0,
     Parity = '''', StopBits = 0, SlaveID = slave, mbc_Timeout = 5 * Second\<rparr>"

text \<open>The last check: a configuration without a connection string is refused.\<close>

definition checked_client :: "(string \<Rightarrow> string) \<Rightarrow> modbus_config \<Rightarrow> modbus_error + modbus_client" where
  "checked_client UL cfg = (case url UL cfg of Inl e \<Rightarrow> Inl e | Inr _ \<Rightarrow> Inr (NewClient_modbus cfg))"

definition NewClientFromConfig ::
  "go_impl \<Rightarrow> (string \<Rightarrow> float64 option) \<Rightarrow> (string \<Rightarrow> string) \<Rightarrow> (string \<Rightarrow> string) \<Rightarrow> conn_config \<Rightarrow> modbus_error + modbus_client" where
  "NewClientFromConfig G PF UL UU conn =
     (let t = (case firstString conn [''transport'', ''mode''] of Some t \<Rightarrow> ToLower UL (TrimSpace t) | None \<Rightarrow> TransportTCP);
          slaveID = (case firstNumber PF conn [''slave_id'', ''unit_id''] of Some s \<Rightarrow> of_int (conv_num G 0 255 s) | None \<Rightarrow> 1);
          cfg = blank_config t slaveID
      in if t = TransportTCP \<or> t = TransportRTUOverTCP then
           (case firstString conn [''ip'', ''ip_address'', ''host''] of
              None \<Rightarrow> Inl MissingHost
            | Some host \<Rightarrow>
                checked_client UL (cfg\<lparr>mbc_Host := TrimSpace host, mbc_Port := number_or G 502 (firstNumber PF conn [''port''])\<rparr>))
         else if t = TransportRTU then
           (case firstString conn [''device'', ''serial_port'', ''port_name''] of
              None \<Rightarrow> Inl MissingDevice
            | Some device \<Rightarrow>
                let cfg = cfg\<lparr>mbc_Device := TrimSpace device,
                      BaudRate := number_or G 0 (firstNumber PF conn [''baud_rate'', ''baudrate'', ''speed'']),
                      DataBits := number_or G 0 (firstNumber PF conn [''data_bits'', ''databits'']),
                      StopBits := number_or G 0 (firstNumber PF conn [''stop_bits'', ''stopbits'']),
                      Parity := (case firstString conn [''parity''] of Some par \<Rightarrow> par | None \<Rightarrow> '''')\<rparr>
                in case parseParity UU (Parity cfg) of
                     Inl e \<Rightarrow> Inl e
                   | Inr _ \<Rightarrow> checked_client UL (cfg\<lparr>mbc_Timeout := Second\<rparr>))
         else Inl (UnknownTransport t))"

section \<open>The link\<close>

datatype reg_kind = HOLDING_REGISTER | INPUT_REGISTER

datatype request = WriteCoil "16 word" bool | WriteReg "16 word" "16 word" | WriteRegs "16 word" "16 word list"

text \<open>
  The answers of the library during one step.  \<open>dev_open\<close> is the outcome of the n-th attempt to
  create and open a client: \<open>Inl\<close> an error of its constructor, \<open>Inr\<close> the error of \<open>Open\<close>, if any.
\<close>

record device =
  dev_open :: "nat \<Rightarrow> lib_error + lib_error option"
  dev_close :: "lib_error option"
  dev_coils :: "16 word \<Rightarrow> 16 word \<Rightarrow> lib_error + bool list"
  dev_discretes :: "16 word \<Rightarrow> 16 word \<Rightarrow> lib_error + bool list"
  dev_register :: "reg_kind \<Rightarrow> 16 word \<Rightarrow> lib_error + 16 word"
  dev_registers :: "reg_kind \<Rightarrow> 16 word \<Rightarrow> 16 word \<Rightarrow> lib_error + 16 word list"
  dev_write :: "request \<Rightarrow> lib_error option"

definition Connect_modbus ::
  "(string \<Rightarrow> string) \<Rightarrow> (string \<Rightarrow> string) \<Rightarrow> lib_error + lib_error option \<Rightarrow> modbus_client \<Rightarrow> modbus_error option \<times> modbus_client" where
  "Connect_modbus UL UU attempt c =
     (case url UL (mb_config c) of
        Inl e \<Rightarrow> (Some e, c)
      | Inr _ \<Rightarrow>
          (case parseParity UU (Parity (mb_config c)) of
             Inl e \<Rightarrow> (Some e, c)
           | Inr _ \<Rightarrow>
               (case attempt of
                  Inl e \<Rightarrow> (Some (CreateFailed e), c)
                | Inr (Some e) \<Rightarrow> (Some (ErrConnectionTimeout e), c)
                | Inr None \<Rightarrow> (None, c\<lparr>mb_client := True\<rparr>))))"

text \<open>The loop of \<open>ConnectWithRetry\<close>: \<open>n\<close> attempts are left, the next one is number \<open>i\<close>.\<close>

fun ConnectWithRetry ::
  "(string \<Rightarrow> string) \<Rightarrow> (string \<Rightarrow> string) \<Rightarrow> (nat \<Rightarrow> lib_error + lib_error option) \<Rightarrow> nat \<Rightarrow> nat \<Rightarrow> modbus_error option \<Rightarrow> modbus_client
    \<Rightarrow> modbus_error option \<times> modbus_client" where
  "ConnectWithRetry UL UU attempts i 0 lastErr c = (lastErr, c)"
| "ConnectWithRetry UL UU attempts i (Suc n) lastErr c =
     (case Connect_modbus UL UU (attempts i) c of
        (None, c) \<Rightarrow> (None, c)
      | (Some e, c) \<Rightarrow> ConnectWithRetry UL UU attempts (Suc i) n (Some e) c)"

text \<open>A client whose \<open>Close\<close> fails keeps its handle.\<close>

definition Disconnect_modbus :: "device \<Rightarrow> modbus_client \<Rightarrow> modbus_error option \<times> modbus_client" where
  "Disconnect_modbus dev c =
     (if mb_client c then
        (case dev_close dev of Some e \<Rightarrow> (Some (LibError e), c) | None \<Rightarrow> (None, c\<lparr>mb_client := False\<rparr>))
      else (None, c))"

definition IsConnected_modbus :: "modbus_client \<Rightarrow> bool" where
  "IsConnected_modbus c = mb_client c"

section \<open>Reads and writes\<close>

definition ReadCoils :: "device \<Rightarrow> modbus_client \<Rightarrow> 16 word \<Rightarrow> 16 word \<Rightarrow> modbus_error + bytes" where
  "ReadCoils dev c address quantity =
     (if \<not> mb_client c then Inl ErrNotConnected
      else case dev_coils dev address quantity of Inl e \<Rightarrow> Inl (wrapModbusError e) | Inr bits \<Rightarrow> Inr (boolsToBytes bits))"

definition ReadDiscreteInputs :: "device \<Rightarrow> modbus_client \<Rightarrow> 16 word \<Rightarrow> 16 word \<Rightarrow> modbus_error + bytes" where
  "ReadDiscreteInputs dev c address quantity =
     (if \<not> mb_client c then Inl ErrNotConnected
      else case dev_discretes dev address quantity of Inl e \<Rightarrow> Inl (wrapModbusError e) | Inr bits \<Rightarrow> Inr (boolsToBytes bits))"

definition ReadHoldingRegister :: "device \<Rightarrow> modbus_client \<Rightarrow> 16 word \<Rightarrow> modbus_error + 16 word" where
  "ReadHoldingRegister dev c address =
     (if \<not> mb_client c then Inl ErrNotConnected
      else case dev_register dev HOLDING_REGISTER address of Inl e \<Rightarrow> Inl (LibError e) | Inr w \<Rightarrow> Inr w)"

definition ReadInputRegister :: "device \<Rightarrow> modbus_client \<Rightarrow> 16 word \<Rightarrow> modbus_error + 16 word" where
  "ReadInputRegister dev c address =
     (if \<not> mb_client c then Inl ErrNotConnected
      else case dev_register dev INPUT_REGISTER address of Inl e \<Rightarrow> Inl (LibError e) | Inr w \<Rightarrow> Inr w)"

definition ReadHoldingRegisters :: "device \<Rightarrow> modbus_client \<Rightarrow> 16 word \<Rightarrow> 16 word \<Rightarrow> modbus_error + bytes" where
  "ReadHoldingRegisters dev c address quantity =
     (if \<not> mb_client c then Inl ErrNotConnected
      else case dev_registers dev HOLDING_REGISTER address quantity of
             Inl e \<Rightarrow> Inl (wrapModbusError e) | Inr regs \<Rightarrow> Inr (reg_bytes regs))"

definition ReadInputRegisters :: "device \<Rightarrow> modbus_client \<Rightarrow> 16 word \<Rightarrow> 16 word \<Rightarrow> modbus_error + bytes" where
  "ReadInputRegisters dev c address quantity =
     (if \<not> mb_client c then Inl ErrNotConnected
      else case dev_registers dev INPUT_REGISTER address quantity of
             Inl e \<Rightarrow> Inl (wrapModbusError e) | Inr regs \<Rightarrow> Inr (reg_bytes regs))"

text \<open>A write ends with its error, if any, and the requests that went out.\<close>

type_synonym write_outcome = "modbus_error option \<times> request list"

definition issue :: "device \<Rightarrow> modbus_client \<Rightarrow> request \<Rightarrow> write_outcome" where
  "issue dev c r = (if \<not> mb_client c then (Some ErrNotConnected, []) else (map_option LibError (dev_write dev r), [r]))"

definition WriteSingleCoil :: "device \<Rightarrow> modbus_client \<Rightarrow> 16 word \<Rightarrow> 16 word \<Rightarrow> write_outcome" where
  "WriteSingleCoil dev c address val = issue dev c (WriteCoil address (val = 0xFF00))"

definition WriteSingleRegister :: "device \<Rightarrow> modbus_client \<Rightarrow> 16 word \<Rightarrow> 16 word \<Rightarrow> write_outcome" where
  "WriteSingleRegister dev c address val = issue dev c (WriteReg address val)"

definition be_regs :: "bytes \<Rightarrow> 16 word list" where
  "be_regs b = map (\<lambda>i. be16 (b ! (2 * i)) (b ! (2 * i + 1))) [0..<length b div 2]"

definition WriteMultipleRegisters :: "device \<Rightarrow> modbus_client \<Rightarrow> 16 word \<Rightarrow> 16 word \<Rightarrow> bytes \<Rightarrow> write_outcome" where
  "WriteMultipleRegisters dev c address quantity val =
     (if \<not> mb_client c then (Some ErrNotConnected, [])
      else if length val mod 2 \<noteq> 0 then (Some OddLength, [])
      else if (of_nat (length val div 2) :: 16 word) \<noteq> quantity then (Some QuantityMismatch, [])
      else issue dev c (WriteRegs address (be_regs val)))"

section \<open>Reading a tag by its address\<close>

text \<open>\<open>- 1\<close> stands for no bit offset.\<close>

definition prefix_address :: "(string \<Rightarrow> string) \<Rightarrow> string \<Rightarrow> (string \<times> string) option" where
  "prefix_address UU addrPart =
     (let u = ToUpper UU addrPart in
      if take 2 u = ''HR'' then Some (''holding'', drop 2 addrPart)
      else if take 2 u = ''IR'' then Some (''input'', drop 2 addrPart)
      else if take 2 u = ''DI'' then Some (''discrete'', drop 2 addrPart)
      else if take 1 u = ''C'' then Some (''coil'', drop 1 addrPart)
      else None)"

definition parseAddress :: "(string \<Rightarrow> string) \<Rightarrow> string \<Rightarrow> modbus_error + (string \<times> 16 word \<times> int)" where
  "parseAddress UU address =
     (let c = TrimSpace address in
      if c = '''' then Inl ErrInvalidAddressFormat
      else case split_bit c of
        Inl _ \<Rightarrow> Inl ErrInvalidAddressFormat
      | Inr (addrPart, bitOffset) \<Rightarrow>
          let b = (case bitOffset of None \<Rightarrow> - 1 | Some k \<Rightarrow> k) in
          (case Atoi addrPart of
             None \<Rightarrow>
               (case prefix_address UU addrPart of
                  None \<Rightarrow> Inl ErrInvalidAddressFormat
                | Some (kind, suffix) \<Rightarrow>
                    (case Atoi suffix of Some off \<Rightarrow> Inr (kind, of_int off, b) | None \<Rightarrow> Inl ErrInvalidAddressFormat))
           | Some val \<Rightarrow>
               if 40001 \<le> val \<and> val \<le> 49999 then Inr (''holding'', of_int (val - 40001), b)
               else if 30001 \<le> val \<and> val \<le> 39999 then Inr (''input'', of_int (val - 30001), b)
               else if 10001 \<le> val \<and> val \<le> 19999 then Inr (''discrete'', of_int (val - 10001), b)
               else if 0 \<le> val \<and> val < 30000 then Inr (''holding'', of_int val, b)
               else if 400001 \<le> val \<and> val \<le> 499999 then Inr (''holding'', of_int (val - 400001), b)
               else if 300001 \<le> val \<and> val \<le> 399999 then Inr (''input'', of_int (val - 300001), b)
               else Inl ErrInvalidAddressFormat))"

definition read_register :: "device \<Rightarrow> modbus_client \<Rightarrow> string \<Rightarrow> 16 word \<Rightarrow> modbus_error + 16 word" where
  "read_register dev c addrType address =
     (if addrType = ''holding'' then ReadHoldingRegister dev c address
      else if addrType = ''input'' then ReadInputRegister dev c address
      else Inl ErrInvalidAddressFormat)"

definition readInt :: "device \<Rightarrow> modbus_client \<Rightarrow> string \<Rightarrow> 16 word \<Rightarrow> modbus_error + go_value" where
  "readInt dev c addrType address = map_sum id VInt16 (read_register dev c addrType address)"

definition readBoolDirect :: "device \<Rightarrow> modbus_client \<Rightarrow> string \<Rightarrow> 16 word \<Rightarrow> modbus_error + go_value" where
  "readBoolDirect dev c addrType address =
     (let data = (if addrType = ''coil'' then ReadCoils dev c address 1
                  else if addrType = ''discrete'' then ReadDiscreteInputs dev c address 1
                  else Inl ErrInvalidAddressFormat)
      in case data of
           Inl e \<Rightarrow> Inl e
         | Inr bs \<Rightarrow> if bs = [] then Inl ErrInvalidResponse else Inr (VBool (bit (bs ! 0) 0)))"

definition readBoolFromRegister :: "device \<Rightarrow> modbus_client \<Rightarrow> string \<Rightarrow> 16 word \<Rightarrow> int \<Rightarrow> modbus_error + go_value" where
  "readBoolFromRegister dev c addrType regAddr bitOffset =
     map_sum id (\<lambda>w. VBool (bit w (nat bitOffset))) (read_register dev c addrType regAddr)"

definition readReal :: "device \<Rightarrow> modbus_client \<Rightarrow> string \<Rightarrow> 16 word \<Rightarrow> modbus_error + go_value" where
  "readReal dev c addrType address =
     (let regs = (if addrType = ''holding'' then ReadHoldingRegisters dev c address 2
                  else if addrType = ''input'' then ReadInputRegisters dev c address 2
                  else Inl ErrInvalidAddressFormat)
      in case regs of
           Inl e \<Rightarrow> Inl e
         | Inr bs \<Rightarrow> if length bs < 4 then Inl ErrInvalidResponse else Inr (VFloat32 (be32 bs)))"

definition ReadTag :: "(string \<Rightarrow> string) \<Rightarrow> device \<Rightarrow> modbus_client \<Rightarrow> string \<Rightarrow> string \<Rightarrow> modbus_error + go_value" where
  "ReadTag UU dev c address dataType =
     (case parseAddress UU address of
        Inl e \<Rightarrow> Inl e
      | Inr (addrType, off, b) \<Rightarrow>
          if dataType = ''BOOL'' then
            (if addrType = ''coil'' \<or> addrType = ''discrete'' then readBoolDirect dev c addrType off
             else if b < 0 then Inl ErrInvalidAddressFormat
             else readBoolFromRegister dev c addrType off b)
          else if dataType = ''INT'' then readInt dev c addrType off
          else if dataType = ''REAL'' then readReal dev c addrType off
          else Inl (ErrInvalidDataType dataType))"

fun read_tags :: "(string \<Rightarrow> string) \<Rightarrow> device \<Rightarrow> modbus_client \<Rightarrow> (string \<times> string) list \<Rightarrow> modbus_error + go_value list" where
  "read_tags UU dev c [] = Inr []"
| "read_tags UU dev c ((a, t) # ps) =
     (case ReadTag UU dev c a t of
        Inl e \<Rightarrow> Inl (TagFailed a e)
      | Inr v \<Rightarrow> map_sum id ((#) v) (read_tags UU dev c ps))"

definition ReadMultipleTags ::
  "(string \<Rightarrow> string) \<Rightarrow> device \<Rightarrow> modbus_client \<Rightarrow> string list \<Rightarrow> string list \<Rightarrow> modbus_error + go_value list" where
  "ReadMultipleTags UU dev c addresses dataTypes =
     (if length addresses \<noteq> length dataTypes then Inl LengthsDiffer else read_tags UU dev c (zip addresses dataTypes))"

section \<open>A configuration that was accepted\<close>

lemma parity_blank: "parseParity UU '''' = Inr PARITY_NONE"
proof -
  have "is_ascii (TrimSpace '''')" "map upper_char (TrimSpace '''') = ''''" by code_simp+
  then show ?thesis by (simp add: parseParity_def ToUpper_def)
qed

lemma url_timeout [simp]: "url UL (cfg\<lparr>mbc_Timeout := t\<rparr>) = url UL cfg"
  by (simp add: url_def transport_def tcp_port_def Let_def)

lemma checked_client_sound:
  assumes "checked_client UL cfg = Inr c"
  shows "c = NewClient_modbus cfg \<and> (\<exists>u. url UL (mb_config c) = Inr u)"
  using assms by (auto simp: checked_client_def NewClient_modbus_def split: sum.splits)

lemma NewClientFromConfig_sound:
  assumes "NewClientFromConfig G PF UL UU conn = Inr c"
  shows "(\<exists>u. url UL (mb_config c) = Inr u) \<and> (\<exists>p. parseParity UU (Parity (mb_config c)) = Inr p) \<and> \<not> mb_client c"
proof -
  obtain cfg where cfg: "checked_client UL cfg = Inr c" "\<exists>p. parseParity UU (Parity cfg) = Inr p"
    using assms parity_blank[of UU] unfolding NewClientFromConfig_def Let_def
    by (force simp: blank_config_def simp del: firstString.simps firstNumber.simps split: if_split_asm option.split_asm sum.split_asm)
  from checked_client_sound[OF cfg(1)] cfg(2) show ?thesis by (auto simp: NewClient_modbus_def split: if_splits)
qed

lemma Connect_configured:
  assumes "\<exists>u. url UL (mb_config c) = Inr u" "\<exists>p. parseParity UU (Parity (mb_config c)) = Inr p"
  shows "Connect_modbus UL UU attempt c =
    (case attempt of Inl e \<Rightarrow> (Some (CreateFailed e), c) | Inr (Some e) \<Rightarrow> (Some (ErrConnectionTimeout e), c)
     | Inr None \<Rightarrow> (None, c\<lparr>mb_client := True\<rparr>))"
  using assms by (auto simp: Connect_modbus_def split: sum.split option.split)

lemma ConnectWithRetry_iff:
  assumes "\<exists>u. url UL (mb_config c) = Inr u" "\<exists>p. parseParity UU (Parity (mb_config c)) = Inr p" "\<not> mb_client c"
  shows "ConnectWithRetry UL UU attempts i n lastErr c = (e, c') \<Longrightarrow> n \<noteq> 0 \<or> lastErr \<noteq> None \<Longrightarrow>
    (e = None \<longleftrightarrow> (\<exists>k < n. attempts (i + k) = Inr None)) \<and> (mb_client c' \<longleftrightarrow> e = None)"
proof (induction n arbitrary: i lastErr)
  case 0
  then show ?case using assms(3) by auto
next
  case (Suc n)
  have "(\<exists>k < Suc n. attempts (i + k) = Inr None) \<longleftrightarrow> attempts i = Inr None \<or> (\<exists>k < n. attempts (Suc i + k) = Inr None)"
    by (auto simp: less_Suc_eq_0_disj)
  then show ?case using Suc.IH[of "Suc i"] Suc.prems(1)
    by (auto simp: Connect_configured[OF assms(1,2)] split: sum.splits option.splits)
qed

text \<open>
A configuration that \<open>NewClientFromConfig\<close> accepts never fails for a reason of its own later: connecting with
retries succeeds, and leaves an open client, exactly when one of the allowed attempts of the library succeeds.
\<close>

theorem accepted_config_connects:
  assumes "NewClientFromConfig G PF UL UU conn = Inr c" "ConnectWithRetry UL UU attempts 0 n None c = (e, c')" "0 < n"
  shows "(e = None \<longleftrightarrow> (\<exists>k < n. attempts k = Inr None)) \<and> (IsConnected_modbus c' \<longleftrightarrow> e = None)"
  using assms(2,3) ConnectWithRetry_iff[of UL c UU attempts 0 n None e c'] NewClientFromConfig_sound[OF assms(1)]
  by (simp add: IsConnected_modbus_def)

section \<open>The two address parsers\<close>

text \<open>
The address parser of single reads agrees with the one of the block reads on every address the latter
accepts with one-based numbering, except for the coils, which it takes for holding registers.
\<close>

theorem parseAddress_agrees:
  assumes "ParseAddress c False = Inr a" "ad_Type a \<noteq> ''coil''"
  shows "\<exists>b. parseAddress UU c = Inr (ad_Type a, ad_Offset a, b) \<and> (ad_Type a \<noteq> ''discrete'' \<longrightarrow> ad_BitOffset a = (if b < 0 then None else Some b))"
proof -
  obtain p bo where p: "split_bit (TrimSpace c) = Inr (p, bo)" and ne: "TrimSpace c \<noteq> ''''"
    using assms(1) by (auto simp: ParseAddress_def Let_def split: if_splits sum.splits)
  have bo: "bo = None \<or> (\<exists>k \<ge> 0. bo = Some k)"
    using p by (cases bo) (force simp: split_bit_def Let_def split: if_splits option.splits)+
  obtain val where val: "Atoi p = Some val"
    using assms(1) p ne by (auto simp: ParseAddress_def Let_def split: option.splits)
  let ?b = "case bo of None \<Rightarrow> - 1 | Some k \<Rightarrow> k"
  have b: "bo = (if ?b < 0 then None else Some ?b)" using bo by auto
  have "parseAddress UU c = Inr (ad_Type a, ad_Offset a, ?b) \<and> (ad_Type a \<noteq> ''discrete'' \<longrightarrow> ad_BitOffset a = bo)"
    using assms ne unfolding ParseAddress_def parseAddress_def Let_def p val range_address_def
    by (clarsimp simp: p val split: if_split_asm)
  with b show ?thesis by metis
qed

section \<open>Instances\<close>

lemma plain_ip_config:
  assumes "TrimSpace ip = ip" "ip \<noteq> ''''"
  shows "NewClientFromConfig G PF UL UU [''ip'' \<mapsto> VString ip] =
    Inr \<lparr>mb_config = (blank_config TransportTCP 1)\<lparr>mbc_Host := ip, mbc_Port := 502\<rparr>, mb_client = False\<rparr>"
proof -
  have "TrimSpace TransportTCP = TransportTCP" "is_ascii TransportTCP" "map lower_char TransportTCP = TransportTCP"
    by code_simp+
  then show ?thesis using assms
    by (simp add: NewClientFromConfig_def Let_def url_def transport_def blank_config_def NewClient_modbus_def ToLower_def number_or_def
        Second_def checked_client_def)
qed

lemma sample_ip: "TrimSpace ''10.0.0.7'' = ''10.0.0.7''"
  by code_simp

theorem accepted_config_connects_witness:
  "\<exists>c c'. NewClientFromConfig \<lparr>fmt_value = \<lambda>_. '''', float_to_int = \<lambda>_. 0\<rparr> (\<lambda>_. None) id id [''ip'' \<mapsto> VString ''10.0.0.7''] = Inr c \<and>
     ConnectWithRetry id id (\<lambda>i. if i < 2 then Inr (Some (LibOther ''refused'')) else Inr None) 0 3 None c = (None, c') \<and> IsConnected_modbus c'"
proof -
  let ?G = "\<lparr>fmt_value = \<lambda>_. '''', float_to_int = \<lambda>_. 0\<rparr>"
  let ?att = "\<lambda>i :: nat. if i < 2 then Inr (Some (LibOther ''refused'')) else (Inr None :: lib_error + lib_error option)"
  obtain c where c: "NewClientFromConfig ?G (\<lambda>_. None) id id [''ip'' \<mapsto> VString ''10.0.0.7''] = Inr c" by (simp add: plain_ip_config sample_ip)
  obtain e c' where r: "ConnectWithRetry id id ?att 0 3 None c = (e, c')" by (cases "ConnectWithRetry id id ?att 0 3 None c")
  have "\<exists>k<3. ?att k = Inr None" by (rule exI[of _ 2]) simp
  then have "e = None" "IsConnected_modbus c'" using accepted_config_connects[OF c r] by simp_all
  then show ?thesis using c r by blast
qed

theorem parseAddress_agrees_witness:
  "\<exists>b. parseAddress id ''40010.3'' = Inr (''holding'', 9, b) \<and> Some 3 = (if b < 0 then None else Some b)"
proof -
  have "ParseAddress ''40010.3'' False = Inr \<lparr>ad_Type = ''holding'', ad_Offset = 9, ad_BitOffset = Some 3\<rparr>" by code_simp
  from parseAddress_agrees[OF this, of id] show ?thesis by auto
qed

end
