(* ===== verification/Modbus_Driver.thy ===== *)
theory Modbus_Driver
  imports Modbus_Client Sparkplug_Client Alarms
begin

text \<open>
  The Modbus driver process (\<open>services/driver-modbus/main.go\<close>), first part: its state, what it publishes,
  the state of its link, the loading of its configuration and the write commands.  The theory
  composes the Modbus client, the Sparkplug edge node and dual publisher, the report-by-exception
  settings and the alarm manager, as the process does.

  A handler is one step and reads the clock once (\<open>now\<close>).  What is outside the program is an argument: the
  record \<open>env\<close> (Unicode tables, the protobuf library, \<open>strconv.ParseFloat\<close>, the texts of errors, the
  alarm store, the order \<open>sort.Slice\<close> gives equal elements, the variable \<open>SPARKPLUG_ENABLED\<close>), the answers
  of the device, and the results of the SQL queries and of \<open>json.Unmarshal\<close>.  Every message is handed to
  the MQTT client; the list of those calls is \<open>w_calls\<close> of the field \<open>d_mqtt\<close>.  Log lines are left out.
\<close>

unbundle bit_operations_syntax

section \<open>State\<close>

record GatewayConfig =
  gc_Name :: string
  gc_ConnectionConfig :: conn_config
  gc_ScanRateMs :: int
  gc_Enabled :: bool
  gc_ZeroBased :: bool
  gc_Tags :: "tag list"
  gc_Blocks :: "Block list"
  gc_OrgName :: string
  gc_OrgID :: int
  gc_Site :: string
  gc_Area :: string

text \<open>
  \<open>d_hasSparkplug\<close> says that \<open>sparkplugClient\<close> is not nil; the client itself is \<open>w_client\<close> of \<open>d_mqtt\<close>, and the
  dual publisher holds the same one.  \<open>d_reload\<close> is the buffered signal of \<open>reloadChan\<close>, \<open>d_spawned\<close>
  the goroutines of \<open>executeWrite\<close> that were started, \<open>d_subscriptions\<close> the subscriptions asked for.
\<close>

record 'db driver =
  d_gatewayID :: int
  d_orgID :: int
  d_modbusClient :: "modbus_client option"
  d_config :: "GatewayConfig option"
  d_parseFailures :: "int set"
  d_reload :: bool
  d_previousValues :: "int \<rightharpoonup> go_value"
  d_previousQualities :: "int \<Rightarrow> int"
  d_isConnected :: "bool option"
  d_writeCooldowns :: "int \<rightharpoonup> gotime"
  d_hasSparkplug :: bool
  d_dualPublisher :: "dual_publisher option"
  d_settingsManager :: "settings_manager option"
  d_alarmManager :: "'db alarm_world option"
  d_mqtt :: sp_world
  d_spawned :: "WriteCommand list"
  d_subscriptions :: "string list"

datatype write_error =
    DeviceError modbus_error | ReadModifyWrite "16 word" modbus_error | ReadOnly string string
  | InvalidValue string | NeedsBitOffset

record 'db env =
  e_lower :: "string \<Rightarrow> string"
  e_upper :: "string \<Rightarrow> string"
  e_fold :: "string \<Rightarrow> string \<Rightarrow> bool"
  e_wire :: protowire
  e_go :: go_impl
  e_parseFloat :: "string \<Rightarrow> float64 option"
  e_errorText :: "write_error \<Rightarrow> string"
  e_store :: "'db alarmStore"
  e_sort :: "(tag \<times> Address) list \<Rightarrow> (tag \<times> Address) list"
  e_sparkplugEnabled :: bool

definition slugify :: "'db env \<Rightarrow> string \<Rightarrow> string" where
  "slugify E s = Slug (e_lower E) s"

text \<open>
  The driver as \<open>main\<close> creates it, before its configuration is loaded, and the topic of the last will
  it registers at the broker.
\<close>

definition new_driver :: "int \<Rightarrow> settings_manager \<Rightarrow> 'db alarm_world \<Rightarrow> sp_world \<Rightarrow> 'db driver" where
  "new_driver gatewayID sm aw mqtt =
     \<lparr>d_gatewayID = gatewayID, d_orgID = 0, d_modbusClient = None, d_config = None, d_parseFailures = {}, d_reload = False,
      d_previousValues = Map.empty, d_previousQualities = (\<lambda>_. 0), d_isConnected = None, d_writeCooldowns = Map.empty,
      d_hasSparkplug = False, d_dualPublisher = None, d_settingsManager = Some sm, d_alarmManager = Some aw,
      d_mqtt = mqtt, d_spawned = [], d_subscriptions = []\<rparr>"

definition lwt_topic :: "int \<Rightarrow> int \<Rightarrow> string" where
  "lwt_topic orgID gatewayID = Health orgID gatewayID"

section \<open>Publishing\<close>

text \<open>A call of \<open>mqttClient.PublishWithQoS\<close> with QoS 1, whose outcome the driver ignores.\<close>

definition mqtt_send :: "string \<Rightarrow> msg_body \<Rightarrow> bool \<Rightarrow> 'db driver \<Rightarrow> 'db driver" where
  "mqtt_send topic body retained d =
     d\<lparr>d_mqtt := snd (PublishWithQoS \<lparr>msg_type = ''APP'', msg_sp = None, msg_topic = topic, msg_body = body,
         msg_qos = 1, msg_retained = retained\<rparr> (d_mqtt d))\<rparr>"

definition no_scaling :: scaling_config where
  "no_scaling = \<lparr>sc_Enabled = False, RawMin = 0, RawMax = 0, EuMin = 0, EuMax = 0, sc_Clamp = False, sc_Invert = False\<rparr>"

definition find_tag :: "int \<Rightarrow> GatewayConfig \<Rightarrow> tag option" where
  "find_tag tagID cfg = find (\<lambda>t. tg_ID t = tagID) (gc_Tags cfg)"

definition scalingFor :: "int \<Rightarrow> 'db driver \<Rightarrow> scaling_config" where
  "scalingFor tagID d =
     (case d_config d of
        None \<Rightarrow> no_scaling
      | Some cfg \<Rightarrow> (case find_tag tagID cfg of Some t \<Rightarrow> FromTag t | None \<Rightarrow> no_scaling))"

text \<open>The error of \<open>json.Marshal\<close> is dropped, so a value JSON cannot express is published as an empty text.\<close>

definition publishLegacy ::
  "'db env \<Rightarrow> int \<Rightarrow> string \<Rightarrow> go_value \<Rightarrow> int \<Rightarrow> int \<Rightarrow> bool \<Rightarrow> GatewayConfig \<Rightarrow> 'db driver \<Rightarrow> 'db driver" where
  "publishLegacy E tagID alias val ts quality euScaled cfg d =
     (let topic = ''data/'' @ gc_OrgName cfg @ ''/'' @ gc_Site cfg @ ''/'' @ gc_Area cfg @ ''/'' @
                    slugify E (gc_Name cfg) @ ''/'' @ slugify E alias;
          tp = \<lparr>tp_TagID = tagID, tp_OrgID = gc_OrgID cfg, tp_Value = val, tp_Timestamp = of_int ts,
                tp_Quality = quality, tp_EUScaled = euScaled\<rparr>
      in mqtt_send topic (if json_value_ok val then JsonTag tp else PlainText '''') False d)"

definition publishMode :: "'db driver \<Rightarrow> PublishMode" where
  "publishMode d = (case d_settingsManager d of None \<Rightarrow> Dual | Some m \<Rightarrow> gs_PublishMode (Get_settings m))"

definition publishDual ::
  "'db env \<Rightarrow> gotime \<Rightarrow> int \<Rightarrow> string \<Rightarrow> go_value \<Rightarrow> string \<Rightarrow> int \<Rightarrow> int \<Rightarrow> 'db driver \<Rightarrow> 'db driver" where
  "publishDual E now tagID alias val dataType quality ts d =
     (case d_config d of
        None \<Rightarrow> d
      | Some cfg \<Rightarrow>
          let sc = scalingFor tagID d; val = Apply val sc; ms = of_int (now_ms now) in
          (case publishMode d of
             LegacyOnly \<Rightarrow> publishLegacy E tagID alias val ts quality (sc_Enabled sc) cfg d
           | SparkplugOnly \<Rightarrow>
               if d_hasSparkplug d \<and> IsConnected (w_client (d_mqtt d)) then
                 d\<lparr>d_mqtt := snd (PublishSingleTag (e_lower E) (e_wire E) (e_go E) ms ms (slugify E (gc_Name cfg))
                     \<lparr>td_TagID = tagID, td_DeviceID = alias, td_Value = val, td_DataType = dataType, td_Timestamp = of_int ts,
                      td_Quality = quality, td_OrgID = gc_OrgID cfg, td_EUScaled = sc_Enabled sc\<rparr> (d_mqtt d))\<rparr>
               else d
           | Dual \<Rightarrow>
               (case d_dualPublisher d of
                  Some dp \<Rightarrow>
                    d\<lparr>d_mqtt := snd (Publish (e_lower E) (e_wire E) (e_go E) ms ms dp tagID alias val dataType quality
                        (of_int ts) (sc_Enabled sc) (d_mqtt d))\<rparr>
                | None \<Rightarrow> publishLegacy E tagID alias val ts quality (sc_Enabled sc) cfg d)))"

definition publishAlarmEvent :: "'db env \<Rightarrow> gotime \<Rightarrow> alarm_event \<Rightarrow> 'db driver \<Rightarrow> 'db driver" where
  "publishAlarmEvent E now ev d =
     (case d_config d of
        None \<Rightarrow> d
      | Some cfg \<Rightarrow>
          let threshold = (case ad_Threshold (ev_def ev) of Some t \<Rightarrow> t | None \<Rightarrow> 0);
              topic = ''sys/alarms/'' @ itoa (gc_OrgID cfg) @ ''/'' @ gc_Site cfg @ ''/'' @ gc_Area cfg @ ''/'' @
                        slugify E (gc_Name cfg) @ ''/'' @ slugify E (ev_alias ev)
          in if json_value_ok (VFloat64 (ev_val ev)) \<and> json_value_ok (VFloat64 threshold)
             then mqtt_send topic (JsonObject
               [(''event_id'', VInt (of_int (ev_eventID ev))), (''tag_id'', VInt (of_int (ev_tagID ev))),
                (''definition_id'', VInt (of_int (ad_ID (ev_def ev)))), (''status'', VString (ev_status ev)),
                (''alarm_type'', VString (ad_AlarmType (ev_def ev))), (''severity'', VString (ad_Severity (ev_def ev))),
                (''message'', VString (ad_Message (ev_def ev))), (''value_at_trigger'', VFloat64 (ev_val ev)),
                (''threshold'', VFloat64 threshold), (''tag_alias'', VString (ev_alias ev)),
                (''timestamp'', VInt64 (of_int (now_ms now)))]) False d
             else d)"

text \<open>
  A call of the alarm manager.  It announces each event through the callback, which publishes it, so the events it
  adds are published in their order.
\<close>

definition with_alarms :: "'db env \<Rightarrow> gotime \<Rightarrow> ('db alarm_world \<Rightarrow> 'db alarm_world) \<Rightarrow> 'db driver \<Rightarrow> 'db driver" where
  "with_alarms E now f d =
     (case d_alarmManager d of
        None \<Rightarrow> d
      | Some w \<Rightarrow>
          let w' = f w in
          fold (publishAlarmEvent E now) (drop (length (w_events w)) (w_events w')) (d\<lparr>d_alarmManager := Some w'\<rparr>))"

definition updateState :: "int \<Rightarrow> go_value \<Rightarrow> int \<Rightarrow> 'db driver \<Rightarrow> 'db driver" where
  "updateState i val quality d =
     d\<lparr>d_previousValues := (d_previousValues d)(i \<mapsto> val), d_previousQualities := (d_previousQualities d)(i := quality)\<rparr>"

text \<open>\<open>None\<close> is the run-time panic of comparing uncomparable dynamic types.\<close>

definition shouldPublish :: "gotime \<Rightarrow> int \<Rightarrow> go_value \<Rightarrow> int \<Rightarrow> 'db driver \<Rightarrow> (bool \<times> 'db driver) option" where
  "shouldPublish now i val quality d =
     (case d_settingsManager d of
        None \<Rightarrow> Some (True, d)
      | Some m \<Rightarrow>
          map_option (\<lambda>(ok, m). (ok, d\<lparr>d_settingsManager := Some m\<rparr>))
            (ShouldPublish now i val (case d_previousValues d i of None \<Rightarrow> VNil | Some v \<Rightarrow> v) quality
               (d_previousQualities d i) m))"

section \<open>The state of the link\<close>

definition health_status :: "bool \<Rightarrow> string" where
  "health_status on = (if on then ''online'' else ''offline'')"

definition publishHealth :: "string \<Rightarrow> 'db driver \<Rightarrow> 'db driver" where
  "publishHealth status d = mqtt_send (Health (d_orgID d) (d_gatewayID d)) (PlainText status) True d"

definition birth_data :: "gotime \<Rightarrow> GatewayConfig \<Rightarrow> 'db driver \<Rightarrow> tag_data list" where
  "birth_data now cfg d =
     map (\<lambda>t. \<lparr>td_TagID = tg_ID t, td_DeviceID = tg_Alias t,
               td_Value = (case d_previousValues d (tg_ID t) of None \<Rightarrow> VNil | Some v \<Rightarrow> v),
               td_DataType = tg_DataType t, td_Timestamp = of_int (now_ms now), td_Quality = 192,
               td_OrgID = gc_OrgID cfg, td_EUScaled = False\<rparr>) (gc_Tags cfg)"

definition setConnectionStateLocked :: "'db env \<Rightarrow> gotime \<Rightarrow> bool \<Rightarrow> 'db driver \<Rightarrow> 'db driver" where
  "setConnectionStateLocked E now on d =
     (if d_isConnected d = Some on then d
      else
        let wasConnected = (case d_isConnected d of None \<Rightarrow> False | Some b \<Rightarrow> b);
            d = publishHealth (health_status on) (d\<lparr>d_isConnected := Some on\<rparr>);
            ms = of_int (now_ms now)
        in if publishMode d = LegacyOnly then d
           else case d_config d of
                  None \<Rightarrow> d
                | Some cfg \<Rightarrow>
                    if \<not> d_hasSparkplug d \<or> \<not> IsConnected (w_client (d_mqtt d)) then d
                    else if on \<and> \<not> wasConnected then
                      d\<lparr>d_mqtt := snd (PublishDBIRTH (e_lower E) (e_wire E) (e_go E) ms ms (slugify E (gc_Name cfg))
                          (birth_data now cfg d) (d_mqtt d))\<rparr>
                    else if \<not> on \<and> wasConnected then
                      d\<lparr>d_mqtt := snd (PublishDDEATH (e_lower E) (e_wire E) (e_go E) ms (slugify E (gc_Name cfg)) (d_mqtt d))\<rparr>
                    else d)"

definition setConnectionState :: "'db env \<Rightarrow> gotime \<Rightarrow> bool \<Rightarrow> 'db driver \<Rightarrow> 'db driver" where
  "setConnectionState E now on d = setConnectionStateLocked E now on d"

text \<open>One tick of \<open>healthLoop\<close>.\<close>

definition healthLoop_tick :: "'db driver \<Rightarrow> 'db driver" where
  "healthLoop_tick d = publishHealth (health_status (d_isConnected d = Some True)) d"

definition publishSparkplugNodeDeath :: "'db env \<Rightarrow> gotime \<Rightarrow> 'db driver \<Rightarrow> 'db driver" where
  "publishSparkplugNodeDeath E now d =
     (if d_hasSparkplug d
      then d\<lparr>d_mqtt := Disconnect (e_lower E) (e_wire E) (e_go E) (of_int (now_ms now)) (d_mqtt d)\<rparr> else d)"

section \<open>Configuration\<close>

definition conn_string :: "conn_config \<Rightarrow> string \<Rightarrow> string" where
  "conn_string c k = (case c k of Some (VString s) \<Rightarrow> s | _ \<Rightarrow> '''')"

definition conn_number :: "conn_config \<Rightarrow> string \<Rightarrow> float64" where
  "conn_number c k = (case c k of Some (VFloat64 f) \<Rightarrow> f | _ \<Rightarrow> 0)"

definition connectionConfigChanged :: "conn_config \<Rightarrow> conn_config \<Rightarrow> bool" where
  "connectionConfigChanged old new =
     (if old = Map.empty then False
      else if conn_string old ''host'' \<noteq> conn_string new ''host'' then True
      else if \<not> f64_eq (conn_number old ''port'') (conn_number new ''port'') then True
      else if \<not> f64_eq (conn_number old ''slave_id'') (conn_number new ''slave_id'') then True
      else if conn_string old ''protocol'' \<noteq> conn_string new ''protocol'' then True
      else False)"

text \<open>
  The client is created once; the dual publisher is created anew.  \<open>broker\<close> is the host and port of
  the environment.
\<close>

definition initSparkplugClientLocked ::
  "'db env \<Rightarrow> gotime \<Rightarrow> string \<times> int \<Rightarrow> string \<Rightarrow> string \<Rightarrow> string \<Rightarrow> string \<Rightarrow> int \<Rightarrow> 'db driver \<Rightarrow> 'db driver" where
  "initSparkplugClientLocked E now broker orgName siteName areaName gatewayName orgID d =
     (let cfg = \<lparr>MQTTHost = fst broker, MQTTPort = snd broker, MQTTClientID = ''sparkplug-modbus-'' @ itoa (d_gatewayID d),
                 MQTTUsername = '''', MQTTPassword = '''',
                 GroupID = BuildGroupID (e_lower E) orgName siteName, EdgeNodeID = BuildEdgeNodeID (e_lower E) areaName gatewayName,
                 EnableLegacy = True\<rparr>;
          d = (if d_hasSparkplug d then d
               else d\<lparr>d_hasSparkplug := True,
                      d_mqtt := SetConnected (e_lower E) (e_wire E) (e_go E) (of_int (now_ms now)) True
                                  ((d_mqtt d)\<lparr>w_client := NewClient cfg True\<rparr>)\<rparr>)
      in d\<lparr>d_dualPublisher := Some (NewDualPublisher (Some (w_client (d_mqtt d))) orgName siteName areaName gatewayName orgID)\<rparr>)"

record gateway_row_m =
  gr_name :: string
  gr_connectionConfig :: conn_config
  gr_scanRateMs :: int
  gr_enabled :: bool
  gr_zeroBased :: bool
  gr_orgName :: string
  gr_orgID :: int
  gr_siteName :: string
  gr_areaName :: string

text \<open>
  The rows of the two queries: \<open>None\<close> when a query or its iteration fails, and the tags that could be scanned.
  The result says whether the configuration was replaced.
\<close>

definition loadConfig ::
  "'db env \<Rightarrow> gotime \<Rightarrow> string \<times> int \<Rightarrow> gateway_row_m option \<Rightarrow> tag list option \<Rightarrow> 'db driver \<Rightarrow> bool \<times> 'db driver" where
  "loadConfig E now broker row tags d =
     (case (row, tags) of
        (Some g, Some tags) \<Rightarrow>
          let oldConn = (case d_config d of None \<Rightarrow> Map.empty | Some cfg \<Rightarrow> gc_ConnectionConfig cfg);
              org = slugify E (gr_orgName g); site = slugify E (gr_siteName g); area = slugify E (gr_areaName g);
              gw = slugify E (gr_name g);
              d = d\<lparr>d_parseFailures := {},
                    d_config := Some \<lparr>gc_Name = gr_name g, gc_ConnectionConfig = gr_connectionConfig g, gc_ScanRateMs = gr_scanRateMs g,
                      gc_Enabled = gr_enabled g, gc_ZeroBased = gr_zeroBased g, gc_Tags = tags,
                      gc_Blocks = createBlocks (e_sort E) tags (gr_zeroBased g), gc_OrgName = org, gc_OrgID = gr_orgID g,
                      gc_Site = site, gc_Area = area\<rparr>\<rparr>;
              d = (if connectionConfigChanged oldConn (gr_connectionConfig g)
                   then setConnectionStateLocked E now False (d\<lparr>d_modbusClient := None\<rparr>) else d);
              d = (if e_sparkplugEnabled E then initSparkplugClientLocked E now broker org site area gw (gr_orgID g) d else d);
              legacyTopic = ''cmd/'' @ org @ ''/'' @ site @ ''/'' @ area @ ''/'' @ gw @ ''/+'';
              dcmdTopic = ''spBv1.0/'' @ BuildGroupID (e_lower E) org site @ ''/DCMD/'' @ BuildEdgeNodeID (e_lower E) area gw @ ''/+''
          in (True, d\<lparr>d_subscriptions := d_subscriptions d @ legacyTopic # (if e_sparkplugEnabled E then [dcmdTopic] else [])\<rparr>)
      | _ \<Rightarrow> (False, d))"

definition sanitizeScanRate :: "int \<Rightarrow> duration" where
  "sanitizeScanRate ms =
     (let rate = wrap64 (ms * Millisecond) in if rate < 100 * Millisecond then 1000 * Millisecond else rate)"

section \<open>Signals\<close>

definition handleReloadCommand :: "'db env \<Rightarrow> gotime \<Rightarrow> (nat \<Rightarrow> gotime) \<Rightarrow> alarm_def list option \<Rightarrow> track_key list \<Rightarrow> 'db driver \<Rightarrow> 'db driver" where
  "handleReloadCommand E now clock defs order d =
     (with_alarms E now (LoadDefinitions (e_store E) clock defs order) d)\<lparr>d_reload := True\<rparr>"

definition handleSettingsReloadCommand ::
  "'db env \<Rightarrow> gotime \<Rightarrow> (nat \<Rightarrow> gotime) \<Rightarrow> (string \<rightharpoonup> string) option \<Rightarrow> alarm_def list option \<Rightarrow> track_key list \<Rightarrow> 'db driver \<Rightarrow> 'db driver" where
  "handleSettingsReloadCommand E now clock rows defs order d =
     with_alarms E now (LoadDefinitions (e_store E) clock defs order)
       (d\<lparr>d_settingsManager := map_option (\<lambda>m. snd (Load_settings (e_parseFloat E) rows m)) (d_settingsManager d)\<rparr>)"

definition handleHealthMessage :: "'db env \<Rightarrow> string \<Rightarrow> string \<Rightarrow> 'db driver \<Rightarrow> 'db driver" where
  "handleHealthMessage E topic payload d =
     (let parts = split_on CHR ''/'' topic in
      if length parts < 3 then d
      else case Atoi (parts ! 2) of
             None \<Rightarrow> d
           | Some healthGatewayID \<Rightarrow>
               if healthGatewayID \<noteq> d_gatewayID d then d
               else if ToLower (e_lower E) (TrimSpace payload) = ''online'' then
                 (if d_isConnected d = Some True then d else d\<lparr>d_reload := True\<rparr>)
               else d)"

section \<open>Write commands\<close>

fun toBool_driver :: "(string \<Rightarrow> string) \<Rightarrow> go_value \<Rightarrow> bool" where
  "toBool_driver UL (VBool v) = v"
| "toBool_driver UL (VFloat64 v) = (\<not> f64_eq v 0)"
| "toBool_driver UL (VInt v) = (v \<noteq> 0)"
| "toBool_driver UL (VString v) = (let lc = ToLower UL v in lc = ''true'' \<or> lc = ''1'' \<or> lc = ''on'')"
| "toBool_driver UL v = False"

fun toFloat_driver :: "(string \<Rightarrow> float64 option) \<Rightarrow> go_value \<Rightarrow> float64 option" where
  "toFloat_driver PF (VFloat64 v) = Some v"
| "toFloat_driver PF (VInt v) = Some (f64_of_int (sint v))"
| "toFloat_driver PF (VString v) = PF v"
| "toFloat_driver PF v = None"

type_synonym exec_outcome = "write_error option \<times> request list"

definition dev_outcome :: "write_outcome \<Rightarrow> exec_outcome" where
  "dev_outcome r = (map_option DeviceError (fst r), snd r)"

definition writeBool :: "'db env \<Rightarrow> device \<Rightarrow> modbus_client \<Rightarrow> Address \<Rightarrow> go_value \<Rightarrow> exec_outcome" where
  "writeBool E dev c addr val =
     (let boolVal = toBool_driver (e_lower E) val in
      if ad_Type addr = ''coil'' then dev_outcome (WriteSingleCoil dev c (ad_Offset addr) (if boolVal then 0xFF00 else 0))
      else if ad_Type addr = ''holding'' then
        (case ad_BitOffset addr of
           None \<Rightarrow> (Some NeedsBitOffset, [])
         | Some b \<Rightarrow>
            (case ReadHoldingRegister dev c (ad_Offset addr) of
               Inl e \<Rightarrow> (Some (ReadModifyWrite (ad_Offset addr) e), [])
             | Inr currentVal \<Rightarrow>
                 let bitMask = push_bit (nat b) 1;
                     newVal = (if boolVal then currentVal OR bitMask else currentVal AND NOT bitMask)
                 in dev_outcome (WriteSingleRegister dev c (ad_Offset addr) newVal)))
      else (Some (ReadOnly ''BOOL'' (ad_Type addr)), []))"

definition write_number :: "'db env \<Rightarrow> device \<Rightarrow> modbus_client \<Rightarrow> Address \<Rightarrow> string \<Rightarrow> float64 \<Rightarrow> exec_outcome" where
  "write_number E dev c addr dtype v =
     (if ad_Type addr \<noteq> ''holding'' then (Some (ReadOnly dtype (ad_Type addr)), [])
      else if dtype = ''INT'' then
        dev_outcome (WriteSingleRegister dev c (ad_Offset addr) (of_int (conv_num (e_go E) (- 32768) 32767 v)))
      else if dtype = ''UINT'' then
        dev_outcome (WriteSingleRegister dev c (ad_Offset addr) (of_int (conv_num (e_go E) 0 65535 v)))
      else if dtype = ''DINT'' then
        dev_outcome (WriteMultipleRegisters dev c (ad_Offset addr) 2 (put32 (of_int (conv_num (e_go E) (- 2147483648) 2147483647 v))))
      else dev_outcome (WriteMultipleRegisters dev c (ad_Offset addr) 2 (put32 (f32_of_f64 v))))"

text \<open>\<open>None\<close> when the type is not one that can be written.\<close>

definition write_value :: "'db env \<Rightarrow> device \<Rightarrow> modbus_client \<Rightarrow> Address \<Rightarrow> string \<Rightarrow> go_value \<Rightarrow> exec_outcome option" where
  "write_value E dev c addr dtype val =
     (if dtype = ''BOOL'' then Some (writeBool E dev c addr val)
      else if dtype \<in> set [''INT'', ''UINT'', ''DINT'', ''REAL''] then
        Some (case toFloat_driver (e_parseFloat E) val of
                Some v \<Rightarrow> write_number E dev c addr dtype v
              | None \<Rightarrow> (Some (InvalidValue dtype), []))
      else None)"

definition result_body :: "gotime \<Rightarrow> int \<Rightarrow> bool \<Rightarrow> string \<Rightarrow> go_value \<Rightarrow> msg_body" where
  "result_body now tagID success message readBack =
     (if json_value_ok readBack
      then JsonObject ([(''tag_id'', VInt (of_int tagID)), (''success'', VBool success), (''message'', VString message)] @
             (if readBack = VNil then [] else [(''read_back'', readBack)]) @ [(''ts'', VInt64 (of_int (now_ms now)))])
      else PlainText '''')"

definition publishWriteResult :: "'db env \<Rightarrow> gotime \<Rightarrow> int \<Rightarrow> bool \<Rightarrow> string \<Rightarrow> go_value \<Rightarrow> 'db driver \<Rightarrow> 'db driver" where
  "publishWriteResult E now tagID success message readBack d =
     (let body = result_body now tagID success message readBack;
          d = mqtt_send (''cmd/write/result/'' @ itoa (d_gatewayID d)) body False d
      in case d_config d of
           None \<Rightarrow> d
         | Some cfg \<Rightarrow>
             let alias = (case find_tag tagID cfg of Some t \<Rightarrow> tg_Alias t | None \<Rightarrow> '''') in
             if alias = '''' then d
             else
               let d = mqtt_send (''cmd/result/'' @ gc_OrgName cfg @ ''/'' @ gc_Site cfg @ ''/'' @ gc_Area cfg @ ''/'' @
                          slugify E (gc_Name cfg) @ ''/'' @ slugify E alias) body False d
               in if e_sparkplugEnabled E \<and> d_dualPublisher d \<noteq> None
                  then mqtt_send (''spBv1.0/'' @ BuildGroupID (e_lower E) (gc_OrgName cfg) (gc_Site cfg) @ ''/DCMD/'' @
                         BuildEdgeNodeID (e_lower E) (gc_Area cfg) (gc_Name cfg) @ ''/'' @ slugify E alias @ ''/result'') body False d
                  else d)"

text \<open>
  The requests that reached the device, and the driver afterwards.  Without a configuration the code
  dereferences a nil pointer: \<open>None\<close>.
\<close>

definition executeWrite :: "'db env \<Rightarrow> device \<Rightarrow> gotime \<Rightarrow> WriteCommand \<Rightarrow> 'db driver \<Rightarrow> (request list \<times> 'db driver) option" where
  "executeWrite E dev now cmd d =
     (let fail = (\<lambda>msg. publishWriteResult E now (wc_TagID cmd) False msg VNil d) in
      case d_config d of
        None \<Rightarrow> None
      | Some cfg \<Rightarrow>
          (case ParseAddress (wc_Code cmd) (gc_ZeroBased cfg) of
             Inl _ \<Rightarrow> Some ([], fail (''invalid address: '' @ wc_Code cmd))
           | Inr addr \<Rightarrow>
               (case d_modbusClient d of
                  None \<Rightarrow> Some ([], fail ''Modbus not connected'')
                | Some c \<Rightarrow>
                    if \<not> IsConnected_modbus c then Some ([], fail ''Modbus not connected'')
                    else (case write_value E dev c addr (wc_DataType cmd) (wc_Value cmd) of
                            None \<Rightarrow> Some ([], fail (''unsupported data type: '' @ wc_DataType cmd))
                          | Some (Some e, rs) \<Rightarrow> Some (rs, fail (e_errorText E e))
                          | Some (None, rs) \<Rightarrow>
                              let d = publishWriteResult E now (wc_TagID cmd) True ''write OK'' (wc_Value cmd) d;
                                  d = updateState (wc_TagID cmd) (wc_Value cmd) 0 d;
                                  d = d\<lparr>d_writeCooldowns := (d_writeCooldowns d)(wc_TagID cmd \<mapsto> now + 2 * Second)\<rparr>
                              in Some (rs, case find_tag (wc_TagID cmd) cfg of
                                   Some t \<Rightarrow> if tg_Alias t \<noteq> ''''
                                             then publishDual E now (wc_TagID cmd) (tg_Alias t) (wc_Value cmd) (tg_DataType t) 0 (now_ms now) d
                                             else d
                                 | None \<Rightarrow> d)))))"

text \<open>
  \<open>cmd\<close> is the decoded payload, \<open>Inl\<close> the tag id left by a failed decoding; \<open>v\<close> is the validity configured in the database.
\<close>

definition handleWriteCommand :: "'db env \<Rightarrow> string option \<Rightarrow> gotime \<Rightarrow> int + WriteCommand \<Rightarrow> 'db driver \<Rightarrow> 'db driver" where
  "handleWriteCommand E v now cmd d =
     (case cmd of
        Inl tagID \<Rightarrow> publishWriteResult E now tagID False ''invalid command payload'' VNil d
      | Inr cmd \<Rightarrow>
          let maxAge = MaxAgeFromDB v; (ok, age) = Fresh (wc_IssuedAt cmd) now maxAge in
          if \<not> ok then publishWriteResult E now (wc_TagID cmd) False (RefusalMessage age maxAge) VNil d
          else d\<lparr>d_spawned := d_spawned d @ [cmd]\<rparr>)"

text \<open>\<open>strings.EqualFold\<close>.\<close>

definition EqualFold :: "'db env \<Rightarrow> string \<Rightarrow> string \<Rightarrow> bool" where
  "EqualFold E s t = (if is_ascii s \<and> is_ascii t then map lower_char s = map lower_char t else e_fold E s t)"

text \<open>The command for a tag that the two handlers below hand on; it goes through JSON once more, unchanged.\<close>

definition tag_command :: "tag \<Rightarrow> go_value \<Rightarrow> WriteCommand" where
  "tag_command t val = \<lparr>wc_TagID = tg_ID t, wc_Code = tg_Code t, wc_Value = val, wc_DataType = tg_DataType t,
     wc_IssuedAt = 0, wc_RecipeRunID = 0\<rparr>"

text \<open>\<open>full\<close> and \<open>direct\<close> are the payload decoded as a command and as a bare value.\<close>

definition handleLegacyWriteCommand ::
  "'db env \<Rightarrow> string option \<Rightarrow> gotime \<Rightarrow> string \<Rightarrow> WriteCommand option \<Rightarrow> go_value option \<Rightarrow> 'db driver \<Rightarrow> 'db driver" where
  "handleLegacyWriteCommand E v now topic full direct d =
     (let parts = split_on CHR ''/'' topic in
      if length parts < 6 then d
      else case d_config d of
        None \<Rightarrow> d
      | Some cfg \<Rightarrow>
          (case find (\<lambda>t. EqualFold E (tg_Alias t) (parts ! 5) \<or> EqualFold E (slugify E (tg_Alias t)) (parts ! 5)) (gc_Tags cfg) of
             None \<Rightarrow> d
           | Some t \<Rightarrow>
               let val = (case full of
                            Some c \<Rightarrow> if wc_Value c \<noteq> VNil then Some (wc_Value c) else direct
                          | None \<Rightarrow> direct)
               in case val of
                    None \<Rightarrow> d
                  | Some val \<Rightarrow> handleWriteCommand E v now (Inr (tag_command t val)) d))"

definition dcmd_metric :: "'db env \<Rightarrow> string option \<Rightarrow> gotime \<Rightarrow> GatewayConfig \<Rightarrow> string \<times> go_value \<Rightarrow> 'db driver \<Rightarrow> 'db driver" where
  "dcmd_metric E v now cfg m d =
     (case find (\<lambda>t. EqualFold E (tg_Alias t) (fst m) \<or>
                     EqualFold E (replace_char CHR ''-'' CHR ''_'' (tg_Alias t)) (fst m)) (gc_Tags cfg) of
        None \<Rightarrow> d
      | Some t \<Rightarrow> handleWriteCommand E v now (Inr (tag_command t (snd m))) d)"

text \<open>\<open>metrics\<close> are the names and values of the decoded payload.\<close>

definition handleSparkplugDCMD ::
  "'db env \<Rightarrow> string option \<Rightarrow> gotime \<Rightarrow> string \<Rightarrow> (string \<times> go_value) list option \<Rightarrow> 'db driver \<Rightarrow> 'db driver" where
  "handleSparkplugDCMD E v now topic metrics d =
     (case ParseTopic topic of
        Inl _ \<Rightarrow> d
      | Inr _ \<Rightarrow>
          (case metrics of
             None \<Rightarrow> d
           | Some ms \<Rightarrow> (case d_config d of None \<Rightarrow> d | Some cfg \<Rightarrow> fold (dcmd_metric E v now cfg) ms d)))"

section \<open>Read back\<close>

datatype readback_error = RbModbus modbus_error | RbShort | RbUnsupported

definition readBackValue :: "device \<Rightarrow> 'db driver \<Rightarrow> Address \<Rightarrow> string \<Rightarrow> readback_error + go_value" where
  "readBackValue dev d addr dtype =
     (case d_modbusClient d of
        None \<Rightarrow> Inl (RbModbus ErrNotConnected)
      | Some c \<Rightarrow>
          let reg = (\<lambda>f. case ReadHoldingRegister dev c (ad_Offset addr) of Inl e \<Rightarrow> Inl (RbModbus e) | Inr w \<Rightarrow> Inr (f w));
              two = (\<lambda>f. case ReadHoldingRegisters dev c (ad_Offset addr) 2 of
                           Inl e \<Rightarrow> Inl (RbModbus e)
                         | Inr data \<Rightarrow> if length data < 4 then Inl RbShort else Inr (f (be32 data)))
          in if dtype = ''BOOL'' then
               (if ad_Type addr = ''coil'' then
                  (case ReadCoils dev c (ad_Offset addr) 1 of
                     Inl e \<Rightarrow> Inl (RbModbus e)
                   | Inr data \<Rightarrow> if data = [] then Inl RbShort else Inr (VBool (bit (data ! 0) 0)))
                else case ad_BitOffset addr of
                       Some b \<Rightarrow> if ad_Type addr = ''holding'' then reg (\<lambda>w. VBool (bit w (nat b))) else Inl RbUnsupported
                     | None \<Rightarrow> Inl RbUnsupported)
             else if dtype = ''INT'' then reg (\<lambda>w. VFloat64 (f64_of_int (sint w)))
             else if dtype = ''UINT'' then reg (\<lambda>w. VFloat64 (f64_of_int (uint w)))
             else if dtype = ''DINT'' then two (\<lambda>w. VFloat64 (f64_of_int (sint w)))
             else if dtype = ''REAL'' then two (\<lambda>w. VFloat64 (f64_of_f32 w))
             else Inl RbUnsupported)"

text \<open>The binary64 numbers nearest to 0.01 and 0.001.\<close>

definition one_hundredth :: float64 where "one_hundredth = 0x3F847AE147AE147B"
definition one_thousandth :: float64 where "one_thousandth = 0x3F50624DD2F1A9FC"

definition verifyReadBack :: "go_impl \<Rightarrow> go_value \<Rightarrow> go_value \<Rightarrow> string \<Rightarrow> bool" where
  "verifyReadBack G written readBack dataType =
     (if dataType = ''BOOL'' then
        (let wBool = (case written of VBool v \<Rightarrow> v | VFloat64 v \<Rightarrow> \<not> f64_eq v 0 | _ \<Rightarrow> False)
         in case readBack of VBool r \<Rightarrow> wBool = r | _ \<Rightarrow> False)
      else if dataType \<in> set [''INT'', ''UINT'', ''DINT''] then
        (case (written, readBack) of (VFloat64 w, VFloat64 r) \<Rightarrow> to_int G w = to_int G r | _ \<Rightarrow> False)
      else if dataType = ''REAL'' then
        (case (written, readBack) of
           (VFloat64 w, VFloat64 r) \<Rightarrow>
             let diff = f64_abs (f64_sub w r)
             in f64_lt diff one_hundredth \<or> (\<not> f64_eq w 0 \<and> f64_lt (f64_div diff (f64_abs w)) one_thousandth)
         | _ \<Rightarrow> False)
      else False)"

section \<open>What is written is what is read\<close>

lemma reg_bytes_be_regs: "reg_bytes (be_regs [a, b, c, d]) = [a, b, c, d]"
proof -
  have "[0..<length [a, b, c, d] div 2] = [0, 1]" by (simp add: upt_rec)
  then have "be_regs [a, b, c, d] = [be16 a b, be16 c d]" by (simp add: be_regs_def eval_nat_numeral)
  then show ?thesis using be16_split[of a b] be16_split[of c d] by (simp add: reg_bytes_def)
qed

lemma put32_bytes:
  fixes w :: "32 word"
  shows "be32 (put32 w) = w" "reg_bytes (be_regs (put32 w)) = put32 w"
proof -
  show "be32 (put32 w) = w" using be32_put32[of w "[]"] by simp
  show "reg_bytes (be_regs (put32 w)) = put32 w" unfolding put32_def by (rule reg_bytes_be_regs)
qed

definition regs_written :: "request list \<Rightarrow> (16 word \<times> 16 word list) option" where
  "regs_written rs = (case rs of [WriteReg off w] \<Rightarrow> Some (off, [w]) | [WriteRegs off ws] \<Rightarrow> Some (off, ws) | _ \<Rightarrow> None)"

text \<open>The value a driver reads for a number of the given type.\<close>

definition read_as :: "string \<Rightarrow> float64 \<Rightarrow> go_value option" where
  "read_as dtype f =
     (if dtype = ''REAL'' then Some (VFloat32 (f32_of_f64 f))
      else case f64_trunc f of
        None \<Rightarrow> None
      | Some i \<Rightarrow> if dtype = ''INT'' \<and> - 32768 \<le> i \<and> i \<le> 32767 then Some (VInt16 (of_int i))
                  else if dtype = ''DINT'' \<and> - 2147483648 \<le> i \<and> i \<le> 2147483647 then Some (VInt32 (of_int i))
                  else None)"

lemma write_number_reads_back:
  assumes "read_as dtype f = Some v" "write_number E dev c addr dtype f = (None, rs)" "mb_client c"
  shows "\<exists>regs. regs_written rs = Some (ad_Offset addr, regs) \<and> parseValue (reg_bytes regs) 0 dtype None ''holding'' = Inr v"
proof -
  have cv: "f64_trunc f = Some i \<Longrightarrow> lo \<le> i \<Longrightarrow> i \<le> hi \<Longrightarrow> conv_num G lo hi f = i" for lo hi i G
    by (simp add: conv_num_def float_conv_def)
  have r1: "parseValue (reg_bytes [w]) 0 ''INT'' None ''holding'' = Inr (VInt16 w)" for w
    by (simp add: parseValue_def reg_bytes_def be16_bytes)
  have r2: "parseValue (reg_bytes (be_regs (put32 w))) 0 t None ''holding'' = Inr (if t = ''REAL'' then VFloat32 w else VInt32 w)"
    if "t = ''REAL'' \<or> t = ''DINT''" for w t
    using that unfolding put32_bytes(2) by (auto simp: parseValue_def put32_bytes(1))
  have m: "WriteMultipleRegisters dev c a 2 (put32 w) = issue dev c (WriteRegs a (be_regs (put32 w)))" for a w
    using assms(3) by (simp add: WriteMultipleRegisters_def)
  show ?thesis using assms r1 r2 cv
    by (auto simp: read_as_def write_number_def m issue_def dev_outcome_def WriteSingleRegister_def regs_written_def
        split: if_splits option.splits)
qed

text \<open>What a command that reached the device did.\<close>

lemma executeWrite_requests:
  assumes "executeWrite E dev now cmd d = Some (rs, d')" "rs \<noteq> []"
  obtains cfg addr c e where "d_config d = Some cfg" "ParseAddress (wc_Code cmd) (gc_ZeroBased cfg) = Inr addr"
    "d_modbusClient d = Some c" "mb_client c" "write_value E dev c addr (wc_DataType cmd) (wc_Value cmd) = Some (e, rs)"
  using assms
  by (auto simp: executeWrite_def Let_def IsConnected_modbus_def split: option.splits sum.splits if_splits prod.splits)

text \<open>
C33: a number in range that the device accepts is the number read back: when a command writes a number to a tag of type \<open>INT\<close>, \<open>DINT\<close>
or \<open>REAL\<close>, the number fits that type, and the device takes every request, the registers that were sent to the address of the command
decode to that number as the type holds it (\<open>read_as\<close>: integers without their fraction, \<open>REAL\<close> rounded to single precision). Other
types, numbers out of range and the scaling of a tag are not covered.
\<close>

theorem write_read_roundtrip:
  assumes "executeWrite E dev now cmd d = Some (rs, d')" "rs \<noteq> []" "\<forall>r. dev_write dev r = None"
    "wc_Value cmd = VFloat64 f" "read_as (wc_DataType cmd) f = Some v" "d_config d = Some cfg"
  shows "\<exists>addr regs. ParseAddress (wc_Code cmd) (gc_ZeroBased cfg) = Inr addr \<and> regs_written rs = Some (ad_Offset addr, regs) \<and>
    parseValue (reg_bytes regs) 0 (wc_DataType cmd) None ''holding'' = Inr v"
proof -
  have t: "wc_DataType cmd \<in> {''INT'', ''DINT'', ''REAL''}"
    using assms(5) by (auto simp: read_as_def split: if_splits option.splits)
  obtain cfg' addr c e where x: "d_config d = Some cfg'" "ParseAddress (wc_Code cmd) (gc_ZeroBased cfg') = Inr addr"
    "d_modbusClient d = Some c" "mb_client c" "write_value E dev c addr (wc_DataType cmd) (wc_Value cmd) = Some (e, rs)"
    by (rule executeWrite_requests[OF assms(1,2)])
  have n: "write_number E dev c addr (wc_DataType cmd) f = (e, rs)"
    using t assms(4) x(5) by (auto simp: write_value_def)
  then have "e = None" using assms(2,3) x(4)
    by (auto simp: write_number_def dev_outcome_def WriteSingleRegister_def WriteMultipleRegisters_def issue_def split: if_splits)
  from write_number_reads_back[OF assms(5) n[unfolded this] x(4)] x(1,2) assms(6) show ?thesis by auto
qed

text \<open>
Writing a bit of a holding register sends the register with that bit set as asked and every other bit
as it was read.
\<close>

theorem writeBool_one_bit:
  assumes "ad_Type addr = ''holding''" "ad_BitOffset addr = Some b" "0 \<le> b" "b \<le> 15"
    "mb_client c" "dev_register dev HOLDING_REGISTER (ad_Offset addr) = Inr current"
  shows "\<exists>w. snd (writeBool E dev c addr val) = [WriteReg (ad_Offset addr) w] \<and>
    bit w (nat b) = toBool_driver (e_lower E) val \<and> (\<forall>k < 16. k \<noteq> nat b \<longrightarrow> bit w k = bit current k)"
proof -
  have "nat b < 16" using assms(4) by simp
  then show ?thesis using assms
    by (cases "toBool_driver (e_lower E) val")
       (auto simp: writeBool_def WriteSingleRegister_def issue_def dev_outcome_def ReadHoldingRegister_def Let_def
          bit_or_iff bit_and_iff bit_not_iff bit_exp_iff)
qed

section \<open>Validity of commands\<close>

text \<open>
C34: a command that comes in through the driver's own topic with a time of issue, and is older than the validity or from a clock that far
ahead, is never started: the operator gets a refusal with the reason and nothing else happens. Commands without a time of issue and those
of the legacy topic are not covered (\<open>legacy_command_never_expires\<close>).
\<close>

theorem stale_command_not_executed:
  assumes "0 < wc_IssuedAt cmd" "MaxAgeFromDB v < \<bar>now - UnixMilli (wc_IssuedAt cmd)\<bar>"
  shows "\<exists>age. handleWriteCommand E v now (Inr cmd) d =
    publishWriteResult E now (wc_TagID cmd) False (RefusalMessage age (MaxAgeFromDB v)) VNil d"
proof -
  have "\<not> fst (Fresh (wc_IssuedAt cmd) now (MaxAgeFromDB v))"
    using Fresh_iff[OF assms(1), of "MaxAgeFromDB v" now] MaxAgeFromDB_bounds[of v] assms(2)
    by (simp add: MinMaxAge_def Second_def)
  then show ?thesis by (auto simp: handleWriteCommand_def Let_def case_prod_beta)
qed

text \<open>
A command that comes in through the legacy topic is started whatever its age: the handler rebuilds the command
without its time of issue, so the validity does not apply even when the payload carried one.
\<close>

theorem legacy_command_never_expires:
  assumes "d_config d = Some cfg" "length (split_on CHR ''/'' topic) = 6" "t \<in> set (gc_Tags cfg)"
    "EqualFold E (tg_Alias t) (split_on CHR ''/'' topic ! 5)" "wc_Value old \<noteq> VNil"
  shows "\<exists>t' \<in> set (gc_Tags cfg). handleLegacyWriteCommand E v now topic (Some old) direct d =
    d\<lparr>d_spawned := d_spawned d @ [tag_command t' (wc_Value old)]\<rparr>"
proof -
  let ?P = "\<lambda>t. EqualFold E (tg_Alias t) (split_on CHR ''/'' topic ! 5) \<or> EqualFold E (slugify E (tg_Alias t)) (split_on CHR ''/'' topic ! 5)"
  obtain t' where t': "find ?P (gc_Tags cfg) = Some t'" using assms(3,4) by (cases "find ?P (gc_Tags cfg)") (auto simp: find_None_iff)
  then have "t' \<in> set (gc_Tags cfg)" by (auto simp: find_Some_iff)
  then show ?thesis using assms t'
    by (auto simp: handleLegacyWriteCommand_def handleWriteCommand_def tag_command_def Fresh_def Let_def)
qed

section \<open>Configuration changes\<close>

lemma f64_eq_refl: "\<not> f64_nan x \<Longrightarrow> f64_eq x x"
  by (simp add: f64_eq_def f64_nan_def fp_eq_def)

lemma ip_not_compared:
  assumes "\<not> f64_nan (conn_number conn ''port'')" "\<not> f64_nan (conn_number conn ''slave_id'')"
  shows "\<not> connectionConfigChanged conn (conn(''ip'' \<mapsto> v))"
proof -
  have "conn_string (conn(''ip'' \<mapsto> v)) ''host'' = conn_string conn ''host''" "conn_string (conn(''ip'' \<mapsto> v)) ''protocol'' = conn_string conn ''protocol''"
    "conn_number (conn(''ip'' \<mapsto> v)) ''port'' = conn_number conn ''port''" "conn_number (conn(''ip'' \<mapsto> v)) ''slave_id'' = conn_number conn ''slave_id''"
    by (simp_all add: conn_string_def conn_number_def)
  then show ?thesis using assms f64_eq_refl by (simp add: connectionConfigChanged_def)
qed

lemma firstString_other:
  assumes "k \<notin> set ks"
  shows "firstString (m(k \<mapsto> v)) ks = firstString m ks"
  using assms
proof (induction ks)
  case (Cons a ks)
  then have "a \<noteq> k" by auto
  then have "(m(k \<mapsto> v)) a = m a" by simp
  moreover have "firstString (m(k \<mapsto> v)) ks = firstString m ks" using Cons by (meson list.set_intros(2))
  ultimately show ?case by (simp only: firstString.simps)
qed simp

lemma initSparkplug_link [simp]:
  "d_modbusClient (initSparkplugClientLocked E now broker o' s a g i d) = d_modbusClient d"
  "d_isConnected (initSparkplugClientLocked E now broker o' s a g i d) = d_isConnected d"
  by (simp_all add: initSparkplugClientLocked_def Let_def)

text \<open>
A new address of the device under the key \<open>ip\<close> is loaded but not used: the reload keeps the open connection to the
old address, although a client made from the new configuration would go to the new one.
\<close>

theorem ip_change_keeps_connection:
  assumes "d_config d = Some cfg" "gr_connectionConfig g = (gc_ConnectionConfig cfg)(''ip'' \<mapsto> VString ip)" "TrimSpace ip \<noteq> ''''"
    "\<not> f64_nan (conn_number (gc_ConnectionConfig cfg) ''port'')" "\<not> f64_nan (conn_number (gc_ConnectionConfig cfg) ''slave_id'')"
    "firstString (gc_ConnectionConfig cfg) [''transport'', ''mode''] = None"
    "NewClientFromConfig G PF UL UU (gr_connectionConfig g) = Inr c"
  shows "d_modbusClient (snd (loadConfig E now broker (Some g) (Some tags) d)) = d_modbusClient d \<and>
    d_isConnected (snd (loadConfig E now broker (Some g) (Some tags) d)) = d_isConnected d \<and>
    mbc_Host (mb_config c) = TrimSpace ip"
proof -
  have "firstString (gr_connectionConfig g) [''transport'', ''mode''] = None"
    using assms(2,6) by (simp add: firstString_other del: firstString.simps)
  moreover have "firstString (gr_connectionConfig g) [''ip'', ''ip_address'', ''host''] = Some ip" using assms(2,3) by simp
  ultimately have "mbc_Host (mb_config c) = TrimSpace ip"
    using assms(7) checked_client_sound unfolding NewClientFromConfig_def Let_def
    by (fastforce simp: NewClient_modbus_def split: if_splits)
  then show ?thesis using ip_not_compared[OF assms(4,5)] assms(1,2) by (simp add: loadConfig_def Let_def)
qed

section \<open>Health topics\<close>

text \<open>
The health of the driver and its last will go to different topics: \<open>main\<close> gives the organisation only to the
last will, so a driver of an organisation reports on the old unscoped topic and its death is announced on another.
\<close>

theorem last_will_elsewhere:
  assumes "0 < orgID"
  shows "d_orgID (new_driver gatewayID sm aw mqtt) = 0 \<and>
    msg_topic (fst (last (w_calls (d_mqtt (publishHealth status (new_driver gatewayID sm aw mqtt)))))) = ''sys/health/'' @ itoa gatewayID \<and>
    lwt_topic orgID gatewayID = ''sys/health/'' @ itoa orgID @ ''/'' @ itoa gatewayID \<and>
    lwt_topic orgID gatewayID \<noteq> ''sys/health/'' @ itoa gatewayID"
proof -
  have "CHR ''/'' \<notin> set (itoa gatewayID)" by (rule itoa_no_slash)
  moreover have "CHR ''/'' \<in> set (itoa orgID @ ''/'' @ itoa gatewayID)" by simp
  ultimately have "itoa orgID @ ''/'' @ itoa gatewayID \<noteq> itoa gatewayID" by metis
  then show ?thesis using assms
    by (simp add: new_driver_def publishHealth_def mqtt_send_def PublishWithQoS_def lwt_topic_def Health_def Let_def)
qed

section \<open>Instances\<close>

text \<open>A driver with the sample tags, connected to a device that takes every write and reads 5 everywhere.\<close>

definition sample_env :: "unit env" where
  "sample_env = \<lparr>e_lower = id, e_upper = id, e_fold = (=), e_wire = std_wire, e_go = \<lparr>fmt_value = (\<lambda>_. ''''), float_to_int = (\<lambda>_. 0)\<rparr>,
     e_parseFloat = (\<lambda>_. None), e_errorText = (\<lambda>_. ''error''),
     e_store = \<lparr>InsertActive = (\<lambda>_ _ _ _ db. (None, db)), InsertCleared = (\<lambda>_ _ _ _ _ db. (None, db)),
       MarkCleared = (\<lambda>_ _ db. (False, db)), TagAlias = (\<lambda>_ db. (None, db))\<rparr>,
     e_sort = id, e_sparkplugEnabled = False\<rparr>"

definition sample_device :: device where
  "sample_device = \<lparr>dev_open = (\<lambda>_. Inr None), dev_close = None, dev_coils = (\<lambda>_ n. Inr (replicate (unat n) True)),
     dev_discretes = (\<lambda>_ n. Inr (replicate (unat n) False)), dev_register = (\<lambda>_ _. Inr 5),
     dev_registers = (\<lambda>_ _ n. Inr (replicate (unat n) 5)), dev_write = (\<lambda>_. None)\<rparr>"

definition sample_client :: modbus_client where
  "sample_client = \<lparr>mb_config = blank_config TransportTCP 1, mb_client = True\<rparr>"

definition sample_config :: GatewayConfig where
  "sample_config = \<lparr>gc_Name = ''plc'', gc_ConnectionConfig = [''ip'' \<mapsto> VString ''10.0.0.7''], gc_ScanRateMs = 1000, gc_Enabled = True,
     gc_ZeroBased = False, gc_Tags = sample_tags, gc_Blocks = createBlocks id sample_tags False, gc_OrgName = ''acme'', gc_OrgID = 3,
     gc_Site = ''north'', gc_Area = ''press''\<rparr>"

definition sample_driver :: "unit driver" where
  "sample_driver = \<lparr>d_gatewayID = 7, d_orgID = 0, d_modbusClient = Some sample_client, d_config = Some sample_config, d_parseFailures = {},
     d_reload = False, d_previousValues = Map.empty, d_previousQualities = (\<lambda>_. 0), d_isConnected = Some True,
     d_writeCooldowns = Map.empty, d_hasSparkplug = False, d_dualPublisher = None, d_settingsManager = None, d_alarmManager = None,
     d_mqtt = sample_world, d_spawned = [], d_subscriptions = []\<rparr>"

definition sample_command :: WriteCommand where
  "sample_command = \<lparr>wc_TagID = 1, wc_Code = ''40001'', wc_Value = VFloat64 0x4000000000000000, wc_DataType = ''INT'',
     wc_IssuedAt = 1700000000000, wc_RecipeRunID = 0\<rparr>"

lemma sample_trunc: "f64_trunc 0x4000000000000000 = Some 2"
  by code_simp

lemma sample_write:
  "\<exists>d'. executeWrite sample_env sample_device 0 sample_command sample_driver = Some ([WriteReg 0 2], d')"
  by (simp add: executeWrite_def sample_command_def sample_driver_def sample_config_def sample_addresses write_value_def write_number_def
      WriteSingleRegister_def issue_def sample_device_def sample_client_def IsConnected_modbus_def dev_outcome_def conv_num_def
      float_conv_def sample_trunc Let_def)

theorem write_read_roundtrip_witness:
  "\<exists>addr regs. ParseAddress ''40001'' False = Inr addr \<and> regs_written [WriteReg 0 2] = Some (ad_Offset addr, regs) \<and>
    parseValue (reg_bytes regs) 0 ''INT'' None ''holding'' = Inr (VInt16 2)"
proof -
  obtain d' where "executeWrite sample_env sample_device 0 sample_command sample_driver = Some ([WriteReg 0 2], d')"
    using sample_write by blast
  moreover have "read_as (wc_DataType sample_command) 0x4000000000000000 = Some (VInt16 2)"
    by (simp add: sample_command_def read_as_def sample_trunc)
  ultimately show ?thesis
    using write_read_roundtrip[of sample_env sample_device 0 sample_command sample_driver "[WriteReg 0 2]" d'
        "0x4000000000000000" "VInt16 2" sample_config]
    by (simp add: sample_command_def sample_driver_def sample_config_def sample_device_def)
qed

theorem writeBool_one_bit_witness:
  "\<exists>w. snd (writeBool sample_env sample_device sample_client \<lparr>ad_Type = ''holding'', ad_Offset = 9, ad_BitOffset = Some 1\<rparr> (VBool True)) =
     [WriteReg 9 w] \<and> bit w 1 \<and> bit w 0 \<and> bit w 2"
proof -
  obtain w where w: "snd (writeBool sample_env sample_device sample_client \<lparr>ad_Type = ''holding'', ad_Offset = 9, ad_BitOffset = Some 1\<rparr> (VBool True)) = [WriteReg 9 w]"
    "bit w (nat 1)" "\<forall>k < 16. k \<noteq> nat 1 \<longrightarrow> bit w k = bit (5 :: 16 word) k"
    using writeBool_one_bit[of "\<lparr>ad_Type = ''holding'', ad_Offset = 9, ad_BitOffset = Some 1\<rparr>" 1 sample_client sample_device 5 sample_env "VBool True"]
    by (auto simp: sample_device_def sample_client_def)
  from w(3) have "bit w 0 = bit (5 :: 16 word) 0" "bit w 2 = bit (5 :: 16 word) 2" by auto
  moreover have "bit (5 :: 16 word) 0" "bit (5 :: 16 word) 2" by simp_all
  ultimately show ?thesis using w(1,2) by auto
qed

theorem stale_command_not_executed_witness:
  "\<exists>age. handleWriteCommand sample_env None (UnixMilli 1700000031000) (Inr sample_command) sample_driver =
     publishWriteResult sample_env (UnixMilli 1700000031000) 1 False (RefusalMessage age (30 * Second)) VNil sample_driver"
  using stale_command_not_executed[of sample_command None "UnixMilli 1700000031000" sample_env sample_driver]
  by (simp add: sample_command_def MaxAgeFromDB_def DefaultMaxAge_def UnixMilli_def unix_zero_ms_def Millisecond_def Second_def)

lemma sample_topic: "split_on CHR ''/'' ''cmd/acme/north/press/plc/t'' = [''cmd'', ''acme'', ''north'', ''press'', ''plc'', ''t'']"
  by code_simp

theorem legacy_command_never_expires_witness:
  "\<exists>t' \<in> set sample_tags. handleLegacyWriteCommand sample_env None (UnixMilli 1800000000000) ''cmd/acme/north/press/plc/t'' (Some sample_command) None sample_driver =
    sample_driver\<lparr>d_spawned := [tag_command t' (VFloat64 0x4000000000000000)]\<rparr>"
proof -
  have "EqualFold sample_env (tg_Alias (sample_tag 1 ''40001'' ''INT'')) ''t''" by (simp add: EqualFold_def sample_tag_def is_ascii_def)
  then show ?thesis
    using legacy_command_never_expires[of sample_driver sample_config "''cmd/acme/north/press/plc/t''" "sample_tag 1 ''40001'' ''INT''" sample_env
        sample_command None "UnixMilli 1800000000000" None]
    by (simp add: sample_driver_def sample_config_def sample_topic sample_tags_def sample_command_def)
qed

definition sample_row :: gateway_row_m where
  "sample_row = \<lparr>gr_name = ''plc'', gr_connectionConfig = [''ip'' \<mapsto> VString ''10.0.0.8''], gr_scanRateMs = 1000, gr_enabled = True,
     gr_zeroBased = False, gr_orgName = ''acme'', gr_orgID = 3, gr_siteName = ''north'', gr_areaName = ''press''\<rparr>"

theorem ip_change_keeps_connection_witness:
  "d_modbusClient (snd (loadConfig sample_env 0 (''localhost'', 1883) (Some sample_row) (Some sample_tags) sample_driver)) = Some sample_client"
proof -
  have t: "TrimSpace ''10.0.0.8'' = ''10.0.0.8''" "\<not> f64_nan 0" by code_simp+
  obtain c where "NewClientFromConfig (e_go sample_env) (\<lambda>_. None) id id (gr_connectionConfig sample_row) = Inr c"
    using t(1) by (simp add: sample_row_def plain_ip_config)
  then show ?thesis
    using ip_change_keeps_connection[of sample_driver sample_config sample_row "''10.0.0.8''" "e_go sample_env" "\<lambda>_. None" id id c]
    by (simp add: sample_driver_def sample_config_def sample_row_def t conn_number_def)
qed

theorem last_will_elsewhere_witness:
  "lwt_topic 3 7 \<noteq> ''sys/health/'' @ itoa 7"
  using last_will_elsewhere[of 3 7 sample_settings "\<lparr>w_mgr = empty_manager True True 7, w_db = (), w_events = []\<rparr>" sample_world "''online''"] by simp

end
