(* ===== verification/Modbus_Poll.thy ===== *)
theory Modbus_Poll
  imports Modbus_Driver
begin

text \<open>
  The Modbus driver process, second part: readings, the poll of all blocks, and the process as a
  transition system whose steps are its handlers and the branches of its main loop.
\<close>

section \<open>Readings\<close>

fun valuesEqual_driver :: "go_value \<Rightarrow> go_value \<Rightarrow> bool option" where
  "valuesEqual_driver (VFloat32 a) b = Some (case b of VFloat32 b \<Rightarrow> f32_eq a b | _ \<Rightarrow> False)"
| "valuesEqual_driver (VFloat64 a) b = Some (case b of VFloat64 b \<Rightarrow> f64_eq a b | _ \<Rightarrow> False)"
| "valuesEqual_driver (VBytes a) b = (case b of VBytes _ \<Rightarrow> None | _ \<Rightarrow> Some False)"
| "valuesEqual_driver a b = Some (a = b)"

definition reportParseFailureOnce :: "TagInBlock \<Rightarrow> 'db driver \<Rightarrow> 'db driver" where
  "reportParseFailureOnce tib d = d\<lparr>d_parseFailures := insert (tg_ID (tib_Tag tib)) (d_parseFailures d)\<rparr>"

text \<open>
  Whether a reading during the cooldown after a write is to be ignored, and the cooldowns
  afterwards.
\<close>

definition cooldown :: "gotime \<Rightarrow> int \<Rightarrow> go_value \<Rightarrow> 'db driver \<Rightarrow> (bool \<times> 'db driver) option" where
  "cooldown now i val d =
     (let cleared = d\<lparr>d_writeCooldowns := (d_writeCooldowns d)(i := None)\<rparr> in
      case d_writeCooldowns d i of
        None \<Rightarrow> Some (False, d)
      | Some until \<Rightarrow>
          if now < until then
            (case d_previousValues d i of
               None \<Rightarrow> Some (True, d)
             | Some opt \<Rightarrow>
                 (case valuesEqual_driver val opt of
                    None \<Rightarrow> None
                  | Some eq \<Rightarrow> if eq then Some (False, cleared) else Some (True, d)))
          else Some (False, cleared))"

definition evaluate_reading :: "'db env \<Rightarrow> (nat \<Rightarrow> gotime) \<Rightarrow> gotime \<Rightarrow> tag \<Rightarrow> go_value \<Rightarrow> 'db driver \<Rightarrow> 'db driver" where
  "evaluate_reading E clock now t val d =
     with_alarms E now (EvaluateTag (e_store E) clock now now now (tg_ID t) (tg_Alias t) (Apply val (FromTag t)) 192) d"

definition process_tag ::
  "'db env \<Rightarrow> (nat \<Rightarrow> gotime) \<Rightarrow> gotime \<Rightarrow> int \<Rightarrow> bytes \<Rightarrow> Block \<Rightarrow> TagInBlock \<Rightarrow> 'db driver \<Rightarrow> 'db driver option" where
  "process_tag E clock now ts data b tib d =
     (let t = tib_Tag tib; i = tg_ID t in
      case parseValue data (tib_Offset tib - StartAddress b) (tg_DataType t) (tib_BitOffset tib) (bl_DataType b) of
        Inl _ \<Rightarrow> Some (reportParseFailureOnce tib d)
      | Inr val \<Rightarrow>
          (case cooldown now i val d of
             None \<Rightarrow> None
           | Some (True, d) \<Rightarrow> Some d
           | Some (False, d) \<Rightarrow>
               (case shouldPublish now i val 0 (evaluate_reading E clock now t val d) of
                  None \<Rightarrow> None
                | Some (True, d) \<Rightarrow> Some (updateState i val 0 (publishDual E now i (tg_Alias t) val (tg_DataType t) 0 ts d))
                | Some (False, d) \<Rightarrow> Some d)))"

fun process_tags ::
  "'db env \<Rightarrow> (nat \<Rightarrow> gotime) \<Rightarrow> gotime \<Rightarrow> int \<Rightarrow> bytes \<Rightarrow> Block \<Rightarrow> TagInBlock list \<Rightarrow> 'db driver \<Rightarrow> 'db driver option" where
  "process_tags E clock now ts data b [] d = Some d"
| "process_tags E clock now ts data b (t # tibs) d =
     (case process_tag E clock now ts data b t d of None \<Rightarrow> None | Some d \<Rightarrow> process_tags E clock now ts data b tibs d)"

definition bad_tag :: "'db env \<Rightarrow> gotime \<Rightarrow> int \<Rightarrow> tag \<Rightarrow> 'db driver \<Rightarrow> 'db driver option" where
  "bad_tag E now ts t d =
     (let i = tg_ID t; val = (case d_previousValues d i of None \<Rightarrow> VInt 0 | Some v \<Rightarrow> v) in
      case shouldPublish now i val 2 d of
        None \<Rightarrow> None
      | Some (ok, d) \<Rightarrow>
          Some (updateState i val 2 (if ok then publishDual E now i (tg_Alias t) val (tg_DataType t) 2 ts d else d)))"

fun bad_tags :: "'db env \<Rightarrow> gotime \<Rightarrow> int \<Rightarrow> tag list \<Rightarrow> 'db driver \<Rightarrow> 'db driver option" where
  "bad_tags E now ts [] d = Some d"
| "bad_tags E now ts (t # tags) d = (case bad_tag E now ts t d of None \<Rightarrow> None | Some d \<Rightarrow> bad_tags E now ts tags d)"

definition publishBadQualityForBlocks :: "'db env \<Rightarrow> gotime \<Rightarrow> int \<Rightarrow> Block list \<Rightarrow> 'db driver \<Rightarrow> 'db driver option" where
  "publishBadQualityForBlocks E now ts blocks d = bad_tags E now ts (map tib_Tag (concat (map bl_Tags blocks))) d"

definition read_data :: "device \<Rightarrow> modbus_client \<Rightarrow> Block \<Rightarrow> modbus_error + bytes" where
  "read_data dev c b =
     (if bl_DataType b = ''holding'' then ReadHoldingRegisters dev c (StartAddress b) (bl_Count b)
      else if bl_DataType b = ''input'' then ReadInputRegisters dev c (StartAddress b) (bl_Count b)
      else if bl_DataType b = ''coil'' then ReadCoils dev c (StartAddress b) (bl_Count b)
      else if bl_DataType b = ''discrete'' then ReadDiscreteInputs dev c (StartAddress b) (bl_Count b)
      else Inr [])"

text \<open>
  A Modbus exception keeps the connection; any other error drops it.  \<open>None\<close> is a run-time panic.  The client is
  the one the driver holds.
\<close>

definition readBlock ::
  "'db env \<Rightarrow> device \<Rightarrow> (nat \<Rightarrow> gotime) \<Rightarrow> gotime \<Rightarrow> int \<Rightarrow> Block \<Rightarrow> 'db driver \<Rightarrow> 'db driver option" where
  "readBlock E dev clock now ts b d =
     (case d_modbusClient d of
        None \<Rightarrow> None
      | Some c \<Rightarrow>
          (case read_data dev c b of
             Inl err \<Rightarrow>
               if IsExceptionError err then publishBadQualityForBlocks E now ts [b] d
               else publishBadQualityForBlocks E now ts [b]
                      (setConnectionState E now False (d\<lparr>d_modbusClient := Some (snd (Disconnect_modbus dev c))\<rparr>))
           | Inr data \<Rightarrow> process_tags E clock now ts data b (bl_Tags b) d))"

fun read_blocks ::
  "'db env \<Rightarrow> device \<Rightarrow> (nat \<Rightarrow> gotime) \<Rightarrow> gotime \<Rightarrow> int \<Rightarrow> Block list \<Rightarrow> 'db driver \<Rightarrow> 'db driver option" where
  "read_blocks E dev clock now ts [] d = Some d"
| "read_blocks E dev clock now ts (b # bs) d =
     (case readBlock E dev clock now ts b d of None \<Rightarrow> None | Some d \<Rightarrow> read_blocks E dev clock now ts bs d)"

definition link_up :: "'db driver \<Rightarrow> bool" where
  "link_up d = (case d_modbusClient d of None \<Rightarrow> False | Some c \<Rightarrow> IsConnected_modbus c)"

definition poll :: "'db env \<Rightarrow> device \<Rightarrow> (nat \<Rightarrow> gotime) \<Rightarrow> gotime \<Rightarrow> 'db driver \<Rightarrow> 'db driver option" where
  "poll E dev clock now d =
     (case d_config d of
        None \<Rightarrow> Some d
      | Some cfg \<Rightarrow>
          if \<not> gc_Enabled cfg then Some d
          else
            let ts = now_ms now in
            if link_up d then read_blocks E dev clock now ts (gc_Blocks cfg) d
            else (case NewClientFromConfig (e_go E) (e_parseFloat E) (e_lower E) (e_upper E) (gc_ConnectionConfig cfg) of
                    Inl _ \<Rightarrow> Some d
                  | Inr c \<Rightarrow>
                      (case ConnectWithRetry (e_lower E) (e_upper E) (dev_open dev) 0 3 None c of
                         (Some _, _) \<Rightarrow> publishBadQualityForBlocks E now ts (gc_Blocks cfg) (setConnectionState E now False d)
                       | (None, c) \<Rightarrow>
                           read_blocks E dev clock now ts (gc_Blocks cfg)
                             (setConnectionState E now True (d\<lparr>d_modbusClient := Some c\<rparr>)))))"

section \<open>The process\<close>

text \<open>
  The steps of the process: the branches of the main loop (reload signal, periodic refresh, poll), the
  goroutines of \<open>executeWrite\<close>, the tickers of the health report and of the alarm delays, and the
  handlers of incoming messages.  A poll or write that panics ends the process and has no step.
\<close>

inductive driver_step :: "'db env \<Rightarrow> 'db driver \<Rightarrow> 'db driver \<Rightarrow> bool" for E where
  poll: "poll E dev clock now d = Some d' \<Longrightarrow> driver_step E d d'"
| reload: "d_reload d \<Longrightarrow> driver_step E d (snd (loadConfig E now broker row tags (d\<lparr>d_reload := False\<rparr>)))"
| refresh: "driver_step E d (snd (loadConfig E now broker row tags d))"
| execute: "d_spawned d = before @ cmd # after \<Longrightarrow>
     executeWrite E dev now cmd (d\<lparr>d_spawned := before @ after\<rparr>) = Some (rs, d') \<Longrightarrow> driver_step E d d'"
| health_tick: "driver_step E d (healthLoop_tick d)"
| alarm_tick: "driver_step E d (with_alarms E now (tickDelays (e_store E) clock trackOrder tagOrder now) d)"
| write_command: "driver_step E d (handleWriteCommand E v now cmd d)"
| legacy_command: "driver_step E d (handleLegacyWriteCommand E v now topic full direct d)"
| dcmd: "driver_step E d (handleSparkplugDCMD E v now topic metrics d)"
| health_message: "driver_step E d (handleHealthMessage E topic payload d)"
| reload_command: "driver_step E d (handleReloadCommand E now clock defs order d)"
| settings_reload: "driver_step E d (handleSettingsReloadCommand E now clock rows defs order d)"
| shutdown: "driver_step E d (publishSparkplugNodeDeath E now d)"

inductive driver_reach :: "'db env \<Rightarrow> 'db driver \<Rightarrow> bool" for E where
  start: "w_calls mqtt = [] \<Longrightarrow> driver_reach E (new_driver gatewayID sm aw mqtt)"
| step: "driver_reach E d \<Longrightarrow> driver_step E d d' \<Longrightarrow> driver_reach E d'"

section \<open>Invariants of the process\<close>

text \<open>
  What an invariant has to survive while readings are handled: the updates of the tables, messages that are not
  retained and the publication of a value.
\<close>

locale reading_invariant =
  fixes E :: "'db env" and J :: "'db driver \<Rightarrow> bool"
  assumes tables:
      "J (d\<lparr>d_config := x1\<rparr>) = J d" "J (d\<lparr>d_parseFailures := x2\<rparr>) = J d" "J (d\<lparr>d_reload := x3\<rparr>) = J d"
      "J (d\<lparr>d_previousValues := x4\<rparr>) = J d" "J (d\<lparr>d_previousQualities := x5\<rparr>) = J d" "J (d\<lparr>d_writeCooldowns := x6\<rparr>) = J d"
      "J (d\<lparr>d_settingsManager := x7\<rparr>) = J d" "J (d\<lparr>d_alarmManager := x8\<rparr>) = J d" "J (d\<lparr>d_spawned := x9\<rparr>) = J d"
      "J (d\<lparr>d_subscriptions := x10\<rparr>) = J d"
    and message: "J d \<Longrightarrow> J (mqtt_send topic body False d)"
    and publish: "J d \<Longrightarrow> J (publishDual E now i alias val t q ts d)"
begin

lemma update: "J (updateState i v q d) = J d"
  by (simp add: updateState_def tables)

lemma fold_kept: "(\<And>x d. J d \<Longrightarrow> J (f x d)) \<Longrightarrow> J d \<Longrightarrow> J (fold f xs d)"
  by (induction xs arbitrary: d) auto

lemma alarm_event: "J d \<Longrightarrow> J (publishAlarmEvent E now ev d)"
  by (auto simp: publishAlarmEvent_def Let_def split: option.split intro: message)

lemma alarms: "J d \<Longrightarrow> J (with_alarms E now f d)"
  by (auto simp: with_alarms_def Let_def tables split: option.split intro!: fold_kept alarm_event)

lemma should: "shouldPublish now i v q d = Some (ok, d') \<Longrightarrow> J d' = J d"
  by (auto simp: shouldPublish_def tables split: option.splits)

lemma write_result: "J d \<Longrightarrow> J (publishWriteResult E now i ok msg rb d)"
  by (auto simp: publishWriteResult_def Let_def split: option.split intro!: message)

lemma exec_write: "executeWrite E dev now cmd d = Some (rs, d') \<Longrightarrow> J d \<Longrightarrow> J d'"
  by (auto simp: executeWrite_def Let_def tables update intro!: publish write_result
      split: option.splits sum.splits if_splits prod.splits)

lemma write_command: "J d \<Longrightarrow> J (handleWriteCommand E v now cmd d)"
  by (auto simp: handleWriteCommand_def Let_def tables intro!: write_result split: sum.split prod.split)

lemma legacy_command: "J d \<Longrightarrow> J (handleLegacyWriteCommand E v now topic full direct d)"
  by (auto simp: handleLegacyWriteCommand_def Let_def intro!: write_command split: option.split)

lemma dcmd: "J d \<Longrightarrow> J (handleSparkplugDCMD E v now topic metrics d)"
  by (auto simp: handleSparkplugDCMD_def dcmd_metric_def intro!: fold_kept write_command split: sum.split option.split)

lemma health_message: "J d \<Longrightarrow> J (handleHealthMessage E topic payload d)"
  by (auto simp: handleHealthMessage_def Let_def tables split: option.split)

lemma cool: "cooldown now i v d = Some (skip, d') \<Longrightarrow> J d' = J d"
  by (auto simp: cooldown_def Let_def tables split: option.splits if_splits)

lemma reading: "process_tag E clock now ts data b tib d = Some d' \<Longrightarrow> J d \<Longrightarrow> J d'"
  by (auto simp: process_tag_def evaluate_reading_def reportParseFailureOnce_def Let_def tables update
      dest!: cool should intro!: publish alarms split: sum.splits option.splits prod.splits bool.splits)

lemma readings: "process_tags E clock now ts data b tibs d = Some d' \<Longrightarrow> J d \<Longrightarrow> J d'"
  by (induction tibs arbitrary: d) (auto dest: reading split: option.splits)

lemma bad_reading: "bad_tag E now ts t d = Some d' \<Longrightarrow> J d \<Longrightarrow> J d'"
  by (auto simp: bad_tag_def Let_def update dest!: should intro!: publish split: option.splits prod.splits)

lemma bad_readings: "bad_tags E now ts tags d = Some d' \<Longrightarrow> J d \<Longrightarrow> J d'"
  by (induction tags arbitrary: d) (auto dest: bad_reading split: option.splits)

end

text \<open>A lost link, with the report of it.\<close>

locale link_invariant = reading_invariant +
  assumes link_lost: "J d \<Longrightarrow> J (setConnectionStateLocked E now False (d\<lparr>d_modbusClient := c\<rparr>))"
begin

lemma offline: "J d \<Longrightarrow> J (setConnectionStateLocked E now False d)"
  using link_lost[of d now "d_modbusClient d"] by simp

lemma block: "readBlock E dev clock now ts b d = Some d' \<Longrightarrow> J d \<Longrightarrow> J d'"
  by (auto simp: readBlock_def publishBadQualityForBlocks_def setConnectionState_def
      dest!: readings bad_readings intro: link_lost split: option.splits sum.splits if_splits)

lemma blocks: "read_blocks E dev clock now ts bs d = Some d' \<Longrightarrow> J d \<Longrightarrow> J d'"
  by (induction bs arbitrary: d) (auto dest: block split: option.splits)

end

text \<open>
  The rest of the process: a link that is opened, the creation of the Sparkplug client, the repeated report and the
  node's death.  An invariant that survives all of these is kept by every step.
\<close>

locale driver_invariant = link_invariant +
  assumes link_open: "J d \<Longrightarrow> mb_client c' \<Longrightarrow> J (setConnectionStateLocked E now True (d\<lparr>d_modbusClient := Some c'\<rparr>))"
    and sparkplug: "J d \<Longrightarrow> J (initSparkplugClientLocked E now broker org site area gw i d)"
    and tick: "J d \<Longrightarrow> J (healthLoop_tick d)"
    and death: "J d \<Longrightarrow> J (publishSparkplugNodeDeath E now d)"
begin

lemma load: "J d \<Longrightarrow> J (snd (loadConfig E now broker row tags d))"
  by (auto simp: loadConfig_def Let_def tables split: option.split intro!: sparkplug link_lost)

lemma polled:
  assumes "poll E dev clock now d = Some d'" "J d"
  shows "J d'"
proof -
  have "mb_client c'" if "NewClientFromConfig G PF UL UU conn = Inr c" "ConnectWithRetry UL UU att 0 3 None c = (None, c')"
    for G PF UL UU conn c att c'
    using ConnectWithRetry_iff[of UL c UU att 0 3 None None c'] NewClientFromConfig_sound[OF that(1)] that(2) by simp
  then show ?thesis using assms
    by (auto simp: poll_def publishBadQualityForBlocks_def setConnectionState_def Let_def
        dest!: blocks bad_readings intro: link_open offline split: option.splits if_splits sum.splits prod.splits)
qed

lemma stepped: "driver_step E d d' \<Longrightarrow> J d \<Longrightarrow> J d'"
  by (induction rule: driver_step.induct)
     (auto simp: handleReloadCommand_def handleSettingsReloadCommand_def tables
       intro: polled load exec_write tick alarms write_command legacy_command dcmd health_message death)

lemma invariant:
  assumes "driver_reach E d" "\<And>gatewayID sm aw mqtt. w_calls mqtt = [] \<Longrightarrow> J (new_driver gatewayID sm aw mqtt)"
  shows "J d"
  using assms(1) by (induction rule: driver_reach.induct) (auto intro: assms(2) stepped)

end

section \<open>The Sparkplug stream of the driver\<close>

text \<open>
  Before the Sparkplug client exists no Sparkplug message is sent, and afterwards the invariant of the client holds.
\<close>

definition sp_inv :: "'db env \<Rightarrow> 'db driver \<Rightarrow> bool" where
  "sp_inv E d \<longleftrightarrow>
     (if d_hasSparkplug d then client_inv (e_wire E) (e_go E) (d_mqtt d)
      else d_dualPublisher d = None \<and> list_all (\<lambda>m. msg_sp (fst m) = None) (w_calls (d_mqtt d)))"

lemma sp_inv_tables [simp]:
  "sp_inv E (d\<lparr>d_config := x1\<rparr>) = sp_inv E d" "sp_inv E (d\<lparr>d_modbusClient := x2\<rparr>) = sp_inv E d"
  "sp_inv E (d\<lparr>d_parseFailures := x3\<rparr>) = sp_inv E d" "sp_inv E (d\<lparr>d_reload := x4\<rparr>) = sp_inv E d"
  "sp_inv E (d\<lparr>d_previousValues := x5\<rparr>) = sp_inv E d" "sp_inv E (d\<lparr>d_previousQualities := x6\<rparr>) = sp_inv E d"
  "sp_inv E (d\<lparr>d_isConnected := x7\<rparr>) = sp_inv E d" "sp_inv E (d\<lparr>d_writeCooldowns := x8\<rparr>) = sp_inv E d"
  "sp_inv E (d\<lparr>d_settingsManager := x9\<rparr>) = sp_inv E d" "sp_inv E (d\<lparr>d_alarmManager := x10\<rparr>) = sp_inv E d"
  "sp_inv E (d\<lparr>d_spawned := x11\<rparr>) = sp_inv E d" "sp_inv E (d\<lparr>d_subscriptions := x12\<rparr>) = sp_inv E d"
  by (simp_all add: sp_inv_def)







section \<open>The reported state of the link\<close>

text \<open>The retained texts are the health reports; the last one is what a late subscriber sees.\<close>

definition is_health :: "sp_msg \<Rightarrow> bool" where
  "is_health m \<longleftrightarrow> msg_retained m \<and> (case msg_body m of PlainText _ \<Rightarrow> True | _ \<Rightarrow> False)"

definition health_reports :: "sp_world \<Rightarrow> sp_msg list" where
  "health_reports w = filter is_health (map fst (w_calls w))"

lemma reports_client [simp]: "health_reports (w\<lparr>w_client := c\<rparr>) = health_reports w"
  by (simp add: health_reports_def)

lemma reports_publish: "health_reports (snd (PublishWithQoS m w)) = health_reports w @ (if is_health m then [m] else [])"
  by (simp add: health_reports_def PublishWithQoS_def Let_def)

lemma reports_send [simp]: "health_reports (snd (send W G mt t p r w)) = health_reports w"
  by (auto simp: send_def encode_body_def UseProtobuf_def is_health_def split: sum.split prod.split)
     (auto simp: health_reports_def PublishWithQoS_def Let_def is_health_def)

lemma reports_birth [simp]: "health_reports (snd (ensureNodeBirthLocked U W G now w)) = health_reports w"
  by (auto simp: ensureNodeBirthLocked_def sendNBIRTH_def Let_def case_prod_beta split: option.split prod.split)

lemma reports_operations [simp]:
  "health_reports (snd (PublishDDATA U W G nowB now dev tags w)) = health_reports w"
  "health_reports (snd (PublishDBIRTH U W G nowB now dev tags w)) = health_reports w"
  "health_reports (snd (PublishDDEATH U W G now dev w)) = health_reports w"
  "health_reports (SetConnected U W G now on w) = health_reports w"
  "health_reports (Disconnect U W G now w) = health_reports w"
  by (simp_all add: PublishDDATA_def PublishDBIRTH_def PublishDDEATH_def SetConnected_def Disconnect_def sendNDEATH_def Let_def case_prod_beta)

lemma reports_dual [simp]: "health_reports (snd (Publish U W G nowB now dp i alias v t q ts eu w)) = health_reports w"
  using reports_publish[of "legacy_msg topic tp r" w for topic tp r]
  by (auto simp: Publish_def PublishSingleTag_def Let_def case_prod_beta is_health_def legacy_msg_def)

definition link_inv :: "'db driver \<Rightarrow> bool" where
  "link_inv d \<longleftrightarrow> (d_isConnected d = Some True \<longrightarrow> link_up d) \<and>
     (if health_reports (d_mqtt d) = [] then d_isConnected d = None
      else msg_body (last (health_reports (d_mqtt d))) = PlainText (health_status (d_isConnected d = Some True)))"

lemma mqtt_send_reports:
  "health_reports (d_mqtt (mqtt_send topic body False d)) = health_reports (d_mqtt d)"
  by (simp add: mqtt_send_def reports_publish is_health_def)

lemma publishHealth_reports:
  "\<exists>m. health_reports (d_mqtt (publishHealth s d)) = health_reports (d_mqtt d) @ [m] \<and> msg_body m = PlainText s"
  by (simp add: publishHealth_def mqtt_send_def reports_publish is_health_def)

lemma same_link_inv:
  "health_reports (d_mqtt d') = health_reports (d_mqtt d) \<Longrightarrow> d_isConnected d' = d_isConnected d \<Longrightarrow> d_modbusClient d' = d_modbusClient d \<Longrightarrow>
   link_inv d \<Longrightarrow> link_inv d'"
  by (simp add: link_inv_def link_up_def)

lemma mqtt_send_link [simp]:
  "d_isConnected (mqtt_send topic body r d) = d_isConnected d" "d_modbusClient (mqtt_send topic body r d) = d_modbusClient d"
  "d_isConnected (publishHealth s d) = d_isConnected d" "d_modbusClient (publishHealth s d) = d_modbusClient d"
  by (simp_all add: mqtt_send_def publishHealth_def)

lemma publishDual_link:
  "health_reports (d_mqtt (publishDual E now i alias v t q ts d)) = health_reports (d_mqtt d)"
  "d_isConnected (publishDual E now i alias v t q ts d) = d_isConnected d"
  "d_modbusClient (publishDual E now i alias v t q ts d) = d_modbusClient d"
  by (auto simp: publishDual_def publishLegacy_def mqtt_send_reports PublishSingleTag_def Let_def split: option.split PublishMode.split)

lemma setConnectionState_reports:
  assumes "d_isConnected d \<noteq> Some on"
  shows "d_isConnected (setConnectionStateLocked E now on d) = Some on \<and> d_modbusClient (setConnectionStateLocked E now on d) = d_modbusClient d \<and>
    health_reports (d_mqtt (setConnectionStateLocked E now on d)) \<noteq> [] \<and>
    msg_body (last (health_reports (d_mqtt (setConnectionStateLocked E now on d)))) = PlainText (health_status on)"
  using assms publishHealth_reports[of "health_status on" "d\<lparr>d_isConnected := Some on\<rparr>"]
  by (auto simp: setConnectionStateLocked_def Let_def split: option.split)

interpretation link: driver_invariant E link_inv for E
proof unfold_locales
  fix d :: "'a driver" and now c
  assume "link_inv d"
  then show "link_inv (setConnectionStateLocked E now False (d\<lparr>d_modbusClient := c\<rparr>))"
    using setConnectionState_reports[of "d\<lparr>d_modbusClient := c\<rparr>" False E now]
    by (cases "d_isConnected d = Some False") (auto simp: link_inv_def setConnectionStateLocked_def[of E now False])
next
  fix d :: "'a driver" and now and c' :: modbus_client
  assume "link_inv d" "mb_client c'"
  then show "link_inv (setConnectionStateLocked E now True (d\<lparr>d_modbusClient := Some c'\<rparr>))"
    using setConnectionState_reports[of "d\<lparr>d_modbusClient := Some c'\<rparr>" True E now]
    by (cases "d_isConnected d = Some True") (auto simp: link_inv_def link_up_def IsConnected_modbus_def setConnectionStateLocked_def[of E now True])
next
  fix d :: "'a driver"
  assume "link_inv d"
  then show "link_inv (healthLoop_tick d)"
    using publishHealth_reports[of "health_status (d_isConnected d = Some True)" d] by (auto simp: link_inv_def link_up_def healthLoop_tick_def)
qed (auto simp: link_inv_def link_up_def initSparkplugClientLocked_def publishSparkplugNodeDeath_def Let_def
      mqtt_send_reports publishDual_link)

text \<open>
The driver is reported as online only while it holds an open connection: in every reachable state the last retained
health report says whether the link is up as the driver knows it, and a link that is up has an open client.
\<close>

theorem online_means_open:
  assumes "driver_reach E d" "health_reports (d_mqtt d) \<noteq> []" "msg_body (last (health_reports (d_mqtt d))) = PlainText ''online''"
  shows "\<exists>c. d_modbusClient d = Some c \<and> IsConnected_modbus c"
proof -
  have "link_inv d" by (rule link.invariant[OF assms(1)]) (simp add: link_inv_def new_driver_def health_reports_def)
  then show ?thesis using assms(2,3) by (auto simp: link_inv_def link_up_def health_status_def split: option.splits if_splits)
qed

section \<open>A connection that does not close\<close>

text \<open>While a connection is held, polls do not change a link that is known to be down.\<close>

interpretation down: link_invariant E "\<lambda>d. d_isConnected d = Some False" for E
  by unfold_locales (auto simp: publishDual_link setConnectionStateLocked_def)

interpretation held: reading_invariant E "\<lambda>d. link_up d" for E
  by unfold_locales (auto simp: link_up_def publishDual_link)

text \<open>
A connection whose \<open>Close\<close> fails after a transport error is never replaced: the client keeps its handle, so the
driver goes on using it, and no later poll reports the gateway as online again, even when it reads every block.
\<close>

theorem failed_close_stays_offline:
  assumes "readBlock E dev clock now ts b d = Some d1" "d_modbusClient d = Some c" "mb_client c"
    "read_data dev c b = Inl err" "\<not> IsExceptionError err" "dev_close dev = Some e"
    "poll E dev' clock' now' d1 = Some d2"
  shows "link_up d1 \<and> d_isConnected d1 = Some False \<and> d_isConnected d2 = Some False"
proof -
  let ?d = "setConnectionState E now False (d\<lparr>d_modbusClient := Some c\<rparr>)"
  have r: "bad_tags E now ts (map tib_Tag (bl_Tags b)) ?d = Some d1"
    using assms(1-6) by (simp add: readBlock_def publishBadQualityForBlocks_def Disconnect_modbus_def)
  have "d_isConnected ?d = Some False" "d_modbusClient ?d = Some c"
    using setConnectionState_reports[of "d\<lparr>d_modbusClient := Some c\<rparr>" False E now]
    by (cases "d_isConnected d = Some False"; simp add: setConnectionState_def setConnectionStateLocked_def)+
  then have one: "d_isConnected d1 = Some False" and up: "link_up d1"
    using down.bad_readings[OF r] held.bad_readings[OF r] assms(3) by (auto simp: link_up_def IsConnected_modbus_def)
  moreover have "d_isConnected d2 = Some False"
    using assms(7) one up down.blocks by (auto simp: poll_def Let_def split: option.splits if_splits)
  ultimately show ?thesis by blast
qed

section \<open>What is published\<close>

text \<open>
What the driver published last follows what it reads: after a good reading outside a write cooldown, the value kept as
published is this reading, or one the deadband takes for equal to it.
\<close>

theorem published_value_follows:
  assumes "process_tag E clock now ts data b tib d = Some d'" "d_writeCooldowns d (tg_ID (tib_Tag tib)) = None"
    "parseValue data (tib_Offset tib - StartAddress b) (tg_DataType (tib_Tag tib)) (tib_BitOffset tib) (bl_DataType b) = Inr val"
    "d_settingsManager d = Some m" "sm_config m = Some cfg"
  shows "d_previousValues d' (tg_ID (tib_Tag tib)) = Some val \<or>
    (\<exists>old. valuesEqual_rbe val old (RBEDeadbandPercent cfg) = Some True \<and>
       old = (case d_previousValues d (tg_ID (tib_Tag tib)) of None \<Rightarrow> VNil | Some v \<Rightarrow> v) \<and>
       d_previousValues d' (tg_ID (tib_Tag tib)) = d_previousValues d (tg_ID (tib_Tag tib)))"
proof -
  let ?i = "tg_ID (tib_Tag tib)" and ?d = "evaluate_reading E clock now (tib_Tag tib) val d"
  have fold_same: "d_previousValues (fold (publishAlarmEvent E now) evs x) = d_previousValues x \<and>
      d_settingsManager (fold (publishAlarmEvent E now) evs x) = d_settingsManager x" for evs and x :: "'a driver"
    by (induction evs arbitrary: x) (auto simp: publishAlarmEvent_def mqtt_send_def Let_def split: option.split)
  have same: "d_previousValues ?d = d_previousValues d" "d_settingsManager ?d = Some m"
    using assms(4) fold_same by (auto simp: evaluate_reading_def with_alarms_def Let_def split: option.split)
  obtain ok d3 where sp: "shouldPublish now ?i val 0 ?d = Some (ok, d3)"
    using assms(1-3) by (auto simp: process_tag_def cooldown_def Let_def split: option.splits)
  have d': "d' = (if ok then updateState ?i val 0 (publishDual E now ?i (tg_Alias (tib_Tag tib)) val (tg_DataType (tib_Tag tib)) 0 ts d3) else d3)"
    using assms(1-3) sp by (auto simp: process_tag_def cooldown_def Let_def split: bool.splits)
  show ?thesis
  proof (cases ok)
    case True
    then show ?thesis using d' by (simp add: updateState_def)
  next
    case False
    then obtain m' where sk: "ShouldPublish now ?i val (case d_previousValues d ?i of None \<Rightarrow> VNil | Some v \<Rightarrow> v) 0 (d_previousQualities ?d ?i) m = Some (False, m')"
      and d3: "d3 = ?d\<lparr>d_settingsManager := Some m'\<rparr>"
      using sp same by (auto simp: shouldPublish_def)
    from skipped_reading[OF sk] assms(5) False d' d3 same show ?thesis by auto
  qed
qed

text \<open>
A tag of type \<open>INT\<close> with a conversion to engineering units is published as the raw count, while the message
says that the value is converted.
\<close>

theorem int_tag_published_raw:
  assumes "d_config d = Some cfg" "find_tag i cfg = Some t" "ScalingEnabled t" "publishMode d = LegacyOnly"
  shows "\<exists>m tp. map fst (w_calls (d_mqtt (publishDual E now i alias (VInt16 w) ty q ts d))) = map fst (w_calls (d_mqtt d)) @ [m] \<and>
    msg_body m = JsonTag tp \<and> tp_Value tp = VInt16 w \<and> tp_EUScaled tp"
  using assms
  by (simp add: publishDual_def publishLegacy_def scalingFor_def int16_not_scaled_lemma FromTag_def mqtt_send_def PublishWithQoS_def
      json_value_ok_def Let_def)

text \<open>
After a command wrote a number, readings of an \<open>INT\<close>, \<open>DINT\<close> or \<open>REAL\<close> tag are ignored until the cooldown of
two seconds is over, even the reading that shows the written number: the reading and the number
of the command have different types and are never equal.
\<close>

theorem cooldown_ignores_confirmation:
  assumes "d_previousValues d (tg_ID (tib_Tag tib)) = Some (VFloat64 f)" "d_writeCooldowns d (tg_ID (tib_Tag tib)) = Some until"
    "now < until" "parseValue data (tib_Offset tib - StartAddress b) (tg_DataType (tib_Tag tib)) (tib_BitOffset tib) (bl_DataType b) = Inr val"
    "tg_DataType (tib_Tag tib) \<in> {''INT'', ''DINT'', ''REAL''}" "bl_DataType b \<in> {''holding'', ''input''}"
  shows "process_tag E clock now ts data b tib d = Some d"
proof -
  have "(\<exists>x. val = VInt16 x) \<or> (\<exists>x. val = VInt32 x) \<or> (\<exists>x. val = VFloat32 x)"
    using assms(4-6) by (auto simp: parseValue_def Let_def split: if_splits)
  then have "cooldown now (tg_ID (tib_Tag tib)) val d = Some (True, d)"
    using assms(1-3) by (auto simp: cooldown_def)
  then show ?thesis using assms(4) by (simp add: process_tag_def Let_def)
qed

section \<open>Instances\<close>

definition sample_tib :: TagInBlock where
  "sample_tib = \<lparr>tib_Tag = sample_tag 1 ''40001'' ''INT'', tib_Offset = 0, tib_BitOffset = None\<rparr>"

definition sample_blk :: Block where
  "sample_blk = \<lparr>StartAddress = 0, bl_Count = 1, bl_DataType = ''holding'', bl_Tags = [sample_tib]\<rparr>"

definition sample_start :: "unit driver" where
  "sample_start = new_driver 7 sample_settings \<lparr>w_mgr = empty_manager True True 7, w_db = (), w_events = []\<rparr> sample_world"

text \<open>A fresh driver that loads a configuration without tags, with and without Sparkplug, and polls once.\<close>

definition sample_load :: "bool \<Rightarrow> unit driver" where
  "sample_load sp = snd (loadConfig (sample_env\<lparr>e_sparkplugEnabled := sp\<rparr>) 0 (''localhost'', 1883)
     (Some (sample_row\<lparr>gr_connectionConfig := [''ip'' \<mapsto> VString ''10.0.0.7'']\<rparr>)) (Some []) sample_start)"

lemma sample_reach: "driver_reach (sample_env\<lparr>e_sparkplugEnabled := sp\<rparr>) sample_start"
  unfolding sample_start_def by (rule driver_reach.start) (simp add: sample_world_def)

lemma sample_load_reach: "driver_reach (sample_env\<lparr>e_sparkplugEnabled := sp\<rparr>) (sample_load sp)"
  unfolding sample_load_def by (rule driver_reach.step[OF sample_reach]) (rule driver_step.refresh)


definition sample_online :: "unit driver" where
  "sample_online = setConnectionState sample_env 0 True (sample_load False\<lparr>d_modbusClient := Some
     \<lparr>mb_config = (blank_config TransportTCP 1)\<lparr>mbc_Host := ''10.0.0.7'', mbc_Port := 502\<rparr>, mb_client = True\<rparr>\<rparr>)"

lemma sample_off [simp]: "sample_env\<lparr>e_sparkplugEnabled := False\<rparr> = sample_env"
  by (simp add: sample_env_def)

lemma sample_online_reach: "driver_reach sample_env sample_online"
proof -
  let ?c = "\<lparr>mb_config = (blank_config TransportTCP 1)\<lparr>mbc_Host := ''10.0.0.7'', mbc_Port := 502\<rparr>, mb_client = False\<rparr>"
  obtain c where c: "NewClientFromConfig (e_go sample_env) (e_parseFloat sample_env) (e_lower sample_env) (e_upper sample_env) [''ip'' \<mapsto> VString ''10.0.0.7''] = Inr c" "c = ?c"
    by (simp add: plain_ip_config sample_ip)
  have "Connect_modbus (e_lower sample_env) (e_upper sample_env) (Inr None) c = (None, c\<lparr>mb_client := True\<rparr>)"
    using NewClientFromConfig_sound[OF c(1)] by (simp add: Connect_configured)
  then have k: "ConnectWithRetry (e_lower sample_env) (e_upper sample_env) (dev_open sample_device) 0 3 None c = (None, c\<lparr>mb_client := True\<rparr>)"
    by (simp add: eval_nat_numeral sample_device_def)
  have cfg: "d_config (sample_load False) = Some \<lparr>gc_Name = ''plc'', gc_ConnectionConfig = [''ip'' \<mapsto> VString ''10.0.0.7''], gc_ScanRateMs = 1000, gc_Enabled = True,
     gc_ZeroBased = False, gc_Tags = [], gc_Blocks = [], gc_OrgName = slugify sample_env ''acme'', gc_OrgID = 3,
     gc_Site = slugify sample_env ''north'', gc_Area = slugify sample_env ''press''\<rparr>" "d_modbusClient (sample_load False) = None"
    by (simp_all add: sample_load_def loadConfig_def sample_start_def new_driver_def sample_row_def connectionConfigChanged_def
        createBlocks_def sample_env_def Let_def slugify_def)
  have "poll sample_env sample_device (\<lambda>_. 0) 0 (sample_load False) = Some sample_online"
    using c k by (simp add: poll_def cfg link_up_def Let_def sample_online_def)
  then show ?thesis using driver_reach.step[OF sample_load_reach[of False, simplified]] driver_step.poll by blast
qed

lemma sample_online_reported:
  "health_reports (d_mqtt sample_online) \<noteq> [] \<and> msg_body (last (health_reports (d_mqtt sample_online))) = PlainText ''online'' \<and>
   d_gatewayID sample_online = 7"
proof -
  let ?d = "sample_load False\<lparr>d_modbusClient := Some
    \<lparr>mb_config = (blank_config TransportTCP 1)\<lparr>mbc_Host := ''10.0.0.7'', mbc_Port := 502\<rparr>, mb_client = True\<rparr>\<rparr>"
  have l: "d_isConnected (sample_load False) = None" "d_gatewayID (sample_load False) = 7" "d_hasSparkplug (sample_load False) = False"
    by (simp_all add: sample_load_def loadConfig_def sample_start_def new_driver_def sample_row_def connectionConfigChanged_def sample_env_def Let_def)
  then have "d_gatewayID sample_online = 7"
    by (auto simp: sample_online_def setConnectionState_def setConnectionStateLocked_def publishHealth_def mqtt_send_def Let_def split: option.split)
  then show ?thesis
    using l setConnectionState_reports[of ?d True sample_env 0]
    by (simp add: sample_online_def setConnectionState_def health_status_def)
qed

theorem online_means_open_witness:
  "msg_body (last (health_reports (d_mqtt sample_online))) = PlainText ''online'' \<and> (\<exists>c. d_modbusClient sample_online = Some c \<and> IsConnected_modbus c)"
  using online_means_open[OF sample_online_reach] sample_online_reported by blast

text \<open>A device whose link breaks and cannot be closed.\<close>

definition broken_device :: device where
  "broken_device = sample_device\<lparr>dev_registers := (\<lambda>_ _ _. Inl (LibOther ''broken pipe'')), dev_close := Some (LibOther ''broken pipe'')\<rparr>"

theorem failed_close_stays_offline_witness:
  "\<exists>d1 d2. readBlock sample_env broken_device (\<lambda>_. 0) 0 0 (sample_blk\<lparr>bl_Tags := []\<rparr>) (sample_driver\<lparr>d_config := None\<rparr>) = Some d1 \<and>
     poll sample_env sample_device (\<lambda>_. 0) 0 d1 = Some d2 \<and> link_up d1 \<and> d_isConnected d2 = Some False"
proof -
  let ?b = "sample_blk\<lparr>bl_Tags := []\<rparr>" and ?d = "sample_driver\<lparr>d_config := None\<rparr>"
  let ?d1 = "setConnectionState sample_env 0 False ?d"
  have e: "read_data broken_device sample_client ?b = Inl (LibError (LibOther ''broken pipe''))"
    by (simp add: read_data_def sample_blk_def ReadHoldingRegisters_def sample_client_def broken_device_def wrapModbusError_def)
  have c: "d_modbusClient ?d = Some sample_client" "mb_client sample_client" by (simp_all add: sample_driver_def sample_client_def)
  have r: "readBlock sample_env broken_device (\<lambda>_. 0) 0 0 ?b ?d = Some ?d1"
    using e by (simp add: readBlock_def publishBadQualityForBlocks_def IsExceptionError_def Disconnect_modbus_def broken_device_def
        sample_driver_def)
  have p: "poll sample_env sample_device (\<lambda>_. 0) 0 ?d1 = Some ?d1"
    by (simp add: poll_def setConnectionState_def setConnectionStateLocked_def sample_driver_def publishHealth_def mqtt_send_def publishMode_def Let_def)
  show ?thesis
    using failed_close_stays_offline[OF r c e _ _ p] r p by (auto simp: IsExceptionError_def broken_device_def)
qed

theorem published_value_follows_witness:
  "\<exists>d'. process_tag sample_env (\<lambda>_. 0) 0 0 [0, 5] sample_blk sample_tib (sample_driver\<lparr>d_settingsManager := Some sample_settings\<rparr>) = Some d' \<and>
     d_previousValues d' 1 = Some (VInt16 5)"
proof -
  let ?d = "sample_driver\<lparr>d_settingsManager := Some sample_settings\<rparr>"
  have v: "parseValue [0, 5] (tib_Offset sample_tib - StartAddress sample_blk) (tg_DataType (tib_Tag sample_tib)) (tib_BitOffset sample_tib) (bl_DataType sample_blk) = Inr (VInt16 5)"
    by (simp add: parseValue_def sample_tib_def sample_blk_def sample_tag_def be16_def)
  obtain d' where d': "process_tag sample_env (\<lambda>_. 0) 0 0 [0, 5] sample_blk sample_tib ?d = Some d'"
    using v by (simp add: process_tag_def cooldown_def shouldPublish_def ShouldPublish_def evaluate_reading_def with_alarms_def
        sample_driver_def sample_settings_def default_settings_def sample_tib_def sample_tag_def valuesEqual_rbe_def Let_def)
  have "valuesEqual_rbe (VInt16 5) VNil p = Some False" for p by (simp add: valuesEqual_rbe_def)
  then show ?thesis
    using published_value_follows[OF d' _ v, of sample_settings default_settings] d'
    by (auto simp: sample_driver_def sample_settings_def sample_tib_def sample_tag_def)
qed

theorem int_tag_published_raw_witness:
  "\<exists>m tp. map fst (w_calls (d_mqtt (publishDual sample_env 0 1 ''t'' (VInt16 300) ''INT'' 0 0
       (sample_driver\<lparr>d_settingsManager := Some (sample_settings\<lparr>sm_config := Some (default_settings\<lparr>gs_PublishMode := LegacyOnly\<rparr>)\<rparr>)\<rparr>)))) = [m] \<and>
     msg_body m = JsonTag tp \<and> tp_Value tp = VInt16 300 \<and> tp_EUScaled tp"
  using int_tag_published_raw[of "sample_driver\<lparr>d_settingsManager := Some (sample_settings\<lparr>sm_config := Some (default_settings\<lparr>gs_PublishMode := LegacyOnly\<rparr>)\<rparr>)\<rparr>"
      sample_config 1 "sample_tag 1 ''40001'' ''INT''" sample_env 0 "''t''" 300 "''INT''" 0 0]
  by (simp add: sample_driver_def sample_config_def find_tag_def sample_tags_def sample_tag_def publishMode_def Get_settings_def sample_world_def)

theorem cooldown_ignores_confirmation_witness:
  "process_tag sample_env (\<lambda>_. 0) Second 0 [0, 2] sample_blk sample_tib
     (sample_driver\<lparr>d_previousValues := [1 \<mapsto> VFloat64 0x4000000000000000], d_writeCooldowns := [1 \<mapsto> 2 * Second]\<rparr>) =
   Some (sample_driver\<lparr>d_previousValues := [1 \<mapsto> VFloat64 0x4000000000000000], d_writeCooldowns := [1 \<mapsto> 2 * Second]\<rparr>)"
  by (rule cooldown_ignores_confirmation[of _ _ "0x4000000000000000" "2 * Second" _ _ _ "VInt16 2"])
     (simp_all add: sample_tib_def sample_tag_def sample_blk_def Second_def parseValue_def be16_def)

end
