(* ===== verification/Tables.thy ===== *)
theory Tables
  imports Go_Base
begin

text \<open>
  Tables keyed by an integer identifier, and computations that may fail.

  A table is the list of its rows in the order they were inserted; its primary key is a function of
  the row.  \<open>upsert\<close> is \<open>INSERT ... ON CONFLICT (id) DO UPDATE\<close>: a row with the same key is replaced by what the
  update makes of the old and the new row, otherwise the new row is appended.  A computation that may
  fail returns \<open>Inl\<close> its error; \<open>bind_ok\<close> continues with a result and \<open>fold_ok\<close> runs a loop that stops at the
  first error.
\<close>

section \<open>Computations that may fail\<close>

definition bind_ok :: "'e + 'a \<Rightarrow> ('a \<Rightarrow> 'e + 'b) \<Rightarrow> 'e + 'b" where
  "bind_ok x f = (case x of Inl e \<Rightarrow> Inl e | Inr a \<Rightarrow> f a)"

fun fold_ok :: "('x \<Rightarrow> 's \<Rightarrow> 'e + 's) \<Rightarrow> 'x list \<Rightarrow> 's \<Rightarrow> 'e + 's" where
  "fold_ok f [] s = Inr s"
| "fold_ok f (x # xs) s = bind_ok (f x s) (fold_ok f xs)"

lemma bind_ok_simps [simp]: "bind_ok (Inl e) f = Inl e" "bind_ok (Inr a) f = f a"
  by (simp_all add: bind_ok_def)

lemma bind_ok_Inr_iff: "bind_ok x f = Inr b \<longleftrightarrow> (\<exists>a. x = Inr a \<and> f a = Inr b)"
  by (cases x) auto

lemma fold_ok_frame:
  assumes "fold_ok f xs s = Inr s'" and "\<And>x s s'. x \<in> set xs \<Longrightarrow> f x s = Inr s' \<Longrightarrow> g s' = g s"
  shows "g s' = g s"
  using assms
proof (induction xs arbitrary: s)
  case (Cons x xs)
  then obtain t where "f x s = Inr t" "fold_ok f xs t = Inr s'" by (auto simp: bind_ok_Inr_iff)
  with Cons show ?case by (metis list.set_intros)
qed simp

lemma fold_ok_invariant:
  assumes "fold_ok f xs s = Inr s'" "P s" and "\<And>x s s'. x \<in> set xs \<Longrightarrow> P s \<Longrightarrow> f x s = Inr s' \<Longrightarrow> P s'"
  shows "P s'"
  using assms by (induction xs arbitrary: s) (auto simp: bind_ok_Inr_iff)

lemma fold_ok_succeeds:
  assumes "P s" and "\<And>x s. x \<in> set xs \<Longrightarrow> P s \<Longrightarrow> \<exists>s'. f x s = Inr s' \<and> P s'"
  shows "\<exists>s'. fold_ok f xs s = Inr s' \<and> P s'"
  using assms
proof (induction xs arbitrary: s)
  case (Cons x xs)
  then obtain t where t: "f x s = Inr t" "P t" by (meson list.set_intros(1))
  from Cons.IH[OF t(2)] Cons.prems(2) obtain u where "fold_ok f xs t = Inr u \<and> P u" by (meson list.set_intros(2))
  then show ?case using t by auto
qed simp

lemma fold_ok_total: "(\<And>x s. x \<in> set xs \<Longrightarrow> f x s = Inr (g x s)) \<Longrightarrow> fold_ok f xs s = Inr (fold g xs s)"
  by (induction xs arbitrary: s) auto

text \<open>A loop whose body rewrites one component of the state rewrites that component only.\<close>

lemma fold_ok_component:
  assumes "fold_ok f xs s = Inr s'"
    and "\<And>x s s'. f x s = Inr s' \<Longrightarrow> s' = put (g x (get s)) s"
    and "\<And>v s. get (put v s) = v" "\<And>v w s. put v (put w s) = put v s" "\<And>s. put (get s) s = s"
  shows "s' = put (fold g xs (get s)) s"
  using assms(1)
proof (induction xs arbitrary: s)
  case (Cons x xs)
  then obtain t where "f x s = Inr t" "fold_ok f xs t = Inr s'" by (auto simp: bind_ok_Inr_iff)
  with Cons.IH assms(2-4) show ?case by (metis fold_simps(2))
qed (simp add: assms(5))

section \<open>Rows and keys\<close>

fun upsert :: "('r \<Rightarrow> int) \<Rightarrow> ('r \<Rightarrow> 'r \<Rightarrow> 'r) \<Rightarrow> 'r \<Rightarrow> 'r list \<Rightarrow> 'r list" where
  "upsert key upd r [] = [r]"
| "upsert key upd r (x # xs) = (if key x = key r then upd x r # xs else x # upsert key upd r xs)"

text \<open>An update that replaces every column.\<close>

definition replace_row :: "'r \<Rightarrow> 'r \<Rightarrow> 'r" where
  "replace_row x r = r"

definition keyed :: "('r \<Rightarrow> int) \<Rightarrow> 'r list \<Rightarrow> bool" where
  "keyed key rows \<longleftrightarrow> distinct (map key rows)"

definition has_key :: "('r \<Rightarrow> int) \<Rightarrow> 'r list \<Rightarrow> int \<Rightarrow> bool" where
  "has_key key rows i \<longleftrightarrow> i \<in> set (map key rows)"

definition row_at :: "('r \<Rightarrow> int) \<Rightarrow> 'r list \<Rightarrow> int \<Rightarrow> 'r option" where
  "row_at key rows i = find (\<lambda>r. key r = i) rows"

lemma keyed_Cons: "keyed key (r # rows) \<longleftrightarrow> \<not> has_key key rows (key r) \<and> keyed key rows"
  by (auto simp: keyed_def has_key_def)

lemma keyed_eqD: "keyed key rows \<Longrightarrow> r \<in> set rows \<Longrightarrow> r' \<in> set rows \<Longrightarrow> key r = key r' \<Longrightarrow> r = r'"
  by (auto simp: keyed_def distinct_map dest: inj_onD)

lemma keyed_filter: "keyed key rows \<Longrightarrow> keyed key (filter P rows)"
  by (simp add: keyed_def distinct_map_filter)

lemma row_at_Some: "keyed key rows \<Longrightarrow> row_at key rows i = Some r \<longleftrightarrow> r \<in> set rows \<and> key r = i"
proof (induction rows)
  case (Cons x rows)
  then show ?case by (auto simp: row_at_def keyed_def)
qed (simp add: row_at_def)

lemma row_at_key: "row_at key rows i = Some r \<Longrightarrow> key r = i"
  by (auto simp: row_at_def find_Some_iff)

lemma row_at_None: "row_at key rows i = None \<longleftrightarrow> \<not> has_key key rows i"
  by (auto simp: row_at_def has_key_def find_None_iff)

lemma has_key_iff: "has_key key rows i \<longleftrightarrow> (\<exists>r \<in> set rows. key r = i)"
  by (auto simp: has_key_def)

section \<open>Mirroring a list of rows\<close>

text \<open>The contract of an upsert: the key of the row decides, and the key never changes.\<close>

locale keyed_update =
  fixes key :: "'r \<Rightarrow> int" and upd :: "'r \<Rightarrow> 'r \<Rightarrow> 'r"
  assumes key_upd: "key x = key r \<Longrightarrow> key (upd x r) = key r"
begin

lemma keys_upsert: "set (map key (upsert key upd r rows)) = insert (key r) (set (map key rows))"
  by (induction rows) (auto simp: key_upd)

lemma has_key_upsert: "has_key key (upsert key upd r rows) i \<longleftrightarrow> i = key r \<or> has_key key rows i"
  using keys_upsert[of r rows] by (auto simp: has_key_def simp del: set_map)

lemma keyed_upsert: "keyed key rows \<Longrightarrow> keyed key (upsert key upd r rows)"
proof (induction rows)
  case (Cons x rows)
  then show ?case by (auto simp: keyed_Cons key_upd has_key_upsert)
qed (simp add: keyed_def)

lemma row_at_upsert:
  "row_at key (upsert key upd r rows) i =
    (if i = key r then Some (case row_at key rows i of None \<Rightarrow> r | Some x \<Rightarrow> upd x r) else row_at key rows i)"
  by (induction rows) (auto simp: row_at_def key_upd)

lemma has_key_fold: "has_key key (fold (upsert key upd) rs rows) i \<longleftrightarrow> i \<in> key ` set rs \<or> has_key key rows i"
  by (induction rs arbitrary: rows) (auto simp: has_key_upsert)

lemma keyed_fold: "keyed key rows \<Longrightarrow> keyed key (fold (upsert key upd) rs rows)"
  by (induction rs arbitrary: rows) (auto intro: keyed_upsert)

lemma row_at_fold_other: "i \<notin> key ` set rs \<Longrightarrow> row_at key (fold (upsert key upd) rs rows) i = row_at key rows i"
  by (induction rs arbitrary: rows) (auto simp: row_at_upsert)

lemma row_at_fold:
  assumes "keyed key rs" "r \<in> set rs"
  shows "row_at key (fold (upsert key upd) rs rows) (key r) =
    Some (case row_at key rows (key r) of None \<Rightarrow> r | Some x \<Rightarrow> upd x r)"
  using assms
proof (induction rs arbitrary: rows)
  case (Cons a rs)
  then show ?case
  proof (cases "r = a")
    case True
    then have "key r \<notin> key ` set rs" using Cons.prems by (auto simp: keyed_def)
    then show ?thesis using True by (auto simp: row_at_fold_other row_at_upsert split: option.split)
  next
    case False
    then have "key r \<noteq> key a" using Cons.prems by (metis keyed_eqD list.set_intros(1))
    then show ?thesis using False Cons by (auto simp: keyed_Cons row_at_upsert)
  qed
qed simp

text \<open>A second upsert of what is already there changes nothing.\<close>

lemma upsert_same: "(\<And>x. x \<in> set rows \<Longrightarrow> key x = key r \<Longrightarrow> upd x r = x) \<Longrightarrow> has_key key rows (key r) \<Longrightarrow>
    upsert key upd r rows = rows"
  by (induction rows) (auto simp: has_key_def)

lemma fold_upsert_same:
  assumes "\<And>r x. r \<in> set rs \<Longrightarrow> x \<in> set rows \<Longrightarrow> key x = key r \<Longrightarrow> upd x r = x"
    and "\<And>r. r \<in> set rs \<Longrightarrow> has_key key rows (key r)"
  shows "fold (upsert key upd) rs rows = rows"
  using assms by (induction rs) (auto simp: upsert_same)

text \<open>
  Upserting a list of rows and dropping what else is in scope leaves exactly those
  rows in scope.
\<close>

lemma mirror_rows:
  assumes "keyed key rows" "keyed key rs"
    and scope: "\<And>r x. r \<in> set rs \<Longrightarrow> P r \<and> (key x = key r \<longrightarrow> P (upd x r))"
  shows "x \<in> set (filter (\<lambda>r. \<not> (P r \<and> key r \<notin> key ` set rs)) (fold (upsert key upd) rs rows)) \<and> P x \<longleftrightarrow>
    (\<exists>r \<in> set rs. x = (case row_at key rows (key r) of None \<Rightarrow> r | Some y \<Rightarrow> upd y r))"
  (is "?l \<longleftrightarrow> ?r")
proof -
  let ?rows = "fold (upsert key upd) rs rows"
  have k: "keyed key ?rows" using assms(1) by (rule keyed_fold)
  have f: "y \<in> set ?rows \<and> key y = key r \<longleftrightarrow> y = (case row_at key rows (key r) of None \<Rightarrow> r | Some z \<Rightarrow> upd z r)"
    if "r \<in> set rs" for r y
    using row_at_fold[OF assms(2) that, of rows] row_at_Some[OF k, of "key r" y] by auto
  show ?thesis
  proof
    assume ?l
    then obtain r where "r \<in> set rs" "key x = key r" "x \<in> set ?rows" by auto
    then show ?r using f by blast
  next
    assume ?r
    then obtain r where r: "r \<in> set rs" "x = (case row_at key rows (key r) of None \<Rightarrow> r | Some y \<Rightarrow> upd y r)" by auto
    then have "x \<in> set ?rows" "key x = key r" using f by blast+
    moreover have "P x" using scope[OF r(1)] r(2) row_at_key[of key rows "key r"] by (auto split: option.splits)
    ultimately show ?l using r(1) by auto
  qed
qed

end

text \<open>A row whose key is not in the list stays as it is.\<close>

lemma keep_fold_replace:
  "r \<in> set rows \<Longrightarrow> \<not> has_key key rs (key r) \<Longrightarrow> r \<in> set (fold (upsert key replace_row) rs rows)"
proof (induction rs arbitrary: rows)
  case (Cons y rs)
  have "r \<in> set (upsert key replace_row y rows)"
    using Cons.prems by (induction rows) (auto simp: has_key_def)
  with Cons show ?case by (auto simp: has_key_def)
qed simp

lemma keyed_update_replace: "keyed_update key replace_row"
  by unfold_locales (simp add: replace_row_def)

end
