(* ===== verification/Edge_Config.thy ===== *)
theory Edge_Config
  imports Tables Scaling Protowire Alarms
begin

text \<open>
  The configuration of the edge boxes (\<open>internal/edgesync\<close>, \<open>internal/handlers/edge_config.go\<close>, and
  \<open>configsync.go\<close> and \<open>command_scope.go\<close> of \<open>services/driver-manager\<close>): which box or server polls a
  gateway, what a box is served, and how it is written to the box's own database.

  Both databases have the tables of \<open>edge_db\<close>, with the primary keys, foreign keys, checks and cascades
  of \<open>migrations/20250308_schema.sql\<close>; only the columns the sync reads and writes are kept.  \<open>fails\<close> says which
  statements fail for reasons of their own (connection, disk, a column too narrow); a transaction that does
  not commit leaves the database as it was.
\<close>

section \<open>Data\<close>

type_synonym ConnectionConfig = "string \<rightharpoonup> go_value"

record gateway =
  g_ID :: int
  g_AreaID :: int
  g_Name :: string
  g_DriverType :: string
  g_ConnectionConfig :: ConnectionConfig
  g_ScanRateMs :: int
  g_Enabled :: bool
  g_ZeroBased :: bool
  g_EdgeAgentID :: "int option"

text \<open>The columns of \<open>models.Tag\<close> beyond those the drivers read.\<close>

record config_tag = tag +
  tg_Historize :: bool
  tg_HistorizeDeadband :: float64
  tg_SortOrder :: float64
  tg_JsonPath :: "string option"
  tg_EuUnit :: string
  tg_EuDecimals :: int

record site =
  st_ID :: int
  st_OrgID :: int
  st_Name :: string

record area =
  ar_ID :: int
  ar_SiteID :: int
  ar_Name :: string

record MQTTCreds =
  mq_Host :: string
  mq_Port :: int
  mq_Username :: string
  mq_Password :: string

record Box =
  bx_ID :: int
  bx_Scope :: string

record Config =
  cf_OrgID :: int
  cf_OrgName :: string
  cf_AgentID :: int
  cf_MQTT :: MQTTCreds
  cf_Sites :: "site list"
  cf_Areas :: "area list"
  cf_Gateways :: "gateway list"
  cf_Tags :: "config_tag list"
  cf_Alarms :: "alarm_def list"
  cf_Unassigned :: int
  cf_WriteCommandMaxAgeSeconds :: int

definition Counts :: "Config \<Rightarrow> nat \<times> nat \<times> nat \<times> nat \<times> nat" where
  "Counts c = (length (cf_Sites c), length (cf_Areas c), length (cf_Gateways c), length (cf_Tags c), length (cf_Alarms c))"

section \<open>Who polls a gateway\<close>

definition Server :: int where "Server = 0"
definition ScopeAssigned :: string where "ScopeAssigned = ''assigned''"
definition ScopeAll :: string where "ScopeAll = ''all''"

definition ValidScope :: "string \<Rightarrow> bool" where
  "ValidScope s \<longleftrightarrow> s = ScopeAssigned \<or> s = ScopeAll"

definition Owner :: "gateway \<Rightarrow> Box list \<Rightarrow> int" where
  "Owner gw boxes =
     (let assigned = (case g_EdgeAgentID gw of None \<Rightarrow> None | Some a \<Rightarrow> find (\<lambda>b. bx_ID b = a) boxes)
      in case assigned of
           Some b \<Rightarrow> bx_ID b
         | None \<Rightarrow> (case find (\<lambda>b. bx_Scope b = ScopeAll) boxes of Some b \<Rightarrow> bx_ID b | None \<Rightarrow> Server))"

definition ownedBy :: "int \<Rightarrow> Box list \<Rightarrow> gateway list \<Rightarrow> gateway list" where
  "ownedBy owner boxes gateways = filter (\<lambda>g. Owner g boxes = owner) gateways"

definition GatewaysFor :: "int \<Rightarrow> Box list \<Rightarrow> gateway list \<Rightarrow> gateway list" where
  "GatewaysFor agentID boxes gateways = (if agentID = Server then gateways else ownedBy agentID boxes gateways)"

definition ServerGateways :: "Box list \<Rightarrow> gateway list \<Rightarrow> gateway list" where
  "ServerGateways boxes gateways = ownedBy Server boxes gateways"

definition ServerOwned :: "Box list \<Rightarrow> gateway list \<Rightarrow> int" where
  "ServerOwned boxes gateways = int (length (ServerGateways boxes gateways))"

definition FilterTree :: "int \<Rightarrow> Box list \<Rightarrow> Config \<Rightarrow> Config" where
  "FilterTree agentID boxes c =
     (let gws = GatewaysFor agentID boxes (cf_Gateways c);
          tags = filter (\<lambda>t. has_key g_ID gws (tg_GatewayID t)) (cf_Tags c);
          alarms = filter (\<lambda>a. has_key tg_ID tags (ad_TagID a)) (cf_Alarms c)
      in c\<lparr>cf_Unassigned := ServerOwned boxes (cf_Gateways c), cf_Gateways := gws, cf_Tags := tags, cf_Alarms := alarms\<rparr>)"

section \<open>The database\<close>

text \<open>
  \<open>db_agents\<close> is the table \<open>edge_agents\<close> with the organization of each box.  A sequence holds the last value
  it gave out; the identifier of the next row a process inserts by itself is one more.
\<close>

record edge_db =
  db_organizations :: "(int \<times> string) list"
  db_sites :: "site list"
  db_areas :: "area list"
  db_gateways :: "gateway list"
  db_tags :: "config_tag list"
  db_alarms :: "alarm_def list"
  db_agents :: "(int \<times> Box) list"
  db_settings :: "string \<rightharpoonup> string"
  db_seqs :: "string \<Rightarrow> int"

datatype statement =
    BeginTx | InsertOrganization | InsertSite int | InsertArea int | InsertGateway int | DeleteGateways
  | InsertTag int | DeleteTags | InsertAlarm int | DeleteAlarms | InsertSetting | MoveSequence string | CommitTx
  | QueryOrganization | QuerySites | QueryAreas | QueryGateways | QueryTags | QueryAlarms | QueryBoxes | QueryMaxAge

datatype apply_error = NoConfiguration | NoOrganization | StatementFailed statement

text \<open>A statement that violates a constraint fails, whatever else happens.\<close>

definition exec :: "(statement \<Rightarrow> bool) \<Rightarrow> statement \<Rightarrow> (edge_db \<Rightarrow> bool) \<Rightarrow> (edge_db \<Rightarrow> edge_db) \<Rightarrow> edge_db \<Rightarrow> apply_error + edge_db" where
  "exec fails st allowed f db = (if fails st \<or> \<not> allowed db then Inl (StatementFailed st) else Inr (f db))"

definition gateway_org :: "edge_db \<Rightarrow> gateway \<Rightarrow> int option" where
  "gateway_org db g = Option.bind (row_at ar_ID (db_areas db) (g_AreaID g))
     (\<lambda>a. map_option st_OrgID (row_at st_ID (db_sites db) (ar_SiteID a)))"

definition tag_org :: "edge_db \<Rightarrow> config_tag \<Rightarrow> int option" where
  "tag_org db t = Option.bind (row_at g_ID (db_gateways db) (tg_GatewayID t)) (gateway_org db)"

definition alarm_org :: "edge_db \<Rightarrow> alarm_def \<Rightarrow> int option" where
  "alarm_org db a = Option.bind (row_at tg_ID (db_tags db) (ad_TagID a)) (tag_org db)"

text \<open>Rows are deleted with the rows that refer to them.\<close>

definition cascade :: "edge_db \<Rightarrow> edge_db" where
  "cascade db = (let tags = filter (\<lambda>t. has_key g_ID (db_gateways db) (tg_GatewayID t)) (db_tags db)
     in db\<lparr>db_tags := tags, db_alarms := filter (\<lambda>a. has_key tg_ID tags (ad_TagID a)) (db_alarms db)\<rparr>)"

text \<open>
  The array literal of \<open>pqInt64Array\<close>, and how the database reads it: integers separated by commas in
  braces.
\<close>

fun join_commas :: "string list \<Rightarrow> string" where
  "join_commas [] = ''''"
| "join_commas [s] = s"
| "join_commas (s # ss) = s @ CHR '','' # join_commas ss"

definition pqInt64Array_Value :: "int list \<Rightarrow> string" where
  "pqInt64Array_Value a = (if a = [] then ''{}'' else CHR ''{'' # join_commas (map itoa a) @ ''}'')"

definition read_array :: "string \<Rightarrow> int list" where
  "read_array s = (if s = ''{}'' then [] else map (\<lambda>p. the (Atoi p)) (split_on CHR '','' (butlast (tl s))))"

definition any_of :: "int \<Rightarrow> string \<Rightarrow> bool" where
  "any_of i arr \<longleftrightarrow> i \<in> set (read_array arr)"

definition driver_types :: "string list" where
  "driver_types = [''S7'', ''MODBUS_TCP'', ''MQTT'', ''OPC_UA'', ''LORAWAN'']"

definition tag_types :: "string list" where
  "tag_types = [''INT'', ''REAL'', ''BOOL'', ''DINT'', ''STRING'']"

section \<open>Applying a configuration\<close>

definition applyOrg :: "(statement \<Rightarrow> bool) \<Rightarrow> Config \<Rightarrow> edge_db \<Rightarrow> apply_error + edge_db" where
  "applyOrg fails cfg = exec fails InsertOrganization
     (\<lambda>db. list_all (\<lambda>(i, n). n = cf_OrgName cfg \<longrightarrow> i = cf_OrgID cfg) (db_organizations db))
     (\<lambda>db. db\<lparr>db_organizations := upsert fst replace_row (cf_OrgID cfg, cf_OrgName cfg) (db_organizations db)\<rparr>)"

definition insertSite :: "(statement \<Rightarrow> bool) \<Rightarrow> site \<Rightarrow> edge_db \<Rightarrow> apply_error + edge_db" where
  "insertSite fails s = exec fails (InsertSite (st_ID s))
     (\<lambda>db. has_key fst (db_organizations db) (st_OrgID s))
     (\<lambda>db. db\<lparr>db_sites := upsert st_ID replace_row s (db_sites db)\<rparr>)"

definition insertArea :: "(statement \<Rightarrow> bool) \<Rightarrow> area \<Rightarrow> edge_db \<Rightarrow> apply_error + edge_db" where
  "insertArea fails a = exec fails (InsertArea (ar_ID a))
     (\<lambda>db. has_key st_ID (db_sites db) (ar_SiteID a))
     (\<lambda>db. db\<lparr>db_areas := upsert ar_ID replace_row a (db_areas db)\<rparr>)"

definition applyHierarchy :: "(statement \<Rightarrow> bool) \<Rightarrow> Config \<Rightarrow> edge_db \<Rightarrow> apply_error + edge_db" where
  "applyHierarchy fails cfg db = bind_ok (fold_ok (insertSite fails) (cf_Sites cfg) db) (fold_ok (insertArea fails) (cf_Areas cfg))"

text \<open>
  \<open>deleteMissing\<close>: the rows of the organization that are not in the list, with what refers to them.  \<open>del\<close> is
  the delete of the table at hand, given the test of the \<open>WHERE\<close> clause on a row's identifier.
\<close>

definition deleteMissing ::
  "(statement \<Rightarrow> bool) \<Rightarrow> statement \<Rightarrow> ((int \<Rightarrow> bool) \<Rightarrow> edge_db \<Rightarrow> edge_db) \<Rightarrow> int list \<Rightarrow> edge_db \<Rightarrow> apply_error + edge_db" where
  "deleteMissing fails st del keep =
     (let arr = pqInt64Array_Value keep in exec fails st (\<lambda>_. True) (\<lambda>db. cascade (del (\<lambda>i. \<not> any_of i arr) db)))"

text \<open>The assigned box of a gateway is not among the columns that are written.\<close>

definition write_gateway :: "gateway \<Rightarrow> gateway \<Rightarrow> gateway" where
  "write_gateway old g = g\<lparr>g_EdgeAgentID := g_EdgeAgentID old\<rparr>"

definition insertGateway :: "(statement \<Rightarrow> bool) \<Rightarrow> gateway \<Rightarrow> edge_db \<Rightarrow> apply_error + edge_db" where
  "insertGateway fails g = exec fails (InsertGateway (g_ID g))
     (\<lambda>db. has_key ar_ID (db_areas db) (g_AreaID g) \<and> g_DriverType g \<in> set driver_types)
     (\<lambda>db. db\<lparr>db_gateways := upsert g_ID write_gateway (g\<lparr>g_EdgeAgentID := None\<rparr>) (db_gateways db)\<rparr>)"

definition delete_gateways :: "int \<Rightarrow> (int \<Rightarrow> bool) \<Rightarrow> edge_db \<Rightarrow> edge_db" where
  "delete_gateways orgID gone db =
     db\<lparr>db_gateways := filter (\<lambda>g. \<not> (gateway_org db g = Some orgID \<and> gone (g_ID g))) (db_gateways db)\<rparr>"

definition applyGateways :: "(statement \<Rightarrow> bool) \<Rightarrow> Config \<Rightarrow> edge_db \<Rightarrow> apply_error + edge_db" where
  "applyGateways fails cfg db = bind_ok (fold_ok (insertGateway fails) (cf_Gateways cfg) db)
     (deleteMissing fails DeleteGateways (delete_gateways (cf_OrgID cfg)) (map g_ID (cf_Gateways cfg)))"

definition insertTag :: "(statement \<Rightarrow> bool) \<Rightarrow> config_tag \<Rightarrow> edge_db \<Rightarrow> apply_error + edge_db" where
  "insertTag fails t = exec fails (InsertTag (tg_ID t))
     (\<lambda>db. has_key g_ID (db_gateways db) (tg_GatewayID t) \<and> tg_DataType t \<in> set tag_types)
     (\<lambda>db. db\<lparr>db_tags := upsert tg_ID replace_row t (db_tags db)\<rparr>)"

definition delete_tags :: "int \<Rightarrow> (int \<Rightarrow> bool) \<Rightarrow> edge_db \<Rightarrow> edge_db" where
  "delete_tags orgID gone db =
     db\<lparr>db_tags := filter (\<lambda>t. \<not> (tag_org db t = Some orgID \<and> gone (tg_ID t))) (db_tags db)\<rparr>"

definition applyTags :: "(statement \<Rightarrow> bool) \<Rightarrow> Config \<Rightarrow> edge_db \<Rightarrow> apply_error + edge_db" where
  "applyTags fails cfg db = bind_ok (fold_ok (insertTag fails) (cf_Tags cfg) db)
     (deleteMissing fails DeleteTags (delete_tags (cf_OrgID cfg)) (map tg_ID (cf_Tags cfg)))"

definition insertAlarm :: "(statement \<Rightarrow> bool) \<Rightarrow> alarm_def \<Rightarrow> edge_db \<Rightarrow> apply_error + edge_db" where
  "insertAlarm fails a = exec fails (InsertAlarm (ad_ID a))
     (\<lambda>db. has_key tg_ID (db_tags db) (ad_TagID a))
     (\<lambda>db. db\<lparr>db_alarms := upsert ad_ID replace_row a (db_alarms db)\<rparr>)"

definition delete_alarms :: "int \<Rightarrow> (int \<Rightarrow> bool) \<Rightarrow> edge_db \<Rightarrow> edge_db" where
  "delete_alarms orgID gone db =
     db\<lparr>db_alarms := filter (\<lambda>a. \<not> (alarm_org db a = Some orgID \<and> gone (ad_ID a))) (db_alarms db)\<rparr>"

definition applyAlarms :: "(statement \<Rightarrow> bool) \<Rightarrow> Config \<Rightarrow> edge_db \<Rightarrow> apply_error + edge_db" where
  "applyAlarms fails cfg db = bind_ok (fold_ok (insertAlarm fails) (cf_Alarms cfg) db)
     (deleteMissing fails DeleteAlarms (delete_alarms (cf_OrgID cfg)) (map ad_ID (cf_Alarms cfg)))"

definition maxAgeKey :: string where "maxAgeKey = ''write_command_max_age_seconds''"

definition applySettings :: "(statement \<Rightarrow> bool) \<Rightarrow> Config \<Rightarrow> edge_db \<Rightarrow> apply_error + edge_db" where
  "applySettings fails cfg db =
     (if cf_WriteCommandMaxAgeSeconds cfg \<le> 0 then Inr db
      else exec fails InsertSetting (\<lambda>_. True)
             (\<lambda>db. db\<lparr>db_settings := (db_settings db)(maxAgeKey \<mapsto> itoa (cf_WriteCommandMaxAgeSeconds cfg))\<rparr>) db)"

definition table_ids :: "edge_db \<Rightarrow> string \<Rightarrow> int list" where
  "table_ids db t =
     (if t = ''organizations'' then map fst (db_organizations db)
      else if t = ''sites'' then map st_ID (db_sites db)
      else if t = ''areas'' then map ar_ID (db_areas db)
      else if t = ''gateways'' then map g_ID (db_gateways db)
      else if t = ''tags'' then map tg_ID (db_tags db)
      else if t = ''alarm_definitions'' then map ad_ID (db_alarms db)
      else [])"

definition max_id :: "int list \<Rightarrow> int" where
  "max_id is = (case is of [] \<Rightarrow> 0 | i # is' \<Rightarrow> fold max is' i)"

definition moveSequence :: "(statement \<Rightarrow> bool) \<Rightarrow> string \<Rightarrow> edge_db \<Rightarrow> apply_error + edge_db" where
  "moveSequence fails t = exec fails (MoveSequence t) (\<lambda>_. True)
     (\<lambda>db. db\<lparr>db_seqs := (db_seqs db)(t := max (max_id (table_ids db t)) 1)\<rparr>)"

definition sequence_tables :: "string list" where
  "sequence_tables = [''organizations'', ''sites'', ''areas'', ''gateways'', ''tags'', ''alarm_definitions'']"

definition pruneSequences :: "(statement \<Rightarrow> bool) \<Rightarrow> edge_db \<Rightarrow> apply_error + edge_db" where
  "pruneSequences fails = fold_ok (moveSequence fails) sequence_tables"

definition apply_statements :: "(statement \<Rightarrow> bool) \<Rightarrow> Config \<Rightarrow> edge_db \<Rightarrow> apply_error + edge_db" where
  "apply_statements fails cfg db =
     bind_ok (applyOrg fails cfg db) (\<lambda>db. bind_ok (applyHierarchy fails cfg db) (\<lambda>db. bind_ok (applyGateways fails cfg db)
       (\<lambda>db. bind_ok (applyTags fails cfg db) (\<lambda>db. bind_ok (applyAlarms fails cfg db)
         (\<lambda>db. bind_ok (applySettings fails cfg db) (pruneSequences fails))))))"

text \<open>The result is the error, if any, and the database afterwards: a failed transaction is rolled back.\<close>

definition ApplyConfig :: "(statement \<Rightarrow> bool) \<Rightarrow> Config option \<Rightarrow> edge_db \<Rightarrow> apply_error option \<times> edge_db" where
  "ApplyConfig fails cfg db =
     (case cfg of
        None \<Rightarrow> (Some NoConfiguration, db)
      | Some cfg \<Rightarrow>
          (if cf_OrgID cfg \<le> 0 then (Some NoOrganization, db)
           else if fails BeginTx then (Some (StatementFailed BeginTx), db)
           else (case apply_statements fails cfg db of
                   Inl e \<Rightarrow> (Some e, db)
                 | Inr db' \<Rightarrow> if fails CommitTx then (Some (StatementFailed CommitTx), db) else (None, db'))))"

section \<open>What the platform serves\<close>

text \<open>
  The queries run one after the other outside any transaction: \<open>seen q\<close> is the state of the platform's
  database that the query \<open>q\<close> sees.
\<close>

definition load_rows :: "(statement \<Rightarrow> bool) \<Rightarrow> statement \<Rightarrow> 'r list \<Rightarrow> apply_error + 'r list" where
  "load_rows fails q rows = (if fails q then Inl (StatementFailed q) else Inr rows)"

definition query_sites :: "int \<Rightarrow> edge_db \<Rightarrow> site list" where
  "query_sites orgID db = sort_key st_ID (filter (\<lambda>s. st_OrgID s = orgID) (db_sites db))"

definition query_areas :: "int \<Rightarrow> edge_db \<Rightarrow> area list" where
  "query_areas orgID db = sort_key ar_ID
     (filter (\<lambda>a. map_option st_OrgID (row_at st_ID (db_sites db) (ar_SiteID a)) = Some orgID) (db_areas db))"

definition query_gateways :: "int \<Rightarrow> edge_db \<Rightarrow> gateway list" where
  "query_gateways orgID db = sort_key g_ID (filter (\<lambda>g. gateway_org db g = Some orgID) (db_gateways db))"

definition query_tags :: "int \<Rightarrow> edge_db \<Rightarrow> config_tag list" where
  "query_tags orgID db = sort_key tg_ID (filter (\<lambda>t. tag_org db t = Some orgID) (db_tags db))"

definition query_alarms :: "int \<Rightarrow> edge_db \<Rightarrow> alarm_def list" where
  "query_alarms orgID db = sort_key ad_ID (filter (\<lambda>a. alarm_org db a = Some orgID) (db_alarms db))"

definition loadTree :: "(statement \<Rightarrow> bool) \<Rightarrow> (statement \<Rightarrow> edge_db) \<Rightarrow> int \<Rightarrow> Config \<Rightarrow> apply_error + Config" where
  "loadTree fails seen orgID cfg =
     bind_ok (load_rows fails QuerySites (query_sites orgID (seen QuerySites))) (\<lambda>sites.
     bind_ok (load_rows fails QueryAreas (query_areas orgID (seen QueryAreas))) (\<lambda>areas.
     bind_ok (load_rows fails QueryGateways (query_gateways orgID (seen QueryGateways))) (\<lambda>gateways.
     bind_ok (load_rows fails QueryTags (query_tags orgID (seen QueryTags))) (\<lambda>tags.
     bind_ok (load_rows fails QueryAlarms (query_alarms orgID (seen QueryAlarms))) (\<lambda>alarms.
       Inr (cfg\<lparr>cf_Sites := cf_Sites cfg @ sites, cf_Areas := cf_Areas cfg @ areas, cf_Gateways := cf_Gateways cfg @ gateways,
                cf_Tags := cf_Tags cfg @ tags, cf_Alarms := cf_Alarms cfg @ alarms\<rparr>))))))"

definition LoadBoxes :: "(statement \<Rightarrow> bool) \<Rightarrow> edge_db \<Rightarrow> int \<Rightarrow> apply_error + Box list" where
  "LoadBoxes fails db orgID = load_rows fails QueryBoxes
     (sort_key bx_ID (map snd (filter (\<lambda>(org, b). org = orgID) (db_agents db))))"

definition LoadAllBoxes :: "(statement \<Rightarrow> bool) \<Rightarrow> edge_db \<Rightarrow> apply_error + (int \<Rightarrow> Box list)" where
  "LoadAllBoxes fails db =
     (if fails QueryBoxes then Inl (StatementFailed QueryBoxes)
      else Inr (\<lambda>orgID. map snd (filter (\<lambda>(org, b). org = orgID) (sort_key (bx_ID \<circ> snd) (db_agents db)))))"

definition serverPollerSeenKey :: string where "serverPollerSeenKey = ''server_poller_seen_at''"

definition MarkServerPolling :: "int \<Rightarrow> edge_db \<Rightarrow> edge_db" where
  "MarkServerPolling at_ms db = db\<lparr>db_settings := (db_settings db)(serverPollerSeenKey \<mapsto> itoa at_ms)\<rparr>"

text \<open>\<open>getenv\<close> is the environment of the process: the empty string when a variable is not set.\<close>

definition mqttPublicHost :: "(string \<Rightarrow> string) \<Rightarrow> string" where
  "mqttPublicHost getenv =
     (if getenv ''MQTT_PUBLIC_HOST'' \<noteq> '''' then getenv ''MQTT_PUBLIC_HOST''
      else if getenv ''PUBLIC_HOST'' \<noteq> '''' then getenv ''PUBLIC_HOST''
      else ''localhost'')"

definition mqttPublicPort :: "(string \<Rightarrow> string) \<Rightarrow> int" where
  "mqttPublicPort getenv =
     (if getenv ''MQTT_PUBLIC_PORT'' \<noteq> '''' then (case Atoi (getenv ''MQTT_PUBLIC_PORT'') of Some n \<Rightarrow> n | None \<Rightarrow> 1883)
      else 1883)"

definition max_age :: "(statement \<Rightarrow> bool) \<Rightarrow> edge_db \<Rightarrow> int" where
  "max_age fails db =
     (if fails QueryMaxAge then 0
      else case db_settings db maxAgeKey of
             None \<Rightarrow> 0
           | Some s \<Rightarrow> (case Atoi (TrimSpace s) of Some n \<Rightarrow> n | None \<Rightarrow> 0))"

text \<open>
  The endpoint, after the key of the request was resolved to its organization and box: the status
  code and the configuration.  \<open>creds\<close> is the organization's row of \<open>org_mqtt_credentials\<close>.
\<close>

definition ServeConfig ::
  "(string \<Rightarrow> string) \<Rightarrow> (int \<Rightarrow> (string \<times> string) option) \<Rightarrow> (statement \<Rightarrow> bool) \<Rightarrow> (statement \<Rightarrow> edge_db) \<Rightarrow>
    int option \<Rightarrow> int option \<Rightarrow> int \<times> Config option" where
  "ServeConfig getenv creds fails seen key_org key_agent =
     (case key_org of
        None \<Rightarrow> (401, None)
      | Some orgID \<Rightarrow>
          (if fails QueryOrganization then (500, None)
           else (case row_at fst (db_organizations (seen QueryOrganization)) orgID of
                   None \<Rightarrow> (404, None)
                 | Some org \<Rightarrow>
                     (let (user, pass) = (case creds orgID of None \<Rightarrow> ('''', '''') | Some c \<Rightarrow> c);
                          cfg = \<lparr>cf_OrgID = orgID, cf_OrgName = snd org, cf_AgentID = 0,
                                 cf_MQTT = \<lparr>mq_Host = mqttPublicHost getenv, mq_Port = mqttPublicPort getenv, mq_Username = user, mq_Password = pass\<rparr>,
                                 cf_Sites = [], cf_Areas = [], cf_Gateways = [], cf_Tags = [], cf_Alarms = [], cf_Unassigned = 0,
                                 cf_WriteCommandMaxAgeSeconds = 0\<rparr>;
                          agent = (case key_agent of None \<Rightarrow> 0 | Some a \<Rightarrow> a)
                      in (case loadTree fails seen orgID cfg of
                            Inl _ \<Rightarrow> (500, None)
                          | Inr cfg \<Rightarrow>
                              (case LoadBoxes fails (seen QueryBoxes) orgID of
                                 Inl _ \<Rightarrow> (500, None)
                               | Inr boxes \<Rightarrow>
                                   (200, Some ((FilterTree agent boxes (cfg\<lparr>cf_AgentID := agent\<rparr>))
                                                 \<lparr>cf_WriteCommandMaxAgeSeconds := max_age fails (seen QueryMaxAge)\<rparr>))))))))"

section \<open>The box\<close>

text \<open>The answer of the platform: none, or a status code, a body, and whether reading the body failed.\<close>

datatype http_answer = NoAnswer | Answer int bytes bool

datatype fetch_error = NoAddress | Unreachable | BodyUnreadable | AnsweredStatus int | NotAConfiguration | NamesNoOrganization

definition maxConfigBytes :: nat where "maxConfigBytes = 8388608"

text \<open>\<open>UJ\<close> is \<open>json.Unmarshal\<close> into a \<open>Config\<close>.\<close>

definition FetchConfig :: "(bytes \<Rightarrow> Config option) \<Rightarrow> string \<Rightarrow> string \<Rightarrow> http_answer \<Rightarrow> fetch_error + Config" where
  "FetchConfig UJ baseURL apiKey ans =
     (if baseURL = '''' \<or> apiKey = '''' then Inl NoAddress
      else (case ans of
              NoAnswer \<Rightarrow> Inl Unreachable
            | Answer status body unreadable \<Rightarrow>
                (let body = take maxConfigBytes body
                 in if unreadable then Inl BodyUnreadable
                    else if status \<noteq> 200 then Inl (AnsweredStatus status)
                    else (case UJ body of
                            None \<Rightarrow> Inl NotAConfiguration
                          | Some cfg \<Rightarrow> if cf_OrgID cfg \<le> 0 then Inl NamesNoOrganization else Inr cfg))))"

record edge_box =
  eb_db :: edge_db
  eb_agentID :: int
  eb_lastSyncFailed :: bool

definition setAgentID :: "int \<Rightarrow> edge_box \<Rightarrow> edge_box" where
  "setAgentID i b = b\<lparr>eb_agentID := i\<rparr>"

definition syncOnce ::
  "(bytes \<Rightarrow> Config option) \<Rightarrow> (statement \<Rightarrow> bool) \<Rightarrow> string \<Rightarrow> string \<Rightarrow> http_answer \<Rightarrow> edge_box \<Rightarrow> edge_box" where
  "syncOnce UJ fails baseURL apiKey ans b =
     (case FetchConfig UJ baseURL apiKey ans of
        Inl _ \<Rightarrow> b\<lparr>eb_lastSyncFailed := True\<rparr>
      | Inr cfg \<Rightarrow>
          (let b = b\<lparr>eb_lastSyncFailed := False\<rparr>
           in (case ApplyConfig fails (Some cfg) (eb_db b) of
                 (Some _, db) \<Rightarrow> b\<lparr>eb_db := db\<rparr>
               | (None, db) \<Rightarrow> setAgentID (cf_AgentID cfg) (b\<lparr>eb_db := db\<rparr>))))"

text \<open>\<open>myAgentID\<close> is the identity the platform gave the box, zero before the first configuration.\<close>

definition commandIsForThisBox :: "int \<Rightarrow> string \<Rightarrow> int \<Rightarrow> bool" where
  "commandIsForThisBox myAgentID topic myOrgID =
     (let parts = split_on CHR ''/'' (trim_char CHR ''/'' topic)
      in if length parts < 3 \<or> parts ! 0 \<noteq> ''sys'' then False
         else (case Atoi (parts ! 2) of
                 None \<Rightarrow> False
               | Some org \<Rightarrow>
                   if org \<noteq> myOrgID \<or> myOrgID = 0 then False
                   else if length parts = 3 then True
                   else if length parts \<noteq> 4 then False
                   else (case Atoi (parts ! 3) of
                           None \<Rightarrow> False
                         | Some agent \<Rightarrow> myAgentID \<noteq> 0 \<and> agent = myAgentID)))"

end
