(* ===== verification/Driver_Manager.thy ===== *)
theory Driver_Manager
  imports Edge_Config Topics "HOL-Library.List_Lexorder" "HOL-Library.Char_ord"
begin

text \<open>
  The driver manager (\<open>services/driver-manager/main.go\<close> and \<open>adopt.go\<close>): it keeps one driver container running for
  every gateway polled on its host, restarts the ones that stop and stops those that are no longer wanted.

  The Docker daemon is a parameter: \<open>'d\<close> is its state and a \<open>docker\<close> record its operations, each with its new
  state and the error it returned or its result.  \<open>dk_table\<close> is what a list of all containers would show, and
  \<open>dk_issued\<close> the identifiers it ever gave to containers; no operation of the manager uses them, the theorems state
  their conclusions with them.
\<close>

section \<open>The Docker daemon\<close>

record container =
  cn_ID :: string
  cn_Name :: string
  cn_Image :: string
  cn_Env :: "string list"
  cn_Networks :: "(string \<times> string option) list"
  cn_NetworkMode :: string
  cn_Running :: bool

text \<open>\<open>ci_Incomplete\<close>: the answer lacks one of the parts the manager reads.\<close>

record inspect_response = container +
  ci_Incomplete :: bool

record container_spec =
  sp_Image :: string
  sp_Env :: "string list"
  sp_RestartPolicy :: string
  sp_NanoCPUs :: int
  sp_Memory :: int
  sp_NetworkMode :: string

datatype pull_outcome = PullRefused string | StreamBroken string | Pulled
datatype stop_outcome = Stopped | NotFound | StopFailed string

record 'd docker =
  dk_table :: "'d \<Rightarrow> container list"
  dk_issued :: "'d \<Rightarrow> string list"
  ContainerInspect :: "string \<Rightarrow> 'd \<Rightarrow> 'd \<times> (string + inspect_response)"
  ContainerCreate :: "container_spec \<Rightarrow> string \<Rightarrow> 'd \<Rightarrow> 'd \<times> (string + string)"
  ContainerStart :: "string \<Rightarrow> 'd \<Rightarrow> 'd \<times> string option"
  ContainerStop :: "string \<Rightarrow> 'd \<Rightarrow> 'd \<times> stop_outcome"
  ContainerRemove :: "string \<Rightarrow> bool \<Rightarrow> 'd \<Rightarrow> 'd \<times> string option"
  NetworkInspect :: "string \<Rightarrow> 'd \<Rightarrow> 'd \<times> (string + string)"
  NetworkList :: "'d \<Rightarrow> 'd \<times> (string + (string \<times> string) list)"
  NetworkCreate :: "string \<Rightarrow> 'd \<Rightarrow> 'd \<times> (string + string)"
  ImageInspect :: "string \<Rightarrow> 'd \<Rightarrow> 'd \<times> bool"
  ImagePull :: "string \<Rightarrow> 'd \<Rightarrow> 'd \<times> pull_outcome"

section \<open>The manager\<close>

record GatewayState =
  gs_Gateway :: gateway
  gs_ContainerID :: string
  gs_Running :: bool
  gs_ConsecutiveErrors :: int
  gs_LastError :: string
  gs_LastErrorTime :: gotime

record GatewayStatus =
  gst_GatewayID :: int
  gst_Status :: string
  gst_ContainerID :: string
  gst_Error :: string
  gst_Timestamp :: int
  gst_DriverType :: string

record pullFailState =
  pf_failures :: int
  pf_nextTry :: gotime

text \<open>\<open>dm_sent\<close> are the statuses handed to the MQTT client, all retained and at QoS 1.\<close>

record 'd manager_state =
  dm_db :: edge_db
  dm_docker :: 'd
  dm_states :: "int \<rightharpoonup> GatewayState"
  dm_networkID :: string
  dm_consecutiveErrors :: int
  dm_orgID :: int
  dm_onBox :: bool
  dm_pullFailures :: "string \<rightharpoonup> pullFailState"
  dm_sent :: "(string \<times> GatewayStatus) list"

record 'd manager_env =
  me_getenv :: "string \<Rightarrow> string"
  me_hostname :: "string option"
  me_docker :: "'d docker"

definition dockerNetworkName :: string where "dockerNetworkName = ''industrial-network''"
definition maxPullRetries :: nat where "maxPullRetries = 3"
definition maxStartRetries :: int where "maxStartRetries = 5"

definition getEnv :: "(string \<Rightarrow> string) \<Rightarrow> string \<Rightarrow> string \<Rightarrow> string" where
  "getEnv getenv key def = (if getenv key \<noteq> '''' then getenv key else def)"

definition driverResourceLimits :: "string \<Rightarrow> int \<times> int" where
  "driverResourceLimits t =
     (if t = ''S7'' then (500000000, 128 * 1024 * 1024)
      else if t = ''MODBUS_TCP'' \<or> t = ''MQTT'' \<or> t = ''LORAWAN'' then (250000000, 64 * 1024 * 1024)
      else if t = ''OPC_UA'' then (1000000000, 256 * 1024 * 1024)
      else (0, 0))"

definition driverServices :: "string \<rightharpoonup> string" where
  "driverServices t =
     (if t = ''S7'' then Some ''driver-s7''
      else if t = ''MODBUS_TCP'' then Some ''driver-modbus''
      else if t = ''REDIS'' then Some ''driver-redis''
      else if t = ''MQTT'' then Some ''driver-mqtt''
      else if t = ''OPC_UA'' then Some ''driver-opcua''
      else if t = ''LORAWAN'' then Some ''driver-lorawan''
      else None)"

section \<open>Cooldowns\<close>

fun cooldown_loop :: "nat \<Rightarrow> duration \<Rightarrow> duration" where
  "cooldown_loop 0 d = d"
| "cooldown_loop (Suc n) d = (if d < Hour then cooldown_loop n (d * 2) else d)"

definition failureCooldown :: "int \<Rightarrow> duration" where
  "failureCooldown failures = (let d = cooldown_loop (nat (failures - 1)) (5 * Minute) in if d > Hour then Hour else d)"

definition calculateBackoff :: "duration \<Rightarrow> nat \<Rightarrow> duration \<Rightarrow> duration" where
  "calculateBackoff baseDelay attempt maxDelay =
     (let backoff = wrap64 (baseDelay * wrap64 (2 ^ attempt)) in if backoff > maxDelay then maxDelay else backoff)"

section \<open>Images and networks\<close>

definition driverImage :: "string \<Rightarrow> string \<Rightarrow> string \<Rightarrow> string" where
  "driverImage service registry tag =
     (if registry = '''' then ''industrial-'' @ service @ '':latest''
      else registry @ service @ '':'' @ (if tag = '''' then ''latest'' else tag))"

definition imageNameForDriver :: "(string \<Rightarrow> string) \<Rightarrow> string \<Rightarrow> string" where
  "imageNameForDriver getenv driverType =
     (case driverServices driverType of
        None \<Rightarrow> ''''
      | Some service \<Rightarrow> driverImage service (getenv ''DRIVER_IMAGE_REGISTRY'') (getenv ''DRIVER_IMAGE_TAG''))"

definition has_suffix :: "string \<Rightarrow> string \<Rightarrow> bool" where
  "has_suffix s suf \<longleftrightarrow> length suf \<le> length s \<and> drop (length s - length suf) s = suf"

text \<open>The networks of the manager's own container, in the order the map is ranged over.\<close>

definition usable_network :: "string \<times> string option \<Rightarrow> bool" where
  "usable_network e = (case e of (n, ep) \<Rightarrow>
     \<not> (n = ''host'' \<or> n = ''none'' \<or> ep = None \<or> ep = Some ''''))"

definition pickDriverNetwork :: "(string \<times> string option) list \<Rightarrow> (string \<times> string) option" where
  "pickDriverNetwork nets =
     (let usable = filter usable_network nets
      in (case find (\<lambda>(n, ep). n = ''openedge-net'' \<or> has_suffix n ''_openedge-net'') usable of
            Some (n, ep) \<Rightarrow> Some (the ep, n)
          | None \<Rightarrow>
              (case sort (map fst usable) of
                 [] \<Rightarrow> None
               | n # _ \<Rightarrow> Some (the (the (map_of usable n)), n))))"

definition set_network :: "string \<Rightarrow> 'd manager_state \<Rightarrow> 'd manager_state" where
  "set_network i m = m\<lparr>dm_networkID := i\<rparr>"

definition ensureNetwork_byName :: "'d docker \<Rightarrow> 'd manager_state \<Rightarrow> 'd manager_state \<times> string option" where
  "ensureNetwork_byName K m =
     (let (d, r) = NetworkList K (dm_docker m); m = m\<lparr>dm_docker := d\<rparr>
      in (case r of
            Inl e \<Rightarrow> (m, Some (''failed to list networks: '' @ e))
          | Inr networks \<Rightarrow>
              (case find (\<lambda>(n, i). n = dockerNetworkName \<or> has_suffix n (CHR ''_'' # dockerNetworkName)) networks of
                 Some (n, i) \<Rightarrow> (set_network i m, None)
               | None \<Rightarrow>
                   (let (d, r) = NetworkCreate K dockerNetworkName (dm_docker m); m = m\<lparr>dm_docker := d\<rparr>
                    in (case r of
                          Inl e \<Rightarrow> (m, Some (''failed to create network: '' @ e))
                        | Inr i \<Rightarrow> (set_network i m, None))))))"

definition ensureNetwork :: "'d manager_env \<Rightarrow> 'd manager_state \<Rightarrow> 'd manager_state \<times> string option" where
  "ensureNetwork E m =
     (let K = me_docker E; name = me_getenv E ''DRIVER_NETWORK''
      in if name \<noteq> ''''
         then (let (d, r) = NetworkInspect K name (dm_docker m); m = m\<lparr>dm_docker := d\<rparr>
               in (case r of
                     Inl e \<Rightarrow> (m, Some (''DRIVER_NETWORK: '' @ e))
                   | Inr i \<Rightarrow> (set_network i m, None)))
         else (case me_hostname E of
                 None \<Rightarrow> ensureNetwork_byName K m
               | Some host \<Rightarrow>
                   (let (d, r) = ContainerInspect K host (dm_docker m); m = m\<lparr>dm_docker := d\<rparr>
                    in (case r of
                          Inl _ \<Rightarrow> ensureNetwork_byName K m
                        | Inr self \<Rightarrow>
                            (case pickDriverNetwork (cn_Networks self) of
                               Some (i, n) \<Rightarrow> (set_network i m, None)
                             | None \<Rightarrow> ensureNetwork_byName K m)))))"

fun pull_attempts :: "'d docker \<Rightarrow> string \<Rightarrow> nat \<Rightarrow> 'd \<Rightarrow> 'd \<times> string option" where
  "pull_attempts K img 0 d = (d, Some ''ERR_DRIVER_IMAGE_PULL: failed to pull image'')"
| "pull_attempts K img (Suc n) d =
     (case ImagePull K img d of
        (d, Pulled) \<Rightarrow> (d, None)
      | (d, PullRefused e) \<Rightarrow>
          if n = 0 then (d, Some (''ERR_DRIVER_IMAGE_PULL: failed to pull image: '' @ e)) else pull_attempts K img n d
      | (d, StreamBroken e) \<Rightarrow> pull_attempts K img n d)"

definition pullImageWithRetry :: "'d docker \<Rightarrow> string \<Rightarrow> 'd \<Rightarrow> 'd \<times> string option" where
  "pullImageWithRetry K img d =
     (case ImageInspect K img d of
        (d, True) \<Rightarrow> (d, None)
      | (d, False) \<Rightarrow> pull_attempts K img maxPullRetries d)"

section \<open>Adopting a container\<close>

definition optionalDriverEnv :: "string list" where "optionalDriverEnv = [''DB_MAX_OPEN_CONNS'']"

text \<open>\<open>strings.Cut\<close> at the first \<open>=\<close>; a later variable of the same name replaces an earlier one.\<close>

definition cut_env :: "string \<Rightarrow> string \<times> string" where
  "cut_env kv = (takeWhile (\<lambda>c. c \<noteq> CHR ''='') kv, drop 1 (dropWhile (\<lambda>c. c \<noteq> CHR ''='') kv))"

definition parse_env :: "string list \<Rightarrow> string \<rightharpoonup> string" where
  "parse_env env = fold (\<lambda>kv m. let (k, v) = cut_env kv in m(k \<mapsto> v)) env Map.empty"

definition envDrift :: "string list \<Rightarrow> string list \<Rightarrow> string list" where
  "envDrift have want =
     sort (filter (\<lambda>k. parse_env have k \<noteq> parse_env want k) (remdups (map (fst \<circ> cut_env) want @ optionalDriverEnv)))"

definition onNetwork :: "inspect_response \<Rightarrow> string \<Rightarrow> bool" where
  "onNetwork c networkID \<longleftrightarrow> list_ex (\<lambda>(n, ep). ep = Some networkID) (cn_Networks c) \<or> cn_NetworkMode c = networkID"

fun join_sep :: "string \<Rightarrow> string list \<Rightarrow> string" where
  "join_sep sep [] = []"
| "join_sep sep [s] = s"
| "join_sep sep (s # ss) = s @ sep @ join_sep sep ss"

definition adoptMismatch :: "inspect_response \<Rightarrow> string \<Rightarrow> string \<Rightarrow> string list \<Rightarrow> string" where
  "adoptMismatch c img networkID want =
     (if ci_Incomplete c then ''incomplete inspect''
      else if \<not> cn_Running c then ''not running''
      else if cn_Image c \<noteq> img then ''image '' @ cn_Image c @ '', want '' @ img
      else if networkID \<noteq> '''' \<and> \<not> onNetwork c networkID then ''not on the manager'' @ [CHR 0x27] @ ''s network''
      else if envDrift (cn_Env c) want \<noteq> [] then ''environment changed: '' @ join_sep '', '' (envDrift (cn_Env c) want)
      else '''')"

section \<open>Starting and stopping\<close>

definition publishGatewayStatus :: "gotime \<Rightarrow> int \<Rightarrow> string \<Rightarrow> string \<Rightarrow> 'd manager_state \<Rightarrow> 'd manager_state" where
  "publishGatewayStatus now gatewayID status errorMsg m =
     (let st = \<lparr>gst_GatewayID = gatewayID, gst_Status = status, gst_ContainerID = '''', gst_Error = errorMsg,
                gst_Timestamp = now_ms now, gst_DriverType = ''''\<rparr>;
          st = (case dm_states m gatewayID of
                  None \<Rightarrow> st
                | Some s \<Rightarrow> st\<lparr>gst_DriverType := g_DriverType (gs_Gateway s), gst_ContainerID := gs_ContainerID s\<rparr>)
      in m\<lparr>dm_sent := dm_sent m @ [(Health (dm_orgID m) gatewayID, st)]\<rparr>)"

definition put_state :: "int \<Rightarrow> GatewayState \<Rightarrow> 'd manager_state \<Rightarrow> 'd manager_state" where
  "put_state i s m = m\<lparr>dm_states := (dm_states m)(i \<mapsto> s)\<rparr>"

definition running_state :: "gateway \<Rightarrow> string \<Rightarrow> GatewayState" where
  "running_state g cid = \<lparr>gs_Gateway = g, gs_ContainerID = cid, gs_Running = True, gs_ConsecutiveErrors = 0, gs_LastError = '''',
     gs_LastErrorTime = 0\<rparr>"

definition container_name :: "string \<Rightarrow> int \<Rightarrow> string" where
  "container_name prefix gatewayID = prefix @ CHR ''-'' # itoa gatewayID"

definition driver_env :: "(string \<Rightarrow> string) \<Rightarrow> int \<Rightarrow> int \<Rightarrow> string list" where
  "driver_env getenv orgID gatewayID =
     [''GATEWAY_ID='' @ itoa gatewayID,
      ''DB_HOST='' @ getEnv getenv ''DB_HOST'' ''postgres'',
      ''DB_PORT='' @ getEnv getenv ''DB_PORT'' ''5432'',
      ''DB_USER='' @ getEnv getenv ''DB_USER'' ''industrial_user'',
      ''DB_PASSWORD='' @ getEnv getenv ''DB_PASSWORD'' ''industrial_pass'',
      ''DB_NAME='' @ getEnv getenv ''DB_NAME'' ''industrial_edge'',
      ''MQTT_HOST='' @ getEnv getenv ''MQTT_HOST'' ''mosquitto'',
      ''MQTT_PORT='' @ getEnv getenv ''MQTT_PORT'' ''1883'',
      ''MQTT_USERNAME='' @ getEnv getenv ''MQTT_USERNAME'' '''',
      ''MQTT_PASSWORD='' @ getEnv getenv ''MQTT_PASSWORD'' '''',
      ''SPARKPLUG_ENABLED=true'',
      ''ORG_ID='' @ itoa orgID,
      ''TZ='' @ getEnv getenv ''TZ'' ''Europe/Rome''] @
     (if getEnv getenv ''DRIVER_DB_MAX_OPEN_CONNS'' '''' \<noteq> ''''
      then [''DB_MAX_OPEN_CONNS='' @ getEnv getenv ''DRIVER_DB_MAX_OPEN_CONNS'' ''''] else [])"

text \<open>Creating and starting a container under its name; the error is also published.\<close>

definition create_and_start :: "'d manager_env \<Rightarrow> gotime \<Rightarrow> gateway \<Rightarrow> container_spec \<Rightarrow> string \<Rightarrow> 'd manager_state \<Rightarrow> 'd manager_state \<times> string option" where
  "create_and_start E now g spec containerName m =
     (let K = me_docker E; (d, r) = ContainerCreate K spec containerName (dm_docker m); m = m\<lparr>dm_docker := d\<rparr>
      in (case r of
            Inl e \<Rightarrow>
              (publishGatewayStatus now (g_ID g) ''error'' (''ERR_DRIVER_CREATE: failed to create container: '' @ e) m,
               Some (''failed to create container: '' @ e))
          | Inr cid \<Rightarrow>
              (let (d, r) = ContainerStart K cid (dm_docker m); m = m\<lparr>dm_docker := d\<rparr>
               in (case r of
                     Some e \<Rightarrow>
                       (let m = m\<lparr>dm_docker := fst (ContainerRemove K cid False (dm_docker m))\<rparr>
                        in (publishGatewayStatus now (g_ID g) ''error'' (''ERR_DRIVER_START: failed to start container: '' @ e) m,
                            Some (''failed to start container: '' @ e)))
                   | None \<Rightarrow>
                       (publishGatewayStatus now (g_ID g) ''online'' '''' (put_state (g_ID g) (running_state g cid) m), None)))))"

definition driver_spec :: "'d manager_env \<Rightarrow> gateway \<Rightarrow> 'd manager_state \<Rightarrow> container_spec" where
  "driver_spec E g m =
     \<lparr>sp_Image = imageNameForDriver (me_getenv E) (g_DriverType g), sp_Env = driver_env (me_getenv E) (dm_orgID m) (g_ID g),
      sp_RestartPolicy = ''always'', sp_NanoCPUs = fst (driverResourceLimits (g_DriverType g)),
      sp_Memory = snd (driverResourceLimits (g_DriverType g)), sp_NetworkMode = dm_networkID m\<rparr>"

definition startGatewayContainer :: "'d manager_env \<Rightarrow> gotime \<Rightarrow> gateway \<Rightarrow> 'd manager_state \<Rightarrow> 'd manager_state \<times> string option" where
  "startGatewayContainer E now g m =
     (case driverServices (g_DriverType g) of
        None \<Rightarrow> (m, Some (''unsupported driver type: '' @ g_DriverType g))
      | Some prefix \<Rightarrow>
          (let containerName = container_name prefix (g_ID g); K = me_docker E; (m, net) = ensureNetwork E m
           in (case net of
                 Some e \<Rightarrow> (m, Some (''network verification failed: '' @ e))
               | None \<Rightarrow>
                   (let spec = driver_spec E g m;
                        (d, r) = ContainerInspect K containerName (dm_docker m); m = m\<lparr>dm_docker := d\<rparr>
                    in (case r of
                          Inl _ \<Rightarrow> create_and_start E now g spec containerName m
                        | Inr inspect \<Rightarrow>
                            (if adoptMismatch inspect (sp_Image spec) (dm_networkID m) (sp_Env spec) = ''''
                             then (publishGatewayStatus now (g_ID g) ''online'' ''''
                                     (put_state (g_ID g) (running_state g (cn_ID inspect)) m), None)
                             else create_and_start E now g spec containerName
                                    (m\<lparr>dm_docker := fst (ContainerRemove K containerName True (dm_docker m))\<rparr>)))))))"

text \<open>An answer that lacks the state would make the manager panic here; Docker's client never gives one.\<close>

definition isContainerRunning :: "'d docker \<Rightarrow> string \<Rightarrow> 'd \<Rightarrow> 'd \<times> (string + bool)" where
  "isContainerRunning K cid d =
     (case ContainerInspect K cid d of
        (d, Inl e) \<Rightarrow> (d, Inl e)
      | (d, Inr c) \<Rightarrow> (d, Inr (cn_Running c)))"

definition stopGatewayContainer :: "'d manager_env \<Rightarrow> gotime \<Rightarrow> int \<Rightarrow> 'd manager_state \<Rightarrow> 'd manager_state \<times> string option" where
  "stopGatewayContainer E now i m =
     (case dm_states m i of
        None \<Rightarrow> (m, Some (''no state found for gateway '' @ itoa i))
      | Some s \<Rightarrow>
          (if \<not> gs_Running s then (m, None)
           else (let K = me_docker E; (d, r) = ContainerStop K (gs_ContainerID s) (dm_docker m); m = m\<lparr>dm_docker := d\<rparr>
                 in (case r of
                       NotFound \<Rightarrow> (put_state i (s\<lparr>gs_Running := False\<rparr>) m, None)
                     | StopFailed e \<Rightarrow> (m, Some (''failed to stop container: '' @ e))
                     | Stopped \<Rightarrow>
                         (let m = m\<lparr>dm_docker := fst (ContainerRemove K (gs_ContainerID s) False (dm_docker m))\<rparr>
                          in (put_state i (s\<lparr>gs_Running := False\<rparr>) (publishGatewayStatus now i ''offline'' '''' m), None))))))"

text \<open>At shutdown the containers are stopped, not removed, and no state changes.\<close>

definition stop_running :: "'d manager_env \<Rightarrow> int \<Rightarrow> 'd manager_state \<Rightarrow> 'd manager_state" where
  "stop_running E i m =
     (case dm_states m i of
        None \<Rightarrow> m
      | Some s \<Rightarrow> if gs_Running s then m\<lparr>dm_docker := fst (ContainerStop (me_docker E) (gs_ContainerID s) (dm_docker m))\<rparr> else m)"

definition stopAllContainers :: "'d manager_env \<Rightarrow> int list \<Rightarrow> 'd manager_state \<Rightarrow> 'd manager_state" where
  "stopAllContainers E ord m = fold (stop_running E) ord m"

section \<open>Synchronizing with the database\<close>

text \<open>
  A row of the query: the columns the manager reads, and the organization (zero when the area or site is
  missing).  \<open>sf_cut\<close> is the number of rows read before the connection broke, when it did: the loop over
  the rows ends then as if it had reached the last one.
\<close>

record sync_faults =
  sf_query :: bool
  sf_scan :: bool
  sf_cut :: "nat option"
  sf_boxes :: "statement \<Rightarrow> bool"
  sf_mark :: bool

definition sync_row :: "edge_db \<Rightarrow> gateway \<Rightarrow> gateway \<times> int" where
  "sync_row db g = (g\<lparr>g_ConnectionConfig := Map.empty, g_ZeroBased := False\<rparr>, (case gateway_org db g of None \<Rightarrow> 0 | Some org \<Rightarrow> org))"

definition sync_query :: "sync_faults \<Rightarrow> edge_db \<Rightarrow> string + (gateway \<times> int) list" where
  "sync_query F db =
     (if sf_query F then Inl ''ERR_DB_QUERY: failed to query gateways''
      else if sf_scan F then Inl ''failed to scan gateway''
      else let rows = map (sync_row db) (db_gateways db)
           in Inr (case sf_cut F of None \<Rightarrow> rows | Some n \<Rightarrow> take n rows))"

definition ownedByServer :: "gateway list \<Rightarrow> (int \<Rightarrow> int) \<Rightarrow> (int \<Rightarrow> Box list) \<Rightarrow> gateway list" where
  "ownedByServer gateways orgs boxesByOrg = filter (\<lambda>g. Owner g (boxesByOrg (orgs (g_ID g))) = Server) gateways"

definition serverOwned :: "sync_faults \<Rightarrow> edge_db \<Rightarrow> gateway list \<Rightarrow> (int \<Rightarrow> int) \<Rightarrow> apply_error + gateway list" where
  "serverOwned F db gateways orgs = bind_ok (LoadAllBoxes (sf_boxes F) db) (\<lambda>boxes. Inr (ownedByServer gateways orgs boxes))"

text \<open>The organization of a gateway by its identifier, the last row winning, zero for the others.\<close>

definition orgs_of :: "(gateway \<times> int) list \<Rightarrow> int \<Rightarrow> int" where
  "orgs_of rows i = fold (\<lambda>(g, org) acc. if g_ID g = i then org else acc) rows 0"

definition prepull :: "'d manager_env \<Rightarrow> gotime \<Rightarrow> gateway \<Rightarrow> 'd manager_state \<Rightarrow> 'd manager_state" where
  "prepull E now g m =
     (let img = imageNameForDriver (me_getenv E) (g_DriverType g)
      in if \<not> g_Enabled g \<or> img = '''' then m
         else (let fail = (case dm_pullFailures m img of None \<Rightarrow> \<lparr>pf_failures = 0, pf_nextTry = 0\<rparr> | Some f \<Rightarrow> f)
               in if dm_pullFailures m img \<noteq> None \<and> now < pf_nextTry fail then m
                  else (let (d, r) = pullImageWithRetry (me_docker E) img (dm_docker m); m = m\<lparr>dm_docker := d\<rparr>
                        in (case r of
                              None \<Rightarrow> m\<lparr>dm_pullFailures := (dm_pullFailures m)(img := None)\<rparr>
                            | Some e \<Rightarrow>
                                (let fail = fail\<lparr>pf_failures := pf_failures fail + 1\<rparr>;
                                     fail = fail\<lparr>pf_nextTry := now + failureCooldown (pf_failures fail)\<rparr>
                                 in m\<lparr>dm_pullFailures := (dm_pullFailures m)(img \<mapsto> fail)\<rparr>)))))"

text \<open>A container that is believed to run is inspected; if that fails it counts as not running.\<close>

definition verify_running :: "'d manager_env \<Rightarrow> int \<Rightarrow> 'd manager_state \<Rightarrow> 'd manager_state" where
  "verify_running E i m =
     (case dm_states m i of
        None \<Rightarrow> m
      | Some s \<Rightarrow>
          (if \<not> gs_Running s then m
           else (let (d, r) = isContainerRunning (me_docker E) (gs_ContainerID s) (dm_docker m); m = m\<lparr>dm_docker := d\<rparr>
                 in if r = Inr True then m else put_state i (s\<lparr>gs_Running := False\<rparr>) m)))"

definition in_cooldown :: "gotime \<Rightarrow> GatewayState option \<Rightarrow> bool" where
  "in_cooldown now st = (case st of
     None \<Rightarrow> False
   | Some s \<Rightarrow> gs_ConsecutiveErrors s \<ge> maxStartRetries \<and>
       Sub now (gs_LastErrorTime s) < failureCooldown (gs_ConsecutiveErrors s - maxStartRetries + 1))"

definition start_failed :: "gotime \<Rightarrow> gateway \<Rightarrow> string \<Rightarrow> 'd manager_state \<Rightarrow> 'd manager_state" where
  "start_failed now g err m =
     (let s = (case dm_states m (g_ID g) of
                 None \<Rightarrow> (running_state g '''')\<lparr>gs_Running := False\<rparr>
               | Some s \<Rightarrow> s);
          s = s\<lparr>gs_ConsecutiveErrors := gs_ConsecutiveErrors s + 1, gs_LastError := err, gs_LastErrorTime := now\<rparr>;
          m = put_state (g_ID g) s m
      in if gs_ConsecutiveErrors s \<ge> maxStartRetries
         then publishGatewayStatus now (g_ID g) ''error'' (''Exceeded max retries. Last error: '' @ err) m else m)"

definition sync_gateway :: "'d manager_env \<Rightarrow> gotime \<Rightarrow> gateway \<Rightarrow> 'd manager_state \<Rightarrow> 'd manager_state" where
  "sync_gateway E now g m =
     (let m = verify_running E (g_ID g) m; st = dm_states m (g_ID g);
          running = (case st of None \<Rightarrow> False | Some s \<Rightarrow> gs_Running s)
      in if g_Enabled g
         then (if running \<or> in_cooldown now st then m
               else (case startGatewayContainer E now g m of
                       (m, None) \<Rightarrow> m
                     | (m, Some err) \<Rightarrow> start_failed now g err m))
         else if running then fst (stopGatewayContainer E now (g_ID g) m) else m)"

definition drop_gateway :: "'d manager_env \<Rightarrow> gotime \<Rightarrow> int set \<Rightarrow> int \<Rightarrow> 'd manager_state \<Rightarrow> 'd manager_state" where
  "drop_gateway E now processed i m =
     (if i \<in> processed then m
      else (case dm_states m i of
              None \<Rightarrow> m
            | Some s \<Rightarrow>
                (let (m, err) = (if gs_Running s then stopGatewayContainer E now i m else (m, None))
                 in if err \<noteq> None then m else m\<lparr>dm_states := (dm_states m)(i := None)\<rparr>)))"

text \<open>\<open>ord\<close> is the order in which the map of states is ranged over at the end.\<close>

definition sync_containers :: "'d manager_env \<Rightarrow> gotime \<Rightarrow> int list \<Rightarrow> gateway list \<Rightarrow> 'd manager_state \<Rightarrow> 'd manager_state" where
  "sync_containers E now ord gateways m =
     (let m = fold (prepull E now) gateways m; m = fold (sync_gateway E now) gateways m
      in fold (drop_gateway E now (set (map g_ID gateways))) ord m)"

definition syncGateways :: "'d manager_env \<Rightarrow> gotime \<Rightarrow> sync_faults \<Rightarrow> int list \<Rightarrow> 'd manager_state \<Rightarrow> 'd manager_state \<times> string option" where
  "syncGateways E now F ord m =
     (case sync_query F (dm_db m) of
        Inl e \<Rightarrow> (if sf_query F then m\<lparr>dm_consecutiveErrors := dm_consecutiveErrors m + 1\<rparr> else m, Some e)
      | Inr rows \<Rightarrow>
          (let gateways = map fst rows
           in if dm_onBox m then (sync_containers E now ord gateways m, None)
              else (case serverOwned F (dm_db m) gateways (orgs_of rows) of
                      Inl e \<Rightarrow> (m\<lparr>dm_consecutiveErrors := dm_consecutiveErrors m + 1\<rparr>, Some ''ERR_DB_QUERY: reading the boxes'')
                    | Inr owned \<Rightarrow>
                        (let m = (if sf_mark F then m else m\<lparr>dm_db := MarkServerPolling (now_ms now) (dm_db m)\<rparr>)
                         in (sync_containers E now ord owned m, None)))))"

text \<open>One tick of the poll loop; \<open>reconnected\<close> is the database after a reconnection, when that succeeds.\<close>

definition pollLoop_tick :: "'d manager_env \<Rightarrow> gotime \<Rightarrow> sync_faults \<Rightarrow> int list \<Rightarrow> bool \<Rightarrow> 'd manager_state \<Rightarrow> 'd manager_state" where
  "pollLoop_tick E now F ord reconnected m =
     (case syncGateways E now F ord m of
        (m, None) \<Rightarrow> m\<lparr>dm_consecutiveErrors := 0\<rparr>
      | (m, Some e) \<Rightarrow>
          (let m = m\<lparr>dm_consecutiveErrors := dm_consecutiveErrors m + 1\<rparr>
           in if dm_consecutiveErrors m \<ge> 3 \<and> reconnected then m\<lparr>dm_consecutiveErrors := 0\<rparr> else m))"

section \<open>Commands over MQTT\<close>

text \<open>
  A handler is one step: that an update releases the lock between stopping and starting a container is not
  modelled.
\<close>

definition restartable :: "int list \<Rightarrow> 'd manager_state \<Rightarrow> gateway list" where
  "restartable ord m = List.map_filter (\<lambda>i. case dm_states m i of
     None \<Rightarrow> None
   | Some s \<Rightarrow> if gs_Running s \<and> g_Enabled (gs_Gateway s) then Some (gs_Gateway s) else None) ord"

definition restart_gateway :: "'d manager_env \<Rightarrow> gotime \<Rightarrow> gateway \<Rightarrow> 'd manager_state \<Rightarrow> 'd manager_state" where
  "restart_gateway E now g m = fst (startGatewayContainer E now g (fst (stopGatewayContainer E now (g_ID g) m)))"

definition handleOTARestart :: "'d manager_env \<Rightarrow> gotime \<Rightarrow> int \<Rightarrow> string \<Rightarrow> int list \<Rightarrow> 'd manager_state \<Rightarrow> 'd manager_state" where
  "handleOTARestart E now myAgentID topic ord m =
     (if \<not> commandIsForThisBox myAgentID topic (dm_orgID m) then m
      else fold (restart_gateway E now) (restartable ord m) m)"

text \<open>\<open>UU\<close> is \<open>json.Unmarshal\<close> into an object with \<open>version\<close> and \<open>image\<close>.\<close>

definition handleOTAUpdate ::
  "'d manager_env \<Rightarrow> (bytes \<Rightarrow> (string \<times> string) option) \<Rightarrow> gotime \<Rightarrow> string \<Rightarrow> bytes \<Rightarrow> int list \<Rightarrow> 'd manager_state \<Rightarrow> 'd manager_state" where
  "handleOTAUpdate E UU now topic payload ord m =
     (case UU payload of
        None \<Rightarrow> m
      | Some (version, img) \<Rightarrow>
          (if img = '''' \<or> version = '''' then m
           else let prefix = getEnv (me_getenv E) ''OTA_IMAGE_PREFIX'' ''ghcr.io/inferis995/''
                in if take (length prefix) img \<noteq> prefix then m
                   else (case ImagePull (me_docker E) img (dm_docker m) of
                           (d, PullRefused e) \<Rightarrow> m\<lparr>dm_docker := d\<rparr>
                         | (d, _) \<Rightarrow> (let m = m\<lparr>dm_docker := d\<rparr> in fold (restart_gateway E now) (restartable ord m) m))))"

end
