(* ===== verification/Edge_Apply.thy ===== *)
theory Edge_Apply
  imports Edge_Config
begin

text \<open>
  What applying a configuration does to the box's database (\<open>internal/edgesync/apply.go\<close>): it keeps the
  constraints of the schema, makes the rows of the organization those of the configuration, succeeds on
  every configuration that is closed under its references, and changes nothing the second time.
\<close>

section \<open>Array literals\<close>

lemma itoa_no_comma: "CHR '','' \<notin> set (itoa i)"
  using itoa_chars[of "CHR '',''" i] by (auto simp: is_digit_def)

lemma split_join_commas:
  "xs \<noteq> [] \<Longrightarrow> list_all (\<lambda>s. CHR '','' \<notin> set s) xs \<Longrightarrow> split_on CHR '','' (join_commas xs) = xs"
  by (induction xs rule: join_commas.induct) (auto simp: split_on_no_sep split_on_append)

lemma join_commas_nonempty: "xs \<noteq> [] \<Longrightarrow> hd xs \<noteq> [] \<Longrightarrow> join_commas xs \<noteq> []"
  by (cases xs rule: join_commas.cases) auto

lemma read_array_Value:
  assumes "list_all is_int64 keep"
  shows "read_array (pqInt64Array_Value keep) = keep"
proof (cases "keep = []")
  case False
  let ?j = "join_commas (map itoa keep)"
  have "?j \<noteq> []" using False by (intro join_commas_nonempty) (auto simp: hd_map)
  then have "CHR ''{'' # ?j @ ''}'' \<noteq> ''{}''" by auto
  moreover have "split_on CHR '','' ?j = map itoa keep"
    using False by (intro split_join_commas) (auto simp: list_all_iff itoa_no_comma)
  moreover have "map (\<lambda>p. the (Atoi p)) (map itoa keep) = keep"
    using assms by (induction keep) (auto simp: is_int64_def Atoi_itoa)
  ultimately show ?thesis using False by (simp add: read_array_def pqInt64Array_Value_def butlast_append)
qed (simp add: read_array_def pqInt64Array_Value_def)

lemma any_of_Value: "list_all is_int64 keep \<Longrightarrow> any_of i (pqInt64Array_Value keep) \<longleftrightarrow> i \<in> set keep"
  by (simp add: any_of_def read_array_Value)

section \<open>Constraints of the schema\<close>

definition integrity :: "edge_db \<Rightarrow> bool" where
  "integrity db \<longleftrightarrow>
     keyed fst (db_organizations db) \<and> distinct (map snd (db_organizations db)) \<and>
     keyed st_ID (db_sites db) \<and> list_all (\<lambda>s. has_key fst (db_organizations db) (st_OrgID s)) (db_sites db) \<and>
     keyed ar_ID (db_areas db) \<and> list_all (\<lambda>a. has_key st_ID (db_sites db) (ar_SiteID a)) (db_areas db) \<and>
     keyed g_ID (db_gateways db) \<and>
     list_all (\<lambda>g. has_key ar_ID (db_areas db) (g_AreaID g) \<and> g_DriverType g \<in> set driver_types) (db_gateways db) \<and>
     keyed tg_ID (db_tags db) \<and>
     list_all (\<lambda>t. has_key g_ID (db_gateways db) (tg_GatewayID t) \<and> tg_DataType t \<in> set tag_types) (db_tags db) \<and>
     keyed ad_ID (db_alarms db) \<and> list_all (\<lambda>a. has_key tg_ID (db_tags db) (ad_TagID a)) (db_alarms db)"

interpretation org: keyed_update "fst :: int \<times> string \<Rightarrow> int" replace_row by (rule keyed_update_replace)
interpretation site: keyed_update st_ID replace_row by (rule keyed_update_replace)
interpretation area: keyed_update ar_ID replace_row by (rule keyed_update_replace)
interpretation gw: keyed_update g_ID write_gateway by unfold_locales (simp add: write_gateway_def)
interpretation tagt: keyed_update "tg_ID :: config_tag \<Rightarrow> int" replace_row by (rule keyed_update_replace)
interpretation alarm: keyed_update ad_ID replace_row by (rule keyed_update_replace)

lemma upsert_list_all:
  "list_all P rows \<Longrightarrow> P r \<Longrightarrow> (\<And>x. P (upd x r)) \<Longrightarrow> list_all P (upsert key upd r rows)"
  by (induction rows) auto

lemma list_all_weaken: "list_all P xs \<Longrightarrow> (\<And>x. P x \<Longrightarrow> Q x) \<Longrightarrow> list_all Q xs"
  by (simp add: list_all_iff)

lemma exec_Inr: "exec fails st allowed f db = Inr db' \<longleftrightarrow> \<not> fails st \<and> allowed db \<and> db' = f db"
  by (auto simp: exec_def)

lemma upsert_name_set: "n' \<in> snd ` set (upsert fst replace_row (k, name) rows) \<Longrightarrow> n' = name \<or> n' \<in> snd ` set rows"
  by (induction rows) (auto simp: replace_row_def split: if_splits)

lemma upsert_names:
  assumes "distinct (map snd rows)" "list_all (\<lambda>(i, n). n = name \<longrightarrow> i = k) rows" "keyed fst rows"
  shows "distinct (map snd (upsert fst replace_row (k, name) rows))"
  using assms
proof (induction rows)
  case (Cons r rows)
  obtain i n where r: "r = (i, n)" by fastforce
  have IH: "distinct (map snd (upsert fst replace_row (k, name) rows))" using Cons by (simp add: keyed_Cons)
  have n: "n \<notin> snd ` set rows" "i \<noteq> k \<Longrightarrow> n \<noteq> name" using Cons.prems r by auto
  have "i = k \<Longrightarrow> name \<notin> snd ` set rows" using Cons.prems r by (auto simp: list_all_iff keyed_def)
  then show ?case
  proof (cases "i = k")
    case True
    have "upsert fst replace_row (k, name) (r # rows) = (k, name) # rows" using True r by (simp add: replace_row_def)
    with \<open>i = k \<Longrightarrow> name \<notin> snd ` set rows\<close> True Cons.prems(1) show ?thesis by simp
  next
    case False
    with upsert_name_set[of n k name rows] n IH r show ?thesis by auto
  qed
qed simp

lemma integrity_applyOrg: "integrity db \<Longrightarrow> applyOrg fails cfg db = Inr db' \<Longrightarrow> integrity db'"
  by (auto simp: applyOrg_def exec_Inr integrity_def org.has_key_upsert org.keyed_upsert upsert_names elim: list_all_weaken)

lemma integrity_insertSite: "integrity db \<Longrightarrow> insertSite fails s db = Inr db' \<Longrightarrow> integrity db'"
  by (auto simp: insertSite_def exec_Inr integrity_def site.has_key_upsert site.keyed_upsert replace_row_def
      intro!: upsert_list_all elim: list_all_weaken)

lemma integrity_insertArea: "integrity db \<Longrightarrow> insertArea fails a db = Inr db' \<Longrightarrow> integrity db'"
  by (auto simp: insertArea_def exec_Inr integrity_def area.has_key_upsert area.keyed_upsert replace_row_def
      intro!: upsert_list_all elim: list_all_weaken)

lemma integrity_insertGateway: "integrity db \<Longrightarrow> insertGateway fails g db = Inr db' \<Longrightarrow> integrity db'"
  by (auto simp: insertGateway_def exec_Inr integrity_def gw.has_key_upsert gw.keyed_upsert write_gateway_def
      intro!: upsert_list_all elim: list_all_weaken)

lemma integrity_insertTag: "integrity db \<Longrightarrow> insertTag fails t db = Inr db' \<Longrightarrow> integrity db'"
  by (auto simp: insertTag_def exec_Inr integrity_def tagt.has_key_upsert tagt.keyed_upsert replace_row_def
      intro!: upsert_list_all elim: list_all_weaken)

lemma integrity_insertAlarm: "integrity db \<Longrightarrow> insertAlarm fails a db = Inr db' \<Longrightarrow> integrity db'"
  by (auto simp: insertAlarm_def exec_Inr integrity_def alarm.has_key_upsert alarm.keyed_upsert replace_row_def
      intro!: upsert_list_all elim: list_all_weaken)

text \<open>What holds before the deletes remove the rows that refer to a deleted one.\<close>

definition upper_integrity :: "edge_db \<Rightarrow> bool" where
  "upper_integrity db \<longleftrightarrow> integrity (db\<lparr>db_tags := [], db_alarms := []\<rparr>) \<and> keyed tg_ID (db_tags db) \<and> keyed ad_ID (db_alarms db) \<and>
     list_all (\<lambda>t. tg_DataType t \<in> set tag_types) (db_tags db)"

lemma integrity_cascade: "upper_integrity db \<Longrightarrow> integrity (cascade db)"
  by (auto simp: upper_integrity_def integrity_def cascade_def Let_def keyed_filter keyed_def distinct_map_filter list_all_iff)

lemma cascade_id: "integrity db \<Longrightarrow> cascade db = db"
proof -
  assume "integrity db"
  then have "filter (\<lambda>t. has_key g_ID (db_gateways db) (tg_GatewayID t)) (db_tags db) = db_tags db"
    and "filter (\<lambda>a. has_key tg_ID (db_tags db) (ad_TagID a)) (db_alarms db) = db_alarms db"
    by (auto simp: integrity_def list_all_iff filter_id_conv)
  then show ?thesis by (simp add: cascade_def)
qed

lemma upper_integrity: "integrity db \<Longrightarrow> upper_integrity db"
  by (auto simp: upper_integrity_def integrity_def list_all_iff keyed_def)

lemma upper_delete:
  assumes "integrity db"
  shows "upper_integrity (delete_gateways o1 gone db)" "upper_integrity (delete_tags o1 gone db)" "upper_integrity (delete_alarms o1 gone db)"
  using assms by (auto simp: upper_integrity_def integrity_def delete_gateways_def delete_tags_def delete_alarms_def keyed_def
      distinct_map_filter list_all_iff)

lemma integrity_deleteMissing:
  assumes "deleteMissing fails st del keep db = Inr db'" "\<And>gone. upper_integrity (del gone db)"
  shows "integrity db'"
  using assms by (auto simp: deleteMissing_def Let_def exec_Inr integrity_cascade)

lemma integrity_settings: "integrity (db\<lparr>db_settings := s\<rparr>) = integrity db" "integrity (db\<lparr>db_seqs := q\<rparr>) = integrity db"
  by (simp_all add: integrity_def)

lemma integrity_applySettings: "integrity db \<Longrightarrow> applySettings fails cfg db = Inr db' \<Longrightarrow> integrity db'"
  by (auto simp: applySettings_def exec_Inr integrity_settings split: if_splits)

lemma integrity_pruneSequences: "integrity db \<Longrightarrow> pruneSequences fails db = Inr db' \<Longrightarrow> integrity db'"
  unfolding pruneSequences_def
  by (erule fold_ok_invariant) (auto simp: moveSequence_def exec_Inr integrity_settings)

lemmas integrity_fold = fold_ok_invariant[where P = integrity, rotated 2]

lemma integrity_applyHierarchy: "integrity db \<Longrightarrow> applyHierarchy fails cfg db = Inr db' \<Longrightarrow> integrity db'"
  unfolding applyHierarchy_def bind_ok_Inr_iff by (metis integrity_fold integrity_insertSite integrity_insertArea)

lemma integrity_applyGateways: "integrity db \<Longrightarrow> applyGateways fails cfg db = Inr db' \<Longrightarrow> integrity db'"
  unfolding applyGateways_def bind_ok_Inr_iff
  by (metis integrity_fold integrity_insertGateway integrity_deleteMissing upper_delete(1))

lemma integrity_applyTags: "integrity db \<Longrightarrow> applyTags fails cfg db = Inr db' \<Longrightarrow> integrity db'"
  unfolding applyTags_def bind_ok_Inr_iff
  by (metis integrity_fold integrity_insertTag integrity_deleteMissing upper_delete(2))

lemma integrity_applyAlarms: "integrity db \<Longrightarrow> applyAlarms fails cfg db = Inr db' \<Longrightarrow> integrity db'"
  unfolding applyAlarms_def bind_ok_Inr_iff
  by (metis integrity_fold integrity_insertAlarm integrity_deleteMissing upper_delete(3))

lemma integrity_apply_statements: "integrity db \<Longrightarrow> apply_statements fails cfg db = Inr db' \<Longrightarrow> integrity db'"
  unfolding apply_statements_def bind_ok_Inr_iff
  by (metis integrity_applyOrg integrity_applyHierarchy integrity_applyGateways integrity_applyTags integrity_applyAlarms
      integrity_applySettings integrity_pruneSequences)

section \<open>The rows a configuration leaves\<close>

lemma sites_result:
  "fold_ok (insertSite fails) ss db = Inr db' \<Longrightarrow> db' = db\<lparr>db_sites := fold (upsert st_ID replace_row) ss (db_sites db)\<rparr>"
  by (drule fold_ok_component[where put = "\<lambda>v db. db\<lparr>db_sites := v\<rparr>" and get = db_sites]) (auto simp: insertSite_def exec_Inr)

lemma areas_result:
  "fold_ok (insertArea fails) as db = Inr db' \<Longrightarrow> db' = db\<lparr>db_areas := fold (upsert ar_ID replace_row) as (db_areas db)\<rparr>"
  by (drule fold_ok_component[where put = "\<lambda>v db. db\<lparr>db_areas := v\<rparr>" and get = db_areas]) (auto simp: insertArea_def exec_Inr)

definition unassigned :: "gateway \<Rightarrow> gateway" where
  "unassigned g = g\<lparr>g_EdgeAgentID := None\<rparr>"

lemma gateways_result:
  "fold_ok (insertGateway fails) gs db = Inr db' \<Longrightarrow>
    db' = db\<lparr>db_gateways := fold (upsert g_ID write_gateway) (map unassigned gs) (db_gateways db)\<rparr>"
  by (drule fold_ok_component[where put = "\<lambda>v db. db\<lparr>db_gateways := v\<rparr>" and get = db_gateways
        and g = "\<lambda>g. upsert g_ID write_gateway (unassigned g)"])
    (auto simp: insertGateway_def exec_Inr unassigned_def fold_map comp_def)

lemma tags_result:
  "fold_ok (insertTag fails) ts db = Inr db' \<Longrightarrow> db' = db\<lparr>db_tags := fold (upsert tg_ID replace_row) ts (db_tags db)\<rparr>"
  by (drule fold_ok_component[where put = "\<lambda>v db. db\<lparr>db_tags := v\<rparr>" and get = db_tags]) (auto simp: insertTag_def exec_Inr)

lemma alarms_result:
  "fold_ok (insertAlarm fails) as db = Inr db' \<Longrightarrow> db' = db\<lparr>db_alarms := fold (upsert ad_ID replace_row) as (db_alarms db)\<rparr>"
  by (drule fold_ok_component[where put = "\<lambda>v db. db\<lparr>db_alarms := v\<rparr>" and get = db_alarms]) (auto simp: insertAlarm_def exec_Inr)

lemma deleteMissing_result:
  "deleteMissing fails st del keep db = Inr db' \<Longrightarrow> list_all is_int64 keep \<Longrightarrow> db' = cascade (del (\<lambda>i. i \<notin> set keep) db)"
  by (auto simp: deleteMissing_def Let_def exec_Inr any_of_Value)

text \<open>The rows of one organization, apart from the assignment to boxes, which the box does not keep.\<close>

definition org_gateways :: "edge_db \<Rightarrow> int \<Rightarrow> gateway set" where
  "org_gateways db orgID = set (map unassigned (filter (\<lambda>g. gateway_org db g = Some orgID) (db_gateways db)))"

definition org_tags :: "edge_db \<Rightarrow> int \<Rightarrow> config_tag set" where
  "org_tags db orgID = set (filter (\<lambda>t. tag_org db t = Some orgID) (db_tags db))"

definition org_alarms :: "edge_db \<Rightarrow> int \<Rightarrow> alarm_def set" where
  "org_alarms db orgID = set (filter (\<lambda>a. alarm_org db a = Some orgID) (db_alarms db))"

text \<open>A configuration whose references stay inside it.\<close>

definition closed_config :: "Config \<Rightarrow> bool" where
  "closed_config cfg \<longleftrightarrow> 0 < cf_OrgID cfg \<and>
     keyed st_ID (cf_Sites cfg) \<and> list_all (\<lambda>s. st_OrgID s = cf_OrgID cfg) (cf_Sites cfg) \<and>
     keyed ar_ID (cf_Areas cfg) \<and> list_all (\<lambda>a. has_key st_ID (cf_Sites cfg) (ar_SiteID a)) (cf_Areas cfg) \<and>
     keyed g_ID (cf_Gateways cfg) \<and> list_all (\<lambda>g. is_int64 (g_ID g) \<and> has_key ar_ID (cf_Areas cfg) (g_AreaID g) \<and>
       g_DriverType g \<in> set driver_types) (cf_Gateways cfg) \<and>
     keyed tg_ID (cf_Tags cfg) \<and> list_all (\<lambda>t. is_int64 (tg_ID t) \<and> has_key g_ID (cf_Gateways cfg) (tg_GatewayID t) \<and>
       tg_DataType t \<in> set tag_types) (cf_Tags cfg) \<and>
     keyed ad_ID (cf_Alarms cfg) \<and> list_all (\<lambda>a. is_int64 (ad_ID a) \<and> has_key tg_ID (cf_Tags cfg) (ad_TagID a)) (cf_Alarms cfg)"

text \<open>The sites and areas of the configuration are in place: every gateway of it belongs to the organization.\<close>

definition hierarchy_in :: "Config \<Rightarrow> edge_db \<Rightarrow> bool" where
  "hierarchy_in cfg db \<longleftrightarrow> list_all (\<lambda>a. \<exists>s \<in> set (db_sites db). row_at st_ID (db_sites db) (ar_SiteID a) = Some s \<and> st_OrgID s = cf_OrgID cfg) (cf_Areas cfg) \<and>
     list_all (\<lambda>s. row_at st_ID (db_sites db) (st_ID s) = Some s) (cf_Sites cfg) \<and>
     list_all (\<lambda>a. row_at ar_ID (db_areas db) (ar_ID a) = Some a) (cf_Areas cfg)"

lemma row_at_replace_fold:
  assumes "keyed key rs" "r \<in> set rs"
  shows "row_at key (fold (upsert key replace_row) rs rows) (key r) = Some r"
  using keyed_update.row_at_fold[OF keyed_update_replace assms, of rows] by (simp add: replace_row_def split: option.splits)

lemma row_at_in: "row_at key rows i = Some r \<Longrightarrow> r \<in> set rows"
  by (auto simp: row_at_def find_Some_iff)

lemma applyHierarchy_in:
  assumes "applyHierarchy fails cfg db = Inr db'" "closed_config cfg"
  shows "hierarchy_in cfg db'"
proof -
  obtain db1 where "fold_ok (insertSite fails) (cf_Sites cfg) db = Inr db1" "fold_ok (insertArea fails) (cf_Areas cfg) db1 = Inr db'"
    using assms(1) by (auto simp: applyHierarchy_def bind_ok_Inr_iff)
  then have r: "db_sites db' = fold (upsert st_ID replace_row) (cf_Sites cfg) (db_sites db)"
      "db_areas db' = fold (upsert ar_ID replace_row) (cf_Areas cfg) (db_areas db)"
    by (auto dest!: sites_result areas_result)
  have "row_at ar_ID (db_areas db') (ar_ID a) = Some a" if "a \<in> set (cf_Areas cfg)" for a
    using row_at_replace_fold[OF _ that, of ar_ID "db_areas db"] assms(2) by (simp add: r closed_config_def)
  moreover have "row_at st_ID (db_sites db') (st_ID s) = Some s" if "s \<in> set (cf_Sites cfg)" for s
    using row_at_replace_fold[OF _ that, of st_ID "db_sites db"] assms(2) by (simp add: r closed_config_def)
  moreover have "\<exists>s \<in> set (db_sites db'). row_at st_ID (db_sites db') (ar_SiteID a) = Some s \<and> st_OrgID s = cf_OrgID cfg"
    if a: "a \<in> set (cf_Areas cfg)" for a
  proof -
    from a assms(2) obtain s where s: "s \<in> set (cf_Sites cfg)" "st_ID s = ar_SiteID a" "st_OrgID s = cf_OrgID cfg"
      by (auto simp: closed_config_def list_all_iff has_key_iff)
    then have "row_at st_ID (db_sites db') (ar_SiteID a) = Some s"
      using row_at_replace_fold[OF _ s(1), of st_ID "db_sites db"] assms(2) by (simp add: r closed_config_def)
    then show ?thesis using s row_at_in by metis
  qed
  ultimately show ?thesis by (simp add: hierarchy_in_def list_all_iff)
qed

lemma hierarchy_org:
  assumes "hierarchy_in cfg db" "has_key ar_ID (cf_Areas cfg) (g_AreaID g)"
  shows "gateway_org db g = Some (cf_OrgID cfg)"
proof -
  from assms(2) obtain a where "a \<in> set (cf_Areas cfg)" "ar_ID a = g_AreaID g" by (auto simp: has_key_iff)
  with assms(1) show ?thesis by (auto simp: hierarchy_in_def list_all_iff gateway_org_def) fastforce
qed

lemma gateway_org_cong: "db_sites db = db_sites db' \<Longrightarrow> db_areas db = db_areas db' \<Longrightarrow> gateway_org db = gateway_org db'"
  by (rule ext) (simp add: gateway_org_def)

lemma tag_org_cong:
  "db_sites db = db_sites db' \<Longrightarrow> db_areas db = db_areas db' \<Longrightarrow> db_gateways db = db_gateways db' \<Longrightarrow> tag_org db = tag_org db'"
  by (rule ext) (simp add: tag_org_def gateway_org_cong[of db db'])

lemma alarm_org_cong:
  "db_sites db = db_sites db' \<Longrightarrow> db_areas db = db_areas db' \<Longrightarrow> db_gateways db = db_gateways db' \<Longrightarrow> db_tags db = db_tags db' \<Longrightarrow>
    alarm_org db = alarm_org db'"
  by (rule ext) (simp add: alarm_org_def tag_org_cong[of db db'])

lemma cascade_upper: "db_sites (cascade db) = db_sites db" "db_areas (cascade db) = db_areas db"
    "db_gateways (cascade db) = db_gateways db" "db_organizations (cascade db) = db_organizations db"
  by (simp_all add: cascade_def Let_def)

lemma cascade_tags: "list_all (\<lambda>t. has_key g_ID (db_gateways db) (tg_GatewayID t)) (db_tags db) \<Longrightarrow> db_tags (cascade db) = db_tags db"
  by (simp add: cascade_def Let_def list_all_iff filter_id_conv)

lemma cascade_alarms:
  "list_all (\<lambda>t. has_key g_ID (db_gateways db) (tg_GatewayID t)) (db_tags db) \<Longrightarrow>
    list_all (\<lambda>a. has_key tg_ID (db_tags db) (ad_TagID a)) (db_alarms db) \<Longrightarrow> db_alarms (cascade db) = db_alarms db"
  by (simp add: cascade_def Let_def list_all_iff filter_id_conv)

text \<open>The gateways of the configuration are in the database, as gateways of the organization.\<close>

definition gateways_in :: "Config \<Rightarrow> edge_db \<Rightarrow> bool" where
  "gateways_in cfg db \<longleftrightarrow> list_all (\<lambda>g. \<exists>x \<in> set (db_gateways db). g_ID x = g_ID g \<and> gateway_org db x = Some (cf_OrgID cfg)) (cf_Gateways cfg)"

definition tags_in :: "Config \<Rightarrow> edge_db \<Rightarrow> bool" where
  "tags_in cfg db \<longleftrightarrow> list_all (\<lambda>t. \<exists>x \<in> set (db_tags db). tg_ID x = tg_ID t \<and> tag_org db x = Some (cf_OrgID cfg)) (cf_Tags cfg)"

lemma unassigned_simps [simp]: "g_ID (unassigned g) = g_ID g" "g_AreaID (unassigned g) = g_AreaID g"
    "unassigned (unassigned g) = unassigned g" "unassigned (write_gateway y g) = unassigned g"
    "g_DriverType (unassigned g) = g_DriverType g" "g_Enabled (unassigned g) = g_Enabled g"
  by (simp_all add: unassigned_def write_gateway_def)

lemma keyed_unassigned [simp]: "keyed g_ID (map unassigned gs) = keyed g_ID gs"
  by (simp add: keyed_def comp_def)

lemma applyGateways_mirror:
  assumes i: "integrity db" and h: "hierarchy_in cfg db" and c: "closed_config cfg" and a: "applyGateways fails cfg db = Inr db'"
  shows "org_gateways db' (cf_OrgID cfg) = set (map unassigned (cf_Gateways cfg))"
    and "gateways_in cfg db'" and "db_sites db' = db_sites db" and "db_areas db' = db_areas db"
proof -
  let ?org = "cf_OrgID cfg" and ?rs = "map unassigned (cf_Gateways cfg)"
  let ?rows = "fold (upsert g_ID write_gateway) ?rs (db_gateways db)"
  let ?P = "\<lambda>g. gateway_org db g = Some ?org"
  have "list_all is_int64 (map g_ID (cf_Gateways cfg))" using c by (auto simp: closed_config_def list_all_iff)
  then have db': "db' = cascade (delete_gateways ?org (\<lambda>i. i \<notin> set (map g_ID (cf_Gateways cfg))) (db\<lparr>db_gateways := ?rows\<rparr>))"
    using a by (auto simp: applyGateways_def bind_ok_Inr_iff dest!: gateways_result deleteMissing_result)
  show s: "db_sites db' = db_sites db" "db_areas db' = db_areas db" by (simp_all add: db' cascade_upper delete_gateways_def)
  then have org: "gateway_org db' = gateway_org db" by (rule gateway_org_cong)
  have "gateway_org (db\<lparr>db_gateways := ?rows\<rparr>) = gateway_org db" by (rule gateway_org_cong) simp_all
  then have g': "db_gateways db' = filter (\<lambda>g. \<not> (?P g \<and> g_ID g \<notin> g_ID ` set ?rs)) ?rows"
    by (simp add: db' cascade_upper delete_gateways_def image_image)
  have scope: "?P r \<and> (g_ID x = g_ID r \<longrightarrow> ?P (write_gateway x r))" if "r \<in> set ?rs" for r x
  proof -
    have "has_key ar_ID (cf_Areas cfg) (g_AreaID r)" using that c by (auto simp: closed_config_def list_all_iff)
    with hierarchy_org[OF h, of r] hierarchy_org[OF h, of "write_gateway x r"] show ?thesis by (simp add: write_gateway_def)
  qed
  have m: "x \<in> set (db_gateways db') \<and> ?P x \<longleftrightarrow>
      (\<exists>r \<in> set ?rs. x = (case row_at g_ID (db_gateways db) (g_ID r) of None \<Rightarrow> r | Some y \<Rightarrow> write_gateway y r))" for x
    unfolding g' by (rule gw.mirror_rows) (use i c scope in \<open>auto simp: integrity_def closed_config_def\<close>)
  let ?F = "\<lambda>r. case row_at g_ID (db_gateways db) (g_ID r) of None \<Rightarrow> r | Some y \<Rightarrow> write_gateway y r"
  have u: "unassigned (?F r) = r" and k: "g_ID (?F r) = g_ID r" if "r \<in> set ?rs" for r
    using that by (auto split: option.split simp: write_gateway_def unassigned_def)
  have "org_gateways db' ?org = unassigned ` {x. x \<in> set (db_gateways db') \<and> ?P x}"
    by (auto simp: org_gateways_def org)
  also have "\<dots> = unassigned ` ?F ` set ?rs" by (intro arg_cong[where f = "image unassigned"]) (simp only: set_eq_iff mem_Collect_eq image_iff m, intro allI refl)
  also have "\<dots> = (\<lambda>r. r) ` set ?rs" unfolding image_image by (rule image_cong[OF refl u])
  also have "\<dots> = set ?rs" by simp
  finally show "org_gateways db' ?org = set ?rs" .
  show "gateways_in cfg db'" unfolding gateways_in_def list_all_iff org
  proof
    fix g assume "g \<in> set (cf_Gateways cfg)"
    then have r: "unassigned g \<in> set ?rs" by simp
    from m k[OF r] r show "\<exists>x\<in>set (db_gateways db'). g_ID x = g_ID g \<and> ?P x" by (metis unassigned_simps(1))
  qed
qed

lemma applyTags_mirror:
  assumes i: "integrity db" and g: "gateways_in cfg db" and c: "closed_config cfg" and a: "applyTags fails cfg db = Inr db'"
  shows "org_tags db' (cf_OrgID cfg) = set (cf_Tags cfg)" and "tags_in cfg db'"
    and "db_sites db' = db_sites db" and "db_areas db' = db_areas db" and "db_gateways db' = db_gateways db"
proof -
  let ?org = "cf_OrgID cfg" and ?rs = "cf_Tags cfg"
  let ?rows = "fold (upsert tg_ID replace_row) ?rs (db_tags db)"
  let ?P = "\<lambda>t. tag_org db t = Some ?org"
  obtain db1 where d1: "fold_ok (insertTag fails) ?rs db = Inr db1"
      "deleteMissing fails DeleteTags (delete_tags ?org) (map tg_ID ?rs) db1 = Inr db'"
    using a by (auto simp: applyTags_def bind_ok_Inr_iff)
  have i1: "integrity db1" using integrity_fold[OF _ d1(1) i] integrity_insertTag by blast
  have r1: "db1 = db\<lparr>db_tags := ?rows\<rparr>" using tags_result[OF d1(1)] .
  have "list_all is_int64 (map tg_ID ?rs)" using c by (auto simp: closed_config_def list_all_iff)
  then have db': "db' = cascade (delete_tags ?org (\<lambda>i. i \<notin> set (map tg_ID ?rs)) db1)"
    using deleteMissing_result[OF d1(2)] by blast
  show s: "db_sites db' = db_sites db" "db_areas db' = db_areas db" "db_gateways db' = db_gateways db"
    by (simp_all add: db' cascade_upper delete_tags_def r1)
  then have org: "tag_org db' = tag_org db" by (rule tag_org_cong)
  have "tag_org db1 = tag_org db" by (rule tag_org_cong) (simp_all add: r1)
  moreover have "list_all (\<lambda>t. has_key g_ID (db_gateways db1) (tg_GatewayID t)) (db_tags db1)"
    using i1 by (auto simp: integrity_def list_all_iff)
  ultimately have g': "db_tags db' = filter (\<lambda>t. \<not> (?P t \<and> tg_ID t \<notin> tg_ID ` set ?rs)) ?rows"
    unfolding db' by (subst cascade_tags) (simp_all add: delete_tags_def list_all_iff r1)
  have scope: "?P r \<and> (tg_ID x = tg_ID r \<longrightarrow> ?P (replace_row x r))" if "r \<in> set ?rs" for r x
  proof -
    from that c g obtain y where "y \<in> set (db_gateways db)" "g_ID y = tg_GatewayID r" "gateway_org db y = Some ?org"
      by (auto simp: closed_config_def list_all_iff has_key_iff gateways_in_def) (metis that)
    moreover have "keyed g_ID (db_gateways db)" using i by (simp add: integrity_def)
    ultimately show ?thesis using row_at_Some[of g_ID "db_gateways db" "tg_GatewayID r" y] by (simp add: tag_org_def replace_row_def)
  qed
  have m: "x \<in> set (db_tags db') \<and> ?P x \<longleftrightarrow>
      (\<exists>r \<in> set ?rs. x = (case row_at tg_ID (db_tags db) (tg_ID r) of None \<Rightarrow> r | Some y \<Rightarrow> replace_row y r))" for x
    unfolding g' by (rule tagt.mirror_rows) (use i c scope in \<open>auto simp: integrity_def closed_config_def\<close>)
  then have m: "x \<in> set (db_tags db') \<and> ?P x \<longleftrightarrow> x \<in> set ?rs" for x
    by (auto simp: replace_row_def split: option.splits)
  then show "org_tags db' ?org = set ?rs" by (auto simp: org_tags_def org)
  show "tags_in cfg db'" unfolding tags_in_def list_all_iff org using m by auto
qed

lemma applyAlarms_mirror:
  assumes i: "integrity db" and g: "tags_in cfg db" and c: "closed_config cfg" and a: "applyAlarms fails cfg db = Inr db'"
  shows "org_alarms db' (cf_OrgID cfg) = set (cf_Alarms cfg)"
    and "db_sites db' = db_sites db" and "db_areas db' = db_areas db" and "db_gateways db' = db_gateways db" and "db_tags db' = db_tags db"
proof -
  let ?org = "cf_OrgID cfg" and ?rs = "cf_Alarms cfg"
  let ?rows = "fold (upsert ad_ID replace_row) ?rs (db_alarms db)"
  let ?P = "\<lambda>t. alarm_org db t = Some ?org"
  obtain db1 where d1: "fold_ok (insertAlarm fails) ?rs db = Inr db1"
      "deleteMissing fails DeleteAlarms (delete_alarms ?org) (map ad_ID ?rs) db1 = Inr db'"
    using a by (auto simp: applyAlarms_def bind_ok_Inr_iff)
  have i1: "integrity db1" using integrity_fold[OF _ d1(1) i] integrity_insertAlarm by blast
  have r1: "db1 = db\<lparr>db_alarms := ?rows\<rparr>" using alarms_result[OF d1(1)] .
  have "list_all is_int64 (map ad_ID ?rs)" using c by (auto simp: closed_config_def list_all_iff)
  then have db': "db' = cascade (delete_alarms ?org (\<lambda>i. i \<notin> set (map ad_ID ?rs)) db1)"
    using deleteMissing_result[OF d1(2)] by blast
  have t1: "list_all (\<lambda>t. has_key g_ID (db_gateways db1) (tg_GatewayID t)) (db_tags db1)"
      "list_all (\<lambda>a. has_key tg_ID (db_tags db1) (ad_TagID a)) (db_alarms db1)"
    using i1 by (auto simp: integrity_def list_all_iff)
  have "db_tags (cascade (delete_alarms ?org (\<lambda>i. i \<notin> set (map ad_ID ?rs)) db1)) = db_tags db1"
    using t1(1) by (subst cascade_tags) (simp_all add: delete_alarms_def)
  then show s: "db_sites db' = db_sites db" "db_areas db' = db_areas db" "db_gateways db' = db_gateways db" "db_tags db' = db_tags db"
    by (simp_all add: db' cascade_upper delete_alarms_def r1)
  then have org: "alarm_org db' = alarm_org db" by (rule alarm_org_cong)
  have "alarm_org db1 = alarm_org db" by (rule alarm_org_cong) (simp_all add: r1)
  then have g': "db_alarms db' = filter (\<lambda>t. \<not> (?P t \<and> ad_ID t \<notin> ad_ID ` set ?rs)) ?rows"
    unfolding db' using t1 by (subst cascade_alarms) (simp_all add: delete_alarms_def list_all_iff r1)
  have scope: "?P r \<and> (ad_ID x = ad_ID r \<longrightarrow> ?P (replace_row x r))" if "r \<in> set ?rs" for r x
  proof -
    from that c g obtain y where "y \<in> set (db_tags db)" "tg_ID y = ad_TagID r" "tag_org db y = Some ?org"
      by (auto simp: closed_config_def list_all_iff has_key_iff tags_in_def) (metis that)
    moreover have "keyed tg_ID (db_tags db)" using i by (simp add: integrity_def)
    ultimately show ?thesis using row_at_Some[of tg_ID "db_tags db" "ad_TagID r" y] by (simp add: alarm_org_def replace_row_def)
  qed
  have m: "x \<in> set (db_alarms db') \<and> ?P x \<longleftrightarrow>
      (\<exists>r \<in> set ?rs. x = (case row_at ad_ID (db_alarms db) (ad_ID r) of None \<Rightarrow> r | Some y \<Rightarrow> replace_row y r))" for x
    unfolding g' by (rule alarm.mirror_rows) (use i c scope in \<open>auto simp: integrity_def closed_config_def\<close>)
  then show "org_alarms db' ?org = set ?rs" by (auto simp: org_alarms_def org replace_row_def split: option.splits)
qed

section \<open>A configuration in force\<close>

definition sequences_moved :: "edge_db \<Rightarrow> bool" where
  "sequences_moved db \<longleftrightarrow> list_all (\<lambda>t. db_seqs db t = max (max_id (table_ids db t)) 1) sequence_tables"

definition in_force :: "Config \<Rightarrow> edge_db \<Rightarrow> bool" where
  "in_force cfg db \<longleftrightarrow> integrity db \<and> (cf_OrgID cfg, cf_OrgName cfg) \<in> set (db_organizations db) \<and> hierarchy_in cfg db \<and>
     org_gateways db (cf_OrgID cfg) = set (map unassigned (cf_Gateways cfg)) \<and>
     org_tags db (cf_OrgID cfg) = set (cf_Tags cfg) \<and> org_alarms db (cf_OrgID cfg) = set (cf_Alarms cfg) \<and>
     (cf_WriteCommandMaxAgeSeconds cfg \<le> 0 \<or> db_settings db maxAgeKey = Some (itoa (cf_WriteCommandMaxAgeSeconds cfg))) \<and>
     sequences_moved db"

lemma org_rows_cong:
  "db_sites db = db_sites db' \<Longrightarrow> db_areas db = db_areas db' \<Longrightarrow> db_gateways db = db_gateways db' \<Longrightarrow> org_gateways db = org_gateways db'"
  "db_sites db = db_sites db' \<Longrightarrow> db_areas db = db_areas db' \<Longrightarrow> db_gateways db = db_gateways db' \<Longrightarrow> db_tags db = db_tags db' \<Longrightarrow>
    org_tags db = org_tags db'"
  "db_sites db = db_sites db' \<Longrightarrow> db_areas db = db_areas db' \<Longrightarrow> db_gateways db = db_gateways db' \<Longrightarrow> db_tags db = db_tags db' \<Longrightarrow>
    db_alarms db = db_alarms db' \<Longrightarrow> org_alarms db = org_alarms db'"
  by (rule ext, simp add: org_gateways_def gateway_org_cong[of db db'])
    (rule ext, simp add: org_tags_def tag_org_cong[of db db'], rule ext, simp add: org_alarms_def alarm_org_cong[of db db'])

lemma hierarchy_in_cong:
  "db_sites db = db_sites db' \<Longrightarrow> db_areas db = db_areas db' \<Longrightarrow> hierarchy_in cfg db = hierarchy_in cfg db'"
  by (simp add: hierarchy_in_def)

lemma moveSequence_Inr:
  "moveSequence fails t db = Inr db' \<longleftrightarrow>
    \<not> fails (MoveSequence t) \<and> db' = db\<lparr>db_seqs := (db_seqs db)(t := max (max_id (table_ids db t)) 1)\<rparr>"
  by (simp add: moveSequence_def exec_Inr)

lemma table_ids_seqs: "table_ids (db\<lparr>db_seqs := q\<rparr>) t = table_ids db t"
  by (simp add: table_ids_def)

lemma prune_result:
  assumes "fold_ok (moveSequence fails) ts db = Inr db'"
  shows "\<exists>q. db' = db\<lparr>db_seqs := q\<rparr> \<and> (\<forall>t. q t = (if t \<in> set ts then max (max_id (table_ids db t)) 1 else db_seqs db t))"
  using assms
proof (induction ts arbitrary: db)
  case Nil
  then show ?case by (auto intro: exI[of _ "db_seqs db"])
next
  case (Cons t ts)
  let ?db = "db\<lparr>db_seqs := (db_seqs db)(t := max (max_id (table_ids db t)) 1)\<rparr>"
  from Cons.prems have "fold_ok (moveSequence fails) ts ?db = Inr db'" by (auto simp: bind_ok_Inr_iff moveSequence_Inr)
  from Cons.IH[OF this] obtain q where q: "db' = ?db\<lparr>db_seqs := q\<rparr>"
      "\<forall>u. q u = (if u \<in> set ts then max (max_id (table_ids ?db u)) 1 else db_seqs ?db u)" by blast
  have "db' = db\<lparr>db_seqs := q\<rparr>" using q(1) by simp
  moreover have "q u = (if u \<in> set (t # ts) then max (max_id (table_ids db u)) 1 else db_seqs db u)" for u
    using q(2)[rule_format, of u] by (simp add: table_ids_seqs)
  ultimately show ?case by blast
qed

lemma sequences_moved_prune: "pruneSequences fails db = Inr db' \<Longrightarrow> sequences_moved db'"
  unfolding pruneSequences_def by (drule prune_result) (auto simp: sequences_moved_def list_all_iff table_ids_seqs)

lemma settings_frame:
  "applySettings fails cfg db = Inr db' \<Longrightarrow> \<exists>s. db' = db\<lparr>db_settings := s\<rparr> \<and>
    (cf_WriteCommandMaxAgeSeconds cfg \<le> 0 \<or> s maxAgeKey = Some (itoa (cf_WriteCommandMaxAgeSeconds cfg)))"
  by (auto simp: applySettings_def exec_Inr split: if_splits intro: exI[of _ "db_settings db"])

text \<open>No statement below the areas touches the organizations, sites and areas.\<close>

definition hierarchy_rows :: "edge_db \<Rightarrow> (int \<times> string) list \<times> site list \<times> area list" where
  "hierarchy_rows db = (db_organizations db, db_sites db, db_areas db)"

lemma deleteMissing_frame:
  assumes "deleteMissing fails st del keep db = Inr db'" "\<And>gone. hierarchy_rows (del gone db) = hierarchy_rows db"
  shows "hierarchy_rows db' = hierarchy_rows db"
  using assms by (auto simp: deleteMissing_def Let_def exec_Inr hierarchy_rows_def cascade_upper)

lemma delete_frame [simp]: "hierarchy_rows (delete_gateways o1 gone db) = hierarchy_rows db"
    "hierarchy_rows (delete_tags o1 gone db) = hierarchy_rows db" "hierarchy_rows (delete_alarms o1 gone db) = hierarchy_rows db"
  by (simp_all add: hierarchy_rows_def delete_gateways_def delete_tags_def delete_alarms_def)

lemma lower_frame:
  "applyGateways fails cfg db = Inr db' \<Longrightarrow> hierarchy_rows db' = hierarchy_rows db"
  "applyTags fails cfg db = Inr db' \<Longrightarrow> hierarchy_rows db' = hierarchy_rows db"
  "applyAlarms fails cfg db = Inr db' \<Longrightarrow> hierarchy_rows db' = hierarchy_rows db"
  unfolding applyGateways_def applyTags_def applyAlarms_def bind_ok_Inr_iff
  by (elim exE conjE, drule gateways_result tags_result alarms_result, drule deleteMissing_frame, simp, simp add: hierarchy_rows_def)+

lemma organizations_frame: "applyHierarchy fails cfg db = Inr db' \<Longrightarrow> db_organizations db' = db_organizations db"
  by (auto simp: applyHierarchy_def bind_ok_Inr_iff dest!: sites_result areas_result)

lemma applyOrg_in: "applyOrg fails cfg db = Inr db' \<Longrightarrow> (cf_OrgID cfg, cf_OrgName cfg) \<in> set (db_organizations db')"
proof -
  assume a: "applyOrg fails cfg db = Inr db'"
  have "(k, n) \<in> set (upsert fst replace_row (k, n) rows)" for k :: int and n :: string and rows
    by (induction rows) (auto simp: replace_row_def)
  with a show ?thesis by (simp add: applyOrg_def exec_Inr)
qed

lemma apply_in_force:
  assumes "apply_statements fails cfg db = Inr db'" "integrity db" "closed_config cfg"
  shows "in_force cfg db'"
proof -
  from assms(1) obtain d1 d2 d3 d4 d5 d6 where
    a: "applyOrg fails cfg db = Inr d1" "applyHierarchy fails cfg d1 = Inr d2" "applyGateways fails cfg d2 = Inr d3"
      "applyTags fails cfg d3 = Inr d4" "applyAlarms fails cfg d4 = Inr d5" "applySettings fails cfg d5 = Inr d6"
      "pruneSequences fails d6 = Inr db'"
    unfolding apply_statements_def bind_ok_Inr_iff by blast
  have i1: "integrity d1" by (rule integrity_applyOrg[OF assms(2) a(1)])
  have i2: "integrity d2" by (rule integrity_applyHierarchy[OF i1 a(2)])
  have i3: "integrity d3" by (rule integrity_applyGateways[OF i2 a(3)])
  have i4: "integrity d4" by (rule integrity_applyTags[OF i3 a(4)])
  have h: "hierarchy_in cfg d2" by (rule applyHierarchy_in[OF a(2) assms(3)])
  note g = applyGateways_mirror[OF i2 h assms(3) a(3)]
  note t = applyTags_mirror[OF i3 g(2) assms(3) a(4)]
  note al = applyAlarms_mirror[OF i4 t(2) assms(3) a(5)]
  obtain s where s: "d6 = d5\<lparr>db_settings := s\<rparr>"
      "cf_WriteCommandMaxAgeSeconds cfg \<le> 0 \<or> s maxAgeKey = Some (itoa (cf_WriteCommandMaxAgeSeconds cfg))"
    using settings_frame[OF a(6)] by blast
  obtain q where q: "db' = d6\<lparr>db_seqs := q\<rparr>" using prune_result a(7) unfolding pruneSequences_def by blast
  have same: "db_sites db' = db_sites d5" "db_areas db' = db_areas d5" "db_gateways db' = db_gateways d5" "db_tags db' = db_tags d5"
      "db_alarms db' = db_alarms d5" "db_organizations db' = db_organizations d5" "db_settings db' = s"
    by (simp_all add: q s(1))
  have "integrity db'" by (rule integrity_apply_statements[OF assms(2,1)])
  moreover have "(cf_OrgID cfg, cf_OrgName cfg) \<in> set (db_organizations db')"
    using applyOrg_in[OF a(1)] organizations_frame[OF a(2)] lower_frame(1)[OF a(3)] lower_frame(2)[OF a(4)] lower_frame(3)[OF a(5)]
    by (simp add: same hierarchy_rows_def)
  moreover have "hierarchy_in cfg db'"
    using h g(3,4) t(3,4) al(2,3) by (subst hierarchy_in_cong[of _ d2]) (simp_all add: same)
  moreover have "org_gateways db' = org_gateways d3" using t(3-5) al(2-4) by (intro org_rows_cong) (simp_all add: same)
  moreover have "org_tags db' = org_tags d4" using al(2-5) by (intro org_rows_cong) (simp_all add: same)
  moreover have "org_alarms db' = org_alarms d5" by (intro org_rows_cong) (simp_all add: same)
  moreover have "sequences_moved db'" by (rule sequences_moved_prune[OF a(7)])
  ultimately show ?thesis using g(1) t(1) al(1) s(2) by (simp add: in_force_def same)
qed

section \<open>A closed configuration is accepted, and changes nothing the second time\<close>

text \<open>No other organization has the name.\<close>

definition name_free :: "Config \<Rightarrow> edge_db \<Rightarrow> bool" where
  "name_free cfg db \<longleftrightarrow> list_all (\<lambda>(i, n). n = cf_OrgName cfg \<longrightarrow> i = cf_OrgID cfg) (db_organizations db)"

definition healthy :: "statement \<Rightarrow> bool" where
  "healthy st = False"

lemma exec_healthy [simp]: "exec healthy st allowed f db = (if allowed db then Inr (f db) else Inl (StatementFailed st))"
  by (simp add: exec_def healthy_def)

lemma deleteMissing_healthy: "\<exists>db'. deleteMissing healthy st del keep db = Inr db'"
  by (simp add: deleteMissing_def Let_def)

lemma applyOrg_succeeds: "name_free cfg db \<Longrightarrow> \<exists>db'. applyOrg healthy cfg db = Inr db'"
  by (simp add: applyOrg_def name_free_def)

lemma applyHierarchy_succeeds:
  assumes "closed_config cfg" "has_key fst (db_organizations db) (cf_OrgID cfg)"
  shows "\<exists>db'. applyHierarchy healthy cfg db = Inr db'"
proof -
  have "\<exists>d. fold_ok (insertSite healthy) (cf_Sites cfg) db = Inr d \<and> has_key fst (db_organizations d) (cf_OrgID cfg)"
    using assms by (intro fold_ok_succeeds[where P = "\<lambda>db. has_key fst (db_organizations db) (cf_OrgID cfg)"])
      (auto simp: insertSite_def closed_config_def list_all_iff)
  then obtain d where d: "fold_ok (insertSite healthy) (cf_Sites cfg) db = Inr d" by blast
  let ?P = "\<lambda>db. list_all (\<lambda>s. has_key st_ID (db_sites db) (st_ID s)) (cf_Sites cfg)"
  have "?P d" using sites_result[OF d] by (auto simp: list_all_iff site.has_key_fold)
  then have "\<exists>e. fold_ok (insertArea healthy) (cf_Areas cfg) d = Inr e \<and> ?P e"
    using assms(1) by (intro fold_ok_succeeds) (auto simp: insertArea_def closed_config_def list_all_iff has_key_iff, metis)
  then show ?thesis using d by (auto simp: applyHierarchy_def)
qed

lemma applyGateways_succeeds:
  assumes "closed_config cfg" "hierarchy_in cfg db"
  shows "\<exists>db'. applyGateways healthy cfg db = Inr db'"
proof -
  let ?P = "\<lambda>db. list_all (\<lambda>a. has_key ar_ID (db_areas db) (ar_ID a)) (cf_Areas cfg)"
  have "?P db" using assms(2) by (auto simp: hierarchy_in_def list_all_iff has_key_iff dest!: row_at_in bspec)
  then have "\<exists>e. fold_ok (insertGateway healthy) (cf_Gateways cfg) db = Inr e \<and> ?P e"
    using assms(1) by (intro fold_ok_succeeds) (auto simp: insertGateway_def closed_config_def list_all_iff has_key_iff, metis)
  then show ?thesis using deleteMissing_healthy by (auto simp: applyGateways_def)
qed

lemma applyTags_succeeds:
  assumes "closed_config cfg" "gateways_in cfg db"
  shows "\<exists>db'. applyTags healthy cfg db = Inr db'"
proof -
  let ?P = "\<lambda>db. list_all (\<lambda>g. has_key g_ID (db_gateways db) (g_ID g)) (cf_Gateways cfg)"
  have "?P db" using assms(2) by (auto simp: gateways_in_def list_all_iff has_key_iff)
  then have "\<exists>e. fold_ok (insertTag healthy) (cf_Tags cfg) db = Inr e \<and> ?P e"
    using assms(1) by (intro fold_ok_succeeds) (auto simp: insertTag_def closed_config_def list_all_iff has_key_iff, metis)
  then show ?thesis using deleteMissing_healthy by (auto simp: applyTags_def)
qed

lemma applyAlarms_succeeds:
  assumes "closed_config cfg" "tags_in cfg db"
  shows "\<exists>db'. applyAlarms healthy cfg db = Inr db'"
proof -
  let ?P = "\<lambda>db. list_all (\<lambda>t. has_key tg_ID (db_tags db) (tg_ID t)) (cf_Tags cfg)"
  have "?P db" using assms(2) by (auto simp: tags_in_def list_all_iff has_key_iff)
  then have "\<exists>e. fold_ok (insertAlarm healthy) (cf_Alarms cfg) db = Inr e \<and> ?P e"
    using assms(1) by (intro fold_ok_succeeds) (auto simp: insertAlarm_def closed_config_def list_all_iff has_key_iff, metis)
  then show ?thesis using deleteMissing_healthy by (auto simp: applyAlarms_def)
qed

lemma apply_succeeds:
  assumes "integrity db" "closed_config cfg" "name_free cfg db"
  shows "\<exists>db'. apply_statements healthy cfg db = Inr db'"
proof -
  obtain d1 where d1: "applyOrg healthy cfg db = Inr d1" using applyOrg_succeeds assms(3) by blast
  have i1: "integrity d1" by (rule integrity_applyOrg[OF assms(1) d1])
  have "has_key fst (db_organizations d1) (cf_OrgID cfg)" using applyOrg_in[OF d1] by (force simp: has_key_iff)
  then obtain d2 where d2: "applyHierarchy healthy cfg d1 = Inr d2" using applyHierarchy_succeeds assms(2) by blast
  have i2: "integrity d2" by (rule integrity_applyHierarchy[OF i1 d2])
  have h: "hierarchy_in cfg d2" by (rule applyHierarchy_in[OF d2 assms(2)])
  obtain d3 where d3: "applyGateways healthy cfg d2 = Inr d3" using applyGateways_succeeds h assms(2) by blast
  have i3: "integrity d3" by (rule integrity_applyGateways[OF i2 d3])
  note g = applyGateways_mirror(2)[OF i2 h assms(2) d3]
  obtain d4 where d4: "applyTags healthy cfg d3 = Inr d4" using applyTags_succeeds g assms(2) by blast
  have i4: "integrity d4" by (rule integrity_applyTags[OF i3 d4])
  obtain d5 where d5: "applyAlarms healthy cfg d4 = Inr d5"
    using applyAlarms_succeeds applyTags_mirror(2)[OF i3 g assms(2) d4] assms(2) by blast
  obtain d6 where d6: "applySettings healthy cfg d5 = Inr d6" by (cases "cf_WriteCommandMaxAgeSeconds cfg \<le> 0") (auto simp: applySettings_def)
  obtain d7 where "pruneSequences healthy d6 = Inr d7"
    using fold_ok_total[of sequence_tables "moveSequence healthy" "\<lambda>t db. db\<lparr>db_seqs := (db_seqs db)(t := max (max_id (table_ids db t)) 1)\<rparr>" d6]
    by (simp add: pruneSequences_def moveSequence_def)
  then show ?thesis using d1 d2 d3 d4 d5 d6 by (simp add: apply_statements_def)
qed

lemma replace_same:
  assumes "keyed key rows" "row_at key rows (key r) = Some r" "x \<in> set rows" "key x = key r"
  shows "replace_row x r = x"
proof -
  have "row_at key rows (key r) = Some x" using row_at_Some[OF assms(1)] assms(3,4) by blast
  then show ?thesis using assms(2) by (simp add: replace_row_def)
qed

lemma applyOrg_same:
  assumes "applyOrg fails cfg db = Inr d" "in_force cfg db"
  shows "d = db"
proof -
  let ?r = "(cf_OrgID cfg, cf_OrgName cfg)"
  have k: "keyed fst (db_organizations db)" and r: "?r \<in> set (db_organizations db)" using assms(2) by (simp_all add: in_force_def integrity_def)
  have "upsert fst replace_row ?r (db_organizations db) = db_organizations db"
    using k r by (intro org.upsert_same replace_same[OF k]) (force simp: row_at_Some has_key_iff)+
  with assms(1) show ?thesis by (simp add: applyOrg_def exec_Inr)
qed

lemma applyHierarchy_same:
  assumes "applyHierarchy fails cfg db = Inr d" "in_force cfg db"
  shows "d = db"
proof -
  have k: "keyed st_ID (db_sites db)" "keyed ar_ID (db_areas db)" using assms(2) by (simp_all add: in_force_def integrity_def)
  have s: "row_at st_ID (db_sites db) (st_ID s) = Some s" if "s \<in> set (cf_Sites cfg)" for s
    using assms(2) that by (simp add: in_force_def hierarchy_in_def list_all_iff)
  have a: "row_at ar_ID (db_areas db) (ar_ID a) = Some a" if "a \<in> set (cf_Areas cfg)" for a
    using assms(2) that by (simp add: in_force_def hierarchy_in_def list_all_iff)
  have "fold (upsert st_ID replace_row) (cf_Sites cfg) (db_sites db) = db_sites db"
    using s by (intro site.fold_upsert_same replace_same[OF k(1)]) (auto simp: has_key_iff dest!: row_at_in)
  moreover have "fold (upsert ar_ID replace_row) (cf_Areas cfg) (db_areas db) = db_areas db"
    using a by (intro area.fold_upsert_same replace_same[OF k(2)]) (auto simp: has_key_iff dest!: row_at_in)
  ultimately show ?thesis using assms(1) by (auto simp: applyHierarchy_def bind_ok_Inr_iff dest!: sites_result areas_result)
qed

lemma in_force_gateways:
  assumes "in_force cfg db" "closed_config cfg"
  shows "g \<in> set (cf_Gateways cfg) \<Longrightarrow> \<exists>x \<in> set (db_gateways db). unassigned x = unassigned g"
    and "x \<in> set (db_gateways db) \<Longrightarrow> gateway_org db x = Some (cf_OrgID cfg) \<Longrightarrow> unassigned x \<in> unassigned ` set (cf_Gateways cfg)"
proof -
  have e: "unassigned ` {x \<in> set (db_gateways db). gateway_org db x = Some (cf_OrgID cfg)} = unassigned ` set (cf_Gateways cfg)"
    using assms(1) by (simp add: in_force_def org_gateways_def)
  show "x \<in> set (db_gateways db) \<Longrightarrow> gateway_org db x = Some (cf_OrgID cfg) \<Longrightarrow> unassigned x \<in> unassigned ` set (cf_Gateways cfg)"
    unfolding e[symmetric] by blast
  assume "g \<in> set (cf_Gateways cfg)"
  then have "unassigned g \<in> unassigned ` {x \<in> set (db_gateways db). gateway_org db x = Some (cf_OrgID cfg)}" unfolding e by blast
  then show "\<exists>x \<in> set (db_gateways db). unassigned x = unassigned g" by force
qed

lemma applyGateways_same:
  assumes a: "applyGateways fails cfg db = Inr d" and f: "in_force cfg db" and c: "closed_config cfg"
  shows "d = db"
proof -
  let ?ids = "map g_ID (cf_Gateways cfg)"
  have k: "keyed g_ID (db_gateways db)" and i: "integrity db" using f by (simp_all add: in_force_def integrity_def)
  have up: "write_gateway x r = x" if rx: "r \<in> set (map unassigned (cf_Gateways cfg))" "x \<in> set (db_gateways db)" "g_ID x = g_ID r" for r x
  proof -
    from rx(1) obtain g where g: "g \<in> set (cf_Gateways cfg)" "r = unassigned g" by auto
    then obtain y where y: "y \<in> set (db_gateways db)" "unassigned y = r" using in_force_gateways(1)[OF f c] by metis
    then have "y = x" using keyed_eqD[OF k y(1) rx(2)] rx(3) by (metis unassigned_simps(1))
    with y(2) show ?thesis by (auto simp: write_gateway_def unassigned_def)
  qed
  have "has_key g_ID (db_gateways db) (g_ID r)" if "r \<in> set (map unassigned (cf_Gateways cfg))" for r
    using that in_force_gateways(1)[OF f c] by (auto simp: has_key_iff) (metis unassigned_simps(1))
  then have u: "fold (upsert g_ID write_gateway) (map unassigned (cf_Gateways cfg)) (db_gateways db) = db_gateways db"
    using up by (intro gw.fold_upsert_same) auto
  have del: "delete_gateways (cf_OrgID cfg) (\<lambda>i. i \<notin> set ?ids) db = db"
  proof -
    have "g_ID x \<in> set ?ids" if "x \<in> set (db_gateways db)" "gateway_org db x = Some (cf_OrgID cfg)" for x
    proof -
      from in_force_gateways(2)[OF f c that] obtain g where "g \<in> set (cf_Gateways cfg)" "unassigned x = unassigned g" by blast
      then show ?thesis by (metis (no_types) image_eqI list.set_map unassigned_simps(1))
    qed
    then have "filter (\<lambda>g. \<not> (gateway_org db g = Some (cf_OrgID cfg) \<and> g_ID g \<notin> set ?ids)) (db_gateways db) = db_gateways db"
      by (simp add: filter_id_conv del: set_map)
    then show ?thesis by (simp add: delete_gateways_def)
  qed
  have int: "list_all is_int64 ?ids" using c by (auto simp: closed_config_def list_all_iff)
  obtain d1 where "fold_ok (insertGateway fails) (cf_Gateways cfg) db = Inr d1"
      and dm: "deleteMissing fails DeleteGateways (delete_gateways (cf_OrgID cfg)) ?ids d1 = Inr d"
    using a by (auto simp: applyGateways_def bind_ok_Inr_iff)
  then have "d1 = db" using gateways_result u by fastforce
  then show ?thesis using deleteMissing_result[OF dm int] del cascade_id[OF i] by simp
qed

lemma applyTags_same:
  assumes a: "applyTags fails cfg db = Inr d" and f: "in_force cfg db" and c: "closed_config cfg"
  shows "d = db"
proof -
  have k: "keyed tg_ID (db_tags db)" and i: "integrity db" using f by (simp_all add: in_force_def integrity_def)
  have e: "{t \<in> set (db_tags db). tag_org db t = Some (cf_OrgID cfg)} = set (cf_Tags cfg)" using f by (simp add: in_force_def org_tags_def)
  then have "fold (upsert tg_ID replace_row) (cf_Tags cfg) (db_tags db) = db_tags db"
    by (intro tagt.fold_upsert_same replace_same[OF k]) (auto simp: row_at_Some[OF k] has_key_iff)
  moreover have "delete_tags (cf_OrgID cfg) (\<lambda>i. i \<notin> set (map tg_ID (cf_Tags cfg))) db = db"
    by (auto simp: delete_tags_def filter_id_conv e[symmetric] intro!: edge_db.equality)
  moreover have "list_all is_int64 (map tg_ID (cf_Tags cfg))" using c by (auto simp: closed_config_def list_all_iff)
  ultimately show ?thesis using a by (auto simp: applyTags_def bind_ok_Inr_iff cascade_id[OF i] dest!: tags_result deleteMissing_result)
qed

lemma applyAlarms_same:
  assumes a: "applyAlarms fails cfg db = Inr d" and f: "in_force cfg db" and c: "closed_config cfg"
  shows "d = db"
proof -
  have k: "keyed ad_ID (db_alarms db)" and i: "integrity db" using f by (simp_all add: in_force_def integrity_def)
  have e: "{a \<in> set (db_alarms db). alarm_org db a = Some (cf_OrgID cfg)} = set (cf_Alarms cfg)" using f by (simp add: in_force_def org_alarms_def)
  then have "fold (upsert ad_ID replace_row) (cf_Alarms cfg) (db_alarms db) = db_alarms db"
    by (intro alarm.fold_upsert_same replace_same[OF k]) (auto simp: row_at_Some[OF k] has_key_iff)
  moreover have "delete_alarms (cf_OrgID cfg) (\<lambda>i. i \<notin> set (map ad_ID (cf_Alarms cfg))) db = db"
    by (auto simp: delete_alarms_def filter_id_conv e[symmetric] intro!: edge_db.equality)
  moreover have "list_all is_int64 (map ad_ID (cf_Alarms cfg))" using c by (auto simp: closed_config_def list_all_iff)
  ultimately show ?thesis using a by (auto simp: applyAlarms_def bind_ok_Inr_iff cascade_id[OF i] dest!: alarms_result deleteMissing_result)
qed

lemma settings_same:
  assumes "applySettings fails cfg db = Inr d" "in_force cfg db"
  shows "d = db"
  using assms by (auto simp: applySettings_def exec_Inr in_force_def fun_upd_idem split: if_splits)

lemma prune_same:
  assumes "pruneSequences fails db = Inr d" "in_force cfg db"
  shows "d = db"
proof -
  obtain q where q: "d = db\<lparr>db_seqs := q\<rparr>"
      "\<forall>t. q t = (if t \<in> set sequence_tables then max (max_id (table_ids db t)) 1 else db_seqs db t)"
    using prune_result assms(1) unfolding pruneSequences_def by blast
  have "q = db_seqs db" using q(2) assms(2) by (auto simp: in_force_def sequences_moved_def list_all_iff)
  then show ?thesis using q(1) by simp
qed

lemma in_force_name_free:
  assumes "in_force cfg db"
  shows "name_free cfg db"
proof -
  have d: "inj_on snd (set (db_organizations db))" and m: "(cf_OrgID cfg, cf_OrgName cfg) \<in> set (db_organizations db)"
    using assms by (simp_all add: in_force_def integrity_def distinct_map)
  have "i = cf_OrgID cfg" if "(i, n) \<in> set (db_organizations db)" "n = cf_OrgName cfg" for i n
    using inj_onD[OF d _ that(1) m] that(2) by simp
  then show ?thesis by (auto simp: name_free_def list_all_iff)
qed

lemma apply_same:
  assumes "in_force cfg db" "closed_config cfg"
  shows "apply_statements healthy cfg db = Inr db"
proof -
  have "integrity db" using assms(1) by (simp add: in_force_def)
  from apply_succeeds[OF this assms(2) in_force_name_free[OF assms(1)]] obtain d where d: "apply_statements healthy cfg db = Inr d" by blast
  then have "d = db"
    unfolding apply_statements_def bind_ok_Inr_iff
    by (metis applyOrg_same applyHierarchy_same applyGateways_same applyTags_same applyAlarms_same settings_same prune_same assms)
  with d show ?thesis by simp
qed

end
