(* ===== verification/Edge_Mirror.thy ===== *)
theory Edge_Mirror
  imports Edge_Apply
begin

text \<open>
  From the platform's database to the box's: what is served to a box is closed under its references, is
  exactly what the box is responsible for, is accepted by the box, and is then what its database holds.
\<close>

section \<open>What is served\<close>

definition boxes_of :: "edge_db \<Rightarrow> int \<Rightarrow> Box list" where
  "boxes_of db orgID = sort_key bx_ID (map snd (filter (\<lambda>(org, b). org = orgID) (db_agents db)))"

lemma loadTree_Inr:
  "loadTree fails seen orgID c = Inr c' \<Longrightarrow>
    c' = c\<lparr>cf_Sites := cf_Sites c @ query_sites orgID (seen QuerySites), cf_Areas := cf_Areas c @ query_areas orgID (seen QueryAreas),
      cf_Gateways := cf_Gateways c @ query_gateways orgID (seen QueryGateways), cf_Tags := cf_Tags c @ query_tags orgID (seen QueryTags),
      cf_Alarms := cf_Alarms c @ query_alarms orgID (seen QueryAlarms)\<rparr>"
  by (simp add: loadTree_def load_rows_def split: if_splits)

lemma LoadBoxes_Inr: "LoadBoxes fails db orgID = Inr boxes \<Longrightarrow> boxes = boxes_of db orgID"
  by (simp add: LoadBoxes_def load_rows_def boxes_of_def split: if_splits)

lemma ServeConfig_200:
  assumes "ServeConfig getenv creds fails seen (Some orgID) (Some b) = (200, Some cfg)"
  obtains name c0 c boxes where
    "row_at fst (db_organizations (seen QueryOrganization)) orgID = Some (orgID, name)" "loadTree fails seen orgID c0 = Inr c"
    "LoadBoxes fails (seen QueryBoxes) orgID = Inr boxes" "cf_OrgID c0 = orgID" "cf_OrgName c0 = name" "cf_Sites c0 = []"
    "cf_Areas c0 = []" "cf_Gateways c0 = []" "cf_Tags c0 = []" "cf_Alarms c0 = []"
    "cfg = (FilterTree b boxes (c\<lparr>cf_AgentID := b\<rparr>))\<lparr>cf_WriteCommandMaxAgeSeconds := max_age fails (seen QueryMaxAge)\<rparr>"
proof -
  obtain org where o: "row_at fst (db_organizations (seen QueryOrganization)) orgID = Some org" "\<not> fails QueryOrganization"
    using assms by (simp add: ServeConfig_def split: if_splits option.splits)
  obtain name where n: "org = (orgID, name)" using row_at_key[OF o(1)] by (cases org) simp
  obtain u p where up: "(case creds orgID of None \<Rightarrow> ([], []) | Some c \<Rightarrow> c) = (u, p)" by fastforce
  note [simp] = o n up
  from assms that show thesis
    by (simp add: ServeConfig_def Let_def split: sum.splits)
qed

lemma ServeConfig_result:
  assumes "ServeConfig getenv creds fails seen (Some orgID) (Some b) = (200, Some cfg)"
  shows "cf_OrgID cfg = orgID" "cf_AgentID cfg = b"
    "cf_Sites cfg = query_sites orgID (seen QuerySites)" "cf_Areas cfg = query_areas orgID (seen QueryAreas)"
    "cf_Gateways cfg = GatewaysFor b (boxes_of (seen QueryBoxes) orgID) (query_gateways orgID (seen QueryGateways))"
    "cf_Tags cfg = filter (\<lambda>t. has_key g_ID (cf_Gateways cfg) (tg_GatewayID t)) (query_tags orgID (seen QueryTags))"
    "cf_Alarms cfg = filter (\<lambda>a. has_key tg_ID (cf_Tags cfg) (ad_TagID a)) (query_alarms orgID (seen QueryAlarms))"
    "\<exists>n. row_at fst (db_organizations (seen QueryOrganization)) orgID = Some (orgID, n) \<and> cf_OrgName cfg = n"
proof -
  obtain name c0 c boxes where
    r: "row_at fst (db_organizations (seen QueryOrganization)) orgID = Some (orgID, name)" "loadTree fails seen orgID c0 = Inr c"
    "LoadBoxes fails (seen QueryBoxes) orgID = Inr boxes" "cf_OrgID c0 = orgID" "cf_OrgName c0 = name" "cf_Sites c0 = []"
    "cf_Areas c0 = []" "cf_Gateways c0 = []" "cf_Tags c0 = []" "cf_Alarms c0 = []"
    "cfg = (FilterTree b boxes (c\<lparr>cf_AgentID := b\<rparr>))\<lparr>cf_WriteCommandMaxAgeSeconds := max_age fails (seen QueryMaxAge)\<rparr>"
    using ServeConfig_200[OF assms] by blast
  note c = loadTree_Inr[OF r(2)] and b = LoadBoxes_Inr[OF r(3)]
  show "cf_OrgID cfg = orgID" "cf_AgentID cfg = b" "cf_Sites cfg = query_sites orgID (seen QuerySites)"
    "cf_Areas cfg = query_areas orgID (seen QueryAreas)"
    "cf_Gateways cfg = GatewaysFor b (boxes_of (seen QueryBoxes) orgID) (query_gateways orgID (seen QueryGateways))"
    "cf_Tags cfg = filter (\<lambda>t. has_key g_ID (cf_Gateways cfg) (tg_GatewayID t)) (query_tags orgID (seen QueryTags))"
    "cf_Alarms cfg = filter (\<lambda>a. has_key tg_ID (cf_Tags cfg) (ad_TagID a)) (query_alarms orgID (seen QueryAlarms))"
    "\<exists>n. row_at fst (db_organizations (seen QueryOrganization)) orgID = Some (orgID, n) \<and> cf_OrgName cfg = n"
    by (simp_all add: r c b FilterTree_def Let_def)
qed

text \<open>Whatever changed between the queries, the gateways, tags and alarm rules refer to each other.\<close>

definition tree_closed :: "Config \<Rightarrow> bool" where
  "tree_closed cfg \<longleftrightarrow> list_all (\<lambda>t. has_key g_ID (cf_Gateways cfg) (tg_GatewayID t)) (cf_Tags cfg) \<and>
     list_all (\<lambda>a. has_key tg_ID (cf_Tags cfg) (ad_TagID a)) (cf_Alarms cfg)"

lemma FilterTree_closed: "tree_closed (FilterTree agentID boxes cfg)"
  by (simp add: tree_closed_def FilterTree_def Let_def list_all_iff)

definition ids_fit :: "edge_db \<Rightarrow> bool" where
  "ids_fit db \<longleftrightarrow> list_all (\<lambda>g. is_int64 (g_ID g)) (db_gateways db) \<and> list_all (\<lambda>t. is_int64 (tg_ID t)) (db_tags db) \<and>
     list_all (\<lambda>a. is_int64 (ad_ID a)) (db_alarms db)"

lemma keyed_sort_filter: "keyed key rows \<Longrightarrow> keyed key (sort_key f (filter P rows))"
  unfolding keyed_def by (simp add: distinct_map inj_on_def)

lemma gateway_org_row: "integrity db \<Longrightarrow> gateway_org db g = Some orgID \<Longrightarrow>
    \<exists>a \<in> set (db_areas db). ar_ID a = g_AreaID g \<and> map_option st_OrgID (row_at st_ID (db_sites db) (ar_SiteID a)) = Some orgID"
  by (auto simp: gateway_org_def integrity_def row_at_Some bind_eq_Some_conv)

lemma served_closed:
  assumes i: "integrity db" and f: "ids_fit db" and o: "0 < orgID"
    and s: "ServeConfig getenv creds fails (\<lambda>_. db) (Some orgID) (Some b) = (200, Some cfg)"
  shows "closed_config cfg"
proof -
  note r = ServeConfig_result[OF s]
  have k: "keyed st_ID (db_sites db)" "keyed ar_ID (db_areas db)" "keyed g_ID (db_gateways db)" "keyed tg_ID (db_tags db)"
      "keyed ad_ID (db_alarms db)" using i by (simp_all add: integrity_def)
  have gs: "set (cf_Gateways cfg) \<subseteq> set (query_gateways orgID db)" by (auto simp: r GatewaysFor_def ownedBy_def)
  have "keyed g_ID (query_gateways orgID db)" unfolding query_gateways_def by (rule keyed_sort_filter[OF k(3)])
  then have kg: "keyed g_ID (cf_Gateways cfg)" by (simp add: r GatewaysFor_def ownedBy_def keyed_filter)
  have "has_key st_ID (cf_Sites cfg) (ar_SiteID a)" if a: "a \<in> set (cf_Areas cfg)" for a
  proof -
    from a obtain t where "row_at st_ID (db_sites db) (ar_SiteID a) = Some t" "st_OrgID t = orgID"
      by (auto simp: r query_areas_def)
    then show ?thesis using row_at_Some[OF k(1)] by (auto simp: r query_sites_def has_key_iff)
  qed
  moreover have "is_int64 (g_ID g) \<and> has_key ar_ID (cf_Areas cfg) (g_AreaID g) \<and> g_DriverType g \<in> set driver_types"
    if g: "g \<in> set (cf_Gateways cfg)" for g
  proof -
    from g gs have g': "g \<in> set (db_gateways db)" "gateway_org db g = Some orgID" by (auto simp: query_gateways_def)
    with gateway_org_row[OF i g'(2)] f i show ?thesis
      by (auto simp: r query_areas_def has_key_iff ids_fit_def integrity_def list_all_iff)
  qed
  moreover have "is_int64 (tg_ID t) \<and> has_key g_ID (cf_Gateways cfg) (tg_GatewayID t) \<and> tg_DataType t \<in> set tag_types"
    if "t \<in> set (cf_Tags cfg)" for t
    using that f i by (auto simp: r(6) query_tags_def ids_fit_def integrity_def list_all_iff)
  moreover have "is_int64 (ad_ID a) \<and> has_key tg_ID (cf_Tags cfg) (ad_TagID a)" if "a \<in> set (cf_Alarms cfg)" for a
    using that f by (auto simp: r(7) query_alarms_def ids_fit_def list_all_iff)
  moreover have "keyed st_ID (cf_Sites cfg)" "keyed ar_ID (cf_Areas cfg)" "keyed tg_ID (cf_Tags cfg)" "keyed ad_ID (cf_Alarms cfg)"
    using k by (auto simp: r(3,4,6,7) query_sites_def query_areas_def query_tags_def query_alarms_def intro!: keyed_sort_filter keyed_filter)
  moreover have "st_OrgID t = orgID" if "t \<in> set (cf_Sites cfg)" for t using that by (simp add: r query_sites_def)
  ultimately show ?thesis using o kg by (simp add: closed_config_def list_all_iff r(1))
qed

section \<open>The share of a box\<close>

definition share_gateways :: "edge_db \<Rightarrow> int \<Rightarrow> int \<Rightarrow> gateway set" where
  "share_gateways db orgID b = {g \<in> set (db_gateways db). gateway_org db g = Some orgID \<and> Owner g (boxes_of db orgID) = b}"

definition share_tags :: "edge_db \<Rightarrow> int \<Rightarrow> int \<Rightarrow> config_tag set" where
  "share_tags db orgID b = {t \<in> set (db_tags db). tg_GatewayID t \<in> g_ID ` share_gateways db orgID b}"

definition share_alarms :: "edge_db \<Rightarrow> int \<Rightarrow> int \<Rightarrow> alarm_def set" where
  "share_alarms db orgID b = {a \<in> set (db_alarms db). ad_TagID a \<in> tg_ID ` share_tags db orgID b}"

lemma tag_in_org:
  assumes "integrity db" "g \<in> set (db_gateways db)" "tg_GatewayID t = g_ID g"
  shows "tag_org db t = gateway_org db g"
  using assms row_at_Some[of g_ID "db_gateways db" "g_ID g" g] by (simp add: tag_org_def integrity_def)

lemma alarm_in_org:
  assumes "integrity db" "t \<in> set (db_tags db)" "ad_TagID a = tg_ID t"
  shows "alarm_org db a = tag_org db t"
  using assms row_at_Some[of tg_ID "db_tags db" "tg_ID t" t] by (simp add: alarm_org_def integrity_def)

lemma served_share:
  assumes i: "integrity db" and b: "b \<noteq> Server"
    and s: "ServeConfig getenv creds fails (\<lambda>_. db) (Some orgID) (Some b) = (200, Some cfg)"
  shows "set (cf_Gateways cfg) = share_gateways db orgID b" "set (cf_Tags cfg) = share_tags db orgID b"
    "set (cf_Alarms cfg) = share_alarms db orgID b"
proof -
  note r = ServeConfig_result[OF s]
  show g: "set (cf_Gateways cfg) = share_gateways db orgID b"
    using b by (auto simp: r GatewaysFor_def ownedBy_def query_gateways_def share_gateways_def)
  have "tag_org db t = Some orgID" if "tg_GatewayID t \<in> g_ID ` share_gateways db orgID b" for t
    using that tag_in_org[OF i] by (auto simp: share_gateways_def)
  then show t: "set (cf_Tags cfg) = share_tags db orgID b"
    by (auto simp: r(6) query_tags_def share_tags_def has_key_def g)
  have "alarm_org db a = Some orgID" if a: "ad_TagID a \<in> tg_ID ` share_tags db orgID b" for a
  proof -
    from a obtain t where t: "t \<in> set (db_tags db)" "ad_TagID a = tg_ID t" "tg_GatewayID t \<in> g_ID ` share_gateways db orgID b"
      by (auto simp: share_tags_def)
    then show ?thesis using alarm_in_org[OF i t(1,2)] tag_in_org[OF i, of _ t] by (auto simp: share_gateways_def)
  qed
  then show "set (cf_Alarms cfg) = share_alarms db orgID b"
    by (auto simp: r(7) query_alarms_def share_alarms_def has_key_def t)
qed

lemma ApplyConfig_None:
  "ApplyConfig fails (Some cfg) db = (None, db') \<Longrightarrow> 0 < cf_OrgID cfg \<and> apply_statements fails cfg db = Inr db'"
  by (auto simp: ApplyConfig_def split: if_splits sum.splits)

lemma ApplyConfig_healthy:
  "0 < cf_OrgID cfg \<Longrightarrow> apply_statements healthy cfg db = Inr db' \<Longrightarrow> ApplyConfig healthy (Some cfg) db = (None, db')"
  by (simp add: ApplyConfig_def healthy_def)

section \<open>Properties\<close>

lemma box_share_lemma:
  assumes "integrity db" "ids_fit db" "b \<noteq> Server"
    and "ServeConfig getenv creds fails (\<lambda>_. db) (Some orgID) (Some b) = (200, Some cfg)"
    and "integrity box" "ApplyConfig fails' (Some cfg) box = (None, box')"
  shows "org_gateways box' orgID = unassigned ` share_gateways db orgID b \<and>
    org_tags box' orgID = share_tags db orgID b \<and> org_alarms box' orgID = share_alarms db orgID b \<and>
    integrity box' \<and> list_all (\<lambda>t. list_all (\<lambda>i. i < db_seqs box' t + 1) (table_ids box' t)) sequence_tables"
proof -
  note a = ApplyConfig_None[OF assms(6)]
  have o: "0 < orgID" using a ServeConfig_result(1)[OF assms(4)] by simp
  have c: "closed_config cfg" by (rule served_closed[OF assms(1,2) o assms(4)])
  have f: "in_force cfg box'" using apply_in_force[OF _ assms(5) c] a by blast
  have m: "i \<le> max_id is" if "i \<in> set is" for i and "is" :: "int list"
  proof -
    have "x \<le> fold max ys x \<and> (\<forall>y \<in> set ys. y \<le> fold max ys x)" for x :: int and ys
      by (induction ys arbitrary: x) (auto, (meson max.bounded_iff max.cobounded1 order_trans)+)
    then show ?thesis using that by (auto simp: max_id_def split: list.split)
  qed
  have "i < db_seqs box' t + 1" if "t \<in> set sequence_tables" "i \<in> set (table_ids box' t)" for t i
    using f that m[OF that(2)] by (auto simp: in_force_def sequences_moved_def list_all_iff)
  then show ?thesis
    using f served_share[OF assms(1,3,4)] ServeConfig_result(1)[OF assms(4)] by (simp add: in_force_def list_all_iff)
qed

text \<open>
C3: a box that applied what the platform served holds, for its organization, exactly the gateways it is
responsible for, their tags and the alarm rules of those tags, with the platform's identifiers and columns;
the constraints of its database still hold, and its sequences are past every identifier.
\<close>

theorem box_holds_its_share:
  assumes "integrity db" "ids_fit db" "b \<noteq> Server"
    and "ServeConfig getenv creds fails (\<lambda>_. db) (Some orgID) (Some b) = (200, Some cfg)"
    and "integrity box" "ApplyConfig fails' (Some cfg) box = (None, box')"
  shows "org_gateways box' orgID = unassigned ` share_gateways db orgID b \<and>
    org_tags box' orgID = share_tags db orgID b \<and> org_alarms box' orgID = share_alarms db orgID b \<and>
    integrity box' \<and> list_all (\<lambda>t. list_all (\<lambda>i. i < db_seqs box' t + 1) (table_ids box' t)) sequence_tables"
  using assms by (rule box_share_lemma)

definition sample_platform :: edge_db where
  "sample_platform =
     \<lparr>db_organizations = [(1, ''Default''), (3, ''Acme'')], db_sites = [\<lparr>st_ID = 4, st_OrgID = 3, st_Name = ''Plant''\<rparr>],
      db_areas = [\<lparr>ar_ID = 6, ar_SiteID = 4, ar_Name = ''Line''\<rparr>],
      db_gateways =
        [\<lparr>g_ID = 7, g_AreaID = 6, g_Name = ''plc'', g_DriverType = ''S7'', g_ConnectionConfig = Map.empty, g_ScanRateMs = 1000,
          g_Enabled = True, g_ZeroBased = True, g_EdgeAgentID = Some 5\<rparr>,
         \<lparr>g_ID = 8, g_AreaID = 6, g_Name = ''meter'', g_DriverType = ''MODBUS_TCP'', g_ConnectionConfig = Map.empty, g_ScanRateMs = 1000,
          g_Enabled = True, g_ZeroBased = True, g_EdgeAgentID = None\<rparr>],
      db_tags =
        [\<lparr>tg_ID = 70, tg_GatewayID = 7, tg_Code = ''DB1.DBW0'', tg_Alias = ''level'', tg_DataType = ''INT'', ScalingEnabled = False,
          ScalingRawMin = 0, ScalingRawMax = 0, ScalingEuMin = 0, ScalingEuMax = 0, ScalingClamp = False, tg_Invert = False,
          tg_Historize = True, tg_HistorizeDeadband = 0, tg_SortOrder = 0, tg_JsonPath = None, tg_EuUnit = '''', tg_EuDecimals = 2\<rparr>],
      db_alarms =
        [\<lparr>ad_ID = 700, ad_TagID = 70, ad_AlarmType = ''high'', ad_Threshold = None, ad_Deadband = 0, ad_DelaySeconds = 0,
          ad_Severity = ''warning'', ad_Message = '''', ad_Enabled = True\<rparr>],
      db_agents = [(3, \<lparr>bx_ID = 5, bx_Scope = ScopeAssigned\<rparr>)], db_settings = Map.empty, db_seqs = (\<lambda>_. 0)\<rparr>"

text \<open>The database of a box as the schema creates it.\<close>

definition fresh_box :: edge_db where
  "fresh_box = \<lparr>db_organizations = [(1, ''Default'')], db_sites = [], db_areas = [], db_gateways = [], db_tags = [], db_alarms = [],
     db_agents = [], db_settings = Map.empty, db_seqs = (\<lambda>_. 1)\<rparr>"

definition sample_config :: Config where
  "sample_config = the (snd (ServeConfig (\<lambda>_. '''') (\<lambda>_. None) healthy (\<lambda>_. sample_platform) (Some 3) (Some 5)))"

definition sample_box :: edge_db where
  "sample_box = snd (ApplyConfig healthy (Some sample_config) fresh_box)"

lemma sample_platform_ok: "integrity sample_platform" "ids_fit sample_platform" "integrity fresh_box"
  by code_simp+

lemma sample_served: "ServeConfig (\<lambda>_. '''') (\<lambda>_. None) healthy (\<lambda>_. sample_platform) (Some 3) (Some 5) = (200, Some sample_config)"
proof -
  have "fst (ServeConfig (\<lambda>_. '''') (\<lambda>_. None) healthy (\<lambda>_. sample_platform) (Some 3) (Some 5)) = 200 \<and>
      snd (ServeConfig (\<lambda>_. '''') (\<lambda>_. None) healthy (\<lambda>_. sample_platform) (Some 3) (Some 5)) \<noteq> None"
    by code_simp
  then show ?thesis unfolding sample_config_def by (metis option.collapse prod.collapse)
qed

lemma sample_applied: "ApplyConfig healthy (Some sample_config) fresh_box = (None, sample_box)"
proof -
  have c: "closed_config sample_config" by (rule served_closed[OF sample_platform_ok(1,2) _ sample_served]) simp
  have n: "name_free sample_config fresh_box" "0 < cf_OrgID sample_config" by code_simp+
  obtain d where "apply_statements healthy sample_config fresh_box = Inr d" using apply_succeeds[OF sample_platform_ok(3) c n(1)] by blast
  then show ?thesis unfolding sample_box_def using ApplyConfig_healthy[OF n(2)] by (metis snd_conv)
qed

theorem box_holds_its_share_witness:
  "g_ID ` org_gateways sample_box 3 = {7} \<and> tg_ID ` org_tags sample_box 3 = {70} \<and> org_alarms sample_box 3 \<noteq> {}"
proof -
  have "g_ID ` share_gateways sample_platform 3 5 = {7} \<and> tg_ID ` share_tags sample_platform 3 5 = {70} \<and>
      share_alarms sample_platform 3 5 \<noteq> {}"
    by code_simp
  then show ?thesis
    using box_holds_its_share[OF sample_platform_ok(1,2) _ sample_served sample_platform_ok(3) sample_applied]
    by (simp add: Server_def image_image)
qed


text \<open>
C4: what the platform serves from a consistent database is accepted by every box whose own database is
consistent and does not give the organization's name to another organization, and applying it again, as
the box does every minute, changes nothing.
\<close>

theorem served_is_accepted:
  assumes "integrity db" "ids_fit db" "0 < orgID"
    and "ServeConfig getenv creds fails (\<lambda>_. db) (Some orgID) (Some b) = (200, Some cfg)"
    and "integrity box" "name_free cfg box"
  shows "\<exists>box'. ApplyConfig healthy (Some cfg) box = (None, box') \<and> ApplyConfig healthy (Some cfg) box' = (None, box')"
proof -
  have c: "closed_config cfg" by (rule served_closed[OF assms(1-4)])
  have o: "0 < cf_OrgID cfg" using ServeConfig_result(1)[OF assms(4)] assms(3) by simp
  obtain box' where a: "apply_statements healthy cfg box = Inr box'" using apply_succeeds[OF assms(5) c assms(6)] by blast
  then have "apply_statements healthy cfg box' = Inr box'" using apply_same[OF apply_in_force[OF a assms(5) c] c] by blast
  then show ?thesis using ApplyConfig_healthy[OF o] a by blast
qed

theorem served_is_accepted_witness:
  "\<exists>box'. ApplyConfig healthy (Some sample_config) fresh_box = (None, box') \<and> ApplyConfig healthy (Some sample_config) box' = (None, box')"
proof -
  have "name_free sample_config fresh_box" by code_simp
  then show ?thesis
    by (intro served_is_accepted[OF sample_platform_ok(1,2) _ sample_served sample_platform_ok(3)]) simp
qed

text \<open>
Sites and areas are never removed from a box: one that is not in the configuration any more stays, although
everything no longer in the payload is said to be removed.
\<close>

theorem hierarchy_never_pruned:
  assumes "ApplyConfig fails (Some cfg) box = (None, box')"
    and "s \<in> set (db_sites box)" "\<not> has_key st_ID (cf_Sites cfg) (st_ID s)"
    and "a \<in> set (db_areas box)" "\<not> has_key ar_ID (cf_Areas cfg) (ar_ID a)"
  shows "s \<in> set (db_sites box') \<and> a \<in> set (db_areas box')"
proof -
  from ApplyConfig_None[OF assms(1)] obtain d1 d2 d3 d4 d5 d6 where
    d: "applyOrg fails cfg box = Inr d1" "applyHierarchy fails cfg d1 = Inr d2" "applyGateways fails cfg d2 = Inr d3"
      "applyTags fails cfg d3 = Inr d4" "applyAlarms fails cfg d4 = Inr d5" "applySettings fails cfg d5 = Inr d6"
      "pruneSequences fails d6 = Inr box'"
    unfolding apply_statements_def bind_ok_Inr_iff by blast
  have frame: "hierarchy_rows d5 = hierarchy_rows d2"
    using lower_frame(1)[OF d(3)] lower_frame(2)[OF d(4)] lower_frame(3)[OF d(5)] by simp
  obtain q where "box' = d6\<lparr>db_seqs := q\<rparr>" using prune_result d(7) unfolding pruneSequences_def by blast
  then have "db_sites box' = db_sites d2 \<and> db_areas box' = db_areas d2" using settings_frame[OF d(6)] frame by (auto simp: hierarchy_rows_def)
  moreover have "db_sites d1 = db_sites box \<and> db_areas d1 = db_areas box" using d(1) by (auto simp: applyOrg_def exec_Inr)
  ultimately show ?thesis using d(2) assms(2-5)
    by (auto simp: applyHierarchy_def bind_ok_Inr_iff dest!: sites_result areas_result intro!: keep_fold_replace)
qed

definition emptied_config :: Config where
  "emptied_config = \<lparr>cf_OrgID = 3, cf_OrgName = ''Acme'', cf_AgentID = 5,
     cf_MQTT = \<lparr>mq_Host = ''localhost'', mq_Port = 1883, mq_Username = [], mq_Password = []\<rparr>,
     cf_Sites = [], cf_Areas = [], cf_Gateways = [], cf_Tags = [], cf_Alarms = [], cf_Unassigned = 0, cf_WriteCommandMaxAgeSeconds = 0\<rparr>"

theorem hierarchy_never_pruned_witness:
  "\<exists>box'. ApplyConfig healthy (Some emptied_config) sample_platform = (None, box') \<and> org_gateways box' 3 = {} \<and>
    \<lparr>st_ID = 4, st_OrgID = 3, st_Name = ''Plant''\<rparr> \<in> set (db_sites box') \<and>
    \<lparr>ar_ID = 6, ar_SiteID = 4, ar_Name = ''Line''\<rparr> \<in> set (db_areas box')"
proof -
  have c: "closed_config emptied_config" "name_free emptied_config sample_platform" by code_simp+
  obtain box' where a: "apply_statements healthy emptied_config sample_platform = Inr box'"
    using apply_succeeds[OF sample_platform_ok(1) c] by blast
  then have b: "ApplyConfig healthy (Some emptied_config) sample_platform = (None, box')"
    by (intro ApplyConfig_healthy) (simp_all add: emptied_config_def)
  have f: "in_force emptied_config box'" by (rule apply_in_force[OF a sample_platform_ok(1) c(1)])
  have "\<lparr>st_ID = 4, st_OrgID = 3, st_Name = ''Plant''\<rparr> \<in> set (db_sites sample_platform)"
      "\<not> has_key st_ID (cf_Sites emptied_config) (st_ID \<lparr>st_ID = 4, st_OrgID = 3, st_Name = ''Plant''\<rparr>)"
      "\<lparr>ar_ID = 6, ar_SiteID = 4, ar_Name = ''Line''\<rparr> \<in> set (db_areas sample_platform)"
      "\<not> has_key ar_ID (cf_Areas emptied_config) (ar_ID \<lparr>ar_ID = 6, ar_SiteID = 4, ar_Name = ''Line''\<rparr>)"
    by code_simp+
  note this = hierarchy_never_pruned[OF b this]
  moreover have "org_gateways box' 3 = {}" using f by (simp add: in_force_def emptied_config_def)
  ultimately show ?thesis using b by blast
qed

text \<open>
A fresh box already has an organization called Default with identifier 1, so a box of any other organization of
that name never accepts a configuration.
\<close>

theorem default_name_blocks:
  assumes "cf_OrgName cfg = ''Default''" "cf_OrgID cfg \<noteq> 1"
  shows "\<exists>e. ApplyConfig fails (Some cfg) fresh_box = (Some e, fresh_box)"
proof -
  have "\<exists>e. apply_statements fails cfg fresh_box = Inl e"
    using assms by (simp add: apply_statements_def applyOrg_def exec_def fresh_box_def)
  then show ?thesis by (auto simp: ApplyConfig_def)
qed

theorem default_name_blocks_witness:
  "\<exists>e. ApplyConfig healthy (Some (sample_config\<lparr>cf_OrgName := ''Default''\<rparr>)) fresh_box = (Some e, fresh_box)"
proof -
  have "cf_OrgID sample_config = 3" by code_simp
  then show ?thesis by (intro default_name_blocks) simp_all
qed

section \<open>Commands to boxes\<close>

definition restart_topic :: "int \<Rightarrow> int option \<Rightarrow> string" where
  "restart_topic org agent = ''sys/restart/'' @ itoa org @ (case agent of None \<Rightarrow> '''' | Some a \<Rightarrow> CHR ''/'' # itoa a)"

lemma itoa_last: "last (itoa i) \<noteq> CHR ''/''"
  using itoa_no_slash[of i] by (metis itoa_nonempty last_in_set)

lemma restart_topic_trim: "trim_char CHR ''/'' (restart_topic org agent) = restart_topic org agent"
  by (rule trim_char_id) (auto simp: restart_topic_def itoa_last split: option.split)

lemma restart_topic_parts:
  "split_on CHR ''/'' (restart_topic org agent) =
    [''sys'', ''restart'', itoa org] @ (case agent of None \<Rightarrow> [] | Some a \<Rightarrow> [itoa a])"
proof -
  have "split_on CHR ''/'' (restart_topic org agent) =
      ''sys'' # ''restart'' # split_on CHR ''/'' (itoa org @ (case agent of None \<Rightarrow> '''' | Some a \<Rightarrow> CHR ''/'' # itoa a))"
    using split_on_append[of "CHR ''/''" "''sys''"] split_on_append[of "CHR ''/''" "''restart''"]
    by (simp add: restart_topic_def)
  then show ?thesis by (cases agent) (simp_all add: split_on_append split_on_no_sep itoa_no_slash)
qed

text \<open>
A command to a whole organization reaches every box of it and no other; a command to one box reaches the box with
that identity only, and never a box that does not know its identity yet.
\<close>

theorem restart_reaches:
  assumes "is_int64 org" "is_int64 a"
  shows "(commandIsForThisBox my (restart_topic org None) myOrg \<longleftrightarrow> myOrg \<noteq> 0 \<and> org = myOrg) \<and>
    (commandIsForThisBox my (restart_topic org (Some a)) myOrg \<longleftrightarrow> myOrg \<noteq> 0 \<and> org = myOrg \<and> my \<noteq> 0 \<and> my = a)"
  using assms by (auto simp: commandIsForThisBox_def restart_topic_trim restart_topic_parts is_int64_def Atoi_itoa)

theorem restart_reaches_witness: "commandIsForThisBox 5 (restart_topic 3 (Some 5)) 3 \<and> \<not> commandIsForThisBox 0 (restart_topic 3 (Some 5)) 3"
  using restart_reaches[of 3 5 5 3] restart_reaches[of 3 5 0 3] by (simp add: is_int64_def)

end
