(* ===== verification/Driver_Convergence.thy ===== *)
theory Driver_Convergence
  imports Driver_Manager Edge_Mirror
begin

text \<open>
  With a Docker daemon that does what it documents and does not fail, a synchronization leaves exactly one
  running driver for every enabled gateway polled on this host, and none for any other gateway.
\<close>

section \<open>What Docker documents\<close>

definition is_hex :: "char \<Rightarrow> bool" where
  "is_hex c \<longleftrightarrow> c \<in> set ''0123456789abcdef''"

text \<open>Container identifiers are hexadecimal.  The length is left open, so that they never run out.\<close>

definition is_docker_id :: "string \<Rightarrow> bool" where
  "is_docker_id s \<longleftrightarrow> s \<noteq> [] \<and> list_all is_hex s"

text \<open>A reference is an identifier, else a name.\<close>

definition lookup :: "string \<Rightarrow> container list \<Rightarrow> container option" where
  "lookup ref tbl = (case find (\<lambda>c. cn_ID c = ref) tbl of Some c \<Rightarrow> Some c | None \<Rightarrow> find (\<lambda>c. cn_Name c = ref) tbl)"

definition set_running :: "string \<Rightarrow> bool \<Rightarrow> container list \<Rightarrow> container list" where
  "set_running cid b tbl = map (\<lambda>c. if cn_ID c = cid then c\<lparr>cn_Running := b\<rparr> else c) tbl"

definition same :: "'d docker \<Rightarrow> 'd \<Rightarrow> 'd \<Rightarrow> bool" where
  "same K d d' \<longleftrightarrow> dk_table K d' = dk_table K d \<and> dk_issued K d' = dk_issued K d"

definition table_ok :: "container list \<Rightarrow> string list \<Rightarrow> bool" where
  "table_ok tbl issued \<longleftrightarrow> distinct (map cn_ID tbl) \<and> distinct (map cn_Name tbl) \<and>
     list_all (\<lambda>c. is_docker_id (cn_ID c) \<and> cn_ID c \<in> set issued \<and> \<not> is_docker_id (cn_Name c)) tbl"

definition inspect_law :: "'d docker \<Rightarrow> bool" where
  "inspect_law K \<longleftrightarrow> (\<forall>ref d. same K d (fst (ContainerInspect K ref d)) \<and>
     (case lookup ref (dk_table K d) of
        None \<Rightarrow> \<exists>e. snd (ContainerInspect K ref d) = Inl e
      | Some c \<Rightarrow> \<exists>i. snd (ContainerInspect K ref d) = Inr i \<and> container.truncate i = c \<and> \<not> ci_Incomplete i))"

text \<open>Creating fails only when the name is taken, and the variables asked for are those of the container.\<close>

definition create_law :: "'d docker \<Rightarrow> bool" where
  "create_law K \<longleftrightarrow> (\<forall>spec name d. table_ok (dk_table K d) (dk_issued K d) \<longrightarrow> lookup name (dk_table K d) = None \<longrightarrow>
     (\<exists>c. snd (ContainerCreate K spec name d) = Inr (cn_ID c) \<and> dk_table K (fst (ContainerCreate K spec name d)) = dk_table K d @ [c] \<and>
        dk_issued K (fst (ContainerCreate K spec name d)) = cn_ID c # dk_issued K d \<and> is_docker_id (cn_ID c) \<and>
        cn_ID c \<notin> set (dk_issued K d) \<and> cn_Name c = name \<and> \<not> cn_Running c \<and>
        (\<forall>k v. parse_env (sp_Env spec) k = Some v \<longrightarrow> parse_env (cn_Env c) k = Some v)))"

definition start_law :: "'d docker \<Rightarrow> bool" where
  "start_law K \<longleftrightarrow> (\<forall>cid d. cid \<in> set (map cn_ID (dk_table K d)) \<longrightarrow>
     snd (ContainerStart K cid d) = None \<and> dk_table K (fst (ContainerStart K cid d)) = set_running cid True (dk_table K d) \<and>
     dk_issued K (fst (ContainerStart K cid d)) = dk_issued K d)"

definition stop_law :: "'d docker \<Rightarrow> bool" where
  "stop_law K \<longleftrightarrow> (\<forall>ref d. dk_issued K (fst (ContainerStop K ref d)) = dk_issued K d \<and>
     (case lookup ref (dk_table K d) of
        None \<Rightarrow> snd (ContainerStop K ref d) = NotFound \<and> dk_table K (fst (ContainerStop K ref d)) = dk_table K d
      | Some c \<Rightarrow> snd (ContainerStop K ref d) = Stopped \<and>
          dk_table K (fst (ContainerStop K ref d)) = set_running (cn_ID c) False (dk_table K d)))"

definition remove_law :: "'d docker \<Rightarrow> bool" where
  "remove_law K \<longleftrightarrow> (\<forall>ref force d. dk_issued K (fst (ContainerRemove K ref force d)) = dk_issued K d \<and>
     (case lookup ref (dk_table K d) of
        None \<Rightarrow> dk_table K (fst (ContainerRemove K ref force d)) = dk_table K d
      | Some c \<Rightarrow> force \<or> \<not> cn_Running c \<longrightarrow>
          dk_table K (fst (ContainerRemove K ref force d)) = filter (\<lambda>x. cn_ID x \<noteq> cn_ID c) (dk_table K d)))"

definition network_law :: "'d docker \<Rightarrow> bool" where
  "network_law K \<longleftrightarrow> (\<forall>name d. same K d (fst (NetworkInspect K name d)) \<and> (\<exists>i. snd (NetworkInspect K name d) = Inr i) \<and>
     same K d (fst (NetworkList K d)) \<and> (\<exists>ns. snd (NetworkList K d) = Inr ns) \<and>
     same K d (fst (NetworkCreate K name d)) \<and> (\<exists>i. snd (NetworkCreate K name d) = Inr i))"

definition image_law :: "'d docker \<Rightarrow> bool" where
  "image_law K \<longleftrightarrow> (\<forall>img d. same K d (fst (ImageInspect K img d)) \<and> same K d (fst (ImagePull K img d)))"

definition reliable_docker :: "'d docker \<Rightarrow> bool" where
  "reliable_docker K \<longleftrightarrow> inspect_law K \<and> create_law K \<and> start_law K \<and> stop_law K \<and> remove_law K \<and> network_law K \<and> image_law K"

section \<open>The table of containers\<close>

lemma lookup_Some: "lookup ref tbl = Some c \<Longrightarrow> c \<in> set tbl \<and> (cn_ID c = ref \<or> cn_Name c = ref)"
  by (auto simp: lookup_def find_Some_iff split: option.splits)

lemma lookup_None: "lookup ref tbl = None \<longleftrightarrow> (\<forall>c \<in> set tbl. cn_ID c \<noteq> ref \<and> cn_Name c \<noteq> ref)"
proof
  assume "lookup ref tbl = None"
  then show "\<forall>c \<in> set tbl. cn_ID c \<noteq> ref \<and> cn_Name c \<noteq> ref" by (auto simp: lookup_def find_None_iff split: option.splits)
next
  assume "\<forall>c \<in> set tbl. cn_ID c \<noteq> ref \<and> cn_Name c \<noteq> ref"
  then show "lookup ref tbl = None" using lookup_Some by (metis not_None_eq)
qed

lemma table_eqD:
  assumes "table_ok tbl issued" "c \<in> set tbl" "c' \<in> set tbl"
  shows "cn_ID c = cn_ID c' \<Longrightarrow> c = c'" "cn_Name c = cn_Name c' \<Longrightarrow> c = c'"
  using assms by (auto simp: table_ok_def distinct_map dest: inj_onD)

lemma lookup_id:
  assumes "table_ok tbl issued" "is_docker_id ref" "lookup ref tbl = Some c"
  shows "c \<in> set tbl" "cn_ID c = ref"
  using lookup_Some[OF assms(3)] assms(1,2) by (auto simp: table_ok_def list_all_iff)

lemma lookup_name:
  assumes "table_ok tbl issued" "\<not> is_docker_id ref" "lookup ref tbl = Some c"
  shows "c \<in> set tbl" "cn_Name c = ref"
  using lookup_Some[OF assms(3)] assms(1,2) by (auto simp: table_ok_def list_all_iff)

lemma lookup_member: "table_ok tbl issued \<Longrightarrow> c \<in> set tbl \<Longrightarrow> lookup (cn_ID c) tbl = Some c"
proof -
  assume t: "table_ok tbl issued" and c: "c \<in> set tbl"
  then obtain c' where l: "lookup (cn_ID c) tbl = Some c'" using lookup_None[of "cn_ID c" tbl] by fastforce
  have "is_docker_id (cn_ID c)" using t c by (simp add: table_ok_def list_all_iff)
  then have "c' = c" using lookup_id[OF t _ l] table_eqD(1)[OF t _ c] by simp
  then show ?thesis using l by simp
qed

lemma set_running_keys [simp]: "map cn_ID (set_running cid b tbl) = map cn_ID tbl" "map cn_Name (set_running cid b tbl) = map cn_Name tbl"
  by (simp_all add: set_running_def comp_def if_distrib cong: if_cong)

lemma table_ok_set_running [simp]: "table_ok (set_running cid b tbl) issued = table_ok tbl issued"
proof -
  have "list_all P (set_running cid b tbl) = list_all P tbl"
    if "\<And>c. P (c\<lparr>cn_Running := b\<rparr>) = P c" for P
    using that by (induction tbl) (auto simp: set_running_def)
  then show ?thesis by (simp add: table_ok_def)
qed

lemma table_ok_filter: "table_ok tbl issued \<Longrightarrow> table_ok (filter P tbl) issued"
  by (simp add: table_ok_def distinct_map_filter list_all_iff)

lemma table_ok_add:
  "table_ok tbl issued \<Longrightarrow> lookup (cn_Name c) tbl = None \<Longrightarrow> is_docker_id (cn_ID c) \<Longrightarrow> cn_ID c \<notin> set issued \<Longrightarrow>
    \<not> is_docker_id (cn_Name c) \<Longrightarrow> table_ok (tbl @ [c]) (cn_ID c # issued)"
  by (auto simp: table_ok_def lookup_None list_all_iff)

text \<open>The gateway a container polls: its environment says so.\<close>

definition container_gateway :: "container \<Rightarrow> int option" where
  "container_gateway c = Option.bind (parse_env (cn_Env c) ''GATEWAY_ID'') Atoi"

definition polling :: "container list \<Rightarrow> int \<Rightarrow> container set" where
  "polling tbl i = {c \<in> set tbl. cn_Running c \<and> container_gateway c = Some i}"

lemma container_gateway_update [simp]: "container_gateway (c\<lparr>cn_Running := b\<rparr>) = container_gateway c"
  by (simp add: container_gateway_def)

lemma parse_env_Cons:
  assumes "k \<notin> set (map (fst \<circ> cut_env) env)"
  shows "parse_env (kv # env) k = (if fst (cut_env kv) = k then Some (snd (cut_env kv)) else None)"
proof -
  have "k \<notin> set (map (fst \<circ> cut_env) env) \<Longrightarrow> fold (\<lambda>kv m. let (k, v) = cut_env kv in m(k \<mapsto> v)) env m k = m k" for m
    by (induction env arbitrary: m) (auto simp: Let_def split: prod.splits)
  then show ?thesis using assms by (auto simp: parse_env_def Let_def split: prod.splits)
qed

lemma driver_env_gateway: "parse_env (driver_env getenv orgID i) ''GATEWAY_ID'' = Some (itoa i)"
proof -
  let ?rest = "tl (driver_env getenv orgID i)"
  have e: "driver_env getenv orgID i = (''GATEWAY_ID='' @ itoa i) # ?rest" by (simp add: driver_env_def)
  have "cut_env (''GATEWAY_ID='' @ v) = (''GATEWAY_ID'', v)" for v by (simp add: cut_env_def)
  moreover have "''GATEWAY_ID'' \<notin> set (map (fst \<circ> cut_env) ?rest)" by (auto simp: driver_env_def cut_env_def split: if_splits)
  ultimately show ?thesis by (subst e, subst parse_env_Cons) simp_all
qed

lemma container_name_inj:
  assumes "driverServices t = Some p" "driverServices t' = Some p'" "container_name p i = container_name p' j" "is_int64 i" "is_int64 j"
  shows "i = j"
  using assms itoa_inj by (auto simp: driverServices_def container_name_def split: if_splits)

lemma container_name_no_id: "\<not> is_docker_id (container_name p i)"
  by (auto simp: is_docker_id_def container_name_def is_hex_def)

section \<open>What the manager keeps\<close>

text \<open>A state that says running names the container it runs.\<close>

definition known :: "GatewayState option \<Rightarrow> container \<Rightarrow> bool" where
  "known st c \<longleftrightarrow> (case st of None \<Rightarrow> False | Some s \<Rightarrow> gs_Running s \<and> gs_ContainerID s = cn_ID c)"

definition active :: "GatewayState option \<Rightarrow> bool" where
  "active st \<longleftrightarrow> (case st of None \<Rightarrow> False | Some s \<Rightarrow> gs_Running s)"

definition containers :: "'d manager_env \<Rightarrow> 'd manager_state \<Rightarrow> container list" where
  "containers E m = dk_table (me_docker E) (dm_docker m)"

definition issued :: "'d manager_env \<Rightarrow> 'd manager_state \<Rightarrow> string list" where
  "issued E m = dk_issued (me_docker E) (dm_docker m)"

text \<open>A container that has the name of a gateway's driver polls that gateway.\<close>

definition named_ok :: "container list \<Rightarrow> bool" where
  "named_ok tbl \<longleftrightarrow> (\<forall>t p i. driverServices t = Some p \<longrightarrow> is_int64 i \<longrightarrow>
     (\<forall>c \<in> set tbl. cn_Name c = container_name p i \<longrightarrow> container_gateway c = Some i))"

definition states_ok :: "container list \<Rightarrow> string list \<Rightarrow> (int \<rightharpoonup> GatewayState) \<Rightarrow> bool" where
  "states_ok tbl ids sts \<longleftrightarrow> (\<forall>i s. sts i = Some s \<longrightarrow> gs_Running s \<longrightarrow> is_docker_id (gs_ContainerID s) \<and> gs_ContainerID s \<in> set ids \<and>
     (\<forall>c \<in> set tbl. cn_ID c = gs_ContainerID s \<longrightarrow> container_gateway c = Some i))"

definition manager_ok :: "'d manager_env \<Rightarrow> 'd manager_state \<Rightarrow> bool" where
  "manager_ok E m \<longleftrightarrow> table_ok (containers E m) (issued E m) \<and> named_ok (containers E m) \<and>
     states_ok (containers E m) (issued E m) (dm_states m)"

lemma manager_world:
  assumes "containers E m' = containers E m" "issued E m' = issued E m" "dm_states m' = dm_states m"
  shows "manager_ok E m' = manager_ok E m"
  using assms by (simp add: manager_ok_def)

text \<open>What a step for gateway \<open>i\<close> leaves alone.\<close>

definition elsewhere :: "'d manager_env \<Rightarrow> int \<Rightarrow> 'd manager_state \<Rightarrow> 'd manager_state \<Rightarrow> bool" where
  "elsewhere E i m m' \<longleftrightarrow> (\<forall>j. j \<noteq> i \<longrightarrow> dm_states m' j = dm_states m j \<and> polling (containers E m') j = polling (containers E m) j)"

lemma elsewhere_trans: "elsewhere E i m m' \<Longrightarrow> elsewhere E i m' m'' \<Longrightarrow> elsewhere E i m m''"
  by (simp add: elsewhere_def)

definition settled :: "'d manager_env \<Rightarrow> gateway \<Rightarrow> 'd manager_state \<Rightarrow> bool" where
  "settled E g m \<longleftrightarrow> (if g_Enabled g then \<exists>c. polling (containers E m) (g_ID g) = {c} \<and> known (dm_states m (g_ID g)) c
     else polling (containers E m) (g_ID g) = {})"

text \<open>
  The containers that poll a gateway before its turn: the one its state names, or, when no state says that it
  runs, one under the name its driver is about to be given.
\<close>

definition accounted :: "'d manager_env \<Rightarrow> gateway \<Rightarrow> 'd manager_state \<Rightarrow> bool" where
  "accounted E g m \<longleftrightarrow> (\<forall>c \<in> polling (containers E m) (g_ID g). known (dm_states m (g_ID g)) c \<or>
     \<not> active (dm_states m (g_ID g)) \<and> g_Enabled g \<and>
     (case driverServices (g_DriverType g) of None \<Rightarrow> False | Some p \<Rightarrow> cn_Name c = container_name p (g_ID g)))"

lemma published [simp]:
  "containers E (publishGatewayStatus now i st e m) = containers E m" "issued E (publishGatewayStatus now i st e m) = issued E m"
  "dm_states (publishGatewayStatus now i st e m) = dm_states m" "dm_docker (publishGatewayStatus now i st e m) = dm_docker m"
  by (simp_all add: publishGatewayStatus_def containers_def issued_def Let_def)

lemma put_state_simps [simp]:
  "containers E (put_state i s m) = containers E m" "issued E (put_state i s m) = issued E m"
  "dm_states (put_state i s m) = (dm_states m)(i \<mapsto> s)" "dm_docker (put_state i s m) = dm_docker m"
  by (simp_all add: put_state_def containers_def issued_def)

lemma docker_simps [simp]:
  "containers E (m\<lparr>dm_docker := d\<rparr>) = dk_table (me_docker E) d" "issued E (m\<lparr>dm_docker := d\<rparr>) = dk_issued (me_docker E) d"
  by (simp_all add: containers_def issued_def)

lemma known_active: "known st c \<Longrightarrow> active st"
  by (auto simp: known_def active_def split: option.splits)

lemma known_same: "known st c \<Longrightarrow> known st c' \<Longrightarrow> cn_ID c' = cn_ID c"
  by (auto simp: known_def split: option.splits)

lemma polling_mono: "c \<in> polling tbl i \<Longrightarrow> c \<in> set tbl \<and> cn_Running c \<and> container_gateway c = Some i"
  by (simp add: polling_def)

text \<open>At most one container is the one a state names.\<close>

lemma known_polling:
  assumes "manager_ok E m" "\<forall>c \<in> polling (containers E m) i. known (dm_states m i) c" "c \<in> polling (containers E m) i"
  shows "polling (containers E m) i = {c}"
proof -
  have t: "table_ok (containers E m) (issued E m)" using assms(1) by (simp add: manager_ok_def)
  have "c' = c" if "c' \<in> polling (containers E m) i" for c'
  proof -
    have "cn_ID c' = cn_ID c" using assms(2,3) that known_same by blast
    then show ?thesis using table_eqD(1)[OF t] that assms(3) polling_mono by blast
  qed
  then show ?thesis using assms(3) by blast
qed

section \<open>Steps on the table\<close>

lemma polling_set_running:
  assumes "\<And>c. c \<in> set tbl \<Longrightarrow> cn_ID c = cid \<Longrightarrow> container_gateway c \<noteq> Some j"
  shows "polling (set_running cid b tbl) j = polling tbl j"
  using assms by (force simp: polling_def set_running_def)

lemma polling_filter:
  assumes "\<And>c. c \<in> set tbl \<Longrightarrow> cn_ID c = cid \<Longrightarrow> container_gateway c \<noteq> Some j"
  shows "polling (filter (\<lambda>c. cn_ID c \<noteq> cid) tbl) j = polling tbl j"
  using assms by (auto simp: polling_def)

lemma set_runningE:
  assumes "c \<in> set (set_running cid b tbl)"
  obtains c0 where "c0 \<in> set tbl" "cn_ID c = cn_ID c0" "cn_Name c = cn_Name c0" "container_gateway c = container_gateway c0"
  using assms by (auto simp: set_running_def split: if_splits)

lemma named_ok_set_running: "named_ok tbl \<Longrightarrow> named_ok (set_running cid b tbl)"
  unfolding named_ok_def by (metis set_runningE)

lemma states_ok_set_running: "states_ok tbl ids sts \<Longrightarrow> states_ok (set_running cid b tbl) ids sts"
  unfolding states_ok_def by (metis set_runningE)

lemma named_ok_filter: "named_ok tbl \<Longrightarrow> named_ok (filter P tbl)"
  by (simp add: named_ok_def)

lemma states_ok_filter: "states_ok tbl ids sts \<Longrightarrow> states_ok (filter P tbl) ids sts"
  by (simp add: states_ok_def)

lemma states_ok_inactive:
  assumes "states_ok tbl ids sts" "\<not> gs_Running s"
  shows "states_ok tbl ids (sts(i \<mapsto> s))"
  using assms by (auto simp: states_ok_def)

lemma states_ok_drop: "states_ok tbl ids sts \<Longrightarrow> states_ok tbl ids (sts(i := None))"
  by (auto simp: states_ok_def)

lemma states_ok_running:
  assumes "states_ok tbl ids sts" "table_ok tbl ids" "c \<in> set tbl" "container_gateway c = Some i"
  shows "states_ok tbl ids (sts(i \<mapsto> running_state g (cn_ID c)))"
proof -
  have "is_docker_id (cn_ID c) \<and> cn_ID c \<in> set ids" using assms(2,3) by (simp add: table_ok_def list_all_iff)
  moreover have "c' = c" if "c' \<in> set tbl" "cn_ID c' = cn_ID c" for c' using table_eqD(1)[OF assms(2) that(1) assms(3)] that(2) .
  ultimately show ?thesis using assms(1,4) by (auto simp: states_ok_def running_state_def)
qed

lemma states_ok_add:
  assumes "states_ok tbl ids sts" "cn_ID c \<notin> set ids"
  shows "states_ok (tbl @ [c]) (cn_ID c # ids) sts"
  using assms by (auto simp: states_ok_def)

lemma named_ok_add:
  assumes "named_ok tbl" "cn_Name c = container_name p i" "driverServices t = Some p" "container_gateway c = Some i" "is_int64 i"
  shows "named_ok (tbl @ [c])"
  using assms container_name_inj[of _ _ t p _ i] by (fastforce simp: named_ok_def)

lemma set_running_other: "cid \<notin> set (map cn_ID tbl) \<Longrightarrow> set_running cid b tbl = tbl"
  unfolding set_running_def by (rule map_idI) auto

section \<open>Calls of Docker\<close>

lemma reliableD:
  assumes "reliable_docker K"
  shows "inspect_law K" "create_law K" "start_law K" "stop_law K" "remove_law K" "network_law K" "image_law K"
  using assms by (simp_all add: reliable_docker_def)

lemma inspect_same:
  assumes "reliable_docker K"
  shows "dk_table K (fst (ContainerInspect K ref d)) = dk_table K d" "dk_issued K (fst (ContainerInspect K ref d)) = dk_issued K d"
  using reliableD(1)[OF assms] by (simp_all add: inspect_law_def same_def)

lemma inspect_result:
  assumes "reliable_docker K"
  shows "lookup ref (dk_table K d) = None \<Longrightarrow> \<exists>e. snd (ContainerInspect K ref d) = Inl e"
    "lookup ref (dk_table K d) = Some c \<Longrightarrow>
      \<exists>i. snd (ContainerInspect K ref d) = Inr i \<and> container.truncate i = c \<and> \<not> ci_Incomplete i"
  using reliableD(1)[OF assms, unfolded inspect_law_def, THEN spec[of _ ref], THEN spec[of _ d]] by simp_all

lemma create_result:
  assumes "reliable_docker K" "table_ok (dk_table K d) (dk_issued K d)" "lookup name (dk_table K d) = None"
  obtains c where "snd (ContainerCreate K spec name d) = Inr (cn_ID c)"
    "dk_table K (fst (ContainerCreate K spec name d)) = dk_table K d @ [c]"
    "dk_issued K (fst (ContainerCreate K spec name d)) = cn_ID c # dk_issued K d" "is_docker_id (cn_ID c)"
    "cn_ID c \<notin> set (dk_issued K d)" "cn_Name c = name" "\<not> cn_Running c"
    "\<And>k v. parse_env (sp_Env spec) k = Some v \<Longrightarrow> parse_env (cn_Env c) k = Some v"
  using reliableD(2)[OF assms(1)] assms(2,3) unfolding create_law_def by blast

lemma start_result:
  assumes "reliable_docker K" "cid \<in> set (map cn_ID (dk_table K d))"
  shows "snd (ContainerStart K cid d) = None" "dk_table K (fst (ContainerStart K cid d)) = set_running cid True (dk_table K d)"
    "dk_issued K (fst (ContainerStart K cid d)) = dk_issued K d"
  using reliableD(3)[OF assms(1)] assms(2) by (simp_all add: start_law_def)

lemma networks_same:
  assumes "reliable_docker K"
  shows "same K d (fst (NetworkInspect K name d))" "same K d (fst (NetworkList K d))" "same K d (fst (NetworkCreate K name d))"
    "snd (NetworkInspect K name d) \<noteq> Inl e" "snd (NetworkList K d) \<noteq> Inl e" "snd (NetworkCreate K name d) \<noteq> Inl e"
  using reliableD(6)[OF assms] unfolding network_law_def by (metis Inl_Inr_False)+

lemma same_trans: "same K a b \<Longrightarrow> same K b c \<Longrightarrow> same K a c"
  by (simp add: same_def)

lemma set_network_docker [simp]: "dm_docker (set_network i m) = dm_docker m" "dm_states (set_network i m) = dm_states m"
  "dm_orgID (set_network i m) = dm_orgID m"
  by (simp_all add: set_network_def)

definition quiet :: "'d manager_env \<Rightarrow> 'd manager_state \<Rightarrow> 'd manager_state \<Rightarrow> bool" where
  "quiet E m m' \<longleftrightarrow> containers E m' = containers E m \<and> issued E m' = issued E m \<and> dm_states m' = dm_states m"

lemma byName_quiet:
  assumes "reliable_docker (me_docker E)"
  shows "quiet E m (fst (ensureNetwork_byName (me_docker E) m)) \<and> snd (ensureNetwork_byName (me_docker E) m) = None"
proof -
  let ?K = "me_docker E"
  obtain d l where l: "NetworkList ?K (dm_docker m) = (d, Inr l)" "same ?K (dm_docker m) d"
    using networks_same(2,5)[OF assms, where d = "dm_docker m"] by (metis old.sum.exhaust prod.collapse fst_conv snd_conv)
  obtain d' i where c: "NetworkCreate ?K dockerNetworkName d = (d', Inr i)" "same ?K d d'"
    using networks_same(3,6)[OF assms, where d = d and name = dockerNetworkName] by (metis old.sum.exhaust prod.collapse fst_conv snd_conv)
  show ?thesis using l(2) c(2)
    by (auto simp: ensureNetwork_byName_def Let_def l(1) c(1) quiet_def containers_def issued_def same_def split: option.split)
qed

lemma ensureNetwork_quiet:
  assumes "reliable_docker (me_docker E)"
  shows "quiet E m (fst (ensureNetwork E m)) \<and> snd (ensureNetwork E m) = None"
proof (cases "me_getenv E ''DRIVER_NETWORK'' = []")
  case False
  let ?K = "me_docker E" and ?n = "me_getenv E ''DRIVER_NETWORK''"
  obtain d i where l: "NetworkInspect ?K ?n (dm_docker m) = (d, Inr i)" "same ?K (dm_docker m) d"
    using networks_same(1,4)[OF assms, where d = "dm_docker m" and name = ?n] by (metis old.sum.exhaust prod.collapse fst_conv snd_conv)
  show ?thesis using l(2) False by (simp add: ensureNetwork_def l(1) quiet_def containers_def issued_def same_def)
next
  case True
  have "quiet E m (fst (ensureNetwork_byName (me_docker E) (m\<lparr>dm_docker := fst (ContainerInspect (me_docker E) h (dm_docker m))\<rparr>)))" for h
    using byName_quiet[OF assms, of "m\<lparr>dm_docker := fst (ContainerInspect (me_docker E) h (dm_docker m))\<rparr>"]
    by (simp add: quiet_def inspect_same[OF assms] containers_def issued_def)
  then show ?thesis using True byName_quiet[OF assms]
    by (auto simp: ensureNetwork_def Let_def case_prod_beta inspect_same[OF assms] quiet_def containers_def issued_def
        split: option.split sum.split)
qed

section \<open>One gateway\<close>

lemma adoptMismatch_none:
  assumes "adoptMismatch inspect img net env = ''''"
  shows "cn_Running inspect" "set (map (fst \<circ> cut_env) env) \<subseteq> {k. parse_env (cn_Env inspect) k = parse_env env k}"
proof -
  show "cn_Running inspect" using assms by (simp add: adoptMismatch_def split: if_splits)
  have "envDrift (cn_Env inspect) env = []" using assms by (simp add: adoptMismatch_def split: if_splits)
  then have "set (envDrift (cn_Env inspect) env) = {}" by simp
  then show "set (map (fst \<circ> cut_env) env) \<subseteq> {k. parse_env (cn_Env inspect) k = parse_env env k}"
    unfolding envDrift_def by auto
qed

lemma adopted_gateway:
  assumes "adoptMismatch inspect img net (driver_env getenv org i) = ''''" "is_int64 i" "container.truncate inspect = c"
  shows "cn_Running c" "container_gateway c = Some i"
proof -
  have e: "cn_Env c = cn_Env inspect" "cn_Running c = cn_Running inspect" using assms(3) by (auto simp: container.defs)
  have "''GATEWAY_ID'' \<in> set (map (fst \<circ> cut_env) (driver_env getenv org i))" by (simp add: driver_env_def cut_env_def)
  then show "container_gateway c = Some i" using adoptMismatch_none(2)[OF assms(1)] assms(2)
    by (simp add: container_gateway_def e driver_env_gateway Atoi_itoa is_int64_def subset_eq Ball_def)
  show "cn_Running c" using adoptMismatch_none(1)[OF assms(1)] e by simp
qed

lemma polling_new:
  assumes "cid \<notin> set (map cn_ID tbl)" "cn_ID c = cid"
  shows "polling (set_running cid True (tbl @ [c])) j =
    polling tbl j \<union> (if container_gateway c = Some j then {c\<lparr>cn_Running := True\<rparr>} else {})"
  using assms set_running_other[OF assms(1)] by (auto simp: polling_def set_running_def)

lemma created_and_started:
  assumes K: "reliable_docker (me_docker E)" and m: "manager_ok E m" and n: "lookup (container_name p (g_ID g)) (containers E m) = None"
    and p: "driverServices t = Some p" and i: "is_int64 (g_ID g)" and e: "sp_Env spec = driver_env getenv org (g_ID g)"
    and q: "polling (containers E m) (g_ID g) = {}"
  obtains m' where "create_and_start E now g spec (container_name p (g_ID g)) m = (m', None)" "manager_ok E m'" "elsewhere E (g_ID g) m m'"
    "\<exists>c. polling (containers E m') (g_ID g) = {c} \<and> known (dm_states m' (g_ID g)) c"
proof -
  let ?K = "me_docker E" and ?n = "container_name p (g_ID g)" and ?tbl = "containers E m" and ?i = "g_ID g"
  have w: "table_ok ?tbl (issued E m)" "named_ok ?tbl" "states_ok ?tbl (issued E m) (dm_states m)" using m by (simp_all add: manager_ok_def)
  obtain c where c: "snd (ContainerCreate ?K spec ?n (dm_docker m)) = Inr (cn_ID c)"
    "dk_table ?K (fst (ContainerCreate ?K spec ?n (dm_docker m))) = ?tbl @ [c]"
    "dk_issued ?K (fst (ContainerCreate ?K spec ?n (dm_docker m))) = cn_ID c # issued E m" "is_docker_id (cn_ID c)"
    "cn_ID c \<notin> set (issued E m)" "cn_Name c = ?n" "\<not> cn_Running c"
    "\<And>k v. parse_env (sp_Env spec) k = Some v \<Longrightarrow> parse_env (cn_Env c) k = Some v"
    using create_result[OF K w(1)[unfolded containers_def issued_def] n[unfolded containers_def]]
    unfolding containers_def issued_def by blast
  define d where "d = fst (ContainerCreate ?K spec ?n (dm_docker m))"
  define m' where "m' = publishGatewayStatus now ?i ''online'' ''''
    (put_state ?i (running_state g (cn_ID c)) (m\<lparr>dm_docker := fst (ContainerStart ?K (cn_ID c) d)\<rparr>))"
  have g: "container_gateway c = Some ?i"
    using c(8)[OF driver_env_gateway[of getenv org ?i, folded e]] i by (simp add: container_gateway_def Atoi_itoa is_int64_def)
  have st: "snd (ContainerStart ?K (cn_ID c) d) = None" "dk_table ?K (fst (ContainerStart ?K (cn_ID c) d)) = set_running (cn_ID c) True (?tbl @ [c])"
    "dk_issued ?K (fst (ContainerStart ?K (cn_ID c) d)) = cn_ID c # issued E m"
    using start_result[OF K, of "cn_ID c" d] c(2,3) by (simp_all add: d_def)
  have res: "create_and_start E now g spec ?n m = (m', None)"
    using c(1) st(1) by (simp add: create_and_start_def case_prod_beta Let_def d_def m'_def)
  have tbl: "containers E m' = set_running (cn_ID c) True (?tbl @ [c])" and iss: "issued E m' = cn_ID c # issued E m"
    and sts: "dm_states m' = (dm_states m)(?i \<mapsto> running_state g (cn_ID c))" by (simp_all add: m'_def st(2,3))
  have new: "cn_ID c \<notin> set (map cn_ID ?tbl)" using w(1) c(5) by (auto simp: table_ok_def list_all_iff)
  have t': "table_ok (?tbl @ [c]) (cn_ID c # issued E m)" using table_ok_add[OF w(1) _ c(4,5)] n c(6) container_name_no_id by metis
  have in': "c\<lparr>cn_Running := True\<rparr> \<in> set (set_running (cn_ID c) True (?tbl @ [c]))" by (simp add: set_running_def)
  have s1: "states_ok (set_running (cn_ID c) True (?tbl @ [c])) (cn_ID c # issued E m) (dm_states m)"
    by (intro states_ok_set_running states_ok_add w(3) c(5))
  have "states_ok (containers E m') (issued E m') (dm_states m')"
    using states_ok_running[OF s1 _ in', of ?i g] t' g table_ok_set_running unfolding tbl iss sts by simp
  moreover have "named_ok (containers E m')" unfolding tbl by (intro named_ok_set_running named_ok_add[OF w(2) c(6) p g i])
  ultimately have ok: "manager_ok E m'" using t' table_ok_set_running unfolding manager_ok_def tbl iss by blast
  have pol: "polling (containers E m') j = polling ?tbl j \<union> (if ?i = j then {c\<lparr>cn_Running := True\<rparr>} else {})" for j
    using polling_new[OF new refl, of j] g unfolding tbl by simp
  show thesis
    by (rule that[OF res ok]) (simp_all add: elsewhere_def pol sts q known_def running_state_def)
qed

lemma quiet_ok: "quiet E m m' \<Longrightarrow> manager_ok E m' = manager_ok E m"
  by (simp add: manager_ok_def quiet_def)

lemma quiet_elsewhere: "quiet E m m' \<Longrightarrow> elsewhere E i m' m'' \<Longrightarrow> elsewhere E i m m''"
  by (simp add: elsewhere_def quiet_def)

lemma inspect_quiet:
  assumes "reliable_docker (me_docker E)"
  shows "quiet E m (m\<lparr>dm_docker := fst (ContainerInspect (me_docker E) ref (dm_docker m))\<rparr>)"
  by (simp add: quiet_def inspect_same[OF assms] containers_def issued_def)

lemma remove_result:
  assumes "reliable_docker K" "lookup ref (dk_table K d) = Some c" "force \<or> \<not> cn_Running c"
  shows "dk_table K (fst (ContainerRemove K ref force d)) = filter (\<lambda>x. cn_ID x \<noteq> cn_ID c) (dk_table K d)"
    "dk_issued K (fst (ContainerRemove K ref force d)) = dk_issued K d"
  using reliableD(5)[OF assms(1), unfolded remove_law_def, THEN spec[of _ ref], THEN spec[of _ force], THEN spec[of _ d]] assms(2,3)
  by simp_all

text \<open>Removing a container of gateway \<open>i\<close>.\<close>

lemma removed:
  assumes m: "manager_ok E m" and c: "c \<in> set (containers E m)" "container_gateway c = Some i"
    and t: "dk_table (me_docker E) d = filter (\<lambda>x. cn_ID x \<noteq> cn_ID c) (containers E m)" "dk_issued (me_docker E) d = issued E m"
  shows "manager_ok E (m\<lparr>dm_docker := d\<rparr>)" "elsewhere E i m (m\<lparr>dm_docker := d\<rparr>)"
    "polling (containers E (m\<lparr>dm_docker := d\<rparr>)) i = polling (containers E m) i - {c}"
proof -
  have w: "table_ok (containers E m) (issued E m)" "named_ok (containers E m)" "states_ok (containers E m) (issued E m) (dm_states m)"
    using m by (simp_all add: manager_ok_def)
  show "manager_ok E (m\<lparr>dm_docker := d\<rparr>)"
    using table_ok_filter[OF w(1)] named_ok_filter[OF w(2)] states_ok_filter[OF w(3)] by (simp add: manager_ok_def t)
  have same: "x = c" if "x \<in> set (containers E m)" "cn_ID x = cn_ID c" for x using table_eqD(1)[OF w(1) that(1) c(1) that(2)] .
  then show "elsewhere E i m (m\<lparr>dm_docker := d\<rparr>)"
    using c(2) unfolding elsewhere_def by (auto simp: t intro!: polling_filter dest!: same)
  show "polling (containers E (m\<lparr>dm_docker := d\<rparr>)) i = polling (containers E m) i - {c}"
    using same by (auto simp: polling_def t)
qed

lemma name_free_after:
  assumes "table_ok tbl ids" "lookup n tbl = Some c" "\<not> is_docker_id n"
  shows "lookup n (filter (\<lambda>x. cn_ID x \<noteq> cn_ID c) tbl) = None"
proof -
  note c = lookup_name[OF assms(1,3,2)]
  have "cn_ID x \<noteq> n" if "x \<in> set tbl" for x using assms(1,3) that unfolding table_ok_def list_all_iff by metis
  moreover have "x = c" if "x \<in> set tbl" "cn_Name x = n" for x using table_eqD(2)[OF assms(1) that(1) c(1)] that(2) c(2) by simp
  ultimately show ?thesis unfolding lookup_None by auto
qed

text \<open>What a start leaves behind.\<close>

definition start_ok :: "'d manager_env \<Rightarrow> int \<Rightarrow> 'd manager_state \<Rightarrow> 'd manager_state \<times> string option \<Rightarrow> bool" where
  "start_ok E i m r \<longleftrightarrow> snd r = None \<and> manager_ok E (fst r) \<and> elsewhere E i m (fst r) \<and>
     (\<exists>c. polling (containers E (fst r)) i = {c} \<and> known (dm_states (fst r) i) c)"

lemma created:
  assumes "reliable_docker (me_docker E)" "manager_ok E m" "driverServices t = Some p" "is_int64 (g_ID g)"
    and "lookup (container_name p (g_ID g)) (containers E m) = None" "sp_Env spec = driver_env getenv org (g_ID g)"
    and "polling (containers E m) (g_ID g) = {}"
  shows "start_ok E (g_ID g) m (create_and_start E now g spec (container_name p (g_ID g)) m)"
proof -
  obtain m' where m': "create_and_start E now g spec (container_name p (g_ID g)) m = (m', None)" "manager_ok E m'" "elsewhere E (g_ID g) m m'"
      "\<exists>c. polling (containers E m') (g_ID g) = {c} \<and> known (dm_states m' (g_ID g)) c"
    by (rule created_and_started[OF assms(1,2,5,3,4,6,7)])
  then show ?thesis by (simp add: start_ok_def)
qed

lemma replaced:
  assumes K: "reliable_docker (me_docker E)" and m: "manager_ok E m" and t: "driverServices t = Some p" and i: "is_int64 (g_ID g)"
    and c: "lookup (container_name p (g_ID g)) (containers E m) = Some c" and e: "sp_Env spec = driver_env getenv org (g_ID g)"
    and one: "polling (containers E m) (g_ID g) \<subseteq> {c}" and g: "container_gateway c = Some (g_ID g)"
  shows "start_ok E (g_ID g) m (create_and_start E now g spec (container_name p (g_ID g))
    (m\<lparr>dm_docker := fst (ContainerRemove (me_docker E) (container_name p (g_ID g)) True (dm_docker m))\<rparr>))"
proof -
  let ?n = "container_name p (g_ID g)"
  let ?d = "fst (ContainerRemove (me_docker E) ?n True (dm_docker m))"
  let ?m = "m\<lparr>dm_docker := ?d\<rparr>"
  have tb: "table_ok (containers E m) (issued E m)" using m by (simp add: manager_ok_def)
  have rm: "dk_table (me_docker E) ?d = filter (\<lambda>x. cn_ID x \<noteq> cn_ID c) (containers E m)" "dk_issued (me_docker E) ?d = issued E m"
    using remove_result[OF K c[unfolded containers_def], of True] by (simp_all add: containers_def issued_def)
  note r = removed[OF m lookup_name(1)[OF tb container_name_no_id c] g rm]
  have "lookup ?n (containers E ?m) = None" using name_free_after[OF tb c container_name_no_id] by (simp add: rm)
  moreover have "polling (containers E ?m) (g_ID g) = {}" using r(3) one by blast
  ultimately have "start_ok E (g_ID g) ?m (create_and_start E now g spec ?n ?m)" by (rule created[OF K r(1) t i _ e])
  then show ?thesis using elsewhere_trans[OF r(2)] by (auto simp: start_ok_def)
qed

lemma adopted:
  assumes m: "manager_ok E m" and t: "c \<in> set (containers E m)" "cn_Running c" "container_gateway c = Some (g_ID g)"
    and one: "polling (containers E m) (g_ID g) \<subseteq> {c}"
  shows "start_ok E (g_ID g) m (publishGatewayStatus now (g_ID g) st e (put_state (g_ID g) (running_state g (cn_ID c)) m), None)"
proof -
  have "polling (containers E m) (g_ID g) = {c}" using one t by (auto simp: polling_def)
  then show ?thesis using m states_ok_running[OF _ _ t(1,3)]
    by (simp add: start_ok_def manager_ok_def elsewhere_def known_def running_state_def)
qed

lemma start_ok_quiet: "quiet E m m' \<Longrightarrow> start_ok E i m' r \<Longrightarrow> start_ok E i m r"
  using quiet_elsewhere by (auto simp: start_ok_def)

lemma started:
  assumes K: "reliable_docker (me_docker E)" and m: "manager_ok E m" and p: "driverServices (g_DriverType g) = Some p"
    and i: "is_int64 (g_ID g)" and q: "\<And>c. c \<in> polling (containers E m) (g_ID g) \<Longrightarrow> cn_Name c = container_name p (g_ID g)"
  shows "start_ok E (g_ID g) m (startGatewayContainer E now g m)"
proof -
  let ?K = "me_docker E" and ?i = "g_ID g" and ?n = "container_name p (g_ID g)"
  obtain m1 where m1: "ensureNetwork E m = (m1, None)" "quiet E m m1" using ensureNetwork_quiet[OF K, of m] by (metis prod.collapse)
  define m2 where "m2 = m1\<lparr>dm_docker := fst (ContainerInspect ?K ?n (dm_docker m1))\<rparr>"
  have q2: "quiet E m m2" using m1(2) inspect_quiet[OF K, of m1 ?n] by (simp add: quiet_def m2_def)
  have m2: "manager_ok E m2" using quiet_ok[OF q2] m by simp
  then have w: "table_ok (containers E m2) (issued E m2)" "named_ok (containers E m2)" by (simp_all add: manager_ok_def)
  have tb: "dk_table ?K (dm_docker m1) = containers E m2" using inspect_same(1)[OF K] by (simp add: m2_def)
  have named: "cn_Name c = ?n" if "c \<in> polling (containers E m2) ?i" for c using q that q2 by (simp add: quiet_def)
  have env: "sp_Env (driver_spec E g m1) = driver_env (me_getenv E) (dm_orgID m1) ?i" by (simp add: driver_spec_def)
  have "start_ok E ?i m2 (startGatewayContainer E now g m)"
  proof (cases "lookup ?n (containers E m2)")
    case None
    then obtain e where e: "snd (ContainerInspect ?K ?n (dm_docker m1)) = Inl e" using inspect_result(1)[OF K] tb by metis
    have "polling (containers E m2) ?i = {}" using None named by (auto simp: lookup_None polling_def)
    then show ?thesis using created[OF K m2 p i None env] e
      by (simp add: startGatewayContainer_def p m1(1) Let_def case_prod_beta m2_def)
  next
    case (Some c)
    then obtain r where r: "snd (ContainerInspect ?K ?n (dm_docker m1)) = Inr r" "container.truncate r = c"
      using inspect_result(2)[OF K] tb by metis
    have c: "c \<in> set (containers E m2)" "cn_Name c = ?n" using lookup_name[OF w(1) container_name_no_id Some] by blast+
    have g: "container_gateway c = Some ?i" using w(2) c p i unfolding named_ok_def by blast
    have one: "polling (containers E m2) ?i \<subseteq> {c}"
      using table_eqD(2)[OF w(1) _ c(1)] named c(2) polling_mono[of _ "containers E m2" ?i] by fastforce
    show ?thesis
    proof (cases "adoptMismatch r (sp_Image (driver_spec E g m1)) (dm_networkID m1) (sp_Env (driver_spec E g m1)) = []")
      case True
      have "cn_Running c" using adopted_gateway(1)[OF True[unfolded env] i r(2)] .
      moreover have "cn_ID r = cn_ID c" using r(2) by (auto simp: container.defs)
      ultimately show ?thesis using True adopted[OF m2 c(1) _ g one]
        by (simp add: startGatewayContainer_def p m1(1) Let_def case_prod_beta r(1) m2_def)
    next
      case False
      then show ?thesis using replaced[OF K m2 p i Some env one g]
        by (simp add: startGatewayContainer_def p m1(1) Let_def case_prod_beta r(1) m2_def)
    qed
  qed
  then show ?thesis by (rule start_ok_quiet[OF q2])
qed

lemma accounted_active:
  "accounted E g m \<Longrightarrow> active (dm_states m (g_ID g)) \<Longrightarrow> \<forall>c \<in> polling (containers E m) (g_ID g). known (dm_states m (g_ID g)) c"
  by (auto simp: accounted_def)

lemma inactive_ok:
  assumes "manager_ok E m" "containers E m' = containers E m" "issued E m' = issued E m" "dm_states m' = (dm_states m)(i \<mapsto> s)" "\<not> gs_Running s"
  shows "manager_ok E m'"
  using assms states_ok_inactive[of "containers E m" "issued E m" "dm_states m" s i] by (simp add: manager_ok_def)

lemma running_answer:
  assumes K: "reliable_docker K" and t: "table_ok (dk_table K d) (dk_issued K d)" and i: "is_docker_id cid"
  shows "snd (isContainerRunning K cid d) = Inr True \<longleftrightarrow> (\<exists>c \<in> set (dk_table K d). cn_ID c = cid \<and> cn_Running c)"
proof (cases "lookup cid (dk_table K d)")
  case None
  then obtain e where "snd (ContainerInspect K cid d) = Inl e" using inspect_result(1)[OF K] by blast
  then have "snd (isContainerRunning K cid d) = Inl e" by (simp add: isContainerRunning_def case_prod_beta)
  then show ?thesis using None by (auto simp: lookup_None)
next
  case (Some c)
  obtain r where r: "snd (ContainerInspect K cid d) = Inr r" "container.truncate r = c" using inspect_result(2)[OF K Some] by blast
  note c = lookup_id[OF t i Some]
  have "cn_Running r = cn_Running c" using r(2) by (auto simp: container.defs)
  then have e: "snd (isContainerRunning K cid d) = Inr (cn_Running c)" using r(1) by (simp add: isContainerRunning_def case_prod_beta)
  have one: "x = c" if "x \<in> set (dk_table K d)" "cn_ID x = cid" for x using table_eqD(1)[OF t that(1) c(1)] that(2) c(2) by simp
  have "(\<exists>x \<in> set (dk_table K d). cn_ID x = cid \<and> cn_Running x) \<longleftrightarrow> cn_Running c"
  proof
    assume "\<exists>x \<in> set (dk_table K d). cn_ID x = cid \<and> cn_Running x"
    then obtain x where x: "x \<in> set (dk_table K d)" "cn_ID x = cid" "cn_Running x" by blast
    show "cn_Running c" using one[OF x(1,2)] x(3) by simp
  next
    assume "cn_Running c"
    then show "\<exists>x \<in> set (dk_table K d). cn_ID x = cid \<and> cn_Running x" using c(1,2) by (intro bexI[of _ c]) simp_all
  qed
  then show ?thesis by (simp add: e)
qed

lemma verified:
  assumes K: "reliable_docker (me_docker E)" and m: "manager_ok E m" and a: "accounted E g m"
    and v: "m' = verify_running E (g_ID g) m"
  shows "manager_ok E m' \<and> elsewhere E (g_ID g) m m' \<and> accounted E g m' \<and>
    (active (dm_states m' (g_ID g)) \<longrightarrow> polling (containers E m') (g_ID g) \<noteq> {}) \<and>
    in_cooldown now (dm_states m' (g_ID g)) = in_cooldown now (dm_states m (g_ID g))"
proof (cases "active (dm_states m (g_ID g))")
  case False
  then have "m' = m" by (auto simp: v verify_running_def active_def split: option.splits)
  then show ?thesis using m a False by (simp add: elsewhere_def)
next
  case True
  let ?K = "me_docker E" and ?i = "g_ID g"
  obtain s where s: "dm_states m ?i = Some s" "gs_Running s" using True by (auto simp: active_def split: option.splits)
  have w: "table_ok (containers E m) (issued E m)" "is_docker_id (gs_ContainerID s)"
    "\<forall>c \<in> set (containers E m). cn_ID c = gs_ContainerID s \<longrightarrow> container_gateway c = Some ?i"
    using m s unfolding manager_ok_def states_ok_def by blast+
  define m1 where "m1 = m\<lparr>dm_docker := fst (ContainerInspect ?K (gs_ContainerID s) (dm_docker m))\<rparr>"
  have q: "quiet E m m1" using inspect_quiet[OF K] by (simp add: m1_def)
  let ?r = "snd (isContainerRunning ?K (gs_ContainerID s) (dm_docker m))"
  have r: "m' = (if ?r = Inr True then m1 else put_state ?i (s\<lparr>gs_Running := False\<rparr>) m1)"
    using s by (simp add: v verify_running_def isContainerRunning_def m1_def case_prod_beta Let_def split: sum.split)
  have run: "?r = Inr True \<longleftrightarrow> (\<exists>c \<in> set (containers E m). cn_ID c = gs_ContainerID s \<and> cn_Running c)"
    using running_answer[OF K w(1)[unfolded containers_def issued_def] w(2)] by (simp add: containers_def)
  show ?thesis
  proof (cases "?r = Inr True")
    case True
    then have "polling (containers E m) ?i \<noteq> {}" using run w(3) by (auto simp: polling_def)
    then show ?thesis using True r q m a quiet_ok[OF q] by (simp add: elsewhere_def accounted_def quiet_def)
  next
    case False
    have e: "polling (containers E m) ?i = {}"
      using accounted_active[OF a \<open>active _\<close>] run False s by (auto simp: known_def polling_def)
    have t: "containers E m' = containers E m" "issued E m' = issued E m" "dm_states m' = (dm_states m)(?i \<mapsto> s\<lparr>gs_Running := False\<rparr>)"
      using False q by (simp_all add: r quiet_def)
    have "manager_ok E m'" by (rule inactive_ok[OF m t]) simp
    then show ?thesis using s e by (simp add: t elsewhere_def accounted_def active_def in_cooldown_def)
  qed
qed

lemma stop_result:
  assumes "reliable_docker K"
  shows "dk_issued K (fst (ContainerStop K ref d)) = dk_issued K d"
    "lookup ref (dk_table K d) = None \<Longrightarrow> snd (ContainerStop K ref d) = NotFound \<and> dk_table K (fst (ContainerStop K ref d)) = dk_table K d"
    "lookup ref (dk_table K d) = Some c \<Longrightarrow> snd (ContainerStop K ref d) = Stopped \<and>
       dk_table K (fst (ContainerStop K ref d)) = set_running (cn_ID c) False (dk_table K d)"
  using reliableD(4)[OF assms, unfolded stop_law_def, THEN spec[of _ ref], THEN spec[of _ d]] by simp_all

text \<open>What a stop leaves behind.\<close>

definition stop_ok :: "'d manager_env \<Rightarrow> int \<Rightarrow> 'd manager_state \<Rightarrow> 'd manager_state \<times> string option \<Rightarrow> bool" where
  "stop_ok E i m r \<longleftrightarrow> snd r = None \<and> manager_ok E (fst r) \<and> elsewhere E i m (fst r) \<and> polling (containers E (fst r)) i = {}"

lemma stopped:
  assumes K: "reliable_docker (me_docker E)" and m: "manager_ok E m" and s: "dm_states m i = Some s" "gs_Running s"
    and q: "\<forall>c \<in> polling (containers E m) i. known (dm_states m i) c"
  shows "stop_ok E i m (stopGatewayContainer E now i m)"
proof -
  let ?K = "me_docker E"
  let ?d = "fst (ContainerStop ?K (gs_ContainerID s) (dm_docker m))"
  have w: "table_ok (containers E m) (issued E m)" "is_docker_id (gs_ContainerID s)"
    "\<forall>c \<in> set (containers E m). cn_ID c = gs_ContainerID s \<longrightarrow> container_gateway c = Some i"
    using m s unfolding manager_ok_def states_ok_def by blast+
  have lk: "lookup (gs_ContainerID s) (dk_table ?K (dm_docker m)) = lookup (gs_ContainerID s) (containers E m)" by (simp add: containers_def)
  show ?thesis
  proof (cases "lookup (gs_ContainerID s) (containers E m)")
    case None
    note st = stop_result(1)[OF K, of "gs_ContainerID s" "dm_docker m"] stop_result(2)[OF K lk[unfolded None]]
    define m' where "m' = put_state i (s\<lparr>gs_Running := False\<rparr>) (m\<lparr>dm_docker := ?d\<rparr>)"
    have "stopGatewayContainer E now i m = (m', None)"
      using st s by (simp add: stopGatewayContainer_def Let_def case_prod_beta m'_def)
    moreover have t: "containers E m' = containers E m" "issued E m' = issued E m" "dm_states m' = (dm_states m)(i \<mapsto> s\<lparr>gs_Running := False\<rparr>)"
      using st by (simp_all add: m'_def containers_def issued_def)
    moreover have "manager_ok E m'" by (rule inactive_ok[OF m t]) simp
    moreover have "polling (containers E m) i = {}" using q None s by (auto simp: lookup_None known_def polling_def)
    ultimately show ?thesis by (simp add: stop_ok_def elsewhere_def)
  next
    case (Some c)
    note st = stop_result(1)[OF K, of "gs_ContainerID s" "dm_docker m"] stop_result(3)[OF K lk[unfolded Some]]
    note c = lookup_id[OF w(1,2) Some]
    let ?tbl = "set_running (cn_ID c) False (containers E m)"
    have t: "dk_table ?K ?d = ?tbl" "dk_issued ?K ?d = issued E m" using st by (simp_all add: containers_def issued_def)
    have ok1: "manager_ok E (m\<lparr>dm_docker := ?d\<rparr>)"
      using m named_ok_set_running states_ok_set_running by (simp add: manager_ok_def t)
    have c1: "c\<lparr>cn_Running := False\<rparr> \<in> set ?tbl" using c(1) by (auto simp: set_running_def)
    have "lookup (cn_ID (c\<lparr>cn_Running := False\<rparr>)) ?tbl = Some (c\<lparr>cn_Running := False\<rparr>)"
      using lookup_member[OF _ c1, of "issued E m"] w(1) by simp
    then have l1: "lookup (gs_ContainerID s) (dk_table ?K ?d) = Some (c\<lparr>cn_Running := False\<rparr>)" using c(2) t(1) by simp
    note rm = remove_result[OF K l1, of False, simplified]
    have g: "container_gateway c = Some i" using w(3) c by blast
    note r = removed[OF ok1 _ _, of "c\<lparr>cn_Running := False\<rparr>" i "fst (ContainerRemove ?K (gs_ContainerID s) False ?d)", simplified t docker_simps, OF c1]
    have same: "x = c" if "x \<in> set (containers E m)" "cn_ID x = cn_ID c" for x using table_eqD(1)[OF w(1) that(1) c(1) that(2)] .
    have e: "elsewhere E i m (m\<lparr>dm_docker := ?d\<rparr>)"
      using g unfolding elsewhere_def by (auto simp: t intro!: polling_set_running dest!: same)
    define m2 where "m2 = m\<lparr>dm_docker := fst (ContainerRemove ?K (gs_ContainerID s) False ?d)\<rparr>"
    have m2: "manager_ok E m2" "elsewhere E i m m2"
      using r rm g t elsewhere_trans[OF e] by (simp_all add: m2_def)
    have p: "polling (containers E m2) i = {}"
    proof -
      have "cn_ID x = cn_ID c" if "x \<in> set (containers E m)" "cn_Running x" "container_gateway x = Some i" for x
        using q that s c(2) by (auto simp: polling_def known_def)
      then show ?thesis using rm(1) by (auto simp: m2_def t polling_def set_running_def)
    qed
    define m' where "m' = put_state i (s\<lparr>gs_Running := False\<rparr>) (publishGatewayStatus now i ''offline'' [] m2)"
    have "stopGatewayContainer E now i m = (m', None)"
      using st s by (simp add: stopGatewayContainer_def Let_def case_prod_beta m'_def m2_def)
    moreover have "manager_ok E m'" by (rule inactive_ok[OF m2(1), where i = i and s = "s\<lparr>gs_Running := False\<rparr>"]) (simp_all add: m'_def)
    moreover have "elsewhere E i m m'" using m2(2) by (simp add: elsewhere_def m'_def)
    ultimately show ?thesis using p by (simp add: stop_ok_def m'_def)
  qed
qed

lemma synced:
  assumes K: "reliable_docker (me_docker E)" and m: "manager_ok E m" and a: "accounted E g m" and i: "is_int64 (g_ID g)"
    and p: "driverServices (g_DriverType g) \<noteq> None" and c: "\<not> in_cooldown now (dm_states m (g_ID g))"
  shows "manager_ok E (sync_gateway E now g m) \<and> elsewhere E (g_ID g) m (sync_gateway E now g m) \<and> settled E g (sync_gateway E now g m)"
proof -
  define m1 where "m1 = verify_running E (g_ID g) m"
  note v = verified[OF K m a m1_def, of now]
  have run: "(case dm_states m1 (g_ID g) of None \<Rightarrow> False | Some s \<Rightarrow> gs_Running s) = active (dm_states m1 (g_ID g))" by (simp add: active_def)
  have all: "\<forall>c \<in> polling (containers E m1) (g_ID g). known (dm_states m1 (g_ID g)) c" if "active (dm_states m1 (g_ID g))"
    using accounted_active v that by blast
  obtain q where q: "driverServices (g_DriverType g) = Some q" using p by blast
  consider (kept) "g_Enabled g" "active (dm_states m1 (g_ID g))" | (start) "g_Enabled g" "\<not> active (dm_states m1 (g_ID g))"
    | (stop) "\<not> g_Enabled g" "active (dm_states m1 (g_ID g))" | (off) "\<not> g_Enabled g" "\<not> active (dm_states m1 (g_ID g))" by blast
  then show ?thesis
  proof cases
    case kept
    then obtain c where "c \<in> polling (containers E m1) (g_ID g)" using v by blast
    then have "settled E g m1" using kept known_polling[of E m1, OF _ all] v all by (auto simp: settled_def)
    then show ?thesis using v kept by (simp add: sync_gateway_def m1_def[symmetric] run Let_def)
  next
    case start
    then have "cn_Name c = container_name q (g_ID g)" if "c \<in> polling (containers E m1) (g_ID g)" for c
      using v that q known_active by (fastforce simp: accounted_def)
    then have st: "start_ok E (g_ID g) m1 (startGatewayContainer E now g m1)" using started[OF K _ q i] v by blast
    then have "sync_gateway E now g m = fst (startGatewayContainer E now g m1)"
      using start c v by (simp add: sync_gateway_def m1_def[symmetric] run Let_def start_ok_def case_prod_beta)
    then show ?thesis using st v start elsewhere_trans by (auto simp: start_ok_def settled_def)
  next
    case stop
    then obtain s where s: "dm_states m1 (g_ID g) = Some s" "gs_Running s" by (auto simp: active_def split: option.splits)
    have st: "stop_ok E (g_ID g) m1 (stopGatewayContainer E now (g_ID g) m1)" using stopped[OF K _ s all] v stop by blast
    then show ?thesis using v stop elsewhere_trans[of E "g_ID g" m m1]
      by (auto simp: sync_gateway_def m1_def[symmetric] run Let_def stop_ok_def settled_def)
  next
    case off
    then have "polling (containers E m1) (g_ID g) = {}" using v known_active by (fastforce simp: accounted_def)
    then show ?thesis using v off by (simp add: sync_gateway_def m1_def[symmetric] run Let_def settled_def)
  qed
qed

section \<open>All gateways\<close>

text \<open>What a gateway may look like before its turn, for a given set of gateways to poll.\<close>

definition due :: "'d manager_env \<Rightarrow> gotime \<Rightarrow> 'd manager_state \<Rightarrow> gateway \<Rightarrow> bool" where
  "due E now m g \<longleftrightarrow> accounted E g m \<and> is_int64 (g_ID g) \<and> driverServices (g_DriverType g) \<noteq> None \<and>
     \<not> in_cooldown now (dm_states m (g_ID g))"

text \<open>Gateways outside a set are as before.\<close>

definition outside :: "'d manager_env \<Rightarrow> int set \<Rightarrow> 'd manager_state \<Rightarrow> 'd manager_state \<Rightarrow> bool" where
  "outside E A m m' \<longleftrightarrow> (\<forall>j. j \<notin> A \<longrightarrow> dm_states m' j = dm_states m j \<and> polling (containers E m') j = polling (containers E m) j)"

lemma outside_same:
  assumes "outside E A m m'" "g_ID g \<notin> A"
  shows "due E now m' g = due E now m g" "settled E g m' = settled E g m"
  using assms by (simp_all add: outside_def due_def accounted_def settled_def)

lemma elsewhere_outside: "elsewhere E i m m' = outside E {i} m m'"
  by (auto simp: elsewhere_def outside_def)

lemma outside_trans: "outside E A m m' \<Longrightarrow> outside E B m' m'' \<Longrightarrow> outside E (A \<union> B) m m''"
  by (auto simp: outside_def)

lemma synced_all:
  assumes "reliable_docker (me_docker E)" "manager_ok E m" "distinct (map g_ID gs)" "list_all (due E now m) gs"
  shows "manager_ok E (fold (sync_gateway E now) gs m) \<and> outside E (g_ID ` set gs) m (fold (sync_gateway E now) gs m) \<and>
    list_all (\<lambda>g. settled E g (fold (sync_gateway E now) gs m)) gs"
  using assms(2-4)
proof (induction gs arbitrary: m)
  case Nil
  then show ?case by (simp add: outside_def)
next
  case (Cons g gs)
  define m1 where "m1 = sync_gateway E now g m"
  have m1: "manager_ok E m1" "outside E {g_ID g} m m1" "settled E g m1"
    using synced[OF assms(1) Cons.prems(1), of g now] Cons.prems(3) by (simp_all add: m1_def due_def elsewhere_outside)
  have "list_all (due E now m1) gs"
  proof -
    have "due E now m1 x" if "x \<in> set gs" for x
    proof -
      have "g_ID x \<notin> {g_ID g}" using Cons.prems(2) that by (auto simp: image_iff)
      then show ?thesis using outside_same(1)[OF m1(2)] Cons.prems(3) that by (simp add: list_all_iff)
    qed
    then show ?thesis by (simp add: list_all_iff)
  qed
  note r = Cons.IH[OF m1(1) _ this, simplified]
  have r: "manager_ok E (fold (sync_gateway E now) gs m1)" "outside E (g_ID ` set gs) m1 (fold (sync_gateway E now) gs m1)"
    "list_all (\<lambda>g. settled E g (fold (sync_gateway E now) gs m1)) gs" using r Cons.prems(2) by auto
  have "settled E g (fold (sync_gateway E now) gs m1)" using outside_same(2)[OF r(2)] m1(3) Cons.prems(2) by auto
  then show ?case using r outside_trans[OF m1(2) r(2)] by (simp add: m1_def)
qed

lemma dropped:
  assumes K: "reliable_docker (me_docker E)" and m: "manager_ok E m" and i: "i \<notin> processed"
    and q: "\<forall>c \<in> polling (containers E m) i. known (dm_states m i) c"
  shows "manager_ok E (drop_gateway E now processed i m) \<and> outside E {i} m (drop_gateway E now processed i m) \<and>
    polling (containers E (drop_gateway E now processed i m)) i = {} \<and> dm_states (drop_gateway E now processed i m) i = None"
proof (cases "dm_states m i")
  case None
  then show ?thesis using m q i by (auto simp: drop_gateway_def outside_def known_def)
next
  case (Some s)
  have forget: "manager_ok E (m'\<lparr>dm_states := (dm_states m')(i := None)\<rparr>) \<and> outside E {i} m' (m'\<lparr>dm_states := (dm_states m')(i := None)\<rparr>)"
    if "manager_ok E m'" for m'
    using that states_ok_drop by (simp add: manager_ok_def outside_def containers_def issued_def)
  show ?thesis
  proof (cases "gs_Running s")
    case True
    obtain m' where m': "stopGatewayContainer E now i m = (m', None)" "manager_ok E m'" "elsewhere E i m m'" "polling (containers E m') i = {}"
      using stopped[OF K m Some True q, of now] by (cases "stopGatewayContainer E now i m") (simp add: stop_ok_def)
    then show ?thesis using i Some True forget[OF m'(2)] outside_trans[of E "{i}" m m' "{i}"]
      by (simp add: drop_gateway_def elsewhere_outside containers_def)
  next
    case False
    then have "polling (containers E m) i = {}" using q Some by (auto simp: known_def)
    then show ?thesis using i Some False forget[OF m] by (simp add: drop_gateway_def containers_def)
  qed
qed

lemma dropped_all:
  assumes "reliable_docker (me_docker E)" "manager_ok E m" "\<And>i. i \<notin> processed \<Longrightarrow> \<forall>c \<in> polling (containers E m) i. known (dm_states m i) c"
  shows "manager_ok E (fold (drop_gateway E now processed) ord m) \<and>
    outside E (set ord - processed) m (fold (drop_gateway E now processed) ord m) \<and>
    (\<forall>i \<in> set ord - processed. polling (containers E (fold (drop_gateway E now processed) ord m)) i = {} \<and>
       dm_states (fold (drop_gateway E now processed) ord m) i = None)"
  using assms(2,3)
proof (induction ord arbitrary: m)
  case Nil
  then show ?case by (simp add: outside_def)
next
  case (Cons i ord)
  define m1 where "m1 = drop_gateway E now processed i m"
  have m1: "manager_ok E m1" "outside E ({i} - processed) m m1"
    "i \<notin> processed \<Longrightarrow> polling (containers E m1) i = {} \<and> dm_states m1 i = None"
    using dropped[OF assms(1) Cons.prems(1) _ Cons.prems(2), where i = i and now = now] Cons.prems(1)
    by (cases "i \<in> processed"; simp add: m1_def drop_gateway_def outside_def)+
  have "\<forall>c \<in> polling (containers E m1) j. known (dm_states m1 j) c" if "j \<notin> processed" for j
  proof (cases "j = i")
    case True
    then show ?thesis using m1(3) that by simp
  next
    case False
    then show ?thesis using m1(2) Cons.prems(2)[OF that] by (simp add: outside_def)
  qed
  note r = Cons.IH[OF m1(1) this]
  have "{i} - processed \<union> (set ord - processed) = set (i # ord) - processed" by auto
  then have o: "outside E (set (i # ord) - processed) m (fold (drop_gateway E now processed) ord m1)" using outside_trans[OF m1(2)] r by metis
  have "polling (containers E (fold (drop_gateway E now processed) ord m1)) i = {} \<and> dm_states (fold (drop_gateway E now processed) ord m1) i = None"
    if "i \<notin> processed"
    using r m1(3)[OF that] that by (cases "i \<in> set ord") (auto simp: outside_def)
  then show ?case using r o by (auto simp: m1_def)
qed

section \<open>A whole synchronization\<close>

lemma pull_attempts_same:
  assumes "image_law K"
  shows "same K d (fst (pull_attempts K img n d))"
proof (induction n arbitrary: d)
  case (Suc n)
  have "same K d (fst (ImagePull K img d))" using assms by (simp add: image_law_def)
  then show ?case using Suc.IH same_trans[of K d "fst (ImagePull K img d)"]
    by (cases "ImagePull K img d") (auto split: pull_outcome.split)
qed (simp add: same_def)

lemma prepull_quiet:
  assumes "reliable_docker (me_docker E)"
  shows "quiet E m (prepull E now g m)"
proof -
  let ?K = "me_docker E" and ?img = "imageNameForDriver (me_getenv E) (g_DriverType g)"
  note k = reliableD(7)[OF assms]
  have "same ?K (dm_docker m) (fst (ImageInspect ?K ?img (dm_docker m)))" using k by (simp add: image_law_def)
  then have "same ?K (dm_docker m) (fst (pullImageWithRetry ?K ?img (dm_docker m)))"
    using same_trans[OF _ pull_attempts_same[OF k]] by (auto simp: pullImageWithRetry_def split: prod.split bool.split)
  then show ?thesis
    by (simp add: prepull_def Let_def case_prod_beta quiet_def containers_def issued_def same_def split: option.split)
qed

lemma quiet_fold: "(\<And>x m. quiet E m (f x m)) \<Longrightarrow> quiet E m (fold f xs m)"
proof (induction xs arbitrary: m)
  case (Cons x xs)
  then show ?case using Cons.prems[of m x] by (simp add: quiet_def)
qed (simp add: quiet_def)

text \<open>The containers that run outside a set of gateways are those their states name.\<close>

definition tracked_outside :: "'d manager_env \<Rightarrow> int set \<Rightarrow> 'd manager_state \<Rightarrow> bool" where
  "tracked_outside E A m \<longleftrightarrow> (\<forall>i. i \<notin> A \<longrightarrow> (\<forall>c \<in> polling (containers E m) i. known (dm_states m i) c))"

definition converged :: "'d manager_env \<Rightarrow> gateway set \<Rightarrow> 'd manager_state \<Rightarrow> bool" where
  "converged E gs m \<longleftrightarrow> (\<forall>i. if \<exists>g \<in> gs. g_ID g = i \<and> g_Enabled g then \<exists>c. polling (containers E m) i = {c}
     else polling (containers E m) i = {})"

lemma sync_containers_converges:
  assumes K: "reliable_docker (me_docker E)" and m: "manager_ok E m" and g: "distinct (map g_ID gs)" "list_all (due E now m) gs"
    and t: "tracked_outside E (g_ID ` set gs) m" and o: "dom (dm_states m) \<subseteq> set ord"
    and r: "m' = sync_containers E now ord gs m"
  shows "manager_ok E m' \<and> tracked_outside E {} m' \<and> converged E (set gs) m'"
proof -
  let ?A = "g_ID ` set gs"
  define m1 where "m1 = fold (prepull E now) gs m"
  define m2 where "m2 = fold (sync_gateway E now) gs m1"
  have r: "m' = fold (drop_gateway E now ?A) ord m2" by (simp add: r sync_containers_def m1_def m2_def)
  have q: "quiet E m m1" unfolding m1_def by (intro quiet_fold prepull_quiet K)
  have "due E now m1 = due E now m" using q by (auto simp: fun_eq_iff quiet_def due_def accounted_def)
  then have s: "manager_ok E m2" "outside E ?A m1 m2" "list_all (\<lambda>g. settled E g m2) gs"
    using synced_all[OF K, of m1 gs now] m g quiet_ok[OF q] by (simp_all add: m2_def)
  have o2: "outside E ?A m m2" using q s(2) by (simp add: quiet_def outside_def)
  have known2: "\<forall>c \<in> polling (containers E m2) i. known (dm_states m2 i) c" if "i \<notin> ?A" for i
    using t that o2 by (simp add: tracked_outside_def outside_def)
  note d = dropped_all[OF K s(1) known2, of "?A" now ord, folded r, simplified]
  have inside: "settled E g m'" if "g \<in> set gs" for g
    using d s(3) that by (simp add: outside_def settled_def list_all_iff)
  have gone: "polling (containers E m') i = {}" if "i \<notin> ?A" for i
  proof (cases "i \<in> set ord")
    case True
    then show ?thesis using d that by auto
  next
    case False
    then have "dm_states m2 i = None" using o o2 that by (auto simp: outside_def)
    then have "polling (containers E m2) i = {}" using known2[OF that] by (auto simp: known_def)
    then show ?thesis using d False by (simp add: outside_def)
  qed
  have "\<forall>c \<in> polling (containers E m') i. known (dm_states m' i) c" for i
  proof (cases "i \<in> ?A")
    case True
    then show ?thesis using inside by (fastforce simp: settled_def split: if_splits)
  qed (simp add: gone)
  moreover have "if \<exists>g \<in> set gs. g_ID g = i \<and> g_Enabled g then \<exists>c. polling (containers E m') i = {c}
      else polling (containers E m') i = {}" for i
  proof (cases "i \<in> ?A")
    case True
    then obtain g where g': "g \<in> set gs" "g_ID g = i" by blast
    have "h = g" if "h \<in> set gs" "g_ID h = i" for h using g(1) g' that by (auto simp: distinct_map dest: inj_onD)
    then have "(\<exists>h \<in> set gs. g_ID h = i \<and> g_Enabled h) \<longleftrightarrow> g_Enabled g" using g' by metis
    then show ?thesis using inside[OF g'(1)] g'(2) by (cases "g_Enabled g") (auto simp only: settled_def if_True if_False)
  qed (auto simp: gone)
  ultimately show ?thesis using d by (simp add: tracked_outside_def converged_def)
qed

text \<open>The gateways a manager polls, by its database.\<close>

definition polled_here :: "'d manager_state \<Rightarrow> gateway set" where
  "polled_here m = (if dm_onBox m then set (db_gateways (dm_db m))
     else {g \<in> set (db_gateways (dm_db m)). \<exists>org. gateway_org (dm_db m) g = Some org \<and> Owner g (boxes_of (dm_db m) org) = Server})"

definition no_faults :: sync_faults where
  "no_faults = \<lparr>sf_query = False, sf_scan = False, sf_cut = None, sf_boxes = healthy, sf_mark = False\<rparr>"

lemma sort_key_map: "map f (sort_key (k \<circ> f) xs) = sort_key k (map f xs)"
proof (induction xs)
  case (Cons x xs)
  have "map f (insort_key (\<lambda>a. k (f a)) x ys) = insort_key k (f x) (map f ys)" for ys by (induction ys) simp_all
  then show ?case using Cons by (simp add: comp_def)
qed simp

lemma orgs_of_row:
  assumes "distinct (map (g_ID \<circ> fst) rows)" "(g, org) \<in> set rows"
  shows "orgs_of rows (g_ID g) = org"
proof -
  have "g_ID g \<notin> set (map (g_ID \<circ> fst) rows) \<Longrightarrow> fold (\<lambda>(h, org) acc. if g_ID h = g_ID g then org else acc) rows x = x"
    for x :: int and rows :: "(gateway \<times> int) list" by (induction rows arbitrary: x) auto
  moreover have "distinct (map (g_ID \<circ> fst) rows) \<Longrightarrow> (g, org) \<in> set rows \<Longrightarrow>
      fold (\<lambda>(h, org) acc. if g_ID h = g_ID g then org else acc) rows x = org" for x
    using calculation by (induction rows arbitrary: x) (force simp: rev_image_eqI)+
  ultimately show ?thesis using assms by (simp add: orgs_of_def)
qed

end
