(* ===== verification/Driver_Properties.thy ===== *)
theory Driver_Properties
  imports Driver_Convergence
begin

text \<open>
  Properties of the driver manager over its database: one pass leaves exactly one running driver for every gateway
  polled on the host; the platform and its boxes together poll every gateway exactly once; and the failures that
  break this.
\<close>

section \<open>From the database to the gateways of a pass\<close>

definition host_ready :: "'d manager_env \<Rightarrow> gotime \<Rightarrow> int list \<Rightarrow> 'd manager_state \<Rightarrow> bool" where
  "host_ready E now ord m \<longleftrightarrow> reliable_docker (me_docker E) \<and> integrity (dm_db m) \<and> ids_fit (dm_db m) \<and> manager_ok E m \<and>
     (\<forall>g \<in> polled_here m. accounted E g m \<and> \<not> in_cooldown now (dm_states m (g_ID g))) \<and>
     tracked_outside E (g_ID ` polled_here m) m \<and> dom (dm_states m) \<subseteq> set ord"

definition here :: "'d manager_state \<Rightarrow> gateway \<Rightarrow> bool" where
  "here m g \<longleftrightarrow> dm_onBox m \<or> (\<exists>org. gateway_org (dm_db m) g = Some org \<and> Owner g (boxes_of (dm_db m) org) = Server)"

text \<open>A gateway as the manager reads it.\<close>

definition as_read :: "gateway \<Rightarrow> gateway" where
  "as_read g = g\<lparr>g_ConnectionConfig := Map.empty, g_ZeroBased := False\<rparr>"

lemma as_read_simps [simp]: "g_ID (as_read g) = g_ID g" "g_Enabled (as_read g) = g_Enabled g" "g_DriverType (as_read g) = g_DriverType g"
  "Owner (as_read g) boxes = Owner g boxes" "due E now m (as_read g) = due E now m g"
  by (simp_all add: as_read_def Owner_def due_def accounted_def split: option.split)

lemma polled_here_filter: "polled_here m = set (filter (here m) (db_gateways (dm_db m)))"
  by (auto simp: polled_here_def here_def)

lemma LoadAllBoxes_healthy: "LoadAllBoxes healthy db = Inr (boxes_of db)"
  by (simp add: LoadAllBoxes_def healthy_def boxes_of_def filter_sort sort_key_map fun_eq_iff)

lemma has_org:
  assumes "integrity db" "g \<in> set (db_gateways db)"
  shows "\<exists>org. gateway_org db g = Some org"
proof -
  obtain a where a: "row_at ar_ID (db_areas db) (g_AreaID g) = Some a" "a \<in> set (db_areas db)"
    using assms row_at_Some[of ar_ID "db_areas db"] by (fastforce simp: integrity_def list_all_iff has_key_iff)
  then have "has_key st_ID (db_sites db) (ar_SiteID a)" using assms(1) by (simp add: integrity_def list_all_iff)
  then show ?thesis using a(1) row_at_None[of st_ID "db_sites db" "ar_SiteID a"] by (auto simp: gateway_org_def)
qed

lemma served_here:
  assumes "integrity db" "\<not> dm_onBox m" "dm_db m = db"
  shows "serverOwned no_faults db (map (fst \<circ> sync_row db) (db_gateways db)) (orgs_of (map (sync_row db) (db_gateways db))) =
    Inr (map as_read (filter (here m) (db_gateways db)))"
proof -
  let ?rows = "map (sync_row db) (db_gateways db)"
  have d: "distinct (map (g_ID \<circ> fst) ?rows)" using assms(1) by (simp add: integrity_def keyed_def comp_def sync_row_def)
  have "(Owner (as_read g) (boxes_of db (orgs_of ?rows (g_ID g))) = Server) = here m g" if g: "g \<in> set (db_gateways db)" for g
  proof -
    obtain org where o: "gateway_org db g = Some org" using has_org[OF assms(1) g] by blast
    then have "sync_row db g = (as_read g, org)" by (simp add: sync_row_def as_read_def)
    then have "(as_read g, org) \<in> set ?rows" using g by (metis image_eqI set_map)
    then have "orgs_of ?rows (g_ID g) = org" using orgs_of_row[OF d, of "as_read g" org] by simp
    then show ?thesis using assms(2,3) o by (simp add: here_def)
  qed
  then have "filter (\<lambda>g. Owner (as_read g) (boxes_of db (orgs_of ?rows (g_ID g))) = Server) (db_gateways db) = filter (here m) (db_gateways db)"
    by (intro filter_cong) simp_all
  then show ?thesis
    by (simp add: serverOwned_def bind_ok_def no_faults_def LoadAllBoxes_healthy ownedByServer_def filter_map comp_def sync_row_def as_read_def)
qed

lemma due_here:
  assumes r: "host_ready E now ord m"
  shows "list_all (due E now m) (map as_read (filter (here m) (db_gateways (dm_db m))))"
proof -
  have "driverServices t \<noteq> None" if "t \<in> set driver_types" for t using that by (auto simp: driver_types_def driverServices_def)
  then have "due E now m g" if "g \<in> set (db_gateways (dm_db m))" "here m g" for g
    using r that unfolding host_ready_def polled_here_filter by (simp add: due_def integrity_def ids_fit_def list_all_iff)
  then show ?thesis by (simp add: list_all_iff)
qed

section \<open>Properties\<close>

text \<open>
A host is ready (\<open>host_ready\<close>) when Docker does what it documents, the database satisfies its constraints, the manager's records are
consistent with the containers, and the manager can account for every running driver: one of a gateway polled here is the one it
has on record or bears the name it would give it, one of any other gateway is on record (a manager that lost its
records has orphans, see \<open>orphan_keeps_polling\<close>); and no gateway polled here waits out a cool-down after failed starts.
\<close>

lemma ready_converges:
  assumes "host_ready E now ord m"
  shows "\<exists>m'. syncGateways E now no_faults ord m = (m', None) \<and> manager_ok E m' \<and> tracked_outside E {} m' \<and> converged E (polled_here m) m'"
proof -
  let ?db = "dm_db m" and ?gs = "map as_read (filter (here m) (db_gateways (dm_db m)))"
  have r: "reliable_docker (me_docker E)" "integrity ?db" "manager_ok E m" "tracked_outside E (g_ID ` polled_here m) m" "dom (dm_states m) \<subseteq> set ord"
    using assms by (simp_all add: host_ready_def)
  have d: "distinct (map g_ID ?gs)" using r(2) by (simp add: integrity_def keyed_def comp_def distinct_map inj_on_def)
  have t: "tracked_outside E (g_ID ` set ?gs) m" using r(4) by (simp add: polled_here_filter image_image)
  have c: "converged E (set ?gs) m' = converged E (polled_here m) m'" for m' by (simp add: converged_def polled_here_filter)
  define m1 where "m1 = (if dm_onBox m then m else m\<lparr>dm_db := MarkServerPolling (now_ms now) ?db\<rparr>)"
  have q: "quiet E m m1" by (simp add: m1_def quiet_def containers_def issued_def)
  have due: "due E now m1 = due E now m" using q by (auto simp: fun_eq_iff quiet_def due_def accounted_def)
  have "syncGateways E now no_faults ord m = (sync_containers E now ord ?gs m1, None)"
  proof (cases "dm_onBox m")
    case True
    then have "map (fst \<circ> sync_row ?db) (db_gateways ?db) = ?gs" by (simp add: here_def sync_row_def as_read_def)
    then show ?thesis using True by (simp add: syncGateways_def sync_query_def no_faults_def Let_def m1_def)
  next
    case False
    then show ?thesis using served_here[OF r(2) False refl]
      by (simp add: syncGateways_def sync_query_def no_faults_def Let_def m1_def)
  qed
  moreover have "manager_ok E (sync_containers E now ord ?gs m1) \<and> tracked_outside E {} (sync_containers E now ord ?gs m1) \<and>
      converged E (set ?gs) (sync_containers E now ord ?gs m1)"
    by (rule sync_containers_converges[OF r(1) _ d _ _ _ refl])
      (use due_here[OF assms] r q t quiet_ok[OF q] in \<open>simp_all add: due quiet_def tracked_outside_def\<close>)
  ultimately show ?thesis using c by blast
qed

text \<open>
C1: with a reliable Docker daemon and no failing statement, one pass of a host whose manager has a record, or the expected name, of every
driver that runs there, none of whose gateways waits out a cool-down after failed starts, and whose database satisfies its constraints,
leaves exactly one running driver for every enabled gateway that is polled on this host (every gateway of its database on a box, those the
server owns on the platform) and none for any other gateway: drivers are started, adopted, replaced and stopped as that needs. The manager
then has a record of every running driver, so the next pass finds it ready again, cool-downs apart.
\<close>

theorem sync_converges:
  assumes "reliable_docker (me_docker E)" "integrity (dm_db m)" "ids_fit (dm_db m)" "manager_ok E m"
    and "\<forall>g \<in> polled_here m. accounted E g m \<and> \<not> in_cooldown now (dm_states m (g_ID g))"
    and "tracked_outside E (g_ID ` polled_here m) m" "dom (dm_states m) \<subseteq> set ord"
  shows "\<exists>m'. syncGateways E now no_faults ord m = (m', None) \<and> manager_ok E m' \<and> tracked_outside E {} m' \<and> converged E (polled_here m) m'"
  by (rule ready_converges) (use assms in \<open>simp add: host_ready_def\<close>)

text \<open>A box that applied what the platform serves now, holds no gateway of another organization, and made a pass since.\<close>

definition box_in_step :: "edge_db \<Rightarrow> int \<Rightarrow> int \<Rightarrow> 'd manager_env \<Rightarrow> 'd manager_state \<Rightarrow> 'd manager_state \<Rightarrow> bool" where
  "box_in_step db org b E m m' \<longleftrightarrow>
     (\<exists>getenv creds fails fails' cfg before. ServeConfig getenv creds fails (\<lambda>_. db) (Some org) (Some b) = (200, Some cfg) \<and>
        integrity before \<and> ApplyConfig fails' (Some cfg) before = (None, dm_db m)) \<and>
     dm_onBox m \<and> list_all (\<lambda>g. gateway_org (dm_db m) g = Some org) (db_gateways (dm_db m)) \<and>
     (\<exists>now ord. host_ready E now ord m \<and> syncGateways E now no_faults ord m = (m', None))"

lemma converged_card:
  "converged E gs m \<Longrightarrow> card (polling (containers E m) i) = (if \<exists>g \<in> gs. g_ID g = i \<and> g_Enabled g then 1 else 0)"
  unfolding converged_def by (metis card.empty is_singletonI is_singleton_altdef)

lemma one_gateway:
  assumes "integrity db" "g \<in> set (db_gateways db)" "h \<in> set (db_gateways db)" "g_ID h = g_ID g"
  shows "h = g"
  using assms by (auto simp: integrity_def keyed_def distinct_map dest: inj_onD)

lemma Owner_range: "Owner g boxes = Server \<or> Owner g boxes \<in> bx_ID ` set boxes"
  by (auto simp: Owner_def find_Some_iff split: option.split)

lemma box_share_card:
  assumes db: "integrity db" "ids_fit db" and g: "g \<in> set (db_gateways db)" "g_Enabled g" "gateway_org db g = Some org"
    and b: "b \<noteq> Server" and s: "box_in_step db org b E m m'"
  shows "card (polling (containers E m') (g_ID g)) = (if Owner g (boxes_of db org) = b then 1 else 0)"
proof -
  obtain getenv creds fails fails' cfg before now ord where
    s': "ServeConfig getenv creds fails (\<lambda>_. db) (Some org) (Some b) = (200, Some cfg)" "integrity before"
      "ApplyConfig fails' (Some cfg) before = (None, dm_db m)" "dm_onBox m" "host_ready E now ord m"
      "syncGateways E now no_faults ord m = (m', None)" "list_all (\<lambda>g. gateway_org (dm_db m) g = Some org) (db_gateways (dm_db m))"
    using s unfolding box_in_step_def by blast
  have "org_gateways (dm_db m) org = unassigned ` share_gateways db org b"
    using box_share_lemma[OF db b s'(1-3)] by blast
  moreover have "filter (\<lambda>g. gateway_org (dm_db m) g = Some org) (db_gateways (dm_db m)) = db_gateways (dm_db m)"
    using s'(7) by (simp add: filter_id_conv list_all_iff)
  ultimately have h: "unassigned ` polled_here m = unassigned ` share_gateways db org b"
    using s'(4) by (simp add: org_gateways_def polled_here_def)
  have "(\<exists>h \<in> polled_here m. g_ID h = g_ID g \<and> g_Enabled h) \<longleftrightarrow> (\<exists>h \<in> unassigned ` polled_here m. g_ID h = g_ID g \<and> g_Enabled h)"
    by (simp add: unassigned_def)
  also have "\<dots> \<longleftrightarrow> (\<exists>h \<in> share_gateways db org b. g_ID h = g_ID g \<and> g_Enabled h)" unfolding h by (simp add: unassigned_def)
  also have "\<dots> \<longleftrightarrow> g \<in> share_gateways db org b" using one_gateway[OF db(1) g(1)] g(2) by (auto simp: share_gateways_def)
  also have "\<dots> \<longleftrightarrow> Owner g (boxes_of db org) = b" using g by (simp add: share_gateways_def)
  finally show ?thesis using converged_card ready_converges[OF s'(5)] s'(6) by fastforce
qed

text \<open>
C2: the platform and the boxes of an organization agree on who polls what: when the platform made a pass over its database
and every box applied the configuration served from it, holds no gateway of another organization, and made a pass of its own, and each of
these hosts was ready for its pass (\<open>host_ready\<close>: reliable Docker, every running driver on record or under its expected name, no
cool-down; so no driver left over from a manager that crashed), exactly one driver container polls each enabled gateway, counting
all of these hosts.
\<close>

theorem polled_exactly_once:
  assumes "integrity db" "ids_fit db" "g \<in> set (db_gateways db)" "g_Enabled g" "gateway_org db g = Some org"
    and "distinct (map bx_ID (boxes_of db org))" "Server \<notin> bx_ID ` set (boxes_of db org)"
    and "dm_db s = db" "\<not> dm_onBox s" "host_ready E now ord s" "syncGateways E now no_faults ord s = (s', None)"
    and "list_all (\<lambda>b. box_in_step db org (bx_ID b) (BE b) (bm b) (bm' b)) (boxes_of db org)"
  shows "card (polling (containers E s') (g_ID g)) +
    sum_list (map (\<lambda>b. card (polling (containers (BE b) (bm' b)) (g_ID g))) (boxes_of db org)) = 1"
proof -
  let ?boxes = "boxes_of db org" and ?o = "Owner g (boxes_of db org)"
  have "(\<exists>h \<in> polled_here s. g_ID h = g_ID g \<and> g_Enabled h) \<longleftrightarrow> ?o = Server"
  proof
    assume "\<exists>h \<in> polled_here s. g_ID h = g_ID g \<and> g_Enabled h"
    then obtain h where h: "h \<in> polled_here s" "g_ID h = g_ID g" by blast
    then have "h = g" using one_gateway[OF assms(1,3)] assms(8,9) by (simp add: polled_here_def)
    then show "?o = Server" using h(1) assms(5,8,9) by (simp add: polled_here_def)
  qed (use assms(3-5,8,9) in \<open>auto simp: polled_here_def\<close>)
  then have server: "card (polling (containers E s') (g_ID g)) = (if ?o = Server then 1 else 0)"
    using converged_card ready_converges[OF assms(10)] assms(11) by fastforce
  have each: "card (polling (containers (BE b) (bm' b)) (g_ID g)) = (if ?o = bx_ID b then 1 else 0)" if "b \<in> set ?boxes" for b
  proof -
    have b: "bx_ID b \<noteq> Server" using assms(7) that by force
    have "box_in_step db org (bx_ID b) (BE b) (bm b) (bm' b)" using assms(12) that by (simp add: list_all_iff)
    then show ?thesis by (rule box_share_card[OF assms(1-5) b])
  qed
  then have "sum_list (map (\<lambda>b. card (polling (containers (BE b) (bm' b)) (g_ID g))) ?boxes) =
      sum_list (map (\<lambda>b. if ?o = bx_ID b then 1 else 0) ?boxes)"
    by (intro arg_cong[of _ _ sum_list] map_cong) simp_all
  also have "\<dots> = (if ?o \<in> bx_ID ` set ?boxes then 1 else 0)"
  proof -
    have "sum_list (map (\<lambda>b. if i = bx_ID b then 1 else 0) xs) = (if i \<in> bx_ID ` set xs then 1 else (0::nat))"
      if "distinct (map bx_ID xs)" for xs i using that by (induction xs) auto
    then show ?thesis using assms(6) by blast
  qed
  finally show ?thesis using server Owner_range[of g ?boxes] assms(7) by auto
qed

section \<open>A Docker daemon\<close>

text \<open>The containers and the identifiers ever given out, kept in memory.\<close>

definition fresh_id :: "string list \<Rightarrow> string" where
  "fresh_id ids = replicate (Suc (sum_list (map length ids))) CHR ''a''"

definition of_spec :: "container_spec \<Rightarrow> string \<Rightarrow> string \<Rightarrow> container" where
  "of_spec spec name i = \<lparr>cn_ID = i, cn_Name = name, cn_Image = sp_Image spec, cn_Env = sp_Env spec,
     cn_Networks = [], cn_NetworkMode = sp_NetworkMode spec, cn_Running = False\<rparr>"

definition memory_docker :: "(container list \<times> string list) docker" where
  "memory_docker =
     \<lparr>dk_table = fst, dk_issued = snd,
      ContainerInspect = (\<lambda>ref d. (d, case lookup ref (fst d) of None \<Rightarrow> Inl ''no such container''
        | Some c \<Rightarrow> Inr (container.extend c (inspect_response.fields False)))),
      ContainerCreate = (\<lambda>spec name d. if lookup name (fst d) \<noteq> None then (d, Inl ''name in use'')
        else let i = fresh_id (snd d) in ((fst d @ [of_spec spec name i], i # snd d), Inr i)),
      ContainerStart = (\<lambda>i d. if i \<in> set (map cn_ID (fst d)) then ((set_running i True (fst d), snd d), None) else (d, Some ''no such container'')),
      ContainerStop = (\<lambda>ref d. case lookup ref (fst d) of None \<Rightarrow> (d, NotFound)
        | Some c \<Rightarrow> ((set_running (cn_ID c) False (fst d), snd d), Stopped)),
      ContainerRemove = (\<lambda>ref force d. case lookup ref (fst d) of None \<Rightarrow> (d, Some ''no such container'')
        | Some c \<Rightarrow> if force \<or> \<not> cn_Running c then ((filter (\<lambda>x. cn_ID x \<noteq> cn_ID c) (fst d), snd d), None) else (d, Some ''running'')),
      NetworkInspect = (\<lambda>n d. (d, Inr n)), NetworkList = (\<lambda>d. (d, Inr [])), NetworkCreate = (\<lambda>n d. (d, Inr n)),
      ImageInspect = (\<lambda>img d. (d, True)), ImagePull = (\<lambda>img d. (d, Pulled))\<rparr>"

lemma fresh_id_new: "fresh_id ids \<notin> set ids"
proof
  assume "fresh_id ids \<in> set ids"
  then have "length (fresh_id ids) \<le> sum_list (map length ids)" by (intro member_le_sum_list) simp_all
  then show False by (simp add: fresh_id_def)
qed

lemma memory_docker_reliable: "reliable_docker memory_docker"
proof -
  have "is_docker_id (fresh_id ids)" for ids by (simp add: fresh_id_def is_docker_id_def list_all_iff is_hex_def)
  then have "create_law memory_docker"
    by (auto simp: create_law_def memory_docker_def Let_def of_spec_def fresh_id_new)
  moreover have "inspect_law memory_docker"
    by (auto simp: inspect_law_def memory_docker_def same_def container.defs inspect_response.defs split: option.split)
  moreover have "start_law memory_docker" "stop_law memory_docker" "remove_law memory_docker" "network_law memory_docker" "image_law memory_docker"
    by (auto simp: start_law_def stop_law_def remove_law_def network_law_def image_law_def memory_docker_def same_def split: option.split)
  ultimately show ?thesis by (simp add: reliable_docker_def)
qed

definition sample_env :: "(container list \<times> string list) manager_env" where
  "sample_env = \<lparr>me_getenv = (\<lambda>_. ''''), me_hostname = None, me_docker = memory_docker\<rparr>"

text \<open>A manager that was just started, over a database, with no container on the host.\<close>

definition new_manager :: "edge_db \<Rightarrow> bool \<Rightarrow> int \<Rightarrow> (container list \<times> string list) manager_state" where
  "new_manager db box org = \<lparr>dm_db = db, dm_docker = ([], []), dm_states = Map.empty, dm_networkID = '''', dm_consecutiveErrors = 0,
     dm_orgID = org, dm_onBox = box, dm_pullFailures = Map.empty, dm_sent = []\<rparr>"

lemma new_manager_ready:
  assumes "integrity db" "ids_fit db"
  shows "host_ready sample_env 0 [] (new_manager db box org)"
proof -
  have "containers sample_env (new_manager db box org) = []" "issued sample_env (new_manager db box org) = []"
    by (simp_all add: containers_def issued_def sample_env_def new_manager_def memory_docker_def)
  then show ?thesis using assms memory_docker_reliable
    by (simp add: host_ready_def manager_ok_def table_ok_def named_ok_def states_ok_def accounted_def tracked_outside_def polling_def
        in_cooldown_def sample_env_def new_manager_def)
qed

theorem sync_converges_witness:
  "\<exists>m'. syncGateways sample_env 0 no_faults [] (new_manager sample_platform False 3) = (m', None) \<and>
     (\<exists>c. polling (containers sample_env m') 8 = {c}) \<and> polling (containers sample_env m') 7 = {}"
proof -
  obtain m' where m': "syncGateways sample_env 0 no_faults [] (new_manager sample_platform False 3) = (m', None)"
    "converged sample_env (polled_here (new_manager sample_platform False 3)) m'"
    using sync_converges[of sample_env "new_manager sample_platform False 3" 0 "[]"]
      new_manager_ready[OF sample_platform_ok(1,2), of False 3, unfolded host_ready_def] by blast
  have "polled_here (new_manager sample_platform False 3) =
      {g \<in> set (db_gateways sample_platform). \<exists>org. gateway_org sample_platform g = Some org \<and> Owner g (boxes_of sample_platform org) = Server}"
    by (simp add: polled_here_def new_manager_def)
  moreover have "gateway_org sample_platform g = Some 3" if "g \<in> set (db_gateways sample_platform)" for g
    using that by (auto simp: sample_platform_def gateway_org_def row_at_def)
  moreover have "list_all (\<lambda>g. (Owner g (boxes_of sample_platform 3) = Server) = (g_ID g = 8)) (db_gateways sample_platform) \<and>
      list_all g_Enabled (db_gateways sample_platform) \<and> list_ex (\<lambda>g. g_ID g = 8) (db_gateways sample_platform)"
    by code_simp
  ultimately have "(\<exists>g \<in> polled_here (new_manager sample_platform False 3). g_ID g = i \<and> g_Enabled g) \<longleftrightarrow> i = 8" for i
    by (auto simp: list_all_iff list_ex_iff)
  then have "\<exists>c. polling (containers sample_env m') 8 = {c}" "polling (containers sample_env m') 7 = {}"
    using m'(2) unfolding converged_def by (metis, simp)
  then show ?thesis using m'(1) by blast
qed

lemma sample_org: "\<forall>g \<in> set (db_gateways sample_platform). gateway_org sample_platform g = Some 3"
  by (simp add: sample_platform_def gateway_org_def row_at_def)

lemma sample_box_ready: "host_ready sample_env 0 [] (new_manager sample_box True 3)"
  "list_all (\<lambda>g. gateway_org sample_box g = Some 3) (db_gateways sample_box)"
proof -
  have "integrity sample_box"
    using box_share_lemma[OF sample_platform_ok(1,2) _ sample_served sample_platform_ok(3) sample_applied] by (simp add: Server_def)
  moreover have "ids_fit sample_box \<and> list_all (\<lambda>g. gateway_org sample_box g = Some 3) (db_gateways sample_box)" by code_simp
  ultimately show "host_ready sample_env 0 [] (new_manager sample_box True 3)"
    "list_all (\<lambda>g. gateway_org sample_box g = Some 3) (db_gateways sample_box)"
    using new_manager_ready by blast+
qed

theorem polled_exactly_once_witness:
  "\<exists>s' b'. syncGateways sample_env 0 no_faults [] (new_manager sample_platform False 3) = (s', None) \<and>
     syncGateways sample_env 0 no_faults [] (new_manager sample_box True 3) = (b', None) \<and>
     card (polling (containers sample_env s') 7) + card (polling (containers sample_env b') 7) = 1"
proof -
  let ?s = "new_manager sample_platform False 3" and ?b = "new_manager sample_box True 3"
  obtain s' where s': "syncGateways sample_env 0 no_faults [] ?s = (s', None)"
    using ready_converges[OF new_manager_ready[OF sample_platform_ok(1,2)]] by blast
  obtain b' where b': "syncGateways sample_env 0 no_faults [] ?b = (b', None)" using ready_converges[OF sample_box_ready(1)] by blast
  have boxes: "boxes_of sample_platform 3 = [\<lparr>bx_ID = 5, bx_Scope = ScopeAssigned\<rparr>]" by (simp add: boxes_of_def sample_platform_def)
  have "box_in_step sample_platform 3 5 sample_env ?b b'"
    unfolding box_in_step_def using sample_served sample_platform_ok(3) sample_applied sample_box_ready b'
    by (fastforce simp: new_manager_def)
  moreover obtain g where g: "g \<in> set (db_gateways sample_platform)" "g_ID g = 7" "g_Enabled g"
    by (rule that[of "hd (db_gateways sample_platform)"]) (simp_all add: sample_platform_def)
  ultimately have "card (polling (containers sample_env s') (g_ID g)) +
      sum_list (map (\<lambda>b. card (polling (containers sample_env b') (g_ID g))) (boxes_of sample_platform 3)) = 1"
    using s' sample_org boxes
    by (intro polled_exactly_once[where s = ?s and org = 3 and BE = "\<lambda>_. sample_env" and bm = "\<lambda>_. ?b" and db = sample_platform and now = 0 and ord = "[]"]
        sample_platform_ok new_manager_ready) (simp_all add: Server_def, simp_all add: new_manager_def)
  then show ?thesis using s' b' g(2) boxes by simp
qed

section \<open>What breaks it\<close>

text \<open>
A disabled gateway whose container cannot be inspected at that moment is taken for stopped: its driver keeps polling,
and neither a later pass nor deleting the gateway stops it.
\<close>

theorem failed_inspect_leaks:
  assumes "dm_states m (g_ID g) = Some s" "gs_Running s" "\<not> g_Enabled g"
    and "snd (ContainerInspect (me_docker E) (gs_ContainerID s) (dm_docker m)) = Inl e"
    and "same (me_docker E) (dm_docker m) (fst (ContainerInspect (me_docker E) (gs_ContainerID s) (dm_docker m)))"
    and "m' = sync_gateway E now g m"
  shows "containers E m' = containers E m \<and> sync_gateway E now' g m' = m' \<and>
    containers E (drop_gateway E now' {} (g_ID g) m') = containers E m"
proof -
  have m': "m' = put_state (g_ID g) (s\<lparr>gs_Running := False\<rparr>)
      (m\<lparr>dm_docker := fst (ContainerInspect (me_docker E) (gs_ContainerID s) (dm_docker m))\<rparr>)"
    using assms by (simp add: sync_gateway_def verify_running_def isContainerRunning_def case_prod_beta Let_def)
  have "containers E m' = containers E m" using assms(5) by (simp add: m' same_def containers_def)
  moreover have "sync_gateway E now' g m' = m'" using assms(3) by (simp add: m' sync_gateway_def verify_running_def Let_def)
  moreover have "containers E (drop_gateway E now' {} (g_ID g) m') = containers E m'"
    by (simp add: drop_gateway_def m' containers_def put_state_def)
  ultimately show ?thesis by simp
qed

text \<open>A driver for gateway 7, and a manager that knows it.\<close>

definition driver_7 :: container where
  "driver_7 = \<lparr>cn_ID = ''a'', cn_Name = ''driver-s7-7'', cn_Image = '''', cn_Env = [''GATEWAY_ID=7''], cn_Networks = [],
     cn_NetworkMode = '''', cn_Running = True\<rparr>"

definition busy_manager :: "edge_db \<Rightarrow> bool \<Rightarrow> (container list \<times> string list) manager_state" where
  "busy_manager db box = (new_manager db box 3)\<lparr>dm_docker := ([driver_7], [''a'']),
     dm_states := [7 \<mapsto> running_state (hd (db_gateways sample_platform)) ''a'']\<rparr>"

definition timing_out :: "(container list \<times> string list) manager_env" where
  "timing_out = sample_env\<lparr>me_docker := memory_docker\<lparr>ContainerInspect := (\<lambda>ref d. (d, Inl ''timeout''))\<rparr>\<rparr>"

lemma driver_7_polls: "polling [driver_7] 7 = {driver_7}" "container_gateway driver_7 = Some 7"
proof -
  show "container_gateway driver_7 = Some 7" by code_simp
  then show "polling [driver_7] 7 = {driver_7}" by (auto simp: polling_def) (simp add: driver_7_def)
qed

theorem failed_inspect_leaks_witness:
  "polling (containers timing_out (sync_gateway timing_out 0 ((hd (db_gateways sample_platform))\<lparr>g_Enabled := False\<rparr>)
     (busy_manager sample_box True))) 7 = {driver_7}"
proof -
  let ?g = "(hd (db_gateways sample_platform))\<lparr>g_Enabled := False\<rparr>" and ?m = "busy_manager sample_box True"
  have "containers timing_out (sync_gateway timing_out 0 ?g ?m) = containers timing_out ?m"
    using failed_inspect_leaks[of ?m ?g "running_state (hd (db_gateways sample_platform)) ''a''" timing_out "''timeout''" _ 0]
    by (simp add: busy_manager_def sample_platform_def running_state_def timing_out_def same_def)
  also have "\<dots> = [driver_7]" by (simp add: containers_def timing_out_def sample_env_def memory_docker_def busy_manager_def)
  finally show ?thesis using driver_7_polls by simp
qed

lemma on_box_pass:
  assumes "dm_onBox m"
  shows "syncGateways E now (no_faults\<lparr>sf_cut := Some n\<rparr>) ord m = (sync_containers E now ord (map as_read (take n (db_gateways (dm_db m)))) m, None)"
  using assms by (simp add: syncGateways_def sync_query_def no_faults_def Let_def take_map sync_row_def as_read_def[abs_def] comp_def)

text \<open>
When the connection to the database breaks while a box reads its gateways, the pass ends without an error and the
drivers of the gateways that were not read yet are stopped.
\<close>

theorem truncated_read_stops:
  assumes "host_ready E now ord m" "dm_onBox m" "tracked_outside E {} m" "g \<in> set (drop n (db_gateways (dm_db m)))"
  shows "\<exists>m'. syncGateways E now (no_faults\<lparr>sf_cut := Some n\<rparr>) ord m = (m', None) \<and> polling (containers E m') (g_ID g) = {}"
proof -
  let ?gs = "map as_read (take n (db_gateways (dm_db m)))" and ?all = "db_gateways (dm_db m)"
  have r: "reliable_docker (me_docker E)" "integrity (dm_db m)" "manager_ok E m" "dom (dm_states m) \<subseteq> set ord"
    using assms(1) by (simp_all add: host_ready_def)
  have k: "distinct (map g_ID ?all)" using r(2) by (simp add: integrity_def keyed_def)
  have "list_all (due E now m) (map as_read ?all)" using due_here[OF assms(1)] assms(2) by (simp add: here_def)
  then have due: "list_all (due E now m) ?gs" by (auto simp: list_all_iff dest: in_set_takeD)
  have d: "distinct (map g_ID ?gs)" using distinct_take[OF k, of n] by (simp add: take_map comp_def)
  have "tracked_outside E (g_ID ` set ?gs) m" using assms(3) by (simp add: tracked_outside_def)
  note c = sync_containers_converges[OF r(1,3) d due this r(4) refl]
  have "g_ID g \<notin> g_ID ` set (take n ?all)"
  proof
    assume "g_ID g \<in> g_ID ` set (take n ?all)"
    moreover have "distinct (map g_ID (take n ?all) @ map g_ID (drop n ?all))" using k by (metis append_take_drop_id map_append)
    ultimately show False using assms(4) by (auto simp: distinct_append)
  qed
  then have "polling (containers E (sync_containers E now ord ?gs m)) (g_ID g) = {}"
  proof -
    have "\<not> (\<exists>h \<in> set ?gs. g_ID h = g_ID g \<and> g_Enabled h)" using \<open>g_ID g \<notin> _\<close> by (force simp: image_iff)
    then show ?thesis using c unfolding converged_def by metis
  qed
  then show ?thesis using on_box_pass[OF assms(2)] by blast
qed

lemma container_name_7:
  assumes "driverServices t = Some p" "is_int64 i" "''driver-s7-7'' = container_name p i"
  shows "i = 7"
proof -
  have "container_name ''driver-s7'' 7 = ''driver-s7-7''" by code_simp
  then have "container_name p i = container_name ''driver-s7'' 7" using assms(3) by simp
  then show ?thesis using container_name_inj[OF assms(1), of "''S7''" "''driver-s7''" i 7] assms(2) by (simp add: driverServices_def is_int64_def)
qed

lemma busy_manager_facts:
  "containers sample_env (busy_manager db box) = [driver_7]" "issued sample_env (busy_manager db box) = [''a'']"
  "dm_db (busy_manager db box) = db" "dm_onBox (busy_manager db box) = box"
  by (simp_all add: busy_manager_def new_manager_def containers_def issued_def sample_env_def memory_docker_def)

lemma driver_7_ok: "table_ok [driver_7] [''a'']" "named_ok [driver_7]"
proof -
  show "table_ok [driver_7] [''a'']" by code_simp
  have "cn_Name driver_7 = ''driver-s7-7''" by (simp add: driver_7_def)
  then show "named_ok [driver_7]" using container_name_7 driver_7_polls(2) by (auto simp: named_ok_def)
qed

lemma busy_manager_ok: "manager_ok sample_env (busy_manager db box)" "tracked_outside sample_env {} (busy_manager db box)"
proof -
  let ?s = "running_state (hd (db_gateways sample_platform)) ''a''"
  have st: "dm_states (busy_manager db box) = [7 \<mapsto> ?s]" by (simp add: busy_manager_def)
  have "is_docker_id ''a''" by code_simp
  then have "states_ok [driver_7] [''a''] [7 \<mapsto> ?s]" using driver_7_polls(2) by (simp add: states_ok_def running_state_def)
  then show "manager_ok sample_env (busy_manager db box)" using driver_7_ok by (simp add: manager_ok_def busy_manager_facts st)
  have "known (Some ?s) driver_7" by (simp add: known_def running_state_def driver_7_def)
  then show "tracked_outside sample_env {} (busy_manager db box)"
    using driver_7_polls(2) by (auto simp: tracked_outside_def busy_manager_facts st polling_def)
qed

theorem truncated_read_stops_witness:
  "\<exists>m'. syncGateways sample_env 0 (no_faults\<lparr>sf_cut := Some 0\<rparr>) [7] (busy_manager sample_box True) = (m', None) \<and>
     polling (containers sample_env m') 7 = {} \<and> polling (containers sample_env (busy_manager sample_box True)) 7 = {driver_7}"
proof -
  let ?m = "busy_manager sample_box True"
  have db: "integrity sample_box" "ids_fit sample_box" using sample_box_ready(1) by (simp_all add: host_ready_def new_manager_def)
  have "\<not> in_cooldown 0 (dm_states ?m i)" for i by (simp add: busy_manager_def in_cooldown_def running_state_def maxStartRetries_def new_manager_def)
  moreover have "accounted sample_env g ?m" for g using busy_manager_ok(2)[of sample_box True] by (simp add: accounted_def tracked_outside_def)
  moreover have "tracked_outside sample_env A ?m" for A using busy_manager_ok(2)[of sample_box True] by (simp add: tracked_outside_def)
  moreover have "dom (dm_states ?m) \<subseteq> set [7]" by (simp add: busy_manager_def)
  moreover have "reliable_docker (me_docker sample_env)" using memory_docker_reliable by (simp add: sample_env_def)
  ultimately have "host_ready sample_env 0 [7] ?m" using db busy_manager_ok(1) by (simp add: host_ready_def busy_manager_facts(3))
  moreover obtain g where "g \<in> set (drop 0 (db_gateways (dm_db ?m)))" "g_ID g = 7"
  proof -
    have "list_ex (\<lambda>g. g_ID g = 7) (db_gateways sample_box)" by code_simp
    then show thesis using that by (auto simp: list_ex_iff busy_manager_facts)
  qed
  ultimately show ?thesis using truncated_read_stops[of sample_env 0 "[7]" ?m g 0] busy_manager_ok(2) driver_7_polls
    by (auto simp: busy_manager_facts)
qed

text \<open>
A manager that starts afresh keeps no record of the drivers left running: one whose gateway is not polled on this host
any more (deleted, or given to a box, while the manager was down) keeps polling, beside the box.
\<close>

theorem orphan_keeps_polling:
  assumes "reliable_docker (me_docker E)" "integrity (dm_db m)" "ids_fit (dm_db m)" "manager_ok E m" "dm_states m = Map.empty"
    and "\<forall>g \<in> polled_here m. accounted E g m" "set ord \<subseteq> g_ID ` polled_here m" "i \<notin> g_ID ` polled_here m" "\<not> dm_onBox m"
  shows "\<exists>m'. syncGateways E now no_faults ord m = (m', None) \<and> polling (containers E m') i = polling (containers E m) i"
proof -
  let ?gs = "map as_read (filter (here m) (db_gateways (dm_db m)))"
  define m1 where "m1 = fold (prepull E now) ?gs (m\<lparr>dm_db := MarkServerPolling (now_ms now) (dm_db m)\<rparr>)"
  have q: "quiet E m m1"
    using quiet_fold[of E "prepull E now", OF prepull_quiet[OF assms(1)], where xs = ?gs and m = "m\<lparr>dm_db := MarkServerPolling (now_ms now) (dm_db m)\<rparr>"]
    by (simp add: m1_def quiet_def containers_def issued_def)
  have ids: "g_ID ` set ?gs = g_ID ` polled_here m" by (simp add: polled_here_filter image_image)
  have "driverServices (g_DriverType g) \<noteq> None" if "g \<in> set (db_gateways (dm_db m))" for g
    using that assms(2) by (auto simp: integrity_def list_all_iff driver_types_def driverServices_def)
  then have "due E now m g" if "g \<in> set (db_gateways (dm_db m))" "here m g" for g
    using that assms(3,5,6) by (simp add: due_def in_cooldown_def ids_fit_def list_all_iff polled_here_filter)
  moreover have "due E now m1 = due E now m" using q by (auto simp: fun_eq_iff quiet_def due_def accounted_def)
  ultimately have due: "list_all (due E now m1) ?gs" by (simp add: list_all_iff)
  have d: "distinct (map g_ID ?gs)" using assms(2) by (simp add: integrity_def keyed_def comp_def distinct_map inj_on_def)
  define m2 where "m2 = fold (sync_gateway E now) ?gs m1"
  have "outside E (g_ID ` set ?gs) m1 m2" using synced_all[OF assms(1) _ d due] quiet_ok[OF q] assms(4) by (simp add: m2_def)
  then have p: "polling (containers E m2) i = polling (containers E m) i" using q assms(8) ids by (simp add: outside_def quiet_def)
  have "fold (drop_gateway E now (set (map g_ID ?gs))) ord m2 = m2"
  proof -
    have "fold (drop_gateway E now A) xs x = x" if "set xs \<subseteq> A" for A xs x
      using that by (induction xs) (simp_all add: drop_gateway_def)
    then show ?thesis using assms(7) ids by (metis set_map)
  qed
  then have "syncGateways E now no_faults ord m = (m2, None)"
    using served_here[OF assms(2,9) refl] assms(9)
    by (simp add: syncGateways_def sync_query_def no_faults_def sync_containers_def Let_def m1_def m2_def)
  then show ?thesis using p by blast
qed

text \<open>After a crash, with the driver of gateway 7 still running and the gateway given to box 5 in the meantime.\<close>

theorem orphan_keeps_polling_witness:
  "\<exists>m'. syncGateways sample_env 0 no_faults [8] ((busy_manager sample_platform False)\<lparr>dm_states := Map.empty\<rparr>) = (m', None) \<and>
     polling (containers sample_env m') 7 = {driver_7}"
proof -
  let ?m = "(busy_manager sample_platform False)\<lparr>dm_states := Map.empty\<rparr>"
  have f: "containers sample_env ?m = [driver_7]" "issued sample_env ?m = [''a'']" "dm_db ?m = sample_platform" "\<not> dm_onBox ?m"
    using busy_manager_facts[of sample_platform False] by (simp_all add: containers_def issued_def)
  have ok: "manager_ok sample_env ?m" using driver_7_ok by (simp add: manager_ok_def f states_ok_def)
  have "list_all (\<lambda>g. (Owner g (boxes_of sample_platform 3) = Server) = (g_ID g = 8)) (db_gateways sample_platform) \<and>
      list_ex (\<lambda>g. g_ID g = 8) (db_gateways sample_platform)" by code_simp
  then have ids: "g_ID ` polled_here ?m = {8}" using sample_org f by (force simp: polled_here_def list_all_iff list_ex_iff)
  have "polling [driver_7] 8 = {}" using driver_7_polls(2) by (auto simp: polling_def)
  moreover have "g_ID g = 8" if "g \<in> polled_here ?m" for g using ids that by blast
  ultimately have acc: "\<forall>g \<in> polled_here ?m. accounted sample_env g ?m" by (simp add: accounted_def f(1))
  have r: "reliable_docker (me_docker sample_env)" using memory_docker_reliable by (simp add: sample_env_def)
  have "integrity (dm_db ?m)" "ids_fit (dm_db ?m)" "dm_states ?m = Map.empty" "set [8] \<subseteq> g_ID ` polled_here ?m" "7 \<notin> g_ID ` polled_here ?m"
    using sample_platform_ok ids f(3) by simp_all
  note orphan_keeps_polling[OF r this(1,2) ok this(3) acc this(4,5) f(4), of 0]
  then show ?thesis unfolding f(1) driver_7_polls(1) .
qed

end
