(* ===== verification/S7.thy ===== *)
theory S7
  imports Big_Endian
begin

text \<open>
  The S7 client (\<open>internal/s7/client.go\<close>): addresses, the two handshakes, requests and responses byte by byte, values.
  A function whose code may panic returns an option, \<open>None\<close> being the panic.

  The TCP connection is a parameter: \<open>'n\<close> is its state and \<open>net\<close> its operations.  Deadlines show only as errors of a
  read or a write.
\<close>

section \<open>Errors, connection and client\<close>

datatype io_error = EOF | UnexpectedEOF | OpError | NoProgress

datatype s7_error =
    NotConnected
  | MissingIP
  | UnsupportedType
  | BadAddress
  | Io io_error
  | Protocol
  | PlcError byte byte
  | ItemError byte
  | BufferTooSmall
  | WrongValue
  | CountMismatch
  | DialFailed
  | ResponseTooShort
  | UnexpectedResponse byte
  | ConnectFailed "s7_error option"

record 'n net =
  net_dial :: "string \<Rightarrow> int \<Rightarrow> 'n \<Rightarrow> 'n \<times> bool"
  net_write :: "bytes \<Rightarrow> 'n \<Rightarrow> 'n \<times> io_error option"
  net_read :: "nat \<Rightarrow> 'n \<Rightarrow> 'n \<times> (io_error + bytes)"
  net_close :: "'n \<Rightarrow> 'n"

record s7_config =
  sc_IP :: string
  sc_Rack :: int
  sc_Slot :: int
  sc_Port :: int
  sc_ConnectRetry :: int
  sc_RetryInterval :: duration
  sc_Timeout :: duration

record 'n s7_client =
  s7_config :: s7_config
  s7_conn :: 'n
  s7_connected :: bool
  s7_pduLength :: int
  s7_sequenceNum :: "16 word"

record tag_value =
  tv_Value :: "go_value option"
  tv_Quality :: nat
  tv_Error :: "s7_error option"

definition NewClient_s7 :: "'n \<Rightarrow> s7_config \<Rightarrow> 'n s7_client" where
  "NewClient_s7 net cfg =
     (let cfg = (if sc_Port cfg = 0 then cfg\<lparr>sc_Port := 102\<rparr> else cfg);
          cfg = (if sc_ConnectRetry cfg \<le> 0 then cfg\<lparr>sc_ConnectRetry := 3\<rparr> else cfg);
          cfg = (if sc_RetryInterval cfg \<le> 0 then cfg\<lparr>sc_RetryInterval := 5 * Second\<rparr> else cfg);
          cfg = (if sc_Timeout cfg \<le> 0 then cfg\<lparr>sc_Timeout := 10 * Second\<rparr> else cfg)
      in \<lparr>s7_config = cfg, s7_conn = net, s7_connected = False, s7_pduLength = 480, s7_sequenceNum = 0\<rparr>)"

fun first_string :: "(string \<rightharpoonup> go_value) \<Rightarrow> string list \<Rightarrow> string option" where
  "first_string m [] = None"
| "first_string m (k # ks) = (case m k of Some (VString s) \<Rightarrow> if s \<noteq> '''' then Some s else first_string m ks | _ \<Rightarrow> first_string m ks)"

definition int_or :: "go_impl \<Rightarrow> int \<Rightarrow> go_value option \<Rightarrow> int" where
  "int_or G def v = (case v of
     Some (VFloat64 f) \<Rightarrow> conv_num G (- (2 ^ 63)) (2 ^ 63 - 1) f
   | Some (VInt w) \<Rightarrow> sint w
   | _ \<Rightarrow> def)"

definition NewClientFromConfig_s7 :: "go_impl \<Rightarrow> 'n \<Rightarrow> (string \<rightharpoonup> go_value) \<Rightarrow> s7_error + 'n s7_client" where
  "NewClientFromConfig_s7 G net m =
     (case first_string m [''ip'', ''ip_address'', ''host''] of
        None \<Rightarrow> Inl MissingIP
      | Some ip \<Rightarrow>
          Inr (NewClient_s7 net \<lparr>sc_IP = ip, sc_Rack = int_or G 0 (m ''rack''), sc_Slot = int_or G 1 (m ''slot''),
                 sc_Port = int_or G 102 (m ''port''), sc_ConnectRetry = 3, sc_RetryInterval = 5 * Second, sc_Timeout = 10 * Second\<rparr>))"

section \<open>Reading from the connection\<close>

definition conn_read :: "'n net \<Rightarrow> nat \<Rightarrow> 'n \<Rightarrow> 'n \<times> (io_error + bytes)" where
  "conn_read N k n = (case net_read N k n of (n, Inl e) \<Rightarrow> (n, Inl e) | (n, Inr b) \<Rightarrow> (n, Inr (take k b)))"

text \<open>
  \<open>io.ReadFull\<close> of \<open>k\<close> more bytes.  It repeats a read that gives neither bytes nor an error, which a TCP connection
  never does; here such a read uses up fuel, so \<open>k\<close> is enough for all others.
\<close>

fun read_full :: "'n net \<Rightarrow> nat \<Rightarrow> nat \<Rightarrow> bytes \<Rightarrow> 'n \<Rightarrow> 'n \<times> (io_error + bytes)" where
  "read_full N fuel 0 got n = (n, Inr got)"
| "read_full N 0 (Suc k) got n = (n, Inl NoProgress)"
| "read_full N (Suc fuel) (Suc k) got n =
     (case conn_read N (Suc k) n of
        (n, Inl e) \<Rightarrow> (n, Inl (if e = EOF \<and> got \<noteq> [] then UnexpectedEOF else e))
      | (n, Inr b) \<Rightarrow> read_full N fuel (Suc k - length b) (got @ b) n)"

definition tpktVersion :: byte where "tpktVersion = 3"

definition readTPKTFrame :: "'n net \<Rightarrow> 'n \<Rightarrow> 'n \<times> (s7_error + bytes)" where
  "readTPKTFrame N n =
     (case read_full N 4 4 [] n of
        (n, Inl e) \<Rightarrow> (n, Inl (Io e))
      | (n, Inr header) \<Rightarrow>
          (if header ! 0 \<noteq> tpktVersion then (n, Inl Protocol)
           else let len = unat (be16 (header ! 2) (header ! 3))
                in if len < 7 \<or> len > 8192 then (n, Inl Protocol)
                   else (case read_full N (len - 4) (len - 4) [] n of
                           (n, Inl e) \<Rightarrow> (n, Inl (Io e))
                         | (n, Inr rest) \<Rightarrow> (n, Inr (header @ rest)))))"

section \<open>Connecting\<close>

definition cotp_request :: "s7_config \<Rightarrow> bytes" where
  "cotp_request cfg =
     [tpktVersion, 0, 0x00, 0x16, 0x11, 0xE0, 0x00, 0x00, 0x00, 0x01, 0x00, 0xC0, 0x01, 0x0A, 0xC1, 0x02, 0x01, 0x00,
      0xC2, 0x02, 0x01, of_int (sc_Rack cfg * 0x20 + sc_Slot cfg)]"

definition cotpConnect :: "'n net \<Rightarrow> 'n s7_client \<Rightarrow> 'n s7_client \<times> s7_error option" where
  "cotpConnect N c =
     (case net_write N (cotp_request (s7_config c)) (s7_conn c) of
        (n, Some e) \<Rightarrow> (c\<lparr>s7_conn := n\<rparr>, Some (Io e))
      | (n, None) \<Rightarrow>
          (case conn_read N 256 n of
             (n, Inl e) \<Rightarrow> (c\<lparr>s7_conn := n\<rparr>, Some (Io e))
           | (n, Inr r) \<Rightarrow>
               (c\<lparr>s7_conn := n\<rparr>,
                if length r < 6 then Some ResponseTooShort
                else if r ! 5 \<noteq> 0xD0 then Some (UnexpectedResponse (r ! 5)) else None)))"

definition setup_request :: bytes where
  "setup_request =
     [tpktVersion, 0, 0x00, 0x19, 0x02, 0xF0, 0x80, 0x32, 0x01, 0x00, 0x00, 0x00, 0x00, 0x00, 0x08, 0x00, 0x00,
      0xF0, 0x00, 0x00, 0x01, 0x00, 0x01, 0x01, 0xE0]"

definition s7SetupCommunication :: "'n net \<Rightarrow> 'n s7_client \<Rightarrow> 'n s7_client \<times> s7_error option" where
  "s7SetupCommunication N c =
     (case net_write N setup_request (s7_conn c) of
        (n, Some e) \<Rightarrow> (c\<lparr>s7_conn := n\<rparr>, Some (Io e))
      | (n, None) \<Rightarrow>
          (case conn_read N 512 n of
             (n, Inl e) \<Rightarrow> (c\<lparr>s7_conn := n\<rparr>, Some (Io e))
           | (n, Inr r) \<Rightarrow>
               (if length r < 19 then (c\<lparr>s7_conn := n\<rparr>, Some ResponseTooShort)
                else let pdu = int (unat (be16 (r ! (length r - 2)) (r ! (length r - 1))))
                     in (c\<lparr>s7_conn := n, s7_pduLength := (if pdu < 200 then 200 else pdu)\<rparr>, None))))"

definition close_conn :: "'n net \<Rightarrow> 'n s7_client \<Rightarrow> 'n s7_client" where
  "close_conn N c = c\<lparr>s7_conn := net_close N (s7_conn c)\<rparr>"

definition Connect_s7 :: "'n net \<Rightarrow> 'n s7_client \<Rightarrow> 'n s7_client \<times> s7_error option" where
  "Connect_s7 N c =
     (if s7_connected c then (c, None)
      else (case net_dial N (sc_IP (s7_config c)) (sc_Port (s7_config c)) (s7_conn c) of
              (n, False) \<Rightarrow> (c\<lparr>s7_conn := n\<rparr>, Some DialFailed)
            | (n, True) \<Rightarrow>
                (case cotpConnect N (c\<lparr>s7_conn := n\<rparr>) of
                   (c, Some e) \<Rightarrow> (close_conn N c, Some e)
                 | (c, None) \<Rightarrow>
                     (case s7SetupCommunication N c of
                        (c, Some e) \<Rightarrow> (close_conn N c, Some e)
                      | (c, None) \<Rightarrow> (c\<lparr>s7_connected := True\<rparr>, None)))))"

fun connect_attempts :: "'n net \<Rightarrow> nat \<Rightarrow> s7_error option \<Rightarrow> 'n s7_client \<Rightarrow> 'n s7_client \<times> s7_error option" where
  "connect_attempts N 0 lastErr c = (c, Some (ConnectFailed lastErr))"
| "connect_attempts N (Suc k) lastErr c =
     (case Connect_s7 N c of
        (c, None) \<Rightarrow> (c, None)
      | (c, Some e) \<Rightarrow> connect_attempts N k (Some e) c)"

definition ConnectWithRetry_s7 :: "'n net \<Rightarrow> 'n s7_client \<Rightarrow> 'n s7_client \<times> s7_error option" where
  "ConnectWithRetry_s7 N c = connect_attempts N (nat (sc_ConnectRetry (s7_config c))) None c"

definition Disconnect_s7 :: "'n net \<Rightarrow> 'n s7_client \<Rightarrow> 'n s7_client" where
  "Disconnect_s7 N c = (if \<not> s7_connected c then c else (close_conn N c)\<lparr>s7_connected := False\<rparr>)"

definition IsConnected_s7 :: "'n s7_client \<Rightarrow> bool" where
  "IsConnected_s7 c = s7_connected c"

text \<open>What ends a connection: errors of the network, and responses that cannot be understood.\<close>

definition isConnectionError :: "s7_error \<Rightarrow> bool" where
  "isConnectionError e \<longleftrightarrow> e = Io OpError"

definition handleConnectionError :: "'n net \<Rightarrow> s7_error \<Rightarrow> 'n s7_client \<Rightarrow> 'n s7_client" where
  "handleConnectionError N e c =
     (if e = Io EOF \<or> e = Io UnexpectedEOF \<or> e = Protocol \<or> isConnectionError e
      then close_conn N (c\<lparr>s7_connected := False\<rparr>) else c)"

section \<open>Addresses\<close>

definition areaDB :: int where "areaDB = 0x84"
definition areaMK :: int where "areaMK = 0x83"
definition areaPE :: int where "areaPE = 0x81"
definition areaPA :: int where "areaPA = 0x82"

text \<open>
  \<open>fmt.Sscanf\<close> of the verb \<open>d\<close>: white space other than a line break is skipped, then an optional sign and the longest
  run of digits are read.  The result is the number and the rest of the text.
\<close>

definition scan_spaces :: "string list" where
  "scan_spaces = filter (\<lambda>s. s \<noteq> byte_string [10]) space_seqs"

definition scan_int :: "string \<Rightarrow> (int \<times> string) option" where
  "scan_int s =
     (let s = trim_left_fuel (length s) scan_spaces s;
          sg = (if s \<noteq> [] \<and> (hd s = CHR ''-'' \<or> hd s = CHR ''+'') then [hd s] else []);
          digits = takeWhile is_digit (drop (length sg) s)
      in if digits = [] then None
         else map_option (\<lambda>i. (i, drop (length sg + length digits) s)) (Atoi (sg @ digits)))"

definition scan_literal :: "string \<Rightarrow> string \<Rightarrow> string option" where
  "scan_literal lit s = strip_prefix lit s"

definition scan_DB :: "string \<Rightarrow> int option" where
  "scan_DB s = Option.bind (scan_literal ''DB'' s) (\<lambda>s. Option.bind (scan_int s) (\<lambda>(n, s).
     Option.bind (scan_literal ''.DB'' s) (\<lambda>_. Some n)))"

definition scan_bit :: "string \<Rightarrow> (int \<times> int) option" where
  "scan_bit s = Option.bind (scan_int s) (\<lambda>(a, s). Option.bind (scan_literal ''.'' s) (\<lambda>s. Option.bind (scan_int s) (\<lambda>(b, _). Some (a, b))))"

text \<open>The results are the start, the bit and the size.\<close>

definition scan_offset :: "nat \<Rightarrow> string \<Rightarrow> s7_error + int \<times> int \<times> nat" where
  "scan_offset sz s = (case scan_int s of None \<Rightarrow> Inl BadAddress | Some (i, _) \<Rightarrow> Inr (i, 0, sz))"

definition parseDirectAddress :: "string \<Rightarrow> s7_error + int \<times> int \<times> nat" where
  "parseDirectAddress addr =
     (case addr of
        [] \<Rightarrow> Inl BadAddress
      | ch # rest \<Rightarrow>
          (if ch = CHR ''W'' then scan_offset 2 rest
           else if ch = CHR ''D'' then scan_offset 4 rest
           else if ch = CHR ''B'' then scan_offset 1 rest
           else (case scan_bit addr of
                   Some (byteOff, bitOff) \<Rightarrow> Inr (byteOff, bitOff, 1)
                 | None \<Rightarrow> scan_offset 1 addr)))"

definition db_offset :: "string \<Rightarrow> s7_error + int \<times> int \<times> nat" where
  "db_offset address =
     (let dot = length (takeWhile (\<lambda>c. c \<noteq> CHR ''.'') address)
      in if dot = length address \<or> dot + 4 > length address then Inl BadAddress
         else let typeChar = address ! (dot + 3); offsetStr = drop (dot + 4) address
              in if typeChar = CHR ''X'' then (case scan_bit offsetStr of None \<Rightarrow> Inl BadAddress | Some (a, b) \<Rightarrow> Inr (a, b, 1))
                 else if typeChar = CHR ''B'' then scan_offset 1 offsetStr
                 else if typeChar = CHR ''W'' then scan_offset 2 offsetStr
                 else if typeChar = CHR ''D'' then scan_offset 4 offsetStr
                 else Inl BadAddress)"

record s7_address =
  sa_area :: int
  sa_db :: int
  sa_start :: int
  sa_bit :: int
  sa_size :: nat

definition in_area :: "int \<Rightarrow> int \<Rightarrow> s7_error + int \<times> int \<times> nat \<Rightarrow> s7_error + s7_address" where
  "in_area area db r = (case r of
     Inl e \<Rightarrow> Inl e
   | Inr (s, b, n) \<Rightarrow> Inr \<lparr>sa_area = area, sa_db = db, sa_start = s, sa_bit = b, sa_size = n\<rparr>)"

definition s7_types :: "string list" where
  "s7_types = [''BOOL'', ''INT'', ''DINT'', ''REAL'']"

definition parseAddress_s7 :: "string \<Rightarrow> string \<Rightarrow> s7_error + s7_address" where
  "parseAddress_s7 address dataType =
     (if dataType \<notin> set s7_types then Inl UnsupportedType
      else case scan_DB address of
        Some n \<Rightarrow> in_area areaDB n (db_offset address)
      | None \<Rightarrow>
          (if length address < 2 then Inl BadAddress
           else if hd address = CHR ''M'' then in_area areaMK 0 (parseDirectAddress (tl address))
           else if hd address = CHR ''I'' then in_area areaPE 0 (parseDirectAddress (tl address))
           else if hd address = CHR ''Q'' then in_area areaPA 0 (parseDirectAddress (tl address))
           else Inl BadAddress))"

section \<open>Requests\<close>

definition transportSize :: "string \<Rightarrow> byte" where
  "transportSize dataType =
     (if dataType = ''BOOL'' then 0x01 else if dataType = ''INT'' then 0x04 else if dataType = ''DINT'' then 0x06
      else if dataType = ''REAL'' then 0x08 else 0x02)"

definition bit_address :: "string \<Rightarrow> s7_address \<Rightarrow> int" where
  "bit_address dataType a =
     (if dataType = ''BOOL'' then wrap64 (wrap64 (sa_start a * 8) + sa_bit a) else wrap64 (sa_start a * 8))"

text \<open>The item specification: number of items, data block, area and the bit address in three bytes.\<close>

definition item_spec :: "string \<Rightarrow> s7_address \<Rightarrow> nat \<Rightarrow> bytes" where
  "item_spec dataType a items =
     [0x12, 0x0A, 0x10, transportSize dataType] @ put16 (of_nat items) @ put16 (of_int (sa_db a)) @
     [of_int (sa_area a), of_int (bit_address dataType a div 65536), of_int (bit_address dataType a div 256), of_int (bit_address dataType a)]"

definition job_header :: "nat \<Rightarrow> 16 word \<Rightarrow> nat \<Rightarrow> bytes" where
  "job_header tpktLength seq dataLength =
     [tpktVersion, 0] @ put16 (of_nat tpktLength) @ [0x02, 0xF0, 0x80, 0x32, 0x01, 0x00, 0x00] @ put16 seq @ put16 14 @ put16 (of_nat dataLength)"

definition read_request :: "16 word \<Rightarrow> string \<Rightarrow> s7_address \<Rightarrow> bytes" where
  "read_request seq dataType a = job_header 31 seq 0 @ [0x04, 0x01] @ item_spec dataType a (sa_size a)"

definition write_request :: "16 word \<Rightarrow> string \<Rightarrow> s7_address \<Rightarrow> bytes \<Rightarrow> bytes" where
  "write_request seq dataType a data =
     (let dataLength = 4 + length data; tpktLength = 4 + 3 + 12 + 14 + dataLength;
          bitsLen = (if dataType = ''BOOL'' then 1 else length data * 8);
          fields = job_header tpktLength seq dataLength @ [0x05, 0x01] @ item_spec dataType a 1 @
            [0xFF, if dataType = ''BOOL'' then 0x03 else 0x04] @ put16 (of_nat bitsLen) @ data
      in take tpktLength (fields @ replicate tpktLength 0))"

section \<open>Responses\<close>

definition byte_at :: "bytes \<Rightarrow> nat \<Rightarrow> byte option" where
  "byte_at b i = (if i < length b then Some (b ! i) else None)"

definition uint16_at :: "bytes \<Rightarrow> nat \<Rightarrow> (16 word) option" where
  "uint16_at b i = Option.bind (byte_at b i) (\<lambda>hi. Option.bind (byte_at b (i + 1)) (\<lambda>lo. Some (be16 hi lo)))"

definition slice :: "bytes \<Rightarrow> nat \<Rightarrow> nat \<Rightarrow> bytes option" where
  "slice b i j = (if i \<le> j \<and> j \<le> length b then Some (take (j - i) (drop i b)) else None)"

text \<open>The checks a read and a write share; \<open>k\<close> goes on with the position after the parameters.\<close>

definition check_ack :: "bytes \<Rightarrow> nat \<Rightarrow> (nat \<Rightarrow> (s7_error + 'a) option) \<Rightarrow> (s7_error + 'a) option" where
  "check_ack r least k =
     (if length r < least then Some (Inl Protocol)
      else Option.bind (byte_at r 8) (\<lambda>pduType. if pduType \<noteq> 0x03 then Some (Inl Protocol)
      else Option.bind (byte_at r 17) (\<lambda>errorClass. Option.bind (byte_at r 18) (\<lambda>errorCode.
        if errorClass \<noteq> 0 \<or> errorCode \<noteq> 0 then Some (Inl (PlcError errorClass errorCode))
        else Option.bind (uint16_at r 13) (\<lambda>paramLen. k (19 + unat paramLen))))))"

definition read_response :: "bytes \<Rightarrow> (s7_error + bytes) option" where
  "read_response r = check_ack r 21 (\<lambda>dataStart.
     if dataStart + 4 > length r then Some (Inl Protocol)
     else Option.bind (byte_at r dataStart) (\<lambda>returnCode. if returnCode \<noteq> 0xFF then Some (Inl (ItemError returnCode))
     else Option.bind (uint16_at r (dataStart + 2)) (\<lambda>bits.
       let dataLen = unat ((bits + 7) div 8); dataOffset = dataStart + 4
       in if dataOffset + dataLen > length r then Some (Inl Protocol)
          else map_option Inr (slice r dataOffset (dataOffset + dataLen)))))"

definition write_response :: "bytes \<Rightarrow> (s7_error + unit) option" where
  "write_response r = check_ack r 19 (\<lambda>item.
     if item \<ge> length r then Some (Inl Protocol)
     else Option.bind (byte_at r item) (\<lambda>code. Some (if code \<noteq> 0xFF then Inl (ItemError code) else Inr ())))"

text \<open>One request and its response.\<close>

definition exchange :: "'n net \<Rightarrow> bytes \<Rightarrow> (bytes \<Rightarrow> (s7_error + 'a) option) \<Rightarrow> 'n s7_client \<Rightarrow> ('n s7_client \<times> (s7_error + 'a)) option" where
  "exchange N req answer c =
     (case net_write N req (s7_conn c) of
        (n, Some e) \<Rightarrow> Some (c\<lparr>s7_conn := n\<rparr>, Inl (Io e))
      | (n, None) \<Rightarrow>
          (case readTPKTFrame N n of
             (n, Inl e) \<Rightarrow> Some (c\<lparr>s7_conn := n\<rparr>, Inl e)
           | (n, Inr r) \<Rightarrow> map_option (\<lambda>v. (c\<lparr>s7_conn := n\<rparr>, v)) (answer r)))"

definition readArea :: "'n net \<Rightarrow> string \<Rightarrow> s7_address \<Rightarrow> 'n s7_client \<Rightarrow> ('n s7_client \<times> (s7_error + bytes)) option" where
  "readArea N dataType a c =
     (let c = c\<lparr>s7_sequenceNum := s7_sequenceNum c + 1\<rparr>
      in exchange N (read_request (s7_sequenceNum c) dataType a) read_response c)"

definition writeArea :: "'n net \<Rightarrow> string \<Rightarrow> s7_address \<Rightarrow> bytes \<Rightarrow> 'n s7_client \<Rightarrow> ('n s7_client \<times> (s7_error + unit)) option" where
  "writeArea N dataType a data c =
     (let c = c\<lparr>s7_sequenceNum := s7_sequenceNum c + 1\<rparr>
      in exchange N (write_request (s7_sequenceNum c) dataType a data) write_response c)"

section \<open>Values\<close>

definition convertBufferToValue :: "bytes \<Rightarrow> string \<Rightarrow> s7_error + go_value" where
  "convertBufferToValue buffer dataType =
     (if dataType = ''BOOL'' then if length buffer < 1 then Inl BufferTooSmall else Inr (VBool (odd (unat (buffer ! 0))))
      else if dataType = ''INT'' then if length buffer < 2 then Inl BufferTooSmall else Inr (VInt16 (be16 (buffer ! 0) (buffer ! 1)))
      else if dataType = ''DINT'' then if length buffer < 4 then Inl BufferTooSmall else Inr (VInt32 (be32 buffer))
      else if dataType = ''REAL'' then if length buffer < 4 then Inl BufferTooSmall else Inr (VFloat32 (be32 buffer))
      else Inl UnsupportedType)"

text \<open>Writing into the front of a buffer of the given size: a panic when it is too short.\<close>

definition fill :: "nat \<Rightarrow> bytes \<Rightarrow> (s7_error + bytes) option" where
  "fill sz b = (if length b \<le> sz then Some (Inr (b @ replicate (sz - length b) 0)) else None)"

definition int_value :: "go_impl \<Rightarrow> int \<Rightarrow> int \<Rightarrow> go_value \<Rightarrow> int option" where
  "int_value G lo hi v = (case v of VFloat64 f \<Rightarrow> Some (conv_num G lo hi f) | VInt w \<Rightarrow> Some (sint w) | _ \<Rightarrow> None)"

definition convertValueToBuffer :: "go_impl \<Rightarrow> go_value \<Rightarrow> string \<Rightarrow> nat \<Rightarrow> (s7_error + bytes) option" where
  "convertValueToBuffer G v dataType sz =
     (if dataType = ''BOOL'' then
        (case v of
           VBool b \<Rightarrow> fill sz [if b then 1 else 0]
         | VFloat64 f \<Rightarrow> fill sz [if \<not> f64_eq f 0 then 1 else 0]
         | VInt w \<Rightarrow> fill sz [if w \<noteq> 0 then 1 else 0]
         | _ \<Rightarrow> Some (Inl WrongValue))
      else if dataType = ''INT'' then
        (case int_value G (- 32768) 32767 v of Some i \<Rightarrow> fill sz (put16 (of_int i)) | None \<Rightarrow> Some (Inl WrongValue))
      else if dataType = ''DINT'' then
        (case int_value G (- 2147483648) 2147483647 v of Some i \<Rightarrow> fill sz (put32 (of_int i)) | None \<Rightarrow> Some (Inl WrongValue))
      else if dataType = ''REAL'' then
        (case v of VFloat64 f \<Rightarrow> fill sz (put32 (f32_of_f64 f)) | VFloat32 f \<Rightarrow> fill sz (put32 f) | _ \<Rightarrow> Some (Inl WrongValue))
      else Some (Inl UnsupportedType))"

section \<open>Tags\<close>

definition bad :: "s7_error \<Rightarrow> tag_value" where
  "bad e = \<lparr>tv_Value = None, tv_Quality = 1, tv_Error = Some e\<rparr>"

definition ReadTag_s7 :: "'n net \<Rightarrow> string \<Rightarrow> string \<Rightarrow> 'n s7_client \<Rightarrow> ('n s7_client \<times> tag_value) option" where
  "ReadTag_s7 N address dataType c =
     (if \<not> s7_connected c then Some (c, bad NotConnected)
      else case parseAddress_s7 address dataType of
        Inl e \<Rightarrow> Some (c, bad e)
      | Inr a \<Rightarrow>
          map_option (\<lambda>(c, r). case r of
              Inl e \<Rightarrow> (handleConnectionError N e c, bad e)
            | Inr buffer \<Rightarrow>
                (case convertBufferToValue buffer dataType of
                   Inl e \<Rightarrow> (c, bad e)
                 | Inr v \<Rightarrow> (c, \<lparr>tv_Value = Some v, tv_Quality = 0, tv_Error = None\<rparr>)))
            (readArea N dataType a c))"

fun read_all :: "'n net \<Rightarrow> (string \<times> string) list \<Rightarrow> 'n s7_client \<Rightarrow> ('n s7_client \<times> tag_value list) option" where
  "read_all N [] c = Some (c, [])"
| "read_all N ((address, dataType) # ts) c =
     Option.bind (ReadTag_s7 N address dataType c) (\<lambda>(c, v). map_option (\<lambda>(c, vs). (c, v # vs)) (read_all N ts c))"

definition ReadMultipleTags_s7 :: "'n net \<Rightarrow> string list \<Rightarrow> string list \<Rightarrow> 'n s7_client \<Rightarrow> ('n s7_client \<times> tag_value list) option" where
  "ReadMultipleTags_s7 N addresses dataTypes c =
     (if length addresses \<noteq> length dataTypes then Some (c, replicate (length addresses) (bad CountMismatch))
      else read_all N (zip addresses dataTypes) c)"

definition WriteTag_s7 :: "'n net \<Rightarrow> go_impl \<Rightarrow> string \<Rightarrow> string \<Rightarrow> go_value \<Rightarrow> 'n s7_client \<Rightarrow> ('n s7_client \<times> s7_error option) option" where
  "WriteTag_s7 N G address dataType v c =
     (if \<not> s7_connected c then Some (c, Some NotConnected)
      else case parseAddress_s7 address dataType of
        Inl e \<Rightarrow> Some (c, Some e)
      | Inr a \<Rightarrow>
          Option.bind (convertValueToBuffer G v dataType (sa_size a)) (\<lambda>b. case b of
            Inl e \<Rightarrow> Some (c, Some e)
          | Inr data \<Rightarrow>
              map_option (\<lambda>(c, r). case r of
                  Inl e \<Rightarrow> (handleConnectionError N e c, Some e)
                | Inr _ \<Rightarrow> (c, None))
                (writeArea N dataType a data c)))"

end
