(* ===== verification/S7_Properties.thy ===== *)
theory S7_Properties
  imports S7
begin

text \<open>
  Properties of the S7 client: responses of any content are handled, what is written is what is read, addresses are
  understood as printed, and where the checks of the code are missing.
\<close>

section \<open>Responses\<close>

lemma check_ack_safe:
  assumes "\<And>p. k p \<noteq> None" "19 \<le> least"
  shows "check_ack r least k \<noteq> None"
  using assms by (auto simp: check_ack_def byte_at_def uint16_at_def split: if_splits)

lemma read_response_safe: "read_response r \<noteq> None"
  unfolding read_response_def by (intro check_ack_safe) (auto simp: byte_at_def uint16_at_def slice_def Let_def)

lemma write_response_safe: "write_response r \<noteq> None"
  unfolding write_response_def by (intro check_ack_safe) (auto simp: byte_at_def)

lemma exchange_safe: "(\<And>r. answer r \<noteq> None) \<Longrightarrow> exchange N req answer c \<noteq> None"
  by (auto simp: exchange_def split: prod.split option.split sum.split)

lemma readArea_safe: "readArea N t a c \<noteq> None"
  unfolding readArea_def Let_def by (intro exchange_safe read_response_safe)

lemma writeArea_safe: "writeArea N t a data c \<noteq> None"
  unfolding writeArea_def Let_def by (intro exchange_safe write_response_safe)

lemma ReadTag_safe: "ReadTag_s7 N address dataType c \<noteq> None"
  by (simp add: ReadTag_s7_def readArea_safe del: not_None_eq split: sum.split)


section \<open>Values\<close>

definition width :: "string \<Rightarrow> nat" where
  "width t = (if t = ''BOOL'' then 1 else if t = ''INT'' then 2 else 4)"

lemma fill_None: "fill sz b = None \<longleftrightarrow> sz < length b"
  by (auto simp: fill_def)

lemma parse_type: "parseAddress_s7 address t = Inr a \<Longrightarrow> t \<in> set s7_types"
  by (simp add: parseAddress_s7_def split: if_splits)

text \<open>
C37: writing a number panics exactly when the address names fewer bytes than the type of the tag needs: the size comes
from the letter of the address, the width of the value from the type, and nothing compares them.
\<close>

theorem write_panics_iff:
  assumes "s7_connected c" "parseAddress_s7 address t = Inr a"
  shows "WriteTag_s7 N G address t (VFloat64 x) c = None \<longleftrightarrow> sa_size a < width t"
proof -
  have "convertValueToBuffer G (VFloat64 x) t (sa_size a) = None \<longleftrightarrow> sa_size a < width t"
    using parse_type[OF assms(2)] by (auto simp: convertValueToBuffer_def s7_types_def fill_None width_def int_value_def)
  moreover have "WriteTag_s7 N G address t (VFloat64 x) c = None \<longleftrightarrow> convertValueToBuffer G (VFloat64 x) t (sa_size a) = None"
    using assms
    by (cases "convertValueToBuffer G (VFloat64 x) t (sa_size a)") (simp_all add: WriteTag_s7_def writeArea_safe del: not_None_eq split: sum.split)
  ultimately show ?thesis by simp
qed

text \<open>The value that is stored for a value to write.\<close>

definition stored :: "go_impl \<Rightarrow> go_value \<Rightarrow> string \<Rightarrow> go_value" where
  "stored G v t =
     (if t = ''BOOL'' then VBool (case v of VBool b \<Rightarrow> b | VFloat64 f \<Rightarrow> \<not> f64_eq f 0 | VInt w \<Rightarrow> w \<noteq> 0 | _ \<Rightarrow> False)
      else if t = ''INT'' then VInt16 (case int_value G (- 32768) 32767 v of Some i \<Rightarrow> of_int i | None \<Rightarrow> 0)
      else if t = ''DINT'' then VInt32 (case int_value G (- 2147483648) 2147483647 v of Some i \<Rightarrow> of_int i | None \<Rightarrow> 0)
      else VFloat32 (case v of VFloat64 f \<Rightarrow> f32_of_f64 f | VFloat32 f \<Rightarrow> f | _ \<Rightarrow> 0))"

lemma fill_Inr: "fill sz b = Some (Inr buf) \<Longrightarrow> \<exists>rest. buf = b @ rest"
  by (auto simp: fill_def split: if_splits)

lemma read_int16: "convertBufferToValue (put16 w @ rest) ''INT'' = Inr (VInt16 w)"
  by (simp add: convertBufferToValue_def put16_def be16_bytes)

lemma read_int32: "convertBufferToValue (put32 w @ rest) ''DINT'' = Inr (VInt32 w)"
  by (simp add: convertBufferToValue_def be32_put32)

lemma read_real: "convertBufferToValue (put32 w @ rest) ''REAL'' = Inr (VFloat32 w)"
  by (simp add: convertBufferToValue_def be32_put32)

lemma read_bool: "convertBufferToValue ((if b then 1 else 0) # rest) ''BOOL'' = Inr (VBool b)"
  by (simp add: convertBufferToValue_def)

text \<open>
C28: the bytes a value is written as are read back as that value: the truth value, the number as a signed 16- or 32-bit
integer, or the number rounded to single precision; a whole number in range is read back exactly.
\<close>

theorem written_value_reads_back:
  assumes "convertValueToBuffer G v t sz = Some (Inr buf)"
  shows "convertBufferToValue buf t = Inr (stored G v t) \<and>
    (\<forall>f i. v = VFloat64 f \<and> f64_trunc f = Some i \<and> t = ''INT'' \<and> - 32768 \<le> i \<and> i \<le> 32767 \<longrightarrow> int_of_value (stored G v t) = Some i) \<and>
    (\<forall>f i. v = VFloat64 f \<and> f64_trunc f = Some i \<and> t = ''DINT'' \<and> - 2147483648 \<le> i \<and> i \<le> 2147483647 \<longrightarrow>
       int_of_value (stored G v t) = Some i)"
proof (intro conjI)
  consider "t = ''BOOL''" | "t = ''INT''" | "t = ''DINT''" | "t = ''REAL''" using assms by (auto simp: convertValueToBuffer_def split: if_splits)
  then show "convertBufferToValue buf t = Inr (stored G v t)"
  proof cases
    case 1
    then show ?thesis using assms by (cases v) (auto simp: convertValueToBuffer_def stored_def fill_def read_bool[of True, simplified] read_bool[of False, simplified] split: if_splits)
  next
    case 2
    then obtain i where "int_value G (- 32768) 32767 v = Some i" "fill sz (put16 (of_int i)) = Some (Inr buf)"
      using assms by (auto simp: convertValueToBuffer_def split: option.splits)
    then show ?thesis using 2 fill_Inr[of sz] read_int16 by (fastforce simp: stored_def)
  next
    case 3
    then obtain i where "int_value G (- 2147483648) 2147483647 v = Some i" "fill sz (put32 (of_int i)) = Some (Inr buf)"
      using assms by (auto simp: convertValueToBuffer_def split: option.splits)
    then show ?thesis using 3 fill_Inr[of sz] read_int32 by (fastforce simp: stored_def)
  next
    case 4
    then show ?thesis using assms by (cases v) (auto simp: convertValueToBuffer_def stored_def read_real dest!: fill_Inr)
  qed
  have s16: "sint (of_int i :: 16 word) = i" if "- 32768 \<le> i" "i \<le> 32767" for i
    using that by (simp add: signed_of_int signed_take_bit_int_eq_self)
  have s32: "sint (of_int i :: 32 word) = i" if "- 2147483648 \<le> i" "i \<le> 2147483647" for i
    using that by (simp add: signed_of_int signed_take_bit_int_eq_self)
  show "\<forall>f i. v = VFloat64 f \<and> f64_trunc f = Some i \<and> t = ''INT'' \<and> - 32768 \<le> i \<and> i \<le> 32767 \<longrightarrow> int_of_value (stored G v t) = Some i"
    by (auto simp: stored_def int_value_def conv_num_def float_conv_def s16)
  show "\<forall>f i. v = VFloat64 f \<and> f64_trunc f = Some i \<and> t = ''DINT'' \<and> - 2147483648 \<le> i \<and> i \<le> 2147483647 \<longrightarrow> int_of_value (stored G v t) = Some i"
    by (auto simp: stored_def int_value_def conv_num_def float_conv_def s32)
qed


section \<open>Addresses\<close>

definition db_address :: "int \<Rightarrow> char \<Rightarrow> int \<Rightarrow> string" where
  "db_address n k off = ''DB'' @ itoa n @ ''.DB'' @ k # itoa off"

lemma itoa_form:
  obtains d where "d \<noteq> []" "list_all is_digit d" "itoa i = (if i < 0 then CHR ''-'' # d else d)"
proof -
  have "nat_digits (nat \<bar>i\<bar>) \<noteq> []" "list_all is_digit (nat_digits (nat \<bar>i\<bar>))" using nat_digits_props by blast+
  then show thesis using that by (cases "i < 0") (auto simp: itoa_def)
qed

lemma space_heads: "list_all (\<lambda>p. p \<noteq> [] \<and> \<not> is_digit (hd p) \<and> hd p \<noteq> CHR ''-'') scan_spaces"
  by code_simp

lemma no_strip: "list_all (\<lambda>p. p \<noteq> [] \<and> hd p \<noteq> x) ps \<Longrightarrow> first_strip ps (x # s) = None"
proof (induction ps)
  case (Cons p ps)
  then show ?case by (cases p) (auto simp: strip_prefix_def)
qed simp

lemma trim_none: "first_strip ps s = None \<Longrightarrow> trim_left_fuel k ps s = s"
  by (cases k) simp_all

lemma scan_int_itoa:
  assumes "is_int64 i" "rest = [] \<or> \<not> is_digit (hd rest)"
  shows "scan_int (itoa i @ rest) = Some (i, rest)"
proof -
  obtain d where d: "d \<noteq> []" "list_all is_digit d" "itoa i = (if i < 0 then CHR ''-'' # d else d)" by (rule itoa_form)
  let ?s = "itoa i @ rest"
  have hd: "hd ?s = CHR ''-'' \<or> is_digit (hd ?s)" "?s \<noteq> []" using d by (cases d; simp)+
  have "list_all (\<lambda>p. p \<noteq> [] \<and> hd p \<noteq> hd ?s) scan_spaces" using space_heads hd(1) by (auto simp: list_all_iff)
  then have "first_strip scan_spaces (hd ?s # tl ?s) = None" by (rule no_strip)
  then have "first_strip scan_spaces ?s = None" using hd(2) by (metis list.collapse)
  then have trim: "trim_left_fuel (length ?s) scan_spaces ?s = ?s" by (rule trim_none)
  have nd: "\<not> is_digit CHR ''-''" "\<not> is_digit CHR ''+''" by code_simp+
  have tk: "takeWhile is_digit (d @ rest) = d" using d(2) assms(2) by (cases rest) (auto simp: list_all_iff)
  have sign: "(if ?s \<noteq> [] \<and> (hd ?s = CHR ''-'' \<or> hd ?s = CHR ''+'') then [hd ?s] else []) = (if i < 0 then ''-'' else [])"
    using d nd by (cases d) auto
  have "Atoi (itoa i) = Some i" using assms(1) Atoi_itoa by (simp add: is_int64_def)
  then show ?thesis unfolding scan_int_def Let_def trim sign using d tk by (cases "i < 0") simp_all
qed

lemma digits_no_dot: "list_all is_digit d \<Longrightarrow> list_all (\<lambda>c. c \<noteq> CHR ''.'') d"
  by (auto simp: list_all_iff is_digit_def)

lemma itoa_no_dot: "list_all (\<lambda>c. c \<noteq> CHR ''.'') (itoa i)"
proof -
  obtain d where "list_all is_digit d" "itoa i = (if i < 0 then CHR ''-'' # d else d)" by (rule itoa_form)
  then show ?thesis using digits_no_dot[of d] by simp
qed

lemma takeWhile_no_dot: "list_all (\<lambda>c. c \<noteq> CHR ''.'') xs \<Longrightarrow> takeWhile (\<lambda>c. c \<noteq> CHR ''.'') (xs @ CHR ''.'' # ys) = xs"
  by (induction xs) auto

lemma scan_DB_address:
  assumes "is_int64 n"
  shows "scan_DB (''DB'' @ itoa n @ ''.DB'' @ rest) = Some n"
proof -
  have "scan_int (itoa n @ ''.DB'' @ rest) = Some (n, ''.DB'' @ rest)" using scan_int_itoa[OF assms, of "''.DB'' @ rest"] by (simp add: is_digit_def)
  then show ?thesis by (simp add: scan_DB_def scan_literal_def strip_prefix_def)
qed

lemma db_offset_address:
  "db_offset (''DB'' @ itoa n @ ''.DB'' @ k # rest) =
     (if k = CHR ''X'' then (case scan_bit rest of None \<Rightarrow> Inl BadAddress | Some (a, b) \<Rightarrow> Inr (a, b, 1))
      else if k = CHR ''B'' then scan_offset 1 rest else if k = CHR ''W'' then scan_offset 2 rest
      else if k = CHR ''D'' then scan_offset 4 rest else Inl BadAddress)"
proof -
  have tw: "takeWhile (\<lambda>c. c \<noteq> CHR ''.'') ((''DB'' @ itoa n) @ CHR ''.'' # ''DB'' @ k # rest) = ''DB'' @ itoa n"
    by (intro takeWhile_no_dot) (simp add: itoa_no_dot)
  have e: "''DB'' @ itoa n @ ''.DB'' @ k # rest = (''DB'' @ itoa n) @ CHR ''.'' # ''DB'' @ k # rest" by simp
  have nth: "((''DB'' @ itoa n) @ CHR ''.'' # ''DB'' @ k # rest) ! (length (''DB'' @ itoa n) + 3) = k"
    unfolding nth_append_length_plus by simp
  have drp: "drop (length (''DB'' @ itoa n) + 4) ((''DB'' @ itoa n) @ CHR ''.'' # ''DB'' @ k # rest) = rest"
    by (simp add: eval_nat_numeral)
  have "\<not> (length (''DB'' @ itoa n) = length ((''DB'' @ itoa n) @ CHR ''.'' # ''DB'' @ k # rest) \<or>
      length (''DB'' @ itoa n) + 4 > length ((''DB'' @ itoa n) @ CHR ''.'' # ''DB'' @ k # rest))"
    by simp
  note ok = if_not_P[OF this]
  show ?thesis unfolding db_offset_def e tw Let_def nth drp ok by (rule refl)
qed

text \<open>
An address printed from its parts is parsed to these parts: data block, offset and, for a bit, its number, with the
size its letter stands for.
\<close>

theorem parse_printed_address:
  assumes "t \<in> set s7_types" "is_int64 n" "is_int64 off" "is_int64 b"
  shows "parseAddress_s7 (db_address n CHR ''B'' off) t = Inr \<lparr>sa_area = areaDB, sa_db = n, sa_start = off, sa_bit = 0, sa_size = 1\<rparr> \<and>
    parseAddress_s7 (db_address n CHR ''W'' off) t = Inr \<lparr>sa_area = areaDB, sa_db = n, sa_start = off, sa_bit = 0, sa_size = 2\<rparr> \<and>
    parseAddress_s7 (db_address n CHR ''D'' off) t = Inr \<lparr>sa_area = areaDB, sa_db = n, sa_start = off, sa_bit = 0, sa_size = 4\<rparr> \<and>
    parseAddress_s7 (db_address n CHR ''X'' off @ CHR ''.'' # itoa b) t =
      Inr \<lparr>sa_area = areaDB, sa_db = n, sa_start = off, sa_bit = b, sa_size = 1\<rparr>"
proof -
  have off: "scan_offset sz (itoa off) = Inr (off, 0, sz)" for sz using scan_int_itoa[OF assms(3), of "[]"] by (simp add: scan_offset_def)
  have bit: "scan_bit (itoa off @ CHR ''.'' # itoa b) = Some (off, b)"
    using scan_int_itoa[OF assms(3), of "CHR ''.'' # itoa b"] scan_int_itoa[OF assms(4), of "[]"]
    by (simp add: scan_bit_def scan_literal_def strip_prefix_def is_digit_def)
  have "parseAddress_s7 (''DB'' @ itoa n @ ''.DB'' @ k # rest) t = in_area areaDB n (db_offset (''DB'' @ itoa n @ ''.DB'' @ k # rest))" for k rest
    using assms(1) scan_DB_address[OF assms(2), of "k # rest"] by (simp add: parseAddress_s7_def)
  note p = this[unfolded db_offset_address]
  have x: "db_address n CHR ''X'' off @ CHR ''.'' # itoa b = ''DB'' @ itoa n @ ''.DB'' @ CHR ''X'' # (itoa off @ CHR ''.'' # itoa b)"
    by (simp add: db_address_def)
  show ?thesis unfolding x unfolding db_address_def p off bit by (simp add: in_area_def)
qed

section \<open>What a request names\<close>

lemma put16_inj: "put16 a = put16 b \<longleftrightarrow> a = b"
proof
  assume "put16 a = put16 b"
  then have "be16 (of_nat (unat a div 256)) (of_nat (unat a mod 256)) = be16 (of_nat (unat b div 256)) (of_nat (unat b mod 256))"
    by (simp add: put16_def)
  then show "a = b" by (simp only: be16_bytes)
qed simp

lemma of_int_byte: "(of_int x :: byte) = of_int y \<longleftrightarrow> x mod 256 = y mod 256"
  by (simp add: word_of_int_eq_iff take_bit_eq_mod)

lemma of_int_16: "(of_int x :: 16 word) = of_int y \<longleftrightarrow> x mod 65536 = y mod 65536"
  by (simp add: word_of_int_eq_iff take_bit_eq_mod)

lemma base256:
  fixes p q r s :: int
  assumes "0 \<le> r" "r < 256" "0 \<le> s" "s < 256" "p * 256 + r = q * 256 + s"
  shows "p = q \<and> r = s"
proof -
  have "(p * 256 + r) mod 256 = r" "(q * 256 + s) mod 256 = s" using assms(1-4) by (simp_all add: mod_pos_pos_trivial)
  then have "r = s" using assms(5) by metis
  then show ?thesis using assms(5) by simp
qed

text \<open>An item says where it is exactly by its area, its data block modulo \<open>2 ^ 16\<close> and its bit modulo \<open>2 ^ 24\<close>.\<close>

lemma item_spec_eq:
  "item_spec t a n = item_spec t b n \<longleftrightarrow>
     sa_area a mod 256 = sa_area b mod 256 \<and> sa_db a mod 65536 = sa_db b mod 65536 \<and> bit_address t a mod 2 ^ 24 = bit_address t b mod 2 ^ 24"
proof -
  have split: "x mod 2 ^ 24 = (x div 65536 mod 256) * 65536 + (x div 256 mod 256) * 256 + x mod 256" for x :: int
  proof -
    define q where "q = x div 256"
    have "x mod 16777216 = 256 * (q mod 65536) + x mod 256" unfolding q_def using zmod_zmult2_eq[of 65536 x 256] by simp
    moreover have "q mod 65536 = 256 * (q div 256 mod 256) + q mod 256" using zmod_zmult2_eq[of 256 q 256] by simp
    moreover have "x div 65536 = q div 256" unfolding q_def using zdiv_zmult2_eq[of 256 x 256] by simp
    ultimately show ?thesis unfolding q_def[symmetric] by simp
  qed
  have "x mod 2 ^ 24 = y mod 2 ^ 24 \<longleftrightarrow> x div 65536 mod 256 = y div 65536 mod 256 \<and> x div 256 mod 256 = y div 256 mod 256 \<and> x mod 256 = y mod 256"
    for x y :: int
  proof
    assume "x mod 2 ^ 24 = y mod 2 ^ 24"
    then have e: "(x div 65536 mod 256 * 256 + x div 256 mod 256) * 256 + x mod 256 = (y div 65536 mod 256 * 256 + y div 256 mod 256) * 256 + y mod 256"
      unfolding split by (simp add: algebra_simps)
    have b: "0 \<le> z mod 256" "z mod 256 < 256" for z :: int by simp_all
    note d = base256[OF b b e]
    show "x div 65536 mod 256 = y div 65536 mod 256 \<and> x div 256 mod 256 = y div 256 mod 256 \<and> x mod 256 = y mod 256"
      using d base256[OF b b conjunct1[OF d]] by blast
  qed (simp only: split)
  then show ?thesis by (auto simp: item_spec_def put16_inj of_int_byte of_int_16)
qed

text \<open>
Within the range of the protocol (data blocks below 65536, bits below \<open>2 ^ 24\<close>) equal requests name the same place, so
no two tags are confused.
\<close>

theorem requests_name_one_place:
  assumes "read_request seq t a = read_request seq t b \<or> write_request seq t a d = write_request seq t b d"
    and "sa_size a = sa_size b" "sa_area a \<in> {areaDB, areaMK, areaPE, areaPA}" "sa_area b \<in> {areaDB, areaMK, areaPE, areaPA}"
    and "0 \<le> sa_db a \<and> sa_db a < 65536 \<and> 0 \<le> bit_address t a \<and> bit_address t a < 2 ^ 24"
    and "0 \<le> sa_db b \<and> sa_db b < 65536 \<and> 0 \<le> bit_address t b \<and> bit_address t b < 2 ^ 24"
  shows "sa_area a = sa_area b \<and> sa_db a = sa_db b \<and> bit_address t a = bit_address t b"
proof -
  have r: "read_request seq t a = read_request seq t b \<Longrightarrow> item_spec t a (sa_size a) = item_spec t b (sa_size a)"
    using assms(2) by (simp add: read_request_def)
  have "length (item_spec t x n) = 12" for x n by (simp add: item_spec_def)
  then have w: "write_request seq t a d = write_request seq t b d \<Longrightarrow> item_spec t a 1 = item_spec t b 1"
    by (simp add: write_request_def Let_def job_header_def)
  obtain n where "item_spec t a n = item_spec t b n" using assms(1) r w by blast
  then show ?thesis using assms(3-6) by (auto simp: item_spec_eq areaDB_def areaMK_def areaPE_def areaPA_def)
qed

text \<open>
Nothing checks these ranges: an offset \<open>2 ^ 21\<close> bytes further, a data block 65536 further, or a bit number of eight and more
is taken, and reads and writes another place of the device.
\<close>

theorem address_parts_wrap:
  assumes "\<bar>sa_start a\<bar> < 2 ^ 59" "\<bar>sa_bit a\<bar> < 2 ^ 59" "t \<in> set s7_types"
  shows "item_spec t (a\<lparr>sa_start := sa_start a + 2 ^ 21\<rparr>) n = item_spec t a n \<and>
    item_spec t (a\<lparr>sa_db := sa_db a + 65536\<rparr>) n = item_spec t a n \<and>
    item_spec ''BOOL'' (a\<lparr>sa_bit := sa_bit a + 8\<rparr>) n = item_spec ''BOOL'' (a\<lparr>sa_start := sa_start a + 1\<rparr>) n"
proof (intro conjI)
  have w: "wrap64 x = x" if "\<bar>x\<bar> < 2 ^ 63" for x using that by (intro wrap64_id) (simp_all add: abs_less_iff)
  have s: "wrap64 (sa_start a * 8) = sa_start a * 8" "wrap64 ((sa_start a + 2 ^ 21) * 8) = sa_start a * 8 + 2 ^ 24"
      "wrap64 (sa_start a * 8 + sa_bit a) = sa_start a * 8 + sa_bit a" "wrap64 (sa_start a * 8 + 2 ^ 24 + sa_bit a) = sa_start a * 8 + sa_bit a + 2 ^ 24"
    using assms(1,2) by (simp_all add: w)
  have b: "bit_address t (a\<lparr>sa_start := sa_start a + 2 ^ 21\<rparr>) = bit_address t a + 2 ^ 24"
    using s by (simp add: bit_address_def)
  show "item_spec t (a\<lparr>sa_start := sa_start a + 2 ^ 21\<rparr>) n = item_spec t a n"
    unfolding item_spec_eq b by simp
  have "bit_address t (a\<lparr>sa_db := sa_db a + 65536\<rparr>) = bit_address t a" by (simp add: bit_address_def)
  then show "item_spec t (a\<lparr>sa_db := sa_db a + 65536\<rparr>) n = item_spec t a n" unfolding item_spec_eq by simp
  have "wrap64 (sa_start a * 8 + (sa_bit a + 8)) = sa_start a * 8 + sa_bit a + 8" "wrap64 ((sa_start a + 1) * 8) = sa_start a * 8 + 8"
      "wrap64 (sa_start a * 8 + 8 + sa_bit a) = sa_start a * 8 + sa_bit a + 8"
    using assms(1,2) by (simp_all add: w)
  then have "bit_address ''BOOL'' (a\<lparr>sa_bit := sa_bit a + 8\<rparr>) = bit_address ''BOOL'' (a\<lparr>sa_start := sa_start a + 1\<rparr>)"
    using s(1) by (simp add: bit_address_def)
  then show "item_spec ''BOOL'' (a\<lparr>sa_bit := sa_bit a + 8\<rparr>) n = item_spec ''BOOL'' (a\<lparr>sa_start := sa_start a + 1\<rparr>) n"
    unfolding item_spec_eq by simp
qed

lemma write_request_shape: "\<exists>h rest. length h = 19 \<and> write_request seq t a data = h @ item_spec t a 1 @ rest"
proof -
  let ?h = "job_header (37 + length data) seq (4 + length data) @ [0x05, 0x01]"
  let ?rest = "[0xFF, if t = ''BOOL'' then 0x03 else 0x04] @ put16 (of_nat (if t = ''BOOL'' then 1 else length data * 8)) @ data @ [0, 0]"
  have "length ?h = 19" "length ?rest = 6 + length data" "length (item_spec t a 1) = 12" by (simp_all add: job_header_def item_spec_def)
  then have "write_request seq t a data = ?h @ item_spec t a 1 @ ?rest" by (simp add: write_request_def Let_def numeral_2_eq_2)
  then show ?thesis using \<open>length ?h = 19\<close> by blast
qed

text \<open>The bytes of one item of a transport size, and those a request asks for or writes.\<close>

definition item_bytes :: "byte \<Rightarrow> nat" where
  "item_bytes ts = (if ts = 0x04 then 2 else if ts = 0x06 \<or> ts = 0x08 then 4 else 1)"

definition bytes_named :: "bytes \<Rightarrow> nat" where
  "bytes_named req = unat (be16 (req ! 23) (req ! 24)) * item_bytes (req ! 22)"

text \<open>
The length of a request counts items of its transport size, as the comment in the code that writes says; the code that
reads puts the size in bytes there, so an integer is read as two words and a double word or real as four of them.
\<close>

theorem read_names_too_much:
  assumes "t \<in> {''INT'', ''DINT'', ''REAL''}" "sa_size a = width t"
  shows "bytes_named (read_request seq t a) = width t * width t \<and> bytes_named (write_request seq t a data) = width t"
proof -
  have r: "read_request seq t a ! (17 + 2 + i) = item_spec t a (sa_size a) ! i" for i
    by (simp add: read_request_def job_header_def put16_def nth_append)
  obtain h rest where h: "length h = 19" "write_request seq t a data = h @ item_spec t a 1 @ rest"
    using write_request_shape by blast
  have "length (item_spec t a 1) = 12" by (simp add: item_spec_def)
  then have w: "write_request seq t a data ! (17 + 2 + i) = item_spec t a 1 ! i" if "i < 6" for i
    using that h by (simp add: nth_append)
  have i: "item_spec t a n ! 3 = transportSize t" "be16 (item_spec t a n ! 4) (item_spec t a n ! 5) = of_nat n" for n
  proof -
    have "item_spec t a n ! 4 = put16 (of_nat n) ! 0" "item_spec t a n ! 5 = put16 (of_nat n) ! 1" by (simp_all add: item_spec_def nth_append)
    moreover have "be16 (put16 v ! 0) (put16 v ! 1) = v" for v by (simp add: put16_def be16_bytes)
    ultimately show "be16 (item_spec t a n ! 4) (item_spec t a n ! 5) = of_nat n" by simp
    show "item_spec t a n ! 3 = transportSize t" by (simp add: item_spec_def)
  qed
  have rq: "read_request seq t a ! 22 = transportSize t" "be16 (read_request seq t a ! 23) (read_request seq t a ! 24) = of_nat (width t)"
    using r[of 3] r[of 4] r[of 5] i[of "sa_size a"] assms(2) by simp_all
  have wq: "write_request seq t a data ! 22 = transportSize t" "be16 (write_request seq t a data ! 23) (write_request seq t a data ! 24) = 1"
    using w[of 3] w[of 4] w[of 5] i[of 1] by simp_all
  show ?thesis unfolding bytes_named_def rq wq using assms(1) by (auto simp: transportSize_def item_bytes_def width_def)
qed

section \<open>The connection\<close>

text \<open>A connection that delivers a stream of bytes, in pieces of any size.\<close>

definition delivers :: "'n net \<Rightarrow> ('n \<Rightarrow> bytes) \<Rightarrow> bool" where
  "delivers N st \<longleftrightarrow> (\<forall>k n. st n \<noteq> [] \<longrightarrow>
     (\<exists>n' b. net_read N (Suc k) n = (n', Inr b) \<and> b \<noteq> [] \<and> length b \<le> Suc k \<and> st n = b @ st n'))"

lemma read_full_stream:
  assumes "delivers N st"
  shows "k \<le> fuel \<Longrightarrow> k \<le> length (st n) \<Longrightarrow> \<exists>n'. read_full N fuel k got n = (n', Inr (got @ take k (st n))) \<and> st n' = drop k (st n)"
proof (induction fuel arbitrary: k got n)
  case (Suc fuel)
  show ?case
  proof (cases k)
    case (Suc j)
    then have "st n \<noteq> []" using Suc.prems by auto
    then obtain n' b where r: "net_read N (Suc j) n = (n', Inr b)" "b \<noteq> []" "length b \<le> Suc j" "st n = b @ st n'"
      using assms unfolding delivers_def by blast
    then have cr: "conn_read N (Suc j) n = (n', Inr b)" by (simp add: conn_read_def)
    have l: "0 < length b" using r(2) by simp
    then have "Suc j - length b \<le> fuel" using Suc.prems(1) Suc by linarith
    moreover have "Suc j - length b \<le> length (st n')" using Suc.prems(2) Suc arg_cong[OF r(4), of length] by simp
    ultimately obtain n'' where "read_full N fuel (Suc j - length b) (got @ b) n' = (n'', Inr ((got @ b) @ take (Suc j - length b) (st n')))"
        "st n'' = drop (Suc j - length b) (st n')" using Suc.IH by blast
    moreover have "take (Suc j) (st n) = b @ take (Suc j - length b) (st n')" "drop (Suc j) (st n) = drop (Suc j - length b) (st n')"
      using r(3,4) by simp_all
    ultimately show ?thesis using Suc cr by simp
  qed simp
qed simp

text \<open>
C27: a frame is read whole however the network cuts it into pieces, and what follows it is left for the next read.
\<close>

theorem frame_any_segmentation:
  assumes "delivers N st" "st n = frame @ rest" "frame ! 0 = tpktVersion" "7 \<le> length frame" "length frame \<le> 8192"
    and "unat (be16 (frame ! 2) (frame ! 3)) = length frame"
  shows "\<exists>n'. readTPKTFrame N n = (n', Inr frame) \<and> st n' = rest"
proof -
  have l: "4 \<le> length (st n)" using assms(2,4) by simp
  obtain n1 where n1: "read_full N 4 4 [] n = (n1, Inr (take 4 frame))" "st n1 = drop 4 frame @ rest"
    using read_full_stream[OF assms(1) order_refl l, of "[]"] assms(2,4) by auto
  have "length frame - 4 \<le> length (st n1)" using n1(2) by simp
  then obtain n2 where n2: "read_full N (length frame - 4) (length frame - 4) [] n1 = (n2, Inr (drop 4 frame))" "st n2 = rest"
    using read_full_stream[OF assms(1) order_refl, of _ n1 "[]"] n1(2) by fastforce
  have h: "take 4 frame ! 0 = frame ! 0" "take 4 frame ! 2 = frame ! 2" "take 4 frame ! 3 = frame ! 3" by simp_all
  show ?thesis
    using n1(1) n2 assms(3-6) by (simp add: readTPKTFrame_def h Let_def)
qed

text \<open>
After an error of the network or a response that cannot be understood the connection is given up, so a client that is
still connected has read whole responses only.
\<close>

theorem bad_response_disconnects:
  assumes "ReadTag_s7 N address t c = Some (c', v)" "s7_connected c'" "tv_Error v = Some e"
  shows "e \<noteq> Protocol \<and> e \<noteq> Io EOF \<and> e \<noteq> Io UnexpectedEOF \<and> e \<noteq> Io OpError"
proof -
  have a: "parseAddress_s7 address t = Inl x \<Longrightarrow> x = BadAddress \<or> x = UnsupportedType" for x
    by (auto simp: parseAddress_s7_def in_area_def db_offset_def parseDirectAddress_def scan_offset_def Let_def
        split: if_splits option.splits sum.splits list.splits)
  have b: "convertBufferToValue buf t = Inl x \<Longrightarrow> x = BufferTooSmall \<or> x = UnsupportedType" for buf x
    by (auto simp: convertBufferToValue_def split: if_splits)
  have h: "s7_connected (handleConnectionError N x d) \<Longrightarrow> x \<noteq> Protocol \<and> x \<noteq> Io EOF \<and> x \<noteq> Io UnexpectedEOF \<and> x \<noteq> Io OpError" for x d
    by (auto simp: handleConnectionError_def isConnectionError_def close_conn_def split: if_splits)
  show ?thesis
  proof (cases "s7_connected c")
    case False
    then show ?thesis using assms by (auto simp: ReadTag_s7_def bad_def)
  next
    case conn: True
    show ?thesis
    proof (cases "parseAddress_s7 address t")
      case (Inl x)
      then show ?thesis using assms conn a by (auto simp: ReadTag_s7_def bad_def)
    next
      case (Inr ad)
      obtain d r where r: "readArea N t ad c = Some (d, r)" using readArea_safe[of N t ad c] by auto
      show ?thesis
      proof (cases r)
        case (Inl x)
        then have "c' = handleConnectionError N x d" "e = x" using assms(1,3) conn Inr r by (auto simp: ReadTag_s7_def bad_def)
        then show ?thesis using h assms(2) by blast
      next
        case (Inr buf)
        then have "convertBufferToValue buf t = Inl e" using assms(1,3) conn \<open>parseAddress_s7 address t = Inr ad\<close> r
          by (auto simp: ReadTag_s7_def bad_def split: sum.splits)
        then show ?thesis using b by blast
      qed
    qed
  qed
qed

section \<open>A device\<close>

text \<open>The pieces that will arrive; whatever is written is taken.\<close>

definition pieces :: "bytes list net" where
  "pieces = \<lparr>net_dial = (\<lambda>_ _ n. (n, True)), net_write = (\<lambda>_ n. (n, None)),
     net_read = (\<lambda>k n. case filter (\<lambda>b. b \<noteq> []) n of [] \<Rightarrow> ([], Inl EOF) | b # bs \<Rightarrow> (drop k b # bs, Inr (take k b))),
     net_close = (\<lambda>n. [])\<rparr>"

lemma concat_filter: "concat (filter (\<lambda>b. b \<noteq> []) n) = concat n"
  by (induction n) auto

lemma pieces_deliver: "delivers pieces concat"
proof -
  have "\<exists>n' b. net_read pieces (Suc k) n = (n', Inr b) \<and> b \<noteq> [] \<and> length b \<le> Suc k \<and> concat n = b @ concat n'" if c: "concat n \<noteq> []" for k n
  proof (cases "filter (\<lambda>b. b \<noteq> []) n")
    case Nil
    then show ?thesis using c concat_filter[of n] by simp
  next
    case (Cons b bs)
    then have "b \<noteq> []" by (metis (mono_tags, lifting) filter_eq_ConsD)
    moreover have "concat n = b @ concat bs" using Cons concat_filter[of n] by simp
    ultimately show ?thesis using Cons by (simp add: pieces_def)
  qed
  then show ?thesis by (simp add: delivers_def)
qed

text \<open>The answer to a read of the integer 258, in three pieces.\<close>

definition answer_258 :: bytes where
  "answer_258 = [3, 0, 0, 27, 2, 0xF0, 0x80, 0x32, 3, 0, 0, 0, 1, 0, 2, 0, 6, 0, 0, 4, 1, 0xFF, 4, 0, 16, 1, 2]"

definition online :: "bytes list \<Rightarrow> bytes list s7_client" where
  "online n = (NewClient_s7 n \<lparr>sc_IP = ''10.0.0.5'', sc_Rack = 0, sc_Slot = 1, sc_Port = 102, sc_ConnectRetry = 3, sc_RetryInterval = 0, sc_Timeout = 0\<rparr>)
     \<lparr>s7_connected := True\<rparr>"

theorem frame_any_segmentation_witness:
  "\<exists>n'. readTPKTFrame pieces [take 2 answer_258, take 8 (drop 2 answer_258), drop 10 answer_258 @ [3, 0]] = (n', Inr answer_258) \<and> concat n' = [3, 0]"
proof -
  have e: "concat [take 2 answer_258, take 8 (drop 2 answer_258), drop 10 answer_258 @ [3, 0]] = answer_258 @ [3, 0]" by code_simp
  have "answer_258 ! 0 = tpktVersion" "7 \<le> length answer_258" "length answer_258 \<le> 8192"
    "unat (be16 (answer_258 ! 2) (answer_258 ! 3)) = length answer_258" by code_simp+
  note frame_any_segmentation[OF pieces_deliver e this]
  then show ?thesis .
qed

text \<open>The device refuses the object: an answer that is understood, after which the connection is kept.\<close>

definition refusal :: bytes where
  "refusal = [3, 0, 0, 22, 2, 0xF0, 0x80, 0x32, 3, 0, 0, 0, 1, 0, 2, 0, 1, 0x81, 4, 4, 1, 0]"

theorem bad_response_disconnects_witness:
  "\<exists>c' v e. ReadTag_s7 pieces ''DB1.DBW0'' ''INT'' (online [refusal]) = Some (c', v) \<and> s7_connected c' \<and> tv_Error v = Some e \<and> e \<noteq> Protocol"
proof -
  obtain c' v where r: "ReadTag_s7 pieces ''DB1.DBW0'' ''INT'' (online [refusal]) = Some (c', v)"
    using ReadTag_safe[of pieces "''DB1.DBW0''" "''INT''" "online [refusal]"] by auto
  have "s7_connected (fst (the (ReadTag_s7 pieces ''DB1.DBW0'' ''INT'' (online [refusal])))) \<and>
      tv_Error (snd (the (ReadTag_s7 pieces ''DB1.DBW0'' ''INT'' (online [refusal])))) = Some (PlcError 0x81 4)"
    by code_simp
  then have "s7_connected c'" "tv_Error v = Some (PlcError 0x81 4)" using r by simp_all
  then show ?thesis using r bad_response_disconnects[OF r] by blast
qed

definition some_go :: go_impl where
  "some_go = \<lparr>fmt_value = (\<lambda>_. ''''), float_to_int = (\<lambda>_. 0)\<rparr>"

theorem write_panics_iff_witness:
  "WriteTag_s7 pieces some_go ''DB1.DBB0'' ''INT'' (VFloat64 0) (online []) = None \<and>
   WriteTag_s7 pieces some_go ''DB1.DBW0'' ''INT'' (VFloat64 0) (online []) \<noteq> None"
proof -
  have p: "parseAddress_s7 ''DB1.DBB0'' ''INT'' = Inr \<lparr>sa_area = areaDB, sa_db = 1, sa_start = 0, sa_bit = 0, sa_size = 1\<rparr>"
      "parseAddress_s7 ''DB1.DBW0'' ''INT'' = Inr \<lparr>sa_area = areaDB, sa_db = 1, sa_start = 0, sa_bit = 0, sa_size = 2\<rparr>"
    by code_simp+
  have c: "s7_connected (online [])" by (simp add: online_def)
  show ?thesis
    using write_panics_iff[OF c p(1), of pieces some_go 0] write_panics_iff[OF c p(2), of pieces some_go 0] by (simp add: width_def)
qed

theorem written_value_reads_back_witness:
  "convertValueToBuffer some_go (VFloat64 (f64_of_int 258)) ''INT'' 2 = Some (Inr [1, 2]) \<and>
   convertBufferToValue [1, 2] ''INT'' = Inr (VInt16 258)"
proof -
  have c: "convertValueToBuffer some_go (VFloat64 (f64_of_int 258)) ''INT'' 2 = Some (Inr [1, 2])" by code_simp
  moreover have "stored some_go (VFloat64 (f64_of_int 258)) ''INT'' = VInt16 258" by code_simp
  ultimately show ?thesis using written_value_reads_back[OF c] by simp
qed

theorem parse_printed_address_witness:
  "parseAddress_s7 ''DB12.DBX4.7'' ''BOOL'' = Inr \<lparr>sa_area = areaDB, sa_db = 12, sa_start = 4, sa_bit = 7, sa_size = 1\<rparr>"
proof -
  have "''DB12.DBX4.7'' = db_address 12 CHR ''X'' 4 @ CHR ''.'' # itoa 7" by code_simp
  then show ?thesis using parse_printed_address[of "''BOOL''" 12 4 7] by (simp add: s7_types_def is_int64_def)
qed

definition db1_word :: "int \<Rightarrow> s7_address" where
  "db1_word off = \<lparr>sa_area = areaDB, sa_db = 1, sa_start = off, sa_bit = 0, sa_size = 2\<rparr>"

theorem requests_name_one_place_witness: "read_request 1 ''INT'' (db1_word 0) \<noteq> read_request 1 ''INT'' (db1_word 2)"
proof
  assume "read_request 1 ''INT'' (db1_word 0) = read_request 1 ''INT'' (db1_word 2)"
  then have "bit_address ''INT'' (db1_word 0) = bit_address ''INT'' (db1_word 2)"
    using requests_name_one_place[of 1 "''INT''" "db1_word 0" "db1_word 2" "[]"]
    by (simp add: db1_word_def bit_address_def wrap64_id)
  then show False by (simp add: db1_word_def bit_address_def wrap64_id)
qed

theorem address_parts_wrap_witness: "read_request 1 ''INT'' (db1_word 2097152) = read_request 1 ''INT'' (db1_word 0)"
proof -
  have "item_spec ''INT'' ((db1_word 0)\<lparr>sa_start := sa_start (db1_word 0) + 2 ^ 21\<rparr>) 2 = item_spec ''INT'' (db1_word 0) 2"
    using address_parts_wrap[of "db1_word 0" "''INT''" 2] by (simp add: db1_word_def s7_types_def)
  then show ?thesis by (simp add: db1_word_def read_request_def)
qed

theorem read_names_too_much_witness:
  "bytes_named (read_request 1 ''INT'' (db1_word 0)) = 4 \<and> bytes_named (write_request 1 ''INT'' (db1_word 0) [0, 0]) = 2"
  using read_names_too_much[of "''INT''" "db1_word 0" 1 "[0, 0]"] by (simp add: db1_word_def width_def)

end
