(* ===== verification/Access.thy ===== *)
theory Access
  imports Big_Endian "HOL-Library.AList" "HOL-Library.Countable"
begin

text \<open>
  The request filters of the platform (\<open>internal/middleware\<close>): session tokens, roles, permissions, organizations, API keys
  and the limit on requests per address.

  A filter either ends the request with a status and a message, or hands on the context.  Tokens are parsed by a library:
  \<open>jwt_Verify\<close> is \<open>jwt.Parse\<close> with the key function of the code, which gives the claims of a token that was signed with
  the secret of the server and has not expired.  Database rows are read through functions; a failing read is a value.
\<close>

section \<open>Requests, claims and context\<close>

type_synonym claims = "(string \<times> go_value) list"

record http_req =
  hq_method :: string
  hq_path :: string
  hq_header :: "string \<Rightarrow> string"
  hq_query :: "string \<Rightarrow> string"
  hq_param :: "string \<Rightarrow> string"

record req_context =
  cx_user :: "claims option"
  cx_org :: "int option"
  cx_key :: "(int \<times> int) option"

type_synonym verdict = "(nat \<times> string) + req_context"

record jwt =
  jwt_Sign :: "claims \<Rightarrow> string"
  jwt_Verify :: "gotime \<Rightarrow> string \<Rightarrow> claims option"

definition claim_string :: "claims \<Rightarrow> string \<Rightarrow> string option" where
  "claim_string c k = (case map_of c k of Some (VString s) \<Rightarrow> Some s | _ \<Rightarrow> None)"

definition claim_number :: "claims \<Rightarrow> string \<Rightarrow> float64 option" where
  "claim_number c k = (case map_of c k of Some (VFloat64 f) \<Rightarrow> Some f | _ \<Rightarrow> None)"

definition claim_true :: "claims \<Rightarrow> string \<Rightarrow> bool" where
  "claim_true c k \<longleftrightarrow> map_of c k = Some (VBool True)"

text \<open>Conversion of a number to \<open>int\<close>.\<close>

definition to_int64 :: "go_impl \<Rightarrow> float64 \<Rightarrow> int" where
  "to_int64 G f = conv_num G (- (2 ^ 63)) (2 ^ 63 - 1) f"

definition TrimPrefix :: "string \<Rightarrow> string \<Rightarrow> string" where
  "TrimPrefix s pre = (case strip_prefix pre s of Some t \<Rightarrow> t | None \<Rightarrow> s)"

definition TrimSuffix :: "string \<Rightarrow> string \<Rightarrow> string" where
  "TrimSuffix s suf = rev (TrimPrefix (rev s) (rev suf))"

text \<open>\<open>strings.Fields\<close>: the pieces between runs of white space.\<close>

fun fields_from :: "nat \<Rightarrow> string \<Rightarrow> string \<Rightarrow> string list" where
  "fields_from 0 cur s = []"
| "fields_from (Suc n) cur s =
     (case s of
        [] \<Rightarrow> (if cur = [] then [] else [rev cur])
      | ch # rest \<Rightarrow>
          (case first_strip space_seqs s of
             Some s' \<Rightarrow> (if cur = [] then fields_from n [] s' else rev cur # fields_from n [] s')
           | None \<Rightarrow> fields_from n (ch # cur) rest))"

definition Fields :: "string \<Rightarrow> string list" where
  "Fields s = fields_from (Suc (length s)) [] s"

text \<open>\<open>Unix\<close> of a time: whole seconds.\<close>

definition Unix :: "gotime \<Rightarrow> int" where
  "Unix t = t div Second - unix_zero_ms div 1000"

section \<open>The contract of the token library\<close>

text \<open>
  Signed claims come back, until they expire, as JSON gives them: integers are numbers.  Claims are a list whose
  first entry for a name counts.
\<close>

fun decoded_value :: "go_value \<Rightarrow> go_value" where
  "decoded_value (VInt w) = VFloat64 (f64_of_int (sint w))"
| "decoded_value (VInt64 w) = VFloat64 (f64_of_int (sint w))"
| "decoded_value v = v"

definition decoded :: "claims \<Rightarrow> claims" where
  "decoded c = map (apsnd decoded_value) c"

definition jwt_ok :: "jwt \<Rightarrow> bool" where
  "jwt_ok J \<longleftrightarrow> (\<forall>now c e. map_of c ''exp'' = Some (VInt64 e) \<longrightarrow>
     jwt_Verify J now (jwt_Sign J c) = (if Unix now < sint e then Some (decoded c) else None))"

lemma map_of_decoded: "map_of (decoded c) k = map_option decoded_value (map_of c k)"
  by (induction c) (auto simp: decoded_def)

lemma jwt_verified:
  assumes "jwt_ok J" "map_of c ''exp'' = Some (VInt64 e)" "jwt_Verify J now (jwt_Sign J c) = Some d"
  shows "d = decoded c"
  using assms(3) assms(1)[unfolded jwt_ok_def, rule_format, OF assms(2), of now] by (simp split: if_splits)

text \<open>A library that keeps it: a token is as long as the number of its claims.\<close>

instance go_value :: countable
  by countable_datatype

definition counting_jwt :: jwt where
  "counting_jwt = \<lparr>jwt_Sign = (\<lambda>c. replicate (Suc (to_nat c)) (CHR ''x'')),
     jwt_Verify = (\<lambda>now t. let c = from_nat (length t - 1) in case map_of c ''exp'' of
        Some (VInt64 e) \<Rightarrow> if Unix now < sint e then Some (decoded c) else None
      | _ \<Rightarrow> None)\<rparr>"

lemma counting_jwt_ok: "jwt_ok counting_jwt"
  by (simp add: jwt_ok_def counting_jwt_def)

section \<open>Sessions\<close>

datatype version_lookup = Version int | UserGone | LookupFailed

definition tokenVersionCurrent :: "go_impl \<Rightarrow> (int \<Rightarrow> version_lookup) option \<Rightarrow> claims \<Rightarrow> bool" where
  "tokenVersionCurrent G TokenVersionLookup claims =
     (case TokenVersionLookup of
        None \<Rightarrow> True
      | Some look \<Rightarrow>
          (case claim_number claims ''user_id'' of
             None \<Rightarrow> False
           | Some uid \<Rightarrow>
               (let tv = (case claim_number claims ''token_version'' of Some f \<Rightarrow> f | None \<Rightarrow> 0)
                in case look (to_int64 G uid) of
                     UserGone \<Rightarrow> False
                   | LookupFailed \<Rightarrow> True
                   | Version current \<Rightarrow> current = to_int64 G tv)))"

definition scopeWrite :: string where "scopeWrite = ''openedge:write''"

definition scopeAllowsRequest :: "claims \<Rightarrow> string \<Rightarrow> bool" where
  "scopeAllowsRequest claims meth =
     (case claim_string claims ''scope'' of
        None \<Rightarrow> True
      | Some scope \<Rightarrow>
          (if meth \<in> {''GET'', ''HEAD'', ''OPTIONS''} then True else scopeWrite \<in> set (Fields scope)))"

definition allowedBeforePasswordChange :: "http_req \<Rightarrow> bool" where
  "allowedBeforePasswordChange r \<longleftrightarrow>
     hq_method r @ '' '' @ TrimSuffix (hq_path r) ''/'' \<in>
       {''GET /api/auth/me'', ''PUT /api/auth/me/password'', ''POST /api/auth/logout''}"

definition PasswordChangeClaim :: string where "PasswordChangeClaim = ''pwd_change''"

definition RequireAuth :: "go_impl \<Rightarrow> jwt \<Rightarrow> (int \<Rightarrow> version_lookup) option \<Rightarrow> gotime \<Rightarrow> http_req \<Rightarrow> req_context \<Rightarrow> verdict" where
  "RequireAuth G J look now r cx =
     (if hq_header r ''Authorization'' = '''' then Inl (401, ''Unauthorized: missing token'')
      else case jwt_Verify J now (TrimPrefix (hq_header r ''Authorization'') ''Bearer '') of
        None \<Rightarrow> Inl (401, ''Unauthorized: invalid token'')
      | Some claims \<Rightarrow>
          (if claim_true claims ''mfa_step'' then Inl (401, ''Unauthorized: MFA verification required'')
           else if claim_true claims ''mfa_setup'' then Inl (401, ''Unauthorized: MFA enrollment required'')
           else if \<not> tokenVersionCurrent G look claims then Inl (401, ''Unauthorized: session revoked, sign in again'')
           else if \<not> scopeAllowsRequest claims (hq_method r) then Inl (403, ''Forbidden: this token was granted read-only access'')
           else if claim_true claims PasswordChangeClaim \<and> \<not> allowedBeforePasswordChange r
             then Inl (403, ''Forbidden: this account still uses the default password; change it first'')
           else Inr (cx\<lparr>cx_user := Some claims\<rparr>)))"

text \<open>A browser hands the token of a WebSocket over in the list of subprotocols.\<close>

fun promote :: "string list \<Rightarrow> http_req \<Rightarrow> http_req" where
  "promote [] r = r"
| "promote (p # ps) r =
     (let part = TrimSpace p
      in if part = '''' \<or> (is_ascii part \<and> map lower_char part = ''bearer'') then promote ps r
         else r\<lparr>hq_header := (hq_header r)(''Authorization'' := ''Bearer '' @ part)\<rparr>)"

definition WebSocketAuth :: "http_req \<Rightarrow> http_req" where
  "WebSocketAuth r =
     (if hq_header r ''Authorization'' = ''''
      then promote (split_on (CHR '','') (hq_header r ''Sec-WebSocket-Protocol'')) r else r)"

section \<open>Roles and permissions\<close>

definition org_claim :: "claims \<Rightarrow> go_value option" where
  "org_claim c = (case map_of c ''org_id'' of Some v \<Rightarrow> if v = VNil then None else Some v | None \<Rightarrow> None)"

definition IsGlobalAdmin :: "req_context \<Rightarrow> bool" where
  "IsGlobalAdmin cx = (case cx_user cx of None \<Rightarrow> False | Some c \<Rightarrow> claim_string c ''role'' = Some ''admin'' \<and> org_claim c = None)"

definition RequireRole :: "string \<Rightarrow> req_context \<Rightarrow> verdict" where
  "RequireRole role cx =
     (case cx_user cx of
        None \<Rightarrow> Inl (401, ''Unauthorized'')
      | Some c \<Rightarrow>
          (case claim_string c ''role'' of
             None \<Rightarrow> Inl (401, ''Unauthorized: missing role claim'')
           | Some userRole \<Rightarrow>
               if userRole \<noteq> role \<and> userRole \<noteq> ''admin'' then Inl (403, ''Forbidden: insufficient permissions'') else Inr cx))"

definition RequireGlobalAdmin :: "req_context \<Rightarrow> verdict" where
  "RequireGlobalAdmin cx = (if IsGlobalAdmin cx then Inr cx else Inl (403, ''Forbidden: global administrator required''))"

definition HasI3xWrite :: "req_context \<Rightarrow> bool" where
  "HasI3xWrite cx = (case cx_user cx of None \<Rightarrow> False
     | Some c \<Rightarrow> claim_string c ''role'' = Some ''admin'' \<or> claim_true c ''i3x_write'')"

text \<open>The flags of a user in \<open>role_permissions\<close>; no row and a failing query are both \<open>None\<close>.\<close>

definition RequirePermission :: "go_impl \<Rightarrow> (int \<Rightarrow> (string \<Rightarrow> bool) option) \<Rightarrow> string \<Rightarrow> req_context \<Rightarrow> verdict" where
  "RequirePermission G flags perm cx =
     (case cx_user cx of
        None \<Rightarrow> Inl (403, ''permission denied'')
      | Some c \<Rightarrow>
          (if claim_string c ''role'' = Some ''admin'' then Inr cx
           else let userID = (case claim_number c ''user_id'' of Some f \<Rightarrow> to_int64 G f | None \<Rightarrow> 0)
                in if userID = 0 then Inl (403, ''permission denied'')
                   else (case flags userID of
                           None \<Rightarrow> Inl (403, ''permission denied'')
                         | Some allowed \<Rightarrow> if allowed perm then Inr cx else Inl (403, ''permission denied: '' @ perm))))"

section \<open>Organizations\<close>

definition OrganizationContext :: "go_impl \<Rightarrow> http_req \<Rightarrow> req_context \<Rightarrow> verdict" where
  "OrganizationContext G r cx =
     (case cx_user cx of
        None \<Rightarrow> Inl (401, ''User not authenticated - missing JWT context'')
      | Some c \<Rightarrow>
          (let orgIDStr = (if hq_header r ''X-Organization-ID'' = '''' then hq_query r ''organization_id'' else hq_header r ''X-Organization-ID'')
           in if orgIDStr \<noteq> '''' \<and> Atoi orgIDStr = None then Inl (400, ''Invalid organization ID format'')
              else let provided = (if orgIDStr = '''' then None else Atoi orgIDStr)
                   in if claim_string c ''role'' = Some ''admin'' \<and> org_claim c = None
                      then (case provided of
                              None \<Rightarrow> Inr cx
                            | Some orgID \<Rightarrow> if orgID \<le> 0 then Inl (400, ''Organization ID must be a positive integer'')
                                             else Inr (cx\<lparr>cx_org := Some orgID\<rparr>))
                      else (case org_claim c of
                              None \<Rightarrow> Inl (403, ''User is not assigned to any organization'')
                            | Some (VFloat64 f) \<Rightarrow>
                                (case provided of
                                   None \<Rightarrow> Inr (cx\<lparr>cx_org := Some (to_int64 G f)\<rparr>)
                                 | Some orgID \<Rightarrow>
                                     if orgID \<noteq> to_int64 G f
                                     then Inl (403, ''Organization access denied - user belongs to a different organization'')
                                     else Inr (cx\<lparr>cx_org := Some orgID\<rparr>))
                            | Some _ \<Rightarrow> Inl (500, ''Invalid org_id format in JWT''))))"

definition GetOrganizationID :: "req_context \<Rightarrow> int option" where
  "GetOrganizationID cx = cx_org cx"

definition GetUserID :: "go_impl \<Rightarrow> req_context \<Rightarrow> int option" where
  "GetUserID G cx = Option.bind (cx_user cx) (\<lambda>c. map_option (to_int64 G) (claim_number c ''user_id''))"

definition RequireOrganizationContext :: "req_context \<Rightarrow> verdict" where
  "RequireOrganizationContext cx =
     (if IsGlobalAdmin cx then Inr cx
      else case GetOrganizationID cx of
        None \<Rightarrow> Inl (403, ''Organization context not found - unauthorized access'')
      | Some _ \<Rightarrow> Inr cx)"

text \<open>The organization a query is filtered by; \<open>None\<close> means all.\<close>

definition GetOrgFilterForQuery :: "req_context \<Rightarrow> int option" where
  "GetOrgFilterForQuery cx =
     (if IsGlobalAdmin cx then None
      else case GetOrganizationID cx of None \<Rightarrow> Some (- 1) | Some orgID \<Rightarrow> Some orgID)"

definition OrgIDFromJWT :: "go_impl \<Rightarrow> req_context \<Rightarrow> int option" where
  "OrgIDFromJWT G cx = Option.bind (cx_user cx) (\<lambda>c.
     case org_claim c of Some (VFloat64 f) \<Rightarrow> Some (to_int64 G f) | _ \<Rightarrow> None)"

definition RequireOrgParam :: "go_impl \<Rightarrow> string \<Rightarrow> http_req \<Rightarrow> req_context \<Rightarrow> verdict" where
  "RequireOrgParam G param r cx =
     (if IsGlobalAdmin cx then Inr cx
      else case Atoi (hq_param r param) of
        None \<Rightarrow> Inl (400, ''invalid organization id'')
      | Some target \<Rightarrow>
          (if target \<le> 0 then Inl (400, ''invalid organization id'')
           else if OrgIDFromJWT G cx \<noteq> Some target then Inl (403, ''Forbidden: organization access denied'')
           else Inr cx))"

section \<open>API keys\<close>

record api_key =
  ak_prefix :: string
  ak_hash :: string
  ak_org :: int
  ak_agent :: "int option"
  ak_revoked :: bool

text \<open>\<open>strings.SplitN\<close> into at most \<open>n\<close> pieces.\<close>

fun SplitN :: "char \<Rightarrow> nat \<Rightarrow> string \<Rightarrow> string list" where
  "SplitN c 0 s = []"
| "SplitN c (Suc 0) s = [s]"
| "SplitN c (Suc (Suc n)) s =
     (let pre = takeWhile (\<lambda>x. x \<noteq> c) s
      in if length pre = length s then [s] else pre # SplitN c (Suc n) (drop (length pre + 1) s))"

definition RequireAPIKey :: "(string \<Rightarrow> string) \<Rightarrow> api_key list \<Rightarrow> bool \<Rightarrow> http_req \<Rightarrow> req_context \<Rightarrow> verdict" where
  "RequireAPIKey apiKeyHash rows fails r cx =
     (let key = hq_header r ''X-API-Key''
      in if key = '''' then Inl (401, ''missing X-API-Key header'')
         else let parts = SplitN (CHR ''_'') 3 key
              in if length parts \<noteq> 3 \<or> parts ! 0 \<noteq> ''oe'' then Inl (401, ''invalid API key format'')
                 else if fails then Inl (500, ''internal error'')
                 else (case find (\<lambda>k. ak_prefix k = ''oe_'' @ parts ! 1 \<and> ak_hash k = apiKeyHash key \<and> \<not> ak_revoked k) rows of
                         None \<Rightarrow> Inl (401, ''invalid or revoked API key'')
                       | Some k \<Rightarrow> Inr (cx\<lparr>cx_key := Some (ak_org k, case ak_agent k of Some a \<Rightarrow> a | None \<Rightarrow> 0)\<rparr>)))"

section \<open>Requests per address\<close>

text \<open>
  The limiter of an address is a value of the rate library: \<open>rate_New\<close> makes one, \<open>rate_Allow\<close> takes a token from it.  The table is
  a list in the order a range over the map visits it.
\<close>

record 'l rate =
  rate_New :: "'l"
  rate_Allow :: "gotime \<Rightarrow> 'l \<Rightarrow> 'l \<times> bool"

record 'l visitor =
  vi_limiter :: 'l
  vi_lastSeen :: gotime

definition maxVisitors :: nat where "maxVisitors = 10000"

fun oldest_of :: "(string \<times> gotime) \<Rightarrow> (string \<times> 'l visitor) list \<Rightarrow> string" where
  "oldest_of (k, t) [] = k"
| "oldest_of (k, t) ((ip, v) # rest) =
     (if k = '''' \<or> vi_lastSeen v < t then oldest_of (ip, vi_lastSeen v) rest else oldest_of (k, t) rest)"

definition evictOldest :: "(string \<times> 'l visitor) list \<Rightarrow> (string \<times> 'l visitor) list" where
  "evictOldest m = (let k = oldest_of ('''', 0) m in if k \<noteq> '''' then AList.delete k m else m)"

definition cleanupVisitors :: "gotime \<Rightarrow> (string \<times> 'l visitor) list \<Rightarrow> (string \<times> 'l visitor) list" where
  "cleanupVisitors now m = filter (\<lambda>(ip, v). \<not> Sub now (vi_lastSeen v) > 15 * Minute) m"

definition getLimiter :: "'l rate \<Rightarrow> gotime \<Rightarrow> string \<Rightarrow> (string \<times> 'l visitor) list \<Rightarrow> (string \<times> 'l visitor) list" where
  "getLimiter R now ip m =
     (let v = (case map_of m ip of Some v \<Rightarrow> v | None \<Rightarrow> \<lparr>vi_limiter = rate_New R, vi_lastSeen = now\<rparr>);
          m = (if map_of m ip = None \<and> length m \<ge> maxVisitors then evictOldest m else m)
      in AList.update ip (v\<lparr>vi_lastSeen := now\<rparr>) m)"

text \<open>The filter of a group of routes: the table, and whether the request goes on.\<close>

definition rate_limit :: "'l rate \<Rightarrow> gotime \<Rightarrow> string \<Rightarrow> (string \<times> 'l visitor) list \<Rightarrow> (string \<times> 'l visitor) list \<times> bool" where
  "rate_limit R now ip m =
     (let m = getLimiter R now ip m
      in case map_of m ip of
           None \<Rightarrow> (m, True)
         | Some v \<Rightarrow> (case rate_Allow R now (vi_limiter v) of
             (l, ok) \<Rightarrow> (AList.update ip (v\<lparr>vi_limiter := l\<rparr>) m, ok)))"

section \<open>Facts about the filters\<close>

lemma fp_val_floor:
  assumes "fp_finite binary64 x" "fp_val binary64 x = of_int i" "0 \<le> i"
  shows "fp_trunc binary64 x = Some i"
proof -
  have "fst x \<Longrightarrow> mag_val (fmb binary64) (fqe binary64) (snd x) = - of_int i"
    and "\<not> fst x \<Longrightarrow> mag_val (fmb binary64) (fqe binary64) (snd x) = of_int i"
    using assms(2) by (simp_all add: fp_val_def minus_equation_iff)
  then show ?thesis using assms(1) by (simp add: fp_trunc_def)
qed

lemma to_int64_of_int:
  assumes "0 \<le> i" "i < 2 ^ 53"
  shows "to_int64 G (f64_of_int i) = i"
proof -
  have "f64_trunc (f64_of_int i) = Some i"
    using fp_val_floor[OF fp_of_int64[OF assms] assms(1)] by (simp add: f64_trunc_def f64_unpack_of_int)
  then show ?thesis using assms by (simp add: to_int64_def conv_num_def float_conv_def)
qed

end
