(* ===== verification/Access_Properties.thy ===== *)
theory Access_Properties
  imports Access
begin

text \<open>What the filters of the requests keep of their own table.\<close>

lemma length_update: "length (AList.update k v m) = (if k \<in> fst ` set m then length m else Suc (length m))"
  by (induction m) auto

lemma dom_update: "fst ` set (AList.update k v m) = insert k (fst ` set m)"
  by (induction m) auto

lemma oldest_of_key:
  "'''' \<notin> fst ` set m \<Longrightarrow> oldest_of (k, t) m \<in> insert k (fst ` set m) \<and> (k \<noteq> '''' \<or> m \<noteq> [] \<longrightarrow> oldest_of (k, t) m \<noteq> '''')"
proof (induction m arbitrary: k t)
  case (Cons x m)
  obtain ip v where x: "x = (ip, v)" by (cases x)
  then show ?case using Cons.IH[of ip "vi_lastSeen v"] Cons.IH[of k t] Cons.prems by auto
qed simp

lemma evict_shorter:
  assumes "distinct (map fst m)" "'''' \<notin> fst ` set m" "m \<noteq> []"
  shows "length (evictOldest m) < length m"
proof -
  let ?k = "oldest_of ('''', 0) m"
  have k: "?k \<noteq> ''''" "?k \<in> fst ` set m" using oldest_of_key[OF assms(2), of "''''" 0] assms(3) by auto
  then obtain x where "x \<in> set m" "fst x = ?k" by auto
  then have "length (AList.delete ?k m) < length m"
    unfolding AList.delete_eq by (intro length_filter_less[of x]) (auto simp: case_prod_beta)
  then show ?thesis using k(1) by (simp add: evictOldest_def Let_def)
qed

lemma evict_keys:
  assumes "distinct (map fst m)"
  shows "distinct (map fst (evictOldest m))" "fst ` set (evictOldest m) \<subseteq> fst ` set m"
proof -
  show "distinct (map fst (evictOldest m))" using assms AList.distinct_delete[OF assms] by (simp add: evictOldest_def Let_def)
  show "fst ` set (evictOldest m) \<subseteq> fst ` set m"
    using AList.dom_delete_subset[of "oldest_of ('''', 0) m" m] by (simp add: evictOldest_def Let_def)
qed

text \<open>
The table of the rate limiter is bounded: however many addresses send requests, it never holds more than its ten thousand, because
the address seen longest ago makes room; and it forgets nobody who is in it.
\<close>

theorem visitors_bounded:
  assumes "distinct (map fst m)" "'''' \<notin> fst ` set m" "ip \<noteq> ''''" "length m \<le> maxVisitors"
  shows "length (fst (rate_limit R now ip m)) \<le> maxVisitors \<and> distinct (map fst (fst (rate_limit R now ip m))) \<and>
    '''' \<notin> fst ` set (fst (rate_limit R now ip m)) \<and> ip \<in> fst ` set (fst (rate_limit R now ip m)) \<and>
    (length m < maxVisitors \<or> ip \<in> fst ` set m \<longrightarrow> fst ` set (fst (rate_limit R now ip m)) = insert ip (fst ` set m))"
proof -
  let ?e = "if map_of m ip = None \<and> length m \<ge> maxVisitors then evictOldest m else m"
  have shorter: "length m = maxVisitors \<longrightarrow> length (evictOldest m) < maxVisitors"
    using evict_shorter[OF assms(1,2)] by (cases "m = []") (auto simp: maxVisitors_def)
  have none: "map_of m ip = None \<longleftrightarrow> ip \<notin> fst ` set m" by (rule map_of_eq_None_iff)
  have e: "distinct (map fst ?e)" "fst ` set ?e \<subseteq> fst ` set m" "ip \<notin> fst ` set m \<longrightarrow> length ?e < maxVisitors"
    "length ?e \<le> maxVisitors" "ip \<in> fst ` set m \<longrightarrow> ?e = m" "length m < maxVisitors \<longrightarrow> ?e = m"
    using evict_keys[OF assms(1)] shorter assms(1,4) none by auto
  obtain v where g: "getLimiter R now ip m = AList.update ip v ?e" by (auto simp: getLimiter_def Let_def)
  obtain w where r: "fst (rate_limit R now ip m) = AList.update ip w ?e"
    using that[of "v\<lparr>vi_limiter := fst (rate_Allow R now (vi_limiter v))\<rparr>"]
    by (simp add: rate_limit_def g Let_def update_conv' case_prod_beta)
  have k: "fst ` set (fst (rate_limit R now ip m)) = insert ip (fst ` set ?e)" by (simp add: r dom_update insert_absorb2)
  have l: "length (fst (rate_limit R now ip m)) = length (AList.update ip v ?e)" by (simp add: r length_update)
  have "length (AList.update ip v ?e) \<le> maxVisitors" using e(3,4,5) by (auto simp: length_update)
  moreover have "distinct (map fst (fst (rate_limit R now ip m)))" unfolding r by (intro distinct_update e(1))
  moreover have "'''' \<notin> fst ` set (fst (rate_limit R now ip m))" unfolding k using e(2) assms(2,3) by blast
  ultimately show ?thesis using l k e(5,6) by auto
qed

text \<open>A limiter that counts five requests.\<close>

definition five_requests :: "nat rate" where
  "five_requests = \<lparr>rate_New = 5, rate_Allow = (\<lambda>now l. (l - 1, 0 < l))\<rparr>"

theorem visitors_bounded_witness:
  "length (fst (rate_limit five_requests 1 ''10.0.0.2'' [(''10.0.0.1'', \<lparr>vi_limiter = 4, vi_lastSeen = 0\<rparr>)])) \<le> maxVisitors"
  using visitors_bounded[of "[(''10.0.0.1'', \<lparr>vi_limiter = 4, vi_lastSeen = 0\<rparr>)]" "''10.0.0.2''" five_requests 1] by (simp add: maxVisitors_def)

end
