(* ===== verification/Accounts.thy ===== *)
theory Accounts
  imports Access
begin

text \<open>
  Accounts and sign-in (\<open>internal/auth\<close>): lockout, passwords, time-based codes, recovery codes, session tokens, password
  reset, and the handler that changes a password.

  The tables are lists of rows.  \<open>crypto\<close> holds the functions of the libraries: bcrypt, SHA-256, the code check of the TOTP library
  for one time step, the random generator (its \<open>i\<close>-th value) and the tokens.  A handler is split where it has read the row
  of the user: what follows works on the row as it was read, and requests that run at the same time may come between.
\<close>

section \<open>The tables\<close>

record account =
  us_id :: int
  us_username :: string
  us_email :: string
  us_hash :: string
  us_role :: string
  us_org :: "int option"
  us_i3x :: bool
  us_failed :: int
  us_locked :: "gotime option"
  us_totpEnabled :: bool
  us_totpSecret :: "string option"
  us_counter :: "int option"
  us_version :: int
  us_mustChange :: bool

record recovery_code =
  rc_id :: int
  rc_user :: int
  rc_hash :: string
  rc_used :: bool

record reset_token =
  rt_id :: int
  rt_user :: int
  rt_digest :: string
  rt_expires :: gotime
  rt_used :: bool

record oauth_client =
  oc_id :: string
  oc_secretHash :: "string option"
  oc_name :: string
  oc_uris :: string
  oc_scope :: string

record auth_code =
  cd_hash :: string
  cd_client :: string
  cd_user :: int
  cd_redirect :: string
  cd_scope :: string
  cd_challenge :: string
  cd_method :: string
  cd_expires :: gotime
  cd_consumed :: bool

record refresh_token =
  rf_hash :: string
  rf_client :: string
  rf_user :: int
  rf_scope :: string
  rf_expires :: gotime
  rf_revoked :: "gotime option"

record auth_db =
  db_users :: "account list"
  db_mfaOrgs :: "int list"
  db_recovery :: "recovery_code list"
  db_resets :: "reset_token list"
  db_clients :: "oauth_client list"
  db_codes :: "auth_code list"
  db_refresh :: "refresh_token list"
  db_drawn :: nat

record crypto =
  cy_go :: go_impl
  cy_jwt :: jwt
  cy_bcryptOk :: "string \<Rightarrow> string \<Rightarrow> bool"
  cy_bcrypt :: "string \<Rightarrow> string option"
  cy_sha :: "string \<Rightarrow> string"
  cy_totp :: "string \<Rightarrow> string \<Rightarrow> int \<Rightarrow> bool"
  cy_random :: "nat \<Rightarrow> string"

definition user_by_id :: "auth_db \<Rightarrow> int \<Rightarrow> account option" where
  "user_by_id db i = find (\<lambda>u. us_id u = i) (db_users db)"

definition user_by_name :: "auth_db \<Rightarrow> string \<Rightarrow> account option" where
  "user_by_name db n = find (\<lambda>u. us_username u = n) (db_users db)"

definition update_user :: "int \<Rightarrow> (account \<Rightarrow> account) \<Rightarrow> auth_db \<Rightarrow> auth_db" where
  "update_user i f db = db\<lparr>db_users := map (\<lambda>u. if us_id u = i then f u else u) (db_users db)\<rparr>"

section \<open>Lockout\<close>

definition maxFailedLogins :: int where "maxFailedLogins = 5"
definition lockoutDuration :: duration where "lockoutDuration = 30 * Minute"

definition registerFailedLogin :: "gotime \<Rightarrow> int \<Rightarrow> int \<Rightarrow> auth_db \<Rightarrow> auth_db" where
  "registerFailedLogin now userID currentCount db =
     (let newCount = currentCount + 1
      in if newCount \<ge> maxFailedLogins
         then update_user userID (\<lambda>u. u\<lparr>us_failed := newCount, us_locked := Some (now + lockoutDuration)\<rparr>) db
         else update_user userID (\<lambda>u. u\<lparr>us_failed := newCount\<rparr>) db)"

definition clearLockoutState :: "int \<Rightarrow> auth_db \<Rightarrow> auth_db" where
  "clearLockoutState userID = update_user userID (\<lambda>u. u\<lparr>us_failed := 0, us_locked := None\<rparr>)"

definition checkLockout :: "gotime \<Rightarrow> gotime option \<Rightarrow> bool" where
  "checkLockout now lockedUntil = (case lockedUntil of None \<Rightarrow> False | Some t \<Rightarrow> t > now)"

section \<open>Tokens\<close>

definition go_int :: "int \<Rightarrow> go_value" where
  "go_int i = VInt (of_int i)"

definition put_org :: "int option \<Rightarrow> claims \<Rightarrow> claims" where
  "put_org org c = (case org of None \<Rightarrow> c | Some i \<Rightarrow> (''org_id'', go_int i) # c)"

definition put_confinement :: "bool \<Rightarrow> claims \<Rightarrow> claims" where
  "put_confinement must c = (if must then (PasswordChangeClaim, VBool True) # c else c)"

text \<open>The version and the confinement are read anew; a user deleted meanwhile reads as 0 and false.\<close>

definition tokenVersion :: "auth_db \<Rightarrow> int \<Rightarrow> int" where
  "tokenVersion db i = (case user_by_id db i of Some u \<Rightarrow> us_version u | None \<Rightarrow> 0)"

definition mustChangePassword :: "auth_db \<Rightarrow> int \<Rightarrow> bool" where
  "mustChangePassword db i = (case user_by_id db i of Some u \<Rightarrow> us_mustChange u | None \<Rightarrow> False)"

definition session_claims :: "gotime \<Rightarrow> auth_db \<Rightarrow> account \<Rightarrow> claims" where
  "session_claims now db u =
     put_confinement (mustChangePassword db (us_id u)) (put_org (us_org u)
       [(''user_id'', go_int (us_id u)), (''username'', VString (us_username u)), (''role'', VString (us_role u)),
        (''i3x_write'', VBool (us_i3x u)), (''exp'', VInt64 (of_int (Unix (now + 24 * Hour)))),
        (''token_version'', go_int (tokenVersion db (us_id u)))])"

definition generateToken :: "crypto \<Rightarrow> gotime \<Rightarrow> auth_db \<Rightarrow> account \<Rightarrow> string" where
  "generateToken Y now db u = jwt_Sign (cy_jwt Y) (session_claims now db u)"

definition mfa_claims :: "gotime \<Rightarrow> int \<Rightarrow> claims" where
  "mfa_claims now userID =
     [(''user_id'', go_int userID), (''mfa_step'', VBool True), (''exp'', VInt64 (of_int (Unix (now + 5 * Minute))))]"

definition generateMFAToken :: "crypto \<Rightarrow> gotime \<Rightarrow> int \<Rightarrow> string" where
  "generateMFAToken Y now userID = jwt_Sign (cy_jwt Y) (mfa_claims now userID)"

definition setup_claims :: "gotime \<Rightarrow> int \<Rightarrow> string \<Rightarrow> claims" where
  "setup_claims now userID username =
     [(''user_id'', go_int userID), (''username'', VString username), (''mfa_setup'', VBool True),
      (''exp'', VInt64 (of_int (Unix (now + 10 * Minute))))]"

definition generateMFASetupToken :: "crypto \<Rightarrow> gotime \<Rightarrow> int \<Rightarrow> string \<Rightarrow> string" where
  "generateMFASetupToken Y now userID username = jwt_Sign (cy_jwt Y) (setup_claims now userID username)"

definition ParseMFASetupToken :: "crypto \<Rightarrow> gotime \<Rightarrow> string \<Rightarrow> (int \<times> string) option" where
  "ParseMFASetupToken Y now tok =
     (case jwt_Verify (cy_jwt Y) now tok of
        None \<Rightarrow> None
      | Some c \<Rightarrow>
          (if \<not> claim_true c ''mfa_setup'' then None
           else case claim_number c ''user_id'' of
             None \<Rightarrow> None
           | Some f \<Rightarrow> if f64_le f 0 then None
                        else Some (to_int64 (cy_go Y) f, case claim_string c ''username'' of Some s \<Rightarrow> s | None \<Rightarrow> '''')))"

section \<open>The password stage\<close>

datatype login_result =
    LoginError string
  | SetupRequired string
  | CodeRequired string
  | LoggedIn string int

definition invalid_credentials :: login_result where
  "invalid_credentials = LoginError ''invalid credentials''"

definition account_locked :: login_result where
  "account_locked = LoginError ''account bloccato''"

text \<open>What follows the query of the user; \<open>policyFails\<close> is a failing query of the organization's policy.\<close>

definition login_with :: "crypto \<Rightarrow> gotime \<Rightarrow> bool \<Rightarrow> string \<Rightarrow> account \<Rightarrow> auth_db \<Rightarrow> auth_db \<times> login_result" where
  "login_with Y now policyFails password u db =
     (if checkLockout now (us_locked u) then (db, account_locked)
      else if \<not> cy_bcryptOk Y (us_hash u) password then (registerFailedLogin now (us_id u) (us_failed u) db, invalid_credentials)
      else if \<not> us_totpEnabled u \<and> us_org u \<noteq> None \<and> policyFails then (db, LoginError ''failed to verify org MFA policy'')
      else if \<not> us_totpEnabled u \<and> (\<exists>i \<in> set (db_mfaOrgs db). us_org u = Some i)
        then (db, SetupRequired (generateMFASetupToken Y now (us_id u) (us_username u)))
      else if us_totpEnabled u \<and> us_totpSecret u \<noteq> None \<and> us_totpSecret u \<noteq> Some ''''
        then (db, CodeRequired (generateMFAToken Y now (us_id u)))
      else let db = clearLockoutState (us_id u) db in (db, LoggedIn (generateToken Y now db u) (us_id u)))"

definition LoginWithMeta :: "crypto \<Rightarrow> gotime \<Rightarrow> bool \<Rightarrow> string \<Rightarrow> string \<Rightarrow> auth_db \<Rightarrow> auth_db \<times> login_result" where
  "LoginWithMeta Y now policyFails username password db =
     (case user_by_name db username of
        None \<Rightarrow> (db, invalid_credentials)
      | Some u \<Rightarrow> login_with Y now policyFails password u db)"

section \<open>The code stage\<close>

definition totpPeriod :: duration where "totpPeriod = 30 * Second"
definition totpSkew :: int where "totpSkew = 1"

text \<open>The time step, among the three around the present, whose code it is.\<close>

definition validateTOTPWithCounter :: "crypto \<Rightarrow> gotime \<Rightarrow> string \<Rightarrow> string \<Rightarrow> int option" where
  "validateTOTPWithCounter Y now secret code =
     (if secret = '''' \<or> code = '''' then None
      else find (cy_totp Y secret code) (map (\<lambda>d. Unix now div 30 + d) [- totpSkew..totpSkew]))"

definition mark_used :: "int \<Rightarrow> auth_db \<Rightarrow> auth_db" where
  "mark_used i db = db\<lparr>db_recovery := map (\<lambda>c. if rc_id c = i then c\<lparr>rc_used := True\<rparr> else c) (db_recovery db)\<rparr>"

definition code_error :: login_result where
  "code_error = LoginError ''codice MFA non valido''"

definition finish_login :: "crypto \<Rightarrow> gotime \<Rightarrow> account \<Rightarrow> int option \<Rightarrow> auth_db \<Rightarrow> auth_db \<times> login_result" where
  "finish_login Y now u counter db =
     (let db = clearLockoutState (us_id u) db;
          db = (case counter of Some c \<Rightarrow> update_user (us_id u) (\<lambda>u. u\<lparr>us_counter := Some c\<rparr>) db | None \<Rightarrow> db)
      in (db, LoggedIn (generateToken Y now db u) (us_id u)))"

definition mfa_with :: "crypto \<Rightarrow> gotime \<Rightarrow> string \<Rightarrow> account \<Rightarrow> auth_db \<Rightarrow> auth_db \<times> login_result" where
  "mfa_with Y now code u db =
     (if checkLockout now (us_locked u) then (db, account_locked)
      else case validateTOTPWithCounter Y now (the (us_totpSecret u)) code of
        Some counter \<Rightarrow>
          (if (case us_counter u of Some l \<Rightarrow> counter \<le> l | None \<Rightarrow> False)
           then (registerFailedLogin now (us_id u) (us_failed u) db, code_error)
           else finish_login Y now u (Some counter) db)
      | None \<Rightarrow>
          (case find (\<lambda>c. rc_user c = us_id u \<and> \<not> rc_used c \<and> cy_bcryptOk Y (rc_hash c) code) (db_recovery db) of
             None \<Rightarrow> (registerFailedLogin now (us_id u) (us_failed u) db, code_error)
           | Some c \<Rightarrow> finish_login Y now u None (mark_used (rc_id c) db)))"

text \<open>The user a token of the password stage stands for; a row without secret does not scan.\<close>

definition mfa_user :: "crypto \<Rightarrow> gotime \<Rightarrow> string \<Rightarrow> auth_db \<Rightarrow> string + account" where
  "mfa_user Y now mfaToken db =
     (case jwt_Verify (cy_jwt Y) now mfaToken of
        None \<Rightarrow> Inl ''invalid or expired MFA token''
      | Some c \<Rightarrow>
          (if \<not> claim_true c ''mfa_step'' then Inl ''not an MFA step token''
           else case claim_number c ''user_id'' of
             None \<Rightarrow> Inl ''invalid MFA token: missing user_id''
           | Some f \<Rightarrow>
               (if f64_eq f 0 then Inl ''invalid MFA token: missing user_id''
                else case user_by_id db (to_int64 (cy_go Y) f) of
                  None \<Rightarrow> Inl ''user not found or MFA not enabled''
                | Some u \<Rightarrow> if us_totpEnabled u \<and> us_totpSecret u \<noteq> None then Inr u else Inl ''user not found or MFA not enabled'')))"

definition CompleteMFALogin :: "crypto \<Rightarrow> gotime \<Rightarrow> string \<Rightarrow> string \<Rightarrow> auth_db \<Rightarrow> auth_db \<times> login_result" where
  "CompleteMFALogin Y now mfaToken code db =
     (case mfa_user Y now mfaToken db of Inl e \<Rightarrow> (db, LoginError e) | Inr u \<Rightarrow> mfa_with Y now code u db)"

section \<open>Enrollment\<close>

text \<open>Eight new recovery codes; \<open>show\<close> prints the random bytes, and a code that bcrypt refuses ends the loop.\<close>

fun new_codes :: "crypto \<Rightarrow> int \<Rightarrow> nat \<Rightarrow> auth_db \<Rightarrow> auth_db \<times> string list option" where
  "new_codes Y userID 0 db = (db, Some [])"
| "new_codes Y userID (Suc n) db =
     (let plain = cy_random Y (db_drawn db); db = db\<lparr>db_drawn := db_drawn db + 1\<rparr>
      in case cy_bcrypt Y plain of
           None \<Rightarrow> (db, None)
         | Some h \<Rightarrow>
             (let row = \<lparr>rc_id = 1 + fold max (map rc_id (db_recovery db)) 0, rc_user = userID, rc_hash = h, rc_used = False\<rparr>
              in case new_codes Y userID n (db\<lparr>db_recovery := db_recovery db @ [row]\<rparr>) of
                   (db, r) \<Rightarrow> (db, map_option ((#) plain) r)))"

definition GenerateRecoveryCodes :: "crypto \<Rightarrow> int \<Rightarrow> auth_db \<Rightarrow> auth_db \<times> string list option" where
  "GenerateRecoveryCodes Y userID db =
     new_codes Y userID 8 (db\<lparr>db_recovery := filter (\<lambda>c. rc_user c \<noteq> userID) (db_recovery db)\<rparr>)"

definition beginTOTPEnrollment :: "string \<Rightarrow> int \<Rightarrow> auth_db \<Rightarrow> auth_db \<times> nat" where
  "beginTOTPEnrollment secret userID db =
     (case user_by_id db userID of
        None \<Rightarrow> (db, 404)
      | Some u \<Rightarrow> if us_totpEnabled u then (db, 409)
                  else (update_user userID (\<lambda>u. u\<lparr>us_totpSecret := Some secret, us_totpEnabled := False\<rparr>) db, 200))"

definition CompleteMFAEnrollment :: "crypto \<Rightarrow> gotime \<Rightarrow> string \<Rightarrow> string \<Rightarrow> auth_db \<Rightarrow> auth_db \<times> login_result" where
  "CompleteMFAEnrollment Y now setupToken code db =
     (case ParseMFASetupToken Y now setupToken of
        None \<Rightarrow> (db, LoginError ''invalid or expired setup token'')
      | Some (userID, _) \<Rightarrow>
          (case user_by_id db userID of
             None \<Rightarrow> (db, LoginError ''user not found'')
           | Some u \<Rightarrow>
               (if us_totpEnabled u then (db, LoginError ''MFA is already enabled: sign in again'')
                else if us_totpSecret u = None \<or> us_totpSecret u = Some '''' then (db, LoginError ''start the enrollment first'')
                else if checkLockout now (us_locked u) then (db, account_locked)
                else case validateTOTPWithCounter Y now (the (us_totpSecret u)) code of
                  None \<Rightarrow> (registerFailedLogin now (us_id u) (us_failed u) db, LoginError ''invalid code'')
                | Some counter \<Rightarrow>
                    (case GenerateRecoveryCodes Y (us_id u)
                            (update_user (us_id u) (\<lambda>u. u\<lparr>us_totpEnabled := True, us_counter := Some counter\<rparr>) db) of
                       (db, None) \<Rightarrow> (db, LoginError ''bcrypt'')
                     | (db, Some codes) \<Rightarrow>
                         (let db = clearLockoutState (us_id u) db in (db, LoggedIn (generateToken Y now db u) (us_id u)))))))"

definition MFAEnable :: "crypto \<Rightarrow> gotime \<Rightarrow> int \<Rightarrow> string \<Rightarrow> auth_db \<Rightarrow> auth_db \<times> nat" where
  "MFAEnable Y now userID code db =
     (case Option.bind (user_by_id db userID) us_totpSecret of
        None \<Rightarrow> (db, 400)
      | Some secret \<Rightarrow>
          (if list_all (\<lambda>d. \<not> cy_totp Y secret code (Unix now div 30 + d)) [- 1..1] then (db, 401)
           else (fst (GenerateRecoveryCodes Y userID (update_user userID (\<lambda>u. u\<lparr>us_totpEnabled := True\<rparr>) db)), 200)))"

definition MFADisable :: "crypto \<Rightarrow> int \<Rightarrow> string \<Rightarrow> auth_db \<Rightarrow> auth_db \<times> nat" where
  "MFADisable Y userID password db =
     (case user_by_id db userID of
        None \<Rightarrow> (db, 500)
      | Some u \<Rightarrow>
          (if \<not> cy_bcryptOk Y (us_hash u) password then (db, 401)
           else let db = update_user userID (\<lambda>u. u\<lparr>us_totpEnabled := False, us_totpSecret := None\<rparr>) db
                in (db\<lparr>db_recovery := filter (\<lambda>c. rc_user c \<noteq> userID) (db_recovery db)\<rparr>, 200)))"

section \<open>Passwords\<close>

definition MinPasswordLength :: nat where "MinPasswordLength = 12"

text \<open>The number of runes of a text: the bytes that do not continue one; this is exact for valid UTF-8.\<close>

definition rune_count :: "string \<Rightarrow> nat" where
  "rune_count s = length (filter (\<lambda>c. \<not> (128 \<le> (of_char c :: nat) \<and> (of_char c :: nat) < 192)) s)"

definition ValidatePassword :: "string \<Rightarrow> bool" where
  "ValidatePassword pw \<longleftrightarrow> MinPasswordLength \<le> rune_count pw"

definition retire :: "string \<Rightarrow> account \<Rightarrow> account" where
  "retire hash u = u\<lparr>us_hash := hash, us_version := us_version u + 1, us_mustChange := False\<rparr>"

definition drop_refresh :: "int \<Rightarrow> auth_db \<Rightarrow> auth_db" where
  "drop_refresh i db = db\<lparr>db_refresh := filter (\<lambda>t. rf_user t \<noteq> i) (db_refresh db)\<rparr>"

definition RequestPasswordReset :: "crypto \<Rightarrow> gotime \<Rightarrow> string \<Rightarrow> auth_db \<Rightarrow> auth_db \<times> (string \<times> string) option" where
  "RequestPasswordReset Y now name db =
     (case find (\<lambda>u. us_email u = name \<and> name \<noteq> '''' \<or> us_username u = name) (db_users db) of
        None \<Rightarrow> (db, None)
      | Some u \<Rightarrow>
          (if us_email u = '''' then (db, None)
           else let token = cy_random Y (db_drawn db);
                    row = \<lparr>rt_id = 1 + fold max (map rt_id (db_resets db)) 0, rt_user = us_id u, rt_digest = cy_sha Y token,
                           rt_expires = now + Hour, rt_used = False\<rparr>
                in (db\<lparr>db_drawn := db_drawn db + 1, db_resets := db_resets db @ [row]\<rparr>, Some (us_email u, token))))"

definition find_reset :: "crypto \<Rightarrow> gotime \<Rightarrow> string \<Rightarrow> auth_db \<Rightarrow> reset_token option" where
  "find_reset Y now token db = find (\<lambda>t. rt_digest t = cy_sha Y token \<and> \<not> rt_used t \<and> now < rt_expires t) (db_resets db)"

text \<open>The transaction, which takes effect as a whole.\<close>

definition reset_tx :: "string \<Rightarrow> reset_token \<Rightarrow> auth_db \<Rightarrow> auth_db" where
  "reset_tx hash t db =
     (let db = update_user (rt_user t) (\<lambda>u. (retire hash u)\<lparr>us_failed := 0, us_locked := None\<rparr>) db;
          db = db\<lparr>db_resets := map (\<lambda>r. if rt_id r = rt_id t then r\<lparr>rt_used := True\<rparr> else r) (db_resets db)\<rparr>;
          db = db\<lparr>db_resets := filter (\<lambda>r. \<not> (rt_user r = rt_user t \<and> rt_id r \<noteq> rt_id t)) (db_resets db)\<rparr>
      in drop_refresh (rt_user t) db)"

definition ResetPassword :: "crypto \<Rightarrow> gotime \<Rightarrow> string \<Rightarrow> string \<Rightarrow> auth_db \<Rightarrow> auth_db \<times> string option" where
  "ResetPassword Y now token newPassword db =
     (if length newPassword < 6 then (db, Some ''password must be at least 6 characters'')
      else case find_reset Y now token db of
        None \<Rightarrow> (db, Some ''token is invalid or has expired'')
      | Some t \<Rightarrow>
          (case cy_bcrypt Y newPassword of
             None \<Rightarrow> (db, Some ''failed to hash password'')
           | Some hash \<Rightarrow> (reset_tx hash t db, None)))"

definition ChangePassword :: "crypto \<Rightarrow> gotime \<Rightarrow> int \<Rightarrow> string \<Rightarrow> string \<Rightarrow> auth_db \<Rightarrow> auth_db \<times> nat \<times> string option" where
  "ChangePassword Y now userID oldPassword newPassword db =
     (if \<not> ValidatePassword newPassword then (db, 400, None)
      else case user_by_id db userID of
        None \<Rightarrow> (db, 404, None)
      | Some u \<Rightarrow>
          (if \<not> cy_bcryptOk Y (us_hash u) oldPassword then (db, 401, None)
           else case cy_bcrypt Y newPassword of
             None \<Rightarrow> (db, 500, None)
           | Some hash \<Rightarrow>
               (let db = drop_refresh userID (update_user userID (retire hash) db)
                in (db, 200, map_option (generateToken Y now db) (user_by_id db userID)))))"

section \<open>What a request of a session finds\<close>

definition version_lookup :: "auth_db \<Rightarrow> int \<Rightarrow> version_lookup" where
  "version_lookup db i = (case user_by_id db i of None \<Rightarrow> UserGone | Some u \<Rightarrow> Version (us_version u))"

end
