(* ===== verification/OAuth.thy ===== *)
theory OAuth
  imports Accounts
begin

text \<open>
  The OAuth authorization server (\<open>internal/handlers/oauth.go\<close>): registration of clients, the sign-in that issues a
  code, the token endpoint, and revocation.

  The token endpoint is a program counter that stops before every statement of the database, so that requests
  which run at the same time interleave statement by statement.  The other handlers change the tables in one statement and
  are one step.  Every statement may fail.  \<open>url.Parse\<close> is a parameter of which only scheme, host and
  fragment are used; building the target of a redirect from a parsed URI is left as the URI and the parameters set in it.
\<close>

record url =
  ur_Scheme :: string
  ur_Hostname :: string
  ur_Fragment :: string

record oauth_env =
  oe_crypto :: crypto
  oe_url :: "string \<Rightarrow> url option"
  oe_issuer :: string

section \<open>Scopes\<close>

definition ScopeRead :: string where "ScopeRead = ''openedge:read''"
definition ScopeWrite :: string where "ScopeWrite = ''openedge:write''"

fun join_words :: "string list \<Rightarrow> string" where
  "join_words [] = ''''"
| "join_words [w] = w"
| "join_words (w # ws) = w @ '' '' @ join_words ws"

fun restrict_loop :: "string list \<Rightarrow> string list \<Rightarrow> string list \<Rightarrow> string list option" where
  "restrict_loop allowed [] out = Some out"
| "restrict_loop allowed (s # ss) out =
     (if s \<notin> set allowed then None
      else if s \<in> set out then restrict_loop allowed ss out else restrict_loop allowed ss (out @ [s]))"

definition restrictScope :: "string \<Rightarrow> string \<Rightarrow> string option" where
  "restrictScope requested allowed =
     (case restrict_loop (Fields allowed) (Fields requested) [] of
        None \<Rightarrow> None
      | Some out \<Rightarrow> if out = [] then None else Some (join_words out))"

definition normalizeScope :: "string \<Rightarrow> string" where
  "normalizeScope requested =
     (let all = ScopeRead @ '' '' @ ScopeWrite
      in case restrictScope requested all of
           None \<Rightarrow> all
         | Some granted \<Rightarrow> if granted = '''' then all else granted)"

section \<open>Registration\<close>

definition isLoopbackHost :: "string \<Rightarrow> bool" where
  "isLoopbackHost host \<longleftrightarrow> host \<in> {''localhost'', ''127.0.0.1'', ''::1'', ''[::1]''}"

definition validateRedirectURI :: "oauth_env \<Rightarrow> string \<Rightarrow> bool" where
  "validateRedirectURI E raw =
     (case oe_url E raw of
        None \<Rightarrow> False
      | Some u \<Rightarrow>
          (if ur_Scheme u = '''' then False
           else if ur_Fragment u \<noteq> '''' \<or> CHR ''#'' \<in> set raw then False
           else if ur_Scheme u = ''https'' then True
           else if ur_Scheme u = ''http'' then isLoopbackHost (ur_Hostname u)
           else CHR ''.'' \<in> set (ur_Scheme u)))"

record registration =
  rg_ClientName :: string
  rg_RedirectURIs :: "string list"
  rg_AuthMethod :: string
  rg_Scope :: string

definition newline :: char where "newline = CHR 0x0A"

fun join_newline :: "string list \<Rightarrow> string" where
  "join_newline [] = ''''"
| "join_newline [w] = w"
| "join_newline (w # ws) = w @ newline # join_newline ws"

definition draw :: "oauth_env \<Rightarrow> auth_db \<Rightarrow> string" where
  "draw E db = cy_random (oe_crypto E) (db_drawn db)"

definition drawn :: "nat \<Rightarrow> auth_db \<Rightarrow> auth_db" where
  "drawn n db = db\<lparr>db_drawn := db_drawn db + n\<rparr>"

definition clip :: "nat \<Rightarrow> string \<Rightarrow> string" where
  "clip n s = (if n < length s then take n s else s)"

text \<open>The answer is the new client's id, its secret and its scope.\<close>

definition Register :: "oauth_env \<Rightarrow> bool \<Rightarrow> registration \<Rightarrow> auth_db \<Rightarrow> auth_db \<times> ((nat \<times> string) + string \<times> string option \<times> string)" where
  "Register E fails req db =
     (if rg_RedirectURIs req = [] then (db, Inl (400, ''invalid_redirect_uri''))
      else if 10 < length (rg_RedirectURIs req) then (db, Inl (400, ''invalid_redirect_uri''))
      else if \<not> list_all (validateRedirectURI E) (rg_RedirectURIs req) then (db, Inl (400, ''invalid_redirect_uri''))
      else let name = TrimSpace (rg_ClientName req);
               name = clip 120 (if name = '''' then ''Unnamed client'' else name);
               scope = normalizeScope (rg_Scope req);
               clientID = draw E db; db = drawn 1 db;
               public = (rg_AuthMethod req = ''none'');
               secret = (if public then None else Some (draw E db)); db = (if public then db else drawn 1 db)
           in case (case secret of None \<Rightarrow> Some None | Some s \<Rightarrow> map_option Some (cy_bcrypt (oe_crypto E) s)) of
                None \<Rightarrow> (db, Inl (500, ''server_error''))
              | Some hash \<Rightarrow>
                  (if fails \<or> clientID \<in> oc_id ` set (db_clients db) then (db, Inl (500, ''server_error''))
                   else (db\<lparr>db_clients := db_clients db @
                           [\<lparr>oc_id = clientID, oc_secretHash = hash, oc_name = name, oc_uris = join_newline (rg_RedirectURIs req), oc_scope = scope\<rparr>]\<rparr>,
                         Inr (clientID, secret, scope))))"

section \<open>The authorization request\<close>

record authz_request =
  ar_ClientID :: string
  ar_RedirectURI :: string
  ar_State :: string
  ar_Scope :: string
  ar_Challenge :: string
  ar_Method :: string

datatype authz =
    NoRedirect string
  | RedirectError authz_request string
  | Valid authz_request

definition find_client :: "auth_db \<Rightarrow> string \<Rightarrow> oauth_client option" where
  "find_client db i = find (\<lambda>c. oc_id c = i) (db_clients db)"

definition containsExact :: "string list \<Rightarrow> string \<Rightarrow> bool" where
  "containsExact list want \<longleftrightarrow> want \<in> set list"

definition parseAuthzRequest :: "bool \<Rightarrow> (string \<Rightarrow> string) \<Rightarrow> auth_db \<Rightarrow> authz" where
  "parseAuthzRequest fails form db =
     (let val = (\<lambda>k. TrimSpace (form k)); clientID = val ''client_id''
      in if clientID = '''' then NoRedirect ''client_id is required''
         else if fails then NoRedirect ''could not look up the client''
         else case find_client db clientID of
           None \<Rightarrow> NoRedirect ''unknown client''
         | Some c \<Rightarrow>
             (let registered = split_on newline (oc_uris c); asked = val ''redirect_uri''
              in if asked = '''' \<and> length registered \<noteq> 1 then NoRedirect ''redirect_uri is required when a client registers more than one''
                 else let redirectURI = (if asked = '''' then registered ! 0 else asked)
                      in if \<not> containsExact registered redirectURI then NoRedirect ''redirect_uri does not match the ones registered for this client''
                         else let req = \<lparr>ar_ClientID = clientID, ar_RedirectURI = redirectURI, ar_State = val ''state'', ar_Scope = val ''scope'',
                                         ar_Challenge = val ''code_challenge'', ar_Method = val ''code_challenge_method''\<rparr>
                              in if val ''response_type'' \<noteq> ''code'' then RedirectError req ''unsupported_response_type''
                                 else if ar_Challenge req = '''' then RedirectError req ''invalid_request''
                                 else if ar_Method req \<noteq> ''S256'' then RedirectError req ''invalid_request''
                                 else (case restrictScope (if ar_Scope req = '''' then oc_scope c else ar_Scope req) (oc_scope c) of
                                         None \<Rightarrow> RedirectError req ''invalid_scope''
                                       | Some granted \<Rightarrow> Valid (req\<lparr>ar_Scope := granted\<rparr>))))"

datatype authz_answer =
    ErrorPage
  | ConsentPage
  | RedirectTo string "(string \<times> string) list"

definition with_state :: "authz_request \<Rightarrow> (string \<times> string) list \<Rightarrow> (string \<times> string) list" where
  "with_state req ps = (if ar_State req = '''' then ps else ps @ [(''state'', ar_State req)])"

definition redirectError :: "oauth_env \<Rightarrow> authz_request \<Rightarrow> string \<Rightarrow> authz_answer" where
  "redirectError E req code =
     (case oe_url E (ar_RedirectURI req) of
        None \<Rightarrow> ErrorPage
      | Some _ \<Rightarrow> RedirectTo (ar_RedirectURI req) (with_state req [(''error'', code)]))"

definition failAuthz :: "oauth_env \<Rightarrow> authz \<Rightarrow> authz_answer" where
  "failAuthz E a = (case a of
     RedirectError req code \<Rightarrow> if ar_RedirectURI req \<noteq> '''' then redirectError E req code else ErrorPage
   | _ \<Rightarrow> ErrorPage)"

definition Authorize :: "oauth_env \<Rightarrow> bool \<Rightarrow> (string \<Rightarrow> string) \<Rightarrow> auth_db \<Rightarrow> authz_answer" where
  "Authorize E fails form db = (case parseAuthzRequest fails form db of Valid req \<Rightarrow> ConsentPage | a \<Rightarrow> failAuthz E a)"

definition authenticate :: "oauth_env \<Rightarrow> gotime \<Rightarrow> bool \<Rightarrow> (string \<Rightarrow> string) \<Rightarrow> auth_db \<Rightarrow> auth_db \<times> int option" where
  "authenticate E now policyFails form db =
     (case (if form ''mfa_token'' \<noteq> '''' then CompleteMFALogin (oe_crypto E) now (form ''mfa_token'') (form ''mfa_code'') db
            else LoginWithMeta (oe_crypto E) now policyFails (form ''username'') (form ''password'') db) of
        (db, LoggedIn _ userID) \<Rightarrow> (db, Some userID)
      | (db, _) \<Rightarrow> (db, None))"

definition authCodeTTL :: duration where "authCodeTTL = 2 * Minute"
definition accessTokenTTL :: duration where "accessTokenTTL = Hour"
definition refreshTokenTTL :: duration where "refreshTokenTTL = 30 * 24 * Hour"

definition hashToken :: "oauth_env \<Rightarrow> string \<Rightarrow> string" where
  "hashToken E tok = cy_sha (oe_crypto E) tok"

definition issueCode :: "oauth_env \<Rightarrow> gotime \<Rightarrow> bool \<Rightarrow> authz_request \<Rightarrow> int \<Rightarrow> auth_db \<Rightarrow> auth_db \<times> string option" where
  "issueCode E now fails req userID db =
     (let code = draw E db; db = drawn 1 db
      in if fails \<or> hashToken E code \<in> cd_hash ` set (db_codes db) then (db, None)
         else (db\<lparr>db_codes := db_codes db @
                 [\<lparr>cd_hash = hashToken E code, cd_client = ar_ClientID req, cd_user = userID, cd_redirect = ar_RedirectURI req,
                   cd_scope = ar_Scope req, cd_challenge = ar_Challenge req, cd_method = ar_Method req,
                   cd_expires = now + authCodeTTL, cd_consumed = False\<rparr>]\<rparr>, Some code))"

definition Decision :: "oauth_env \<Rightarrow> gotime \<Rightarrow> bool \<times> bool \<times> bool \<Rightarrow> (string \<Rightarrow> string) \<Rightarrow> auth_db \<Rightarrow> auth_db \<times> authz_answer" where
  "Decision E now faults form db =
     (case (faults, parseAuthzRequest (fst faults) form db) of
        ((_, policyFails, fails), Valid req) \<Rightarrow>
          (if form ''action'' \<noteq> ''allow'' then (db, redirectError E req ''access_denied'')
           else case authenticate E now policyFails form db of
             (db, None) \<Rightarrow> (db, ConsentPage)
           | (db, Some userID) \<Rightarrow>
               (case issueCode E now fails req userID db of
                  (db, None) \<Rightarrow> (db, redirectError E req ''server_error'')
                | (db, Some code) \<Rightarrow>
                    (case oe_url E (ar_RedirectURI req) of
                       None \<Rightarrow> (db, redirectError E req ''server_error'')
                     | Some _ \<Rightarrow> (db, RedirectTo (ar_RedirectURI req) (with_state req [(''code'', code)])))))
      | (_, a) \<Rightarrow> (db, failAuthz E a))"

section \<open>The token endpoint\<close>

record token_request =
  tq_grant :: string
  tq_clientID :: string
  tq_secret :: string
  tq_basic :: "(string \<times> string) option"
  tq_code :: string
  tq_verifier :: string
  tq_redirect :: string
  tq_refresh :: string
  tq_scope :: string

datatype token_response =
    TokenError nat string
  | Tokens string string string

text \<open>Where a request stands: the next statement of the database, with the local variables it needs.\<close>

datatype token_pc =
    Start
  | Find string
  | RevokeFamily string int
  | Consume string int string
  | Rotate string int string
  | Issue string int string
  | Store string int string string string
  | Responded token_response

definition verifyPKCE :: "oauth_env \<Rightarrow> string \<Rightarrow> string \<Rightarrow> string \<Rightarrow> bool" where
  "verifyPKCE E verifier challenge meth =
     (if verifier = '''' \<or> meth \<noteq> ''S256'' then False
      else if length verifier < 43 \<or> 128 < length verifier then False
      else cy_sha (oe_crypto E) verifier = challenge)"

definition credentials :: "token_request \<Rightarrow> string \<times> string" where
  "credentials q = (case tq_basic q of Some c \<Rightarrow> c | None \<Rightarrow> (tq_clientID q, tq_secret q))"

definition authenticateClient :: "oauth_env \<Rightarrow> bool \<Rightarrow> token_request \<Rightarrow> auth_db \<Rightarrow> token_response + string" where
  "authenticateClient E fails q db =
     (case credentials q of (clientID, secret) \<Rightarrow>
        if clientID = '''' then Inl (TokenError 401 ''invalid_client'')
        else if fails then Inl (TokenError 500 ''server_error'')
        else case find_client db clientID of
          None \<Rightarrow> Inl (TokenError 401 ''invalid_client'')
        | Some c \<Rightarrow>
            (case oc_secretHash c of
               Some hash \<Rightarrow> if hash \<noteq> '''' \<and> \<not> cy_bcryptOk (oe_crypto E) hash secret then Inl (TokenError 401 ''invalid_client'') else Inr clientID
             | None \<Rightarrow> Inr clientID))"

definition find_code :: "oauth_env \<Rightarrow> token_request \<Rightarrow> auth_db \<Rightarrow> auth_code option" where
  "find_code E q db = find (\<lambda>c. cd_hash c = hashToken E (tq_code q)) (db_codes db)"

definition find_refresh :: "oauth_env \<Rightarrow> token_request \<Rightarrow> auth_db \<Rightarrow> refresh_token option" where
  "find_refresh E q db = find (\<lambda>t. rf_hash t = hashToken E (tq_refresh q)) (db_refresh db)"

text \<open>What follows the query of the code, and of the refresh token.\<close>

definition check_code :: "oauth_env \<Rightarrow> gotime \<Rightarrow> token_request \<Rightarrow> string \<Rightarrow> auth_code \<Rightarrow> token_pc" where
  "check_code E now q clientID c =
     (if cd_consumed c then RevokeFamily (cd_client c) (cd_user c)
      else if cd_client c \<noteq> clientID then Responded (TokenError 400 ''invalid_grant'')
      else if now > cd_expires c then Responded (TokenError 400 ''invalid_grant'')
      else if tq_redirect q \<noteq> '''' \<and> tq_redirect q \<noteq> cd_redirect c then Responded (TokenError 400 ''invalid_grant'')
      else if \<not> verifyPKCE E (tq_verifier q) (cd_challenge c) (cd_method c) then Responded (TokenError 400 ''invalid_grant'')
      else Consume clientID (cd_user c) (cd_scope c))"

definition check_refresh :: "oauth_env \<Rightarrow> gotime \<Rightarrow> token_request \<Rightarrow> string \<Rightarrow> refresh_token \<Rightarrow> token_pc" where
  "check_refresh E now q clientID t =
     (if rf_revoked t \<noteq> None then RevokeFamily (rf_client t) (rf_user t)
      else if rf_client t \<noteq> clientID then Responded (TokenError 400 ''invalid_grant'')
      else if now > rf_expires t then Responded (TokenError 400 ''invalid_grant'')
      else let asked = TrimSpace (tq_scope q)
           in if asked = '''' then Rotate clientID (rf_user t) (rf_scope t)
              else (case restrictScope asked (rf_scope t) of
                      None \<Rightarrow> Responded (TokenError 400 ''invalid_scope'')
                    | Some narrowed \<Rightarrow> Rotate clientID (rf_user t) narrowed))"

definition revoke_where :: "(refresh_token \<Rightarrow> bool) \<Rightarrow> gotime \<Rightarrow> auth_db \<Rightarrow> auth_db" where
  "revoke_where P now db =
     db\<lparr>db_refresh := map (\<lambda>t. if P t \<and> rf_revoked t = None then t\<lparr>rf_revoked := Some now\<rparr> else t) (db_refresh db)\<rparr>"

definition revokeFamily :: "gotime \<Rightarrow> string \<Rightarrow> int \<Rightarrow> auth_db \<Rightarrow> auth_db" where
  "revokeFamily now clientID userID = revoke_where (\<lambda>t. rf_client t = clientID \<and> rf_user t = userID) now"

definition consume :: "string \<Rightarrow> auth_db \<Rightarrow> auth_db \<times> nat" where
  "consume h db =
     (db\<lparr>db_codes := map (\<lambda>c. if cd_hash c = h then c\<lparr>cd_consumed := True\<rparr> else c) (db_codes db)\<rparr>,
      length (filter (\<lambda>c. cd_hash c = h \<and> \<not> cd_consumed c) (db_codes db)))"

definition access_claims :: "oauth_env \<Rightarrow> gotime \<Rightarrow> string \<Rightarrow> string \<Rightarrow> account \<Rightarrow> claims" where
  "access_claims E now clientID scope u =
     put_confinement (us_mustChange u) (put_org (us_org u)
       [(''user_id'', go_int (us_id u)), (''username'', VString (us_username u)), (''role'', VString (us_role u)),
        (''token_version'', go_int (us_version u)), (''scope'', VString scope), (''client_id'', VString clientID),
        (''exp'', VInt64 (of_int (Unix (now + accessTokenTTL)))), (''iat'', VInt64 (of_int (Unix now))), (''iss'', VString (oe_issuer E))])"

fun token_step :: "oauth_env \<Rightarrow> gotime \<Rightarrow> bool \<Rightarrow> token_request \<Rightarrow> token_pc \<Rightarrow> auth_db \<Rightarrow> auth_db \<times> token_pc" where
  "token_step E now fails q Start db =
     (if tq_grant q \<notin> {''authorization_code'', ''refresh_token''} then (db, Responded (TokenError 400 ''unsupported_grant_type''))
      else (db, case authenticateClient E fails q db of Inl r \<Rightarrow> Responded r | Inr clientID \<Rightarrow> Find clientID))"
| "token_step E now fails q (Find clientID) db =
     (db, if tq_grant q = ''authorization_code''
          then (if tq_code q = '''' then Responded (TokenError 400 ''invalid_request'')
                else if fails then Responded (TokenError 500 ''server_error'')
                else case find_code E q db of
                  None \<Rightarrow> Responded (TokenError 400 ''invalid_grant'')
                | Some c \<Rightarrow> check_code E now q clientID c)
          else (if tq_refresh q = '''' then Responded (TokenError 400 ''invalid_request'')
                else if fails then Responded (TokenError 500 ''server_error'')
                else case find_refresh E q db of
                  None \<Rightarrow> Responded (TokenError 400 ''invalid_grant'')
                | Some t \<Rightarrow> check_refresh E now q clientID t))"
| "token_step E now fails q (RevokeFamily clientID userID) db =
     (if fails then db else revokeFamily now clientID userID db, Responded (TokenError 400 ''invalid_grant''))"
| "token_step E now fails q (Consume clientID userID scope) db =
     (if fails then (db, Responded (TokenError 500 ''server_error''))
      else case consume (hashToken E (tq_code q)) db of
        (db, n) \<Rightarrow> (db, if n \<noteq> 1 then Responded (TokenError 400 ''invalid_grant'') else Issue clientID userID scope))"
| "token_step E now fails q (Rotate clientID userID scope) db =
     (if fails then (db, Responded (TokenError 500 ''server_error''))
      else (revoke_where (\<lambda>t. rf_hash t = hashToken E (tq_refresh q)) now db, Issue clientID userID scope))"
| "token_step E now fails q (Issue clientID userID scope) db =
     (if fails then (db, Responded (TokenError 400 ''invalid_grant''))
      else case user_by_id db userID of
        None \<Rightarrow> (db, Responded (TokenError 400 ''invalid_grant''))
      | Some u \<Rightarrow>
          (drawn 1 db, Store clientID userID scope
             (jwt_Sign (cy_jwt (oe_crypto E)) (access_claims E now clientID scope u)) (draw E db)))"
| "token_step E now fails q (Store clientID userID scope access refresh) db =
     (if fails \<or> hashToken E refresh \<in> rf_hash ` set (db_refresh db) \<or> user_by_id db userID = None
      then (db, Responded (TokenError 500 ''server_error''))
      else (db\<lparr>db_refresh := db_refresh db @
              [\<lparr>rf_hash = hashToken E refresh, rf_client = clientID, rf_user = userID, rf_scope = scope,
                rf_expires = now + refreshTokenTTL, rf_revoked = None\<rparr>]\<rparr>, Responded (Tokens access refresh scope)))"
| "token_step E now fails q (Responded r) db = (db, Responded r)"

text \<open>A request served alone: at most five statements.\<close>

fun serve_from :: "nat \<Rightarrow> oauth_env \<Rightarrow> gotime \<Rightarrow> token_request \<Rightarrow> token_pc \<Rightarrow> auth_db \<Rightarrow> auth_db \<times> token_response option" where
  "serve_from n E now q (Responded r) db = (db, Some r)"
| "serve_from 0 E now q pc db = (db, None)"
| "serve_from (Suc n) E now q pc db = (case token_step E now False q pc db of (db, pc) \<Rightarrow> serve_from n E now q pc db)"

definition Token :: "oauth_env \<Rightarrow> gotime \<Rightarrow> token_request \<Rightarrow> auth_db \<Rightarrow> auth_db \<times> token_response option" where
  "Token E now q db = serve_from 5 E now q Start db"

section \<open>Revocation and clean-up\<close>

definition Revoke :: "oauth_env \<Rightarrow> gotime \<Rightarrow> bool \<times> bool \<Rightarrow> token_request \<Rightarrow> string \<Rightarrow> auth_db \<Rightarrow> auth_db" where
  "Revoke E now fails q token db =
     (case authenticateClient E (fst fails) q db of
        Inl _ \<Rightarrow> db
      | Inr clientID \<Rightarrow>
          (if token = '''' \<or> snd fails then db
           else revoke_where (\<lambda>t. rf_hash t = hashToken E token \<and> rf_client t = clientID) now db))"

definition RevokeAuthorization :: "gotime \<Rightarrow> int \<Rightarrow> string \<Rightarrow> auth_db \<Rightarrow> auth_db" where
  "RevokeAuthorization now userID clientID = revokeFamily now clientID userID"

definition oauth_cleanup :: "gotime \<Rightarrow> auth_db \<Rightarrow> auth_db" where
  "oauth_cleanup now db =
     db\<lparr>db_codes := filter (\<lambda>c. \<not> cd_expires c < now - 24 * Hour) (db_codes db),
        db_refresh := filter (\<lambda>t. \<not> (rf_expires t < now - 7 * 24 * Hour \<or>
          (case rf_revoked t of Some r \<Rightarrow> r < now - 7 * 24 * Hour | None \<Rightarrow> False))) (db_refresh db)\<rparr>"

end
