(* ===== verification/Accounts_Properties.thy ===== *)
theory Accounts_Properties
  imports Accounts
begin

text \<open>
  What the sign-in promises: the second factor cannot be left out, five failures lock an account, a time step is
  accepted once, a reset ends the sessions before it; and where requests that run at the same time break it.
\<close>

section \<open>Rows of the table of users\<close>

lemma find_map: "(\<And>x. P (g x) = P x) \<Longrightarrow> find P (map g xs) = map_option g (find P xs)"
  by (induction xs) auto

definition set_row :: "int \<Rightarrow> (account \<Rightarrow> account) \<Rightarrow> account \<Rightarrow> account" where
  "set_row i f u = (if us_id u = i then f u else u)"

lemma users_update: "db_users (update_user i f db) = map (set_row i f) (db_users db)"
  by (simp add: update_user_def set_row_def cong: map_cong)

text \<open>What every change of a sign-in leaves alone.\<close>

definition same_account :: "(account \<Rightarrow> account) \<Rightarrow> bool" where
  "same_account f \<longleftrightarrow> (\<forall>u. us_id (f u) = us_id u \<and> us_username (f u) = us_username u \<and> us_totpSecret (f u) = us_totpSecret u \<and>
     us_totpEnabled (f u) = us_totpEnabled u \<and> us_version (f u) = us_version u \<and> us_hash (f u) = us_hash u)"

lemma same_set_row: "same_account f \<Longrightarrow> same_account (set_row i f)"
  by (simp add: same_account_def set_row_def)

lemma find_users:
  assumes "db_users db' = map g (db_users db)" "same_account g"
  shows "user_by_id db' i = map_option g (user_by_id db i)" "user_by_name db' n = map_option g (user_by_name db n)"
  using assms by (simp_all add: user_by_id_def user_by_name_def find_map same_account_def)

lemmas update_rows = find_users[OF users_update same_set_row]

text \<open>The row a name and an identifier stand for.\<close>

definition is_row :: "auth_db \<Rightarrow> account \<Rightarrow> bool" where
  "is_row db u \<longleftrightarrow> user_by_name db (us_username u) = Some u \<and> user_by_id db (us_id u) = Some u"

lemma user_by_id_eq: "user_by_id db i = Some u \<Longrightarrow> us_id u = i"
  by (auto simp: user_by_id_def find_Some_iff)

lemma is_row_unique: "is_row db u \<Longrightarrow> is_row db v \<Longrightarrow> us_id u = us_id v \<Longrightarrow> u = v"
  unfolding is_row_def by (metis option.inject)

lemma is_row_map:
  assumes "is_row db u" "db_users db' = map g (db_users db)" "same_account g"
  shows "is_row db' (g u)"
  using assms(1) find_users[OF assms(2,3)] assms(3) by (simp add: is_row_def same_account_def)

lemma same_account_simps [simp]:
  "same_account (\<lambda>u. u\<lparr>us_failed := n, us_locked := t\<rparr>)" "same_account (\<lambda>u. u\<lparr>us_failed := n\<rparr>)" "same_account (\<lambda>u. u\<lparr>us_counter := c\<rparr>)"
  by (simp_all add: same_account_def)

section \<open>Attempts to sign in\<close>

datatype attempt = TryPassword gotime string string | TryCode gotime string string

fun try_one :: "crypto \<Rightarrow> attempt \<Rightarrow> auth_db \<Rightarrow> auth_db \<times> login_result" where
  "try_one Y (TryPassword now name pw) db = LoginWithMeta Y now False name pw db"
| "try_one Y (TryCode now tok code) db = CompleteMFALogin Y now tok code db"

fun attempts :: "crypto \<Rightarrow> attempt list \<Rightarrow> auth_db \<Rightarrow> auth_db \<times> login_result list" where
  "attempts Y [] db = (db, [])"
| "attempts Y (a # xs) db = (case try_one Y a db of (db, r) \<Rightarrow> case attempts Y xs db of (db, rs) \<Rightarrow> (db, r # rs))"

fun time_of :: "attempt \<Rightarrow> gotime" where
  "time_of (TryPassword now name pw) = now"
| "time_of (TryCode now tok code) = now"

text \<open>An attempt at one account: its name, or a token of its password stage.\<close>

fun aimed :: "crypto \<Rightarrow> account \<Rightarrow> attempt \<Rightarrow> bool" where
  "aimed Y u (TryPassword now name pw) \<longleftrightarrow> name = us_username u"
| "aimed Y u (TryCode now tok code) \<longleftrightarrow> (\<forall>now db v. mfa_user Y now tok db = Inr v \<longrightarrow> us_id v = us_id u)"

definition refused :: "login_result \<Rightarrow> bool" where
  "refused r \<longleftrightarrow> (\<exists>e. r = LoginError e)"

lemma mfa_user_row: "mfa_user Y now tok db = Inr u \<Longrightarrow> user_by_id db (us_id u) = Some u"
  by (auto simp: mfa_user_def user_by_id_eq split: option.splits if_splits)

section \<open>Lockout\<close>

definition fail_row :: "gotime \<Rightarrow> account \<Rightarrow> account" where
  "fail_row now u = (if us_failed u + 1 \<ge> maxFailedLogins
     then u\<lparr>us_failed := us_failed u + 1, us_locked := Some (now + lockoutDuration)\<rparr> else u\<lparr>us_failed := us_failed u + 1\<rparr>)"

lemma registerFailedLogin_row:
  "is_row db u \<Longrightarrow> is_row (registerFailedLogin now (us_id u) (us_failed u) db) (fail_row now u)"
  by (auto simp: registerFailedLogin_def fail_row_def is_row_def update_rows set_row_def Let_def)

definition failed :: "login_result \<Rightarrow> bool" where
  "failed r \<longleftrightarrow> r = invalid_credentials \<or> r = code_error"

lemma failed_simps [simp]:
  "failed invalid_credentials" "failed code_error" "\<not> failed account_locked" "\<not> failed (SetupRequired t)" "\<not> failed (CodeRequired t)"
  "\<not> failed (LoggedIn t i)" "failed (LoginError e) \<longleftrightarrow> e = ''invalid credentials'' \<or> e = ''codice MFA non valido''"
  by (auto simp: failed_def invalid_credentials_def code_error_def account_locked_def)

lemma login_with_failed:
  "login_with Y now False pw u db = (db', r) \<Longrightarrow> failed r \<Longrightarrow> db' = registerFailedLogin now (us_id u) (us_failed u) db"
  by (auto simp: login_with_def Let_def split: if_splits)

lemma finish_login_result: "finish_login Y now u c db = (db', r) \<Longrightarrow> \<exists>t. r = LoggedIn t (us_id u)"
  by (auto simp: finish_login_def Let_def)

lemma mfa_with_failed:
  assumes "mfa_with Y now code u db = (db', r)" "failed r"
  shows "db' = registerFailedLogin now (us_id u) (us_failed u) db"
proof -
  have n: "finish_login Y now u c d \<noteq> (db', r)" for c d using finish_login_result assms(2) by fastforce
  show ?thesis
    using assms(1) n assms(2) unfolding mfa_with_def by (cases "checkLockout now (us_locked u)") (simp_all split: option.splits if_splits)
qed

definition token_errors :: "string list" where
  "token_errors = [''invalid or expired MFA token'', ''not an MFA step token'', ''invalid MFA token: missing user_id'', ''user not found or MFA not enabled'']"

lemma mfa_user_errors: "mfa_user Y now tok db = Inl e \<Longrightarrow> e \<in> set token_errors"
  by (force simp: mfa_user_def token_errors_def split: option.splits if_split_asm)

lemma mfa_user_error: "mfa_user Y now tok db = Inl e \<Longrightarrow> \<not> failed (LoginError e)"
proof -
  have "list_all (\<lambda>e. \<not> failed (LoginError e)) token_errors" by (simp add: token_errors_def)
  then show "mfa_user Y now tok db = Inl e \<Longrightarrow> \<not> failed (LoginError e)" using mfa_user_errors by (auto simp: list_all_iff)
qed

lemma aimed_code: "aimed Y u (TryCode now tok code) \<Longrightarrow> is_row db u \<Longrightarrow> mfa_user Y now' tok db = Inr v \<Longrightarrow> v = u"
proof -
  assume a: "aimed Y u (TryCode now tok code)" "is_row db u" "mfa_user Y now' tok db = Inr v"
  then have "us_id v = us_id u" unfolding aimed.simps by blast
  then show "v = u" using a(2) mfa_user_row[OF a(3)] by (simp add: is_row_def)
qed

lemma failed_attempt_counts:
  assumes "is_row db u" "aimed Y u a" "try_one Y a db = (db', r)" "failed r"
  shows "is_row db' (fail_row (time_of a) u)"
proof (cases a)
  case (TryPassword now name pw)
  then have "login_with Y now False pw u db = (db', r)"
    using assms(1-3) by (simp add: is_row_def LoginWithMeta_def)
  then have "db' = registerFailedLogin now (us_id u) (us_failed u) db"
    using assms(4) by (rule login_with_failed)
  then show ?thesis using registerFailedLogin_row[OF assms(1)] TryPassword by simp
next
  case (TryCode now tok code)
  have c: "CompleteMFALogin Y now tok code db = (db', r)" using assms(3) TryCode by simp
  obtain v where v: "mfa_user Y now tok db = Inr v" "mfa_with Y now code v db = (db', r)"
  proof (cases "mfa_user Y now tok db")
    case (Inl e)
    then have "r = LoginError e" using c by (simp add: CompleteMFALogin_def)
    then show thesis using mfa_user_error[OF Inl] assms(4) by blast
  next
    case (Inr v)
    then show thesis using that[OF Inr] c by (simp add: CompleteMFALogin_def)
  qed
  have "v = u" using aimed_code[OF assms(2)[unfolded TryCode] assms(1) v(1)] .
  then have "db' = registerFailedLogin now (us_id u) (us_failed u) db"
    using mfa_with_failed[OF v(2) assms(4)] by simp
  then show ?thesis using registerFailedLogin_row[OF assms(1)] TryCode by simp
qed

lemma fail_row_id [simp]: "us_id (fail_row t u) = us_id u" "us_username (fail_row t u) = us_username u" "us_failed (fail_row t u) = us_failed u + 1"
  by (simp_all add: fail_row_def)

lemma fail_row_locked: "maxFailedLogins \<le> us_failed u + 1 \<Longrightarrow> us_locked (fail_row t u) = Some (t + lockoutDuration)"
  by (simp add: fail_row_def)

lemma aimed_fail [simp]: "aimed Y (fail_row t u) a = aimed Y u a"
  by (cases a) auto

lemma failed_attempts_count:
  assumes "is_row db u" "\<forall>a \<in> set xs. aimed Y u a" "attempts Y xs db = (db', rs)" "\<forall>r \<in> set rs. failed r"
  shows "\<exists>u'. is_row db' u' \<and> us_id u' = us_id u \<and> us_username u' = us_username u \<and> us_failed u' = us_failed u + int (length xs) \<and>
    (xs \<noteq> [] \<and> maxFailedLogins \<le> us_failed u' \<longrightarrow> us_locked u' = Some (time_of (last xs) + lockoutDuration))"
  using assms
proof (induction xs arbitrary: db u rs)
  case (Cons a xs)
  obtain db1 r rs1 where s: "try_one Y a db = (db1, r)" "attempts Y xs db1 = (db', rs1)" "rs = r # rs1"
    using Cons.prems(3) by (auto split: prod.splits)
  have r1: "is_row db1 (fail_row (time_of a) u)"
    by (rule failed_attempt_counts[OF Cons.prems(1) _ s(1)]) (use Cons.prems(2,4) s(3) in auto)
  have p: "\<forall>x \<in> set xs. aimed Y (fail_row (time_of a) u) x" "\<forall>x \<in> set rs1. failed x"
    using Cons.prems(2,4) s(3) by simp_all
  define v where "v = fail_row (time_of a) u"
  from Cons.IH[OF r1 p(1) s(2) p(2), folded v_def]
  obtain u' where u': "is_row db' u'" "us_id u' = us_id v" "us_username u' = us_username v" "us_failed u' = us_failed v + int (length xs)"
    "xs \<noteq> [] \<and> maxFailedLogins \<le> us_failed u' \<longrightarrow> us_locked u' = Some (time_of (last xs) + lockoutDuration)" by blast
  have v: "us_id v = us_id u" "us_username v = us_username u" "us_failed v = us_failed u + 1"
    "maxFailedLogins \<le> us_failed v \<longrightarrow> us_locked v = Some (time_of a + lockoutDuration)"
    by (simp_all add: v_def fail_row_locked)
  show ?case
  proof (cases "xs = []")
    case True
    then have "is_row db' v" using r1 s(2) by (simp add: v_def)
    from is_row_unique[OF u'(1) this u'(2)] have "u' = v" .
    with u'(1) v True show ?thesis by (intro exI[of _ v]) simp
  next
    case False
    then show ?thesis using u' v by (intro exI[of _ u']) simp
  qed
qed auto

lemma locked_attempt:
  assumes "is_row db u" "aimed Y u a" "us_locked u = Some t" "time_of a < t"
  shows "\<exists>e. try_one Y a db = (db, LoginError e)"
proof (cases a)
  case (TryPassword now name pw)
  then show ?thesis using assms by (simp add: is_row_def LoginWithMeta_def login_with_def checkLockout_def account_locked_def)
next
  case (TryCode now tok code)
  show ?thesis
  proof (cases "mfa_user Y now tok db")
    case (Inr v)
    have "v = u" using aimed_code[OF assms(2)[unfolded TryCode] assms(1) Inr] .
    then show ?thesis using Inr TryCode assms(3,4) by (simp add: CompleteMFALogin_def mfa_with_def checkLockout_def account_locked_def)
  qed (simp add: TryCode CompleteMFALogin_def)
qed

text \<open>
C19: after five failures, of the password or of the code, the account is locked: for thirty minutes every attempt is
refused, with the right password and the right code too, and changes nothing.
\<close>

theorem five_failures_lock:
  assumes "is_row db u" "0 \<le> us_failed u" "\<forall>a \<in> set (xs @ ys). aimed Y u a"
    and "attempts Y xs db = (db', rs)" "\<forall>r \<in> set rs. failed r" "5 \<le> length xs"
    and "\<forall>a \<in> set ys. time_of a < time_of (last xs) + 30 * Minute"
  shows "fst (attempts Y ys db') = db' \<and> (\<forall>r \<in> set (snd (attempts Y ys db')). refused r)"
proof -
  obtain u' where u': "is_row db' u'" "us_id u' = us_id u" "us_username u' = us_username u" "us_locked u' = Some (time_of (last xs) + lockoutDuration)"
  proof -
    have "\<forall>a \<in> set xs. aimed Y u a" "xs \<noteq> []" using assms(3,6) by auto
    with failed_attempts_count[OF assms(1) _ assms(4,5)] assms(2,6) that show thesis by (auto simp: maxFailedLogins_def)
  qed
  have aim: "aimed Y u' a" if "aimed Y u a" for a using that u'(2,3) by (cases a) auto
  have "fst (attempts Y zs db') = db' \<and> (\<forall>r \<in> set (snd (attempts Y zs db')). refused r)" if "set zs \<subseteq> set ys" for zs
    using that
  proof (induction zs)
    case (Cons a zs)
    then have "aimed Y u a" "time_of a < time_of (last xs) + lockoutDuration" using assms(3,7) by (auto simp: lockoutDuration_def)
    then obtain e where "try_one Y a db' = (db', LoginError e)" using locked_attempt[OF u'(1) aim u'(4)] by blast
    then show ?case using Cons by (auto simp: refused_def split: prod.splits)
  qed simp
  from this[OF subset_refl] show ?thesis .
qed

section \<open>An instance of the libraries\<close>

text \<open>Passwords hash to themselves, the code of a time step is its number, and the \<open>n\<close>-th random value is a text of length \<open>43 + n\<close>.\<close>

definition some_crypto :: crypto where
  "some_crypto = \<lparr>cy_go = \<lparr>fmt_value = (\<lambda>_. ''''), float_to_int = (\<lambda>_. 0)\<rparr>, cy_jwt = counting_jwt, cy_bcryptOk = (\<lambda>h p. h = p),
     cy_bcrypt = Some, cy_sha = (\<lambda>s. s), cy_totp = (\<lambda>secret code k. code = itoa k), cy_random = (\<lambda>n. replicate (43 + n) (CHR ''r''))\<rparr>"

definition ada :: account where
  "ada = \<lparr>us_id = 7, us_username = ''ada'', us_email = ''ada@plant'', us_hash = ''difference engine'', us_role = ''user'', us_org = Some 3,
     us_i3x = False, us_failed = 0, us_locked = None, us_totpEnabled = False, us_totpSecret = None, us_counter = None,
     us_version = 0, us_mustChange = False\<rparr>"

definition db_of :: "account list \<Rightarrow> auth_db" where
  "db_of us = \<lparr>db_users = us, db_mfaOrgs = [], db_recovery = [], db_resets = [], db_clients = [], db_codes = [], db_refresh = [], db_drawn = 0\<rparr>"

definition noon :: gotime where
  "noon = 63900000000 * Second"

definition guesses :: "attempt list" where
  "guesses = replicate 5 (TryPassword noon ''ada'' ''guess'')"

lemma guesses_fail:
  "is_row (db_of [ada]) ada" "snd (attempts some_crypto guesses (db_of [ada])) = replicate 5 invalid_credentials"
  by (simp_all add: is_row_def db_of_def user_by_name_def user_by_id_def ada_def, code_simp)

theorem five_failures_lock_witness:
  "list_all refused (snd (attempts some_crypto [TryPassword (noon + 29 * Minute) ''ada'' ''difference engine''] (fst (attempts some_crypto guesses (db_of [ada])))))"
proof -
  let ?ys = "[TryPassword (noon + 29 * Minute) ''ada'' ''difference engine'']"
  have aim: "\<forall>a \<in> set (guesses @ ?ys). aimed some_crypto ada a" by (simp add: guesses_def ada_def)
  have run: "attempts some_crypto guesses (db_of [ada]) = (fst (attempts some_crypto guesses (db_of [ada])), replicate 5 invalid_credentials)"
    using guesses_fail(2) by (metis prod.collapse)
  show ?thesis
    unfolding list_all_iff using five_failures_lock[OF guesses_fail(1) _ aim run] by (simp add: ada_def guesses_def Minute_def Second_def)
qed

section \<open>Guesses that arrive at once\<close>

text \<open>Requests whose queries of the user run before any of their updates.\<close>

definition at_once :: "crypto \<Rightarrow> gotime \<Rightarrow> account \<Rightarrow> string list \<Rightarrow> auth_db \<Rightarrow> auth_db" where
  "at_once Y now u pws db = fold (\<lambda>pw db. fst (login_with Y now False pw u db)) pws db"

text \<open>
Every failure writes the count its request has read: any number of guesses whose queries run first cost one
failure together, the account is not locked, and the right password among them is accepted.
\<close>

theorem guesses_at_once:
  assumes "is_row db u" "\<not> checkLockout now (us_locked u)" "us_failed u < 4"
    and "\<forall>pw \<in> set pws. \<not> cy_bcryptOk Y (us_hash u) pw"
  shows "(\<exists>u'. is_row (at_once Y now u pws db) u' \<and> us_id u' = us_id u \<and> us_failed u' \<le> us_failed u + 1 \<and> us_locked u' = us_locked u) \<and>
    (\<forall>pw. cy_bcryptOk Y (us_hash u) pw \<longrightarrow> \<not> refused (snd (login_with Y now False pw u (at_once Y now u pws db))))"
proof -
  have step: "fst (login_with Y now False pw u d) = update_user (us_id u) (\<lambda>v. v\<lparr>us_failed := us_failed u + 1\<rparr>) d" if "pw \<in> set pws" for pw d
    using assms(2,3,4) that by (simp add: login_with_def registerFailedLogin_def maxFailedLogins_def Let_def)
  have "\<exists>u'. is_row (fold (\<lambda>pw db. fst (login_with Y now False pw u db)) qs d) u' \<and> us_id u' = us_id u \<and> us_failed u' \<le> us_failed u + 1 \<and> us_locked u' = us_locked u"
    if "set qs \<subseteq> set pws" "is_row d v" "us_id v = us_id u" "us_failed v \<le> us_failed u + 1" "us_locked v = us_locked u" for qs d v
    using that
  proof (induction qs arbitrary: d v)
    case (Cons p qs)
    have "is_row (fst (login_with Y now False p u d)) (set_row (us_id u) (\<lambda>v. v\<lparr>us_failed := us_failed u + 1\<rparr>) v)"
      using Cons.prems(1) step is_row_map[OF Cons.prems(2) users_update same_set_row[OF same_account_simps(2)]] by simp
    from Cons.IH[OF _ this] Cons.prems show ?case by (simp add: set_row_def)
  qed auto
  from this[OF subset_refl assms(1)] have "\<exists>u'. is_row (at_once Y now u pws db) u' \<and> us_id u' = us_id u \<and> us_failed u' \<le> us_failed u + 1 \<and> us_locked u' = us_locked u"
    by (simp add: at_once_def)
  moreover have "cy_bcryptOk Y (us_hash u) pw \<Longrightarrow> \<not> refused (snd (login_with Y now False pw u d))" for pw d
    using assms(2) by (simp add: login_with_def refused_def Let_def)
  ultimately show ?thesis by blast
qed

theorem guesses_at_once_witness:
  "\<not> refused (snd (login_with some_crypto noon False ''difference engine'' ada (at_once some_crypto noon ada (replicate 1000 ''guess'') (db_of [ada]))))"
proof -
  have "us_failed ada < 4" "\<not> checkLockout noon (us_locked ada)" "\<forall>pw \<in> set (replicate 1000 ''guess''). \<not> cy_bcryptOk some_crypto (us_hash ada) pw"
    and "cy_bcryptOk some_crypto (us_hash ada) ''difference engine''"
    by (simp_all add: ada_def checkLockout_def some_crypto_def)
  then show ?thesis using guesses_at_once[OF guesses_fail(1), of noon "replicate 1000 ''guess''" some_crypto] by blast
qed

section \<open>Time steps\<close>

definition counter_le :: "int option \<Rightarrow> int option \<Rightarrow> bool" where
  "counter_le a b = (case a of None \<Rightarrow> True | Some l \<Rightarrow> (case b of None \<Rightarrow> False | Some m \<Rightarrow> l \<le> m))"

definition later :: "auth_db \<Rightarrow> account \<Rightarrow> account \<Rightarrow> bool" where
  "later db u u' \<longleftrightarrow> is_row db u' \<and> us_id u' = us_id u \<and> us_totpSecret u' = us_totpSecret u \<and> counter_le (us_counter u) (us_counter u')"

lemma counter_le_refl [simp]: "counter_le a a"
  by (simp add: counter_le_def split: option.split)

lemma counter_le_trans: "counter_le a b \<Longrightarrow> counter_le b c \<Longrightarrow> counter_le a c"
  by (auto simp: counter_le_def split: option.splits)

lemma later_refl: "is_row db u \<Longrightarrow> later db u u"
  by (simp add: later_def)

lemma later_trans: "later db u v \<Longrightarrow> later db' v w \<Longrightarrow> later db' u w"
  by (auto simp: later_def intro: counter_le_trans)

lemma later_update:
  assumes "is_row db u" "same_account f" "us_id u = i \<longrightarrow> counter_le (us_counter u) (us_counter (f u))"
  shows "later (update_user i f db) u (set_row i f u)"
  using is_row_map[OF assms(1) users_update same_set_row[OF assms(2)]] assms(2,3)
  by (simp add: later_def set_row_def same_account_def)

lemma later_fail: "is_row db u \<Longrightarrow> \<exists>u'. later (registerFailedLogin now i n db) u u'"
  using later_update[of db u "\<lambda>u. u\<lparr>us_failed := n + 1, us_locked := Some (now + lockoutDuration)\<rparr>" i]
    later_update[of db u "\<lambda>u. u\<lparr>us_failed := n + 1\<rparr>" i]
  by (cases "maxFailedLogins \<le> n + 1") (auto simp: registerFailedLogin_def Let_def)

lemma later_clear: "is_row db u \<Longrightarrow> later (clearLockoutState i db) u (set_row i (\<lambda>u. u\<lparr>us_failed := 0, us_locked := None\<rparr>) u)"
  unfolding clearLockoutState_def by (rule later_update) simp_all

lemma is_row_users: "db_users db' = db_users db \<Longrightarrow> is_row db' u = is_row db u"
  by (simp add: is_row_def user_by_id_def user_by_name_def)

lemma later_finish:
  assumes "is_row db u" "finish_login Y now v c db = (db', r)" "us_id u = us_id v \<longrightarrow> counter_le (us_counter u) c \<or> c = None"
  shows "\<exists>u'. later db' u u' \<and> (us_id u = us_id v \<and> c \<noteq> None \<longrightarrow> us_counter u' = c)"
proof -
  let ?d = "clearLockoutState (us_id v) db"
  let ?u = "set_row (us_id v) (\<lambda>u. u\<lparr>us_failed := 0, us_locked := None\<rparr>) u"
  have l: "later ?d u ?u" by (rule later_clear[OF assms(1)])
  show ?thesis
  proof (cases c)
    case None
    then show ?thesis using l assms(2) by (auto simp: finish_login_def Let_def)
  next
    case (Some k)
    have "us_counter ?u = us_counter u" "us_id ?u = us_id u" by (simp_all add: set_row_def)
    then have "later (update_user (us_id v) (\<lambda>u. u\<lparr>us_counter := Some k\<rparr>) ?d) ?u (set_row (us_id v) (\<lambda>u. u\<lparr>us_counter := Some k\<rparr>) ?u)"
      using l assms(3) Some by (intro later_update) (auto simp: later_def)
    from later_trans[OF l this] show ?thesis
      using assms(2) Some by (auto simp: finish_login_def Let_def set_row_def)
  qed
qed

lemma mfa_with_counter:
  assumes "is_row db u" "mfa_user Y now tok db = Inr v" "mfa_with Y now code v db = (db', r)"
  shows "\<exists>u'. later db' u u' \<and>
    (r = LoggedIn s (us_id u) \<and> validateTOTPWithCounter Y now (the (us_totpSecret u)) code = Some c \<longrightarrow>
       us_counter u' = Some c \<and> (\<forall>l. us_counter u = Some l \<longrightarrow> l < c))"
proof -
  have v: "us_id u = us_id v \<Longrightarrow> v = u" using assms(1) mfa_user_row[OF assms(2)] unfolding is_row_def by (metis option.inject)
  consider (same) "db' = db" "refused r"
    | (fail) "db' = registerFailedLogin now (us_id v) (us_failed v) db" "refused r"
    | (step) k where "validateTOTPWithCounter Y now (the (us_totpSecret v)) code = Some k" "finish_login Y now v (Some k) db = (db', r)"
        "\<forall>l. us_counter v = Some l \<longrightarrow> l < k"
    | (recovery) x where "finish_login Y now v None (mark_used x db) = (db', r)" "validateTOTPWithCounter Y now (the (us_totpSecret v)) code = None"
    using assms(3) by (auto simp: mfa_with_def refused_def account_locked_def code_error_def split: if_splits option.splits)
  then show ?thesis
  proof cases
    case same
    then show ?thesis using later_refl[OF assms(1)] by (auto simp: refused_def)
  next
    case fail
    then show ?thesis using later_fail[OF assms(1)] by (auto simp: refused_def)
  next
    case step
    have "us_id u = us_id v \<longrightarrow> counter_le (us_counter u) (Some k) \<or> Some k = None"
      using step(3) v by (auto simp: counter_le_def split: option.split)
    from later_finish[OF assms(1) step(2) this] finish_login_result[OF step(2)] step(1,3) v show ?thesis by fastforce
  next
    case recovery
    have "is_row (mark_used x db) u" using assms(1) is_row_users[of "mark_used x db" db u] by (simp add: mark_used_def)
    from later_finish[OF this recovery(1)] finish_login_result[OF recovery(1)] recovery(2) v show ?thesis by fastforce
  qed
qed

lemma try_one_later: "is_row db u \<Longrightarrow> try_one Y a db = (db', r) \<Longrightarrow> \<exists>u'. later db' u u'"
proof (cases a)
  case (TryPassword now name pw)
  assume a: "is_row db u" "try_one Y a db = (db', r)"
  show ?thesis
  proof (cases "user_by_name db name")
    case (Some v)
    then have "login_with Y now False pw v db = (db', r)" using a(2) TryPassword by (simp add: LoginWithMeta_def)
    then have "db' = db \<or> db' = registerFailedLogin now (us_id v) (us_failed v) db \<or> db' = clearLockoutState (us_id v) db"
      by (auto simp: login_with_def Let_def split: if_splits)
    then show ?thesis using later_refl[OF a(1)] later_fail[OF a(1)] later_clear[OF a(1)] by blast
  qed (use a TryPassword later_refl in \<open>auto simp: LoginWithMeta_def\<close>)
next
  case (TryCode now tok code)
  assume a: "is_row db u" "try_one Y a db = (db', r)"
  show ?thesis
  proof (cases "mfa_user Y now tok db")
    case (Inr v)
    then have "mfa_with Y now code v db = (db', r)" using a(2) TryCode by (simp add: CompleteMFALogin_def)
    from mfa_with_counter[OF a(1) Inr this, of undefined undefined] show ?thesis by blast
  qed (use a TryCode later_refl in \<open>auto simp: CompleteMFALogin_def\<close>)
qed

lemma attempts_later: "is_row db u \<Longrightarrow> attempts Y xs db = (db', rs) \<Longrightarrow> \<exists>u'. later db' u u'"
proof (induction xs arbitrary: db u rs)
  case (Cons a xs)
  obtain d r rs' where s: "try_one Y a db = (d, r)" "attempts Y xs d = (db', rs')"
    using Cons.prems(2) by (auto split: prod.splits)
  obtain v where v: "later d u v" using try_one_later[OF Cons.prems(1) s(1)] by blast
  then have "is_row d v" by (simp add: later_def)
  from Cons.IH[OF this s(2)] v show ?case by (blast intro: later_trans)
qed (auto intro: later_refl)

lemma code_accepted:
  assumes "is_row db u" "us_totpSecret u = Some secret" "CompleteMFALogin Y now tok code db = (db', LoggedIn s (us_id u))"
    and "validateTOTPWithCounter Y now secret code = Some c"
  shows "\<exists>u'. later db' u u' \<and> us_counter u' = Some c \<and> (\<forall>l. us_counter u = Some l \<longrightarrow> l < c)"
proof -
  obtain v where v: "mfa_user Y now tok db = Inr v" "mfa_with Y now code v db = (db', LoggedIn s (us_id u))"
    using assms(3) by (auto simp: CompleteMFALogin_def split: sum.splits)
  from mfa_with_counter[OF assms(1) v, of s c] assms(2,4) show ?thesis by auto
qed

text \<open>
C22: of attempts that are served one after another, each from its query of the user to its last update, a time step of the second factor
is accepted once: however many attempts at passwords and codes come between two sign-ins by code, the later one is by a code of a
later step, so a code that was accepted before is refused.
\<close>

theorem time_step_once:
  assumes "is_row db u" "us_totpSecret u = Some secret"
    and "CompleteMFALogin Y now tok code db = (db1, LoggedIn s (us_id u))" "validateTOTPWithCounter Y now secret code = Some c"
    and "attempts Y xs db1 = (db2, rs)"
    and "CompleteMFALogin Y now2 tok2 code2 db2 = (db3, LoggedIn s2 (us_id u))" "validateTOTPWithCounter Y now2 secret code2 = Some c2"
  shows "c < c2"
proof -
  obtain u1 where u1: "later db1 u u1" "us_counter u1 = Some c" using code_accepted[OF assms(1-4)] by blast
  then have "is_row db1 u1" by (simp add: later_def)
  from attempts_later[OF this assms(5)] obtain u2 where u2: "later db2 u1 u2" by blast
  have e: "is_row db2 u2" "us_totpSecret u2 = Some secret" "us_id u = us_id u2" using u1 u2 assms(2) by (simp_all add: later_def)
  obtain l where l: "us_counter u2 = Some l" "c \<le> l" using u1(2) u2 by (auto simp: later_def counter_le_def split: option.splits)
  from code_accepted[OF e(1,2) assms(6)[unfolded e(3)] assms(7)] l show ?thesis by auto
qed

text \<open>
Attempts that overlap escape that rule: the step an attempt compares with is the one its query of the user has read, and the update that
burns the step does not look. Whatever a first attempt and others did to the tables since, a second one whose query ran before is signed
in by the same code, and leaves the same step burnt.
\<close>

theorem same_code_at_once:
  assumes "mfa_user Y now tok db = Inr u" "CompleteMFALogin Y now tok code db = (db1, LoggedIn s i)"
    and "validateTOTPWithCounter Y now (the (us_totpSecret u)) code = Some c" "is_row db2 u2" "us_id u2 = i"
  shows "\<exists>s' u'. snd (mfa_with Y now code u db2) = LoggedIn s' i \<and>
    is_row (fst (mfa_with Y now code u db2)) u' \<and> us_id u' = i \<and> us_counter u' = Some c"
proof -
  have m: "mfa_with Y now code u db = (db1, LoggedIn s i)" using assms(1,2) by (simp add: CompleteMFALogin_def)
  then have u: "\<not> checkLockout now (us_locked u)" "\<not> (case us_counter u of Some l \<Rightarrow> c \<le> l | None \<Rightarrow> False)" "i = us_id u"
    using assms(3) by (auto simp: mfa_with_def finish_login_def code_error_def account_locked_def Let_def split: if_splits)
  then have e: "mfa_with Y now code u db2 = finish_login Y now u (Some c) db2" using assms(3) by (simp add: mfa_with_def)
  let ?d = "clearLockoutState i db2" and ?v = "set_row i (\<lambda>u. u\<lparr>us_failed := 0, us_locked := None\<rparr>) u2"
  have "is_row ?d ?v" using later_clear[OF assms(4), of i] by (simp add: later_def)
  from is_row_map[OF this users_update[of i "\<lambda>u. u\<lparr>us_counter := Some c\<rparr>"] same_set_row[OF same_account_simps(3)]]
  have "is_row (update_user i (\<lambda>u. u\<lparr>us_counter := Some c\<rparr>) ?d) (set_row i (\<lambda>u. u\<lparr>us_counter := Some c\<rparr>) ?v)" .
  moreover have "us_id (set_row i (\<lambda>u. u\<lparr>us_counter := Some c\<rparr>) ?v) = i \<and> us_counter (set_row i (\<lambda>u. u\<lparr>us_counter := Some c\<rparr>) ?v) = Some c"
    using assms(5) by (simp add: set_row_def)
  ultimately show ?thesis unfolding e finish_login_def Let_def u(3)[symmetric] by auto
qed

section \<open>What the tokens are good for\<close>

lemma RequireAuth_bearer:
  assumes "hq_header r ''Authorization'' = ''Bearer '' @ t"
  shows "RequireAuth G J look now r cx = (case jwt_Verify J now t of
        None \<Rightarrow> Inl (401, ''Unauthorized: invalid token'')
      | Some claims \<Rightarrow>
          (if claim_true claims ''mfa_step'' then Inl (401, ''Unauthorized: MFA verification required'')
           else if claim_true claims ''mfa_setup'' then Inl (401, ''Unauthorized: MFA enrollment required'')
           else if \<not> tokenVersionCurrent G look claims then Inl (401, ''Unauthorized: session revoked, sign in again'')
           else if \<not> scopeAllowsRequest claims (hq_method r) then Inl (403, ''Forbidden: this token was granted read-only access'')
           else if claim_true claims PasswordChangeClaim \<and> \<not> allowedBeforePasswordChange r
             then Inl (403, ''Forbidden: this account still uses the default password; change it first'')
           else Inr (cx\<lparr>cx_user := Some claims\<rparr>)))"
proof -
  have "TrimPrefix (''Bearer '' @ t) ''Bearer '' = t" by (simp add: TrimPrefix_def strip_prefix_def)
  moreover have "''Bearer '' @ t \<noteq> ''''" by simp
  ultimately show ?thesis unfolding RequireAuth_def assms by metis
qed

lemma jwt_claim:
  assumes "jwt_ok J" "map_of c ''exp'' = Some (VInt64 e)" "jwt_Verify J now (jwt_Sign J c) = Some d"
  shows "map_of d k = map_option decoded_value (map_of c k)"
  using jwt_verified[OF assms] by (simp add: map_of_decoded)

lemma step_token_refused:
  assumes "jwt_ok J" "map_of c ''exp'' = Some (VInt64 e)" "map_of c ''mfa_step'' = Some (VBool True) \<or> map_of c ''mfa_setup'' = Some (VBool True)"
    and "hq_header r ''Authorization'' = ''Bearer '' @ jwt_Sign J c"
  shows "\<exists>e. RequireAuth G J look now r cx = Inl (401, e)"
proof (cases "jwt_Verify J now (jwt_Sign J c)")
  case (Some d)
  then have "claim_true d ''mfa_step'' \<or> claim_true d ''mfa_setup''"
    using jwt_claim[OF assms(1,2) Some] assms(3) by (auto simp: claim_true_def)
  then show ?thesis using Some by (auto simp: RequireAuth_bearer[OF assms(4)])
qed (simp add: RequireAuth_bearer[OF assms(4)])

text \<open>
C20: the second factor cannot be left out: for an account that has it, or whose organization demands it, the password gives
no session, and the token it gives is refused by every route that requires a session.
\<close>

theorem second_factor_required:
  assumes "jwt_ok (cy_jwt Y)" "user_by_name db name = Some u"
    and "us_totpEnabled u \<and> us_totpSecret u \<notin> {None, Some ''''} \<or> \<not> us_totpEnabled u \<and> us_org u = Some i \<and> i \<in> set (db_mfaOrgs db)"
  shows "snd (LoginWithMeta Y now policyFails name pw db) \<noteq> LoggedIn t j \<and>
    (snd (LoginWithMeta Y now policyFails name pw db) \<in> {CodeRequired t, SetupRequired t} \<and>
       hq_header r ''Authorization'' = ''Bearer '' @ t \<longrightarrow> (\<exists>e. RequireAuth (cy_go Y) (cy_jwt Y) look now' r cx = Inl (401, e)))"
proof -
  have a: "snd (LoginWithMeta Y now policyFails name pw db) \<in> {CodeRequired (generateMFAToken Y now (us_id u)),
      SetupRequired (generateMFASetupToken Y now (us_id u) (us_username u))} \<union> Collect refused"
    using assms(2,3) by (auto simp: LoginWithMeta_def login_with_def refused_def account_locked_def invalid_credentials_def)
  have m: "\<exists>e. map_of (mfa_claims now i) ''exp'' = Some (VInt64 e)" "map_of (mfa_claims now i) ''mfa_step'' = Some (VBool True)" for i
    by (simp_all add: mfa_claims_def)
  have s: "\<exists>e. map_of (setup_claims now i n) ''exp'' = Some (VInt64 e)" "map_of (setup_claims now i n) ''mfa_setup'' = Some (VBool True)" for i n
    by (simp_all add: setup_claims_def)
  have "\<exists>e. RequireAuth (cy_go Y) (cy_jwt Y) look now' r cx = Inl (401, e)"
    if "hq_header r ''Authorization'' = ''Bearer '' @ t" "t = generateMFAToken Y now (us_id u) \<or> t = generateMFASetupToken Y now (us_id u) (us_username u)"
    using that m s step_token_refused[OF assms(1)] unfolding generateMFAToken_def generateMFASetupToken_def by metis
  with a show ?thesis by (auto simp: refused_def)
qed

lemma sint_small: "0 \<le> i \<Longrightarrow> i < 2 ^ 53 \<Longrightarrow> sint (of_int i :: 64 word) = i"
  by (simp add: signed_of_int signed_take_bit_int_eq_self)

lemma claim_int:
  assumes "0 \<le> i" "i < 2 ^ 53"
  shows "decoded_value (go_int i) = VFloat64 (f64_of_int i)" "to_int64 G (f64_of_int i) = i"
  using assms by (simp_all add: go_int_def sint_small to_int64_of_int)

text \<open>The version a token carries decides.\<close>

lemma retired_token:
  assumes "jwt_ok J" "map_of c ''exp'' = Some (VInt64 e)" "map_of c ''user_id'' = Some (go_int i)" "map_of c ''token_version'' = Some (go_int k)"
    and "0 \<le> i" "i < 2 ^ 53" "0 \<le> k" "k < 2 ^ 53" "look i = Version n" "n \<noteq> k"
    and "hq_header r ''Authorization'' = ''Bearer '' @ jwt_Sign J c"
  shows "\<exists>e. RequireAuth G J (Some look) now r cx = Inl (401, e)"
proof (cases "jwt_Verify J now (jwt_Sign J c)")
  case (Some d)
  have "claim_number d ''user_id'' = Some (f64_of_int i)" "claim_number d ''token_version'' = Some (f64_of_int k)"
    using jwt_claim[OF assms(1,2) Some] assms(3-8) by (simp_all add: claim_number_def claim_int)
  then have "\<not> tokenVersionCurrent G (Some look) d"
    using assms(5-10) by (simp add: tokenVersionCurrent_def to_int64_of_int)
  then show ?thesis using Some by (auto simp: RequireAuth_bearer[OF assms(11)])
qed (simp add: RequireAuth_bearer[OF assms(11)])

lemma session_claims_entries:
  "\<exists>e. map_of (session_claims now db u) ''exp'' = Some (VInt64 e)"
  "map_of (session_claims now db u) ''user_id'' = Some (go_int (us_id u))"
  "map_of (session_claims now db u) ''token_version'' = Some (go_int (tokenVersion db (us_id u)))"
  by (simp_all add: session_claims_def put_confinement_def put_org_def PasswordChangeClaim_def split: option.split)

lemma reset_tx_users: "db_users (reset_tx hash t db) =
    map (set_row (rt_user t) (\<lambda>u. (retire hash u)\<lparr>us_failed := 0, us_locked := None\<rparr>)) (db_users db)"
  by (simp add: reset_tx_def drop_refresh_def users_update Let_def)

lemma user_by_id_tx: "user_by_id (reset_tx hash t db) i =
    map_option (set_row (rt_user t) (\<lambda>u. (retire hash u)\<lparr>us_failed := 0, us_locked := None\<rparr>)) (user_by_id db i)"
  unfolding user_by_id_def reset_tx_users by (rule find_map) (simp add: set_row_def retire_def)

text \<open>
C21: a password reset ends every session of the account: a token signed before it, at any earlier version, is refused from then on by
every route that requires a session.
\<close>

theorem reset_ends_sessions:
  assumes "jwt_ok (cy_jwt Y)" "find_reset Y now token db = Some t" "user_by_id db (rt_user t) = Some u"
    and "ResetPassword Y now token pw db = (db', None)"
    and "us_id v = rt_user t" "0 \<le> us_id v" "us_id v < 2 ^ 53"
    and "0 \<le> tokenVersion db0 (us_id v)" "tokenVersion db0 (us_id v) \<le> us_version u" "us_version u < 2 ^ 53"
    and "hq_header r ''Authorization'' = ''Bearer '' @ generateToken Y now0 db0 v"
  shows "\<exists>e. RequireAuth (cy_go Y) (cy_jwt Y) (Some (version_lookup db')) now' r cx = Inl (401, e)"
proof -
  obtain hash where db': "db' = reset_tx hash t db"
    using assms(2,4) by (auto simp: ResetPassword_def split: if_splits option.splits)
  have u: "us_id u = rt_user t" using assms(3) by (rule user_by_id_eq)
  have v: "version_lookup db' (us_id v) = Version (us_version u + 1)"
    unfolding db' version_lookup_def assms(5) user_by_id_tx assms(3) by (simp add: set_row_def retire_def u)
  obtain e where e: "map_of (session_claims now0 db0 v) ''exp'' = Some (VInt64 e)" using session_claims_entries(1) by blast
  show ?thesis
    using retired_token[where look = "version_lookup db'" and i = "us_id v" and k = "tokenVersion db0 (us_id v)", OF assms(1) e
        session_claims_entries(2,3) assms(6,7,8) _ v _ assms(11)[unfolded generateToken_def]] assms(9,10) by simp
qed

lemma reset_once:
  assumes "ResetPassword Y now token pw db = (db', None)" "distinct (map rt_id (db_resets db))" "distinct (map rt_digest (db_resets db))"
  shows "ResetPassword Y now' token pw' db' \<noteq> (db'', None)"
proof -
  obtain t hash where t: "find_reset Y now token db = Some t" "db' = reset_tx hash t db"
    using assms(1) by (auto simp: ResetPassword_def split: if_splits option.splits)
  have d: "t \<in> set (db_resets db)" "rt_digest t = cy_sha Y token" using t(1) by (auto simp: find_reset_def find_Some_iff)
  have resets: "db_resets db' = filter (\<lambda>r. \<not> (rt_user r = rt_user t \<and> rt_id r \<noteq> rt_id t))
      (map (\<lambda>r. if rt_id r = rt_id t then r\<lparr>rt_used := True\<rparr> else r) (db_resets db))"
    by (simp add: t(2) reset_tx_def drop_refresh_def update_user_def Let_def)
  have "rt_used s" if s: "s \<in> set (db_resets db')" "rt_digest s = cy_sha Y token" for s
  proof -
    obtain r where r: "r \<in> set (db_resets db)" "s = (if rt_id r = rt_id t then r\<lparr>rt_used := True\<rparr> else r)"
      using s(1) unfolding resets by auto
    have "rt_digest r = rt_digest t" using r(2) s(2) d(2) by (simp split: if_splits)
    then have "r = t" using assms(3) r(1) d(1) by (auto simp: distinct_map dest: inj_onD)
    then show ?thesis using r(2) by simp
  qed
  then have "find_reset Y now' token db' = None" by (auto simp: find_reset_def find_None_iff)
  then show ?thesis by (simp add: ResetPassword_def)
qed

lemma new_codes_users: "db_users (fst (new_codes Y i n x)) = db_users x"
proof (induction n arbitrary: x)
  case (Suc n)
  show ?case
  proof (cases "cy_bcrypt Y (cy_random Y (db_drawn x))")
    case (Some h)
    then show ?thesis by (simp add: Let_def case_prod_unfold Suc)
  qed simp
qed simp

text \<open>
Turning the second factor on does not burn the time step of the code it was turned on with: the code is accepted
again, by the sign-in, while its step lasts.
\<close>

theorem enabling_code_accepted_again:
  assumes "is_row db u" "us_totpSecret u = Some secret" "us_counter u = None" "us_locked u = None"
    and "MFAEnable Y now (us_id u) code db = (db', 200)" "secret \<noteq> ''''" "code \<noteq> ''''"
    and "mfa_user Y now tok db' = Inr v" "us_id v = us_id u"
  shows "\<exists>db'' s. CompleteMFALogin Y now tok code db' = (db'', LoggedIn s (us_id u))"
proof -
  have u: "user_by_id db (us_id u) = Some u" using assms(1) by (simp add: is_row_def)
  obtain d where d: "d \<in> set [- 1..1]" "cy_totp Y secret code (Unix now div 30 + d)"
    and db': "db' = fst (GenerateRecoveryCodes Y (us_id u) (update_user (us_id u) (\<lambda>u. u\<lparr>us_totpEnabled := True\<rparr>) db))"
    using assms(2,5) u by (auto simp: MFAEnable_def list_all_iff split: if_splits)
  have "db_users db' = map (set_row (us_id u) (\<lambda>u. u\<lparr>us_totpEnabled := True\<rparr>)) (db_users db)"
    unfolding db' GenerateRecoveryCodes_def by (simp add: new_codes_users users_update)
  then have "user_by_id db' (us_id u) = Some (u\<lparr>us_totpEnabled := True\<rparr>)"
    using u by (simp add: user_by_id_def find_map set_row_def)
  then have v: "v = u\<lparr>us_totpEnabled := True\<rparr>" using mfa_user_row[OF assms(8)] assms(9) by simp
  have "find (cy_totp Y secret code) (map (\<lambda>d. Unix now div 30 + d) [- 1..1]) \<noteq> None"
    using d unfolding find_None_iff by (metis (no_types, lifting) image_eqI list.set_map)
  then obtain c where "validateTOTPWithCounter Y now secret code = Some c"
    using assms(6,7) by (auto simp: validateTOTPWithCounter_def totpSkew_def)
  then show ?thesis
    using assms(2,3,4,8) v by (simp add: CompleteMFALogin_def mfa_with_def checkLockout_def finish_login_def Let_def)
qed

section \<open>Instances\<close>

definition bea :: account where
  "bea = ada\<lparr>us_id := 8, us_username := ''bea'', us_totpEnabled := True, us_totpSecret := Some ''JBSWY3DP''\<rparr>"

lemma float_8: "\<not> f64_eq (f64_of_int 8) 0"
  by code_simp

lemma step_token_user:
  assumes "user_by_id db 8 = Some u" "us_totpEnabled u" "us_totpSecret u \<noteq> None" "noon \<le> now" "now < noon + 4 * Minute"
  shows "mfa_user some_crypto now (generateMFAToken some_crypto noon 8) db = Inr u"
proof -
  let ?c = "mfa_claims noon 8"
  have e: "map_of ?c ''exp'' = Some (VInt64 (of_int (Unix (noon + 5 * Minute))))" by (simp add: mfa_claims_def)
  have u: "Unix now < sint (of_int (Unix (noon + 5 * Minute)) :: 64 word)"
  proof -
    have "Unix (noon + 5 * Minute) = 1764403500" by (simp add: Unix_def noon_def Second_def Minute_def unix_zero_ms_def)
    moreover have "Unix now \<le> 1764403440"
      using assms(5) unfolding Unix_def noon_def Second_def Minute_def unix_zero_ms_def by simp
    ultimately show ?thesis by (simp add: sint_small)
  qed
  have "jwt_Verify counting_jwt now (jwt_Sign counting_jwt ?c) = Some (decoded ?c)"
    using counting_jwt_ok[unfolded jwt_ok_def, rule_format, OF e, of now] u by simp
  moreover have "claim_number (decoded ?c) ''user_id'' = Some (f64_of_int 8)" "claim_true (decoded ?c) ''mfa_step''"
    by (simp_all add: claim_number_def claim_true_def map_of_decoded mfa_claims_def claim_int)
  ultimately show ?thesis
    using assms(1-3) by (simp add: mfa_user_def generateMFAToken_def some_crypto_def to_int64_of_int float_8)
qed

definition code_of :: "gotime \<Rightarrow> string" where
  "code_of now = itoa (Unix now div 30)"

lemma code_of_step: "0 \<le> now \<Longrightarrow> now < 2 ^ 80 \<Longrightarrow> validateTOTPWithCounter some_crypto now ''JBSWY3DP'' (code_of now) = Some (Unix now div 30)"
proof -
  assume now: "0 \<le> now" "now < 2 ^ 80"
  let ?k = "Unix now div 30"
  have "- (2 ^ 62) \<le> Unix now" "Unix now < 2 ^ 62" using now unfolding Unix_def unix_zero_ms_def Second_def by simp_all
  then have "- (2 ^ 62) \<le> ?k" "?k < 2 ^ 62" by linarith+
  then have "itoa (?k - 1) \<noteq> itoa ?k" using itoa_inj[of "?k - 1" ?k] by (auto simp: is_int64_def)
  moreover have "[- 1..1] = [- 1, 0, 1 :: int]" by code_simp
  ultimately show ?thesis by (simp add: validateTOTPWithCounter_def totpSkew_def some_crypto_def code_of_def)
qed

definition login_code :: "gotime \<Rightarrow> auth_db \<Rightarrow> auth_db \<times> login_result" where
  "login_code now db = CompleteMFALogin some_crypto now (generateMFAToken some_crypto noon 8) (code_of now) db"

lemma login_code_accepts:
  assumes "is_row db u" "us_id u = 8" "us_totpEnabled u" "us_totpSecret u = Some ''JBSWY3DP''" "us_locked u = None"
    and "counter_le (us_counter u) (Some (Unix now div 30 - 1))" "noon \<le> now" "now < noon + 4 * Minute"
  shows "\<exists>db' s u'. login_code now db = (db', LoggedIn s 8) \<and> is_row db' u' \<and> us_id u' = 8 \<and> us_totpEnabled u' \<and>
    us_totpSecret u' = Some ''JBSWY3DP'' \<and> us_locked u' = None \<and> us_counter u' = Some (Unix now div 30)"
proof -
  let ?k = "Unix now div 30"
  have m: "mfa_user some_crypto now (generateMFAToken some_crypto noon 8) db = Inr u"
    using assms by (intro step_token_user) (auto simp: is_row_def)
  have n: "0 \<le> now" "now < 2 ^ 80" using assms(7,8) by (simp_all add: noon_def Second_def Minute_def)
  have c: "login_code now db = finish_login some_crypto now u (Some ?k) db"
    using assms(4,5,6) by (simp add: login_code_def CompleteMFALogin_def m mfa_with_def checkLockout_def code_of_step[OF n] counter_le_def split: option.splits)
  let ?d = "clearLockoutState 8 db" and ?u = "u\<lparr>us_failed := 0, us_locked := None\<rparr>"
  have "is_row ?d ?u"
    using later_clear[OF assms(1), of 8] assms(2) by (simp add: later_def set_row_def)
  from is_row_map[OF this users_update[of 8 "\<lambda>u. u\<lparr>us_counter := Some ?k\<rparr>"] same_set_row[OF same_account_simps(3)]]
  have "is_row (update_user 8 (\<lambda>u. u\<lparr>us_counter := Some ?k\<rparr>) ?d) (?u\<lparr>us_counter := Some ?k\<rparr>)" using assms(2) by (simp add: set_row_def)
  then show ?thesis using assms(2-4) by (auto simp: c finish_login_def Let_def intro!: exI[of _ "?u\<lparr>us_counter := Some ?k\<rparr>"])
qed

lemma bea_row: "is_row (db_of [bea]) bea"
  by (simp add: is_row_def db_of_def user_by_name_def user_by_id_def)

theorem time_step_once_witness: "Unix noon div 30 < Unix (noon + 30 * Second) div 30"
proof -
  obtain db1 s u1 where 1: "login_code noon (db_of [bea]) = (db1, LoggedIn s 8)" "is_row db1 u1" "us_id u1 = 8" "us_totpEnabled u1"
    "us_totpSecret u1 = Some ''JBSWY3DP''" "us_locked u1 = None" "us_counter u1 = Some (Unix noon div 30)"
    using login_code_accepts[OF bea_row, of noon] by (auto simp: bea_def ada_def counter_le_def Minute_def Second_def)
  obtain db2 s2 where 2: "login_code (noon + 30 * Second) db1 = (db2, LoggedIn s2 8)"
    using login_code_accepts[OF 1(2-6), of "noon + 30 * Second"] 1(7)
    by (auto simp: counter_le_def Unix_def noon_def Minute_def Second_def unix_zero_ms_def)
  have b: "us_id bea = 8" "us_totpSecret bea = Some ''JBSWY3DP''" by (simp_all add: bea_def)
  have "attempts some_crypto [] db1 = (db1, [])" by simp
  from time_step_once[OF bea_row b(2) 1(1)[unfolded login_code_def b(1)[symmetric]] code_of_step this 2[unfolded login_code_def b(1)[symmetric]] code_of_step]
  show ?thesis by (simp only: noon_def Second_def) simp
qed

theorem same_code_at_once_witness:
  "\<exists>db1 s s'. CompleteMFALogin some_crypto noon (generateMFAToken some_crypto noon 8) (code_of noon) (db_of [bea]) = (db1, LoggedIn s 8) \<and>
    snd (mfa_with some_crypto noon (code_of noon) bea db1) = LoggedIn s' 8"
proof -
  obtain db1 s u1 where 1: "login_code noon (db_of [bea]) = (db1, LoggedIn s 8)" "is_row db1 u1" "us_id u1 = 8"
    using login_code_accepts[OF bea_row, of noon] by (auto simp: bea_def ada_def counter_le_def Minute_def Second_def)
  have m: "mfa_user some_crypto noon (generateMFAToken some_crypto noon 8) (db_of [bea]) = Inr bea"
    using bea_row by (intro step_token_user) (auto simp: is_row_def bea_def ada_def Minute_def Second_def)
  have "validateTOTPWithCounter some_crypto noon (the (us_totpSecret bea)) (code_of noon) = Some (Unix noon div 30)"
    using code_of_step[of noon] by (simp add: bea_def noon_def Second_def)
  from same_code_at_once[OF m 1(1)[unfolded login_code_def] this 1(2,3)] 1(1) show ?thesis unfolding login_code_def by blast
qed

definition request_with :: "string \<Rightarrow> string \<Rightarrow> http_req" where
  "request_with meth t = \<lparr>hq_method = meth, hq_path = ''/api/tags'', hq_header = (\<lambda>h. if h = ''Authorization'' then ''Bearer '' @ t else ''''),
     hq_query = (\<lambda>_. ''''), hq_param = (\<lambda>_. '''')\<rparr>"

definition no_context :: req_context where
  "no_context = \<lparr>cx_user = None, cx_org = None, cx_key = None\<rparr>"

lemma some_jwt: "jwt_ok (cy_jwt some_crypto)"
  by (simp add: some_crypto_def counting_jwt_ok)

theorem second_factor_required_witness:
  "\<exists>t e. snd (LoginWithMeta some_crypto noon False ''bea'' ''difference engine'' (db_of [bea])) = CodeRequired t \<and>
    RequireAuth (cy_go some_crypto) (cy_jwt some_crypto) None noon (request_with ''GET'' t) no_context = Inl (401, e)"
proof -
  let ?l = "LoginWithMeta some_crypto noon False ''bea'' ''difference engine'' (db_of [bea])"
  have u: "user_by_name (db_of [bea]) ''bea'' = Some bea" by (simp add: db_of_def user_by_name_def bea_def)
  have l: "snd ?l = CodeRequired (generateMFAToken some_crypto noon 8)"
    unfolding LoginWithMeta_def u by (simp add: login_with_def bea_def ada_def checkLockout_def some_crypto_def)
  have r: "hq_header (request_with ''GET'' t) ''Authorization'' = ''Bearer '' @ t" for t by (simp add: request_with_def)
  have "us_totpEnabled bea \<and> us_totpSecret bea \<notin> {None, Some ''''}" by (simp add: bea_def)
  from second_factor_required[OF some_jwt u disjI1[OF this], of noon False] l r show ?thesis by blast
qed

definition reset_row :: reset_token where
  "reset_row = \<lparr>rt_id = 1, rt_user = 7, rt_digest = ''mailed'', rt_expires = noon + Hour, rt_used = False\<rparr>"

definition db_reset :: auth_db where
  "db_reset = (db_of [ada])\<lparr>db_resets := [reset_row]\<rparr>"

theorem reset_ends_sessions_witness:
  "\<exists>e. RequireAuth (cy_go some_crypto) (cy_jwt some_crypto)
     (Some (version_lookup (fst (ResetPassword some_crypto noon ''mailed'' ''a new password'' db_reset)))) noon
     (request_with ''GET'' (generateToken some_crypto noon db_reset ada)) no_context = Inl (401, e)"
proof -
  have f: "find_reset some_crypto noon ''mailed'' db_reset = Some reset_row"
    by (simp add: find_reset_def db_reset_def reset_row_def some_crypto_def Hour_def Minute_def Second_def)
  have u: "user_by_id db_reset (rt_user reset_row) = Some ada" by (simp add: user_by_id_def db_reset_def db_of_def reset_row_def ada_def)
  have "ResetPassword some_crypto noon ''mailed'' ''a new password'' db_reset = (reset_tx ''a new password'' reset_row db_reset, None)"
    by (simp add: ResetPassword_def f) (simp add: some_crypto_def)
  then have r: "ResetPassword some_crypto noon ''mailed'' ''a new password'' db_reset =
      (fst (ResetPassword some_crypto noon ''mailed'' ''a new password'' db_reset), None)" by simp
  have v: "tokenVersion db_reset (us_id ada) = 0" "us_id ada = rt_user reset_row" "us_version ada = 0" "us_id ada = 7" by (simp_all add: tokenVersion_def user_by_id_def db_reset_def db_of_def ada_def reset_row_def)
  show ?thesis
    by (rule reset_ends_sessions[OF some_jwt f u r]) (use v in \<open>simp_all add: request_with_def\<close>)
qed

definition eve :: account where
  "eve = bea\<lparr>us_totpEnabled := False\<rparr>"

theorem enabling_code_accepted_again_witness:
  "\<exists>db s. login_code noon (fst (MFAEnable some_crypto noon 8 (code_of noon) (db_of [eve]))) = (db, LoggedIn s 8)"
proof -
  let ?db = "fst (MFAEnable some_crypto noon 8 (code_of noon) (db_of [eve]))"
  have row: "is_row (db_of [eve]) eve" by (simp add: is_row_def db_of_def user_by_name_def user_by_id_def)
  have e: "us_id eve = 8" "us_totpSecret eve = Some ''JBSWY3DP''" "us_counter eve = None" "us_locked eve = None" "code_of noon \<noteq> ''''"
    by (simp_all add: eve_def bea_def ada_def code_of_def)
  have u: "user_by_id (db_of [eve]) 8 = Some eve" using row e(1) by (simp add: is_row_def)
  have "\<not> list_all (\<lambda>d. \<not> cy_totp some_crypto ''JBSWY3DP'' (code_of noon) (Unix noon div 30 + d)) [- 1..1]"
    by (auto simp: list_all_iff some_crypto_def code_of_def intro!: bexI[of _ 0])
  then have m: "MFAEnable some_crypto noon 8 (code_of noon) (db_of [eve]) = (?db, 200)"
    and d: "?db = fst (GenerateRecoveryCodes some_crypto 8 (update_user 8 (\<lambda>u. u\<lparr>us_totpEnabled := True\<rparr>) (db_of [eve])))"
    by (simp_all add: MFAEnable_def u e(2))
  have "db_users ?db = map (set_row 8 (\<lambda>u. u\<lparr>us_totpEnabled := True\<rparr>)) (db_users (db_of [eve]))"
    unfolding d GenerateRecoveryCodes_def by (simp add: new_codes_users users_update)
  then have "user_by_id ?db 8 = Some (eve\<lparr>us_totpEnabled := True\<rparr>)" by (simp add: user_by_id_def db_of_def set_row_def e(1))
  then have v: "mfa_user some_crypto noon (generateMFAToken some_crypto noon 8) ?db = Inr (eve\<lparr>us_totpEnabled := True\<rparr>)"
    by (rule step_token_user) (simp_all add: e(2) Minute_def Second_def)
  show ?thesis
    using enabling_code_accepted_again[OF row e(2,3,4) m[folded e(1)] _ e(5) v[folded e(1)]] e(1) by (simp add: login_code_def)
qed

section \<open>Tenants\<close>

text \<open>
C18: a session stays in its organization: whatever organization a request of a user names, in a header, a query or its path, the
filters let it through only for the user's own, and that is what every query is then filtered by.
\<close>

theorem session_stays_in_org:
  assumes "jwt_ok (cy_jwt Y)" "us_org u = Some i" "0 \<le> i" "i < 2 ^ 53"
    and "hq_header r ''Authorization'' = ''Bearer '' @ generateToken Y now0 db u"
    and "RequireAuth (cy_go Y) (cy_jwt Y) look now r cx = Inr cx1" "OrganizationContext (cy_go Y) r cx1 = Inr cx2"
  shows "GetOrgFilterForQuery cx2 = Some i \<and> (RequireOrgParam (cy_go Y) p r cx2 = Inr cx3 \<longrightarrow> Atoi (hq_param r p) = Some i) \<and>
    (hq_header r ''X-Organization-ID'' \<noteq> '''' \<longrightarrow> Atoi (hq_header r ''X-Organization-ID'') = Some i)"
proof -
  obtain e where e: "map_of (session_claims now0 db u) ''exp'' = Some (VInt64 e)" using session_claims_entries(1) by blast
  obtain d where d: "jwt_Verify (cy_jwt Y) now (generateToken Y now0 db u) = Some d" "cx1 = cx\<lparr>cx_user := Some d\<rparr>"
    using assms(6) by (auto simp: RequireAuth_bearer[OF assms(5)] split: option.splits if_splits)
  have "map_of (session_claims now0 db u) ''org_id'' = Some (go_int i)"
    by (simp add: session_claims_def put_confinement_def put_org_def PasswordChangeClaim_def assms(2))
  then have o: "org_claim d = Some (VFloat64 (f64_of_int i))"
    using jwt_claim[OF assms(1) e d(1)[unfolded generateToken_def]] claim_int(1)[OF assms(3,4)] by (simp add: org_claim_def)
  have i: "to_int64 (cy_go Y) (f64_of_int i) = i" by (rule claim_int(2)[OF assms(3,4)])
  have cx2: "cx2 = cx1\<lparr>cx_org := Some i\<rparr>" and h: "hq_header r ''X-Organization-ID'' \<noteq> '''' \<longrightarrow> Atoi (hq_header r ''X-Organization-ID'') = Some i"
    using assms(7) by (auto simp: OrganizationContext_def d(2) o i Let_def split: if_splits option.splits)
  have "\<not> IsGlobalAdmin cx2" "GetOrganizationID cx2 = Some i" "OrgIDFromJWT (cy_go Y) cx2 = Some i"
    by (simp_all add: cx2 d(2) IsGlobalAdmin_def GetOrganizationID_def OrgIDFromJWT_def o i)
  then show ?thesis using h by (auto simp: GetOrgFilterForQuery_def RequireOrgParam_def split: option.splits if_splits)
qed

theorem session_stays_in_org_witness:
  "\<exists>cx. OrganizationContext (cy_go some_crypto) (request_with ''GET'' (generateToken some_crypto noon (db_of [ada]) ada)) cx =
      Inr (cx\<lparr>cx_org := Some 3\<rparr>) \<and> GetOrgFilterForQuery (cx\<lparr>cx_org := Some 3\<rparr>) = Some 3"
proof -
  let ?t = "generateToken some_crypto noon (db_of [ada]) ada" and ?c = "session_claims noon (db_of [ada]) ada"
  let ?r = "request_with ''GET'' ?t"
  have u: "user_by_id (db_of [ada]) 7 = Some ada" by (simp add: user_by_id_def db_of_def ada_def)
  have c: "?c = [(''org_id'', go_int 3), (''user_id'', go_int 7), (''username'', VString ''ada''), (''role'', VString ''user''),
      (''i3x_write'', VBool False), (''exp'', VInt64 (of_int (Unix (noon + 24 * Hour)))), (''token_version'', go_int 0)]"
    unfolding session_claims_def mustChangePassword_def tokenVersion_def using u by (simp add: ada_def put_confinement_def put_org_def)
  have e: "map_of ?c ''exp'' = Some (VInt64 (of_int (Unix (noon + 24 * Hour))))" by (simp add: c)
  have "Unix (noon + 24 * Hour) = 1764489600" "Unix noon = 1764403200" by (simp_all add: Unix_def noon_def Second_def Minute_def Hour_def unix_zero_ms_def)
  then have "Unix noon < sint (of_int (Unix (noon + 24 * Hour)) :: 64 word)" by (simp add: sint_small)
  then have v: "jwt_Verify (cy_jwt some_crypto) noon ?t = Some (decoded ?c)"
    using some_jwt[unfolded jwt_ok_def, rule_format, OF e, of noon] by (simp add: generateToken_def)
  have h: "hq_header ?r ''Authorization'' = ''Bearer '' @ ?t" by (simp add: request_with_def)
  have a: "RequireAuth (cy_go some_crypto) (cy_jwt some_crypto) None noon ?r no_context = Inr (no_context\<lparr>cx_user := Some (decoded ?c)\<rparr>)"
    by (simp add: RequireAuth_bearer[OF h] v c claim_true_def map_of_decoded tokenVersionCurrent_def scopeAllowsRequest_def claim_string_def PasswordChangeClaim_def)
  have o: "org_claim (decoded ?c) = Some (VFloat64 (f64_of_int 3))" by (simp add: org_claim_def map_of_decoded c claim_int)
  have f: "to_int64 (cy_go some_crypto) (f64_of_int 3) = 3" by (simp add: claim_int)
  have b: "OrganizationContext (cy_go some_crypto) ?r (no_context\<lparr>cx_user := Some (decoded ?c)\<rparr>) =
      Inr (no_context\<lparr>cx_user := Some (decoded ?c)\<rparr>\<lparr>cx_org := Some 3\<rparr>)"
    unfolding OrganizationContext_def using o f by (simp add: request_with_def Let_def)
  have "us_org ada = Some 3" by (simp add: ada_def)
  from session_stays_in_org[OF some_jwt this _ _ h a b] b show ?thesis by auto
qed

end
