(* ===== verification/OAuth_Properties.thy ===== *)
theory OAuth_Properties
  imports OAuth Accounts_Properties
begin

text \<open>
  The authorization server as a system of requests that interleave, and what holds of it in every reachable state: a token
  needs a consent, a code is good for one token, a consent to read never writes; and what a rotation of refresh tokens misses.
\<close>

section \<open>The server\<close>

text \<open>
  The requests of the token endpoint with where they stand, the tables, and the trace of the consent page: every form that was
  submitted, whatever came of it, with the time and the tables as they were.
\<close>

record submission =
  sb_now :: gotime
  sb_form :: "string \<Rightarrow> string"
  sb_db :: auth_db

record oauth_server =
  os_db :: auth_db
  os_pool :: "(token_request \<times> token_pc) list"
  os_submitted :: "submission list"

text \<open>What the sign-in, the account handlers and the administration of users may do to the tables of the authorization server.\<close>

definition account_change :: "auth_db \<Rightarrow> auth_db \<Rightarrow> bool" where
  "account_change db db' \<longleftrightarrow> db_clients db' = db_clients db \<and> db_codes db' = db_codes db \<and>
     set (db_refresh db') \<subseteq> set (db_refresh db) \<and> db_drawn db \<le> db_drawn db'"

definition new_server :: "auth_db \<Rightarrow> oauth_server" where
  "new_server db = \<lparr>os_db = db\<lparr>db_clients := [], db_codes := [], db_refresh := []\<rparr>, os_pool = [], os_submitted = []\<rparr>"

inductive oauth_step :: "oauth_env \<Rightarrow> oauth_server \<Rightarrow> oauth_server \<Rightarrow> bool" for E where
  register: "oauth_step E s (s\<lparr>os_db := fst (Register E fails req (os_db s))\<rparr>)"
| decide: "Decision E now faults form (os_db s) = (db, ans) \<Longrightarrow>
    oauth_step E s (s\<lparr>os_db := db, os_submitted := os_submitted s @ [\<lparr>sb_now = now, sb_form = form, sb_db = os_db s\<rparr>]\<rparr>)"
| arrive: "oauth_step E s (s\<lparr>os_pool := os_pool s @ [(q, Start)]\<rparr>)"
| advance: "i < length (os_pool s) \<Longrightarrow> os_pool s ! i = (q, pc) \<Longrightarrow> token_step E now fails q pc (os_db s) = (db, pc') \<Longrightarrow>
    oauth_step E s (s\<lparr>os_db := db, os_pool := (os_pool s)[i := (q, pc')]\<rparr>)"
| revoke: "oauth_step E s (s\<lparr>os_db := Revoke E now faults q token (os_db s)\<rparr>)"
| revoke_authorization: "oauth_step E s (s\<lparr>os_db := RevokeAuthorization now userID clientID (os_db s)\<rparr>)"
| accounts: "account_change (os_db s) db \<Longrightarrow> oauth_step E s (s\<lparr>os_db := db\<rparr>)"
| cleanup: "oauth_step E s (s\<lparr>os_db := oauth_cleanup now (os_db s)\<rparr>)"

inductive oauth_reach :: "oauth_env \<Rightarrow> oauth_server \<Rightarrow> bool" for E where
  start: "oauth_reach E (new_server db)"
| step: "oauth_reach E s \<Longrightarrow> oauth_step E s s' \<Longrightarrow> oauth_reach E s'"

section \<open>Scopes\<close>

definition known :: "string \<Rightarrow> bool" where
  "known s \<longleftrightarrow> set (Fields s) \<subseteq> {ScopeRead, ScopeWrite}"

lemma Fields_known:
  "Fields ScopeRead = [ScopeRead]" "Fields ScopeWrite = [ScopeWrite]"
  "Fields (ScopeRead @ '' '' @ ScopeWrite) = [ScopeRead, ScopeWrite]" "Fields (ScopeWrite @ '' '' @ ScopeRead) = [ScopeWrite, ScopeRead]"
  by code_simp+

lemma distinct_two:
  assumes "distinct ws" "set ws \<subseteq> {a, b}"
  shows "ws \<in> {[], [a], [b], [a, b], [b, a]}"
proof -
  have "card (set ws) \<le> card {a, b}" using assms(2) by (intro card_mono) auto
  then have "length ws \<le> 2" using distinct_card[OF assms(1)] card_insert_le_m1[of 2 "{b}" a] by (simp add: le_trans[of _ "card {a, b}"] card_insert_if)
  then consider "ws = []" | x where "ws = [x]" | x y where "ws = [x, y]"
    by (cases ws; cases "tl ws") (auto simp: length_Suc_conv le_Suc_eq numeral_2_eq_2)
  then show ?thesis using assms by cases auto
qed

lemma Fields_join:
  assumes "distinct ws" "set ws \<subseteq> {ScopeRead, ScopeWrite}"
  shows "ws = [] \<or> Fields (join_words ws) = ws"
  using distinct_two[OF assms] Fields_known by auto

lemma restrict_loop_props:
  "restrict_loop al ss out = Some ws \<Longrightarrow> distinct out \<Longrightarrow> set out \<subseteq> set al \<Longrightarrow> distinct ws \<and> set ws \<subseteq> set al"
  by (induction al ss out rule: restrict_loop.induct) (auto split: if_splits)

lemma restrictScope_subset:
  assumes "restrictScope asked al = Some granted" "known al"
  shows "known granted" "set (Fields granted) \<subseteq> set (Fields al)"
proof -
  obtain ws where ws: "restrict_loop (Fields al) (Fields asked) [] = Some ws" "ws \<noteq> []" "granted = join_words ws"
    using assms(1) by (auto simp: restrictScope_def split: option.splits if_splits)
  have p: "distinct ws" "set ws \<subseteq> set (Fields al)" using restrict_loop_props[OF ws(1)] by auto
  then have "Fields granted = ws" using Fields_join[of ws] assms(2) ws(2,3) by (auto simp: known_def)
  then show "set (Fields granted) \<subseteq> set (Fields al)" using p by simp
  then show "known granted" using assms(2) by (auto simp: known_def)
qed

lemma normalizeScope_known: "known (normalizeScope asked)"
proof -
  have "known (ScopeRead @ '' '' @ ScopeWrite)" unfolding known_def Fields_known by simp
  then show ?thesis by (auto simp: normalizeScope_def Let_def restrictScope_subset(1) split: option.split)
qed

section \<open>What the other handlers do to the tables of the server\<close>

lemma account_change_update: "account_change db (update_user i f db)"
  by (simp add: account_change_def update_user_def)

lemma account_change_trans: "account_change a b \<Longrightarrow> account_change b c \<Longrightarrow> account_change a c"
  by (auto simp: account_change_def)

lemma account_change_lockout: "account_change db (registerFailedLogin now i n db)" "account_change db (clearLockoutState i db)"
  by (simp_all add: registerFailedLogin_def clearLockoutState_def account_change_update Let_def)

lemma account_change_finish: "finish_login Y now u c db = (db', r) \<Longrightarrow> account_change db db'"
  by (auto simp: finish_login_def Let_def intro: account_change_trans[OF account_change_lockout(2) account_change_update] account_change_lockout
      split: option.splits)

lemma account_change_refl: "account_change db db"
  by (simp add: account_change_def)

lemma account_change_attempt: "account_change db (fst (try_one Y a db))"
proof (cases a)
  case (TryPassword now name pw)
  then show ?thesis
    by (auto simp: LoginWithMeta_def login_with_def Let_def account_change_lockout account_change_refl split: option.split)
next
  case (TryCode now tok code)
  have m: "account_change db (mark_used i db)" for i by (simp add: account_change_def mark_used_def)
  have f: "account_change d (fst (finish_login Y now u c d))" for u c d
    using account_change_finish[of Y now u c d] by (cases "finish_login Y now u c d") auto
  then show ?thesis using TryCode account_change_trans[OF m f]
    by (auto simp: CompleteMFALogin_def mfa_with_def Let_def account_change_lockout account_change_refl split: option.split sum.split)
qed

lemma account_change_passwords:
  "account_change db (fst (ResetPassword Y now token pw db))" "account_change db (fst (ChangePassword Y now i old new db))"
  by (auto simp: ResetPassword_def ChangePassword_def reset_tx_def drop_refresh_def update_user_def account_change_def Let_def split: option.split)

lemma account_change_authenticate: "account_change db (fst (authenticate E now policyFails form db))"
proof -
  let ?Y = "oe_crypto E"
  have l: "account_change db (fst (LoginWithMeta ?Y now policyFails u p db))" for u p
    by (auto simp: LoginWithMeta_def login_with_def Let_def account_change_lockout account_change_refl split: option.split)
  have "account_change db (fst (CompleteMFALogin ?Y now t c db))" for t c
    using account_change_attempt[of db ?Y "TryCode now t c"] by simp
  moreover have "fst (case p of (db, LoggedIn _ userID) \<Rightarrow> (db, Some userID) | (db, _) \<Rightarrow> (db, None)) = fst p" for p :: "auth_db \<times> login_result"
    by (cases p; cases "snd p") auto
  ultimately show ?thesis using l by (simp add: authenticate_def)
qed

section \<open>Codes and consents\<close>

definition registered :: "auth_db \<Rightarrow> authz_request \<Rightarrow> bool" where
  "registered db r \<longleftrightarrow> (\<exists>c \<in> set (db_clients db). oc_id c = ar_ClientID r \<and> ar_RedirectURI r \<in> set (split_on newline (oc_uris c)) \<and>
     set (Fields (ar_Scope r)) \<subseteq> set (Fields (oc_scope c)))"

text \<open>
  Who submitted a form is settled by what the form holds and the tables held at the time, without reference to the handler: a name
  and the password of an account that needs no second factor, or a token of the password stage and a code of the account's
  authenticator, newer than the last, or a recovery code not used before; and the account is not locked.
\<close>

definition unlocked :: "gotime \<Rightarrow> account \<Rightarrow> bool" where
  "unlocked now u \<longleftrightarrow> (case us_locked u of None \<Rightarrow> True | Some t \<Rightarrow> t \<le> now)"

definition by_password :: "crypto \<Rightarrow> submission \<Rightarrow> account \<Rightarrow> bool" where
  "by_password Y b u \<longleftrightarrow> us_username u = sb_form b ''username'' \<and> cy_bcryptOk Y (us_hash u) (sb_form b ''password'') \<and>
     (us_totpEnabled u \<longrightarrow> us_totpSecret u \<in> {None, Some ''''}) \<and>
     (us_totpEnabled u \<or> us_org u \<notin> Some ` set (db_mfaOrgs (sb_db b)))"

definition by_code :: "crypto \<Rightarrow> submission \<Rightarrow> account \<Rightarrow> bool" where
  "by_code Y b u \<longleftrightarrow> us_totpEnabled u \<and>
     (\<exists>c f. jwt_Verify (cy_jwt Y) (sb_now b) (sb_form b ''mfa_token'') = Some c \<and> map_of c ''mfa_step'' = Some (VBool True) \<and>
        claim_number c ''user_id'' = Some f \<and> to_int64 (cy_go Y) f = us_id u) \<and>
     ((\<exists>secret step. us_totpSecret u = Some secret \<and> cy_totp Y secret (sb_form b ''mfa_code'') step \<and>
         \<bar>step - Unix (sb_now b) div 30\<bar> \<le> 1 \<and> (\<forall>l. us_counter u = Some l \<longrightarrow> l < step)) \<or>
      (\<exists>c \<in> set (db_recovery (sb_db b)). rc_user c = us_id u \<and> \<not> rc_used c \<and> cy_bcryptOk Y (rc_hash c) (sb_form b ''mfa_code'')))"

definition signed_in :: "crypto \<Rightarrow> submission \<Rightarrow> int \<Rightarrow> bool" where
  "signed_in Y b user \<longleftrightarrow> (\<exists>u \<in> set (db_users (sb_db b)). us_id u = user \<and> unlocked (sb_now b) u \<and> (by_password Y b u \<or> by_code Y b u))"

text \<open>The requests that were allowed, by whom, and the value the random generator had next.\<close>

definition consents :: "oauth_env \<Rightarrow> oauth_server \<Rightarrow> (authz_request \<times> int \<times> string) set" where
  "consents E s = {(r, u, code). \<exists>b \<in> set (os_submitted s). sb_form b ''action'' = ''allow'' \<and> signed_in (oe_crypto E) b u \<and>
     parseAuthzRequest False (sb_form b) (sb_db b) = Valid r \<and> code = draw E (sb_db b)}"

text \<open>A consent to what is granted: of this user to this client, to at least this scope.\<close>

definition consented :: "oauth_env \<Rightarrow> oauth_server \<Rightarrow> string \<Rightarrow> int \<Rightarrow> string \<Rightarrow> bool" where
  "consented E s client user scope \<longleftrightarrow> known scope \<and> (\<exists>(r, u, code) \<in> consents E s. ar_ClientID r = client \<and> u = user \<and>
     set (Fields scope) \<subseteq> set (Fields (ar_Scope r)))"

text \<open>For the exchange of a code, the consent is the one the code was issued for, and the request has proved to know its verifier.\<close>

definition backed :: "oauth_env \<Rightarrow> oauth_server \<Rightarrow> token_request \<Rightarrow> string \<Rightarrow> int \<Rightarrow> string \<Rightarrow> bool" where
  "backed E s q client user scope \<longleftrightarrow> consented E s client user scope \<and> (tq_grant q = ''authorization_code'' \<longrightarrow>
     (\<exists>(r, u, code) \<in> consents E s. ar_ClientID r = client \<and> u = user \<and> set (Fields scope) \<subseteq> set (Fields (ar_Scope r)) \<and>
        hashToken E code = hashToken E (tq_code q) \<and> hashToken E (tq_verifier q) = ar_Challenge r \<and> 43 \<le> length (tq_verifier q)))"

definition minted :: "oauth_env \<Rightarrow> string \<Rightarrow> int \<Rightarrow> string \<Rightarrow> string \<Rightarrow> bool" where
  "minted E client user scope access \<longleftrightarrow>
     (\<exists>now v. access = jwt_Sign (cy_jwt (oe_crypto E)) (access_claims E now client scope v) \<and> us_id v = user)"

fun pc_ok :: "oauth_env \<Rightarrow> oauth_server \<Rightarrow> token_request \<Rightarrow> token_pc \<Rightarrow> bool" where
  "pc_ok E s q (Consume client user scope) = backed E s q client user scope"
| "pc_ok E s q (Rotate client user scope) = backed E s q client user scope"
| "pc_ok E s q (Issue client user scope) = backed E s q client user scope"
| "pc_ok E s q (Store client user scope access refresh) \<longleftrightarrow> backed E s q client user scope \<and> minted E client user scope access"
| "pc_ok E s q (Responded (Tokens access refresh scope)) \<longleftrightarrow> (\<exists>client user. backed E s q client user scope \<and> minted E client user scope access)"
| "pc_ok E s q _ = True"

definition code_ok :: "oauth_env \<Rightarrow> oauth_server \<Rightarrow> auth_code \<Rightarrow> bool" where
  "code_ok E s c \<longleftrightarrow> cd_method c = ''S256'' \<and> known (cd_scope c) \<and> (\<exists>(r, u, code) \<in> consents E s. ar_ClientID r = cd_client c \<and> u = cd_user c \<and>
     ar_Scope r = cd_scope c \<and> ar_Challenge r = cd_challenge c \<and> ar_RedirectURI r = cd_redirect c \<and> hashToken E code = cd_hash c)"

definition consent_inv :: "oauth_env \<Rightarrow> oauth_server \<Rightarrow> bool" where
  "consent_inv E s \<longleftrightarrow>
     (\<forall>c \<in> set (db_clients (os_db s)). known (oc_scope c)) \<and>
     (\<forall>(r, u, code) \<in> consents E s. registered (os_db s) r) \<and>
     (\<forall>c \<in> set (db_codes (os_db s)). code_ok E s c) \<and>
     (\<forall>t \<in> set (db_refresh (os_db s)). consented E s (rf_client t) (rf_user t) (rf_scope t)) \<and>
     (\<forall>(q, pc) \<in> set (os_pool s). pc_ok E s q pc)"

text \<open>All of it depends on the consents, which only grows, and on the tables of clients, which only grows.\<close>

lemma consent_mono:
  assumes "consents E s \<subseteq> consents E s'"
  shows "consented E s c u sc \<Longrightarrow> consented E s' c u sc" "backed E s q c u sc \<Longrightarrow> backed E s' q c u sc" "code_ok E s x \<Longrightarrow> code_ok E s' x"
    "pc_ok E s q pc \<Longrightarrow> pc_ok E s' q pc"
proof -
  show 1: "consented E s c u sc \<Longrightarrow> consented E s' c u sc" for c u sc using assms by (fastforce simp: consented_def)
  show 2: "backed E s q c u sc \<Longrightarrow> backed E s' q c u sc" for c u sc using assms 1 unfolding backed_def by fastforce
  show "code_ok E s x \<Longrightarrow> code_ok E s' x" using assms unfolding code_ok_def by blast
  show "pc_ok E s q pc \<Longrightarrow> pc_ok E s' q pc" using 2 by (cases pc; cases "case pc of Responded r \<Rightarrow> r | _ \<Rightarrow> TokenError 0 []") (auto, blast?)
qed

lemma registered_mono: "registered db r \<Longrightarrow> set (db_clients db) \<subseteq> set (db_clients db') \<Longrightarrow> registered db' r"
  by (auto simp: registered_def)

lemma consents_same [simp]: "consents E (s\<lparr>os_pool := ps\<rparr>) = consents E s" "consents E (s\<lparr>os_db := db\<rparr>) = consents E s"
  "consents E (new_server db) = {}"
  by (simp_all add: consents_def new_server_def)

lemma consent_same:
  assumes "os_submitted s' = os_submitted s"
  shows "consented E s' c u sc = consented E s c u sc" "backed E s' q c u sc = backed E s q c u sc" "code_ok E s' x = code_ok E s x" "pc_ok E s' q pc = pc_ok E s q pc"
proof -
  have "consents E s' = consents E s" using assms by (simp add: consents_def)
  then show "consented E s' c u sc = consented E s c u sc" "backed E s' q c u sc = backed E s q c u sc" "code_ok E s' x = code_ok E s x" "pc_ok E s' q pc = pc_ok E s q pc"
    using consent_mono[of E s s'] consent_mono[of E s' s] by auto
qed

lemma consent_inv_db:
  assumes "consent_inv E s" "set (db_clients (os_db s)) \<subseteq> set (db_clients db)" "\<forall>c \<in> set (db_clients db). known (oc_scope c)"
    and "\<forall>c \<in> set (db_codes db). code_ok E s c" "\<forall>t \<in> set (db_refresh db). consented E s (rf_client t) (rf_user t) (rf_scope t)"
  shows "consent_inv E (s\<lparr>os_db := db\<rparr>)"
  using assms consent_same[of "s\<lparr>os_db := db\<rparr>" s] registered_mono[OF _ assms(2)]
  by (fastforce simp: consent_inv_def)

lemma consent_inv_account: "consent_inv E s \<Longrightarrow> account_change (os_db s) db \<Longrightarrow> consent_inv E (s\<lparr>os_db := db\<rparr>)"
  by (rule consent_inv_db) (auto simp: consent_inv_def account_change_def)

lemma code_ok_consumed: "code_ok E s (c\<lparr>cd_consumed := b\<rparr>) = code_ok E s c"
  by (simp add: code_ok_def)

lemma consent_inv_revoke: "consent_inv E s \<Longrightarrow> consent_inv E (s\<lparr>os_db := revoke_where P now (os_db s)\<rparr>)"
  by (rule consent_inv_db) (auto simp: consent_inv_def revoke_where_def)

lemma consent_inv_consume: "consent_inv E s \<Longrightarrow> consent_inv E (s\<lparr>os_db := fst (consume h (os_db s))\<rparr>)"
  by (rule consent_inv_db) (auto simp: consent_inv_def consume_def code_ok_consumed)

lemma consent_inv_pool: "consent_inv E s \<Longrightarrow> pc_ok E s q pc \<Longrightarrow> consent_inv E (s\<lparr>os_pool := (os_pool s)[i := (q, pc)]\<rparr>)"
proof -
  assume a: "consent_inv E s" "pc_ok E s q pc"
  note c = consent_same[of "s\<lparr>os_pool := (os_pool s)[i := (q, pc)]\<rparr>" s]
  have "(q', pc') = (q, pc) \<or> (q', pc') \<in> set (os_pool s)" if "(q', pc') \<in> set ((os_pool s)[i := (q, pc)])" for q' pc'
    using that set_update_subset_insert[of "os_pool s" i "(q, pc)"] by blast
  then show "consent_inv E (s\<lparr>os_pool := (os_pool s)[i := (q, pc)]\<rparr>)"
    using a c by (fastforce simp: consent_inv_def)
qed

lemma Register_effect:
  "db_codes (fst (Register E fails req db)) = db_codes db \<and> db_refresh (fst (Register E fails req db)) = db_refresh db \<and>
   db_drawn db \<le> db_drawn (fst (Register E fails req db)) \<and>
   (db_clients (fst (Register E fails req db)) = db_clients db \<or>
    (\<exists>c. db_clients (fst (Register E fails req db)) = db_clients db @ [c] \<and> known (oc_scope c) \<and>
       oc_uris c = join_newline (rg_RedirectURIs req) \<and> rg_RedirectURIs req \<noteq> [] \<and> list_all (validateRedirectURI E) (rg_RedirectURIs req)))"
  by (auto simp: Register_def Let_def drawn_def normalizeScope_known split: option.split)

definition new_code :: "oauth_env \<Rightarrow> gotime \<Rightarrow> authz_request \<Rightarrow> int \<Rightarrow> string \<Rightarrow> auth_code" where
  "new_code E now r u code = \<lparr>cd_hash = hashToken E code, cd_client = ar_ClientID r, cd_user = u, cd_redirect = ar_RedirectURI r,
     cd_scope = ar_Scope r, cd_challenge = ar_Challenge r, cd_method = ar_Method r, cd_expires = now + authCodeTTL, cd_consumed = False\<rparr>"

lemma issueCode_effect:
  "issueCode E now fails req u db = (db', res) \<Longrightarrow> res = None \<and> account_change db db' \<or>
    (\<exists>code. res = Some code \<and> code = draw E db \<and> hashToken E code \<notin> cd_hash ` set (db_codes db) \<and>
       db' = (drawn 1 db)\<lparr>db_codes := db_codes db @ [new_code E now req u code]\<rparr>)"
  by (auto simp: issueCode_def Let_def drawn_def account_change_def new_code_def split: if_splits)

lemma mfa_user_token:
  assumes "mfa_user Y now tok db = Inr u"
  shows "u \<in> set (db_users db) \<and> us_totpEnabled u \<and> us_totpSecret u \<noteq> None \<and>
    (\<exists>c f. jwt_Verify (cy_jwt Y) now tok = Some c \<and> map_of c ''mfa_step'' = Some (VBool True) \<and>
       claim_number c ''user_id'' = Some f \<and> to_int64 (cy_go Y) f = us_id u)"
  using assms by (auto simp: mfa_user_def user_by_id_def find_Some_iff claim_true_def split: option.splits if_splits)

lemma step_near: "validateTOTPWithCounter Y now secret code = Some n \<Longrightarrow> cy_totp Y secret code n \<and> \<bar>n - Unix now div 30\<bar> \<le> 1"
  by (auto simp: validateTOTPWithCounter_def totpSkew_def find_Some_iff upto.simps split: if_splits)

text \<open>What the handler takes for a sign-in is one.\<close>

lemma mfa_signs_in:
  assumes "CompleteMFALogin Y now (form ''mfa_token'') (form ''mfa_code'') db = (db', LoggedIn t i)"
  shows "signed_in Y \<lparr>sb_now = now, sb_form = form, sb_db = db\<rparr> i \<and> db_drawn db' = db_drawn db"
proof -
  obtain u where u: "mfa_user Y now (form ''mfa_token'') db = Inr u" "mfa_with Y now (form ''mfa_code'') u db = (db', LoggedIn t i)"
    using assms by (auto simp: CompleteMFALogin_def split: sum.splits)
  note m = mfa_user_token[OF u(1)]
  have i: "i = us_id u \<and> unlocked now u \<and> db_drawn db' = db_drawn db"
    using u(2) by (auto simp: mfa_with_def finish_login_def mark_used_def clearLockoutState_def update_user_def checkLockout_def unlocked_def
        account_locked_def code_error_def Let_def split: if_splits option.splits)
  have "(\<exists>secret step. us_totpSecret u = Some secret \<and> cy_totp Y secret (form ''mfa_code'') step \<and>
         \<bar>step - Unix now div 30\<bar> \<le> 1 \<and> (\<forall>l. us_counter u = Some l \<longrightarrow> l < step)) \<or>
      (\<exists>c \<in> set (db_recovery db). rc_user c = us_id u \<and> \<not> rc_used c \<and> cy_bcryptOk Y (rc_hash c) (form ''mfa_code''))"
  proof (cases "validateTOTPWithCounter Y now (the (us_totpSecret u)) (form ''mfa_code'')")
    case None
    then have "find (\<lambda>c. rc_user c = us_id u \<and> \<not> rc_used c \<and> cy_bcryptOk Y (rc_hash c) (form ''mfa_code'')) (db_recovery db) \<noteq> None"
      using u(2) by (auto simp: mfa_with_def code_error_def account_locked_def split: if_splits option.splits)
    then show ?thesis by (auto simp: find_None_iff)
  next
    case (Some n)
    then have "\<forall>l. us_counter u = Some l \<longrightarrow> l < n"
      using u(2) by (auto simp: mfa_with_def code_error_def account_locked_def split: if_splits option.splits)
    then show ?thesis using m step_near[OF Some] by auto
  qed
  then show ?thesis using m i by (auto simp: signed_in_def by_code_def)
qed

lemma password_signs_in:
  assumes "LoginWithMeta Y now policyFails (form ''username'') (form ''password'') db = (db', LoggedIn t i)"
  shows "signed_in Y \<lparr>sb_now = now, sb_form = form, sb_db = db\<rparr> i \<and> db_drawn db' = db_drawn db"
proof -
  obtain u where u: "user_by_name db (form ''username'') = Some u" "login_with Y now policyFails (form ''password'') u db = (db', LoggedIn t i)"
    using assms by (auto simp: LoginWithMeta_def invalid_credentials_def split: option.splits)
  have n: "us_username u = form ''username'' \<and> u \<in> set (db_users db)" using u(1) by (auto simp: user_by_name_def find_Some_iff)
  have "i = us_id u \<and> unlocked now u \<and> db_drawn db' = db_drawn db \<and> by_password Y \<lparr>sb_now = now, sb_form = form, sb_db = db\<rparr> u"
    using u(2) n by (auto simp: login_with_def by_password_def clearLockoutState_def update_user_def checkLockout_def
        unlocked_def account_locked_def invalid_credentials_def Let_def split: if_splits option.splits)
  with n show ?thesis by (auto simp: signed_in_def)
qed

lemma authenticate_signs_in:
  assumes "authenticate E now policyFails form db = (db', Some i)"
  shows "signed_in (oe_crypto E) \<lparr>sb_now = now, sb_form = form, sb_db = db\<rparr> i \<and> db_drawn db' = db_drawn db"
proof (cases "form ''mfa_token'' = ''''")
  case True
  then obtain t where "LoginWithMeta (oe_crypto E) now policyFails (form ''username'') (form ''password'') db = (db', LoggedIn t i)"
    using assms by (auto simp: authenticate_def split: prod.splits login_result.splits)
  then show ?thesis by (rule password_signs_in)
next
  case False
  then obtain t where "CompleteMFALogin (oe_crypto E) now (form ''mfa_token'') (form ''mfa_code'') db = (db', LoggedIn t i)"
    using assms by (auto simp: authenticate_def split: prod.splits login_result.splits)
  then show ?thesis by (rule mfa_signs_in)
qed

lemma parse_fails: "parseAuthzRequest fails form db = Valid r \<Longrightarrow> parseAuthzRequest False form db = Valid r"
  by (cases fails) (auto simp: parseAuthzRequest_def Let_def split: if_splits)

lemma Decision_effect:
  assumes "Decision E now faults form db = (db', ans)"
  shows "account_change db db' \<or>
    (\<exists>r u db1. form ''action'' = ''allow'' \<and> signed_in (oe_crypto E) \<lparr>sb_now = now, sb_form = form, sb_db = db\<rparr> u \<and>
       parseAuthzRequest False form db = Valid r \<and> account_change db db1 \<and> draw E db1 = draw E db \<and>
       hashToken E (draw E db1) \<notin> cd_hash ` set (db_codes db1) \<and>
       db' = (drawn 1 db1)\<lparr>db_codes := db_codes db1 @ [new_code E now r u (draw E db1)]\<rparr>)"
proof (cases "parseAuthzRequest (fst faults) form db")
  case (Valid r)
  obtain x policyFails fails where f: "faults = (x, policyFails, fails)" by (cases faults) auto
  obtain db1 res where a: "authenticate E now policyFails form db = (db1, res)" by fastforce
  have ch: "account_change db db1" using account_change_authenticate[of db E now policyFails form] a by simp
  show ?thesis
  proof (cases "form ''action'' = ''allow'' \<and> res \<noteq> None")
    case True
    then obtain u where u: "res = Some u" by blast
    note sg = authenticate_signs_in[OF a[unfolded u]]
    obtain db2 c where i: "issueCode E now fails r u db1 = (db2, c)" by fastforce
    have db': "db' = db2" using assms True u f a i Valid by (auto simp: Decision_def split: option.splits)
    from issueCode_effect[OF i] show ?thesis
    proof
      assume "c = None \<and> account_change db1 db2"
      then show ?thesis using db' account_change_trans[OF ch] by blast
    next
      assume "\<exists>code. c = Some code \<and> code = draw E db1 \<and> hashToken E code \<notin> cd_hash ` set (db_codes db1) \<and>
        db2 = (drawn 1 db1)\<lparr>db_codes := db_codes db1 @ [new_code E now r u code]\<rparr>"
      then have "db' = (drawn 1 db1)\<lparr>db_codes := db_codes db1 @ [new_code E now r u (draw E db1)]\<rparr>"
        "hashToken E (draw E db1) \<notin> cd_hash ` set (db_codes db1)" using db' by blast+
      moreover have "draw E db1 = draw E db" using sg by (simp add: draw_def)
      ultimately show ?thesis using True sg ch parse_fails[OF Valid] by blast
    qed
  next
    case False
    then have "db' = db \<or> db' = db1" using assms f a Valid by (auto simp: Decision_def split: if_splits)
    then show ?thesis using ch account_change_refl by auto
  qed
qed (use assms account_change_refl in \<open>auto simp: Decision_def split: prod.splits\<close>)

lemma parse_fields:
  "parseAuthzRequest fails form db = Valid r \<Longrightarrow> ar_ClientID r = TrimSpace (form ''client_id'') \<and> ar_Challenge r = TrimSpace (form ''code_challenge'')"
  by (auto simp: parseAuthzRequest_def Let_def split: if_splits option.splits)

lemma parse_valid:
  assumes "parseAuthzRequest fails form db = Valid r" "\<forall>c \<in> set (db_clients db). known (oc_scope c)"
  shows "registered db r \<and> ar_Method r = ''S256'' \<and> known (ar_Scope r)"
proof -
  obtain c where c: "find_client db (ar_ClientID r) = Some c" "ar_RedirectURI r \<in> set (split_on newline (oc_uris c))"
    "ar_Method r = ''S256''" "\<exists>asked. restrictScope asked (oc_scope c) = Some (ar_Scope r)"
    using assms(1) unfolding parseAuthzRequest_def Let_def containsExact_def
    by (auto split: if_split_asm option.split_asm) blast+
  have "c \<in> set (db_clients db)" "oc_id c = ar_ClientID r" using c(1) by (auto simp: find_client_def find_Some_iff)
  then show ?thesis using c(2-4) assms(2) restrictScope_subset by (fastforce simp: registered_def)
qed

lemma consent_inv_decide:
  assumes "consent_inv E s" "Decision E now faults form (os_db s) = (db, ans)"
  shows "consent_inv E (s\<lparr>os_db := db, os_submitted := os_submitted s @ [\<lparr>sb_now = now, sb_form = form, sb_db = os_db s\<rparr>]\<rparr>)"
proof -
  let ?b = "\<lparr>sb_now = now, sb_form = form, sb_db = os_db s\<rparr>"
  let ?t = "s\<lparr>os_submitted := os_submitted s @ [?b]\<rparr>"
  have sub: "consents E s \<subseteq> consents E ?t" by (auto simp: consents_def)
  have cl: "\<forall>c \<in> set (db_clients (os_db s)). known (oc_scope c)" using assms(1) by (simp add: consent_inv_def)
  have "registered (os_db s) r" if "(r, u, code) \<in> consents E ?t" for r u code
  proof (cases "(r, u, code) \<in> consents E s")
    case True
    then show ?thesis using assms(1) by (auto simp: consent_inv_def)
  next
    case False
    then have "parseAuthzRequest False form (os_db s) = Valid r" using that by (auto simp: consents_def)
    then show ?thesis using parse_valid cl by blast
  qed
  then have t: "consent_inv E ?t"
    using assms(1) consent_mono[OF sub] by (fastforce simp: consent_inv_def)
  have eq: "?t\<lparr>os_db := db\<rparr> = s\<lparr>os_db := db, os_submitted := os_submitted s @ [?b]\<rparr>" by (cases s) simp
  from Decision_effect[OF assms(2)] have "consent_inv E (?t\<lparr>os_db := db\<rparr>)"
  proof (elim disjE exE conjE)
    assume "account_change (os_db s) db"
    then show ?thesis using consent_inv_account[OF t] by simp
  next
    fix r u db1
    assume c: "form ''action'' = ''allow''" "signed_in (oe_crypto E) ?b u" "parseAuthzRequest False form (os_db s) = Valid r"
      "account_change (os_db s) db1" "draw E db1 = draw E (os_db s)"
      and db: "db = (drawn 1 db1)\<lparr>db_codes := db_codes db1 @ [new_code E now r u (draw E db1)]\<rparr>"
    have p: "ar_Method r = ''S256''" "known (ar_Scope r)" using parse_valid[OF c(3) cl] by auto
    have "(r, u, draw E db1) \<in> consents E ?t" using c by (auto simp: consents_def)
    then have "code_ok E ?t (new_code E now r u (draw E db1))" using p by (auto simp: code_ok_def new_code_def)
    with t c(4) show ?thesis
      by (intro consent_inv_db) (auto simp: consent_inv_def account_change_def db drawn_def)
  qed
  then show ?thesis by (simp only: eq)
qed

section \<open>A token needs a consent\<close>

lemma check_code_ok:
  assumes "code_ok E s c" "cd_hash c = hashToken E (tq_code q)"
  shows "pc_ok E s q (check_code E now q clientID c)"
proof (cases "check_code E now q clientID c")
  case (Consume cl u sc)
  then have v: "cl = cd_client c" "u = cd_user c" "sc = cd_scope c" "verifyPKCE E (tq_verifier q) (cd_challenge c) (cd_method c)"
    by (auto simp: check_code_def split: if_splits)
  then have "hashToken E (tq_verifier q) = cd_challenge c" "43 \<le> length (tq_verifier q)"
    by (auto simp: verifyPKCE_def hashToken_def split: if_splits)
  then have "backed E s q cl u sc"
    using assms v(1-3) by (fastforce simp: code_ok_def backed_def consented_def)
  then show ?thesis using Consume by simp
qed (auto simp: check_code_def split: if_splits)

lemma check_refresh_ok:
  assumes "consented E s (rf_client t) (rf_user t) (rf_scope t)" "tq_grant q \<noteq> ''authorization_code''"
  shows "pc_ok E s q (check_refresh E now q clientID t)"
proof (cases "check_refresh E now q clientID t")
  case (Rotate cl u sc)
  then have v: "cl = rf_client t" "u = rf_user t" "sc = rf_scope t \<or> (\<exists>asked. restrictScope asked (rf_scope t) = Some sc)"
    by (auto simp: check_refresh_def Let_def split: if_splits option.splits)
  have "known (rf_scope t)" using assms(1) by (simp add: consented_def)
  then have "known sc \<and> set (Fields sc) \<subseteq> set (Fields (rf_scope t))" using v(3) restrictScope_subset by blast
  then have "backed E s q cl u sc" using assms v(1,2) by (fastforce simp: backed_def consented_def)
  then show ?thesis using Rotate by simp
qed (auto simp: check_refresh_def Let_def split: if_splits option.splits)

lemma consent_inv_advance:
  assumes inv: "consent_inv E s" and i: "i < length (os_pool s)" "os_pool s ! i = (q, pc)"
    and st: "token_step E now fails q pc (os_db s) = (db, pc')"
  shows "consent_inv E (s\<lparr>os_db := db, os_pool := (os_pool s)[i := (q, pc')]\<rparr>)"
proof -
  have pc: "pc_ok E s q pc" using inv i nth_mem[OF i(1)] by (auto simp: consent_inv_def)
  have codes: "code_ok E s c" if "c \<in> set (db_codes (os_db s))" for c using inv that by (auto simp: consent_inv_def)
  have refr: "consented E s (rf_client t) (rf_user t) (rf_scope t)" if "t \<in> set (db_refresh (os_db s))" for t
    using inv that by (auto simp: consent_inv_def)
  have "pc_ok E s q pc' \<and> consent_inv E (s\<lparr>os_db := db\<rparr>)"
  proof (cases pc)
    case Start
    then show ?thesis using st inv by (auto simp: authenticateClient_def Let_def split: if_splits option.splits prod.splits)
  next
    case (Find clientID)
    then have db: "db = os_db s" using st by simp
    have "find_code E q (os_db s) = Some c \<Longrightarrow> pc_ok E s q (check_code E now q clientID c)" for c
      by (rule check_code_ok) (use codes in \<open>auto simp: find_code_def find_Some_iff\<close>)
    moreover have "tq_grant q \<noteq> ''authorization_code'' \<Longrightarrow> find_refresh E q (os_db s) = Some t \<Longrightarrow> pc_ok E s q (check_refresh E now q clientID t)" for t
      by (rule check_refresh_ok) (use refr in \<open>auto simp: find_refresh_def find_Some_iff\<close>)
    ultimately have "pc_ok E s q pc'" using Find st by (auto split: option.splits if_splits)
    then show ?thesis using inv db by simp
  next
    case (RevokeFamily cl u)
    then show ?thesis using st inv consent_inv_revoke[OF inv] by (auto simp: revokeFamily_def split: if_splits)
  next
    case (Consume cl u sc)
    then show ?thesis using st pc inv consent_inv_consume[OF inv, of "hashToken E (tq_code q)"]
      by (cases "consume (hashToken E (tq_code q)) (os_db s)") (auto split: if_splits)
  next
    case (Rotate cl u sc)
    then show ?thesis using st pc inv consent_inv_revoke[OF inv] by (auto split: if_splits)
  next
    case (Issue cl u sc)
    have m: "user_by_id (os_db s) u = Some v \<Longrightarrow> minted E cl u sc (jwt_Sign (cy_jwt (oe_crypto E)) (access_claims E now cl sc v))" for v
      unfolding minted_def using user_by_id_eq by blast
    then have "db = os_db s \<or> db = drawn 1 (os_db s)" and "pc_ok E s q pc'"
      using st pc Issue by (auto split: if_splits option.splits)
    moreover have "account_change (os_db s) (drawn 1 (os_db s))" by (simp add: account_change_def drawn_def)
    ultimately show ?thesis using inv consent_inv_account[OF inv] by auto
  next
    case (Store cl u sc access refresh)
    then have "backed E s q cl u sc" using pc by simp
    then have "consented E s cl u sc" by (simp add: backed_def)
    then have "consent_inv E (s\<lparr>os_db := db\<rparr>)"
      using st Store by (intro consent_inv_db[OF inv]) (use inv in \<open>auto simp: consent_inv_def split: if_splits\<close>)
    then show ?thesis using st Store pc by (auto split: if_splits)
  next
    case (Responded r)
    then show ?thesis using st pc inv by auto
  qed
  then have "consent_inv E ((s\<lparr>os_db := db\<rparr>)\<lparr>os_pool := (os_pool (s\<lparr>os_db := db\<rparr>))[i := (q, pc')]\<rparr>)"
    using consent_same(4)[of "s\<lparr>os_db := db\<rparr>" s] by (intro consent_inv_pool) auto
  then show ?thesis by simp
qed

lemma consent_inv_step: "oauth_step E s s' \<Longrightarrow> consent_inv E s \<Longrightarrow> consent_inv E s'"
proof (induction rule: oauth_step.induct)
  case (register s fails req)
  then show ?case
    using Register_effect[of E fails req "os_db s"] by (intro consent_inv_db) (auto simp: consent_inv_def)
next
  case (decide now faults form s db ans)
  then show ?case by (rule consent_inv_decide[rotated])
next
  case (arrive s q)
  then show ?case using consent_same[of "s\<lparr>os_pool := os_pool s @ [(q, Start)]\<rparr>" s] by (auto simp: consent_inv_def)
next
  case (advance i s q pc now fails db pc')
  then show ?case by (intro consent_inv_advance)
next
  case (revoke s now faults q token)
  then show ?case using consent_inv_revoke by (auto simp: Revoke_def split: sum.split)
next
  case (revoke_authorization s now userID clientID)
  then show ?case using consent_inv_revoke by (simp add: RevokeAuthorization_def revokeFamily_def)
next
  case (accounts s db)
  then show ?case by (intro consent_inv_account)
next
  case (cleanup s now)
  then show ?case by (intro consent_inv_db) (auto simp: consent_inv_def oauth_cleanup_def)
qed

lemma reach_consent: "oauth_reach E s \<Longrightarrow> consent_inv E s"
proof (induction rule: oauth_reach.induct)
  case (start db)
  show ?case unfolding consent_inv_def consents_same(3) by (simp add: new_server_def)
qed (rule consent_inv_step)

text \<open>
C15: whatever requests run at the same time, a token is given to a client for a user only where, some time before, a form came in that allowed
this client's request and signed this user in, by a password and a second factor as the account demands; for no more than the scope
asked for there, which is no more than the client registered; the address of the answer is one the client registered; and who
exchanges a code presents the one issued on that form and knows the verifier of its challenge.
\<close>

theorem token_needs_consent:
  assumes "oauth_reach E s" "(q, Responded (Tokens access refresh scope)) \<in> set (os_pool s)"
  shows "\<exists>b \<in> set (os_submitted s). \<exists>r user. sb_form b ''action'' = ''allow'' \<and>
    (\<exists>u \<in> set (db_users (sb_db b)). us_id u = user \<and> unlocked (sb_now b) u \<and> (by_password (oe_crypto E) b u \<or> by_code (oe_crypto E) b u)) \<and>
    parseAuthzRequest False (sb_form b) (sb_db b) = Valid r \<and> ar_ClientID r = TrimSpace (sb_form b ''client_id'') \<and>
    minted E (ar_ClientID r) user scope access \<and>
    set (Fields scope) \<subseteq> set (Fields (ar_Scope r)) \<and> registered (os_db s) r \<and>
    (tq_grant q = ''authorization_code'' \<longrightarrow> hashToken E (draw E (sb_db b)) = hashToken E (tq_code q) \<and>
       hashToken E (tq_verifier q) = TrimSpace (sb_form b ''code_challenge'') \<and> 43 \<le> length (tq_verifier q))"
proof -
  note inv = reach_consent[OF assms(1)]
  then have "pc_ok E s q (Responded (Tokens access refresh scope))" using assms(2) by (auto simp: consent_inv_def)
  then obtain client user where b: "backed E s q client user scope" "minted E client user scope access" by auto
  have reg: "registered (os_db s) r" if "(r, u, code) \<in> consents E s" for r u code using inv that by (auto simp: consent_inv_def)
  obtain r code where r: "(r, user, code) \<in> consents E s" "ar_ClientID r = client" "set (Fields scope) \<subseteq> set (Fields (ar_Scope r))"
    "tq_grant q = ''authorization_code'' \<longrightarrow> hashToken E code = hashToken E (tq_code q) \<and>
       hashToken E (tq_verifier q) = ar_Challenge r \<and> 43 \<le> length (tq_verifier q)"
    using b(1) unfolding backed_def consented_def by (cases "tq_grant q = ''authorization_code''") blast+
  obtain a where a: "a \<in> set (os_submitted s)" "sb_form a ''action'' = ''allow''" "signed_in (oe_crypto E) a user"
    "parseAuthzRequest False (sb_form a) (sb_db a) = Valid r" "code = draw E (sb_db a)"
    using r(1) unfolding consents_def by blast
  have "ar_ClientID r = TrimSpace (sb_form a ''client_id'')" "ar_Challenge r = TrimSpace (sb_form a ''code_challenge'')"
    using parse_fields[OF a(4)] by simp_all
  then show ?thesis using a r(2-4) reg[OF r(1)] b(2) unfolding signed_in_def by metis
qed

section \<open>A code is good for one token\<close>

text \<open>The random generator does not repeat itself, and the digest does not collide on its values.\<close>

definition fresh_tokens :: "oauth_env \<Rightarrow> bool" where
  "fresh_tokens E \<longleftrightarrow> inj (\<lambda>n. hashToken E (cy_random (oe_crypto E) n))"

definition token_hash :: "oauth_env \<Rightarrow> nat \<Rightarrow> string" where
  "token_hash E n = hashToken E (cy_random (oe_crypto E) n)"

text \<open>A request that has consumed the code with this digest.\<close>

fun past :: "oauth_env \<Rightarrow> string \<Rightarrow> token_request \<times> token_pc \<Rightarrow> bool" where
  "past E h (q, pc) \<longleftrightarrow> tq_grant q = ''authorization_code'' \<and> hashToken E (tq_code q) = h \<and>
     (case pc of Issue _ _ _ \<Rightarrow> True | Store _ _ _ _ _ \<Rightarrow> True | Responded (Tokens _ _ _) \<Rightarrow> True | _ \<Rightarrow> False)"

declare past.simps [simp del]

definition consumers :: "oauth_env \<Rightarrow> string \<Rightarrow> oauth_server \<Rightarrow> nat" where
  "consumers E h s = length (filter (past E h) (os_pool s))"

text \<open>At most one consumer, and then the code was issued and its row, while there, is consumed.\<close>

definition spent :: "oauth_env \<Rightarrow> auth_db \<Rightarrow> string \<Rightarrow> nat \<Rightarrow> bool" where
  "spent E db h k \<longleftrightarrow> k \<le> 1 \<and> (k \<noteq> 0 \<longrightarrow>
     (\<exists>n < db_drawn db. h = token_hash E n) \<and> (\<forall>c \<in> set (db_codes db). cd_hash c = h \<longrightarrow> cd_consumed c))"

lemma spent_less: "spent E db h k \<Longrightarrow> m \<le> k \<Longrightarrow> spent E db h m"
  unfolding spent_def by (cases "m = 0") auto

lemma spent_db:
  assumes "spent E db h k" "db_drawn db \<le> db_drawn db'"
    and "\<And>c. c \<in> set (db_codes db') \<Longrightarrow> cd_hash c = h \<Longrightarrow> cd_consumed c \<or> (\<exists>d \<in> set (db_codes db). cd_hash d = h \<and> (cd_consumed d \<longrightarrow> cd_consumed c))"
  shows "spent E db' h k"
  unfolding spent_def
proof (intro conjI impI ballI)
  assume "k \<noteq> 0"
  then obtain n where "n < db_drawn db" "h = token_hash E n" using assms(1) unfolding spent_def by blast
  then show "\<exists>n < db_drawn db'. h = token_hash E n" using assms(2) by (intro exI[of _ n]) simp
  fix c assume "c \<in> set (db_codes db')" "cd_hash c = h"
  then show "cd_consumed c" using assms(1,3) \<open>k \<noteq> 0\<close> unfolding spent_def by blast
qed (use assms(1) in \<open>simp add: spent_def\<close>)

definition once_inv :: "oauth_env \<Rightarrow> oauth_server \<Rightarrow> bool" where
  "once_inv E s \<longleftrightarrow>
     (\<forall>c \<in> set (db_codes (os_db s)). \<exists>n < db_drawn (os_db s). cd_hash c = token_hash E n) \<and>
     distinct (map cd_hash (db_codes (os_db s))) \<and>
     (\<forall>(q, pc) \<in> set (os_pool s). (\<exists>cl u sc. pc = Rotate cl u sc) \<longrightarrow> tq_grant q \<noteq> ''authorization_code'') \<and>
     (\<forall>h. spent E (os_db s) h (consumers E h s))"

lemma once_invD:
  assumes "once_inv E s"
  shows "c \<in> set (db_codes (os_db s)) \<Longrightarrow> \<exists>n < db_drawn (os_db s). cd_hash c = token_hash E n"
    and "distinct (map cd_hash (db_codes (os_db s)))" and "spent E (os_db s) h (consumers E h s)"
    and "(q, Rotate cl u sc) \<in> set (os_pool s) \<Longrightarrow> tq_grant q \<noteq> ''authorization_code''"
  using assms unfolding once_inv_def by blast+

lemma consumers_db [simp]: "consumers E h (s\<lparr>os_db := db\<rparr>) = consumers E h s"
  by (simp add: consumers_def)

lemma once_db:
  assumes "once_inv E s" "set (db_codes db) \<subseteq> set (db_codes (os_db s))" "distinct (map cd_hash (db_codes db))" "db_drawn (os_db s) \<le> db_drawn db"
  shows "once_inv E (s\<lparr>os_db := db\<rparr>)"
proof -
  have "spent E db h (consumers E h s)" for h using once_invD(3)[OF assms(1)] assms(4) by (rule spent_db) (use assms(2) in blast)
  moreover have "\<exists>n < db_drawn db. cd_hash c = token_hash E n" if "c \<in> set (db_codes db)" for c
    using once_invD(1)[OF assms(1)] assms(2,4) that by (meson less_le_trans subsetD)
  ultimately show ?thesis using assms(1,3) by (simp add: once_inv_def)
qed

lemma once_account: "once_inv E s \<Longrightarrow> account_change (os_db s) db \<Longrightarrow> once_inv E (s\<lparr>os_db := db\<rparr>)"
  by (rule once_db) (auto simp: account_change_def once_inv_def)

lemma length_filter_update:
  "i < length xs \<Longrightarrow> length (filter P (xs[i := y])) + (if P (xs ! i) then 1 else 0) = length (filter P xs) + (if P y then 1 else 0)"
proof (induction xs arbitrary: i)
  case (Cons x xs)
  show ?case using Cons.prems Cons.IH[of "i - 1"] by (cases i) auto
qed simp

text \<open>Only the step that consumes a code makes a request one of its consumers.\<close>

lemma past_step:
  assumes "token_step E now fails q pc db = (db', pc')" "past E h (q, pc')" "\<not> past E h (q, pc)"
    and "(\<exists>cl u sc. pc = Rotate cl u sc) \<longrightarrow> tq_grant q \<noteq> ''authorization_code''"
  shows "\<exists>cl u sc. pc = Consume cl u sc \<and> h = hashToken E (tq_code q) \<and> consume h db = (db', 1)"
  using assms
  by (cases pc) (auto simp: past.simps authenticateClient_def check_code_def check_refresh_def Let_def split: if_splits option.splits prod.splits)

lemma check_code_pc: "check_code E now q clientID c \<noteq> Rotate cl u sc"
  by (simp add: check_code_def)

lemma rotate_step:
  assumes "token_step E now fails q pc db = (db', Rotate cl u sc)" "(\<exists>cl u sc. pc = Rotate cl u sc) \<longrightarrow> tq_grant q \<noteq> ''authorization_code''"
  shows "tq_grant q \<noteq> ''authorization_code''"
proof (cases pc)
  case (Find clientID)
  then show ?thesis using assms(1) by (auto simp: check_code_pc split: if_splits option.splits)
next
  case (Rotate cl u sc)
  then show ?thesis using assms(2) by blast
qed (use assms(1) in \<open>auto split: if_splits option.splits sum.splits prod.splits\<close>)

lemma consume_hashes: "map cd_hash (db_codes (fst (consume h db))) = map cd_hash (db_codes db)"
  by (simp add: consume_def)

lemma consume_marks: "\<forall>c \<in> set (db_codes (fst (consume h db))). cd_hash c = h \<longrightarrow> cd_consumed c"
proof -
  define mark :: "auth_code \<Rightarrow> auth_code" where "mark = (\<lambda>c. if cd_hash c = h then c\<lparr>cd_consumed := True\<rparr> else c)"
  have m: "cd_consumed (mark d)" if "cd_hash (mark d) = h" for d
  proof (cases "cd_hash d = h")
    case True
    then have "mark d = d\<lparr>cd_consumed := True\<rparr>" unfolding mark_def by (rule if_P)
    then show ?thesis by simp
  next
    case False
    then have "mark d = d" unfolding mark_def by (rule if_not_P)
    with that False show ?thesis by simp
  qed
  have "db_codes (fst (consume h db)) = map mark (db_codes db)" by (simp add: consume_def mark_def)
  then show ?thesis using m by (metis (no_types) imageE list.set_map)
qed

lemma consume_drawn: "db_drawn (fst (consume h db)) = db_drawn db"
  by (simp add: consume_def)

lemma token_step_codes:
  assumes "token_step E now fails q pc db = (db', pc')"
  shows "db_drawn db \<le> db_drawn db' \<and> (db_codes db' = db_codes db \<or> (\<exists>h. db' = fst (consume h db)))"
proof (cases pc)
  case (Consume cl u sc)
  then have "db' = db \<or> db' = fst (consume (hashToken E (tq_code q)) db)"
    using assms by (auto split: if_splits prod.splits)
  then show ?thesis by (metis consume_drawn order_refl)
qed (use assms in \<open>auto simp: revokeFamily_def revoke_where_def drawn_def split: if_splits option.splits prod.splits\<close>)

lemma once_consume:
  assumes "once_inv E s"
  shows "once_inv E (s\<lparr>os_db := fst (consume h (os_db s))\<rparr>)"
proof -
  let ?db = "fst (consume h (os_db s))"
  have row: "\<exists>d \<in> set (db_codes (os_db s)). cd_hash d = cd_hash x \<and> (cd_consumed d \<longrightarrow> cd_consumed x)"
    if "x \<in> set (db_codes ?db)" for x using that by (auto simp: consume_def)
  have dr: "db_drawn ?db = db_drawn (os_db s)" by (simp add: consume_def)
  have "spent E ?db x (consumers E x s)" for x
    using once_invD(3)[OF assms] by (rule spent_db) (use dr row in fastforce)+
  moreover have "\<exists>n < db_drawn ?db. cd_hash c = token_hash E n" if "c \<in> set (db_codes ?db)" for c
    using row[OF that] once_invD(1)[OF assms] dr by metis
  moreover have "distinct (map cd_hash (db_codes ?db))" using once_invD(2)[OF assms] by (simp only: consume_hashes)
  ultimately show ?thesis using assms by (simp add: once_inv_def)
qed

lemma once_pool:
  assumes "once_inv E s" "\<forall>(q, pc) \<in> set ps. (\<exists>cl u sc. pc = Rotate cl u sc) \<longrightarrow> tq_grant q \<noteq> ''authorization_code''"
    and "\<And>h. spent E (os_db s) h (length (filter (past E h) ps))"
  shows "once_inv E (s\<lparr>os_pool := ps\<rparr>)"
  using assms by (simp add: once_inv_def consumers_def)

lemma once_advance:
  assumes inv: "once_inv E s" and i: "i < length (os_pool s)" "os_pool s ! i = (q, pc)"
    and st: "token_step E now fails q pc (os_db s) = (db, pc')"
  shows "once_inv E (s\<lparr>os_db := db, os_pool := (os_pool s)[i := (q, pc')]\<rparr>)"
proof -
  have mem: "(q, pc) \<in> set (os_pool s)" using i nth_mem by metis
  then have rot: "(\<exists>cl u sc. pc = Rotate cl u sc) \<longrightarrow> tq_grant q \<noteq> ''authorization_code''" using once_invD(4)[OF inv] by blast
  have db: "once_inv E (s\<lparr>os_db := db\<rparr>)"
    using token_step_codes[OF st]
  proof (elim conjE disjE exE)
    assume "db_drawn (os_db s) \<le> db_drawn db" "db_codes db = db_codes (os_db s)"
    then show ?thesis using once_invD(2)[OF inv] by (intro once_db[OF inv]) auto
  qed (simp add: once_consume[OF inv])
  let ?ps = "(os_pool s)[i := (q, pc')]"
  have upd: "length (filter (past E h) ?ps) + (if past E h (q, pc) then 1 else 0) = consumers E h s + (if past E h (q, pc') then 1 else 0)" for h
    using length_filter_update[OF i(1), of "past E h" "(q, pc')"] by (simp add: consumers_def i(2))
  have "once_inv E ((s\<lparr>os_db := db\<rparr>)\<lparr>os_pool := ?ps\<rparr>)"
  proof (rule once_pool[OF db])
    have "(q', pc'') = (q, pc') \<or> (q', pc'') \<in> set (os_pool s)" if "(q', pc'') \<in> set ?ps" for q' pc''
      using that set_update_subset_insert[of "os_pool s" i "(q, pc')"] by blast
    then show "\<forall>(q, pc) \<in> set ?ps. (\<exists>cl u sc. pc = Rotate cl u sc) \<longrightarrow> tq_grant q \<noteq> ''authorization_code''"
      using once_invD(4)[OF inv] rotate_step[OF _ rot] st by blast
  next
    fix h
    show "spent E (os_db (s\<lparr>os_db := db\<rparr>)) h (length (filter (past E h) ?ps))"
    proof (cases "past E h (q, pc') \<and> \<not> past E h (q, pc)")
      case True
      then obtain cl u sc where c: "pc = Consume cl u sc" "consume h (os_db s) = (db, 1)" using past_step[OF st _ _ rot] by blast
      then have "length (filter (\<lambda>c. cd_hash c = h \<and> \<not> cd_consumed c) (db_codes (os_db s))) = 1" by (simp add: consume_def)
      then have "filter (\<lambda>c. cd_hash c = h \<and> \<not> cd_consumed c) (db_codes (os_db s)) \<noteq> []" by auto
      then obtain x where x: "x \<in> set (db_codes (os_db s))" "cd_hash x = h" "\<not> cd_consumed x" unfolding filter_empty_conv by blast
      then have "consumers E h s = 0" using once_invD(3)[OF inv, of h] unfolding spent_def by blast
      then have "length (filter (past E h) ?ps) = 1" using upd[of h] True by simp
      moreover have dbc: "db = fst (consume h (os_db s))" using c(2) by simp
      have "\<exists>n < db_drawn db. h = token_hash E n" using once_invD(1)[OF inv x(1)] unfolding x(2) dbc consume_drawn .
      moreover have "\<forall>c \<in> set (db_codes db). cd_hash c = h \<longrightarrow> cd_consumed c" unfolding dbc by (rule consume_marks)
      ultimately show ?thesis unfolding spent_def by simp
    next
      case False
      then have "length (filter (past E h) ?ps) \<le> consumers E h s"
        using upd[of h] by (cases "past E h (q, pc')"; cases "past E h (q, pc)") simp_all
      with once_invD(3)[OF db, of h] show ?thesis by (simp add: spent_less)
    qed
  qed
  then show ?thesis by simp
qed

lemma once_decide:
  assumes fresh: "fresh_tokens E" and inv: "once_inv E s" and d: "Decision E now faults form (os_db s) = (db, ans)"
  shows "once_inv E (s\<lparr>os_db := db, os_submitted := cs\<rparr>)"
proof -
  have cs: "once_inv E (t\<lparr>os_submitted := cs\<rparr>) = once_inv E t" for t by (simp add: once_inv_def consumers_def)
  have "once_inv E (s\<lparr>os_db := db\<rparr>)"
    using Decision_effect[OF d]
  proof (elim disjE exE conjE)
    assume "account_change (os_db s) db"
    then show ?thesis by (rule once_account[OF inv])
  next
    fix r u db1
    assume ch: "account_change (os_db s) db1" and new: "hashToken E (draw E db1) \<notin> cd_hash ` set (db_codes db1)"
      and db: "db = (drawn 1 db1)\<lparr>db_codes := db_codes db1 @ [new_code E now r u (draw E db1)]\<rparr>"
    let ?h = "token_hash E (db_drawn db1)"
    have h: "hashToken E (draw E db1) = ?h" by (simp add: token_hash_def draw_def)
    have inv1: "once_inv E (s\<lparr>os_db := db1\<rparr>)" using once_account[OF inv ch] .
    have dr: "db_drawn db = Suc (db_drawn db1)" "db_codes db = db_codes db1 @ [new_code E now r u (draw E db1)]"
      by (simp_all add: db drawn_def)
    have nc: "cd_hash (new_code E now r u (draw E db1)) = ?h" by (simp add: new_code_def h)
    have sp: "spent E db1 x (consumers E x s)" for x using once_invD(3)[OF inv1, of x] by simp
    have "consumers E ?h s = 0"
    proof (rule ccontr)
      assume "consumers E ?h s \<noteq> 0"
      then obtain n where "n < db_drawn db1" "?h = token_hash E n" using sp[of ?h] unfolding spent_def by blast
      then show False using fresh by (auto simp: fresh_tokens_def token_hash_def dest: injD)
    qed
    then have z: "spent E db ?h (consumers E ?h s)" by (simp add: spent_def)
    have "spent E db x (consumers E x s)" for x
    proof (cases "x = ?h")
      case False
      show ?thesis using sp by (rule spent_db) (use False nc dr in auto)
    qed (use z in simp)
    moreover have "\<exists>n < db_drawn db. cd_hash c = token_hash E n" if "c \<in> set (db_codes db)" for c
      using that once_invD(1)[OF inv1, of c] nc dr less_Suc_eq by fastforce
    moreover have "distinct (map cd_hash (db_codes db))" using once_invD(2)[OF inv1] new nc by (simp add: dr h)
    ultimately show ?thesis using inv by (simp add: once_inv_def)
  qed
  then show ?thesis by (simp add: cs)
qed

lemma once_same:
  "db_drawn db' = db_drawn db \<Longrightarrow> db_codes db' = db_codes db \<Longrightarrow> once_inv E (s\<lparr>os_db := db\<rparr>) \<Longrightarrow> once_inv E (s\<lparr>os_db := db'\<rparr>)"
  by (simp add: once_inv_def spent_def)

lemma once_inv_step:
  assumes "fresh_tokens E"
  shows "oauth_step E s s' \<Longrightarrow> once_inv E s \<Longrightarrow> once_inv E s'"
proof (induction rule: oauth_step.induct)
  case (register s fails req)
  then show ?case
    using Register_effect[of E fails req "os_db s"] once_invD(2)[OF register] by (intro once_db) auto
next
  case (decide now faults form s db ans)
  then show ?case by (intro once_decide[OF assms])
next
  case (arrive s q)
  have "length (filter (past E h) (os_pool s @ [(q, Start)])) = consumers E h s" for h by (simp add: consumers_def past.simps)
  then show ?case using once_invD(3)[OF arrive] once_invD(4)[OF arrive] by (intro once_pool[OF arrive]) auto
next
  case (advance i s q pc now fails db pc')
  then show ?case by (intro once_advance)
next
  case (revoke s now faults q token)
  show ?case by (rule once_same[where db = "os_db s"]) (use revoke in \<open>auto simp: Revoke_def revoke_where_def split: sum.split\<close>)
next
  case (revoke_authorization s now userID clientID)
  show ?case by (rule once_same[where db = "os_db s"]) (use revoke_authorization in \<open>auto simp: RevokeAuthorization_def revokeFamily_def revoke_where_def\<close>)
next
  case (accounts s db)
  then show ?case by (intro once_account)
next
  case (cleanup s now)
  then show ?case
    using once_invD(2)[OF cleanup] by (intro once_db) (auto simp: oauth_cleanup_def distinct_map_filter)
qed

lemma reach_once: "oauth_reach E s \<Longrightarrow> fresh_tokens E \<Longrightarrow> once_inv E s"
  by (induction rule: oauth_reach.induct) (auto simp: once_inv_step, simp add: once_inv_def new_server_def consumers_def spent_def)

lemma length_filter_mono: "(\<And>x. P x \<Longrightarrow> Q x) \<Longrightarrow> length (filter P xs) \<le> length (filter Q xs)"
  by (induction xs) (auto intro: le_SucI)

text \<open>
C16: when the random generator does not repeat itself, a code is good for one answer: of all requests of the token endpoint that present
the same code, whatever runs between their statements, at most one is ever given tokens.
\<close>

theorem code_once:
  assumes "fresh_tokens E" "oauth_reach E s"
  shows "length (filter (\<lambda>(q, pc). tq_grant q = ''authorization_code'' \<and> hashToken E (tq_code q) = h \<and>
    (\<exists>access refresh scope. pc = Responded (Tokens access refresh scope))) (os_pool s)) \<le> 1"
proof -
  have "length (filter (past E h) (os_pool s)) \<le> 1"
    using once_invD(3)[OF reach_once[OF assms(2,1)], of h] unfolding spent_def consumers_def by (rule conjunct1)
  then show ?thesis by (rule order_trans[rotated], intro length_filter_mono) (auto simp: past.simps)
qed

section \<open>What a token admits\<close>

lemma access_claims_entries:
  "\<exists>e. map_of (access_claims E now cl sc u) ''exp'' = Some (VInt64 e)"
  "map_of (access_claims E now cl sc u) ''scope'' = Some (VString sc)" "map_of (access_claims E now cl sc u) ''client_id'' = Some (VString cl)"
  "map_of (access_claims E now cl sc u) ''user_id'' = Some (go_int (us_id u))"
  by (auto simp: access_claims_def put_confinement_def put_org_def PasswordChangeClaim_def split: option.split)

text \<open>
C17: the whole way of a write: a request that changes something and is let in with a token of this server goes back to a form that
allowed the request of the client the token names to write, and that signed in the user the request acts for.
\<close>

theorem write_needs_consent:
  assumes "jwt_ok (cy_jwt (oe_crypto E))" "oauth_reach E s" "(q, Responded (Tokens access refresh scope)) \<in> set (os_pool s)"
    and "hq_header r ''Authorization'' = ''Bearer '' @ access" "hq_method r \<notin> {''GET'', ''HEAD'', ''OPTIONS''}"
    and "RequireAuth (cy_go (oe_crypto E)) (cy_jwt (oe_crypto E)) look now r cx = Inr cx'"
  shows "\<exists>c. cx_user cx' = Some c \<and> (\<exists>b \<in> set (os_submitted s). \<exists>a user. sb_form b ''action'' = ''allow'' \<and>
    (\<exists>u \<in> set (db_users (sb_db b)). us_id u = user \<and> unlocked (sb_now b) u \<and> (by_password (oe_crypto E) b u \<or> by_code (oe_crypto E) b u)) \<and>
    parseAuthzRequest False (sb_form b) (sb_db b) = Valid a \<and> ScopeWrite \<in> set (Fields (ar_Scope a)) \<and>
    claim_string c ''client_id'' = Some (TrimSpace (sb_form b ''client_id'')) \<and> map_of c ''user_id'' = Some (decoded_value (go_int user)))"
proof -
  have "pc_ok E s q (Responded (Tokens access refresh scope))" using reach_consent[OF assms(2)] assms(3) by (auto simp: consent_inv_def)
  then obtain a user code where a: "(a, user, code) \<in> consents E s" "set (Fields scope) \<subseteq> set (Fields (ar_Scope a))"
    and m: "minted E (ar_ClientID a) user scope access" by (auto simp: backed_def consented_def)
  then obtain now' v where v: "access = jwt_Sign (cy_jwt (oe_crypto E)) (access_claims E now' (ar_ClientID a) scope v)" "us_id v = user"
    unfolding minted_def by blast
  obtain e where e: "map_of (access_claims E now' (ar_ClientID a) scope v) ''exp'' = Some (VInt64 e)" using access_claims_entries(1) by blast
  obtain d where d: "jwt_Verify (cy_jwt (oe_crypto E)) now access = Some d" "cx' = cx\<lparr>cx_user := Some d\<rparr>" "scopeAllowsRequest d (hq_method r)"
    using assms(6) by (auto simp: RequireAuth_bearer[OF assms(4)] split: option.splits if_splits)
  note cl = jwt_claim[OF assms(1) e d(1)[unfolded v(1)]]
  have "claim_string d ''scope'' = Some scope" "claim_string d ''client_id'' = Some (ar_ClientID a)"
    "map_of d ''user_id'' = Some (decoded_value (go_int user))"
    using cl v(2) by (simp_all add: access_claims_entries claim_string_def)
  moreover have "ScopeWrite \<in> set (Fields scope)"
    using d(3) assms(5) calculation(1) by (simp add: scopeAllowsRequest_def scopeWrite_def ScopeWrite_def)
  moreover obtain b where b: "b \<in> set (os_submitted s)" "sb_form b ''action'' = ''allow''" "signed_in (oe_crypto E) b user"
    "parseAuthzRequest False (sb_form b) (sb_db b) = Valid a"
    using a(1) unfolding consents_def by blast
  moreover have "ar_ClientID a = TrimSpace (sb_form b ''client_id'')" using parse_fields[OF b(4)] by simp
  moreover have "ScopeWrite \<in> set (Fields (ar_Scope a))" using a(2) calculation by blast
  ultimately show ?thesis using d(2) unfolding signed_in_def
    by (intro exI[of _ d] conjI bexI[OF _ b(1)] exI[of _ a] exI[of _ user]) simp_all
qed

section \<open>Rotation of refresh tokens, and a reset\<close>

definition fresh_row :: "oauth_env \<Rightarrow> auth_db \<Rightarrow> bool" where
  "fresh_row E db \<longleftrightarrow> hashToken E (draw E db) \<notin> rf_hash ` set (db_refresh db)"

definition new_refresh :: "oauth_env \<Rightarrow> gotime \<Rightarrow> string \<Rightarrow> int \<Rightarrow> string \<Rightarrow> string \<Rightarrow> refresh_token" where
  "new_refresh E now cl u sc tok = \<lparr>rf_hash = hashToken E tok, rf_client = cl, rf_user = u, rf_scope = sc,
     rf_expires = now + refreshTokenTTL, rf_revoked = None\<rparr>"

definition with_tokens :: "oauth_env \<Rightarrow> gotime \<Rightarrow> string \<Rightarrow> int \<Rightarrow> string \<Rightarrow> account \<Rightarrow> auth_db \<Rightarrow> auth_db \<times> token_response option" where
  "with_tokens E now cl u sc v db = ((drawn 1 db)\<lparr>db_refresh := db_refresh db @ [new_refresh E now cl u sc (draw E db)]\<rparr>,
     Some (Tokens (jwt_Sign (cy_jwt (oe_crypto E)) (access_claims E now cl sc v)) (draw E db) sc))"

text \<open>From the last statements on, nothing asks whether the grant still stands.\<close>

lemma serve_issue:
  assumes "user_by_id db u = Some v" "fresh_row E db"
  shows "serve_from (Suc (Suc n)) E now q (Issue cl u sc) db = with_tokens E now cl u sc v db"
proof -
  have "user_by_id (drawn 1 db) u = Some v" "db_refresh (drawn 1 db) = db_refresh db" "draw E db = draw E db"
    using assms(1) by (simp_all add: user_by_id_def drawn_def)
  then show ?thesis using assms by (cases n) (simp_all add: fresh_row_def with_tokens_def new_refresh_def)
qed

lemma revoke_where_hashes: "rf_hash ` set (db_refresh (revoke_where P now db)) = rf_hash ` set (db_refresh db)"
proof -
  have "map rf_hash (db_refresh (revoke_where P now db)) = map rf_hash (db_refresh db)" by (simp add: revoke_where_def)
  then show ?thesis by (metis list.set_map)
qed

lemma revoke_where_same [simp]:
  "user_by_id (revoke_where P now db) u = user_by_id db u" "draw E (revoke_where P now db) = draw E db"
  "fresh_row E (revoke_where P now db) = fresh_row E db" "db_drawn (revoke_where P now db) = db_drawn db"
  "db_codes (revoke_where P now db) = db_codes db" "db_clients (revoke_where P now db) = db_clients db"
proof -
  show d: "draw E (revoke_where P now db) = draw E db" by (simp add: revoke_where_def draw_def)
  show "fresh_row E (revoke_where P now db) = fresh_row E db" by (simp only: fresh_row_def d revoke_where_hashes)
qed (simp_all add: revoke_where_def user_by_id_def)

lemma serve_rotate:
  assumes "user_by_id db u = Some v" "fresh_row E db"
  shows "serve_from (Suc (Suc (Suc n))) E now q (Rotate cl u sc) db =
    with_tokens E now cl u sc v (revoke_where (\<lambda>t. rf_hash t = hashToken E (tq_refresh q)) now db)"
  using serve_issue[of "revoke_where (\<lambda>t. rf_hash t = hashToken E (tq_refresh q)) now db" u v E n now q cl sc] assms by simp

lemma fresh_with_tokens:
  assumes "fresh_tokens E" "rf_hash ` set (db_refresh db) \<subseteq> token_hash E ` {..<db_drawn db}"
  shows "fresh_row E db" "fresh_row E (fst (with_tokens E now cl u sc v db))" "draw E (fst (with_tokens E now cl u sc v db)) \<noteq> draw E db"
proof -
  have h: "token_hash E m \<noteq> token_hash E n" if "m \<noteq> n" for m n
    using assms(1) that unfolding fresh_tokens_def token_hash_def by (blast dest: injD)
  have d: "hashToken E (draw E db) = token_hash E (db_drawn db)" by (simp add: draw_def token_hash_def)
  have dd: "hashToken E (draw E (fst (with_tokens E now cl u sc v db))) = token_hash E (Suc (db_drawn db))"
    by (simp add: draw_def token_hash_def with_tokens_def drawn_def)
  have old: "token_hash E m \<notin> rf_hash ` set (db_refresh db)" if "db_drawn db \<le> m" for m
  proof
    assume "token_hash E m \<in> rf_hash ` set (db_refresh db)"
    then obtain n where "n < db_drawn db" "token_hash E m = token_hash E n" using assms(2) by blast
    then show False using h[of m n] that by simp
  qed
  show "fresh_row E db" using old by (simp add: fresh_row_def d)
  have rows: "rf_hash ` set (db_refresh (fst (with_tokens E now cl u sc v db))) = insert (token_hash E (db_drawn db)) (rf_hash ` set (db_refresh db))"
    by (simp add: with_tokens_def new_refresh_def d)
  show "fresh_row E (fst (with_tokens E now cl u sc v db))"
    unfolding fresh_row_def rows dd using h[of "Suc (db_drawn db)" "db_drawn db"] old[of "Suc (db_drawn db)"] by simp
  show "draw E (fst (with_tokens E now cl u sc v db)) \<noteq> draw E db" using dd d h[of "Suc (db_drawn db)" "db_drawn db"] by force
qed

lemma rotated_row:
  assumes "token_step E now fails q (Find cl) db = (db', Rotate cl' u sc)"
  shows "\<exists>t \<in> set (db_refresh db). rf_hash t = hashToken E (tq_refresh q)"
proof -
  obtain t where "find_refresh E q db = Some t"
    using assms by (auto simp: check_code_pc split: if_splits option.splits)
  then show ?thesis unfolding find_refresh_def find_Some_iff by (metis nth_mem)
qed

text \<open>
C38: a refresh token is good for more than one: of two requests that have both read its row before either marks it used, both are
given tokens, and both new refresh tokens stand; the statement that marks the row counts no rows, unlike the one for codes.
\<close>

theorem rotation_race:
  assumes "fresh_tokens E" "rf_hash ` set (db_refresh db) \<subseteq> token_hash E ` {..<db_drawn db}"
    and "tq_refresh q1 = tq_refresh q2" "user_by_id db u = Some v"
    and "token_step E now1 False q1 (Find cl) db = (db, Rotate cl u sc1)" "token_step E now2 False q2 (Find cl) db = (db, Rotate cl u sc2)"
  shows "\<exists>db1 db2 a1 a2 r1 r2. serve_from 3 E now1 q1 (Rotate cl u sc1) db = (db1, Some (Tokens a1 r1 sc1)) \<and>
    serve_from 3 E now2 q2 (Rotate cl u sc2) db1 = (db2, Some (Tokens a2 r2 sc2)) \<and> r1 \<noteq> r2 \<and>
    (\<forall>r \<in> {r1, r2}. \<exists>t \<in> set (db_refresh db2). rf_hash t = hashToken E r \<and> rf_revoked t = None)"
proof -
  define P :: "refresh_token \<Rightarrow> bool" where "P = (\<lambda>t. rf_hash t = hashToken E (tq_refresh q1))"
  define da where "da = revoke_where P now1 db"
  define d1 where "d1 = fst (with_tokens E now1 cl u sc1 v da)"
  have "rf_hash ` set (db_refresh da) \<subseteq> token_hash E ` {..<db_drawn da}"
    using assms(2) unfolding da_def revoke_where_same revoke_where_hashes .
  note f = fresh_with_tokens[OF assms(1) this]
  have ua: "user_by_id da u = Some v" using assms(4) by (simp add: da_def)
  have u1: "user_by_id d1 u = Some v" using ua by (simp add: d1_def with_tokens_def user_by_id_def drawn_def)
  have n: "(3::nat) = Suc (Suc (Suc 0))" by simp
  have 1: "serve_from 3 E now1 q1 (Rotate cl u sc1) db = with_tokens E now1 cl u sc1 v da"
    using assms(4) f(1) unfolding n da_def P_def revoke_where_same by (rule serve_rotate)
  have 2: "serve_from 3 E now2 q2 (Rotate cl u sc2) d1 = with_tokens E now2 cl u sc2 v (revoke_where P now2 d1)"
    using u1 f(2) unfolding n P_def d1_def assms(3) by (rule serve_rotate)
  have "new_refresh E now1 cl u sc1 (draw E da) \<in> set (db_refresh d1)" by (simp add: d1_def with_tokens_def)
  moreover have "hashToken E (tq_refresh q1) \<noteq> hashToken E (draw E da)"
    using rotated_row[OF assms(5)] f(1) unfolding fresh_row_def da_def revoke_where_hashes by force
  ultimately have "new_refresh E now1 cl u sc1 (draw E da) \<in> set (db_refresh (revoke_where P now2 d1))"
    by (force simp: revoke_where_def P_def new_refresh_def)
  moreover have "rf_hash (new_refresh E n cl u sc tok) = hashToken E tok \<and> rf_revoked (new_refresh E n cl u sc tok) = None" for n sc tok
    by (simp add: new_refresh_def)
  ultimately have r: "\<forall>r \<in> {draw E da, draw E d1}.
      (\<exists>t \<in> set (db_refresh (fst (with_tokens E now2 cl u sc2 v (revoke_where P now2 d1)))). rf_hash t = hashToken E r \<and> rf_revoked t = None)"
    by (auto simp: with_tokens_def)
  obtain a1 where a1: "serve_from 3 E now1 q1 (Rotate cl u sc1) db = (d1, Some (Tokens a1 (draw E da) sc1))"
    unfolding 1 d1_def by (simp add: with_tokens_def)
  define d2 where "d2 = fst (with_tokens E now2 cl u sc2 v (revoke_where P now2 d1))"
  obtain a2 where a2: "serve_from 3 E now2 q2 (Rotate cl u sc2) d1 = (d2, Some (Tokens a2 (draw E d1) sc2))"
    unfolding 2 d2_def by (simp add: with_tokens_def)
  have "draw E da \<noteq> draw E d1" using f(3)[of now1 cl u sc1 v] unfolding d1_def by metis
  with r a1 a2 show ?thesis unfolding d2_def by blast
qed

lemma find_append_Some: "find P xs = Some x \<Longrightarrow> find P (xs @ ys) = Some x"
  by (induction xs) (auto split: if_splits)

lemma served_refresh:
  assumes "serve_from 5 E now q Start db = (db', Some (Tokens a r sc))" "tq_grant q = ''refresh_token''"
  obtains t v where "find_refresh E q db = Some t"
    "db' = fst (with_tokens E now (rf_client t) (rf_user t) sc v (revoke_where (\<lambda>t. rf_hash t = hashToken E (tq_refresh q)) now db))"
proof -
  have n: "(5::nat) = Suc (Suc (Suc (Suc (Suc 0))))" by simp
  obtain cl where 1: "authenticateClient E False q db = Inr cl" and s1: "serve_from 4 E now q (Find cl) db = (db', Some (Tokens a r sc))"
    using assms unfolding n by (cases "authenticateClient E False q db") (auto simp: authenticateClient_def eval_nat_numeral split: if_splits option.splits prod.splits)
  obtain t where t: "find_refresh E q db = Some t" and s2: "serve_from 3 E now q (check_refresh E now q cl t) db = (db', Some (Tokens a r sc))"
    using s1 assms(2) by (auto simp: eval_nat_numeral split: if_splits option.splits)
  obtain sc' where c: "check_refresh E now q cl t = Rotate cl (rf_user t) sc'" "rf_client t = cl"
    using s2 by (auto simp: check_refresh_def Let_def eval_nat_numeral split: if_splits option.splits)
  let ?da = "revoke_where (\<lambda>t. rf_hash t = hashToken E (tq_refresh q)) now db"
  have s3: "serve_from 2 E now q (Issue cl (rf_user t) sc') ?da = (db', Some (Tokens a r sc))"
    using s2 by (simp add: c eval_nat_numeral)
  obtain v where v: "user_by_id ?da (rf_user t) = Some v"
    using s3 by (auto simp: eval_nat_numeral split: option.splits)
  have "fresh_row E ?da"
    using s3 v by (auto simp: eval_nat_numeral fresh_row_def drawn_def split: if_splits)
  then have "with_tokens E now cl (rf_user t) sc' v ?da = (db', Some (Tokens a r sc))"
    using s3 serve_issue[OF v, of E 0 now q cl sc'] by (simp add: eval_nat_numeral)
  then show thesis using that[OF t] c(2) by (auto simp: with_tokens_def)
qed

text \<open>
C23: when two requests are served one after the other, each with no other between its statements and no statement failing, and the first
got tokens for a refresh token, the second that presents it again gets none, and it ends the family: every refresh token of
this client for this user, the one that replaced it included, is revoked.
\<close>

theorem reuse_ends_family:
  assumes "Token E now q db = (db1, Some (Tokens a r sc))" "tq_grant q = ''refresh_token''"
    and "tq_grant q' = ''refresh_token''" "tq_refresh q' = tq_refresh q" "tq_refresh q \<noteq> ''''"
    and "Token E now' q' db1 = (db2, resp)" "authenticateClient E False q' db1 = Inr cl"
  shows "resp = Some (TokenError 400 ''invalid_grant'') \<and> (\<exists>t. find_refresh E q db = Some t \<and>
    (\<forall>t' \<in> set (db_refresh db2). rf_client t' = rf_client t \<and> rf_user t' = rf_user t \<longrightarrow> rf_revoked t' \<noteq> None))"
proof -
  obtain t v where t: "find_refresh E q db = Some t"
    and db1: "db1 = fst (with_tokens E now (rf_client t) (rf_user t) sc v (revoke_where (\<lambda>t. rf_hash t = hashToken E (tq_refresh q)) now db))"
    using served_refresh[OF assms(1)[unfolded Token_def] assms(2)] .
  define g where "g = (\<lambda>t :: refresh_token. if rf_hash t = hashToken E (tq_refresh q) \<and> rf_revoked t = None then t\<lparr>rf_revoked := Some now\<rparr> else t)"
  have g: "rf_hash (g x) = rf_hash x" "rf_client (g x) = rf_client x" "rf_user (g x) = rf_user x" for x by (simp_all add: g_def)
  have rows: "db_refresh db1 = map g (db_refresh db) @ [new_refresh E now (rf_client t) (rf_user t) sc (draw E db)]"
    unfolding db1 with_tokens_def revoke_where_same by (simp add: revoke_where_def g_def)
  have h: "rf_hash t = hashToken E (tq_refresh q)" using t unfolding find_refresh_def find_Some_iff by blast
  have "find (\<lambda>t. rf_hash t = hashToken E (tq_refresh q)) (map g (db_refresh db)) = Some (g t)"
    using t g(1) find_map[of "\<lambda>t. rf_hash t = hashToken E (tq_refresh q)" g] by (simp add: find_refresh_def)
  then have f: "find_refresh E q' db1 = Some (g t)" by (simp add: find_refresh_def rows assms(4) find_append_Some)
  have "rf_revoked (g t) \<noteq> None" using h by (auto simp: g_def)
  then have c: "check_refresh E now' q' cl (g t) = RevokeFamily (rf_client t) (rf_user t)" by (simp add: check_refresh_def g)
  have "Token E now' q' db1 = (revokeFamily now' (rf_client t) (rf_user t) db1, Some (TokenError 400 ''invalid_grant''))"
    using assms(3,4,5,7) by (simp add: Token_def eval_nat_numeral f c)
  then have r: "resp = Some (TokenError 400 ''invalid_grant'')" "db2 = revokeFamily now' (rf_client t) (rf_user t) db1" using assms(6) by simp_all
  have "rf_revoked t' \<noteq> None" if "t' \<in> set (db_refresh db2)" "rf_client t' = rf_client t" "rf_user t' = rf_user t" for t'
    using that unfolding r(2) revokeFamily_def revoke_where_def by auto
  with r(1) t show ?thesis by blast
qed

text \<open>What the exchange of a code needs, and what it then gives.\<close>

definition exchangeable :: "oauth_env \<Rightarrow> gotime \<Rightarrow> token_request \<Rightarrow> auth_code \<Rightarrow> account \<Rightarrow> auth_db \<Rightarrow> bool" where
  "exchangeable E now q c v db \<longleftrightarrow> authenticateClient E False q db = Inr (cd_client c) \<and> tq_code q \<noteq> '''' \<and> find_code E q db = Some c \<and>
     check_code E now q (cd_client c) c = Consume (cd_client c) (cd_user c) (cd_scope c) \<and> snd (consume (hashToken E (tq_code q)) db) = 1 \<and>
     user_by_id db (cd_user c) = Some v \<and> fresh_row E db"

lemma consume_same [simp]:
  "user_by_id (fst (consume h db)) u = user_by_id db u" "fresh_row E (fst (consume h db)) = fresh_row E db" "draw E (fst (consume h db)) = draw E db"
  by (simp_all add: consume_def user_by_id_def fresh_row_def draw_def)

lemma Token_code:
  assumes "tq_grant q = ''authorization_code''" "exchangeable E now q c v db"
  shows "Token E now q db = with_tokens E now (cd_client c) (cd_user c) (cd_scope c) v (fst (consume (hashToken E (tq_code q)) db))"
proof -
  let ?h = "hashToken E (tq_code q)"
  have n: "(5::nat) = Suc (Suc (Suc (Suc (Suc 0))))" by simp
  have "token_step E now False q Start db = (db, Find (cd_client c))" using assms by (simp add: exchangeable_def)
  moreover have "token_step E now False q (Find (cd_client c)) db = (db, Consume (cd_client c) (cd_user c) (cd_scope c))"
    using assms by (simp add: exchangeable_def)
  moreover have "token_step E now False q (Consume (cd_client c) (cd_user c) (cd_scope c)) db = (fst (consume ?h db), Issue (cd_client c) (cd_user c) (cd_scope c))"
    using assms by (auto simp: exchangeable_def split: prod.split)
  moreover have "serve_from (Suc (Suc 0)) E now q (Issue (cd_client c) (cd_user c) (cd_scope c)) (fst (consume ?h db)) =
      with_tokens E now (cd_client c) (cd_user c) (cd_scope c) v (fst (consume ?h db))"
    using assms(2) by (intro serve_issue) (simp_all add: exchangeable_def)
  ultimately show ?thesis unfolding Token_def n by (simp del: token_step.simps)
qed

lemma check_code_Consume:
  "check_code E now q cl c = Consume cl' u sc \<Longrightarrow> cl' = cl \<and> cl = cd_client c \<and> u = cd_user c \<and> sc = cd_scope c"
  by (auto simp: check_code_def split: if_splits)

lemma served_code:
  assumes "Token E now q db = (db', Some (Tokens a r sc))" "tq_grant q = ''authorization_code''"
  obtains c v where "exchangeable E now q c v db"
proof -
  obtain cl where 1: "authenticateClient E False q db = Inr cl" and s1: "serve_from 4 E now q (Find cl) db = (db', Some (Tokens a r sc))"
    using assms unfolding Token_def by (cases "authenticateClient E False q db") (auto simp: authenticateClient_def eval_nat_numeral split: if_splits option.splits prod.splits)
  obtain c where c: "tq_code q \<noteq> ''''" "find_code E q db = Some c" and s2: "serve_from 3 E now q (check_code E now q cl c) db = (db', Some (Tokens a r sc))"
    using s1 assms(2) by (auto simp: eval_nat_numeral split: if_splits option.splits)
  have k: "check_code E now q cl c = Consume cl (cd_user c) (cd_scope c)"
    using s2 by (auto simp: check_code_def eval_nat_numeral split: if_splits)
  then have cl: "cl = cd_client c" using check_code_Consume by metis
  let ?db = "fst (consume (hashToken E (tq_code q)) db)"
  have n: "snd (consume (hashToken E (tq_code q)) db) = 1" and s3: "serve_from 2 E now q (Issue cl (cd_user c) (cd_scope c)) ?db = (db', Some (Tokens a r sc))"
    using s2 unfolding k by (cases "consume (hashToken E (tq_code q)) db"; auto simp: eval_nat_numeral split: if_splits)+
  obtain v where v: "user_by_id ?db (cd_user c) = Some v"
    using s3 by (auto simp: eval_nat_numeral simp del: consume_same split: option.splits)
  have "fresh_row E ?db"
    using s3 v by (auto simp: eval_nat_numeral fresh_row_def drawn_def simp del: consume_same split: if_splits)
  then show thesis using that[of c v] 1 c k n v unfolding cl by (simp add: exchangeable_def)
qed

text \<open>
C39: a reset of the password does not take the codes back: a code obtained before it, perhaps with the old password, is exchanged
after it as before, and the access token it gives carries the new version, so the check that ends old sessions lets it in.
\<close>

theorem code_survives_reset:
  assumes "find_reset (oe_crypto E) now token db = Some t" "ResetPassword (oe_crypto E) now token pw db = (db1, None)"
    and "tq_grant q = ''authorization_code''" "find_code E q db = Some c" "cd_user c = rt_user t" "user_by_id db (rt_user t) = Some u"
    and "Token E now' q db = (db', Some (Tokens a r sc))"
  shows "\<exists>v db2 r'. user_by_id db1 (cd_user c) = Some v \<and> us_version v = us_version u + 1 \<and>
    Token E now' q db1 = (db2, Some (Tokens (jwt_Sign (cy_jwt (oe_crypto E)) (access_claims E now' (cd_client c) sc v)) r' sc))"
proof -
  obtain v0 where e: "exchangeable E now' q c v0 db"
    using served_code[OF assms(7,3)] assms(4) by (auto simp: exchangeable_def)
  then have sc: "sc = cd_scope c" using assms(7) unfolding Token_code[OF assms(3) e] by (simp add: with_tokens_def)
  obtain hash where db1: "db1 = reset_tx hash t db" using assms(1,2) by (auto simp: ResetPassword_def split: if_splits option.splits)
  have same: "db_clients db1 = db_clients db" "db_codes db1 = db_codes db" "db_drawn db1 = db_drawn db" "set (db_refresh db1) \<subseteq> set (db_refresh db)"
    by (auto simp: db1 reset_tx_def drop_refresh_def update_user_def Let_def)
  have u1: "user_by_id db1 (rt_user t) = Some ((retire hash u)\<lparr>us_failed := 0, us_locked := None\<rparr>)"
    unfolding db1 user_by_id_tx assms(6) by (simp add: set_row_def user_by_id_eq[OF assms(6)])
  have "fresh_row E db1" using e same by (auto simp: exchangeable_def fresh_row_def draw_def)
  moreover have "authenticateClient E False q db1 = authenticateClient E False q db" 
    by (simp only: authenticateClient_def find_client_def same)
  moreover have "find_code E q db1 = find_code E q db" by (simp add: find_code_def same)
  moreover have "snd (consume h db1) = snd (consume h db)" for h by (simp add: consume_def same)
  ultimately have "exchangeable E now' q c ((retire hash u)\<lparr>us_failed := 0, us_locked := None\<rparr>) db1"
    using e u1 assms(5) by (simp add: exchangeable_def)
  then show ?thesis using Token_code[OF assms(3)] u1 by (simp add: with_tokens_def sc assms(5) retire_def)
qed

section \<open>One client, one user\<close>

lemma same_server: "db = os_db s \<Longrightarrow> ps = os_pool s \<Longrightarrow> s\<lparr>os_db := db, os_pool := ps\<rparr> = s"
  by (cases s) simp

text \<open>A request served alone is a sequence of steps of the server.\<close>

lemma reach_serve:
  "oauth_reach E s \<Longrightarrow> os_pool s = ps @ [(q, pc)] \<Longrightarrow> serve_from n E now q pc (os_db s) = (db, Some r) \<Longrightarrow>
   oauth_reach E (s\<lparr>os_db := db, os_pool := ps @ [(q, Responded r)]\<rparr>)"
proof (induction n arbitrary: s pc)
  case 0
  then obtain r' where "pc = Responded r'" by (cases pc) auto
  then have "s\<lparr>os_db := db, os_pool := ps @ [(q, Responded r)]\<rparr> = s" using 0 by (intro same_server) auto
  then show ?case using 0(1) by simp
next
  case (Suc n)
  show ?case
  proof (cases "\<exists>r. pc = Responded r")
    case True
    then have "s\<lparr>os_db := db, os_pool := ps @ [(q, Responded r)]\<rparr> = s" using Suc.prems by (intro same_server) auto
    then show ?thesis using Suc.prems(1) by simp
  next
    case False
    obtain db1 pc1 where st: "token_step E now False q pc (os_db s) = (db1, pc1)" by fastforce
    let ?s = "s\<lparr>os_db := db1, os_pool := (os_pool s)[length ps := (q, pc1)]\<rparr>"
    have "oauth_reach E ?s" using Suc.prems(2) by (intro oauth_reach.step[OF Suc.prems(1)] oauth_step.advance[OF _ _ st]) simp_all
    moreover have "serve_from n E now q pc1 (os_db ?s) = (db, Some r)" using Suc.prems(3) False st by (cases pc) auto
    ultimately show ?thesis using Suc.IH[of ?s pc1] Suc.prems(2) by simp
  qed
qed

definition some_env :: oauth_env where
  "some_env = \<lparr>oe_crypto = some_crypto, oe_url = (\<lambda>_. Some \<lparr>ur_Scheme = ''https'', ur_Hostname = ''app.plant'', ur_Fragment = ''''\<rparr>),
     oe_issuer = ''https://edge.plant''\<rparr>"

lemma some_fresh: "fresh_tokens some_env"
proof (unfold fresh_tokens_def, rule injI)
  fix m n assume "hashToken some_env (cy_random (oe_crypto some_env) m) = hashToken some_env (cy_random (oe_crypto some_env) n)"
  then have "length (hashToken some_env (cy_random (oe_crypto some_env) m)) = length (hashToken some_env (cy_random (oe_crypto some_env) n))" by (rule arg_cong)
  then show "m = n" by (simp add: hashToken_def some_env_def some_crypto_def)
qed

definition app_registration :: registration where
  "app_registration = \<lparr>rg_ClientName = ''app'', rg_RedirectURIs = [''https://app.plant/cb''], rg_AuthMethod = ''none'', rg_Scope = ''''\<rparr>"

definition rs :: "nat \<Rightarrow> string" where "rs n = replicate n (CHR ''r'')"
definition app_verifier :: string where "app_verifier = replicate 43 (CHR ''v'')"

definition app_client :: oauth_client where
  "app_client = \<lparr>oc_id = rs 43, oc_secretHash = None, oc_name = ''app'', oc_uris = ''https://app.plant/cb'', oc_scope = ''openedge:read openedge:write''\<rparr>"

definition app_db :: auth_db where
  "app_db = (db_of [ada])\<lparr>db_clients := [app_client], db_drawn := 1\<rparr>"

lemma app_registered: "fst (Register some_env False app_registration (db_of [ada])) = app_db"
proof -
  have "normalizeScope '''' = ''openedge:read openedge:write''" "TrimSpace ''app'' = ''app''" by code_simp+
  then show ?thesis
    by (simp add: Register_def app_registration_def validateRedirectURI_def some_env_def some_crypto_def Let_def clip_def draw_def drawn_def
        app_db_def app_client_def rs_def db_of_def)
qed

definition app_form :: "string \<Rightarrow> string" where
  "app_form k = (case map_of [(''client_id'', rs 43), (''response_type'', ''code''), (''code_challenge'', app_verifier), (''code_challenge_method'', ''S256''),
     (''action'', ''allow''), (''username'', ''ada''), (''password'', ''difference engine'')] k of Some v \<Rightarrow> v | None \<Rightarrow> '''')"

definition app_request :: authz_request where
  "app_request = \<lparr>ar_ClientID = rs 43, ar_RedirectURI = ''https://app.plant/cb'', ar_State = '''', ar_Scope = ''openedge:read openedge:write'',
     ar_Challenge = app_verifier, ar_Method = ''S256''\<rparr>"

lemma app_asked: "parseAuthzRequest False app_form app_db = Valid app_request"
  by code_simp

definition app_code :: auth_code where
  "app_code = new_code some_env noon app_request 7 (rs 44)"

definition code_db :: auth_db where
  "code_db = app_db\<lparr>db_codes := [app_code], db_drawn := 2\<rparr>"

lemma app_signed_in: "authenticate some_env noon False app_form app_db = (app_db, Some 7)"
proof -
  have f: "app_form ''mfa_token'' = ''''" "app_form ''username'' = ''ada''" "app_form ''password'' = ''difference engine''"
    by (simp_all add: app_form_def)
  have u: "user_by_name app_db ''ada'' = Some ada" by (simp add: user_by_name_def app_db_def db_of_def ada_def)
  have c: "clearLockoutState 7 app_db = app_db" by (simp add: clearLockoutState_def update_user_def app_db_def db_of_def ada_def)
  have "LoginWithMeta some_crypto noon False ''ada'' ''difference engine'' app_db = (app_db, LoggedIn (generateToken some_crypto noon app_db ada) 7)"
    unfolding LoginWithMeta_def u
    using c by (simp add: login_with_def checkLockout_def some_crypto_def Let_def) (simp add: ada_def app_db_def db_of_def)
  then show ?thesis by (simp add: authenticate_def f some_env_def)
qed

lemma app_decided:
  "Decision some_env noon (False, False, False) app_form app_db = (code_db, RedirectTo ''https://app.plant/cb'' [(''code'', rs 44)])"
proof -
  have a: "app_form ''action'' = ''allow''" by (simp add: app_form_def)
  have "issueCode some_env noon False app_request 7 app_db = (code_db, Some (rs 44))"
    by (simp add: issueCode_def draw_def drawn_def some_env_def some_crypto_def app_db_def db_of_def code_db_def app_code_def new_code_def
        hashToken_def rs_def app_request_def Let_def)
  then show ?thesis
    by (simp add: Decision_def app_asked a app_signed_in) (simp add: some_env_def app_request_def with_state_def)
qed

definition app_exchange :: token_request where
  "app_exchange = \<lparr>tq_grant = ''authorization_code'', tq_clientID = rs 43, tq_secret = '''', tq_basic = None, tq_code = rs 44,
     tq_verifier = app_verifier, tq_redirect = '''', tq_refresh = '''', tq_scope = ''''\<rparr>"

lemma app_exchangeable: "exchangeable some_env noon app_exchange app_code ada code_db"
proof -
  have "authenticateClient some_env False app_exchange code_db = Inr (rs 43)"
    by (simp add: authenticateClient_def credentials_def app_exchange_def find_client_def code_db_def app_db_def app_client_def rs_def)
  moreover have "check_code some_env noon app_exchange (rs 43) app_code = Consume (rs 43) 7 (cd_scope app_code)"
    by (simp add: check_code_def app_code_def new_code_def app_request_def app_exchange_def authCodeTTL_def Minute_def Second_def verifyPKCE_def
        app_verifier_def some_env_def some_crypto_def)
  moreover have "find_code some_env app_exchange code_db = Some app_code" "snd (consume (hashToken some_env (tq_code app_exchange)) code_db) = 1"
    by (simp_all add: find_code_def consume_def code_db_def app_code_def new_code_def app_exchange_def)
  moreover have "user_by_id code_db 7 = Some ada" "fresh_row some_env code_db"
    by (simp_all add: user_by_id_def fresh_row_def code_db_def app_db_def db_of_def ada_def)
  ultimately show ?thesis
    by (simp add: exchangeable_def app_code_def new_code_def app_request_def) (simp add: app_exchange_def rs_def)
qed

text \<open>The server after the exchange.\<close>

definition app_submission :: submission where
  "app_submission = \<lparr>sb_now = noon, sb_form = app_form, sb_db = app_db\<rparr>"

definition app_server :: oauth_server where
  "app_server = \<lparr>os_db = fst (Token some_env noon app_exchange code_db),
     os_pool = [(app_exchange, Responded (the (snd (Token some_env noon app_exchange code_db))))], os_submitted = [app_submission]\<rparr>"

lemma app_served: "\<exists>access. snd (Token some_env noon app_exchange code_db) = Some (Tokens access (rs 45) ''openedge:read openedge:write'')"
proof -
  have "tq_grant app_exchange = ''authorization_code''" by (simp add: app_exchange_def)
  from Token_code[OF this app_exchangeable] show ?thesis
    by (simp add: with_tokens_def) (simp add: app_code_def new_code_def app_request_def draw_def code_db_def some_env_def some_crypto_def rs_def)
qed

lemma app_reached: "oauth_reach some_env app_server"
proof -
  let ?s0 = "new_server (db_of [ada])"
  have 0: "os_db ?s0 = db_of [ada]" by (simp add: new_server_def db_of_def)
  have 1: "oauth_reach some_env (?s0\<lparr>os_db := app_db\<rparr>)" (is "oauth_reach _ ?s1")
    using oauth_reach.step[OF oauth_reach.start oauth_step.register[of some_env ?s0 False app_registration]] by (simp only: 0 app_registered)
  have 2: "oauth_reach some_env (?s1\<lparr>os_db := code_db, os_submitted := os_submitted ?s1 @ [app_submission]\<rparr>)" (is "oauth_reach _ ?s2")
    using oauth_reach.step[OF 1 oauth_step.decide, of noon "(False, False, False)" app_form code_db] app_decided by (simp add: app_submission_def)
  have 3: "oauth_reach some_env (?s2\<lparr>os_pool := os_pool ?s2 @ [(app_exchange, Start)]\<rparr>)" (is "oauth_reach _ ?s3")
    by (rule oauth_reach.step[OF 2 oauth_step.arrive])
  obtain access where sn: "snd (Token some_env noon app_exchange code_db) = Some (Tokens access (rs 45) ''openedge:read openedge:write'')"
    using app_served by blast
  then have a: "serve_from 5 some_env noon app_exchange Start code_db =
      (fst (Token some_env noon app_exchange code_db), Some (Tokens access (rs 45) ''openedge:read openedge:write''))"
    unfolding Token_def by (metis prod.collapse)
  have "oauth_reach some_env (?s3\<lparr>os_db := fst (Token some_env noon app_exchange code_db),
      os_pool := [] @ [(app_exchange, Responded (Tokens access (rs 45) ''openedge:read openedge:write''))]\<rparr>)"
    by (rule reach_serve[OF 3]) (use a in \<open>simp_all add: new_server_def\<close>)
  then show ?thesis by (simp add: app_server_def new_server_def sn)
qed

lemma submitted_app: "set (os_submitted app_server) = {app_submission}"
  by (simp add: app_server_def)

lemma bex_one: "(\<exists>x \<in> {a}. P x) \<longleftrightarrow> P a"
  by simp

lemma app_submission_simps: "sb_now app_submission = noon" "sb_form app_submission = app_form" "sb_db app_submission = app_db"
  by (simp_all add: app_submission_def)

lemma users_app: "set (db_users app_db) = {ada}"
  by (simp add: app_db_def db_of_def)

lemma us_ada: "us_id ada = 7"
  by (simp add: ada_def)

lemma client_app: "TrimSpace (app_form ''client_id'') = rs 43" "ar_ClientID app_request = rs 43"
  using parse_fields[OF app_asked] by (simp_all add: app_request_def)

theorem token_needs_consent_witness:
  "\<exists>access. (app_exchange, Responded (Tokens access (rs 45) ''openedge:read openedge:write'')) \<in> set (os_pool app_server) \<and>
    minted some_env (rs 43) 7 ''openedge:read openedge:write'' access \<and> registered (os_db app_server) app_request"
proof -
  obtain access where "(app_exchange, Responded (Tokens access (rs 45) ''openedge:read openedge:write'')) \<in> set (os_pool app_server)"
    using app_served by (fastforce simp: app_server_def)
  with token_needs_consent[OF app_reached this] show ?thesis
    unfolding submitted_app bex_one app_submission_simps users_app us_ada app_asked authz.inject client_app by metis
qed

theorem code_once_witness:
  "length (filter (\<lambda>(q, pc). tq_grant q = ''authorization_code'' \<and> hashToken some_env (tq_code q) = hashToken some_env (rs 44) \<and>
    (\<exists>access refresh scope. pc = Responded (Tokens access refresh scope))) (os_pool app_server)) \<le> 1"
  by (rule code_once[OF some_fresh app_reached])

theorem write_needs_consent_witness:
  "\<exists>access c. RequireAuth (cy_go some_crypto) counting_jwt (Some (version_lookup (os_db app_server))) noon (request_with ''POST'' access) no_context =
      Inr (no_context\<lparr>cx_user := Some c\<rparr>) \<and> claim_string c ''client_id'' = Some (rs 43)"
proof -
  obtain access where a: "(app_exchange, Responded (Tokens access (rs 45) ''openedge:read openedge:write'')) \<in> set (os_pool app_server)"
    "access = jwt_Sign counting_jwt (access_claims some_env noon (rs 43) ''openedge:read openedge:write'' ada)"
    using app_served Token_code[OF _ app_exchangeable]
    by (auto simp: app_server_def with_tokens_def app_exchange_def app_code_def new_code_def app_request_def some_env_def some_crypto_def)
  let ?c = "access_claims some_env noon (rs 43) ''openedge:read openedge:write'' ada" and ?r = "request_with ''POST'' access"
  have e: "map_of ?c ''exp'' = Some (VInt64 (of_int (Unix (noon + Hour))))"
    by (simp add: access_claims_def ada_def put_confinement_def put_org_def accessTokenTTL_def)
  have "Unix noon < sint (of_int (Unix (noon + Hour)) :: 64 word)"
  proof -
    have "Unix (noon + Hour) = 1764406800" "Unix noon = 1764403200" by (simp_all add: Unix_def noon_def Second_def Minute_def Hour_def unix_zero_ms_def)
    then show ?thesis by (simp add: sint_small)
  qed
  then have v: "jwt_Verify counting_jwt noon access = Some (decoded ?c)"
    using counting_jwt_ok[unfolded jwt_ok_def, rule_format, OF e, of noon] a(2) by simp
  have h: "hq_header ?r ''Authorization'' = ''Bearer '' @ access" "hq_method ?r = ''POST''" by (simp_all add: request_with_def)
  have k: "map_of (decoded ?c) ''token_version'' = Some (VFloat64 (f64_of_int 0))" "map_of (decoded ?c) ''user_id'' = Some (VFloat64 (f64_of_int 7))"
    "map_of (decoded ?c) ''scope'' = Some (VString ''openedge:read openedge:write'')" "map_of (decoded ?c) ''pwd_change'' = None"
    "map_of (decoded ?c) ''mfa_step'' = None" "map_of (decoded ?c) ''mfa_setup'' = None"
    by (simp_all add: map_of_decoded access_claims_def ada_def put_confinement_def put_org_def claim_int)
  have "user_by_id (os_db app_server) 7 = Some ada"
    using Token_code[OF _ app_exchangeable] by (simp add: app_server_def app_exchange_def with_tokens_def user_by_id_def drawn_def consume_def code_db_def app_db_def db_of_def ada_def)
  then have "tokenVersionCurrent (cy_go some_crypto) (Some (version_lookup (os_db app_server))) (decoded ?c)"
    by (simp add: tokenVersionCurrent_def claim_number_def k claim_int version_lookup_def) (simp add: ada_def)
  moreover have "scopeWrite \<in> set (Fields ''openedge:read openedge:write'')" by code_simp
  ultimately have "RequireAuth (cy_go some_crypto) counting_jwt (Some (version_lookup (os_db app_server))) noon ?r no_context =
      Inr (no_context\<lparr>cx_user := Some (decoded ?c)\<rparr>)"
    unfolding RequireAuth_bearer[OF h(1)] v
    by (simp add: claim_true_def k scopeAllowsRequest_def claim_string_def PasswordChangeClaim_def)
  then have R: "RequireAuth (cy_go some_crypto) (cy_jwt some_crypto) (Some (version_lookup (os_db app_server))) noon ?r no_context =
      Inr (no_context\<lparr>cx_user := Some (decoded ?c)\<rparr>)" by (simp add: some_crypto_def)
  have E: "oe_crypto some_env = some_crypto" by (simp add: some_env_def)
  have "claim_string (decoded ?c) ''client_id'' = Some (TrimSpace (app_form ''client_id''))"
    using write_needs_consent[of some_env, unfolded E, OF some_jwt app_reached a(1) h(1) _ R] h(2)
    unfolding submitted_app bex_one app_submission_simps by auto
  then have "claim_string (decoded ?c) ''client_id'' = Some (rs 43)" unfolding client_app .
  with R show ?thesis by (auto simp: some_crypto_def)
qed

text \<open>The refresh token of that exchange, presented twice.\<close>

definition refresh_row :: refresh_token where
  "refresh_row = new_refresh some_env noon (rs 43) 7 ''openedge:read openedge:write'' (rs 45)"

definition refresh_db :: auth_db where
  "refresh_db = app_db\<lparr>db_refresh := [refresh_row], db_drawn := 3\<rparr>"

definition app_refresh :: token_request where
  "app_refresh = app_exchange\<lparr>tq_grant := ''refresh_token'', tq_refresh := rs 45\<rparr>"

lemma refresh_facts:
  "authenticateClient some_env False app_refresh refresh_db = Inr (rs 43)" "find_refresh some_env app_refresh refresh_db = Some refresh_row"
  "check_refresh some_env noon app_refresh (rs 43) refresh_row = Rotate (rs 43) 7 ''openedge:read openedge:write''"
  "user_by_id refresh_db 7 = Some ada" "rf_hash ` set (db_refresh refresh_db) \<subseteq> token_hash some_env ` {..<db_drawn refresh_db}"
proof -
  show "authenticateClient some_env False app_refresh refresh_db = Inr (rs 43)"
    by (simp add: authenticateClient_def credentials_def app_refresh_def app_exchange_def find_client_def refresh_db_def app_db_def app_client_def rs_def)
  show "find_refresh some_env app_refresh refresh_db = Some refresh_row"
    by (simp add: find_refresh_def refresh_db_def refresh_row_def new_refresh_def app_refresh_def)
  have "TrimSpace '''' = ''''" by code_simp
  then show "check_refresh some_env noon app_refresh (rs 43) refresh_row = Rotate (rs 43) 7 ''openedge:read openedge:write''"
    by (simp add: check_refresh_def refresh_row_def new_refresh_def refreshTokenTTL_def Hour_def Minute_def Second_def app_refresh_def app_exchange_def)
  show "user_by_id refresh_db 7 = Some ada" by (simp add: user_by_id_def refresh_db_def app_db_def db_of_def ada_def)
  have "rf_hash refresh_row = token_hash some_env 2"
    by (simp add: refresh_row_def new_refresh_def token_hash_def some_env_def some_crypto_def rs_def)
  then show "rf_hash ` set (db_refresh refresh_db) \<subseteq> token_hash some_env ` {..<db_drawn refresh_db}"
    by (auto simp: refresh_db_def)
qed

lemma refresh_found: "token_step some_env noon False app_refresh (Find (rs 43)) refresh_db = (refresh_db, Rotate (rs 43) 7 ''openedge:read openedge:write'')"
  using refresh_facts(2,3) by (simp add: app_refresh_def app_exchange_def) (simp add: rs_def)

theorem rotation_race_witness:
  "\<exists>db1 db2 a1 a2 r1 r2. serve_from 3 some_env noon app_refresh (Rotate (rs 43) 7 ''openedge:read openedge:write'') refresh_db =
      (db1, Some (Tokens a1 r1 ''openedge:read openedge:write'')) \<and>
    serve_from 3 some_env noon app_refresh (Rotate (rs 43) 7 ''openedge:read openedge:write'') db1 =
      (db2, Some (Tokens a2 r2 ''openedge:read openedge:write'')) \<and> r1 \<noteq> r2"
  using rotation_race[OF some_fresh refresh_facts(5) refl refresh_facts(4) refresh_found refresh_found] by blast

lemma Token_refresh:
  assumes "tq_grant q = ''refresh_token''" "authenticateClient E False q db = Inr cl"
    and "token_step E now False q (Find cl) db = (db, Rotate cl u sc)" "user_by_id db u = Some v" "fresh_row E db"
  shows "Token E now q db = with_tokens E now cl u sc v (revoke_where (\<lambda>t. rf_hash t = hashToken E (tq_refresh q)) now db)"
proof -
  have n: "(5::nat) = Suc (Suc (Suc (Suc (Suc 0))))" by simp
  have "token_step E now False q Start db = (db, Find cl)" using assms(1,2) by simp
  then show ?thesis
    using assms(3) serve_rotate[OF assms(4,5), of 0 now q cl sc] unfolding Token_def n by (simp del: token_step.simps(2) token_step.simps(5))
qed

theorem reuse_ends_family_witness:
  "\<exists>db1 a r. Token some_env noon app_refresh refresh_db = (db1, Some (Tokens a r ''openedge:read openedge:write'')) \<and>
    snd (Token some_env noon app_refresh db1) = Some (TokenError 400 ''invalid_grant'')"
proof -
  have g: "tq_grant app_refresh = ''refresh_token''" "tq_refresh app_refresh \<noteq> ''''" by (simp_all add: app_refresh_def rs_def)
  have t: "Token some_env noon app_refresh refresh_db = with_tokens some_env noon (rs 43) 7 ''openedge:read openedge:write'' ada
      (revoke_where (\<lambda>t. rf_hash t = hashToken some_env (tq_refresh app_refresh)) noon refresh_db)"
    by (rule Token_refresh[OF g(1) refresh_facts(1) refresh_found refresh_facts(4) fresh_with_tokens(1)[OF some_fresh refresh_facts(5)]])
  obtain db1 a r where 1: "Token some_env noon app_refresh refresh_db = (db1, Some (Tokens a r ''openedge:read openedge:write''))"
    and d: "db_clients db1 = db_clients refresh_db"
    unfolding t with_tokens_def by (auto simp: drawn_def)
  have c: "authenticateClient some_env False app_refresh db1 = Inr (rs 43)"
    using refresh_facts(1) by (simp only: authenticateClient_def find_client_def d)
  obtain db2 resp where 2: "Token some_env noon app_refresh db1 = (db2, resp)" by fastforce
  from reuse_ends_family[OF 1 g(1,1) refl g(2) 2 c] 1 2 show ?thesis by simp
qed

theorem code_survives_reset_witness:
  "\<exists>db1 db2 access r. ResetPassword some_crypto noon ''mailed'' ''a new password'' (code_db\<lparr>db_resets := [reset_row]\<rparr>) = (db1, None) \<and>
    Token some_env noon app_exchange db1 = (db2, Some (Tokens access r ''openedge:read openedge:write''))"
proof -
  let ?db = "code_db\<lparr>db_resets := [reset_row]\<rparr>"
  have E: "oe_crypto some_env = some_crypto" by (simp add: some_env_def)
  have f: "find_reset some_crypto noon ''mailed'' ?db = Some reset_row"
    by (simp add: find_reset_def reset_row_def some_crypto_def Hour_def Minute_def Second_def)
  obtain db1 where r: "ResetPassword some_crypto noon ''mailed'' ''a new password'' ?db = (db1, None)"
    by (simp add: ResetPassword_def f) (simp add: some_crypto_def)
  have "find_client ?db = find_client code_db" by (simp add: fun_eq_iff find_client_def)
  then have au: "authenticateClient some_env False app_exchange ?db = authenticateClient some_env False app_exchange code_db"
    by (simp only: authenticateClient_def)
  have e: "exchangeable some_env noon app_exchange app_code ada ?db"
    using app_exchangeable au
    by (simp add: exchangeable_def find_code_def consume_def user_by_id_def fresh_row_def draw_def)
  have g: "tq_grant app_exchange = ''authorization_code''" by (simp add: app_exchange_def)
  have c: "find_code some_env app_exchange ?db = Some app_code" "cd_user app_code = rt_user reset_row" "user_by_id ?db (rt_user reset_row) = Some ada"
    using e by (simp_all add: exchangeable_def app_code_def new_code_def reset_row_def)
  obtain db' a r' where t: "Token some_env noon app_exchange ?db = (db', Some (Tokens a r' ''openedge:read openedge:write''))"
    unfolding Token_code[OF g e] by (simp add: with_tokens_def) (simp add: app_code_def new_code_def app_request_def)
  from code_survives_reset[of some_env, unfolded E, OF f r g c t] r show ?thesis by blast
qed

end
