(* ===== verification/Service_Report.thy ===== *)
theory Service_Report
  imports Go_Base "HOL-Library.AList"
begin

text \<open>
  Continuity of service in the monthly report (\<open>internal/servicereport/outage.go\<close>): outages clamped to the period and merged,
  the time they add up to, and the availability of each gateway and of the fleet.

  \<open>sort.Slice\<close> leaves the order of equal elements open and a range over a map has no order; \<open>srt\<close> is what the sorting does to the
  slice it is given.
\<close>

record outage =
  og_GatewayID :: int
  og_GatewayName :: string
  og_Start :: gotime
  og_End :: gotime

definition Open :: "outage \<Rightarrow> bool" where
  "Open ou \<longleftrightarrow> IsZero (og_End ou)"

definition clamp_outage :: "gotime \<Rightarrow> gotime \<Rightarrow> outage \<Rightarrow> outage option" where
  "clamp_outage from_t to_t ou =
     (let end_t = (if Open ou \<or> og_End ou > to_t then to_t else og_End ou);
          start = (if og_Start ou < from_t then from_t else og_Start ou)
      in if \<not> end_t > start then None
         else Some \<lparr>og_GatewayID = og_GatewayID ou, og_GatewayName = og_GatewayName ou, og_Start = start, og_End = end_t\<rparr>)"

definition outage_less :: "outage \<Rightarrow> outage \<Rightarrow> bool" where
  "outage_less a b \<longleftrightarrow> (if og_GatewayID a \<noteq> og_GatewayID b then og_GatewayID a < og_GatewayID b else og_Start a < og_Start b)"

text \<open>The merged outages up to the last one, the last one, and what is still to be merged.\<close>

fun merge_loop :: "outage list \<Rightarrow> outage \<Rightarrow> outage list \<Rightarrow> outage list" where
  "merge_loop merged prev [] = merged @ [prev]"
| "merge_loop merged prev (ou # os) =
     (if og_GatewayID ou = og_GatewayID prev \<and> \<not> og_Start ou > og_End prev
      then merge_loop merged (if og_End ou > og_End prev then prev\<lparr>og_End := og_End ou\<rparr> else prev) os
      else merge_loop (merged @ [prev]) ou os)"

definition MergeOutages :: "(outage list \<Rightarrow> outage list) \<Rightarrow> outage list \<Rightarrow> gotime \<Rightarrow> gotime \<Rightarrow> outage list" where
  "MergeOutages srt outages from_t to_t =
     (case List.map_filter (clamp_outage from_t to_t) outages of
        [] \<Rightarrow> []
      | clamped \<Rightarrow> (case srt clamped of [] \<Rightarrow> [] | ou # os \<Rightarrow> merge_loop [] ou os))"

definition TotalDowntime :: "outage list \<Rightarrow> duration" where
  "TotalDowntime merged = fold (\<lambda>ou total. wrap64 (total + Sub (og_End ou) (og_Start ou))) merged 0"

record gateway_uptime =
  gu_GatewayID :: int
  gu_GatewayName :: string
  gu_Interruptions :: int
  gu_Downtime :: duration
  gu_Availability :: float64

definition one :: float64 where "one = f64_of_int 1"

text \<open>One less the share of the time that was lost, and not below zero.\<close>

definition available :: "duration \<Rightarrow> duration \<Rightarrow> float64" where
  "available down period =
     (let a = f64_sub one (f64_div (f64_of_int down) (f64_of_int period)) in if f64_lt a 0 then 0 else a)"

definition count_outage :: "outage \<Rightarrow> (int \<times> gateway_uptime) list \<Rightarrow> (int \<times> gateway_uptime) list" where
  "count_outage ou m =
     (let i = og_GatewayID ou;
          row = (case map_of m i of
                   Some row \<Rightarrow> row
                 | None \<Rightarrow> \<lparr>gu_GatewayID = i, gu_GatewayName = og_GatewayName ou, gu_Interruptions = 0, gu_Downtime = 0, gu_Availability = one\<rparr>)
      in AList.update i (row\<lparr>gu_Interruptions := wrap64 (gu_Interruptions row + 1),
           gu_Downtime := wrap64 (gu_Downtime row + Sub (og_End ou) (og_Start ou))\<rparr>) m)"

text \<open>The order of strings is that of their bytes.\<close>

fun string_less :: "string \<Rightarrow> string \<Rightarrow> bool" where
  "string_less s [] = False"
| "string_less [] (b # t) = True"
| "string_less (a # s) (b # t) = (if a = b then string_less s t else (of_char a :: nat) < of_char b)"

definition uptime_less :: "gateway_uptime \<Rightarrow> gateway_uptime \<Rightarrow> bool" where
  "uptime_less a b \<longleftrightarrow> (if gu_Downtime a \<noteq> gu_Downtime b then gu_Downtime a > gu_Downtime b else string_less (gu_GatewayName a) (gu_GatewayName b))"

definition Uptime :: "(gateway_uptime list \<Rightarrow> gateway_uptime list) \<Rightarrow> outage list \<Rightarrow> (int \<times> string) list \<Rightarrow> gotime \<Rightarrow> gotime \<Rightarrow> gateway_uptime list" where
  "Uptime srt merged gateways from_t to_t =
     (let period = Sub to_t from_t;
          byGateway = map (\<lambda>(i, name). (i, \<lparr>gu_GatewayID = i, gu_GatewayName = name, gu_Interruptions = 0, gu_Downtime = 0, gu_Availability = one\<rparr>)) gateways;
          byGateway = fold count_outage merged byGateway
      in srt (map (\<lambda>(i, row). if period > 0 then row\<lparr>gu_Availability := available (gu_Downtime row) period\<rparr> else row) byGateway))"

definition FleetAvailability :: "gateway_uptime list \<Rightarrow> gotime \<Rightarrow> gotime \<Rightarrow> float64" where
  "FleetAvailability rows from_t to_t =
     (let period = Sub to_t from_t
      in if period \<le> 0 \<or> rows = [] then one
         else let down = fold (\<lambda>r down. wrap64 (down + gu_Downtime r)) rows 0;
                  total = wrap64 (int (length rows) * period)
              in available down total)"

record service =
  sv_FleetAvailability :: float64
  sv_Interruptions :: nat
  sv_Downtime :: duration
  sv_Gateways :: "gateway_uptime list"

text \<open>The rows of the query are the alarms of the organization that touch the period.\<close>

definition buildService :: "(outage list \<Rightarrow> outage list) \<Rightarrow> (gateway_uptime list \<Rightarrow> gateway_uptime list) \<Rightarrow>
    outage list \<Rightarrow> (int \<times> string) list \<Rightarrow> gotime \<Rightarrow> gotime \<Rightarrow> service" where
  "buildService srt srt' outages gateways from_t to_t =
     (let merged = MergeOutages srt outages from_t to_t; rows = Uptime srt' merged gateways from_t to_t
      in \<lparr>sv_FleetAvailability = FleetAvailability rows from_t to_t, sv_Interruptions = length merged,
          sv_Downtime = TotalDowntime merged, sv_Gateways = rows\<rparr>)"

end
