(* ===== verification/Service_Report_Properties.thy ===== *)
theory Service_Report_Properties
  imports Service_Report "HOL-Library.Multiset"
begin

text \<open>
  What the numbers of the report measure: the merged outages are the time lost, without overlaps, and the downtime of a
  gateway is the number of nanoseconds of the period it was lost in.
\<close>

section \<open>The time that was lost\<close>

text \<open>What sorting a slice promises; the order of elements that compare equal is open.\<close>

definition sorts :: "('a \<Rightarrow> 'a \<Rightarrow> bool) \<Rightarrow> ('a list \<Rightarrow> 'a list) \<Rightarrow> bool" where
  "sorts lt srt \<longleftrightarrow> (\<forall>xs. mset (srt xs) = mset xs \<and> sorted_wrt (\<lambda>a b. \<not> lt b a) (srt xs))"

definition inside :: "int \<Rightarrow> gotime \<Rightarrow> outage list \<Rightarrow> bool" where
  "inside g t os \<longleftrightarrow> (\<exists>ou \<in> set os. og_GatewayID ou = g \<and> og_Start ou \<le> t \<and> t < og_End ou)"

text \<open>At time \<open>t\<close> of the period an alarm of gateway \<open>g\<close> was on.\<close>

definition lost :: "outage list \<Rightarrow> gotime \<Rightarrow> gotime \<Rightarrow> int \<Rightarrow> gotime \<Rightarrow> bool" where
  "lost outages from_t to_t g t \<longleftrightarrow> from_t \<le> t \<and> t < to_t \<and>
     (\<exists>ou \<in> set outages. og_GatewayID ou = g \<and> og_Start ou \<le> t \<and> (Open ou \<or> t < og_End ou))"

definition apart :: "outage \<Rightarrow> outage \<Rightarrow> bool" where
  "apart a b \<longleftrightarrow> og_GatewayID a < og_GatewayID b \<or> og_GatewayID a = og_GatewayID b \<and> og_End a < og_Start b"

definition proper :: "gotime \<Rightarrow> gotime \<Rightarrow> outage \<Rightarrow> bool" where
  "proper from_t to_t ou \<longleftrightarrow> from_t \<le> og_Start ou \<and> og_Start ou < og_End ou \<and> og_End ou \<le> to_t"

lemma clamped:
  "clamp_outage from_t to_t ou = Some c \<Longrightarrow> proper from_t to_t c"
  "(\<exists>c. clamp_outage from_t to_t ou = Some c \<and> og_GatewayID c = g \<and> og_Start c \<le> t \<and> t < og_End c) \<longleftrightarrow>
     from_t \<le> t \<and> t < to_t \<and> og_GatewayID ou = g \<and> og_Start ou \<le> t \<and> (Open ou \<or> t < og_End ou)"
  by (auto simp: clamp_outage_def proper_def Let_def split: if_splits)

lemma inside_clamped: "inside g t (List.map_filter (clamp_outage from_t to_t) os) \<longleftrightarrow> lost os from_t to_t g t"
proof -
  have "set (List.map_filter f xs) = {y. \<exists>x \<in> set xs. f x = Some y}" for f :: "outage \<Rightarrow> outage option" and xs
    by (force simp: List.map_filter_def)
  then have "inside g t (List.map_filter (clamp_outage from_t to_t) os) \<longleftrightarrow>
      (\<exists>ou \<in> set os. \<exists>c. clamp_outage from_t to_t ou = Some c \<and> og_GatewayID c = g \<and> og_Start c \<le> t \<and> t < og_End c)"
    unfolding inside_def by auto
  then show ?thesis unfolding clamped(2) lost_def by blast
qed

lemma clamped_proper: "c \<in> set (List.map_filter (clamp_outage from_t to_t) os) \<Longrightarrow> proper from_t to_t c"
  by (auto simp: List.map_filter_def clamped(1))

lemma inside_simps [simp]: "\<not> inside g t []" "inside g t (ou # os) \<longleftrightarrow> (og_GatewayID ou = g \<and> og_Start ou \<le> t \<and> t < og_End ou) \<or> inside g t os"
    "inside g t (os @ os') \<longleftrightarrow> inside g t os \<or> inside g t os'"
  by (auto simp: inside_def)

section \<open>Merging\<close>

lemma merge_loop_inside:
  "sorted_wrt (\<lambda>a b. \<not> outage_less b a) (l # os) \<Longrightarrow> \<forall>ou \<in> set (l # os). og_Start ou < og_End ou \<Longrightarrow>
   inside g t (merge_loop m l os) \<longleftrightarrow> inside g t (m @ l # os)"
proof (induction m l os rule: merge_loop.induct)
  case (2 m l ou os)
  have s: "og_GatewayID ou = og_GatewayID l \<longrightarrow> og_Start l \<le> og_Start ou" using "2.prems"(1) by (auto simp: outage_less_def split: if_splits)
  show ?case
  proof (cases "og_GatewayID ou = og_GatewayID l \<and> \<not> og_Start ou > og_End l")
    case True
    let ?l = "if og_End ou > og_End l then l\<lparr>og_End := og_End ou\<rparr> else l"
    have "sorted_wrt (\<lambda>a b. \<not> outage_less b a) (?l # os)" using "2.prems"(1) by (auto simp: outage_less_def split: if_splits)
    then have "inside g t (merge_loop m ?l os) \<longleftrightarrow> inside g t (m @ ?l # os)" using "2.prems"(2) by (intro "2.IH"(1)[OF True]) auto
    moreover have "og_GatewayID ?l = g \<and> og_Start ?l \<le> t \<and> t < og_End ?l \<longleftrightarrow>
        (og_GatewayID l = g \<and> og_Start l \<le> t \<and> t < og_End l) \<or> (og_GatewayID ou = g \<and> og_Start ou \<le> t \<and> t < og_End ou)"
      using True s by (cases "og_End ou > og_End l"; cases "og_GatewayID l = g") auto
    moreover have "merge_loop m l (ou # os) = merge_loop m ?l os" using True by simp
    ultimately show ?thesis by (simp only: inside_simps) blast
  next
    case False
    then have "merge_loop m l (ou # os) = merge_loop (m @ [l]) ou os" by (simp only: merge_loop.simps if_False)
    then show ?thesis using "2.IH"(2)[OF False] "2.prems" by simp
  qed
qed simp

lemma merge_loop_apart:
  "sorted_wrt (\<lambda>a b. \<not> outage_less b a) (l # os) \<Longrightarrow> sorted_wrt apart (m @ [l]) \<Longrightarrow> \<forall>ou \<in> set (m @ l # os). proper from_t to_t ou \<Longrightarrow>
   sorted_wrt apart (merge_loop m l os) \<and> (\<forall>ou \<in> set (merge_loop m l os). proper from_t to_t ou)"
proof (induction m l os rule: merge_loop.induct)
  case (2 m l ou os)
  have s: "og_GatewayID l < og_GatewayID ou \<or> og_GatewayID l = og_GatewayID ou \<and> og_Start l \<le> og_Start ou"
    using "2.prems"(1) by (auto simp: outage_less_def split: if_splits)
  show ?case
  proof (cases "og_GatewayID ou = og_GatewayID l \<and> \<not> og_Start ou > og_End l")
    case True
    let ?l = "if og_End ou > og_End l then l\<lparr>og_End := og_End ou\<rparr> else l"
    have "sorted_wrt (\<lambda>a b. \<not> outage_less b a) (?l # os)" using "2.prems"(1) by (auto simp: outage_less_def split: if_splits)
    moreover have "apart x ?l = apart x l" for x by (simp add: apart_def)
    then have "sorted_wrt apart (m @ [?l])" using "2.prems"(2) by (simp add: sorted_wrt_append)
    moreover have "\<forall>ou \<in> set (m @ ?l # os). proper from_t to_t ou" using "2.prems"(3) by (auto simp: proper_def)
    ultimately have "sorted_wrt apart (merge_loop m ?l os) \<and> (\<forall>ou \<in> set (merge_loop m ?l os). proper from_t to_t ou)"
      by (rule "2.IH"(1)[OF True])
    then show ?thesis unfolding merge_loop.simps if_P[OF True] .
  next
    case False
    have "apart l ou" using False s by (auto simp: apart_def)
    moreover have "apart x ou" if "x \<in> set m" for x
    proof -
      have "apart x l" using "2.prems"(2) that by (simp add: sorted_wrt_append)
      moreover have "og_Start l < og_End l" using "2.prems"(3) by (simp add: proper_def)
      ultimately show ?thesis using s by (auto simp: apart_def)
    qed
    ultimately have "sorted_wrt apart ((m @ [l]) @ [ou])" using "2.prems"(2) by (auto simp: sorted_wrt_append)
    then have "sorted_wrt apart (merge_loop (m @ [l]) ou os) \<and> (\<forall>ou \<in> set (merge_loop (m @ [l]) ou os). proper from_t to_t ou)"
      using "2.prems"(1,3) by (intro "2.IH"(2)[OF False]) auto
    then show ?thesis unfolding merge_loop.simps if_not_P[OF False] .
  qed
qed auto

lemma merged:
  assumes "sorts outage_less srt"
  shows "inside g t (MergeOutages srt os from_t to_t) \<longleftrightarrow> lost os from_t to_t g t"
    and "sorted_wrt apart (MergeOutages srt os from_t to_t)" and "\<forall>ou \<in> set (MergeOutages srt os from_t to_t). proper from_t to_t ou"
proof -
  let ?c = "List.map_filter (clamp_outage from_t to_t) os"
  have m: "mset (srt ?c) = mset ?c" "sorted_wrt (\<lambda>a b. \<not> outage_less b a) (srt ?c)" using assms by (auto simp: sorts_def)
  then have st: "set (srt ?c) = set ?c" by (metis set_mset_mset)
  have w: "inside g t (srt ?c) \<longleftrightarrow> lost os from_t to_t g t" using inside_clamped[of g t from_t to_t os] by (simp add: inside_def st)
  have e: "MergeOutages srt os from_t to_t = (case srt ?c of [] \<Rightarrow> [] | l # rest \<Rightarrow> merge_loop [] l rest)"
    using m(1) by (cases ?c) (auto simp: MergeOutages_def)
  show "inside g t (MergeOutages srt os from_t to_t) \<longleftrightarrow> lost os from_t to_t g t"
    and "sorted_wrt apart (MergeOutages srt os from_t to_t)" and "\<forall>ou \<in> set (MergeOutages srt os from_t to_t). proper from_t to_t ou"
  proof (atomize (full), cases "srt ?c")
    case (Cons l rest)
    have p: "\<forall>ou \<in> set (l # rest). proper from_t to_t ou" using clamped_proper[of _ from_t to_t os] st unfolding Cons[symmetric] by blast
    then have "\<forall>ou \<in> set (l # rest). og_Start ou < og_End ou" by (simp add: proper_def)
    then have "inside g t (merge_loop [] l rest) \<longleftrightarrow> inside g t (l # rest)"
      using merge_loop_inside[of l rest g t "[]"] m(2) unfolding Cons by simp
    moreover have "sorted_wrt apart (merge_loop [] l rest) \<and> (\<forall>ou \<in> set (merge_loop [] l rest). proper from_t to_t ou)"
      using merge_loop_apart[of l rest "[]" from_t to_t] m(2) p unfolding Cons by simp
    ultimately show "(inside g t (MergeOutages srt os from_t to_t) = lost os from_t to_t g t) \<and> sorted_wrt apart (MergeOutages srt os from_t to_t) \<and>
        (\<forall>ou \<in> set (MergeOutages srt os from_t to_t). proper from_t to_t ou)" using w unfolding e Cons by simp
  qed (use w e in simp)
qed

text \<open>
C25: merging keeps the time that was lost: an instant of the period lies in a merged outage of a gateway exactly when an alarm of
that gateway was on, and the merged outages are sorted, lie in the period, and never overlap or touch.
\<close>

theorem merged_canonical:
  assumes "sorts outage_less srt"
  shows "(inside g t (MergeOutages srt os from_t to_t) \<longleftrightarrow> lost os from_t to_t g t) \<and>
    sorted_wrt (\<lambda>a b. og_GatewayID a < og_GatewayID b \<or> og_GatewayID a = og_GatewayID b \<and> og_End a < og_Start b) (MergeOutages srt os from_t to_t) \<and>
    (\<forall>ou \<in> set (MergeOutages srt os from_t to_t). from_t \<le> og_Start ou \<and> og_Start ou < og_End ou \<and> og_End ou \<le> to_t)"
  using merged(1)[OF assms, of g t os from_t to_t] merged(2,3)[OF assms, of os from_t to_t] unfolding apart_def[abs_def] proper_def by blast

section \<open>Adding up\<close>

definition length_of :: "outage \<Rightarrow> int" where
  "length_of ou = og_End ou - og_Start ou"

lemma measured:
  "sorted_wrt apart xs \<Longrightarrow> \<forall>ou \<in> set xs. proper from_t to_t ou \<Longrightarrow>
   finite {(h, t). P h \<and> inside h t xs} \<and>
   int (card {(h, t). P h \<and> inside h t xs}) = sum_list (map length_of (filter (\<lambda>ou. P (og_GatewayID ou)) xs))"
proof (induction xs)
  case (Cons x xs)
  define A where "A = {(h, t). P h \<and> inside h t xs}"
  define B where "B = (if P (og_GatewayID x) then {og_GatewayID x} \<times> {og_Start x..<og_End x} else {})"
  have split: "{(h, t). P h \<and> inside h t (x # xs)} = B \<union> A" by (auto simp: A_def B_def)
  have "False" if hb: "(h, t) \<in> B" and ha: "(h, t) \<in> A" for h t
  proof -
    obtain y where y: "y \<in> set xs" "og_GatewayID y = h" "og_Start y \<le> t" using ha by (auto simp: A_def inside_def)
    have "h = og_GatewayID x" "t < og_End x" using hb by (auto simp: B_def split: if_splits)
    moreover have "apart x y" using Cons.prems(1) y(1) by simp
    ultimately show False using y by (simp add: apart_def)
  qed
  then have disjoint: "B \<inter> A = {}" by auto
  have b: "finite B" "int (card B) = (if P (og_GatewayID x) then length_of x else 0)"
    using Cons.prems(2) by (simp_all add: B_def card_cartesian_product length_of_def proper_def)
  have a: "finite A" "int (card A) = sum_list (map length_of (filter (\<lambda>ou. P (og_GatewayID ou)) xs))"
    using Cons.IH Cons.prems unfolding A_def by simp_all
  have "int (card (B \<union> A)) = int (card B) + int (card A)" using card_Un_disjoint[OF b(1) a(1) disjoint] by simp
  then show ?case unfolding split using a b by simp
qed simp

lemma wrap64_small: "0 \<le> x \<Longrightarrow> x < 2 ^ 63 \<Longrightarrow> wrap64 x = x"
  by (simp add: wrap64_def)

lemma Sub_small: "og_Start ou < og_End ou \<Longrightarrow> length_of ou < 2 ^ 63 \<Longrightarrow> Sub (og_End ou) (og_Start ou) = length_of ou"
  by (simp add: Sub_def length_of_def)

lemma sum_lengths_nonneg: "\<forall>ou \<in> set xs. og_Start ou < og_End ou \<Longrightarrow> 0 \<le> sum_list (map length_of xs)"
  by (rule sum_list_nonneg) (auto simp: length_of_def)

lemma total_fold:
  "\<forall>ou \<in> set xs. og_Start ou < og_End ou \<Longrightarrow> 0 \<le> a \<Longrightarrow> a + sum_list (map length_of xs) < 2 ^ 63 \<Longrightarrow>
   fold (\<lambda>ou total. wrap64 (total + Sub (og_End ou) (og_Start ou))) xs a = a + sum_list (map length_of xs)"
proof (induction xs arbitrary: a)
  case (Cons x xs)
  have n: "0 \<le> sum_list (map length_of xs)" using Cons.prems(1) by (intro sum_lengths_nonneg) simp
  have x: "0 < length_of x" using Cons.prems(1) by (simp add: length_of_def)
  then have "Sub (og_End x) (og_Start x) = length_of x" "wrap64 (a + length_of x) = a + length_of x"
    using Cons.prems n by (intro Sub_small wrap64_small; simp)+
  then show ?case using Cons.IH[of "a + length_of x"] Cons.prems x by (simp add: add.assoc)
qed simp

section \<open>The rows\<close>

lemma keys_update: "fst ` set (AList.update k v m) = insert k (fst ` set m)"
  by (induction m) auto

definition keyed_rows :: "(int \<times> gateway_uptime) list \<Rightarrow> bool" where
  "keyed_rows m \<longleftrightarrow> distinct (map fst m) \<and> (\<forall>(i, row) \<in> set m. gu_GatewayID row = i)"

definition down_of :: "(int \<times> gateway_uptime) list \<Rightarrow> int \<Rightarrow> duration" where
  "down_of m g = (case map_of m g of Some row \<Rightarrow> gu_Downtime row | None \<Rightarrow> 0)"

lemma set_update: "set (AList.update k v m) \<subseteq> insert (k, v) (set m)"
  by (induction m) auto

lemma count_outage_row:
  assumes "keyed_rows m"
  shows "keyed_rows (count_outage ou m)" "fst ` set (count_outage ou m) = insert (og_GatewayID ou) (fst ` set m)"
    "down_of (count_outage ou m) g = (if og_GatewayID ou = g then wrap64 (down_of m g + Sub (og_End ou) (og_Start ou)) else down_of m g)"
proof -
  define before where "before = (case map_of m (og_GatewayID ou) of Some row \<Rightarrow> row
    | None \<Rightarrow> \<lparr>gu_GatewayID = og_GatewayID ou, gu_GatewayName = og_GatewayName ou, gu_Interruptions = 0, gu_Downtime = 0, gu_Availability = one\<rparr>)"
  define row where "row = before\<lparr>gu_Interruptions := wrap64 (gu_Interruptions before + 1), gu_Downtime := wrap64 (gu_Downtime before + Sub (og_End ou) (og_Start ou))\<rparr>"
  have u: "count_outage ou m = AList.update (og_GatewayID ou) row m" unfolding count_outage_def Let_def row_def before_def ..
  have "gu_GatewayID before = og_GatewayID ou" "gu_Downtime before = down_of m (og_GatewayID ou)"
    using assms by (auto simp: before_def down_of_def keyed_rows_def split: option.split dest!: map_of_SomeD)
  then have row: "gu_GatewayID row = og_GatewayID ou" "gu_Downtime row = wrap64 (down_of m (og_GatewayID ou) + Sub (og_End ou) (og_Start ou))"
    by (simp_all add: row_def)
  have "distinct (map fst (count_outage ou m))" unfolding u using assms by (intro distinct_update) (simp add: keyed_rows_def)
  moreover have "gu_GatewayID r = i" if "(i, r) \<in> set (count_outage ou m)" for i r
    using that set_update[of "og_GatewayID ou" row m] assms row(1) unfolding u keyed_rows_def by blast
  ultimately show "keyed_rows (count_outage ou m)" unfolding keyed_rows_def by blast
  show "fst ` set (count_outage ou m) = insert (og_GatewayID ou) (fst ` set m)" unfolding u by (rule keys_update)
  show "down_of (count_outage ou m) g = (if og_GatewayID ou = g then wrap64 (down_of m g + Sub (og_End ou) (og_Start ou)) else down_of m g)"
    by (simp add: down_of_def u update_conv' row(2))
qed

lemma count_outages:
  "keyed_rows m \<Longrightarrow> keyed_rows (fold count_outage xs m) \<and> fst ` set (fold count_outage xs m) = fst ` set m \<union> og_GatewayID ` set xs \<and>
   down_of (fold count_outage xs m) g =
     fold (\<lambda>ou total. wrap64 (total + Sub (og_End ou) (og_Start ou))) (filter (\<lambda>ou. og_GatewayID ou = g) xs) (down_of m g)"
  by (induction xs arbitrary: m) (auto simp: count_outage_row)

lemma measured_gateway:
  assumes "sorted_wrt apart xs" "\<forall>ou \<in> set xs. proper from_t to_t ou"
  shows "int (card {t. inside g t xs}) = sum_list (map length_of (filter (\<lambda>ou. og_GatewayID ou = g) xs))"
proof -
  have "{(h, t). h = g \<and> inside h t xs} = Pair g ` {t. inside g t xs}" by auto
  then have "card {(h, t). h = g \<and> inside h t xs} = card {t. inside g t xs}" by (simp add: card_image inj_on_def)
  then show ?thesis using measured[OF assms, of "\<lambda>h. h = g"] by simp
qed

definition expected_rows :: "(int \<times> string) list \<Rightarrow> (int \<times> gateway_uptime) list" where
  "expected_rows gateways =
     map (\<lambda>(i, name). (i, \<lparr>gu_GatewayID = i, gu_GatewayName = name, gu_Interruptions = 0, gu_Downtime = 0, gu_Availability = one\<rparr>)) gateways"

lemma expected_rows:
  assumes "distinct (map fst gateways)"
  shows "keyed_rows (expected_rows gateways)" "fst ` set (expected_rows gateways) = fst ` set gateways" "down_of (expected_rows gateways) g = 0"
proof -
  have f: "map fst (expected_rows gateways) = map fst gateways" by (simp add: expected_rows_def comp_def case_prod_beta)
  then show "keyed_rows (expected_rows gateways)" using assms by (auto simp: keyed_rows_def) (auto simp: expected_rows_def)
  show "fst ` set (expected_rows gateways) = fst ` set gateways" using f by (metis list.set_map)
  have "gu_Downtime row = 0" if "(i, row) \<in> set (expected_rows gateways)" for i row using that by (auto simp: expected_rows_def)
  then show "down_of (expected_rows gateways) g = 0" by (auto simp: down_of_def split: option.split dest: map_of_SomeD)
qed

lemma counted_rows:
  assumes "sorted_wrt apart xs" "\<forall>ou \<in> set xs. proper from_t to_t ou" "distinct (map fst gateways)" "sum_list (map length_of xs) < 2 ^ 63"
  shows "keyed_rows (fold count_outage xs (expected_rows gateways))"
    and "fst ` set (fold count_outage xs (expected_rows gateways)) = fst ` set gateways \<union> {g. \<exists>t. inside g t xs}"
    and "down_of (fold count_outage xs (expected_rows gateways)) g = int (card {t. inside g t xs})"
proof -
  have se: "\<forall>ou \<in> set xs. og_Start ou < og_End ou" using assms(2) by (simp add: proper_def)
  note c = count_outages[OF expected_rows(1)[OF assms(3)], of xs]
  have "og_GatewayID ` set xs = {g. \<exists>t. inside g t xs}" using se by (force simp: inside_def)
  then show "keyed_rows (fold count_outage xs (expected_rows gateways))"
    and "fst ` set (fold count_outage xs (expected_rows gateways)) = fst ` set gateways \<union> {g. \<exists>t. inside g t xs}"
    using c[of 0] expected_rows(2)[OF assms(3)] by simp_all
  have "sum_list (map length_of (filter P xs)) \<le> sum_list (map length_of xs)" for P
    using se by (induction xs) (auto simp: length_of_def)
  then have b: "0 + sum_list (map length_of (filter (\<lambda>ou. og_GatewayID ou = g) xs)) < 2 ^ 63" using assms(4) le_less_trans by fastforce
  have "\<forall>ou \<in> set (filter (\<lambda>ou. og_GatewayID ou = g) xs). og_Start ou < og_End ou" using se by simp
  from total_fold[OF this order_refl b] show "down_of (fold count_outage xs (expected_rows gateways)) g = int (card {t. inside g t xs})"
    using c[of g] expected_rows(3)[OF assms(3)] measured_gateway[OF assms(1,2)] by simp
qed

lemma reported_rows:
  fixes m :: "(int \<times> gateway_uptime) list"
  assumes "mset (srt' (map f m)) = mset (map f m)" "keyed_rows m" "\<And>i row. gu_GatewayID (f (i, row)) = gu_GatewayID row \<and> gu_Downtime (f (i, row)) = gu_Downtime row"
  shows "distinct (map gu_GatewayID (srt' (map f m)))" "gu_GatewayID ` set (srt' (map f m)) = fst ` set m"
    and "r \<in> set (srt' (map f m)) \<Longrightarrow> gu_Downtime r = down_of m (gu_GatewayID r)"
proof -
  have st: "set (srt' (map f m)) = f ` set m" using assms(1) by (metis list.set_map set_mset_mset)
  have ids: "map gu_GatewayID (map f m) = map fst m" using assms(2,3) by (auto simp: keyed_rows_def)
  have "mset (map gu_GatewayID (srt' (map f m))) = mset (map fst m)" using assms(1) ids by (metis mset_map)
  then show "distinct (map gu_GatewayID (srt' (map f m)))" using assms(2) unfolding keyed_rows_def by (metis mset_eq_imp_distinct_iff)
  show "gu_GatewayID ` set (srt' (map f m)) = fst ` set m" unfolding st using ids by (metis list.set_map)
  assume "r \<in> set (srt' (map f m))"
  then obtain i row where r: "(i, row) \<in> set m" "r = f (i, row)" unfolding st by auto
  then have "map_of m i = Some row" "gu_GatewayID row = i" using assms(2) by (auto simp: keyed_rows_def)
  then show "gu_Downtime r = down_of m (gu_GatewayID r)" using assms(3) r(2) by (simp add: down_of_def)
qed

text \<open>
C24: the numbers of the report are measurements: the downtime of a gateway is the number of nanoseconds of the period in which one of
its alarms was on, however many alarms it had at once; every gateway that is expected and every one that failed has exactly one row; and the
downtime of the plant is the sum.
\<close>

theorem report_measures_downtime:
  assumes "sorts outage_less srt" "sorts uptime_less srt'" "distinct (map fst gateways)"
    and "int (card {(g, t). lost os from_t to_t g t}) < 2 ^ 63"
  shows "let s = buildService srt srt' os gateways from_t to_t in
    sv_Downtime s = int (card {(g, t). lost os from_t to_t g t}) \<and>
    distinct (map gu_GatewayID (sv_Gateways s)) \<and>
    gu_GatewayID ` set (sv_Gateways s) = fst ` set gateways \<union> {g. \<exists>t. lost os from_t to_t g t} \<and>
    (\<forall>r \<in> set (sv_Gateways s). gu_Downtime r = int (card {t. lost os from_t to_t (gu_GatewayID r) t}))"
proof -
  define xs where "xs = MergeOutages srt os from_t to_t"
  define avail where "avail = (\<lambda>(i :: int, row :: gateway_uptime). if Sub to_t from_t > 0 then row\<lparr>gu_Availability := available (gu_Downtime row) (Sub to_t from_t)\<rparr> else row)"
  have l: "lost os from_t to_t g t \<longleftrightarrow> inside g t xs" for g t unfolding xs_def merged(1)[OF assms(1)] ..
  have ap: "sorted_wrt apart xs" and pr: "\<forall>ou \<in> set xs. proper from_t to_t ou" unfolding xs_def using merged(2,3)[OF assms(1)] by blast+
  have all: "int (card {(h, t). inside h t xs}) = sum_list (map length_of xs)" using measured[OF ap pr, of "\<lambda>_. True"] by simp
  then have bound: "sum_list (map length_of xs) < 2 ^ 63" using assms(4) by (simp add: l)
  note c = counted_rows[OF ap pr assms(3) bound]
  have rows: "sv_Gateways (buildService srt srt' os gateways from_t to_t) = srt' (map avail (fold count_outage xs (expected_rows gateways)))"
    by (simp add: buildService_def Uptime_def Let_def xs_def expected_rows_def avail_def)
  have ms: "mset (srt' ys) = mset ys" for ys using assms(2) by (simp add: sorts_def)
  have av: "gu_GatewayID (avail (i, row)) = gu_GatewayID row \<and> gu_Downtime (avail (i, row)) = gu_Downtime row" for i row by (simp add: avail_def)
  note r = reported_rows[where srt' = srt' and f = avail, OF ms c(1) av]
  have "\<forall>ou \<in> set xs. og_Start ou < og_End ou" using pr by (simp add: proper_def)
  then have "sv_Downtime (buildService srt srt' os gateways from_t to_t) = int (card {(g, t). inside g t xs})"
    using total_fold[of xs 0] bound all by (simp add: buildService_def TotalDowntime_def Let_def xs_def)
  then show ?thesis unfolding Let_def rows l using r c(2,3) by simp
qed

section \<open>Availability\<close>

lemma round_nonneg: "0 \<le> q \<Longrightarrow> fst (fp_round F False q) = False"
  by (simp add: fp_round_def)

lemma fp_div_nonneg:
  assumes "fst a = False" "fst b = False" "\<not> fp_nan F a" "\<not> fp_nan F b" "snd b \<noteq> 0" "\<not> fp_inf F b"
  shows "fst (fp_div F a b) = False \<and> \<not> fp_nan F (fp_div F a b)"
proof -
  have "0 \<le> fp_val F a / fp_val F b" using assms(1,2) by (simp add: fp_val_def)
  then show ?thesis using assms by (auto simp: fp_div_def Let_def round_nonneg) (auto simp: fp_nan_def)
qed

lemma fp_div_bound64: "snd (fp_div binary64 a b) < 2 ^ 63"
  using fp_bound64(1,2) by (simp add: fp_div_def Let_def) (simp add: binary64_def)

lemma int_finite64:
  assumes "0 \<le> i" "i < 2 ^ 63"
  shows "fst (fp_of_int binary64 i) = False" "fp_finite binary64 (fp_of_int binary64 i)" "0 < i \<Longrightarrow> snd (fp_of_int binary64 i) \<noteq> 0"
proof -
  have q: "(of_int i :: rat) \<le> 2 ^ 63" "0 \<le> (of_int i :: rat)"
    using assms by (metis less_imp_le of_int_le_iff of_int_numeral of_int_power) (use assms in simp)
  have "round_mag 52 (- 1074) (of_int i) \<le> round_mag 52 (- 1074) (2 ^ 63)" using q(1) by (rule round_mag_mono)
  also have "round_mag 52 (- 1074) (2 ^ 63) < 2047 * 2 ^ 52" by code_simp
  finally show "fp_finite binary64 (fp_of_int binary64 i)" using q(2) by (simp add: fp_finite_def fp_of_int_def fp_round_def binary64_def)
  show f: "fst (fp_of_int binary64 i) = False" using q(2) by (simp add: fp_of_int_def round_nonneg)
  assume "0 < i"
  then have "(1 :: rat) \<le> of_int i" by simp
  moreover have "fp_finite binary64 (fp_of_int binary64 1)" "fp_val binary64 (fp_of_int binary64 1) = 1" using fp_of_int64[of 1] by simp_all
  ultimately have "1 \<le> fp_val binary64 (fp_of_int binary64 i)" using fp_round_ge[of binary64 "fp_of_int binary64 1" "of_int i" False] by (simp add: fp_of_int_def)
  then show "snd (fp_of_int binary64 i) \<noteq> 0" using f by (cases "snd (fp_of_int binary64 i) = 0") (simp_all add: fp_val_def)
qed

text \<open>
The availability of a gateway is a share: for any downtime and any period that has a length it lies between nothing and all of
the time, the rounding of the division and the subtraction included.
\<close>

theorem availability_is_share:
  assumes "0 \<le> down" "down < 2 ^ 63" "0 < period" "period < 2 ^ 63"
  shows "\<not> f64_lt (available down period) 0 \<and> \<not> f64_lt one (available down period)"
proof -
  let ?d = "f64_div (f64_of_int down) (f64_of_int period)"
  have u: "f64_unpack (f64_of_int i) = fp_of_int binary64 i" for i by (simp add: f64_unpack_of_int)
  note a = int_finite64[OF assms(1,2)] and b = int_finite64(1,2)[OF less_imp_le[OF assms(3)] assms(4)] int_finite64(3)[OF less_imp_le[OF assms(3)] assms(4,3)]
  have "f64_unpack ?d = fp_div binary64 (fp_of_int binary64 down) (fp_of_int binary64 period)" 
    unfolding f64_div_def u by (rule f64_unpack_pack[OF fp_div_bound64])
  moreover have "fst (fp_div binary64 (fp_of_int binary64 down) (fp_of_int binary64 period)) = False \<and>
      \<not> fp_nan binary64 (fp_div binary64 (fp_of_int binary64 down) (fp_of_int binary64 period))"
    using a b by (intro fp_div_nonneg) (auto simp: fp_finite_def fp_nan_def fp_inf_def)
  ultimately have d: "f64_le 0 ?d" by (simp add: f64_le_def fp_le_def fp_key_def f64_unpack_def fp_nan_def)
  have "\<not> f64_lt one (f64_sub one ?d)"
  proof
    assume lt: "f64_lt one (f64_sub one ?d)"
    then have "f64_le (f64_sub one ?d) (f64_sub one ?d)" by (simp add: f64_lt_def f64_le_def fp_less_def fp_le_def)
    from f64_sub_le[OF d this] lt show False by (simp add: f64_lt_not_le)
  qed
  moreover have "\<not> f64_lt 0 0" "\<not> f64_lt one 0" by code_simp+
  ultimately show ?thesis by (simp add: available_def Let_def)
qed

text \<open>The floats of that computation.\<close>

lemma hour_float: "f64_of_int 3600000000000 = 0x428A3185C5000000"
  by code_simp

lemma total_float: "f64_of_int (- 9222334473709551616) = 0xC3DFFF1415E05300"
  by code_simp

lemma share_float: "f64_div 0x428A3185C5000000 0xC3DFFF1415E05300 = 0xBE9A3246E5E23CFB"
  by code_simp

lemma one_float: "one = 0x3FF0000000000000"
  by code_simp

lemma rest_float: "f64_sub 0x3FF0000000000000 0xBE9A3246E5E23CFB = 0x3FF0000068C91B98"
  by code_simp

lemma rest_order: "f64_lt 0x3FF0000000000000 0x3FF0000068C91B98" "\<not> f64_lt 0x3FF0000068C91B98 0"
  by code_simp+

lemma over_hundred: "f64_lt one (available 3600000000000 (- 9222334473709551616))"
  unfolding available_def Let_def hour_float total_float share_float one_float rest_float by (simp only: rest_order if_False)

text \<open>
C40: the availability of the fleet is not: the gateway-time of 3444 gateways in a month of 31 days does not fit 64 bits, the total becomes
negative, and an hour of downtime gives an availability of more than everything.
\<close>

theorem fleet_over_hundred:
  assumes "length rows = 3444" "fold (\<lambda>r down. wrap64 (down + gu_Downtime r)) rows 0 = Hour" "Sub to_t from_t = 31 * 24 * Hour"
  shows "f64_lt one (FleetAvailability rows from_t to_t)"
proof -
  have t: "wrap64 (int 3444 * (31 * 24 * Hour)) = - 9222334473709551616" "Hour = 3600000000000" "0 < 31 * 24 * Hour"
    by (simp_all add: wrap64_def Hour_def Minute_def Second_def)
  have "rows \<noteq> []" using assms(1) by auto
  then have "FleetAvailability rows from_t to_t = available 3600000000000 (- 9222334473709551616)"
    unfolding FleetAvailability_def Let_def assms t(1) using t(2,3) by simp
  then show ?thesis using over_hundred by simp
qed

section \<open>An instance\<close>

text \<open>Sorting by insertion keeps what a slice is promised.\<close>

fun insert_by :: "('a \<Rightarrow> 'a \<Rightarrow> bool) \<Rightarrow> 'a \<Rightarrow> 'a list \<Rightarrow> 'a list" where
  "insert_by lt x [] = [x]"
| "insert_by lt x (y # ys) = (if lt y x then y # insert_by lt x ys else x # y # ys)"

definition sort_by :: "('a \<Rightarrow> 'a \<Rightarrow> bool) \<Rightarrow> 'a list \<Rightarrow> 'a list" where
  "sort_by lt xs = foldr (insert_by lt) xs []"

lemma insert_by_mset [simp]: "mset (insert_by lt x ys) = add_mset x (mset ys)"
  by (induction ys) auto

lemma insert_by_sorted:
  assumes "\<And>a b. lt a b \<Longrightarrow> \<not> lt b a" "\<And>a b c. \<not> lt b a \<Longrightarrow> \<not> lt c b \<Longrightarrow> \<not> lt c a"
  shows "sorted_wrt (\<lambda>a b. \<not> lt b a) ys \<Longrightarrow> sorted_wrt (\<lambda>a b. \<not> lt b a) (insert_by lt x ys)"
proof (induction ys)
  case (Cons y ys)
  have s: "set (insert_by lt x ys) = insert x (set ys)" by (metis insert_by_mset set_mset_add_mset_insert set_mset_mset)
  show ?case using Cons assms(1)[of y x] assms(2)[of y x] by (auto simp: s)
qed simp

lemma sorts_sort_by:
  assumes "\<And>a b. lt a b \<Longrightarrow> \<not> lt b a" "\<And>a b c. \<not> lt b a \<Longrightarrow> \<not> lt c b \<Longrightarrow> \<not> lt c a"
  shows "sorts lt (sort_by lt)"
proof -
  have "mset (foldr (insert_by lt) xs []) = mset xs" for xs by (induction xs) simp_all
  moreover have "sorted_wrt (\<lambda>a b. \<not> lt b a) (foldr (insert_by lt) xs [])" for xs
  proof (induction xs)
    case (Cons x xs)
    then show ?case using insert_by_sorted[of lt, OF assms] by simp
  qed simp
  ultimately show ?thesis by (simp add: sorts_def sort_by_def)
qed

lemma string_less_order: "\<not> string_less b a \<Longrightarrow> \<not> string_less c b \<Longrightarrow> \<not> string_less c a" "string_less a b \<Longrightarrow> \<not> string_less b a"
proof (induction a b arbitrary: c rule: string_less.induct)
  case (3 x s y t)
  { case 1 then show ?case using "3.IH" by (cases c) (auto split: if_splits) }
  { case 2 then show ?case using "3.IH" by (auto split: if_splits) }
next
  case (1 s)
  { case 1 then show ?case by (cases s; cases c) auto }
  { case 2 then show ?case by (cases s) auto }
next
  case (2 b t)
  { case 1 then show ?case by (cases c) auto }
  { case 2 then show ?case by simp }
qed

lemma not_uptime_less: "\<not> uptime_less b a \<longleftrightarrow> gu_Downtime b < gu_Downtime a \<or>
    gu_Downtime b = gu_Downtime a \<and> \<not> string_less (gu_GatewayName b) (gu_GatewayName a)"
  by (auto simp: uptime_less_def)

lemma uptime_less_order:
  "uptime_less a b \<Longrightarrow> \<not> uptime_less b a" "\<not> uptime_less b a \<Longrightarrow> \<not> uptime_less c b \<Longrightarrow> \<not> uptime_less c a"
proof -
  show "uptime_less a b \<Longrightarrow> \<not> uptime_less b a" using string_less_order(2) not_uptime_less[of b a] not_uptime_less[of a b] by fastforce
  show "\<not> uptime_less b a \<Longrightarrow> \<not> uptime_less c b \<Longrightarrow> \<not> uptime_less c a"
    unfolding not_uptime_less using string_less_order(1)[of "gu_GatewayName b" "gu_GatewayName a" "gu_GatewayName c"] by linarith
qed

lemma our_sorts: "sorts outage_less (sort_by outage_less)" "sorts uptime_less (sort_by uptime_less)"
proof -
  show "sorts outage_less (sort_by outage_less)" by (rule sorts_sort_by) (auto simp: outage_less_def split: if_splits)
  show "sorts uptime_less (sort_by uptime_less)"
    using uptime_less_order by (intro sorts_sort_by) blast+
qed

text \<open>Three alarms of one unplugged cable, one of them still on, and a gateway that never failed.\<close>

definition some_outages :: "outage list" where
  "some_outages = [\<lparr>og_GatewayID = 1, og_GatewayName = ''press'', og_Start = 50, og_End = 70\<rparr>,
     \<lparr>og_GatewayID = 1, og_GatewayName = ''press'', og_Start = 10, og_End = 40\<rparr>,
     \<lparr>og_GatewayID = 1, og_GatewayName = ''press'', og_Start = 20, og_End = 50\<rparr>,
     \<lparr>og_GatewayID = 2, og_GatewayName = ''oven'', og_Start = 90, og_End = 0\<rparr>]"

lemma few_lost: "int (card {(g, t). lost some_outages 1 100 g t}) < 2 ^ 63"
proof -
  have "{(g, t). lost some_outages 1 100 g t} \<subseteq> {1, 2} \<times> {1..<100}" by (auto simp: lost_def some_outages_def)
  then have "card {(g, t). lost some_outages 1 100 g t} \<le> card (({1, 2} :: int set) \<times> {1..<100 :: int})" by (intro card_mono) auto
  then show ?thesis by (simp add: card_cartesian_product)
qed

theorem merged_canonical_witness:
  "inside 1 60 (MergeOutages (sort_by outage_less) some_outages 1 100)"
  using merged_canonical[OF our_sorts(1), of 1 60 some_outages 1 100] by (simp add: lost_def some_outages_def)

theorem report_measures_downtime_witness:
  "sv_Downtime (buildService (sort_by outage_less) (sort_by uptime_less) some_outages [(1, ''press''), (3, ''saw'')] 1 100) =
     int (card {(g, t). lost some_outages 1 100 g t}) \<and>
   sv_Downtime (buildService (sort_by outage_less) (sort_by uptime_less) some_outages [(1, ''press''), (3, ''saw'')] 1 100) = 70"
proof
  show "sv_Downtime (buildService (sort_by outage_less) (sort_by uptime_less) some_outages [(1, ''press''), (3, ''saw'')] 1 100) = 70"
  proof -
    have "TotalDowntime (MergeOutages (sort_by outage_less) some_outages 1 100) = 70" by code_simp
    then show ?thesis by (simp add: buildService_def Let_def)
  qed
  show "sv_Downtime (buildService (sort_by outage_less) (sort_by uptime_less) some_outages [(1, ''press''), (3, ''saw'')] 1 100) =
     int (card {(g, t). lost some_outages 1 100 g t})"
    using report_measures_downtime[OF our_sorts, of "[(1, ''press''), (3, ''saw'')]" some_outages 1 100] few_lost by (simp add: Let_def)
qed

theorem availability_is_share_witness:
  "\<not> f64_lt (available (2 * Hour) (720 * Hour)) 0 \<and> \<not> f64_lt one (available (2 * Hour) (720 * Hour))"
  by (rule availability_is_share) (simp_all add: Hour_def Minute_def Second_def)

theorem fleet_over_hundred_witness:
  "f64_lt one (FleetAvailability
     (\<lparr>gu_GatewayID = 0, gu_GatewayName = ''oven'', gu_Interruptions = 1, gu_Downtime = Hour, gu_Availability = one\<rparr> #
       replicate 3443 \<lparr>gu_GatewayID = 1, gu_GatewayName = ''press'', gu_Interruptions = 0, gu_Downtime = 0, gu_Availability = one\<rparr>) 1 (1 + 31 * 24 * Hour))"
proof -
  have "(wrap64 ^^ n) d = d" if "0 \<le> d" "d < 2 ^ 63" for n d using that by (induction n) (simp_all add: wrap64_small)
  from this[of "3600000000000" 3443] show ?thesis
    by (intro fleet_over_hundred) (simp_all add: wrap64_small Sub_def Hour_def Minute_def Second_def)
qed

end
