(* ===== verification/Spec2Isabelle.thy ===== *)
theory Spec2Isabelle
  imports Sparkplug_Client Alarm_Properties Mqtt_Client Gateway_Health Modbus_Poll Driver_Properties S7_Properties
    Access_Properties OAuth_Properties Service_Report_Properties
begin

text \<open>
  \<^bold>\<open>OpenEdge, an industrial edge middleware.\<close>  Drivers poll the controllers of a plant, evaluate alarm rules, and
  publish readings over MQTT, in a JSON format of the platform and as Sparkplug B; services behind the broker keep
  history, watch the gateways and serve the user interface.  Operators write setpoints back through the same
  broker.  Boxes at the plants mirror their part of the platform's configuration and run the drivers.  This library models
  the path of a reading and of a command through the Modbus driver and the packages it is made of, and the path of the
  configuration from the platform's database to the driver containers of each box, and who may do what: accounts, sign-in,
  the filters in front of every request, the authorization server that lets other programs in on behalf of a user, and the
  availability the monthly report claims.

  \<^bold>\<open>Theories and sources\<close> (paths below \<open>src/\<close>)

  \<^item> \<open>Prelude\<close>, \<open>Go_Float\<close>, \<open>Go_Base\<close>: shared lemmas; IEEE 754 arithmetic of \<open>float32\<close> and \<open>float64\<close> on their bit
    patterns, rounded to nearest even, operation by operation (no fused multiply-add); dynamic values, decimal
    conversion, string functions and times of Go.
  \<^item> \<open>Topics\<close>: \<open>internal/naming/slug.go\<close>, \<open>internal/sparkplug/topic.go\<close>, \<open>internal/topics/health.go\<close>.
  \<^item> \<open>Protowire\<close>, \<open>Sparkplug\<close>: the protobuf codec of \<open>internal/sparkplug/{types,payload,protobuf}.go\<close>; the wire library is a
    record with the laws of the locale \<open>protowire_laws\<close>, interpreted on a concrete implementation.
  \<^item> \<open>Sparkplug_Client\<close>: \<open>internal/sparkplug/client.go\<close>, the edge node with its sequence counters, births and deaths, and
    the dual publisher.  The calls of the publisher are a list, their outcomes arbitrary.
  \<^item> \<open>Alarms\<close>, \<open>Alarm_Store\<close>, \<open>Alarm_Lifecycle\<close>, \<open>Alarm_Sync\<close>, \<open>Alarm_Properties\<close>: \<open>internal/alarms\<close>.  The manager is a record
    of definitions, tracks and the queue of database actions; event ids shared by pointer are addresses in \<open>refs\<close>.
    \<open>Alarm_Store\<close> is the table \<open>alarm_events\<close> behind the locale \<open>alarm_store\<close>, and the sweep of the platform, whose statement
    looks for an open row and writes its own in two steps, with what others do to the table in between as an argument.
  \<^item> \<open>Spool\<close>: \<open>internal/mqtt/spool.go\<close>, a file as bytes, with every outcome of every system call.
  \<^item> \<open>Mqtt_Client\<close>: \<open>internal/mqtt/client.go\<close>, publishing with store-and-forward, subscriptions and dispatch.
  \<^item> \<open>Gateway_Health\<close>: \<open>internal/gatewayhealth\<close>, what the operator is told about gateways.
  \<^item> \<open>Scaling\<close>: \<open>internal/scaling\<close>, conversion to engineering units; \<open>Commands\<close>: \<open>internal/commands\<close>, the validity of write
    commands; \<open>Rbe\<close>: \<open>internal/settings\<close>, report by exception.
  \<^item> \<open>Modbus\<close>, \<open>Modbus_Client\<close>: \<open>internal/modbus\<close>, addresses, configuration of the link, requests; block reads of the driver.
  \<^item> \<open>Modbus_Driver\<close>, \<open>Modbus_Poll\<close>: \<open>services/driver-modbus/main.go\<close>, which composes all of the above: its record holds the
    Modbus client, the Sparkplug node, the settings and the alarm manager, and its handlers call their operations.
    \<open>driver_step\<close> is the process: polls, reloads, started writes, tickers and incoming messages in any order.

  \<^item> \<open>Big_Endian\<close>, \<open>S7\<close>, \<open>S7_Properties\<close>: \<open>internal/s7/client.go\<close>, addresses, handshakes, requests, responses and values of
    Siemens controllers byte by byte; the TCP connection is a record of operations.
  \<^item> \<open>Tables\<close>: rows under integer keys, the upsert of SQL and loops that stop at the first error (locale \<open>keyed_update\<close>).
  \<^item> \<open>Edge_Config\<close>, \<open>Edge_Apply\<close>, \<open>Edge_Mirror\<close>: \<open>internal/edgesync\<close>, \<open>internal/handlers/edge_config.go\<close> and the box's side
    in \<open>services/driver-manager/{configsync,command_scope}.go\<close>: what the platform serves, what a box is responsible for, how the
    box writes it.  The database is a record of tables, each statement fails or takes effect as a whole.
  \<^item> \<open>Driver_Manager\<close>, \<open>Driver_Convergence\<close>, \<open>Driver_Properties\<close>: \<open>services/driver-manager/{main,adopt}.go\<close>, the synchronization of
    driver containers with the database.  Docker is a record of operations; \<open>reliable_docker\<close> states what it documents and
    holds of \<open>memory_docker\<close>.

  \<^item> \<open>Access\<close>, \<open>Access_Properties\<close>: \<open>internal/middleware\<close>, the filters of requests: sessions, scopes, roles, organizations, API keys,
    the rate limit.  The token library is a record; \<open>jwt_ok\<close> states what it documents and holds of \<open>counting_jwt\<close>.
  \<^item> \<open>Accounts\<close>, \<open>Accounts_Properties\<close>: \<open>internal/auth\<close> and the handlers of \<open>internal/handlers/auth.go\<close> that change accounts: lockout,
    passwords, time-based and recovery codes, enrollment, session tokens, password reset.  The tables are lists of rows.
  \<^item> \<open>OAuth\<close>, \<open>OAuth_Properties\<close>: \<open>internal/handlers/oauth.go\<close>.  A request of the token endpoint is a program counter that stops before
    each statement of the database; \<open>oauth_step\<close> is the server with any number of requests that interleave.  The state keeps the
    submitted forms of the consent page as they came, with the tables of that time; what a form allowed and whether it signed
    a user in is decided on them by \<open>signed_in\<close>, a specification of its own.
  \<^item> \<open>Service_Report\<close>, \<open>Service_Report_Properties\<close>: \<open>internal/servicereport/outage.go\<close> and \<open>buildService\<close> of \<open>report.go\<close>, what
    stopped and for how long.  The rows of the query are an argument, and so is what \<open>sort.Slice\<close> does (\<open>sorts\<close>).

  A struct is a record with the fields of the code, an interface value is \<open>go_value\<close> with its dynamic type, an error a
  value of a sum or option type; a run-time panic of the driver is \<open>None\<close>.  Integers whose width matters are
  words or wrapped explicitly.  An operation that holds a mutex is one step; handlers of the driver are atomic and read the clock once.
  Where a theorem holds for requests one after the other only, its text says so.

  \<^bold>\<open>What is proved.\<close>  Alarms: for every interleaving of readings, ticks, rule changes and database actions an
  occurrence is announced at most once and cleared at most once (\<open>alarm_history\<close>); once the queue is empty the open
  rows are the announced alarms where the manager started on a table without open rows, judges live readings and is the only one to write
  (\<open>alarm_log_agrees\<close>); never two open rows for a rule, as long as nobody opens one between the two steps of the
  sweep (\<open>one_open_row\<close>), and two of them when a driver does (\<open>sweep_stacks_duplicate\<close>); what delays, hysteresis, health
  rules, reloads and the sweep decide.  Sparkplug: what is encoded is decoded, the decoder ends on every input,
  and a host accepts the stream of the node alone (\<open>node_stream_accepted\<close>) and of the whole driver (\<open>driver_stream_accepted\<close>).
  Store and forward, with disk operations that succeed and records below 4 MB: bounded size, fewest oldest records dropped,
  replay in order, delivery after an outage; what is lost otherwise is stated too.  Subscriptions: \<open>topicMatch\<close> is the
  matching of the MQTT standard but for two cases (\<open>topicMatch_standard\<close>).  Gateways: down
  and up alternate in what the operator hears, and a scan that can write settles.  Modbus: every parsable tag is read exactly once,
  inside a block of its register table and at its offset, a number that fits its register is read back as written, a bit write
  touches one bit, a command that carries the time of its issue never starts late, the published
  value follows the readings, and the report \<open>online\<close> implies an open connection and is understood by the platform.
  S7: reading never panics whatever the device answers, a frame is read whole however the network cuts it, what is
  written is read back, equal requests name the same place, and exactly which writes panic.
  Configuration: a box holds exactly its share of the platform's database, accepts what is served and is stable under
  applying it again; with a reliable Docker daemon, on a host whose containers are all known to the manager and whose tables are
  in order (\<open>host_ready\<close>), one pass leaves one running driver per gateway to poll and no other
  (\<open>sync_converges\<close>), and where this holds of the platform and of its boxes they poll each gateway exactly once between them (\<open>polled_exactly_once\<close>).
  Access: five failures lock an account, a code signs in once when attempts come one after the other, the second factor cannot be left out, a reset ends every session, a session
  stays in its organization; a program gets a token only where a form of the consent page allowed it and signed the user in, for no more than was asked
  there (\<open>token_needs_consent\<close>), a code is good for one token under every interleaving (\<open>code_once\<close>), a write needs a consent
  to write (\<open>write_needs_consent\<close>), and a refresh token used again ends its family when requests come one after the other
  (\<open>reuse_ends_family\<close>, \<open>rotation_race\<close>).
  Report: the downtime it states is the number of nanoseconds lost (\<open>report_measures_downtime\<close>), since the merged outages cover
  just the time lost and never overlap (\<open>merged_canonical\<close>), and a gateway's availability is a share of the time.
  Invariants of the driver are proved once per primitive operation in the locales \<open>reading_invariant\<close>,
  \<open>link_invariant\<close> and \<open>driver_invariant\<close> and carried to every step there.

  Theorems of kind error state behaviour that contradicts a comment of the code; the manifest lists them as findings.

  \<^bold>\<open>Fuel and bounds.\<close>  The decoder loops consume input, so their fuel is the number of bytes
  (\<open>DecodePayload_terminates\<close>); trimming consumes a character per step and takes the length; everything else is structural
  or has a termination proof (\<open>drain_loop\<close>).  A request of the token endpoint has at most five statements (\<open>served_code\<close>,
  \<open>Token_code\<close>, \<open>Token_refresh\<close>).

  \<^bold>\<open>Not modelled.\<close>  The drivers for S7, OPC UA, MQTT, Redis and LoRaWAN, the client of OPC UA, the historian
  notifications and the watching of the database are open work.  The other HTTP handlers, the database schema, the sign-in of identity providers, the user
  interfaces and forecasting are mostly calls of libraries and SQL; so is what the driver manager does beside its
  containers (self-update over HTTP, heartbeats).  Within the
  modelled packages: log lines, metrics, the audit log, start-up from the environment, and the scheduling of goroutines inside one
  handler (the token endpoint, the statement of the sweep and the guesses of a password or a code apart).
\<close>

section \<open>From the driver to the watcher\<close>

text \<open>All health reports of a driver go to its topic, and its identity does not change.\<close>

definition report_inv :: "'db driver \<Rightarrow> bool" where
  "report_inv d \<longleftrightarrow> d_orgID d = 0 \<and> list_all (\<lambda>m. msg_topic m = Health 0 (d_gatewayID d)) (health_reports (d_mqtt d))"




lemma report_inv_link [simp]: "report_inv (d\<lparr>d_modbusClient := c\<rparr>) = report_inv d" "report_inv (d\<lparr>d_isConnected := b\<rparr>) = report_inv d"
  by (simp_all add: report_inv_def)






end
